(* ===== verification/Prelude.thy ===== *)
theory Prelude
  imports Main "HOL-Library.Char_ord" "HOL-Library.List_Lexorder"
begin

text \<open>
  Shared vocabulary of the development: the parts of Go and of its standard library the
  modelled packages use (byte strings, instants and durations, 64-bit wrap-around, first
  errors of a loop), the collections of simplification rules, and the interface locales
  that several components instantiate:

  \<^item> \<open>transition_table\<close>: a lifecycle document (states, named transitions, terminal states) as
    the embedded YAML lifecycles and the administrative grant lifecycle have it;
  \<^item> \<open>newest_first\<close>: an order in which one observation supersedes another, and the loop that
    keeps the newest.

  Conventions. A Go string is a list of bytes (\<open>string\<close>), and the empty string is \<open>''''\<close>.
  An instant (\<open>time.Time\<close>) is the number of nanoseconds since the zero instant, so
  \<open>IsZero\<close> is equality with 0 and \<open>UTC\<close> is the identity; a nil pointer is \<open>None\<close>. A
  named string type of Go with constants is a \<open>datatype\<close> with one constructor per constant
  and one further constructor for every other string. \<open>error\<close> results are values: a check
  returns \<open>None\<close> for nil, an operation returns \<open>Inl\<close> of the error or \<open>Inr\<close> of the value.
\<close>

named_theorems go_simps \<open>evaluation of the modelled standard library\<close>
named_theorems error_simps \<open>when a chain of checks reports no error\<close>
named_theorems result_simps \<open>when a chain of guarded steps returns a value\<close>

section \<open>Go integers, instants and durations\<close>

type_synonym instant = int
type_synonym duration = int

text \<open>The value of an \<open>int64\<close> expression: wrap-around of the mathematical result.\<close>

definition wrap64 :: "int \<Rightarrow> int" where
  "wrap64 x = signed_take_bit 63 x"

definition min_duration :: int where
  "min_duration = - 9223372036854775808"

definition max_duration :: int where
  "max_duration = 9223372036854775807"

text \<open>\<open>Time.Sub\<close> saturates at the ends of the duration range.\<close>

definition time_sub :: "instant \<Rightarrow> instant \<Rightarrow> duration" where
  "time_sub a b = max min_duration (min max_duration (a - b))"

definition second_ns :: duration where
  "second_ns = 1000000000"

definition minute_ns :: duration where
  "minute_ns = 60 * second_ns"

definition hour_ns :: duration where
  "hour_ns = 3600 * second_ns"

text \<open>\<open>time.Duration(n) * unit\<close>, computed at 64 bits.\<close>

definition duration_of :: "int \<Rightarrow> duration \<Rightarrow> duration" where
  "duration_of n unit = wrap64 (n * unit)"

lemma wrap64_id: "min_duration \<le> x \<Longrightarrow> x \<le> max_duration \<Longrightarrow> wrap64 x = x"
  unfolding wrap64_def min_duration_def max_duration_def
  by (rule signed_take_bit_int_eq_self) simp_all

lemma wrap64_range: "min_duration \<le> wrap64 x \<and> wrap64 x \<le> max_duration"
  using signed_take_bit_int_greater_eq_minus_exp [of 63 x] signed_take_bit_int_less_exp [of 63 x]
  by (simp add: wrap64_def min_duration_def max_duration_def)

lemma time_sub_exact:
  "min_duration \<le> a - b \<Longrightarrow> a - b \<le> max_duration \<Longrightarrow> time_sub a b = a - b"
  by (simp add: time_sub_def)

lemma time_sub_le:
  "d < max_duration \<Longrightarrow> time_sub a b \<le> d \<Longrightarrow> a - b \<le> d"
  by (simp add: time_sub_def max_def min_def min_duration_def max_duration_def split: if_splits)

section \<open>Go strings\<close>

text \<open>
  Identifiers, keys and codes are ASCII, and case folding and white space are modelled on
  ASCII bytes (\<open>strings.ToLower\<close>, \<open>strings.TrimSpace\<close>).
\<close>

definition byte :: "char \<Rightarrow> nat" where
  "byte c = of_char c"

definition is_upper :: "char \<Rightarrow> bool" where
  "is_upper c \<longleftrightarrow> 65 \<le> byte c \<and> byte c \<le> 90"

definition is_lower :: "char \<Rightarrow> bool" where
  "is_lower c \<longleftrightarrow> 97 \<le> byte c \<and> byte c \<le> 122"

definition is_digit :: "char \<Rightarrow> bool" where
  "is_digit c \<longleftrightarrow> 48 \<le> byte c \<and> byte c \<le> 57"

definition is_space :: "char \<Rightarrow> bool" where
  "is_space c \<longleftrightarrow> byte c = 32 \<or> (9 \<le> byte c \<and> byte c \<le> 13)"

definition lower_char :: "char \<Rightarrow> char" where
  "lower_char c = (if is_upper c then char_of (byte c + 32) else c)"

definition to_lower :: "string \<Rightarrow> string" where
  "to_lower s = map lower_char s"

definition trim_space :: "string \<Rightarrow> string" where
  "trim_space s = rev (dropWhile is_space (rev (dropWhile is_space s)))"

text \<open>\<open>strings.Split\<close> at one byte: always at least one segment.\<close>

fun split_at :: "char \<Rightarrow> string \<Rightarrow> string list" where
  "split_at sep [] = [[]]"
| "split_at sep (c # cs) =
     (if c = sep then [] # split_at sep cs
      else (case split_at sep cs of [] \<Rightarrow> [[c]] | w # ws \<Rightarrow> (c # w) # ws))"

lemmas char_class_defs = byte_def is_upper_def is_lower_def is_digit_def is_space_def

declare char_class_defs [go_simps] lower_char_def [go_simps] to_lower_def [go_simps]
  trim_space_def [go_simps] char_of_def [go_simps] bit_Suc_0_iff [go_simps]

lemma split_at_nonempty [simp]: "split_at sep s \<noteq> []"
  by (induction s) (auto split: list.splits)

text \<open>The character classes on the bits of a character, for evaluation.\<close>

lemma lower_char_bits [code]:
  "lower_char (Char b0 b1 b2 b3 b4 b5 b6 b7) =
    (if b6 \<and> \<not> b7 \<and> \<not> b5 \<and> (b0 \<or> b1 \<or> b2 \<or> b3 \<or> b4) \<and> \<not> (b4 \<and> b3 \<and> (b2 \<or> b1 \<and> b0))
     then Char b0 b1 b2 b3 b4 True b6 b7 else Char b0 b1 b2 b3 b4 b5 b6 b7)"
  by (cases b0; cases b1; cases b2; cases b3; cases b4; cases b5; cases b6; cases b7; simp add: go_simps)

lemma is_lower_bits [code]:
  "is_lower (Char b0 b1 b2 b3 b4 b5 b6 b7) \<longleftrightarrow>
    b6 \<and> \<not> b7 \<and> b5 \<and> (b0 \<or> b1 \<or> b2 \<or> b3 \<or> b4) \<and> \<not> (b4 \<and> b3 \<and> (b2 \<or> b1 \<and> b0))"
  by (cases b0; cases b1; cases b2; cases b3; cases b4; cases b5; cases b6; cases b7; simp add: go_simps)

lemma is_digit_bits [code]:
  "is_digit (Char b0 b1 b2 b3 b4 b5 b6 b7) \<longleftrightarrow> \<not> b7 \<and> \<not> b6 \<and> b5 \<and> b4 \<and> \<not> (b3 \<and> (b2 \<or> b1))"
  by (cases b0; cases b1; cases b2; cases b3; cases b4; cases b5; cases b6; cases b7; simp add: go_simps)

lemma is_space_bits [code]:
  "is_space (Char b0 b1 b2 b3 b4 b5 b6 b7) \<longleftrightarrow>
    \<not> b7 \<and> \<not> b6 \<and> \<not> b4 \<and> (if b5 then \<not> b3 \<and> \<not> b2 \<and> \<not> b1 \<and> \<not> b0 else b3 \<and> (if b2 then \<not> b1 else b1 \<or> b0))"
  by (cases b0; cases b1; cases b2; cases b3; cases b4; cases b5; cases b6; cases b7; simp add: go_simps)

lemma trim_space_empty_iff: "trim_space s = [] \<longleftrightarrow> list_all is_space s"
proof -
  have "dropWhile is_space (rev (dropWhile is_space s)) = [] \<longleftrightarrow> dropWhile is_space s = []"
  proof
    assume "dropWhile is_space (rev (dropWhile is_space s)) = []"
    then have all: "\<forall>c \<in> set (dropWhile is_space s). is_space c" by auto
    show "dropWhile is_space s = []"
    proof (rule ccontr)
      assume ne: "dropWhile is_space s \<noteq> []"
      then have "\<not> is_space (hd (dropWhile is_space s))" by (rule hd_dropWhile)
      with all ne show False by auto
    qed
  qed (auto dest: set_dropWhileD)
  then show ?thesis
    by (simp only: trim_space_def rev_is_Nil_conv dropWhile_eq_Nil_conv list_all_iff)
qed

lemma find_SomeD: "find P xs = Some x \<Longrightarrow> x \<in> set xs \<and> P x"
  by (auto simp: find_Some_iff)

section \<open>Loops that stop at the first error, and maps with a zero value\<close>

text \<open>The first failing check of a \<open>for\<close> loop that returns on error.\<close>

fun first_error :: "('a \<Rightarrow> 'e option) \<Rightarrow> 'a list \<Rightarrow> 'e option" where
  "first_error f [] = None"
| "first_error f (x # xs) = (case f x of None \<Rightarrow> first_error f xs | Some e \<Rightarrow> Some e)"

text \<open>A loop that folds a state and returns on error.\<close>

fun fold_result :: "('a \<Rightarrow> 's \<Rightarrow> 'e + 's) \<Rightarrow> 'a list \<Rightarrow> 's \<Rightarrow> 'e + 's" where
  "fold_result f [] s = Inr s"
| "fold_result f (x # xs) s = (case f x s of Inl e \<Rightarrow> Inl e | Inr s' \<Rightarrow> fold_result f xs s')"

lemma first_error_None_iff: "first_error f xs = None \<longleftrightarrow> (\<forall>x \<in> set xs. f x = None)"
  by (induction xs) (auto split: option.splits)

lemma first_error_Some_ex: "first_error f xs = Some e \<Longrightarrow> \<exists>x \<in> set xs. f x = Some e"
  by (induction xs) (auto split: option.splits)

lemma fold_result_invariant:
  assumes "fold_result f xs s = Inr s'" and "I s"
    and "\<And>x t t'. x \<in> set xs \<Longrightarrow> f x t = Inr t' \<Longrightarrow> I t \<Longrightarrow> I t'"
  shows "I s'"
  using assms
proof (induction xs arbitrary: s)
  case Nil
  then show ?case by simp
next
  case (Cons x xs)
  from Cons.prems(1) obtain t where t: "f x s = Inr t" and rest: "fold_result f xs t = Inr s'"
    by (auto split: sum.splits)
  from Cons.prems(3) [OF _ t Cons.prems(2)] have "I t" by simp
  from rest this show ?case
  proof (rule Cons.IH)
    fix y u u'
    assume "y \<in> set xs" and "f y u = Inr u'" and "I u"
    then show "I u'" using Cons.prems(3) [of y u u'] by simp
  qed
qed

text \<open>
  A chain of early returns reports no error exactly when no guard fires; a chain of guarded
  steps returns a value exactly when no guard fires and the last step returns it. Proofs about
  the operations rewrite with these rules instead of splitting every case.
\<close>

lemma if_error_None [error_simps]: "(if b then Some e else y) = None \<longleftrightarrow> \<not> b \<and> y = None"
  by simp

lemma case_error_None [error_simps]:
  "(case x of None \<Rightarrow> y | Some e \<Rightarrow> Some (f e)) = None \<longleftrightarrow> x = None \<and> y = None"
  by (cases x) simp_all

lemma case_lookup_None [error_simps]:
  "(case x of None \<Rightarrow> Some e | Some v \<Rightarrow> h v) = None \<longleftrightarrow> (\<exists>v. x = Some v \<and> h v = None)"
  by (cases x) simp_all

lemma if_Inl_Inr [result_simps]: "(if b then Inl e else y) = Inr v \<longleftrightarrow> \<not> b \<and> y = Inr v"
  by simp

lemma case_lookup_Inr [result_simps]:
  "(case x of None \<Rightarrow> Inl e | Some w \<Rightarrow> h w) = Inr v \<longleftrightarrow> (\<exists>w. x = Some w \<and> h w = Inr v)"
  by (cases x) simp_all

lemma case_error_Inr [result_simps]:
  "(case x of None \<Rightarrow> y | Some e \<Rightarrow> Inl (f e)) = Inr v \<longleftrightarrow> x = None \<and> y = Inr v"
  by (cases x) simp_all

lemma case_result_Inr [result_simps]:
  "(case x of Inl e \<Rightarrow> Inl (f e) | Inr w \<Rightarrow> h w) = Inr v \<longleftrightarrow> (\<exists>w. x = Inr w \<and> h w = Inr v)"
  by (cases x) simp_all

text \<open>\<open>m[k]\<close> of a Go map whose missing entries read as the zero value.\<close>

definition map_read :: "'v \<Rightarrow> ('k \<Rightarrow> 'v option) \<Rightarrow> 'k \<Rightarrow> 'v" where
  "map_read z m k = (case m k of None \<Rightarrow> z | Some v \<Rightarrow> v)"

lemma map_read_simps [simp]:
  "m k = None \<Longrightarrow> map_read z m k = z"
  "m k = Some v \<Longrightarrow> map_read z m k = v"
  by (simp_all add: map_read_def)

section \<open>Lifecycle documents\<close>

text \<open>
  A lifecycle is a partial function from a state and a transition name to the next state.
  A run applies a list of transitions; it fails at the first one the lifecycle refuses.
\<close>

fun run_table :: "('s \<Rightarrow> 't \<Rightarrow> 's option) \<Rightarrow> 's \<Rightarrow> 't list \<Rightarrow> 's option" where
  "run_table nxt s [] = Some s"
| "run_table nxt s (t # ts) = (case nxt s t of None \<Rightarrow> None | Some s' \<Rightarrow> run_table nxt s' ts)"

lemma run_table_append:
  "run_table nxt s (ts @ us) = (case run_table nxt s ts of None \<Rightarrow> None | Some s' \<Rightarrow> run_table nxt s' us)"
  by (induction ts arbitrary: s) (auto split: option.splits)

lemma run_table_invariant:
  assumes "\<And>s t s'. I s \<Longrightarrow> nxt s t = Some s' \<Longrightarrow> I s'"
  shows "I s \<Longrightarrow> run_table nxt s ts = Some s' \<Longrightarrow> I s'"
  using assms by (induction ts arbitrary: s) (auto split: option.splits)

text \<open>
  A gate: when every transition out of a set of states stays in it or leads to the gate, a
  run from inside the set to a state outside it passes the gate.
\<close>

lemma run_table_gate:
  assumes closed: "\<And>x t y. x \<in> A \<Longrightarrow> nxt x t = Some y \<Longrightarrow> y \<in> A \<or> y = g"
  shows "s \<in> A \<Longrightarrow> run_table nxt s ts = Some s' \<Longrightarrow> s' \<notin> A \<Longrightarrow>
    \<exists>us vs. ts = us @ vs \<and> run_table nxt s us = Some g \<and> run_table nxt g vs = Some s'"
proof (induction ts arbitrary: s)
  case Nil
  then show ?case by simp
next
  case (Cons t ts)
  from Cons.prems(2) obtain u where u: "nxt s t = Some u" and rest: "run_table nxt u ts = Some s'"
    by (auto split: option.splits)
  from closed [OF Cons.prems(1) u] consider (inside) "u \<in> A" | (gate) "u = g" by blast
  then show ?case
  proof cases
    case inside
    from Cons.IH [OF inside rest Cons.prems(3)] obtain us vs
      where "ts = us @ vs" "run_table nxt u us = Some g" "run_table nxt g vs = Some s'" by blast
    with u have "t # ts = (t # us) @ vs \<and> run_table nxt s (t # us) = Some g \<and> run_table nxt g vs = Some s'"
      by simp
    then show ?thesis by blast
  next
    case gate
    with u rest have "t # ts = [t] @ ts \<and> run_table nxt s [t] = Some g \<and> run_table nxt g ts = Some s'"
      by simp
    then show ?thesis by blast
  qed
qed

text \<open>
  What a lifecycle document promises: a terminal state allows no transition, and every
  other known state has a transition that brings it closer to a terminal one.
\<close>

locale transition_table =
  fixes nxt :: "'s \<Rightarrow> 't \<Rightarrow> 's option" and terminal :: "'s \<Rightarrow> bool"
  assumes terminal_refuses: "terminal s \<Longrightarrow> nxt s t = None"
begin

lemma terminal_final:
  "terminal s \<Longrightarrow> run_table nxt s ts = Some s' \<Longrightarrow> ts = [] \<and> s' = s"
  by (cases ts) (simp_all add: terminal_refuses)

end

locale live_table = transition_table nxt terminal
  for nxt :: "'s \<Rightarrow> 't \<Rightarrow> 's option" and terminal :: "'s \<Rightarrow> bool" +
  fixes known :: "'s \<Rightarrow> bool" and rank :: "'s \<Rightarrow> nat"
  assumes live: "known s \<Longrightarrow> \<not> terminal s \<Longrightarrow> \<exists>t s'. nxt s t = Some s' \<and> known s' \<and> rank s' < rank s"
begin

lemma can_finish: "known s \<Longrightarrow> \<exists>ts s'. run_table nxt s ts = Some s' \<and> terminal s'"
proof (induction "rank s" arbitrary: s rule: less_induct)
  case less
  show ?case
  proof (cases "terminal s")
    case True
    then have "run_table nxt s [] = Some s \<and> terminal s" by simp
    then show ?thesis by blast
  next
    case False
    from live [OF less.prems False] obtain t s' where t: "nxt s t = Some s'" and "known s'" "rank s' < rank s"
      by blast
    with less.hyps obtain ts s'' where "run_table nxt s' ts = Some s''" "terminal s''" by blast
    with t have "run_table nxt s (t # ts) = Some s'' \<and> terminal s''" by simp
    then show ?thesis by blast
  qed
qed

end

section \<open>Keeping the newest\<close>

text \<open>The loop \<open>if newest == nil || Newer(x, *newest) { newest = x }\<close> over a slice.\<close>

fun keep_newest :: "('a \<Rightarrow> 'a \<Rightarrow> bool) \<Rightarrow> 'a option \<Rightarrow> 'a list \<Rightarrow> 'a option" where
  "keep_newest newer acc [] = acc"
| "keep_newest newer None (x # xs) = keep_newest newer (Some x) xs"
| "keep_newest newer (Some n) (x # xs) = keep_newest newer (Some (if newer x n then x else n)) xs"

locale newest_first =
  fixes newer :: "'a \<Rightarrow> 'a \<Rightarrow> bool"
  assumes newer_asym: "newer a b \<Longrightarrow> \<not> newer b a"
    and newer_cotrans: "newer a c \<Longrightarrow> newer a b \<or> newer b c"
begin

lemma newer_irrefl: "\<not> newer a a"
  using newer_asym by blast

lemma keep_newest_Some_max:
  "keep_newest newer (Some n) xs = Some m \<Longrightarrow> m \<in> insert n (set xs) \<and> (\<forall>x \<in> insert n (set xs). \<not> newer x m)"
proof (induction xs arbitrary: n)
  case Nil
  then show ?case by (simp add: newer_irrefl)
next
  case (Cons x xs)
  let ?n = "if newer x n then x else n"
  from Cons.prems have "keep_newest newer (Some ?n) xs = Some m" by simp
  from Cons.IH [OF this] have m: "m \<in> insert ?n (set xs)" and top: "\<forall>y \<in> insert ?n (set xs). \<not> newer y m"
    by blast+
  have "\<not> newer x m \<and> \<not> newer n m"
    using top newer_cotrans [of x m n] newer_cotrans [of n m x] newer_asym [of x n] by (auto split: if_splits)
  with m top show ?case by (auto split: if_splits)
qed

lemma keep_newest_max:
  assumes "keep_newest newer None xs = Some m"
  shows "m \<in> set xs \<and> (\<forall>x \<in> set xs. \<not> newer x m)"
  using assms by (cases xs) (auto dest: keep_newest_Some_max)

lemma keep_newest_Some: "\<exists>m. keep_newest newer (Some n) xs = Some m"
  by (induction xs arbitrary: n) simp_all

lemma keep_newest_None_iff: "keep_newest newer None xs = None \<longleftrightarrow> xs = []"
proof (cases xs)
  case Nil
  then show ?thesis by simp
next
  case (Cons x ys)
  then show ?thesis using keep_newest_Some [of x ys] by auto
qed

text \<open>Where ties are only between equal elements, the order of the slice does not matter.\<close>

lemma keep_newest_unique:
  assumes "keep_newest newer None xs = Some m" and "x \<in> set xs"
    and "\<And>y. y \<in> set xs \<Longrightarrow> y \<noteq> x \<Longrightarrow> newer x y"
  shows "m = x"
  using assms keep_newest_max [OF assms(1)] by blast

end

end
