(* ===== verification/Changeset_Lifecycle.thy ===== *)
theory Changeset_Lifecycle
  imports Prelude
begin

text \<open>
  The changeset lifecycle (\<open>internal/changeset/lifecycle.go\<close>): the transitions, terminal states
  and change kinds of the embedded \<open>control-plane/v1/changeset-lifecycle.yaml\<close>, written out
  here as \<open>cs_states\<close>, \<open>cs_terminal_states\<close> and \<open>cs_kinds\<close>.

  The lemmas interpret the document as a \<open>live_table\<close>: terminal states are final, every other
  state can reach one, and a changeset completes only through approval, application and
  verification, in that order.
\<close>

section \<open>States and transitions\<close>

datatype cs_state =
    StateDraft | StateValidating | StateInvalid | StatePlanning | StateBlocked | StatePlanned
  | StateAwaitingApproval | StateRejected | StateChangesRequested | StateApproved | StateScheduled
  | StateApplying | StateFailed | StatePartiallyApplied | StateVerifying | StateVerificationFailed
  | StateCompleted | StateCancelled | StateSuperseded | StateExpired | StateCompensated | StateOther string

datatype cs_transition =
    TSubmit | TCancel | TValidated | TInvalidate | TPlanned | TBlock | TRequestApproval | TApprove | TReject
  | TRequestChanges | TExpire | TSupersede | TApply | TSchedule | TStart | TApplied | TFail | TPartiallyApply
  | TOperationCancelled | TCompensate | TComplete | TFailVerification | TRetry | TReverify | TOther string

text \<open>The \<open>states\<close> of the document; a state it does not list has no entry.\<close>

fun cs_states :: "cs_state \<Rightarrow> (cs_transition \<times> cs_state) list option" where
  "cs_states StateDraft = Some [(TSubmit, StateValidating), (TCancel, StateCancelled)]"
| "cs_states StateValidating = Some [(TValidated, StatePlanning), (TInvalidate, StateInvalid)]"
| "cs_states StatePlanning = Some [(TPlanned, StatePlanned), (TBlock, StateBlocked)]"
| "cs_states StateBlocked = Some [(TSubmit, StateValidating), (TCancel, StateCancelled)]"
| "cs_states StatePlanned = Some [(TRequestApproval, StateAwaitingApproval), (TCancel, StateCancelled)]"
| "cs_states StateAwaitingApproval = Some [(TApprove, StateApproved), (TReject, StateRejected),
     (TRequestChanges, StateChangesRequested), (TExpire, StateExpired), (TSupersede, StateSuperseded),
     (TCancel, StateCancelled)]"
| "cs_states StateChangesRequested = Some [(TSubmit, StateValidating), (TCancel, StateCancelled)]"
| "cs_states StateApproved = Some [(TApply, StateApplying), (TSchedule, StateScheduled), (TSubmit, StateValidating),
     (TExpire, StateExpired), (TCancel, StateCancelled)]"
| "cs_states StateScheduled = Some [(TStart, StateApplying), (TCancel, StateCancelled)]"
| "cs_states StateApplying = Some [(TApplied, StateVerifying), (TFail, StateFailed),
     (TPartiallyApply, StatePartiallyApplied), (TOperationCancelled, StateCancelled), (TCompensate, StateCompensated)]"
| "cs_states StateVerifying = Some [(TComplete, StateCompleted), (TFailVerification, StateVerificationFailed)]"
| "cs_states StateFailed = Some [(TRetry, StateApplying), (TCompensate, StateCompensated)]"
| "cs_states StatePartiallyApplied = Some [(TRetry, StateApplying), (TCompensate, StateCompensated)]"
| "cs_states StateVerificationFailed = Some [(TReverify, StateVerifying), (TCompensate, StateCompensated)]"
| "cs_states _ = None"

definition cs_terminal_states :: "cs_state list" where
  "cs_terminal_states = [StateInvalid, StateRejected, StateCompleted, StateCancelled, StateSuperseded,
     StateExpired, StateCompensated]"

definition cs_terminal :: "cs_state \<Rightarrow> bool" where
  "cs_terminal s \<longleftrightarrow> s \<in> set cs_terminal_states"

definition cs_known :: "cs_state \<Rightarrow> bool" where
  "cs_known s \<longleftrightarrow> cs_states s \<noteq> None \<or> s \<in> set cs_terminal_states"

datatype cs_transition_error = IsTerminal cs_state | NotAllowedFrom cs_transition cs_state

definition cs_next :: "cs_state \<Rightarrow> cs_transition \<Rightarrow> cs_transition_error + cs_state" where
  "cs_next s t =
    (case cs_states s of
       None \<Rightarrow> Inl (IsTerminal s)
     | Some ts \<Rightarrow> (case map_of ts t of None \<Rightarrow> Inl (NotAllowedFrom t s) | Some s' \<Rightarrow> Inr s'))"

definition cs_allows :: "cs_state \<Rightarrow> cs_transition \<Rightarrow> bool" where
  "cs_allows s t = (case cs_next s t of Inl _ \<Rightarrow> False | Inr _ \<Rightarrow> True)"

section \<open>Change kinds\<close>

datatype change_kind =
    KindTenantSuspension | KindTenantReinstatement | KindMarketActivation | KindMappingActivation
  | KindProviderActivation | KindReleaseApproval | KindDesiredRelease | KindGrantIssuance | KindGrantDelegation
  | KindOther string

text \<open>\<open>TargetNone\<close> is the empty target of an unknown kind.\<close>

datatype target_type =
    TargetTenant | TargetMarket | TargetMapping | TargetProvider | TargetRelease | TargetInstance
  | TargetAdminPrincipal | TargetAdminGrant | TargetNone

record plan_check_entry =
  pc_check :: string
  pc_blocker :: string

record kind_spec =
  ki_target :: target_type
  ki_approval_scope :: string
  ki_request_scope :: string
  ki_changeset_type :: string
  ki_from_status :: "string list"
  ki_to_status :: string
  ki_changes :: string
  ki_operations :: "string list"
  ki_plan_checks :: "plan_check_entry list"

definition checks_of :: "(string \<times> string) list \<Rightarrow> plan_check_entry list" where
  "checks_of cs = map (\<lambda>(c, b). \<lparr>pc_check = c, pc_blocker = b\<rparr>) cs"

text \<open>The \<open>change_kinds\<close> of the document.\<close>

fun cs_kinds :: "change_kind \<Rightarrow> kind_spec option" where
  "cs_kinds KindTenantSuspension = Some \<lparr>ki_target = TargetTenant, ki_approval_scope = [], ki_request_scope = [],
     ki_changeset_type = ''SUSPEND'', ki_from_status = [''active''], ki_to_status = ''suspended'', ki_changes = [],
     ki_operations = [''SUSPEND_TENANT'', ''VERIFY_TENANT_STATE''], ki_plan_checks = []\<rparr>"
| "cs_kinds KindTenantReinstatement = Some \<lparr>ki_target = TargetTenant, ki_approval_scope = [], ki_request_scope = [],
     ki_changeset_type = ''REINSTATE'', ki_from_status = [''suspended''], ki_to_status = ''active'', ki_changes = [],
     ki_operations = [''REINSTATE_TENANT'', ''VERIFY_TENANT_STATE''], ki_plan_checks = []\<rparr>"
| "cs_kinds KindMarketActivation = Some \<lparr>ki_target = TargetMarket, ki_approval_scope = ''market:approve'',
     ki_request_scope = [], ki_changeset_type = ''MODIFY'', ki_from_status = [''VALIDATED''], ki_to_status = ''ACTIVE'',
     ki_changes = [], ki_operations = [''ACTIVATE_MARKET'', ''VERIFY_MARKET_STATE''], ki_plan_checks = []\<rparr>"
| "cs_kinds KindMappingActivation = Some \<lparr>ki_target = TargetMapping, ki_approval_scope = ''mapping:approve'',
     ki_request_scope = [], ki_changeset_type = ''MODIFY'', ki_from_status = [''VALIDATED''], ki_to_status = ''ACTIVE'',
     ki_changes = [], ki_operations = [''ACTIVATE_MAPPING'', ''VERIFY_MAPPING_STATE''], ki_plan_checks = []\<rparr>"
| "cs_kinds KindProviderActivation = Some \<lparr>ki_target = TargetProvider, ki_approval_scope = ''provider:approve'',
     ki_request_scope = [], ki_changeset_type = ''MODIFY'', ki_from_status = [''DRAFT''], ki_to_status = ''ACTIVE'',
     ki_changes = [], ki_operations = [''ACTIVATE_PROVIDER'', ''VERIFY_PROVIDER_STATE''],
     ki_plan_checks = checks_of
       [(''PROVIDER_DECLARATION'', ''PROVIDER_DECLARATION_MISSING''),
        (''CAPABILITY_SUPPORT'', ''PROVIDER_SUPPORT_NOT_IMPLEMENTED''),
        (''CONTRACT_COMPATIBILITY'', ''PROVIDER_CONTRACT_INCOMPATIBLE''),
        (''CERTIFICATION'', ''PROVIDER_NOT_CERTIFIED''),
        (''PRODUCTION_PERMITTED'', ''PROVIDER_PRODUCTION_NOT_PERMITTED''),
        (''ENGINE_RELEASE'', ''PROVIDER_NO_ELIGIBLE_RELEASE''),
        (''ENGINE_INSTANCE'', ''PROVIDER_NO_ELIGIBLE_INSTANCE''),
        (''HEALTH'', ''PROVIDER_HEALTH_NOT_ELIGIBLE''),
        (''MIGRATION_CONFLICTS'', ''PROVIDER_MIGRATION_CONFLICT'')]\<rparr>"
| "cs_kinds KindReleaseApproval = Some \<lparr>ki_target = TargetRelease, ki_approval_scope = ''engine-release:approve'',
     ki_request_scope = [], ki_changeset_type = ''MODIFY'', ki_from_status = [''CANDIDATE''], ki_to_status = ''APPROVED'',
     ki_changes = [], ki_operations = [''APPROVE_ENGINE_RELEASE'', ''VERIFY_ENGINE_RELEASE_STATE''],
     ki_plan_checks = checks_of
       [(''SUPPORT_CATALOGUED'', ''RELEASE_SUPPORT_NOT_CATALOGUED''),
        (''PROVENANCE'', ''RELEASE_PROVENANCE_MISSING''),
        (''CERTIFICATION'', ''RELEASE_NOT_CERTIFIED'')]\<rparr>"
| "cs_kinds KindDesiredRelease = Some \<lparr>ki_target = TargetInstance, ki_approval_scope = ''desired-release:approve'',
     ki_request_scope = [], ki_changeset_type = ''MODIFY'',
     ki_from_status = [''PROVISIONING'', ''ACTIVE'', ''DRAINING'', ''MAINTENANCE'', ''FAILED''], ki_to_status = [],
     ki_changes = ''desired_release'', ki_operations = [''SET_DESIRED_RELEASE'', ''VERIFY_DESIRED_RELEASE''],
     ki_plan_checks = checks_of
       [(''DESIRED_RELEASE_CHANGES'', ''DESIRED_RELEASE_UNCHANGED''),
        (''RELEASE_APPROVED'', ''DESIRED_RELEASE_NOT_APPROVED''),
        (''RELEASE_ENGINE'', ''DESIRED_RELEASE_ENGINE_MISMATCH''),
        (''PROVENANCE'', ''DESIRED_RELEASE_PROVENANCE_MISSING''),
        (''CERTIFICATION'', ''DESIRED_RELEASE_NOT_CERTIFIED'')]\<rparr>"
| "cs_kinds KindGrantIssuance = Some \<lparr>ki_target = TargetAdminPrincipal, ki_approval_scope = ''administrator:approve'',
     ki_request_scope = ''administrator:write'', ki_changeset_type = ''MODIFY'', ki_from_status = [''ACTIVE''],
     ki_to_status = [], ki_changes = ''administrative_authority'',
     ki_operations = [''ISSUE_ADMINISTRATIVE_GRANT'', ''VERIFY_ADMINISTRATIVE_GRANT''],
     ki_plan_checks = checks_of
       [(''GRANTEE_ACTIVE'', ''GRANT_GRANTEE_NOT_ACTIVE''),
        (''REQUESTER_NOT_GRANTEE'', ''GRANT_REQUESTER_IS_GRANTEE''),
        (''PERMISSION_GRANTABLE'', ''GRANT_PERMISSION_NOT_GRANTABLE''),
        (''VALIDITY_WINDOW'', ''GRANT_VALIDITY_INVALID''),
        (''SOD_CONFLICT'', ''GRANT_SOD_CONFLICT''),
        (''NOT_ALREADY_HELD'', ''GRANT_ALREADY_HELD''),
        (''REPLACED_GRANT_VALID'', ''GRANT_REPLACED_GRANT_INVALID'')]\<rparr>"
| "cs_kinds KindGrantDelegation = Some \<lparr>ki_target = TargetAdminGrant, ki_approval_scope = ''administrator:approve'',
     ki_request_scope = ''administrator:write'', ki_changeset_type = ''MODIFY'', ki_from_status = [''ACTIVE''],
     ki_to_status = [], ki_changes = ''administrative_authority'',
     ki_operations = [''DELEGATE_ADMINISTRATIVE_GRANT'', ''VERIFY_ADMINISTRATIVE_GRANT''],
     ki_plan_checks = checks_of
       [(''GRANTEE_ACTIVE'', ''GRANT_GRANTEE_NOT_ACTIVE''),
        (''REQUESTER_NOT_GRANTEE'', ''GRANT_REQUESTER_IS_GRANTEE''),
        (''REQUESTER_HOLDS_SOURCE'', ''DELEGATION_REQUESTER_NOT_HOLDER''),
        (''WITHIN_SOURCE'', ''DELEGATION_EXCEEDS_SOURCE''),
        (''SOD_CONFLICT'', ''GRANT_SOD_CONFLICT'')]\<rparr>"
| "cs_kinds (KindOther _) = None"

definition kind_target :: "change_kind \<Rightarrow> target_type" where
  "kind_target k = (case cs_kinds k of None \<Rightarrow> TargetNone | Some sp \<Rightarrow> ki_target sp)"

section \<open>The lifecycle as a live table\<close>

definition cs_step :: "cs_state \<Rightarrow> cs_transition \<Rightarrow> cs_state option" where
  "cs_step s t = (case cs_next s t of Inl _ \<Rightarrow> None | Inr s' \<Rightarrow> Some s')"

lemma cs_step_iff: "cs_step s t = Some s' \<longleftrightarrow> (\<exists>ts. cs_states s = Some ts \<and> map_of ts t = Some s')"
  by (auto simp: cs_step_def cs_next_def split: option.splits)

lemma cs_next_Inr: "cs_next s t = Inr s' \<longleftrightarrow> cs_step s t = Some s'"
  by (auto simp: cs_step_def split: sum.splits)

lemma cs_allows_iff: "cs_allows s t \<longleftrightarrow> (\<exists>s'. cs_step s t = Some s')"
  by (auto simp: cs_allows_def cs_step_def split: sum.splits)

fun cs_rank :: "cs_state \<Rightarrow> nat" where
  "cs_rank StateDraft = 1"
| "cs_rank StateValidating = 1"
| "cs_rank StatePlanning = 2"
| "cs_rank StateBlocked = 1"
| "cs_rank StatePlanned = 1"
| "cs_rank StateAwaitingApproval = 1"
| "cs_rank StateChangesRequested = 1"
| "cs_rank StateApproved = 1"
| "cs_rank StateScheduled = 1"
| "cs_rank StateApplying = 1"
| "cs_rank StateVerifying = 1"
| "cs_rank StateFailed = 1"
| "cs_rank StatePartiallyApplied = 1"
| "cs_rank StateVerificationFailed = 1"
| "cs_rank _ = 0"

lemma cs_live:
  assumes "cs_known s" and "\<not> cs_terminal s"
  shows "\<exists>t s'. cs_step s t = Some s' \<and> cs_known s' \<and> cs_rank s' < cs_rank s"
proof -
  have "list_ex (\<lambda>(t, s'). cs_known s' \<and> cs_rank s' < cs_rank s \<and> map_of (the (cs_states s)) t = Some s') (the (cs_states s))"
    using assms by (cases s) (simp_all add: cs_known_def cs_terminal_def cs_terminal_states_def)
  moreover from assms obtain ts where "cs_states s = Some ts" by (auto simp: cs_known_def cs_terminal_def)
  ultimately show ?thesis by (auto simp: list_ex_iff cs_step_iff)
qed

interpretation changeset_lifecycle: live_table cs_step cs_terminal cs_known cs_rank
proof unfold_locales
  show "cs_terminal s \<Longrightarrow> cs_step s t = None" for s t
    by (auto simp: cs_terminal_def cs_terminal_states_def cs_step_def cs_next_def)
  show "cs_known s \<Longrightarrow> \<not> cs_terminal s \<Longrightarrow> \<exists>t s'. cs_step s t = Some s' \<and> cs_known s' \<and> cs_rank s' < cs_rank s" for s
    by (rule cs_live)
qed

text \<open>
  Property (the lifecycle has no dead ends and its ends are final). From every known state some
  sequence of transitions reaches a terminal state, and no transition leaves a terminal one.
\<close>

theorem changeset_lifecycle_live:
  assumes "cs_known s"
  shows "(\<exists>ts s'. run_table cs_step s ts = Some s' \<and> cs_terminal s') \<and>
    (\<forall>ts s'. cs_terminal s \<longrightarrow> run_table cs_step s ts = Some s' \<longrightarrow> s' = s)"
  using changeset_lifecycle.can_finish [OF assms] changeset_lifecycle.terminal_final by blast

theorem changeset_lifecycle_live_witness:
  "cs_known StateDraft \<and> (\<exists>ts s'. run_table cs_step StateDraft ts = Some s' \<and> cs_terminal s')"
proof -
  have "cs_known StateDraft" by (simp add: cs_known_def)
  then show ?thesis using changeset_lifecycle_live by blast
qed

text \<open>The states before approval, before application and before verification.\<close>

definition unapproved :: "cs_state set" where
  "unapproved = {StateDraft, StateValidating, StatePlanning, StateBlocked, StatePlanned, StateAwaitingApproval,
     StateChangesRequested, StateInvalid, StateRejected, StateCancelled, StateExpired, StateSuperseded}"

definition unapplied :: "cs_state set" where
  "unapplied = - {StateApplying, StateVerifying, StateFailed, StatePartiallyApplied, StateVerificationFailed,
     StateCompleted, StateCompensated}"

definition unverified :: "cs_state set" where
  "unverified = - {StateVerifying, StateVerificationFailed, StateCompleted}"

lemma cs_gate_approved: "s \<in> unapproved \<Longrightarrow> cs_step s t = Some s' \<Longrightarrow> s' \<in> unapproved \<or> s' = StateApproved"
  by (auto simp: unapproved_def cs_step_iff split: if_splits)

lemma cs_gate_applying: "s \<in> unapplied \<Longrightarrow> cs_step s t = Some s' \<Longrightarrow> s' \<in> unapplied \<or> s' = StateApplying"
  by (cases s) (auto simp: unapplied_def cs_step_iff split: if_splits)

lemma cs_gate_verifying: "s \<in> unverified \<Longrightarrow> cs_step s t = Some s' \<Longrightarrow> s' \<in> unverified \<or> s' = StateVerifying"
  by (cases s) (auto simp: unverified_def cs_step_iff split: if_splits)

lemma cs_run_approved:
  "s \<in> unapproved \<Longrightarrow> run_table cs_step s ts = Some s' \<Longrightarrow> s' \<notin> unapproved \<Longrightarrow>
     \<exists>us vs. ts = us @ vs \<and> run_table cs_step s us = Some StateApproved \<and> run_table cs_step StateApproved vs = Some s'"
  by (rule run_table_gate [of unapproved cs_step StateApproved]) (rule cs_gate_approved)

lemma cs_run_applying:
  "s \<in> unapplied \<Longrightarrow> run_table cs_step s ts = Some s' \<Longrightarrow> s' \<notin> unapplied \<Longrightarrow>
     \<exists>us vs. ts = us @ vs \<and> run_table cs_step s us = Some StateApplying \<and> run_table cs_step StateApplying vs = Some s'"
  by (rule run_table_gate [of unapplied cs_step StateApplying]) (rule cs_gate_applying)

lemma cs_run_verifying:
  "s \<in> unverified \<Longrightarrow> run_table cs_step s ts = Some s' \<Longrightarrow> s' \<notin> unverified \<Longrightarrow>
     \<exists>us vs. ts = us @ vs \<and> run_table cs_step s us = Some StateVerifying \<and> run_table cs_step StateVerifying vs = Some s'"
  by (rule run_table_gate [of unverified cs_step StateVerifying]) (rule cs_gate_verifying)

text \<open>
  Property (no shortcut to COMPLETED). Every run of transitions that takes a DRAFT to COMPLETED
  passes through APPROVED, then APPLYING, then VERIFYING.
\<close>

theorem completed_only_through_approval:
  assumes "run_table cs_step StateDraft ts = Some StateCompleted"
  shows "\<exists>us vs ws xs. ts = us @ vs @ ws @ xs \<and> run_table cs_step StateDraft us = Some StateApproved \<and>
    run_table cs_step StateApproved vs = Some StateApplying \<and> run_table cs_step StateApplying ws = Some StateVerifying \<and>
    run_table cs_step StateVerifying xs = Some StateCompleted"
proof -
  from cs_run_approved [OF _ assms] obtain us rest where
    us: "ts = us @ rest" "run_table cs_step StateDraft us = Some StateApproved"
    and rest: "run_table cs_step StateApproved rest = Some StateCompleted" by (auto simp: unapproved_def)
  from cs_run_applying [OF _ rest] obtain vs rest2 where
    vs: "rest = vs @ rest2" "run_table cs_step StateApproved vs = Some StateApplying"
    and rest2: "run_table cs_step StateApplying rest2 = Some StateCompleted" by (auto simp: unapplied_def)
  from cs_run_verifying [OF _ rest2] obtain ws xs where
    "rest2 = ws @ xs" "run_table cs_step StateApplying ws = Some StateVerifying"
    "run_table cs_step StateVerifying xs = Some StateCompleted" by (auto simp: unverified_def)
  with us vs show ?thesis by (intro exI [of _ us] exI [of _ vs] exI [of _ ws] exI [of _ xs]) simp
qed

theorem completed_only_through_approval_witness:
  "\<exists>us vs ws xs. [TSubmit, TValidated, TPlanned, TRequestApproval, TApprove, TApply, TApplied, TComplete] = us @ vs @ ws @ xs \<and>
     run_table cs_step StateDraft us = Some StateApproved"
proof -
  have "run_table cs_step StateDraft [TSubmit, TValidated, TPlanned, TRequestApproval, TApprove, TApply, TApplied, TComplete] =
    Some StateCompleted" by (simp add: cs_step_def cs_next_def)
  from completed_only_through_approval [OF this] show ?thesis by blast
qed

end
