(* ===== verification/Domain_Ids.thy ===== *)
theory Domain_Ids
  imports Prelude "HOL-Library.Sublist"
begin

text \<open>
  The identifier grammar of the Control Plane (\<open>internal/domain/ids.go\<close>,
  \<open>internal/domain/organisation_ids.go\<close>, \<open>internal/topology/release/release.go\<close>,
  \<open>internal/operations/operation.go\<close>): which strings are identifiers of a kind, the canonical
  key derived from a row's surrogate, and the contract form of a row uuid.

  Minting (\<open>NewTenantID\<close> and the like) draws a fresh UUIDv7 and takes it as an argument here.
  The lemmas show that a derived key is a canonical identifier, that deriving is idempotent,
  and that the contract form of a uuid reads back to that uuid and to no other prefix's.
\<close>

section \<open>Grammars\<close>

definition lower_alnum :: "char \<Rightarrow> bool" where
  "lower_alnum c \<longleftrightarrow> is_lower c \<or> is_digit c"

definition upper_alnum :: "char \<Rightarrow> bool" where
  "upper_alnum c \<longleftrightarrow> is_upper c \<or> is_digit c"

text \<open>The regular expressions \<open>^<prefix>[a-z0-9]+$\<close>.\<close>

definition opaque_id :: "string \<Rightarrow> string \<Rightarrow> bool" where
  "opaque_id pre v \<longleftrightarrow> prefix pre v \<and> drop (length pre) v \<noteq> [] \<and> list_all lower_alnum (drop (length pre) v)"

text \<open>The regular expressions \<open>^[a-z][a-z0-9]*(?:-[a-z0-9]+)*$\<close> and their like.\<close>

definition kebab :: "(char \<Rightarrow> bool) \<Rightarrow> (char \<Rightarrow> bool) \<Rightarrow> char \<Rightarrow> string \<Rightarrow> bool" where
  "kebab first rest sep v =
    (let ws = split_at sep v in
     list_all (\<lambda>w. w \<noteq> [] \<and> list_all rest w) ws \<and> (case v of [] \<Rightarrow> False | c # _ \<Rightarrow> first c))"

definition length_between :: "nat \<Rightarrow> nat \<Rightarrow> string \<Rightarrow> bool" where
  "length_between a b v \<longleftrightarrow> length v \<ge> a \<and> length v \<le> b"

definition valid_engine_id :: "string \<Rightarrow> bool" where
  "valid_engine_id v \<longleftrightarrow> length_between 3 63 v \<and> kebab is_lower lower_alnum (CHR ''-'') v"

definition valid_engine_instance_id :: "string \<Rightarrow> bool" where
  "valid_engine_instance_id v \<longleftrightarrow> length_between 6 63 v \<and> opaque_id ''ei_'' v"

definition valid_provider_id :: "string \<Rightarrow> bool" where
  "valid_provider_id v \<longleftrightarrow> length_between 10 63 v \<and> opaque_id ''provider_'' v"

definition valid_tenant_id :: "string \<Rightarrow> bool" where
  "valid_tenant_id v \<longleftrightarrow> length_between 6 63 v \<and> opaque_id ''tn_'' v"

definition is_canonical_legal_entity_id :: "string \<Rightarrow> bool" where
  "is_canonical_legal_entity_id v \<longleftrightarrow> kebab is_upper upper_alnum (CHR ''-'') v"

definition valid_legal_entity_id :: "string \<Rightarrow> bool" where
  "valid_legal_entity_id v \<longleftrightarrow> length_between 3 63 v \<and>
     (is_canonical_legal_entity_id v \<or> kebab is_lower lower_alnum (CHR ''_'') v)"

text \<open>
  \<open>^[a-z][a-z0-9]*(?:[-_][a-z0-9]+)*$\<close>: either separator, so both are read as one.
\<close>

definition valid_product_id :: "string \<Rightarrow> bool" where
  "valid_product_id v \<longleftrightarrow> length_between 3 63 v \<and>
     kebab is_lower lower_alnum (CHR ''-'') (map (\<lambda>c. if c = CHR ''_'' then CHR ''-'' else c) v)"

definition valid_mapping_id :: "string \<Rightarrow> bool" where
  "valid_mapping_id v \<longleftrightarrow> length_between 8 63 v \<and> opaque_id ''map_'' v"

definition valid_external_reference_id :: "string \<Rightarrow> bool" where
  "valid_external_reference_id v \<longleftrightarrow> length_between 8 63 v \<and> opaque_id ''ref_'' v"

definition valid_mapping_scope_id :: "string \<Rightarrow> bool" where
  "valid_mapping_scope_id v \<longleftrightarrow> length_between 8 63 v \<and> opaque_id ''scope_'' v"

definition valid_release_id :: "string \<Rightarrow> bool" where
  "valid_release_id v \<longleftrightarrow> length_between 7 63 v \<and> opaque_id ''erl_'' v"

definition valid_operation_id :: "string \<Rightarrow> bool" where
  "valid_operation_id v \<longleftrightarrow> length_between 6 63 v \<and> opaque_id ''op_'' v"

section \<open>Derived keys\<close>

definition derived_key :: "string \<Rightarrow> string \<Rightarrow> string" where
  "derived_key pre i = pre @ filter lower_alnum (to_lower i)"

definition engine_instance_key :: "string \<Rightarrow> string" where
  "engine_instance_key i = (if valid_engine_instance_id i then i else derived_key ''ei_'' i)"

definition provider_id :: "string \<Rightarrow> string" where
  "provider_id i = (if valid_provider_id i then i else derived_key ''provider_'' i)"

definition release_id :: "string \<Rightarrow> string" where
  "release_id i = (if valid_release_id i then i else derived_key ''erl_'' i)"

section \<open>Row uuids\<close>

definition is_hex :: "char \<Rightarrow> bool" where
  "is_hex c \<longleftrightarrow> is_digit c \<or> (97 \<le> byte c \<and> byte c \<le> 102)"

lemma is_hex_bits [code]:
  "is_hex (Char b0 b1 b2 b3 b4 b5 b6 b7) \<longleftrightarrow> is_digit (Char b0 b1 b2 b3 b4 b5 b6 b7) \<or>
    b6 \<and> \<not> b7 \<and> b5 \<and> \<not> b4 \<and> \<not> b3 \<and> (b0 \<or> b1 \<or> b2) \<and> \<not> (b0 \<and> b1 \<and> b2)"
  by (cases b0; cases b1; cases b2; cases b3; cases b4; cases b5; cases b6; cases b7; simp add: is_hex_def go_simps)

text \<open>\<open>^[0-9a-f]{8}-[0-9a-f]{4}-[0-9a-f]{4}-[0-9a-f]{4}-[0-9a-f]{12}$\<close>.\<close>

definition is_uuid :: "string \<Rightarrow> bool" where
  "is_uuid s \<longleftrightarrow> length s = 36 \<and>
     list_all is_hex (take 8 s) \<and> s ! 8 = CHR ''-'' \<and> list_all is_hex (take 4 (drop 9 s)) \<and> s ! 13 = CHR ''-'' \<and>
     list_all is_hex (take 4 (drop 14 s)) \<and> s ! 18 = CHR ''-'' \<and> list_all is_hex (take 4 (drop 19 s)) \<and>
     s ! 23 = CHR ''-'' \<and> list_all is_hex (drop 24 s)"

definition format_resource_id :: "string \<Rightarrow> string \<Rightarrow> string option" where
  "format_resource_id pre row =
    (let u = to_lower row in
     if \<not> is_uuid u then None else Some (pre @ ''_'' @ filter (\<lambda>c. c \<noteq> CHR ''-'') u))"

definition cut_prefix :: "string \<Rightarrow> string \<Rightarrow> string option" where
  "cut_prefix pre s = (if prefix pre s then Some (drop (length pre) s) else None)"

text \<open>
  \<open>strings.Trim\<close> of the hex digits leaves nothing exactly when every byte is one. The
  slices \<open>hex[a:b]\<close> are in range because the length is 32.
\<close>

definition parse_resource_id :: "string \<Rightarrow> string \<Rightarrow> string option" where
  "parse_resource_id pre i =
    (case cut_prefix (pre @ ''_'') i of
       None \<Rightarrow> None
     | Some hex \<Rightarrow>
         if length hex \<noteq> 32 \<or> \<not> list_all is_hex hex then None
         else Some (take 8 hex @ ''-'' @ take 4 (drop 8 hex) @ ''-'' @ take 4 (drop 12 hex) @ ''-'' @
                    take 4 (drop 16 hex) @ ''-'' @ drop 20 hex))"

text \<open>\<open>newOpaqueID\<close> and \<open>NewResourceID\<close> on the fresh uuid they draw.\<close>

definition new_opaque_id :: "string \<Rightarrow> string \<Rightarrow> string" where
  "new_opaque_id pre uuid = pre @ filter (\<lambda>c. c \<noteq> CHR ''-'') uuid"

definition new_tenant_id :: "string \<Rightarrow> string" where
  "new_tenant_id uuid = new_opaque_id ''tn_'' uuid"

definition new_mapping_id :: "string \<Rightarrow> string" where
  "new_mapping_id uuid = new_opaque_id ''map_'' uuid"

definition new_external_reference_id :: "string \<Rightarrow> string" where
  "new_external_reference_id uuid = new_opaque_id ''ref_'' uuid"

definition new_mapping_scope_id :: "string \<Rightarrow> string" where
  "new_mapping_scope_id uuid = new_opaque_id ''scope_'' uuid"

definition new_resource_id :: "string \<Rightarrow> string \<Rightarrow> string option" where
  "new_resource_id pre uuid = format_resource_id pre uuid"

section \<open>A uuid and its digits\<close>

definition uuid_digits :: "string \<Rightarrow> string" where
  "uuid_digits u = filter (\<lambda>c. c \<noteq> CHR ''-'') u"

definition hyphenate :: "string \<Rightarrow> string" where
  "hyphenate hex = take 8 hex @ ''-'' @ take 4 (drop 8 hex) @ ''-'' @ take 4 (drop 12 hex) @ ''-'' @
     take 4 (drop 16 hex) @ ''-'' @ drop 20 hex"

lemma is_hex_not_hyphen: "is_hex c \<Longrightarrow> c \<noteq> CHR ''-''"
  by (auto simp: is_hex_def is_digit_def byte_def)

lemma is_hex_lower_alnum: "is_hex c \<Longrightarrow> lower_alnum c"
  by (auto simp: is_hex_def lower_alnum_def is_lower_def)

lemma filter_hex: "list_all is_hex xs \<Longrightarrow> filter (\<lambda>c. c \<noteq> CHR ''-'') xs = xs"
  using is_hex_not_hyphen by (auto simp: list_all_iff filter_id_conv)

lemma split_once: "n < length s \<Longrightarrow> s = take n s @ [s ! n] @ drop (Suc n) s"
  by (simp add: id_take_nth_drop)

lemma drop_split_once: "n + k < length s \<Longrightarrow> drop n s = take k (drop n s) @ [s ! (n + k)] @ drop (Suc (n + k)) s"
  using split_once [of k "drop n s"] by (simp add: add.commute)

lemma is_uuid_parts:
  assumes "is_uuid u"
  obtains a b c d e where "u = a @ ''-'' @ b @ ''-'' @ c @ ''-'' @ d @ ''-'' @ e"
    and "length a = 8" "length b = 4" "length c = 4" "length d = 4" "length e = 12"
    and "list_all is_hex (a @ b @ c @ d @ e)"
proof (rule that [of "take 8 u" "take 4 (drop 9 u)" "take 4 (drop 14 u)" "take 4 (drop 19 u)" "drop 24 u"])
  from assms have len: "length u = 36" by (simp add: is_uuid_def)
  have "u = take 8 u @ [u ! 8] @ drop 9 u" using split_once [of 8 u] len by simp
  also have "drop 9 u = take 4 (drop 9 u) @ [u ! 13] @ drop 14 u" using drop_split_once [of 9 4 u] len by simp
  also have "drop 14 u = take 4 (drop 14 u) @ [u ! 18] @ drop 19 u" using drop_split_once [of 14 4 u] len by simp
  also have "drop 19 u = take 4 (drop 19 u) @ [u ! 23] @ drop 24 u" using drop_split_once [of 19 4 u] len by simp
  finally show "u = take 8 u @ ''-'' @ take 4 (drop 9 u) @ ''-'' @ take 4 (drop 14 u) @ ''-'' @ take 4 (drop 19 u) @ ''-'' @ drop 24 u"
    using assms by (simp add: is_uuid_def)
  show "list_all is_hex (take 8 u @ take 4 (drop 9 u) @ take 4 (drop 14 u) @ take 4 (drop 19 u) @ drop 24 u)"
    using assms by (simp add: is_uuid_def)
qed (use assms in \<open>simp_all add: is_uuid_def\<close>)

lemma uuid_digits_facts:
  assumes "is_uuid u"
  shows "length (uuid_digits u) = 32" and "list_all is_hex (uuid_digits u)" and "hyphenate (uuid_digits u) = u"
  using assms
proof (atomize (full), rule is_uuid_parts)
  fix a b c d e :: string
  assume u: "u = a @ ''-'' @ b @ ''-'' @ c @ ''-'' @ d @ ''-'' @ e"
    and len: "length a = 8" "length b = 4" "length c = 4" "length d = 4" "length e = 12"
    and hex: "list_all is_hex (a @ b @ c @ d @ e)"
  from hex have "uuid_digits u = a @ b @ c @ d @ e" by (simp add: uuid_digits_def u filter_hex)
  with len hex show "length (uuid_digits u) = 32 \<and> list_all is_hex (uuid_digits u) \<and> hyphenate (uuid_digits u) = u"
    by (simp add: hyphenate_def u)
qed

lemma hyphenate_uuid:
  assumes "length hex = 32" and "list_all is_hex hex"
  shows "is_uuid (hyphenate hex)" and "uuid_digits (hyphenate hex) = hex"
proof -
  let ?a = "take 8 hex" and ?b = "take 4 (drop 8 hex)" and ?c = "take 4 (drop 12 hex)" and ?d = "take 4 (drop 16 hex)"
    and ?e = "drop 20 hex"
  have join: "hex = ?a @ ?b @ ?c @ ?d @ ?e"
    using append_take_drop_id [of 8 hex] append_take_drop_id [of 4 "drop 8 hex"]
      append_take_drop_id [of 4 "drop 12 hex"] append_take_drop_id [of 4 "drop 16 hex"] by simp
  from assms(2) have "list_all is_hex (?a @ ?b @ ?c @ ?d @ ?e)" using join by simp
  then have parts: "list_all is_hex ?a" "list_all is_hex ?b" "list_all is_hex ?c" "list_all is_hex ?d" "list_all is_hex ?e"
    by simp_all
  with assms(1) show "is_uuid (hyphenate hex)"
    by (simp add: is_uuid_def hyphenate_def nth_append)
  have "uuid_digits (hyphenate hex) = ?a @ ?b @ ?c @ ?d @ ?e"
    using parts by (simp add: uuid_digits_def hyphenate_def filter_hex)
  with join show "uuid_digits (hyphenate hex) = hex" by simp
qed

section \<open>Contract identifiers\<close>

lemma parse_resource_id_Some:
  "parse_resource_id pre i = Some u \<longleftrightarrow>
     (\<exists>hex. i = pre @ ''_'' @ hex \<and> length hex = 32 \<and> list_all is_hex hex \<and> u = hyphenate hex)"
  by (auto simp: parse_resource_id_def cut_prefix_def prefix_def hyphenate_def split: option.splits)

lemma hex_lower: "is_hex c \<Longrightarrow> lower_char c = c"
  by (auto simp: lower_char_def is_hex_def is_upper_def is_digit_def)

lemma to_lower_uuid: "is_uuid u \<Longrightarrow> to_lower u = u"
proof (erule is_uuid_parts)
  fix a b c d e :: string
  assume u: "u = a @ ''-'' @ b @ ''-'' @ c @ ''-'' @ d @ ''-'' @ e" and hex: "list_all is_hex (a @ b @ c @ d @ e)"
  have "list_all is_hex xs \<Longrightarrow> map lower_char xs = xs" for xs
    by (induction xs) (simp_all add: hex_lower)
  with hex show "to_lower u = u" by (simp add: u to_lower_def lower_char_def is_upper_def byte_def)
qed

text \<open>
  Property (resource identifiers read back). Formatting a row uuid and parsing the result gives the
  lower-case uuid back; whatever an identifier parses to is a canonical uuid that formats to
  that same identifier; and an identifier that parses under one prefix parses under no other.
\<close>

theorem resource_id_round_trip:
  "(\<forall>row i. format_resource_id pre row = Some i \<longrightarrow> parse_resource_id pre i = Some (to_lower row)) \<and>
   (\<forall>i u. parse_resource_id pre i = Some u \<longrightarrow> is_uuid u \<and> format_resource_id pre u = Some i) \<and>
   (\<forall>i u pre' u'. parse_resource_id pre i = Some u \<and> parse_resource_id pre' i = Some u' \<longrightarrow> pre' = pre \<and> u' = u)"
proof (intro conjI allI impI)
  fix row i
  assume "format_resource_id pre row = Some i"
  then have u: "is_uuid (to_lower row)" and i: "i = pre @ ''_'' @ uuid_digits (to_lower row)"
    by (auto simp: format_resource_id_def uuid_digits_def Let_def split: if_splits)
  from uuid_digits_facts [OF u] i show "parse_resource_id pre i = Some (to_lower row)"
    by (auto simp: parse_resource_id_Some)
next
  fix i u
  assume "parse_resource_id pre i = Some u"
  then obtain hex where hex: "i = pre @ ''_'' @ hex" "length hex = 32" "list_all is_hex hex" "u = hyphenate hex"
    by (auto simp: parse_resource_id_Some)
  from hyphenate_uuid [OF hex(2,3)] hex show "is_uuid u" and "format_resource_id pre u = Some i"
    by (simp_all add: format_resource_id_def to_lower_uuid uuid_digits_def)
next
  fix i u pre' u'
  assume "parse_resource_id pre i = Some u \<and> parse_resource_id pre' i = Some u'"
  then obtain hex hex' where "i = (pre @ ''_'') @ hex" "length hex = 32" "u = hyphenate hex"
    "i = (pre' @ ''_'') @ hex'" "length hex' = 32" "u' = hyphenate hex'"
    by (auto simp: parse_resource_id_Some)
  then show "pre' = pre" and "u' = u" by simp_all
qed

section \<open>Derived and minted identifiers\<close>

lemma opaque_id_digits:
  assumes "is_uuid u"
  shows "opaque_id pre (pre @ uuid_digits u)" and "length (pre @ uuid_digits u) = length pre + 32"
proof -
  from uuid_digits_facts(2) [OF assms] have "list_all lower_alnum (uuid_digits u)"
    using is_hex_lower_alnum by (auto simp: list_all_iff)
  with uuid_digits_facts(1) [OF assms] show "opaque_id pre (pre @ uuid_digits u)"
    and "length (pre @ uuid_digits u) = length pre + 32" by (auto simp: opaque_id_def)
qed

lemma filter_lower_alnum_uuid:
  assumes "is_uuid u"
  shows "filter lower_alnum u = uuid_digits u"
  using assms
proof (rule is_uuid_parts)
  fix a b c d e :: string
  assume u: "u = a @ ''-'' @ b @ ''-'' @ c @ ''-'' @ d @ ''-'' @ e" and hex: "list_all is_hex (a @ b @ c @ d @ e)"
  have "list_all is_hex xs \<Longrightarrow> filter lower_alnum xs = xs" for xs
    using is_hex_lower_alnum by (auto simp: list_all_iff filter_id_conv)
  moreover have "\<not> lower_alnum (CHR ''-'')" by (simp add: lower_alnum_def is_lower_def is_digit_def byte_def)
  ultimately show ?thesis using hex by (simp add: u uuid_digits_def filter_hex)
qed

lemma derived_key_uuid: "is_uuid u \<Longrightarrow> derived_key pre u = pre @ uuid_digits u"
  by (simp add: derived_key_def to_lower_uuid filter_lower_alnum_uuid)

lemma uuid_no_prefix:
  assumes "is_uuid u" and "\<exists>c \<in> set pre. \<not> is_hex c \<and> c \<noteq> CHR ''-''"
  shows "\<not> opaque_id pre u"
proof -
  from assms(1) have "\<forall>c \<in> set u. is_hex c \<or> c = CHR ''-''"
    by (rule is_uuid_parts) (auto simp: list_all_iff)
  with assms(2) show ?thesis by (auto simp: opaque_id_def prefix_def)
qed

lemma prefix_not_hex:
  "\<exists>c \<in> set ''ei_''. \<not> is_hex c \<and> c \<noteq> CHR ''-''" "\<exists>c \<in> set ''provider_''. \<not> is_hex c \<and> c \<noteq> CHR ''-''"
  "\<exists>c \<in> set ''erl_''. \<not> is_hex c \<and> c \<noteq> CHR ''-''"
  by (simp_all add: is_hex_def is_digit_def byte_def)

lemma uuid_keys:
  assumes "is_uuid w"
  shows "engine_instance_key w = ''ei_'' @ uuid_digits w" and "provider_id w = ''provider_'' @ uuid_digits w"
    and "release_id w = ''erl_'' @ uuid_digits w"
  using uuid_no_prefix [OF assms prefix_not_hex(1)] uuid_no_prefix [OF assms prefix_not_hex(2)]
    uuid_no_prefix [OF assms prefix_not_hex(3)]
  by (simp_all only: engine_instance_key_def provider_id_def release_id_def valid_engine_instance_id_def
    valid_provider_id_def valid_release_id_def derived_key_uuid [OF assms] simp_thms if_False)

text \<open>
  Property (a row's canonical key). For a row uuid the derived engine instance, provider and release
  keys are identifiers of their kind, deriving again changes nothing, and different uuids have
  different keys.
\<close>

theorem derived_keys_canonical:
  assumes "is_uuid u" and "is_uuid v"
  shows "valid_engine_instance_id (engine_instance_key u) \<and> valid_provider_id (provider_id u) \<and>
    valid_release_id (release_id u) \<and>
    engine_instance_key (engine_instance_key u) = engine_instance_key u \<and>
    provider_id (provider_id u) = provider_id u \<and> release_id (release_id u) = release_id u \<and>
    (engine_instance_key u = engine_instance_key v \<longleftrightarrow> u = v)"
proof -
  have valid: "valid_engine_instance_id (engine_instance_key u)" "valid_provider_id (provider_id u)"
    "valid_release_id (release_id u)"
    using opaque_id_digits [OF assms(1), of "''ei_''"] opaque_id_digits [OF assms(1), of "''provider_''"]
      opaque_id_digits [OF assms(1), of "''erl_''"]
    by (simp_all add: uuid_keys [OF assms(1)] valid_engine_instance_id_def valid_provider_id_def valid_release_id_def
      length_between_def)
  have "uuid_digits u = uuid_digits v \<longleftrightarrow> u = v" using uuid_digits_facts(3) assms by metis
  then have "engine_instance_key u = engine_instance_key v \<longleftrightarrow> u = v" by (simp only: uuid_keys assms same_append_eq)
  with valid show ?thesis by (simp add: engine_instance_key_def provider_id_def release_id_def)
qed

text \<open>
  From a canonical uuid the minted tenant, mapping,
  external reference and scope identifiers satisfy their grammars, and a minted resource
  identifier always exists and reads back to that uuid.
\<close>

theorem minted_ids_valid:
  assumes "is_uuid u"
  shows "valid_tenant_id (new_tenant_id u) \<and> valid_mapping_id (new_mapping_id u) \<and>
    valid_external_reference_id (new_external_reference_id u) \<and> valid_mapping_scope_id (new_mapping_scope_id u) \<and>
    (\<exists>i. new_resource_id pre u = Some i \<and> parse_resource_id pre i = Some u)"
proof -
  note ids = opaque_id_digits [OF assms, unfolded uuid_digits_def]
  have "parse_resource_id pre (pre @ ''_'' @ uuid_digits u) = Some u"
    using uuid_digits_facts [OF assms] by (auto simp: parse_resource_id_Some)
  then have "\<exists>i. new_resource_id pre u = Some i \<and> parse_resource_id pre i = Some u"
    using assms by (simp add: new_resource_id_def format_resource_id_def to_lower_uuid uuid_digits_def)
  moreover have "valid_tenant_id (new_tenant_id u)" "valid_mapping_id (new_mapping_id u)"
    "valid_external_reference_id (new_external_reference_id u)" "valid_mapping_scope_id (new_mapping_scope_id u)"
    using ids [of "''tn_''"] ids [of "''map_''"] ids [of "''ref_''"] ids [of "''scope_''"]
    by (simp_all add: valid_tenant_id_def new_tenant_id_def valid_mapping_id_def new_mapping_id_def
      valid_external_reference_id_def new_external_reference_id_def valid_mapping_scope_id_def
      new_mapping_scope_id_def new_opaque_id_def length_between_def)
  ultimately show ?thesis by blast
qed

section \<open>Witnesses\<close>

definition ex_uuid :: string where
  "ex_uuid = ''0190a1b2-c3d4-7e5f-8a9b-0c1d2e3f4a5b''"

definition ex_other_uuid :: string where
  "ex_other_uuid = ''0190a1b2-c3d4-7e5f-8a9b-0c1d2e3f4a5c''"

lemma ex_uuids: "is_uuid ex_uuid" "is_uuid ex_other_uuid"
  by (simp_all add: is_uuid_def is_hex_def ex_uuid_def ex_other_uuid_def go_simps)

theorem resource_id_round_trip_witness:
  "\<exists>i. format_resource_id ''agr'' ex_uuid = Some i \<and> parse_resource_id ''agr'' i = Some (to_lower ex_uuid)"
proof -
  have "\<exists>i. format_resource_id ''agr'' ex_uuid = Some i"
    using ex_uuids(1) by (simp add: format_resource_id_def to_lower_uuid)
  then show ?thesis using resource_id_round_trip [of "''agr''"] by blast
qed

theorem derived_keys_canonical_witness:
  "is_uuid ex_uuid \<and> valid_engine_instance_id (engine_instance_key ex_uuid)"
  using derived_keys_canonical [OF ex_uuids] ex_uuids by blast

theorem minted_ids_valid_witness:
  "is_uuid ex_uuid \<and> valid_tenant_id (new_tenant_id ex_uuid)"
  using minted_ids_valid [OF ex_uuids(1)] ex_uuids by blast

end
