(* ===== verification/Admin_Scope.thy ===== *)
theory Admin_Scope
  imports Prelude
begin

text \<open>
  Administrative scopes and where they reach (package \<open>internal/administration\<close>):
  \<open>Scope\<close> and its one-anchor rule (\<open>grant.go\<close>), the canonical tenant-to-organisation
  relation (\<open>relations.go\<close>), the resources an action lands on and coverage
  (\<open>evaluate.go\<close>), and containment between scopes (\<open>contain.go\<close>).

  The lemmas show what a valid scope names, that containment implies coverage with one
  exception, and that containment is reflexive on valid scopes. The exception is a
  corporate group in STATIC_MEMBERSHIP mode, which is judged to contain the scope of a
  listed organisation although that scope also reaches the tenants mapped to it.
\<close>

section \<open>Scopes\<close>

datatype scope_level =
    LevelPlatform | LevelPlatformAccount | LevelCorporateGroup | LevelOrganisation | LevelTenant
  | LevelLegalEntity | LevelMarket | LevelDigitalEstate | LevelResource | LevelOther string

definition scope_level_valid :: "scope_level \<Rightarrow> bool" where
  "scope_level_valid l = (case l of LevelOther _ \<Rightarrow> False | _ \<Rightarrow> True)"

text \<open>\<open>ModeUnset\<close> is the empty string, which means EXACT.\<close>

datatype scope_mode =
    ModeUnset | ModeExact | ModeStaticMembership | ModeDynamicGroupDescendants | ModeOther string

record scope =
  sc_level :: scope_level
  sc_mode :: scope_mode
  sc_platform_account_id :: string
  sc_corporate_group_id :: string
  sc_organisation_id :: string
  sc_organisation_ids :: "string list"
  sc_tenant_id :: string
  sc_legal_entity_id :: string
  sc_market_id :: string
  sc_digital_estate_id :: string
  sc_resource_type :: string
  sc_resource_id :: string
  sc_environment :: string

text \<open>The zero \<open>Scope\<close> at a level.\<close>

definition scope_at :: "scope_level \<Rightarrow> scope" where
  "scope_at l = \<lparr>sc_level = l, sc_mode = ModeUnset, sc_platform_account_id = [], sc_corporate_group_id = [],
     sc_organisation_id = [], sc_organisation_ids = [], sc_tenant_id = [], sc_legal_entity_id = [],
     sc_market_id = [], sc_digital_estate_id = [], sc_resource_type = [], sc_resource_id = [],
     sc_environment = []\<rparr>"

datatype anchor =
    APlatformAccountID | ACorporateGroupID | AOrganisationID | AOrganisationIDs | ATenantID
  | ALegalEntityID | AMarketID | ADigitalEstateID | AResourceType | AResourceID

definition scope_anchors :: "scope \<Rightarrow> (anchor \<times> bool) list" where
  "scope_anchors s =
    [(APlatformAccountID, sc_platform_account_id s \<noteq> []), (ACorporateGroupID, sc_corporate_group_id s \<noteq> []),
     (AOrganisationID, sc_organisation_id s \<noteq> []), (AOrganisationIDs, sc_organisation_ids s \<noteq> []),
     (ATenantID, sc_tenant_id s \<noteq> []), (ALegalEntityID, sc_legal_entity_id s \<noteq> []),
     (AMarketID, sc_market_id s \<noteq> []), (ADigitalEstateID, sc_digital_estate_id s \<noteq> []),
     (AResourceType, sc_resource_type s \<noteq> []), (AResourceID, sc_resource_id s \<noteq> [])]"

text \<open>The required and the optional anchors of a level; \<open>None\<close> for an unknown level.\<close>

fun level_anchors :: "scope_level \<Rightarrow> (anchor list \<times> anchor list) option" where
  "level_anchors LevelPlatform = Some ([], [])"
| "level_anchors LevelPlatformAccount = Some ([APlatformAccountID], [])"
| "level_anchors LevelCorporateGroup = Some ([ACorporateGroupID], [AOrganisationIDs])"
| "level_anchors LevelOrganisation = Some ([AOrganisationID], [])"
| "level_anchors LevelTenant = Some ([ATenantID], [])"
| "level_anchors LevelLegalEntity = Some ([ALegalEntityID], [])"
| "level_anchors LevelMarket = Some ([AMarketID], [AOrganisationID, ATenantID])"
| "level_anchors LevelDigitalEstate = Some ([ADigitalEstateID], [])"
| "level_anchors LevelResource = Some ([AResourceType, AResourceID], [])"
| "level_anchors (LevelOther _) = None"

definition anchor_ok :: "anchor list \<Rightarrow> anchor list \<Rightarrow> anchor \<times> bool \<Rightarrow> bool" where
  "anchor_ok required optional a \<longleftrightarrow>
     \<not> (fst a \<in> set required \<and> \<not> snd a) \<and>
     \<not> (snd a \<and> fst a \<notin> set required \<and> fst a \<notin> set optional)"

definition environments :: "string list" where
  "environments = ['''', ''local'', ''development'', ''staging'', ''production'']"

text \<open>
  The anchor loop of \<open>Scope.Validate\<close> ranges over a Go map, so which offending anchor the
  message names is not determined; that one is offended is, and that is the error here.
\<close>

datatype scope_error =
    UnknownLevel | AnchorRule | UnknownEnvironment | OrganisationIDsNotStatic
  | ModeNotCorporateGroup | StaticMembershipLists | UnknownMode

definition scope_mode_error :: "scope \<Rightarrow> scope_error option" where
  "scope_mode_error s =
    (case sc_mode s of
       ModeOther _ \<Rightarrow> Some UnknownMode
     | ModeStaticMembership \<Rightarrow>
         (if sc_level s \<noteq> LevelCorporateGroup then Some ModeNotCorporateGroup
          else if sc_organisation_ids s = [] then Some StaticMembershipLists else None)
     | ModeDynamicGroupDescendants \<Rightarrow>
         (if sc_level s \<noteq> LevelCorporateGroup then Some ModeNotCorporateGroup
          else if sc_organisation_ids s \<noteq> [] then Some StaticMembershipLists else None)
     | _ \<Rightarrow> (if sc_organisation_ids s \<noteq> [] then Some OrganisationIDsNotStatic else None))"

definition scope_validate :: "scope \<Rightarrow> scope_error option" where
  "scope_validate s =
    (case level_anchors (sc_level s) of
       None \<Rightarrow> Some UnknownLevel
     | Some (required, optional) \<Rightarrow>
         if \<not> list_all (anchor_ok required optional) (scope_anchors s) then Some AnchorRule
         else if sc_environment s \<notin> set environments then Some UnknownEnvironment
         else scope_mode_error s)"

section \<open>Relations and resources\<close>

definition normalise_entity_id :: "string \<Rightarrow> string" where
  "normalise_entity_id i = to_lower i"

record relations =
  tenant_organisations :: "string \<Rightarrow> string list option"

definition no_relations :: relations where
  "no_relations = \<lparr>tenant_organisations = (\<lambda>_. None)\<rparr>"

definition organisations_of :: "relations \<Rightarrow> string \<Rightarrow> string list" where
  "organisations_of rel t = map_read [] (tenant_organisations rel) t"

definition rel_maps :: "relations \<Rightarrow> string \<Rightarrow> string \<Rightarrow> bool" where
  "rel_maps rel t organisation \<longleftrightarrow>
     \<not> (t = [] \<or> organisation = []) \<and>
     list_ex (\<lambda>o'. normalise_entity_id o' = normalise_entity_id organisation) (organisations_of rel t)"

fun tenants_of_acc :: "string list \<Rightarrow> scope list \<Rightarrow> string list" where
  "tenants_of_acc out [] = out"
| "tenants_of_acc out (s # ss) =
     tenants_of_acc (if sc_tenant_id s \<noteq> [] \<and> sc_tenant_id s \<notin> set out then out @ [sc_tenant_id s] else out) ss"

definition tenants_of :: "scope list \<Rightarrow> string list" where
  "tenants_of ss = tenants_of_acc [] ss"

record resource =
  re_environment :: string
  re_platform_account_id :: string
  re_corporate_group_ids :: "string list"
  re_corporate_group_id :: string
  re_organisation_id :: string
  re_tenant_id :: string
  re_mapped_organisation_ids :: "string list"
  re_tenant_organisations_resolved :: bool
  re_legal_entity_id :: string
  re_market_id :: string
  re_digital_estate_id :: string
  re_resource_type :: string
  re_resource_id :: string

definition resolve_resource :: "relations \<Rightarrow> resource \<Rightarrow> resource" where
  "resolve_resource rel res =
    (if re_tenant_id res = [] then res
     else res\<lparr>re_mapped_organisation_ids := organisations_of rel (re_tenant_id res),
              re_tenant_organisations_resolved := True\<rparr>)"

fun anchors_level :: "resource \<Rightarrow> scope_level \<Rightarrow> bool" where
  "anchors_level r LevelPlatform = True"
| "anchors_level r LevelPlatformAccount = (re_platform_account_id r \<noteq> [])"
| "anchors_level r LevelCorporateGroup = (re_corporate_group_id r \<noteq> [] \<or> re_corporate_group_ids r \<noteq> [])"
| "anchors_level r LevelOrganisation = (re_organisation_id r \<noteq> [] \<or> re_tenant_organisations_resolved r)"
| "anchors_level r LevelTenant = (re_tenant_id r \<noteq> [])"
| "anchors_level r LevelLegalEntity = (re_legal_entity_id r \<noteq> [])"
| "anchors_level r LevelMarket = (re_market_id r \<noteq> [])"
| "anchors_level r LevelDigitalEstate = (re_digital_estate_id r \<noteq> [])"
| "anchors_level r LevelResource = (re_resource_type r \<noteq> [] \<and> re_resource_id r \<noteq> [])"
| "anchors_level r (LevelOther _) = False"

section \<open>Coverage and containment\<close>

definition covers_group :: "scope \<Rightarrow> resource \<Rightarrow> bool" where
  "covers_group s r =
    (case sc_mode s of
       ModeStaticMembership \<Rightarrow> re_organisation_id r \<noteq> [] \<and> re_organisation_id r \<in> set (sc_organisation_ids s)
     | ModeDynamicGroupDescendants \<Rightarrow>
         re_corporate_group_id r = sc_corporate_group_id s \<or>
         sc_corporate_group_id s \<in> set (re_corporate_group_ids r)
     | _ \<Rightarrow> re_corporate_group_id r = sc_corporate_group_id s)"

definition covers_organisation :: "scope \<Rightarrow> resource \<Rightarrow> bool" where
  "covers_organisation s r \<longleftrightarrow>
     re_organisation_id r = sc_organisation_id s \<or>
     (re_tenant_id r \<noteq> [] \<and>
      list_ex (\<lambda>o'. normalise_entity_id o' = normalise_entity_id (sc_organisation_id s)) (re_mapped_organisation_ids r))"

definition covers :: "scope \<Rightarrow> resource \<Rightarrow> bool" where
  "covers s r =
    (if sc_environment s \<noteq> [] \<and> sc_environment s \<noteq> re_environment r then False
     else case sc_level s of
       LevelPlatform \<Rightarrow> True
     | LevelPlatformAccount \<Rightarrow> re_platform_account_id r = sc_platform_account_id s
     | LevelCorporateGroup \<Rightarrow> covers_group s r
     | LevelOrganisation \<Rightarrow> covers_organisation s r
     | LevelTenant \<Rightarrow> re_tenant_id r = sc_tenant_id s
     | LevelLegalEntity \<Rightarrow> re_legal_entity_id r = sc_legal_entity_id s
     | LevelMarket \<Rightarrow> re_market_id r = sc_market_id s \<and>
         (sc_organisation_id s = [] \<or> re_organisation_id r = sc_organisation_id s) \<and>
         (sc_tenant_id s = [] \<or> re_tenant_id r = sc_tenant_id s)
     | LevelDigitalEstate \<Rightarrow> re_digital_estate_id r = sc_digital_estate_id s
     | LevelResource \<Rightarrow> re_resource_type r = sc_resource_type s \<and> re_resource_id r = sc_resource_id s
     | LevelOther _ \<Rightarrow> False)"

definition mode_or_exact :: "scope \<Rightarrow> scope_mode" where
  "mode_or_exact s = (if sc_mode s = ModeUnset then ModeExact else sc_mode s)"

definition contains_group :: "scope \<Rightarrow> scope \<Rightarrow> bool" where
  "contains_group outer inner =
    (case mode_or_exact outer of
       ModeStaticMembership \<Rightarrow>
         (if sc_level inner = LevelOrganisation then sc_organisation_id inner \<in> set (sc_organisation_ids outer)
          else if sc_level inner = LevelCorporateGroup \<and> mode_or_exact inner = ModeStaticMembership \<and>
                  sc_corporate_group_id inner = sc_corporate_group_id outer
          then list_all (\<lambda>o'. o' \<in> set (sc_organisation_ids outer)) (sc_organisation_ids inner)
          else False)
     | ModeDynamicGroupDescendants \<Rightarrow>
         sc_level inner = LevelCorporateGroup \<and> sc_corporate_group_id inner = sc_corporate_group_id outer \<and>
         (mode_or_exact inner = ModeExact \<or> mode_or_exact inner = ModeDynamicGroupDescendants)
     | _ \<Rightarrow> sc_level inner = LevelCorporateGroup \<and> mode_or_exact inner = ModeExact \<and>
            sc_corporate_group_id inner = sc_corporate_group_id outer)"

definition contains :: "scope \<Rightarrow> scope \<Rightarrow> relations \<Rightarrow> bool" where
  "contains outer inner rel =
    (if sc_environment outer \<noteq> [] \<and> sc_environment outer \<noteq> sc_environment inner then False
     else if sc_level outer = LevelPlatform then True
     else if sc_level outer = LevelCorporateGroup then contains_group outer inner
     else if sc_level outer = LevelOrganisation \<and> sc_level inner = LevelTenant
       then rel_maps rel (sc_tenant_id inner) (sc_organisation_id outer)
     else if sc_level outer = LevelMarket
       then sc_level inner = LevelMarket \<and> sc_market_id inner = sc_market_id outer \<and>
            (sc_organisation_id outer = [] \<or> sc_organisation_id inner = sc_organisation_id outer) \<and>
            (sc_tenant_id outer = [] \<or> sc_tenant_id inner = sc_tenant_id outer)
     else if sc_level inner \<noteq> sc_level outer then False
     else case sc_level outer of
       LevelPlatformAccount \<Rightarrow> sc_platform_account_id inner = sc_platform_account_id outer
     | LevelOrganisation \<Rightarrow> sc_organisation_id inner = sc_organisation_id outer
     | LevelTenant \<Rightarrow> sc_tenant_id inner = sc_tenant_id outer
     | LevelLegalEntity \<Rightarrow> sc_legal_entity_id inner = sc_legal_entity_id outer
     | LevelDigitalEstate \<Rightarrow> sc_digital_estate_id inner = sc_digital_estate_id outer
     | LevelResource \<Rightarrow> sc_resource_type inner = sc_resource_type outer \<and> sc_resource_id inner = sc_resource_id outer
     | _ \<Rightarrow> False)"

text \<open>\<open>sameScope\<close>: equality up to the spelling of EXACT.\<close>

definition same_scope :: "scope \<Rightarrow> scope \<Rightarrow> bool" where
  "same_scope a b \<longleftrightarrow> a\<lparr>sc_mode := mode_or_exact a\<rparr> = b\<lparr>sc_mode := mode_or_exact b\<rparr>"

definition resource_of :: "scope \<Rightarrow> string \<Rightarrow> resource" where
  "resource_of s environment =
    \<lparr>re_environment = (if sc_environment s = [] then environment else sc_environment s),
     re_platform_account_id = sc_platform_account_id s, re_corporate_group_ids = [],
     re_corporate_group_id = sc_corporate_group_id s, re_organisation_id = sc_organisation_id s,
     re_tenant_id = sc_tenant_id s, re_mapped_organisation_ids = [], re_tenant_organisations_resolved = False,
     re_legal_entity_id = sc_legal_entity_id s, re_market_id = sc_market_id s,
     re_digital_estate_id = sc_digital_estate_id s, re_resource_type = sc_resource_type s,
     re_resource_id = sc_resource_id s\<rparr>"

section \<open>What a valid scope names\<close>

lemmas scope_validate_defs =
  scope_validate_def scope_mode_error_def scope_anchors_def anchor_ok_def

lemma scope_validate_level: "scope_validate s = None \<Longrightarrow> scope_level_valid (sc_level s)"
  by (cases "sc_level s") (auto simp: scope_validate_def scope_level_valid_def)

lemma scope_validate_static:
  "scope_validate s = None \<Longrightarrow> sc_mode s = ModeStaticMembership \<longleftrightarrow> sc_organisation_ids s \<noteq> []"
  by (cases "sc_mode s") (auto simp: scope_validate_def scope_mode_error_def split: option.splits if_splits)

lemma scope_validate_mode:
  "scope_validate s = None \<Longrightarrow> sc_mode s \<in> {ModeUnset, ModeExact} \<or>
     sc_level s = LevelCorporateGroup \<and> sc_mode s \<in> {ModeStaticMembership, ModeDynamicGroupDescendants}"
  by (cases "sc_mode s") (auto simp: scope_validate_def scope_mode_error_def split: option.splits if_splits)

lemma scope_validate_anchor:
  assumes "scope_validate s = None"
  shows "sc_level s = LevelPlatformAccount \<longleftrightarrow> sc_platform_account_id s \<noteq> []"
    and "sc_level s = LevelCorporateGroup \<longleftrightarrow> sc_corporate_group_id s \<noteq> []"
    and "sc_level s = LevelOrganisation \<Longrightarrow> sc_organisation_id s \<noteq> []"
    and "sc_organisation_id s \<noteq> [] \<Longrightarrow> sc_level s \<in> {LevelOrganisation, LevelMarket}"
    and "sc_level s = LevelTenant \<Longrightarrow> sc_tenant_id s \<noteq> []"
    and "sc_tenant_id s \<noteq> [] \<Longrightarrow> sc_level s \<in> {LevelTenant, LevelMarket}"
    and "sc_level s = LevelLegalEntity \<longleftrightarrow> sc_legal_entity_id s \<noteq> []"
    and "sc_level s = LevelMarket \<longleftrightarrow> sc_market_id s \<noteq> []"
    and "sc_level s = LevelDigitalEstate \<longleftrightarrow> sc_digital_estate_id s \<noteq> []"
    and "sc_level s = LevelResource \<longleftrightarrow> sc_resource_type s \<noteq> [] \<and> sc_resource_id s \<noteq> []"
  using assms by (cases "sc_level s"; simp add: scope_validate_def scope_anchors_def anchor_ok_def split: if_splits)+

section \<open>Containment and coverage\<close>

text \<open>
  The interface delegation relies on: a containment judgement and the coverage it is about,
  with the pairs of scopes for which the judgement is too generous. Along a chain of scopes
  none of whose links is leaky, whatever the last scope reaches the first one reaches.
\<close>

locale scope_containment =
  fixes within :: "'s \<Rightarrow> 's \<Rightarrow> 'rel \<Rightarrow> bool" and reaches :: "'s \<Rightarrow> 'r \<Rightarrow> bool"
    and resolve :: "'rel \<Rightarrow> 'r \<Rightarrow> 'r" and leaky :: "'s \<Rightarrow> 's \<Rightarrow> bool"
  assumes within_reaches:
    "within outer inner rel \<Longrightarrow> \<not> leaky outer inner \<Longrightarrow> reaches inner (resolve rel r) \<Longrightarrow> reaches outer (resolve rel r)"
begin

lemma chain_reaches:
  "successively (\<lambda>o' i. within o' i rel \<and> \<not> leaky o' i) (s # ss) \<Longrightarrow>
   reaches (last (s # ss)) (resolve rel r) \<Longrightarrow> reaches s (resolve rel r)"
proof (induction ss arbitrary: s)
  case Nil
  then show ?case by simp
next
  case (Cons t ts)
  then have "reaches t (resolve rel r)" by simp
  moreover from Cons.prems(1) have "within s t rel" and "\<not> leaky s t" by simp_all
  ultimately show ?case using within_reaches by blast
qed

end

definition leaky_containment :: "scope \<Rightarrow> scope \<Rightarrow> bool" where
  "leaky_containment outer inner \<longleftrightarrow>
     sc_level outer = LevelCorporateGroup \<and> sc_mode outer = ModeStaticMembership \<and> sc_level inner = LevelOrganisation"

lemma covers_environment: "covers s r \<Longrightarrow> sc_environment s = [] \<or> sc_environment s = re_environment r"
  by (auto simp: covers_def split: if_splits)

lemma rel_maps_covers:
  assumes "rel_maps rel (re_tenant_id r) organisation"
  shows "list_ex (\<lambda>o'. normalise_entity_id o' = normalise_entity_id organisation)
           (re_mapped_organisation_ids (resolve_resource rel r))"
    and "re_tenant_id (resolve_resource rel r) \<noteq> []"
  using assms by (auto simp: rel_maps_def resolve_resource_def)

lemma resolve_resource_tenant [simp]: "re_tenant_id (resolve_resource rel r) = re_tenant_id r"
  by (simp add: resolve_resource_def)

lemma contains_group_covers:
  assumes "contains_group outer inner" and "\<not> (sc_mode outer = ModeStaticMembership \<and> sc_level inner = LevelOrganisation)"
    and "sc_level outer = LevelCorporateGroup"
  shows "sc_level inner = LevelCorporateGroup \<and> (covers_group inner r \<longrightarrow> covers_group outer r)"
  using assms
  by (cases "sc_mode outer"; cases "sc_mode inner")
    (auto simp: contains_group_def covers_group_def mode_or_exact_def list_all_iff split: if_splits)

lemma contains_environment:
  "contains outer inner rel \<Longrightarrow> sc_environment outer = [] \<or> sc_environment outer = sc_environment inner"
  by (auto simp: contains_def split: if_splits)

lemma contains_covers:
  assumes con: "contains outer inner rel" and ok: "\<not> leaky_containment outer inner"
    and cov: "covers inner (resolve_resource rel r)"
  shows "covers outer (resolve_resource rel r)"
proof -
  let ?r = "resolve_resource rel r"
  from contains_environment [OF con] covers_environment [OF cov]
  have env: "\<not> (sc_environment outer \<noteq> [] \<and> sc_environment outer \<noteq> re_environment ?r)" by auto
  show ?thesis
  proof (cases "sc_level outer = LevelCorporateGroup")
    case True
    with con have "contains_group outer inner" by (simp add: contains_def split: if_splits)
    with ok True have "sc_level inner = LevelCorporateGroup \<and> (covers_group inner ?r \<longrightarrow> covers_group outer ?r)"
      by (intro contains_group_covers) (auto simp: leaky_containment_def)
    with cov env True show ?thesis by (auto simp: covers_def split: if_splits)
  next
    case False
    show ?thesis
    proof (cases "sc_level outer = LevelOrganisation \<and> sc_level inner = LevelTenant")
      case True
      with con have "rel_maps rel (sc_tenant_id inner) (sc_organisation_id outer)"
        by (simp add: contains_def split: if_splits)
      moreover from cov True have "re_tenant_id r = sc_tenant_id inner" by (simp add: covers_def split: if_splits)
      ultimately have "covers_organisation outer ?r"
        using rel_maps_covers [of rel r "sc_organisation_id outer"] by (simp add: covers_organisation_def)
      with env True show ?thesis by (simp add: covers_def)
    next
      case other: False
      with False con cov env show ?thesis
        by (cases "sc_level outer")
          (auto simp: contains_def covers_def covers_organisation_def split: if_splits)
    qed
  qed
qed

interpretation admin_containment: scope_containment contains covers resolve_resource leaky_containment
  by unfold_locales (rule contains_covers)

lemma static_membership_organisation:
  assumes "contains outer inner rel" and "leaky_containment outer inner" and "scope_validate inner = None"
    and "covers inner r" and "re_organisation_id r = sc_organisation_id inner"
  shows "covers outer r"
proof -
  from assms(2) have lv: "sc_level outer = LevelCorporateGroup" "sc_mode outer = ModeStaticMembership"
    "sc_level inner = LevelOrganisation" by (auto simp: leaky_containment_def)
  with assms(1) have member: "sc_organisation_id inner \<in> set (sc_organisation_ids outer)"
    by (auto simp: contains_def contains_group_def mode_or_exact_def split: if_splits)
  from scope_validate_anchor(3) [OF assms(3) lv(3)] have "sc_organisation_id inner \<noteq> []" .
  with lv member assms(5) contains_environment [OF assms(1)] covers_environment [OF assms(4)]
  show ?thesis by (auto simp: covers_def covers_group_def)
qed

text \<open>
  Property (containment is coverage, with one exception). When \<open>Contains(outer, inner, rel)\<close>
  holds for a valid inner scope, every resource resolved against the same relations that the
  inner scope covers is covered by the outer scope too, except one the scope of a listed
  organisation reaches only through a tenant mapping while the outer scope is a corporate
  group in STATIC_MEMBERSHIP mode.
\<close>

theorem contains_implies_coverage:
  assumes "contains outer inner rel" and "scope_validate inner = None"
    and "covers inner (resolve_resource rel r)"
  shows "covers outer (resolve_resource rel r) \<or>
    (leaky_containment outer inner \<and> re_organisation_id r \<noteq> sc_organisation_id inner)"
proof (cases "leaky_containment outer inner \<and> re_organisation_id r = sc_organisation_id inner")
  case True
  moreover have "re_organisation_id (resolve_resource rel r) = re_organisation_id r"
    by (simp add: resolve_resource_def)
  ultimately show ?thesis
    using assms static_membership_organisation [OF assms(1) _ assms(2,3)] by simp
next
  case False
  then show ?thesis using assms admin_containment.within_reaches by blast
qed

text \<open>Concrete scopes and resources for the witnesses.\<close>

definition ex_organisation_scope :: scope where
  "ex_organisation_scope = (scope_at LevelOrganisation)\<lparr>sc_organisation_id := ''org-1''\<rparr>"

definition ex_tenant_scope :: scope where
  "ex_tenant_scope = (scope_at LevelTenant)\<lparr>sc_tenant_id := ''ten-1''\<rparr>"

definition ex_static_group_scope :: scope where
  "ex_static_group_scope = (scope_at LevelCorporateGroup)\<lparr>sc_mode := ModeStaticMembership,
     sc_corporate_group_id := ''grp-1'', sc_organisation_ids := [''org-1'', ''org-2'']\<rparr>"

definition ex_relations :: relations where
  "ex_relations = \<lparr>tenant_organisations = [''ten-1'' \<mapsto> [''ORG-1'']]\<rparr>"

definition ex_tenant_resource :: resource where
  "ex_tenant_resource = resource_of ex_tenant_scope ''production''"

lemmas ex_scope_defs = ex_organisation_scope_def ex_tenant_scope_def ex_static_group_scope_def scope_at_def
  ex_relations_def ex_tenant_resource_def resource_of_def

lemmas scope_eval = contains_def contains_group_def mode_or_exact_def covers_def covers_group_def
  covers_organisation_def rel_maps_def organisations_of_def map_read_def resolve_resource_def
  normalise_entity_id_def environments_def scope_validate_defs leaky_containment_def go_simps

lemma ex_organisation_contains_tenant:
  "contains ex_organisation_scope ex_tenant_scope ex_relations"
  "scope_validate ex_tenant_scope = None"
  "covers ex_tenant_scope (resolve_resource ex_relations ex_tenant_resource)"
  "\<not> leaky_containment ex_organisation_scope ex_tenant_scope"
  by (simp_all add: ex_scope_defs scope_eval)

theorem contains_implies_coverage_witness:
  "contains ex_organisation_scope ex_tenant_scope ex_relations \<and>
   covers ex_organisation_scope (resolve_resource ex_relations ex_tenant_resource)"
  using contains_implies_coverage [OF ex_organisation_contains_tenant(1-3)] ex_organisation_contains_tenant(1,4)
  by blast

text \<open>
  Property (a static group delegation can widen). There are valid scopes and canonical relations
  for which \<open>Contains\<close> accepts an organisation scope inside a STATIC_MEMBERSHIP group scope
  although the organisation scope covers a resource, one of a tenant mapped to the
  organisation, that the group scope does not cover.
\<close>

theorem static_group_containment_widens:
  "\<exists>outer inner rel r. scope_validate outer = None \<and> scope_validate inner = None \<and>
     contains outer inner rel \<and> covers inner (resolve_resource rel r) \<and> \<not> covers outer (resolve_resource rel r)"
proof -
  have "scope_validate ex_static_group_scope = None \<and> scope_validate ex_organisation_scope = None \<and>
     contains ex_static_group_scope ex_organisation_scope ex_relations \<and>
     covers ex_organisation_scope (resolve_resource ex_relations ex_tenant_resource) \<and>
     \<not> covers ex_static_group_scope (resolve_resource ex_relations ex_tenant_resource)"
    by (simp add: ex_scope_defs scope_eval)
  then show ?thesis by blast
qed

text \<open>
  A valid scope is contained in itself whatever the
  relations, so delegating authority over exactly the source grant's scope is never refused
  for its scope.
\<close>

theorem contains_reflexive:
  assumes "scope_validate s = None"
  shows "contains s s rel"
proof -
  from scope_validate_mode [OF assms] scope_validate_level [OF assms] show ?thesis
    by (cases "sc_level s")
      (auto simp: contains_def contains_group_def mode_or_exact_def scope_level_valid_def list_all_iff)
qed

theorem contains_reflexive_witness:
  "scope_validate ex_static_group_scope = None \<and> contains ex_static_group_scope ex_static_group_scope no_relations"
proof -
  have "scope_validate ex_static_group_scope = None" by (simp add: ex_scope_defs scope_eval)
  then show ?thesis using contains_reflexive by blast
qed

end
