(* ===== verification/Admin_Catalogue.thy ===== *)
theory Admin_Catalogue
  imports Admin_Scope "HOL-Library.AList"
begin

text \<open>
  Risk classes (\<open>internal/administration/grant.go\<close>), the permission and profile
  vocabulary with the checks that build it (\<open>catalogue.go\<close>), and the risk a permission
  carries at a scope (\<open>administer.go\<close>, \<open>changecheck.go\<close>).

  The two registries are YAML documents; \<open>ParseCatalogue\<close> is modelled from the decoded
  documents on. The lemmas show what every entry of a catalogue it accepts satisfies.
\<close>

section \<open>Risk classes\<close>

datatype risk_class = RiskLow | RiskModerate | RiskHigh | RiskCritical | RiskOther string

text \<open>The position in \<open>riskOrder\<close>, -1 for a class that is not in it.\<close>

fun risk_index :: "risk_class \<Rightarrow> int" where
  "risk_index RiskLow = 0"
| "risk_index RiskModerate = 1"
| "risk_index RiskHigh = 2"
| "risk_index RiskCritical = 3"
| "risk_index (RiskOther _) = -1"

definition risk_valid :: "risk_class \<Rightarrow> bool" where
  "risk_valid r \<longleftrightarrow> r \<in> {RiskLow, RiskModerate, RiskHigh, RiskCritical}"

definition risk_at_least :: "risk_class \<Rightarrow> risk_class \<Rightarrow> bool" where
  "risk_at_least r o' \<longleftrightarrow> risk_index o' \<le> risk_index r"

section \<open>Permissions, profiles, catalogue\<close>

record permission =
  pm_key :: string
  pm_domain :: string
  pm_risk_class :: risk_class
  pm_scope_levels :: "scope_level list"
  pm_delegable :: bool
  pm_read_only :: bool

record profile =
  pf_key :: string
  pf_name :: string
  pf_scope_level :: scope_level
  pf_permissions :: "string list"

record catalogue =
  cat_permissions :: "(string \<times> permission) list"
  cat_profiles :: "(string \<times> profile) list"

definition cat_permission :: "catalogue \<Rightarrow> string \<Rightarrow> permission option" where
  "cat_permission c key = map_of (cat_permissions c) key"

definition cat_permissions_sorted :: "catalogue \<Rightarrow> permission list" where
  "cat_permissions_sorted c = sort_key pm_key (map snd (cat_permissions c))"

definition cat_profile :: "catalogue \<Rightarrow> string \<Rightarrow> profile option" where
  "cat_profile c key = map_of (cat_profiles c) key"

text \<open>The regular expression \<open>^[a-z][a-z0-9-]*(?:\.[a-z][a-z0-9-]*)+$\<close>.\<close>

definition key_segment :: "string \<Rightarrow> bool" where
  "key_segment w = (case w of [] \<Rightarrow> False
     | c # cs \<Rightarrow> is_lower c \<and> list_all (\<lambda>d. is_lower d \<or> is_digit d \<or> d = CHR ''-'') cs)"

definition permission_key :: "string \<Rightarrow> bool" where
  "permission_key s = (let ws = split_at (CHR ''.'') s in 2 \<le> length ws \<and> list_all key_segment ws)"

datatype catalogue_error =
    UnsupportedVersion int int | PermissionMalformed string | PermissionUnknownLevel string
  | CriticalDelegable string | PermissionTwice string | ProfileUnknownLevel string
  | ProfileMayNotConfer string string

definition add_permission :: "permission \<Rightarrow> catalogue \<Rightarrow> catalogue_error + catalogue" where
  "add_permission p c =
    (if \<not> permission_key (pm_key p) \<or> \<not> risk_valid (pm_risk_class p) \<or> pm_scope_levels p = []
       then Inl (PermissionMalformed (pm_key p))
     else if \<not> list_all scope_level_valid (pm_scope_levels p) then Inl (PermissionUnknownLevel (pm_key p))
     else if pm_delegable p \<and> pm_risk_class p = RiskCritical then Inl (CriticalDelegable (pm_key p))
     else if cat_permission c (pm_key p) \<noteq> None then Inl (PermissionTwice (pm_key p))
     else Inr (c\<lparr>cat_permissions := cat_permissions c @ [(pm_key p, p)]\<rparr>))"

text \<open>Whether a profile may confer a permission (the inner loop of the profile checks).\<close>

definition conferrable :: "catalogue \<Rightarrow> profile \<Rightarrow> string \<Rightarrow> bool" where
  "conferrable c pr key = (case cat_permission c key of None \<Rightarrow> False
     | Some p \<Rightarrow> pf_scope_level pr \<in> set (pm_scope_levels p) \<and> pm_risk_class p \<noteq> RiskCritical)"

definition add_profile :: "profile \<Rightarrow> catalogue \<Rightarrow> catalogue_error + catalogue" where
  "add_profile pr c =
    (if \<not> scope_level_valid (pf_scope_level pr) then Inl (ProfileUnknownLevel (pf_key pr))
     else case first_error (\<lambda>key. if conferrable c pr key then None else Some (ProfileMayNotConfer (pf_key pr) key))
                 (pf_permissions pr) of
       Some e \<Rightarrow> Inl e
     | None \<Rightarrow> Inr (c\<lparr>cat_profiles := AList.update (pf_key pr) pr (cat_profiles c)\<rparr>))"

definition parse_catalogue ::
  "int \<Rightarrow> permission list \<Rightarrow> int \<Rightarrow> profile list \<Rightarrow> catalogue_error + catalogue" where
  "parse_catalogue perm_version perms prof_version profs =
    (if perm_version \<noteq> 1 \<or> prof_version \<noteq> 1 then Inl (UnsupportedVersion perm_version prof_version)
     else case fold_result add_permission perms \<lparr>cat_permissions = [], cat_profiles = []\<rparr> of
       Inl e \<Rightarrow> Inl e
     | Inr c \<Rightarrow> fold_result add_profile profs c)"

definition effective_risk :: "permission \<Rightarrow> scope \<Rightarrow> risk_class" where
  "effective_risk p s =
    (if pm_domain p = ''ADMINISTRATION'' \<and> \<not> pm_read_only p \<and> sc_level s = LevelPlatform
     then RiskCritical else pm_risk_class p)"

definition change_risk :: "catalogue \<Rightarrow> string \<Rightarrow> scope \<Rightarrow> risk_class" where
  "change_risk c key s = (case cat_permission c key of None \<Rightarrow> RiskHigh | Some p \<Rightarrow> effective_risk p s)"

section \<open>Risk order\<close>

lemma risk_at_least_refl [simp]: "risk_at_least r r"
  by (simp add: risk_at_least_def)

lemma risk_at_least_trans: "risk_at_least a b \<Longrightarrow> risk_at_least b c \<Longrightarrow> risk_at_least a c"
  by (simp add: risk_at_least_def)

lemma risk_at_least_total: "risk_at_least a b \<or> risk_at_least b a"
  by (auto simp: risk_at_least_def)

lemma risk_valid_iff_index: "risk_valid r \<longleftrightarrow> 0 \<le> risk_index r"
  by (cases r) (simp_all add: risk_valid_def)

lemma effective_risk_raises:
  "risk_valid (pm_risk_class p) \<Longrightarrow> risk_at_least (effective_risk p s) (pm_risk_class p)"
  by (cases "pm_risk_class p") (simp_all add: effective_risk_def risk_at_least_def risk_valid_def)

section \<open>Every catalogue that loads is enforceable\<close>

definition permission_ok :: "permission \<Rightarrow> bool" where
  "permission_ok p \<longleftrightarrow> permission_key (pm_key p) \<and> risk_valid (pm_risk_class p) \<and> pm_scope_levels p \<noteq> [] \<and>
     list_all scope_level_valid (pm_scope_levels p) \<and> \<not> (pm_delegable p \<and> pm_risk_class p = RiskCritical)"

definition catalogue_ok :: "catalogue \<Rightarrow> bool" where
  "catalogue_ok c \<longleftrightarrow> distinct (map fst (cat_permissions c)) \<and>
     (\<forall>(key, p) \<in> set (cat_permissions c). pm_key p = key \<and> permission_ok p) \<and>
     (\<forall>(key, pr) \<in> set (cat_profiles c). pf_key pr = key \<and> scope_level_valid (pf_scope_level pr) \<and>
        list_all (conferrable c pr) (pf_permissions pr))"

lemma cat_permission_in: "cat_permission c key = Some p \<Longrightarrow> (key, p) \<in> set (cat_permissions c)"
  by (simp add: cat_permission_def map_of_SomeD)

lemma add_permission_ok:
  assumes "add_permission p c = Inr c'" and "catalogue_ok c" and "cat_profiles c = []"
  shows "catalogue_ok c' \<and> cat_profiles c' = []"
proof -
  from assms(1) have p: "permission_ok p" "cat_permission c (pm_key p) = None"
    and c': "c' = c\<lparr>cat_permissions := cat_permissions c @ [(pm_key p, p)]\<rparr>"
    by (auto simp: add_permission_def permission_ok_def split: if_splits)
  from p(2) have "pm_key p \<notin> fst ` set (cat_permissions c)"
    by (simp add: cat_permission_def map_of_eq_None_iff)
  with p(1) c' assms(2,3) show ?thesis by (auto simp: catalogue_ok_def)
qed

lemma set_alist_update: "set (AList.update k v xs) \<subseteq> insert (k, v) (set xs)"
  by (induction xs) auto

lemma add_profile_ok:
  assumes "add_profile pr c = Inr c'" and "catalogue_ok c"
  shows "catalogue_ok c'"
proof -
  from assms(1) have lv: "scope_level_valid (pf_scope_level pr)"
    and conf: "list_all (conferrable c pr) (pf_permissions pr)"
    and c': "c' = c\<lparr>cat_profiles := AList.update (pf_key pr) pr (cat_profiles c)\<rparr>"
    by (auto simp: add_profile_def first_error_None_iff list_all_iff split: if_splits option.splits)
  have same: "conferrable c' = conferrable c"
    by (auto simp: c' conferrable_def cat_permission_def fun_eq_iff)
  from lv conf assms(2) show ?thesis
    unfolding catalogue_ok_def same using set_alist_update [of "pf_key pr" pr "cat_profiles c"]
    by (auto simp: c')
qed

lemma fold_add_permission_ok:
  "fold_result add_permission ps c = Inr c' \<Longrightarrow> catalogue_ok c \<Longrightarrow> cat_profiles c = [] \<Longrightarrow>
   catalogue_ok c' \<and> cat_profiles c' = [] \<and>
   cat_permissions c' = cat_permissions c @ map (\<lambda>p. (pm_key p, p)) ps"
proof (induction ps arbitrary: c)
  case Nil
  then show ?case by simp
next
  case (Cons p ps)
  then obtain d where d: "add_permission p c = Inr d" and rest: "fold_result add_permission ps d = Inr c'"
    by (auto split: sum.splits)
  from d have "cat_permissions d = cat_permissions c @ [(pm_key p, p)]"
    by (auto simp: add_permission_def split: if_splits)
  with Cons.IH [OF rest] add_permission_ok [OF d Cons.prems(2,3)] show ?case by simp
qed

lemma fold_add_profile_ok:
  "fold_result add_profile prs c = Inr c' \<Longrightarrow> catalogue_ok c \<Longrightarrow>
   catalogue_ok c' \<and> cat_permissions c' = cat_permissions c"
proof (rule fold_result_invariant [where I = "\<lambda>d. catalogue_ok d \<and> cat_permissions d = cat_permissions c"])
  fix pr d d'
  assume "add_profile pr d = Inr d'" and "catalogue_ok d \<and> cat_permissions d = cat_permissions c"
  then show "catalogue_ok d' \<and> cat_permissions d' = cat_permissions c"
    using add_profile_ok by (auto simp: add_profile_def split: if_splits option.splits)
qed auto

lemma parse_catalogue_cases:
  assumes "parse_catalogue pv ps qv prs = Inr c"
  shows "catalogue_ok c" and "cat_permissions c = map (\<lambda>p. (pm_key p, p)) ps"
proof -
  let ?empty = "\<lparr>cat_permissions = [], cat_profiles = []\<rparr> :: catalogue"
  from assms obtain d where d: "fold_result add_permission ps ?empty = Inr d"
    and c: "fold_result add_profile prs d = Inr c"
    by (auto simp: parse_catalogue_def split: if_splits sum.splits)
  have "catalogue_ok ?empty" by (simp add: catalogue_ok_def)
  from fold_add_permission_ok [OF d this] have "catalogue_ok d" "cat_permissions d = map (\<lambda>p. (pm_key p, p)) ps"
    by simp_all
  with fold_add_profile_ok [OF c] show "catalogue_ok c" and "cat_permissions c = map (\<lambda>p. (pm_key p, p)) ps"
    by simp_all
qed

lemma catalogue_ok_permission:
  "catalogue_ok c \<Longrightarrow> cat_permission c key = Some p \<Longrightarrow> pm_key p = key \<and> permission_ok p"
  by (auto simp: catalogue_ok_def dest: cat_permission_in)

text \<open>
  Property (a vocabulary that loads can be enforced). When \<open>ParseCatalogue\<close> accepts the decoded
  registries, the catalogue registers exactly the listed permissions, each under its own key;
  a registered permission has a known risk class and known scope levels and is never both
  CRITICAL and delegable; and whatever a profile confers is a registered permission that may
  be granted at the profile's level and is not CRITICAL.
\<close>

theorem parse_catalogue_enforceable:
  assumes "parse_catalogue pv ps qv prs = Inr c"
  shows "(\<forall>p. p \<in> set ps \<longleftrightarrow> cat_permission c (pm_key p) = Some p) \<and>
    (\<forall>key p. cat_permission c key = Some p \<longrightarrow> pm_key p = key \<and> risk_valid (pm_risk_class p) \<and>
      list_all scope_level_valid (pm_scope_levels p) \<and> \<not> (pm_delegable p \<and> pm_risk_class p = RiskCritical)) \<and>
    (\<forall>key pr k. cat_profile c key = Some pr \<longrightarrow> k \<in> set (pf_permissions pr) \<longrightarrow>
      (\<exists>q. cat_permission c k = Some q \<and> pf_scope_level pr \<in> set (pm_scope_levels q) \<and> pm_risk_class q \<noteq> RiskCritical))"
proof (intro conjI allI impI)
  note ok = parse_catalogue_cases(1) [OF assms] and entries = parse_catalogue_cases(2) [OF assms]
  from ok have dist: "distinct (map fst (cat_permissions c))" by (simp add: catalogue_ok_def)
  fix p key pr k
  show "p \<in> set ps \<longleftrightarrow> cat_permission c (pm_key p) = Some p"
    using dist by (auto simp: cat_permission_def entries dest: map_of_SomeD)
  assume profile: "cat_profile c key = Some pr" and k: "k \<in> set (pf_permissions pr)"
  from profile have "(key, pr) \<in> set (cat_profiles c)" by (simp add: cat_profile_def map_of_SomeD)
  with ok k have "conferrable c pr k" by (auto simp: catalogue_ok_def list_all_iff)
  then show "\<exists>q. cat_permission c k = Some q \<and> pf_scope_level pr \<in> set (pm_scope_levels q) \<and> pm_risk_class q \<noteq> RiskCritical"
    by (auto simp: conferrable_def split: option.splits)
qed (use catalogue_ok_permission [OF parse_catalogue_cases(1) [OF assms]] in \<open>auto simp: permission_ok_def\<close>)

text \<open>A small vocabulary for the witnesses: one entry of each kind the checks tell apart.\<close>

definition ex_permission :: permission where
  "ex_permission = \<lparr>pm_key = ''tenant.read'', pm_domain = ''TENANT'', pm_risk_class = RiskLow,
     pm_scope_levels = [LevelPlatform, LevelOrganisation, LevelTenant], pm_delegable = True, pm_read_only = True\<rparr>"

definition ex_high_permission :: permission where
  "ex_high_permission = \<lparr>pm_key = ''tenant.suspend'', pm_domain = ''TENANT'', pm_risk_class = RiskHigh,
     pm_scope_levels = [LevelPlatform, LevelTenant], pm_delegable = True, pm_read_only = False\<rparr>"

definition ex_profile :: profile where
  "ex_profile = \<lparr>pf_key = ''tenant-viewer'', pf_name = ''Tenant viewer'', pf_scope_level = LevelTenant,
     pf_permissions = [''tenant.read'']\<rparr>"

definition ex_catalogue :: catalogue where
  "ex_catalogue = \<lparr>cat_permissions = [(''tenant.read'', ex_permission), (''tenant.suspend'', ex_high_permission)],
     cat_profiles = [(''tenant-viewer'', ex_profile)]\<rparr>"

lemmas ex_catalogue_defs = ex_permission_def ex_high_permission_def ex_profile_def ex_catalogue_def

lemmas catalogue_eval = parse_catalogue_def add_permission_def add_profile_def conferrable_def cat_permission_def
  cat_profile_def permission_key_def key_segment_def risk_valid_def scope_level_valid_def go_simps

lemma ex_catalogue_parses:
  "parse_catalogue 1 [ex_permission, ex_high_permission] 1 [ex_profile] = Inr ex_catalogue"
  by (simp add: ex_catalogue_defs catalogue_eval)

theorem parse_catalogue_enforceable_witness:
  "cat_permission ex_catalogue ''tenant.read'' = Some ex_permission \<and>
   risk_valid (pm_risk_class ex_permission) \<and>
   (\<exists>q. cat_permission ex_catalogue ''tenant.read'' = Some q \<and> pf_scope_level ex_profile \<in> set (pm_scope_levels q))"
proof -
  note all = parse_catalogue_enforceable [OF ex_catalogue_parses]
  have prof: "cat_profile ex_catalogue ''tenant-viewer'' = Some ex_profile"
    and conf: "''tenant.read'' \<in> set (pf_permissions ex_profile)" and key: "pm_key ex_permission = ''tenant.read''"
    by (simp_all add: cat_profile_def ex_catalogue_defs)
  have "ex_permission \<in> set [ex_permission, ex_high_permission]" by simp
  with all [THEN conjunct1, THEN spec, of ex_permission]
  have "cat_permission ex_catalogue (pm_key ex_permission) = Some ex_permission" by (rule iffD1)
  then have reg: "cat_permission ex_catalogue ''tenant.read'' = Some ex_permission" by (simp only: key)
  from all [THEN conjunct2, THEN conjunct1, rule_format, OF reg]
    all [THEN conjunct2, THEN conjunct2, rule_format, OF prof conf] reg
  show ?thesis by blast
qed

end
