(* ===== verification/Admin_Grant.thy ===== *)
theory Admin_Grant
  imports Admin_Catalogue
begin

text \<open>
  The AdministrativeGrant record, its contract and catalogue rules and its validity window
  (\<open>internal/administration/grant.go\<close>), whether a grant is still live
  (\<open>changecheck.go\<close>), and the authentication assurance its use needs
  (\<open>assurance.go\<close>, with the embedded \<open>administration/v1/assurance-policy.yaml\<close>).

  The lemmas show what a valid grant guarantees, that a grant's assurance requirement is
  never weaker than its risk class's, and what a CRITICAL grant needs of a session under the
  embedded policy.
\<close>

section \<open>Grants\<close>

datatype grant_status =
    StatusPending | StatusActive | StatusSuspended | StatusExpired | StatusRevoked | StatusOther string

datatype grant_type = TypeStanding | TypeTimeBound | TypeJustInTime | TypeOther string

datatype grant_source =
    SourceDirect | SourceProfile | SourceDelegation | SourceBootstrap | SourceOther string

record conditions =
  minimum_acr :: string

record grant =
  gr_grant_id :: string
  gr_principal_id :: string
  gr_permission :: string
  gr_scope :: scope
  gr_conditions :: "conditions option"
  gr_grant_type :: grant_type
  gr_source :: grant_source
  gr_profile_key :: string
  gr_delegated_from_grant_id :: string
  gr_delegation_depth :: int
  gr_delegable_depth :: int
  gr_risk_class :: risk_class
  gr_valid_from :: instant
  gr_valid_until :: "instant option"
  gr_status :: grant_status
  gr_granted_by :: string
  gr_approval_reference :: string
  gr_reason :: string
  gr_created_at :: instant
  gr_updated_at :: "instant option"
  gr_revoked_at :: "instant option"
  gr_revoked_by :: string
  gr_revocation_reason :: string
  gr_supersedes_grant_id :: string
  gr_superseded_by_grant_id :: string
  gr_version :: int

text \<open>The regular expression \<open>^[A-Za-z0-9][A-Za-z0-9._:-]{2,127}$\<close>.\<close>

definition is_alnum :: "char \<Rightarrow> bool" where
  "is_alnum c \<longleftrightarrow> is_upper c \<or> is_lower c \<or> is_digit c"

definition principal_id :: "string \<Rightarrow> bool" where
  "principal_id s = (case s of [] \<Rightarrow> False
     | c # cs \<Rightarrow> is_alnum c \<and> 2 \<le> length cs \<and> length cs \<le> 127 \<and>
         list_all (\<lambda>d. is_alnum d \<or> d \<in> {CHR ''.'', CHR ''_'', CHR '':'', CHR ''-''}) cs)"

datatype grant_error =
    PrincipalsNotCanonical | GrantsToSelf | PermissionNotRegistered string | ScopeInvalid scope_error
  | NotGrantableAtLevel string scope_level | RiskBelowPermission risk_class | StandingHasEnd
  | NeedsEndAfterStart grant_type | GrantTypeUnknown | ProfileKeyMismatch | ProfileDoesNotConfer string
  | DelegationFieldsMismatch | DelegationDepthOutOfRange | NotDelegable string | BootstrapShape
  | SourceUnknown | RevocationFieldsMismatch | ReasonMissing

definition grant_window_error :: "grant \<Rightarrow> grant_error option" where
  "grant_window_error g =
    (case gr_grant_type g of
       TypeStanding \<Rightarrow> (if gr_valid_until g \<noteq> None then Some StandingHasEnd else None)
     | TypeOther _ \<Rightarrow> Some GrantTypeUnknown
     | t \<Rightarrow> (case gr_valid_until g of
               None \<Rightarrow> Some (NeedsEndAfterStart t)
             | Some u \<Rightarrow> if u > gr_valid_from g then None else Some (NeedsEndAfterStart t)))"

definition grant_profile_error :: "catalogue \<Rightarrow> grant \<Rightarrow> grant_error option" where
  "grant_profile_error c g =
    (if (gr_source g = SourceProfile) \<noteq> (gr_profile_key g \<noteq> []) then Some ProfileKeyMismatch
     else if gr_source g = SourceProfile then
       (case cat_profile c (gr_profile_key g) of
          None \<Rightarrow> Some (ProfileDoesNotConfer (gr_profile_key g))
        | Some pr \<Rightarrow>
            if gr_permission g \<notin> set (pf_permissions pr) \<or> pf_scope_level pr \<noteq> sc_level (gr_scope g)
            then Some (ProfileDoesNotConfer (gr_profile_key g)) else None)
     else None)"

definition grant_delegation_error :: "permission \<Rightarrow> grant \<Rightarrow> grant_error option" where
  "grant_delegation_error p g =
    (if (gr_source g = SourceDelegation) \<noteq> (gr_delegated_from_grant_id g \<noteq> []) \<or>
        (gr_source g = SourceDelegation) \<noteq> (gr_delegation_depth g > 0) then Some DelegationFieldsMismatch
     else if gr_delegation_depth g > 3 \<or> gr_delegable_depth g < 0 \<or> gr_delegable_depth g > 2
       then Some DelegationDepthOutOfRange
     else if gr_delegable_depth g > 0 \<and> \<not> pm_delegable p then Some (NotDelegable (gr_permission g))
     else None)"

definition grant_source_error :: "grant \<Rightarrow> grant_error option" where
  "grant_source_error g =
    (case gr_source g of
       SourceBootstrap \<Rightarrow>
         (if sc_level (gr_scope g) \<noteq> LevelPlatform \<or> gr_grant_type g \<noteq> TypeTimeBound then Some BootstrapShape else None)
     | SourceOther _ \<Rightarrow> Some SourceUnknown
     | _ \<Rightarrow> None)"

definition grant_validate :: "catalogue \<Rightarrow> grant \<Rightarrow> grant_error option" where
  "grant_validate c g =
    (if \<not> principal_id (gr_principal_id g) \<or> \<not> principal_id (gr_granted_by g) then Some PrincipalsNotCanonical
     else if gr_granted_by g = gr_principal_id g then Some GrantsToSelf
     else case cat_permission c (gr_permission g) of
       None \<Rightarrow> Some (PermissionNotRegistered (gr_permission g))
     | Some p \<Rightarrow>
         (case scope_validate (gr_scope g) of
            Some e \<Rightarrow> Some (ScopeInvalid e)
          | None \<Rightarrow>
              if sc_level (gr_scope g) \<notin> set (pm_scope_levels p)
                then Some (NotGrantableAtLevel (gr_permission g) (sc_level (gr_scope g)))
              else if \<not> risk_valid (gr_risk_class g) \<or> \<not> risk_at_least (gr_risk_class g) (pm_risk_class p)
                then Some (RiskBelowPermission (pm_risk_class p))
              else (case grant_window_error g of Some e \<Rightarrow> Some e
              | None \<Rightarrow> (case grant_profile_error c g of Some e \<Rightarrow> Some e
              | None \<Rightarrow> (case grant_delegation_error p g of Some e \<Rightarrow> Some e
              | None \<Rightarrow> (case grant_source_error g of Some e \<Rightarrow> Some e
              | None \<Rightarrow>
                  if (gr_status g = StatusRevoked) \<noteq>
                     (gr_revoked_at g \<noteq> None \<and> gr_revoked_by g \<noteq> [] \<and> gr_revocation_reason g \<noteq> [])
                    then Some RevocationFieldsMismatch
                  else if gr_reason g = [] then Some ReasonMissing
                  else None))))))"

definition valid_at :: "grant \<Rightarrow> instant \<Rightarrow> bool" where
  "valid_at g now \<longleftrightarrow> \<not> now < gr_valid_from g \<and> (case gr_valid_until g of None \<Rightarrow> True | Some u \<Rightarrow> now < u)"

definition live :: "grant \<Rightarrow> instant \<Rightarrow> bool" where
  "live g now =
    (case gr_status g of
       StatusPending \<Rightarrow> (case gr_valid_until g of None \<Rightarrow> True | Some u \<Rightarrow> now < u)
     | StatusActive \<Rightarrow> (case gr_valid_until g of None \<Rightarrow> True | Some u \<Rightarrow> now < u)
     | StatusSuspended \<Rightarrow> (case gr_valid_until g of None \<Rightarrow> True | Some u \<Rightarrow> now < u)
     | _ \<Rightarrow> False)"

section \<open>Authentication assurance\<close>

record assurance_level =
  al_name :: string
  al_rank :: int
  al_issuable :: bool
  al_raw_acr_values :: "string list"

record assurance_requirement =
  ar_risk_class :: risk_class
  ar_minimum_acr :: string
  ar_max_authentication_age :: int
  ar_phishing_resistant_required :: bool

record assurance_policy =
  ap_levels :: "assurance_level list"
  ap_accepted_raw_acr_values :: "string list"
  ap_accepted_amr_values :: "string list"
  ap_requirements :: "assurance_requirement list"

record session =
  se_acr :: string
  se_amr :: "string list"
  se_authenticated_at :: instant
  se_step_up_at :: instant

definition policy_level :: "assurance_policy \<Rightarrow> string \<Rightarrow> assurance_level option" where
  "policy_level p name = find (\<lambda>l. al_name l = name) (ap_levels p)"

definition requirement_for :: "assurance_policy \<Rightarrow> risk_class \<Rightarrow> assurance_requirement option" where
  "requirement_for p risk = find (\<lambda>r. ar_risk_class r = risk) (ap_requirements p)"

text \<open>\<open>check\<close>: whether the policy is complete; the default loader refuses one that is not.\<close>

definition assurance_check :: "assurance_policy \<Rightarrow> bool" where
  "assurance_check p \<longleftrightarrow> ap_levels p \<noteq> [] \<and>
     \<not> (ap_accepted_raw_acr_values p = [] \<and> ap_accepted_amr_values p = []) \<and>
     list_all (\<lambda>risk. requirement_for p risk \<noteq> None) [RiskLow, RiskModerate, RiskHigh, RiskCritical] \<and>
     list_all (\<lambda>r. policy_level p (ar_minimum_acr r) \<noteq> None) (ap_requirements p)"

definition known_level :: "assurance_policy \<Rightarrow> string \<Rightarrow> bool" where
  "known_level p name \<longleftrightarrow> policy_level p name \<noteq> None"

definition session_rank :: "assurance_policy \<Rightarrow> session \<Rightarrow> int" where
  "session_rank p s =
    (if se_acr s = [] then -1
     else case find (\<lambda>l. al_issuable l \<and> se_acr s \<in> set (al_raw_acr_values l)) (ap_levels p) of
       None \<Rightarrow> -1 | Some l \<Rightarrow> al_rank l)"

definition phishing_resistant :: "assurance_policy \<Rightarrow> session \<Rightarrow> bool" where
  "phishing_resistant p s \<longleftrightarrow>
     (se_acr s \<noteq> [] \<and> se_acr s \<in> set (ap_accepted_raw_acr_values p)) \<or>
     list_ex (\<lambda>m. m \<in> set (ap_accepted_amr_values p)) (se_amr s)"

text \<open>The zero values \<open>AssuranceRequirement{}\<close> and \<open>AssuranceLevel{}\<close> a failed lookup returns.\<close>

definition zero_requirement :: assurance_requirement where
  "zero_requirement = \<lparr>ar_risk_class = RiskOther [], ar_minimum_acr = [], ar_max_authentication_age = 0,
     ar_phishing_resistant_required = False\<rparr>"

definition zero_level :: assurance_level where
  "zero_level = \<lparr>al_name = [], al_rank = 0, al_issuable = False, al_raw_acr_values = []\<rparr>"

definition required :: "assurance_policy \<Rightarrow> grant \<Rightarrow> assurance_requirement" where
  "required p g =
    (let req = (case requirement_for p (gr_risk_class g) of None \<Rightarrow> zero_requirement | Some r \<Rightarrow> r) in
     case gr_conditions g of
       None \<Rightarrow> req
     | Some cond \<Rightarrow>
         if minimum_acr cond = [] \<or> minimum_acr cond = ar_minimum_acr req then req
         else (case policy_level p (minimum_acr cond) of
             None \<Rightarrow> req\<lparr>ar_minimum_acr := minimum_acr cond\<rparr>
           | Some own \<Rightarrow>
               let base = (case policy_level p (ar_minimum_acr req) of None \<Rightarrow> zero_level | Some l \<Rightarrow> l)
               in if al_rank own > al_rank base then req\<lparr>ar_minimum_acr := al_name own\<rparr> else req))"

definition met :: "assurance_policy \<Rightarrow> assurance_requirement \<Rightarrow> session \<Rightarrow> instant \<Rightarrow> bool" where
  "met p req s now =
    (case policy_level p (ar_minimum_acr req) of
       None \<Rightarrow> False
     | Some level \<Rightarrow>
         if \<not> al_issuable level then False
         else if al_rank level > 0 \<and> session_rank p s < al_rank level then False
         else if ar_max_authentication_age req > 0 \<and>
                 (let at = (if se_step_up_at s \<noteq> 0 then se_step_up_at s else se_authenticated_at s);
                      age = time_sub now at
                  in at = 0 \<or> age < 0 \<or> age > duration_of (ar_max_authentication_age req) second_ns) then False
         else if ar_phishing_resistant_required req \<and> \<not> phishing_resistant p s then False
         else True)"

text \<open>The embedded \<open>assurance-policy.yaml\<close>.\<close>

definition default_assurance :: assurance_policy where
  "default_assurance =
    \<lparr>ap_levels =
       [\<lparr>al_name = ''urn:baobab:acr:basic'', al_rank = 0, al_issuable = True, al_raw_acr_values = [''0'', ''1'']\<rparr>,
        \<lparr>al_name = ''urn:baobab:acr:mfa'', al_rank = 1, al_issuable = True, al_raw_acr_values = [''2'', ''gold'']\<rparr>,
        \<lparr>al_name = ''urn:baobab:acr:step-up'', al_rank = 2, al_issuable = True, al_raw_acr_values = [''3'']\<rparr>],
     ap_accepted_raw_acr_values = [''3''],
     ap_accepted_amr_values = [''webauthn'', ''hwk''],
     ap_requirements =
       [\<lparr>ar_risk_class = RiskLow, ar_minimum_acr = ''urn:baobab:acr:basic'', ar_max_authentication_age = 0,
          ar_phishing_resistant_required = False\<rparr>,
        \<lparr>ar_risk_class = RiskModerate, ar_minimum_acr = ''urn:baobab:acr:basic'', ar_max_authentication_age = 0,
          ar_phishing_resistant_required = False\<rparr>,
        \<lparr>ar_risk_class = RiskHigh, ar_minimum_acr = ''urn:baobab:acr:mfa'', ar_max_authentication_age = 0,
          ar_phishing_resistant_required = False\<rparr>,
        \<lparr>ar_risk_class = RiskCritical, ar_minimum_acr = ''urn:baobab:acr:step-up'', ar_max_authentication_age = 300,
          ar_phishing_resistant_required = True\<rparr>]\<rparr>"

section \<open>What a valid grant guarantees\<close>

lemma grant_validate_None:
  "grant_validate c g = None \<longleftrightarrow>
     principal_id (gr_principal_id g) \<and> principal_id (gr_granted_by g) \<and> gr_granted_by g \<noteq> gr_principal_id g \<and>
     (\<exists>p. cat_permission c (gr_permission g) = Some p \<and> scope_validate (gr_scope g) = None \<and>
       sc_level (gr_scope g) \<in> set (pm_scope_levels p) \<and>
       risk_valid (gr_risk_class g) \<and> risk_at_least (gr_risk_class g) (pm_risk_class p) \<and>
       grant_window_error g = None \<and> grant_profile_error c g = None \<and> grant_delegation_error p g = None \<and>
       grant_source_error g = None \<and>
       ((gr_status g = StatusRevoked) =
          (gr_revoked_at g \<noteq> None \<and> gr_revoked_by g \<noteq> [] \<and> gr_revocation_reason g \<noteq> [])) \<and>
       gr_reason g \<noteq> [])"
  by (simp only: grant_validate_def error_simps de_Morgan_disj not_not simp_thms conj_assoc)

lemma grant_validate_permission:
  assumes "grant_validate c g = None"
  obtains p where "cat_permission c (gr_permission g) = Some p"
    and "sc_level (gr_scope g) \<in> set (pm_scope_levels p)"
    and "risk_valid (gr_risk_class g)" and "risk_at_least (gr_risk_class g) (pm_risk_class p)"
    and "grant_delegation_error p g = None"
  using assms unfolding grant_validate_None by blast

lemma grant_validate_facts:
  assumes "grant_validate c g = None"
  shows "gr_granted_by g \<noteq> gr_principal_id g" and "scope_validate (gr_scope g) = None"
    and "grant_window_error g = None" and "grant_profile_error c g = None" and "grant_source_error g = None"
  using assms unfolding grant_validate_None by blast+

lemma grant_validate_end:
  "grant_validate c g = None \<Longrightarrow> gr_valid_until g = None \<longleftrightarrow> gr_grant_type g = TypeStanding"
  by (drule grant_validate_facts(3))
    (auto simp: grant_window_error_def split: grant_type.splits option.splits if_splits)

lemma grant_validate_jit:
  "grant_validate c g = None \<Longrightarrow> gr_grant_type g = TypeJustInTime \<Longrightarrow> gr_valid_until g \<noteq> None"
  by (simp add: grant_validate_end)

lemma grant_validate_delegation:
  assumes "grant_validate c g = None"
  shows "gr_source g = SourceDelegation \<longleftrightarrow> 0 < gr_delegation_depth g"
    and "gr_delegation_depth g \<le> 3" and "0 \<le> gr_delegable_depth g" and "gr_delegable_depth g \<le> 2"
proof -
  from assms obtain p where "grant_delegation_error p g = None" by (rule grant_validate_permission)
  then show "gr_source g = SourceDelegation \<longleftrightarrow> 0 < gr_delegation_depth g"
    and "gr_delegation_depth g \<le> 3" and "0 \<le> gr_delegable_depth g" and "gr_delegable_depth g \<le> 2"
    by (simp_all add: grant_delegation_error_def split: if_splits)
qed

lemma live_iff:
  "live g now \<longleftrightarrow> gr_status g \<in> {StatusPending, StatusActive, StatusSuspended} \<and>
     (\<forall>u. gr_valid_until g = Some u \<longrightarrow> now < u)"
  by (cases "gr_status g") (auto simp: live_def split: option.splits)

lemma valid_at_iff:
  "valid_at g now \<longleftrightarrow> gr_valid_from g \<le> now \<and> (\<forall>u. gr_valid_until g = Some u \<longrightarrow> now < u)"
  by (auto simp: valid_at_def split: option.splits)

text \<open>
  Property (critical authority is never standing through a template or handed on). Under a
  catalogue that \<open>ParseCatalogue\<close> accepted, a valid grant of a CRITICAL permission is not a
  profile grant and allows no further delegation, and its own risk class is CRITICAL.
\<close>

theorem critical_grant_not_delegable:
  assumes "parse_catalogue pv ps qv prs = Inr c" and "grant_validate c g = None"
    and "cat_permission c (gr_permission g) = Some p" and "pm_risk_class p = RiskCritical"
  shows "gr_delegable_depth g = 0 \<and> gr_source g \<noteq> SourceProfile \<and> gr_risk_class g = RiskCritical"
proof -
  note ok = parse_catalogue_cases(1) [OF assms(1)]
  from assms(2,3) have err: "grant_delegation_error p g = None"
    and risk: "risk_at_least (gr_risk_class g) (pm_risk_class p)" by (auto simp: grant_validate_None)
  from catalogue_ok_permission [OF ok assms(3)] assms(4) have "\<not> pm_delegable p" by (simp add: permission_ok_def)
  with err have "gr_delegable_depth g = 0" by (auto simp: grant_delegation_error_def split: if_splits)
  moreover have "gr_source g \<noteq> SourceProfile"
  proof
    assume src: "gr_source g = SourceProfile"
    with grant_validate_facts(4) [OF assms(2)] obtain pr where pr: "cat_profile c (gr_profile_key g) = Some pr"
      and "gr_permission g \<in> set (pf_permissions pr)"
      by (auto simp: grant_profile_error_def split: if_splits option.splits)
    moreover from pr have "(gr_profile_key g, pr) \<in> set (cat_profiles c)" by (simp add: cat_profile_def map_of_SomeD)
    ultimately have "conferrable c pr (gr_permission g)" using ok by (auto simp: catalogue_ok_def list_all_iff)
    with assms(3,4) show False by (simp add: conferrable_def)
  qed
  moreover from risk assms(4) have "gr_risk_class g = RiskCritical"
    by (cases "gr_risk_class g") (simp_all add: risk_at_least_def)
  ultimately show ?thesis by simp
qed

section \<open>Assurance requirements\<close>

lemma policy_level_name: "policy_level p name = Some l \<Longrightarrow> al_name l = name"
  by (auto simp: policy_level_def find_Some_iff)

lemma requirement_for_level:
  "assurance_check p \<Longrightarrow> requirement_for p risk = Some r \<Longrightarrow> policy_level p (ar_minimum_acr r) \<noteq> None"
  by (auto simp: assurance_check_def requirement_for_def list_all_iff find_Some_iff)

lemma met_rank:
  "met p req s now \<Longrightarrow> \<exists>l. policy_level p (ar_minimum_acr req) = Some l \<and> al_issuable l \<and>
     (al_rank l > 0 \<longrightarrow> al_rank l \<le> session_rank p s)"
  by (auto simp: met_def split: option.splits if_splits)

lemma met_raise_level:
  assumes "met p (req\<lparr>ar_minimum_acr := al_name own\<rparr>) s now" and "policy_level p (al_name own) = Some own"
    and "policy_level p (ar_minimum_acr req) = Some base" and "al_issuable base" and "al_rank base < al_rank own"
  shows "met p req s now"
proof -
  from met_rank [OF assms(1)] assms(2) have "al_rank own > 0 \<longrightarrow> al_rank own \<le> session_rank p s" by auto
  with assms(5) have "\<not> (al_rank base > 0 \<and> session_rank p s < al_rank base)" by linarith
  with assms(1-4) show ?thesis by (auto simp: met_def split: if_splits)
qed

lemma required_unconditional:
  "gr_conditions g = None \<Longrightarrow> requirement_for p (gr_risk_class g) = Some r \<Longrightarrow> required p g = r"
  by (simp add: required_def)

text \<open>
  Under a policy that passes its check and whose level for
  the grant's risk class is issued, a session that meets what a grant requires meets the
  requirement of its risk class, and, where the grant names a minimum level of its own, that
  level is on the ladder and the session ranks at least as high.
\<close>

theorem required_is_strictest:
  assumes ok: "assurance_check p" and req: "requirement_for p (gr_risk_class g) = Some r"
    and base: "policy_level p (ar_minimum_acr r) = Some base" and issued: "al_issuable base"
    and met: "met p (required p g) s now"
  shows "met p r s now \<and>
    (\<forall>cond. gr_conditions g = Some cond \<and> minimum_acr cond \<noteq> [] \<longrightarrow>
      (\<exists>own. policy_level p (minimum_acr cond) = Some own \<and> (al_rank own > 0 \<longrightarrow> al_rank own \<le> session_rank p s)))"
proof (cases "\<exists>cond. gr_conditions g = Some cond \<and> minimum_acr cond \<noteq> [] \<and> minimum_acr cond \<noteq> ar_minimum_acr r")
  case False
  then have "required p g = r"
    using req by (auto simp: required_def Let_def split: option.splits)
  with met met_rank [OF met] False show ?thesis by auto
next
  case True
  then obtain cond where cond: "gr_conditions g = Some cond" "minimum_acr cond \<noteq> []"
    "minimum_acr cond \<noteq> ar_minimum_acr r" by blast
  show ?thesis
  proof (cases "policy_level p (minimum_acr cond)")
    case None
    with cond req have "required p g = r\<lparr>ar_minimum_acr := minimum_acr cond\<rparr>" by (simp add: required_def)
    with met None show ?thesis by (simp add: met_def)
  next
    case (Some own)
    note own = Some and name = policy_level_name [OF Some]
    show ?thesis
    proof (cases "al_rank own > al_rank base")
      case True
      with cond req own base have eq: "required p g = r\<lparr>ar_minimum_acr := al_name own\<rparr>" by (simp add: required_def)
      with met met_raise_level [where p = p and req = r and own = own and base = base] own base issued True name have "met p r s now" by simp
      moreover from met_rank [OF met] eq own name have "al_rank own > 0 \<longrightarrow> al_rank own \<le> session_rank p s" by auto
      ultimately show ?thesis using cond own by auto
    next
      case False
      with cond req own base have "required p g = r" by (simp add: required_def)
      with met met_rank [OF met] base False cond own show ?thesis by auto
    qed
  qed
qed

lemmas assurance_eval = required_def met_def session_rank_def phishing_resistant_def policy_level_def
  requirement_for_def default_assurance_def zero_requirement_def zero_level_def

lemma default_assurance_checks: "assurance_check default_assurance"
  by (simp add: assurance_check_def requirement_for_def policy_level_def default_assurance_def)

lemma default_critical_requirement:
  "requirement_for default_assurance RiskCritical = Some \<lparr>ar_risk_class = RiskCritical,
     ar_minimum_acr = ''urn:baobab:acr:step-up'', ar_max_authentication_age = 300, ar_phishing_resistant_required = True\<rparr>"
  by (simp add: requirement_for_def default_assurance_def)

lemma default_step_up_level:
  "policy_level default_assurance ''urn:baobab:acr:step-up'' =
     Some \<lparr>al_name = ''urn:baobab:acr:step-up'', al_rank = 2, al_issuable = True, al_raw_acr_values = [''3'']\<rparr>"
  by (simp add: policy_level_def default_assurance_def)

lemma default_rank_two: "2 \<le> session_rank default_assurance s \<Longrightarrow> se_acr s = ''3''"
  by (auto simp: session_rank_def default_assurance_def split: if_splits)

lemma duration_300: "duration_of 300 second_ns = 300000000000"
  by (simp add: duration_of_def second_ns_def wrap64_id min_duration_def max_duration_def)

text \<open>
  Property (critical authority needs a fresh phishing-resistant step-up). Under the embedded policy a
  session that meets the requirement of a CRITICAL grant carries acr 3, and its latest
  authentication (the step-up if there was one) is a real instant, not in the future and at
  most 300 seconds old, whatever conditions the grant itself names.
\<close>

theorem critical_needs_fresh_step_up:
  assumes "gr_risk_class g = RiskCritical" and "met default_assurance (required default_assurance g) s now"
  shows "se_acr s = ''3'' \<and>
    (let at = (if se_step_up_at s \<noteq> 0 then se_step_up_at s else se_authenticated_at s)
     in at \<noteq> 0 \<and> at \<le> now \<and> now - at \<le> 300 * second_ns)"
proof -
  let ?r = "\<lparr>ar_risk_class = RiskCritical, ar_minimum_acr = ''urn:baobab:acr:step-up'',
    ar_max_authentication_age = 300, ar_phishing_resistant_required = True\<rparr>"
  let ?at = "if se_step_up_at s \<noteq> 0 then se_step_up_at s else se_authenticated_at s"
  have "met default_assurance ?r s now"
    using required_is_strictest [OF default_assurance_checks, of g ?r, OF _ _ _ assms(2)]
      default_critical_requirement default_step_up_level assms(1) by simp
  then have rank: "2 \<le> session_rank default_assurance s" and "?at \<noteq> 0"
    and age: "0 \<le> time_sub now ?at" "time_sub now ?at \<le> 300000000000"
    by (auto simp: met_def default_step_up_level duration_300 Let_def split: if_splits)
  moreover from age(2) have "now - ?at \<le> 300000000000" by (rule time_sub_le [rotated]) (simp add: max_duration_def)
  moreover from age(1) have "?at \<le> now"
    by (simp add: time_sub_def min_duration_def max_duration_def max_def min_def split: if_splits)
  ultimately show ?thesis using default_rank_two by (simp add: Let_def second_ns_def)
qed

section \<open>Grants and sessions for the witnesses\<close>

definition ex_critical_permission :: permission where
  "ex_critical_permission = \<lparr>pm_key = ''platform.erase'', pm_domain = ''PLATFORM'', pm_risk_class = RiskCritical,
     pm_scope_levels = [LevelPlatform], pm_delegable = False, pm_read_only = False\<rparr>"

definition ex_critical_catalogue :: catalogue where
  "ex_critical_catalogue = \<lparr>cat_permissions = [(''platform.erase'', ex_critical_permission)], cat_profiles = []\<rparr>"

text \<open>A standing direct grant of \<open>tenant.read\<close> over one tenant, delegable twice.\<close>

definition ex_grant :: grant where
  "ex_grant = \<lparr>gr_grant_id = ''grant-1'', gr_principal_id = ''usr-alice'', gr_permission = ''tenant.read'',
     gr_scope = ex_tenant_scope, gr_conditions = None, gr_grant_type = TypeStanding, gr_source = SourceDirect,
     gr_profile_key = [], gr_delegated_from_grant_id = [], gr_delegation_depth = 0, gr_delegable_depth = 2,
     gr_risk_class = RiskLow, gr_valid_from = 100, gr_valid_until = None, gr_status = StatusActive,
     gr_granted_by = ''usr-root'', gr_approval_reference = [], gr_reason = ''duty'', gr_created_at = 100,
     gr_updated_at = None, gr_revoked_at = None, gr_revoked_by = [], gr_revocation_reason = [],
     gr_supersedes_grant_id = [], gr_superseded_by_grant_id = [], gr_version = 1\<rparr>"

definition ex_critical_grant :: grant where
  "ex_critical_grant = ex_grant\<lparr>gr_grant_id := ''grant-9'', gr_permission := ''platform.erase'',
     gr_scope := scope_at LevelPlatform, gr_conditions := Some \<lparr>minimum_acr = ''urn:baobab:acr:mfa''\<rparr>,
     gr_grant_type := TypeTimeBound, gr_delegable_depth := 0, gr_risk_class := RiskCritical,
     gr_valid_until := Some (hour_ns)\<rparr>"

definition ex_step_up_session :: session where
  "ex_step_up_session = \<lparr>se_acr = ''3'', se_amr = [''pwd'', ''webauthn''],
     se_authenticated_at = 100, se_step_up_at = 1000\<rparr>"

lemmas ex_grant_defs = ex_grant_def ex_critical_grant_def ex_critical_permission_def ex_critical_catalogue_def

lemmas grant_eval = grant_validate_def grant_window_error_def grant_profile_error_def grant_delegation_error_def
  grant_source_error_def principal_id_def is_alnum_def risk_at_least_def hour_ns_def second_ns_def

lemma ex_critical_catalogue_parses:
  "parse_catalogue 1 [ex_critical_permission] 1 [] = Inr ex_critical_catalogue"
  by (simp add: ex_grant_defs catalogue_eval)

lemma ex_critical_grant_valid: "grant_validate ex_critical_catalogue ex_critical_grant = None"
  by (simp add: ex_grant_defs grant_eval catalogue_eval scope_eval scope_at_def)

lemma ex_grant_valid: "grant_validate ex_catalogue ex_grant = None"
  by (simp add: ex_grant_defs ex_catalogue_defs ex_tenant_scope_def grant_eval catalogue_eval scope_eval scope_at_def)

lemma ex_step_up_meets:
  "met default_assurance (required default_assurance ex_critical_grant) ex_step_up_session 2000"
  by (simp add: ex_grant_defs ex_step_up_session_def assurance_eval time_sub_def min_duration_def max_duration_def
    duration_of_def second_ns_def wrap64_id)

theorem critical_grant_not_delegable_witness:
  "gr_delegable_depth ex_critical_grant = 0 \<and> gr_source ex_critical_grant \<noteq> SourceProfile"
  using critical_grant_not_delegable [OF ex_critical_catalogue_parses ex_critical_grant_valid, of ex_critical_permission]
  by (simp add: cat_permission_def ex_grant_defs)

theorem required_is_strictest_witness:
  "assurance_check default_assurance \<and>
   met default_assurance (required default_assurance ex_critical_grant) ex_step_up_session 2000 \<and>
   (\<exists>r. requirement_for default_assurance RiskCritical = Some r \<and> met default_assurance r ex_step_up_session 2000)"
proof -
  have risk: "gr_risk_class ex_critical_grant = RiskCritical" by (simp add: ex_grant_defs)
  from required_is_strictest [OF default_assurance_checks, of ex_critical_grant, unfolded risk,
      OF default_critical_requirement, unfolded assurance_requirement.simps,
      OF default_step_up_level, unfolded assurance_level.simps, OF TrueI ex_step_up_meets]
  show ?thesis using default_assurance_checks ex_step_up_meets default_critical_requirement by blast
qed

theorem critical_needs_fresh_step_up_witness:
  "se_acr ex_step_up_session = ''3'' \<and>
   met default_assurance (required default_assurance ex_critical_grant) ex_step_up_session 2000"
proof -
  have risk: "gr_risk_class ex_critical_grant = RiskCritical" by (simp add: ex_grant_defs)
  from critical_needs_fresh_step_up [OF risk ex_step_up_meets] ex_step_up_meets show ?thesis by blast
qed

end
