(* ===== verification/Admin_Evaluate.thy ===== *)
theory Admin_Evaluate
  imports Admin_Grant "HOL-Library.Product_Lexorder"
begin

text \<open>
  The administrative decision (\<open>internal/administration/evaluate.go\<close>): \<open>Evaluate\<close> decides one
  action against the principal's grants, \<open>ineligibility\<close> says why a grant cannot be used and
  follows a delegation to its root, and \<open>Effective\<close> lists what the principal may use.

  The lemmas characterise an ALLOW by a single grant, the reason of a DENY by its severity, a
  usable delegation by the chain of grants it rests on (the relation \<open>rests_on\<close>), and the
  effective authority by the decisions it predicts.
\<close>

section \<open>Decisions\<close>

datatype outcome =
    OutcomeAllow | OutcomeDeny | OutcomeStepUpRequired | OutcomeApprovalRequired | OutcomeNotReady

text \<open>The reason codes; \<open>NoReason\<close> is the empty string.\<close>

datatype reason =
    NoReason | PrincipalInactive | NoAdministrativeGrant | ScopeMismatch
  | GrantRevoked | GrantSuspended | GrantExpired | GrantPending | DelegationInvalid
  | AssuranceInsufficient

datatype obligation = StepUpAuthentication

record request =
  rq_principal_id :: string
  rq_principal_active :: bool
  rq_action :: string
  rq_resource :: resource
  rq_now :: instant
  rq_session :: session
  rq_grants :: "grant list"
  rq_sources :: "string \<Rightarrow> grant option"
  rq_relations :: relations

record decision =
  de_outcome :: outcome
  de_matched_grants :: "string list"
  de_obligations :: "obligation list"
  de_reason_codes :: "reason list"

definition allowed :: "decision \<Rightarrow> bool" where
  "allowed d \<longleftrightarrow> de_outcome d = OutcomeAllow"

definition deny :: "reason \<Rightarrow> decision" where
  "deny code = \<lparr>de_outcome = OutcomeDeny, de_matched_grants = [], de_obligations = [], de_reason_codes = [code]\<rparr>"

section \<open>Why a grant cannot be used\<close>

text \<open>The \<open>switch\<close> on the grant's own state, in its order.\<close>

definition own_ineligibility :: "grant \<Rightarrow> instant \<Rightarrow> reason" where
  "own_ineligibility g now =
    (if gr_status g = StatusRevoked then GrantRevoked
     else if gr_status g = StatusSuspended then GrantSuspended
     else if gr_status g = StatusExpired \<or> (case gr_valid_until g of None \<Rightarrow> False | Some u \<Rightarrow> \<not> now < u)
       then GrantExpired
     else if gr_status g = StatusPending \<or> now < gr_valid_from g then GrantPending
     else if gr_status g \<noteq> StatusActive then GrantPending
     else NoReason)"

text \<open>The link from a delegation to the source it names: the negation of the long condition.\<close>

definition delegation_link :: "grant \<Rightarrow> grant \<Rightarrow> relations \<Rightarrow> bool" where
  "delegation_link source g rel \<longleftrightarrow>
     gr_granted_by g = gr_principal_id source \<and> gr_permission source = gr_permission g \<and>
     contains (gr_scope source) (gr_scope g) rel \<and>
     gr_delegation_depth g = gr_delegation_depth source + 1 \<and>
     \<not> gr_delegable_depth source < 1 \<and> \<not> gr_delegable_depth g > gr_delegable_depth source - 1 \<and>
     (case gr_valid_until source of None \<Rightarrow> True
      | Some su \<Rightarrow> (case gr_valid_until g of None \<Rightarrow> False | Some gu \<Rightarrow> \<not> gu > su))"

function ineligibility ::
  "grant \<Rightarrow> instant \<Rightarrow> (string \<Rightarrow> grant option) \<Rightarrow> relations \<Rightarrow> int \<Rightarrow> reason" where
  "ineligibility g now sources rel hops =
    (if own_ineligibility g now \<noteq> NoReason then own_ineligibility g now
     else if gr_source g \<noteq> SourceDelegation then NoReason
     else case sources (gr_delegated_from_grant_id g) of
       None \<Rightarrow> DelegationInvalid
     | Some source \<Rightarrow>
         if hops \<ge> 3 \<or> \<not> delegation_link source g rel then DelegationInvalid
         else if ineligibility source now sources rel (hops + 1) \<noteq> NoReason then DelegationInvalid
         else NoReason)"
  by pat_completeness auto
termination
  by (relation "measure (\<lambda>(g, now, sources, rel, hops). nat (3 - hops))") auto

declare ineligibility.simps [simp del]

fun severity :: "reason \<Rightarrow> nat" where
  "severity GrantRevoked = 5"
| "severity DelegationInvalid = 4"
| "severity GrantSuspended = 3"
| "severity GrantExpired = 2"
| "severity _ = 1"

section \<open>Evaluate\<close>

definition named_grants :: "request \<Rightarrow> grant list" where
  "named_grants q =
    filter (\<lambda>g. \<not> (gr_principal_id g \<noteq> rq_principal_id q \<or> gr_permission g \<noteq> rq_action q)) (rq_grants q)"

definition covering_grants :: "request \<Rightarrow> grant list" where
  "covering_grants q = filter (\<lambda>g. covers (gr_scope g) (rq_resource q)) (named_grants q)"

text \<open>The loop over the covering grants: the eligible ones, and the reason to deny.\<close>

fun judge_covering :: "(grant \<Rightarrow> reason) \<Rightarrow> grant list \<Rightarrow> grant list \<times> reason \<Rightarrow> grant list \<times> reason" where
  "judge_covering why [] acc = acc"
| "judge_covering why (g # gs) (eligible, reason) =
     (if why g \<noteq> NoReason
      then judge_covering why gs
             (eligible, if reason = NoReason \<or> severity (why g) > severity reason then why g else reason)
      else judge_covering why gs (eligible @ [g], reason))"

definition why_not :: "request \<Rightarrow> grant \<Rightarrow> reason" where
  "why_not q g = ineligibility g (rq_now q) (rq_sources q) (rq_relations q) 0"

definition grant_met :: "request \<Rightarrow> grant \<Rightarrow> bool" where
  "grant_met q g = met default_assurance (required default_assurance g) (rq_session q) (rq_now q)"

definition evaluate :: "request \<Rightarrow> decision" where
  "evaluate q =
    (if \<not> rq_principal_active q then deny PrincipalInactive
     else if named_grants q = [] then deny NoAdministrativeGrant
     else if covering_grants q = [] then deny ScopeMismatch
     else let (eligible, reason) = judge_covering (why_not q) (covering_grants q) ([], NoReason) in
       if eligible = [] then deny reason
       else let matched = map gr_grant_id (filter (grant_met q) eligible) in
         if matched = [] then
           \<lparr>de_outcome = OutcomeStepUpRequired, de_matched_grants = [], de_obligations = [StepUpAuthentication],
            de_reason_codes = [AssuranceInsufficient]\<rparr>
         else
           \<lparr>de_outcome = OutcomeAllow, de_matched_grants = sort matched, de_obligations = [], de_reason_codes = []\<rparr>)"

section \<open>Effective authority\<close>

record effective_grant =
  eg_grant_id :: string
  eg_permission :: string
  eg_scope :: scope
  eg_grant_type :: grant_type
  eg_source :: grant_source
  eg_profile_key :: string
  eg_risk_class :: risk_class
  eg_valid_until :: "instant option"
  eg_elevated :: bool

record effective_authority =
  ea_principal_id :: string
  ea_evaluated_at :: instant
  ea_grants :: "effective_grant list"
  ea_elevated_until :: "instant option"

definition effective_grant_of :: "grant \<Rightarrow> effective_grant" where
  "effective_grant_of g =
    \<lparr>eg_grant_id = gr_grant_id g, eg_permission = gr_permission g, eg_scope = gr_scope g,
     eg_grant_type = gr_grant_type g, eg_source = gr_source g, eg_profile_key = gr_profile_key g,
     eg_risk_class = gr_risk_class g, eg_valid_until = gr_valid_until g,
     eg_elevated = (gr_grant_type g = TypeJustInTime)\<rparr>"

text \<open>
  One pass of the loop. A JUST_IN_TIME grant without an end makes the code dereference a nil
  pointer: the run ends in a panic, which is \<open>None\<close>.
\<close>

definition effective_step ::
  "string \<Rightarrow> (grant \<Rightarrow> reason) \<Rightarrow> grant \<Rightarrow> effective_authority \<Rightarrow> effective_authority option" where
  "effective_step who why g out =
    (if gr_principal_id g \<noteq> who \<or> why g \<noteq> NoReason then Some out
     else let e = effective_grant_of g in
       if eg_elevated e then
         (case gr_valid_until g of
            None \<Rightarrow> None
          | Some u \<Rightarrow>
              Some (out\<lparr>ea_elevated_until :=
                          (case ea_elevated_until out of None \<Rightarrow> Some u
                           | Some until \<Rightarrow> if u < until then Some u else Some until),
                        ea_grants := ea_grants out @ [e]\<rparr>))
       else Some (out\<lparr>ea_grants := ea_grants out @ [e]\<rparr>))"

fun effective_loop ::
  "string \<Rightarrow> (grant \<Rightarrow> reason) \<Rightarrow> grant list \<Rightarrow> effective_authority \<Rightarrow> effective_authority option" where
  "effective_loop who why [] out = Some out"
| "effective_loop who why (g # gs) out =
     (case effective_step who why g out of None \<Rightarrow> None | Some out' \<Rightarrow> effective_loop who why gs out')"

text \<open>
  \<open>sort.Slice\<close> by permission, then grant id. The sort need not be stable, so two entries
  that agree on both could come in either order; the model keeps their order.
\<close>

definition effective ::
  "string \<Rightarrow> grant list \<Rightarrow> (string \<Rightarrow> grant option) \<Rightarrow> instant \<Rightarrow> relations \<Rightarrow> effective_authority option" where
  "effective who grants sources now rel =
    (case effective_loop who (\<lambda>g. ineligibility g now sources rel 0) grants
            \<lparr>ea_principal_id = who, ea_evaluated_at = now, ea_grants = [], ea_elevated_until = None\<rparr> of
       None \<Rightarrow> None
     | Some out \<Rightarrow> Some (out\<lparr>ea_grants := sort_key (\<lambda>e. (eg_permission e, eg_grant_id e)) (ea_grants out)\<rparr>))"

section \<open>A single grant decides\<close>

lemma judge_covering_fst:
  "fst (judge_covering why gs (el, r)) = el @ filter (\<lambda>g. why g = NoReason) gs"
  by (induction gs arbitrary: el r) simp_all

lemma judge_covering_snd:
  assumes "\<forall>g \<in> set gs. why g \<noteq> NoReason"
  shows "(gs \<noteq> [] \<or> r \<noteq> NoReason \<longrightarrow> snd (judge_covering why gs (el, r)) \<in> insert r (why ` set gs) - {NoReason}) \<and>
    (\<forall>g \<in> set gs. severity (why g) \<le> severity (snd (judge_covering why gs (el, r)))) \<and>
    (r \<noteq> NoReason \<longrightarrow> severity r \<le> severity (snd (judge_covering why gs (el, r))))"
  using assms
proof (induction gs arbitrary: r)
  case Nil
  then show ?case by simp
next
  case (Cons g gs)
  let ?r = "if r = NoReason \<or> severity (why g) > severity r then why g else r"
  from Cons.prems have "why g \<noteq> NoReason" and "\<forall>g \<in> set gs. why g \<noteq> NoReason" by simp_all
  then show ?case using Cons.IH [of ?r] by (auto split: if_splits)
qed

lemma covering_grants_iff:
  "g \<in> set (covering_grants q) \<longleftrightarrow> g \<in> set (rq_grants q) \<and> gr_principal_id g = rq_principal_id q \<and>
     gr_permission g = rq_action q \<and> covers (gr_scope g) (rq_resource q)"
  by (auto simp: covering_grants_def named_grants_def)

definition suffices :: "request \<Rightarrow> grant \<Rightarrow> bool" where
  "suffices q g \<longleftrightarrow> gr_principal_id g = rq_principal_id q \<and> gr_permission g = rq_action q \<and>
     covers (gr_scope g) (rq_resource q) \<and> why_not q g = NoReason \<and> grant_met q g"

lemma matched_grants_eq:
  "filter (grant_met q) (fst (judge_covering (why_not q) (covering_grants q) ([], NoReason))) =
     filter (suffices q) (rq_grants q)"
  by (auto simp: judge_covering_fst covering_grants_def named_grants_def suffices_def intro!: filter_cong)

lemma evaluate_matched:
  "allowed (evaluate q) \<longleftrightarrow> rq_principal_active q \<and> filter (suffices q) (rq_grants q) \<noteq> []"
  "allowed (evaluate q) \<Longrightarrow> de_matched_grants (evaluate q) = sort (map gr_grant_id (filter (suffices q) (rq_grants q)))"
proof -
  let ?m = "filter (suffices q) (rq_grants q)"
  let ?j = "judge_covering (why_not q) (covering_grants q) ([], NoReason)"
  have none: "?m = []" if "named_grants q = [] \<or> covering_grants q = [] \<or> fst ?j = []"
  proof -
    from that have "fst ?j = []" by (auto simp: judge_covering_fst covering_grants_def filter_empty_conv)
    then show ?thesis by (simp flip: matched_grants_eq)
  qed
  show "allowed (evaluate q) \<longleftrightarrow> rq_principal_active q \<and> ?m \<noteq> []"
    using none matched_grants_eq [of q]
    by (auto simp: evaluate_def allowed_def deny_def Let_def split: prod.splits)
  show "allowed (evaluate q) \<Longrightarrow> de_matched_grants (evaluate q) = sort (map gr_grant_id ?m)"
    using matched_grants_eq [of q]
    by (auto simp: evaluate_def allowed_def deny_def Let_def split: prod.splits if_splits)
qed

text \<open>
  C1 (deny by default; one grant suffices or nothing does). \<open>Evaluate\<close> answers ALLOW
  exactly when the principal is active and one single grant of theirs names the action,
  covers the resource, is usable now with its delegation, and has its assurance requirement
  met by the session; the matched grants are exactly those, in order.
\<close>

theorem evaluate_allow_iff:
  "(allowed (evaluate q) \<longleftrightarrow> rq_principal_active q \<and> (\<exists>g. g \<in> set (rq_grants q) \<and>
      gr_principal_id g = rq_principal_id q \<and> gr_permission g = rq_action q \<and> covers (gr_scope g) (rq_resource q) \<and>
      ineligibility g (rq_now q) (rq_sources q) (rq_relations q) 0 = NoReason \<and>
      met default_assurance (required default_assurance g) (rq_session q) (rq_now q))) \<and>
   sorted (de_matched_grants (evaluate q)) \<and>
   set (de_matched_grants (evaluate q)) = (if allowed (evaluate q) then
      {gr_grant_id g | g. g \<in> set (rq_grants q) \<and> suffices q g} else {})"
proof (intro conjI)
  show "allowed (evaluate q) \<longleftrightarrow> rq_principal_active q \<and> (\<exists>g. g \<in> set (rq_grants q) \<and>
      gr_principal_id g = rq_principal_id q \<and> gr_permission g = rq_action q \<and> covers (gr_scope g) (rq_resource q) \<and>
      ineligibility g (rq_now q) (rq_sources q) (rq_relations q) 0 = NoReason \<and>
      met default_assurance (required default_assurance g) (rq_session q) (rq_now q))"
    by (auto simp: evaluate_matched filter_empty_conv suffices_def why_not_def grant_met_def)
  have other: "de_matched_grants (evaluate q) = []" if "\<not> allowed (evaluate q)"
    using that by (auto simp: evaluate_def allowed_def deny_def Let_def split: prod.splits if_splits)
  then show "sorted (de_matched_grants (evaluate q))"
    by (cases "allowed (evaluate q)") (simp_all add: evaluate_matched(2))
  show "set (de_matched_grants (evaluate q)) = (if allowed (evaluate q) then
      {gr_grant_id g | g. g \<in> set (rq_grants q) \<and> suffices q g} else {})"
    using other by (cases "allowed (evaluate q)") (auto simp: evaluate_matched(2))
qed

text \<open>
  Property (several grants never combine). The decision over all grants is ALLOW exactly when the
  decision over some single one of them is.
\<close>

theorem grants_never_combine:
  "allowed (evaluate q) = list_ex (\<lambda>g. allowed (evaluate (q\<lparr>rq_grants := [g]\<rparr>))) (rq_grants q)"
proof -
  have "suffices (q\<lparr>rq_grants := [g]\<rparr>) h = suffices q h" for g h
    by (simp add: suffices_def why_not_def grant_met_def)
  then show ?thesis by (auto simp: evaluate_matched list_ex_iff filter_empty_conv split: if_splits)
qed

text \<open>
  Property (a denial names its most significant cause). When grants of the principal name the
  action and cover the resource but none is usable, the decision is DENY with one reason,
  the reason of one of those grants, and no other of them has a more severe one.
\<close>

theorem denial_names_gravest_reason:
  assumes "rq_principal_active q" and "covering_grants q \<noteq> []"
    and "\<forall>g \<in> set (covering_grants q). why_not q g \<noteq> NoReason"
  shows "\<exists>g \<in> set (covering_grants q). evaluate q = deny (why_not q g) \<and>
    (\<forall>h \<in> set (covering_grants q). severity (why_not q h) \<le> severity (why_not q g))"
proof -
  let ?j = "judge_covering (why_not q) (covering_grants q) ([], NoReason)"
  from assms(2) have "named_grants q \<noteq> []" by (auto simp: covering_grants_def)
  moreover from assms(3) have "fst ?j = []" by (simp add: judge_covering_fst filter_empty_conv)
  ultimately have "evaluate q = deny (snd ?j)"
    using assms(1,2) by (cases ?j) (simp add: evaluate_def)
  moreover from judge_covering_snd [OF assms(3), of NoReason "[]"] assms(2)
  have "snd ?j \<in> why_not q ` set (covering_grants q)"
    and "\<forall>h \<in> set (covering_grants q). severity (why_not q h) \<le> severity (snd ?j)" by auto
  ultimately show ?thesis by auto
qed

section \<open>A delegation is as good as the chain it rests on\<close>

text \<open>
  The specification of a usable grant: it is itself usable, and it is either authority of its
  own or linked to a source that rests on the same root. The number counts the links.
\<close>

inductive rests_on ::
  "(string \<Rightarrow> grant option) \<Rightarrow> relations \<Rightarrow> instant \<Rightarrow> grant \<Rightarrow> grant \<Rightarrow> nat \<Rightarrow> bool"
  for sources :: "string \<Rightarrow> grant option" and rel :: relations and now :: instant where
  root: "own_ineligibility g now = NoReason \<Longrightarrow> gr_source g \<noteq> SourceDelegation \<Longrightarrow> rests_on sources rel now g g 0"
| link: "own_ineligibility g now = NoReason \<Longrightarrow> gr_source g = SourceDelegation \<Longrightarrow>
    sources (gr_delegated_from_grant_id g) = Some s \<Longrightarrow> delegation_link s g rel \<Longrightarrow>
    rests_on sources rel now s r n \<Longrightarrow> rests_on sources rel now g r (Suc n)"

inductive_cases rests_on_cases: "rests_on sources rel now g r n"

lemma own_ineligibility_iff:
  "own_ineligibility g now = NoReason \<longleftrightarrow> gr_status g = StatusActive \<and> valid_at g now"
  by (auto simp: own_ineligibility_def valid_at_def split: option.splits)

lemma ineligibility_chain:
  "ineligibility g now sources rel hops = NoReason \<Longrightarrow> 0 \<le> hops \<Longrightarrow> hops \<le> 3 \<Longrightarrow>
     \<exists>r n. rests_on sources rel now g r n \<and> int n \<le> 3 - hops"
proof (induction g now sources rel hops rule: ineligibility.induct)
  case (1 g now sources rel hops)
  note el = "1.prems"(1) [unfolded ineligibility.simps [of g]]
  show ?case
  proof (cases "gr_source g = SourceDelegation")
    case False
    with el have "rests_on sources rel now g g 0" by (intro rests_on.root) (auto split: if_splits)
    with "1.prems"(3) show ?thesis by force
  next
    case True
    with el have own: "own_ineligibility g now = NoReason" by (auto split: if_splits)
    from el own True obtain s where s: "sources (gr_delegated_from_grant_id g) = Some s"
      and hops: "hops < 3" and link: "delegation_link s g rel"
      and up: "ineligibility s now sources rel (hops + 1) = NoReason"
      by (auto split: option.splits if_splits)
    from "1.IH" [of s] own True s hops link up "1.prems"(2)
    obtain r n where "rests_on sources rel now s r n" "int n \<le> 3 - (hops + 1)" by force
    with own True s link show ?thesis by (intro exI [of _ r] exI [of _ "Suc n"]) (auto intro: rests_on.link)
  qed
qed

lemma chain_ineligibility:
  "rests_on sources rel now g r n \<Longrightarrow> int n \<le> 3 - hops \<Longrightarrow> ineligibility g now sources rel hops = NoReason"
proof (induction arbitrary: hops rule: rests_on.induct)
  case (root g)
  then show ?case by (simp add: ineligibility.simps)
next
  case (link g s r n)
  then have "ineligibility s now sources rel (hops + 1) = NoReason" by simp
  with link show ?case by (subst ineligibility.simps) simp
qed

text \<open>
  C2 (a usable grant rests on real authority). \<open>ineligibility\<close> finds nothing against a grant
  exactly when a chain of at most three delegation links leads from it to a grant that is not
  a delegation, every grant of the chain being ACTIVE and inside its window; the recursion
  always ends and an unresolvable or longer chain is never accepted.
\<close>

theorem ineligibility_iff_rests_on:
  "ineligibility g now sources rel 0 = NoReason \<longleftrightarrow> (\<exists>r n. rests_on sources rel now g r n \<and> n \<le> 3)"
  using ineligibility_chain [of g now sources rel 0] chain_ineligibility [of sources rel now g _ _ 0] by force

lemma delegation_link_end:
  "delegation_link s g rel \<Longrightarrow> gr_valid_until s = Some u \<Longrightarrow> \<exists>v \<le> u. gr_valid_until g = Some v"
  by (auto simp: delegation_link_def split: option.splits)

lemma rests_on_facts:
  "rests_on sources rel now g r n \<Longrightarrow>
     gr_source r \<noteq> SourceDelegation \<and> gr_status r = StatusActive \<and> valid_at r now \<and>
     gr_permission r = gr_permission g \<and> gr_delegation_depth g = gr_delegation_depth r + int n \<and>
     gr_delegable_depth g + int n \<le> gr_delegable_depth r \<and>
     (\<forall>u. gr_valid_until r = Some u \<longrightarrow> (\<exists>v \<le> u. gr_valid_until g = Some v))"
proof (induction rule: rests_on.induct)
  case (root g)
  then show ?case by (auto simp: own_ineligibility_iff)
next
  case (link g s r n)
  then have "\<exists>v \<le> u. gr_valid_until g = Some v" if "gr_valid_until r = Some u" for u
    using that delegation_link_end [OF link(4)] by (meson order.trans)
  with link show ?case by (simp add: delegation_link_def)
qed

lemma rests_on_reaches:
  "rests_on sources rel now g r n \<Longrightarrow>
     (\<forall>i s. sources i = Some s \<longrightarrow> sc_mode (gr_scope s) \<noteq> ModeStaticMembership) \<Longrightarrow>
     covers (gr_scope g) (resolve_resource rel res) \<Longrightarrow> covers (gr_scope r) (resolve_resource rel res)"
proof (induction rule: rests_on.induct)
  case (root g)
  then show ?case by simp
next
  case (link g s r n)
  from link have "covers (gr_scope s) (resolve_resource rel res)"
    by (intro admin_containment.within_reaches [of "gr_scope s" "gr_scope g"]) (auto simp: delegation_link_def leaky_containment_def)
  with link show ?case by blast
qed

text \<open>
  C3 (delegation never widens). Whatever a delegation rests on is a grant held outside
  delegation that is ACTIVE and valid now, carries the same permission, allows at least as
  many further hops and does not end earlier; and every resource resolved against the same
  relations that the delegation covers is covered by that root too, provided no source grant
  is scoped to a corporate group in STATIC_MEMBERSHIP mode.
\<close>

theorem delegation_never_widens:
  assumes "ineligibility g now sources rel 0 = NoReason"
    and "\<forall>i s. sources i = Some s \<longrightarrow> sc_mode (gr_scope s) \<noteq> ModeStaticMembership"
    and "covers (gr_scope g) (resolve_resource rel res)"
  shows "\<exists>r n. rests_on sources rel now g r n \<and> gr_source r \<noteq> SourceDelegation \<and> gr_status r = StatusActive \<and>
    valid_at r now \<and> gr_permission r = gr_permission g \<and> gr_delegable_depth g + int n \<le> gr_delegable_depth r \<and>
    (\<forall>u. gr_valid_until r = Some u \<longrightarrow> (\<exists>v \<le> u. gr_valid_until g = Some v)) \<and>
    covers (gr_scope r) (resolve_resource rel res)"
proof -
  from assms(1) ineligibility_chain obtain r n where chain: "rests_on sources rel now g r n" by fastforce
  from rests_on_facts [OF chain] rests_on_reaches [OF chain assms(2,3)] chain show ?thesis by blast
qed

section \<open>Effective authority predicts the decisions\<close>

definition usable_by :: "string \<Rightarrow> (grant \<Rightarrow> reason) \<Rightarrow> grant list \<Rightarrow> grant list" where
  "usable_by who why gs = filter (\<lambda>g. gr_principal_id g = who \<and> why g = NoReason) gs"

definition earlier_end :: "instant option \<Rightarrow> grant \<Rightarrow> instant option" where
  "earlier_end acc g = (if gr_grant_type g = TypeJustInTime then
     (case (acc, gr_valid_until g) of (None, u) \<Rightarrow> u | (a, None) \<Rightarrow> a | (Some a, Some u) \<Rightarrow> Some (min u a)) else acc)"

lemma effective_step_Some:
  "gr_grant_type g = TypeJustInTime \<longrightarrow> gr_valid_until g \<noteq> None \<Longrightarrow>
   effective_step who why g out = Some (if gr_principal_id g = who \<and> why g = NoReason
     then out\<lparr>ea_grants := ea_grants out @ [effective_grant_of g], ea_elevated_until := earlier_end (ea_elevated_until out) g\<rparr>
     else out)"
  by (auto simp: effective_step_def effective_grant_of_def earlier_end_def Let_def split: option.splits)

lemma effective_loop_Some:
  assumes "\<forall>g \<in> set gs. gr_grant_type g = TypeJustInTime \<longrightarrow> gr_valid_until g \<noteq> None"
  shows "effective_loop who why gs out = Some (out\<lparr>
     ea_grants := ea_grants out @ map effective_grant_of (usable_by who why gs),
     ea_elevated_until := foldl earlier_end (ea_elevated_until out) (usable_by who why gs)\<rparr>)"
  using assms by (induction gs arbitrary: out) (simp_all add: effective_step_Some usable_by_def)

lemma foldl_earlier_end:
  assumes "\<forall>g \<in> set gs. gr_grant_type g = TypeJustInTime \<longrightarrow> gr_valid_until g \<noteq> None"
  shows "foldl earlier_end acc gs = Some u \<Longrightarrow>
    (\<forall>a. acc = Some a \<longrightarrow> u \<le> a) \<and>
    (\<forall>g \<in> set gs. \<forall>v. gr_grant_type g = TypeJustInTime \<longrightarrow> gr_valid_until g = Some v \<longrightarrow> u \<le> v) \<and>
    (acc = Some u \<or> (\<exists>g \<in> set gs. gr_grant_type g = TypeJustInTime \<and> gr_valid_until g = Some u))"
  using assms
proof (induction gs arbitrary: acc)
  case Nil
  then show ?case by simp
next
  case (Cons g gs)
  then have rest: "foldl earlier_end (earlier_end acc g) gs = Some u"
    and all: "\<forall>g \<in> set gs. gr_grant_type g = TypeJustInTime \<longrightarrow> gr_valid_until g \<noteq> None" by simp_all
  from Cons.IH [OF rest all] Cons.prems(2) show ?case
    by (cases "gr_valid_until g"; cases acc) (auto simp: earlier_end_def min_def split: if_splits)
qed

lemma effective_Some:
  assumes "\<forall>g \<in> set gs. grant_validate c g = None"
  shows "effective who gs sources now rel = Some
    \<lparr>ea_principal_id = who, ea_evaluated_at = now,
     ea_grants = sort_key (\<lambda>e. (eg_permission e, eg_grant_id e))
       (map effective_grant_of (usable_by who (\<lambda>g. ineligibility g now sources rel 0) gs)),
     ea_elevated_until = foldl earlier_end None (usable_by who (\<lambda>g. ineligibility g now sources rel 0) gs)\<rparr>"
proof -
  from assms have "\<forall>g \<in> set gs. gr_grant_type g = TypeJustInTime \<longrightarrow> gr_valid_until g \<noteq> None"
    using grant_validate_jit by blast
  from effective_loop_Some [OF this] show ?thesis by (simp add: effective_def)
qed

text \<open>
  Property (effective authority is what evaluation would accept). For valid grants \<open>Effective\<close>
  never panics, and an active principal's request is refused outright exactly when no listed
  grant carries the action at a scope that covers the resource; otherwise it is allowed or
  needs a step-up. The instant until which the principal is elevated is the earliest end of a
  listed JUST_IN_TIME grant.
\<close>

theorem effective_agrees_with_evaluate:
  assumes "\<forall>g \<in> set (rq_grants q). grant_validate c g = None" and "rq_principal_active q"
  shows "\<exists>a. effective (rq_principal_id q) (rq_grants q) (rq_sources q) (rq_now q) (rq_relations q) = Some a \<and>
    (de_outcome (evaluate q) = OutcomeDeny \<longleftrightarrow>
      \<not> (\<exists>e \<in> set (ea_grants a). eg_permission e = rq_action q \<and> covers (eg_scope e) (rq_resource q))) \<and>
    sorted (map (\<lambda>e. (eg_permission e, eg_grant_id e)) (ea_grants a)) \<and>
    (\<forall>u. ea_elevated_until a = Some u \<longrightarrow>
      (\<exists>e \<in> set (ea_grants a). eg_elevated e \<and> eg_valid_until e = Some u) \<and>
      (\<forall>e \<in> set (ea_grants a). \<forall>v. eg_elevated e \<longrightarrow> eg_valid_until e = Some v \<longrightarrow> u \<le> v))"
proof -
  let ?us = "usable_by (rq_principal_id q) (why_not q) (rq_grants q)"
  let ?j = "judge_covering (why_not q) (covering_grants q) ([], NoReason)"
  have jit: "\<forall>g \<in> set ?us. gr_grant_type g = TypeJustInTime \<longrightarrow> gr_valid_until g \<noteq> None"
    using assms(1) grant_validate_jit by (auto simp only: usable_by_def set_filter)
  have "de_outcome (evaluate q) = OutcomeDeny \<longleftrightarrow> fst ?j = []"
    using assms(2) by (cases ?j) (auto simp: evaluate_def deny_def Let_def covering_grants_def)
  also have "\<dots> \<longleftrightarrow> \<not> (\<exists>g \<in> set ?us. gr_permission g = rq_action q \<and> covers (gr_scope g) (rq_resource q))"
    by (auto simp: judge_covering_fst filter_empty_conv covering_grants_iff usable_by_def)
  finally have deny_iff: "de_outcome (evaluate q) = OutcomeDeny \<longleftrightarrow>
    \<not> (\<exists>g \<in> set ?us. gr_permission g = rq_action q \<and> covers (gr_scope g) (rq_resource q))" .
  define a where "a = \<lparr>ea_principal_id = rq_principal_id q, ea_evaluated_at = rq_now q,
    ea_grants = sort_key (\<lambda>e. (eg_permission e, eg_grant_id e)) (map effective_grant_of ?us),
    ea_elevated_until = foldl earlier_end None ?us\<rparr>"
  have "(\<lambda>g. ineligibility g (rq_now q) (rq_sources q) (rq_relations q) 0) = why_not q"
    by (simp add: why_not_def fun_eq_iff)
  then have eff: "effective (rq_principal_id q) (rq_grants q) (rq_sources q) (rq_now q) (rq_relations q) = Some a"
    unfolding a_def by (simp only: effective_Some [OF assms(1)])
  have listed: "set (ea_grants a) = effective_grant_of ` set ?us" by (simp add: a_def)
  have elevated: "(\<exists>e \<in> set (ea_grants a). eg_elevated e \<and> eg_valid_until e = Some u) \<and>
      (\<forall>e \<in> set (ea_grants a). \<forall>v. eg_elevated e \<longrightarrow> eg_valid_until e = Some v \<longrightarrow> u \<le> v)"
    if "ea_elevated_until a = Some u" for u
  proof -
    from that have "foldl earlier_end None ?us = Some u" by (simp add: a_def)
    from foldl_earlier_end [OF jit this] show ?thesis by (simp add: listed effective_grant_of_def)
  qed
  have "sorted (map (\<lambda>e. (eg_permission e, eg_grant_id e)) (ea_grants a))" by (simp add: a_def)
  moreover have "de_outcome (evaluate q) = OutcomeDeny \<longleftrightarrow>
      \<not> (\<exists>e \<in> set (ea_grants a). eg_permission e = rq_action q \<and> covers (eg_scope e) (rq_resource q))"
    by (simp add: deny_iff listed effective_grant_of_def)
  ultimately show ?thesis using eff elevated by blast
qed

section \<open>A delegated request for the witnesses\<close>

definition ex_delegated :: grant where
  "ex_delegated = ex_grant\<lparr>gr_grant_id := ''grant-2'', gr_principal_id := ''usr-bob'', gr_granted_by := ''usr-alice'',
     gr_source := SourceDelegation, gr_delegated_from_grant_id := ''grant-1'', gr_delegation_depth := 1,
     gr_delegable_depth := 1, gr_grant_type := TypeTimeBound, gr_valid_until := Some 5000\<rparr>"

definition ex_revoked :: grant where
  "ex_revoked = ex_delegated\<lparr>gr_grant_id := ''grant-3'', gr_status := StatusRevoked\<rparr>"

definition ex_suspended :: grant where
  "ex_suspended = ex_delegated\<lparr>gr_grant_id := ''grant-4'', gr_status := StatusSuspended\<rparr>"

definition ex_sources :: "string \<Rightarrow> grant option" where
  "ex_sources = [''grant-1'' \<mapsto> ex_grant]"

definition ex_request :: request where
  "ex_request = \<lparr>rq_principal_id = ''usr-bob'', rq_principal_active = True, rq_action = ''tenant.read'',
     rq_resource = resolve_resource ex_relations ex_tenant_resource, rq_now = 1000, rq_session = ex_step_up_session,
     rq_grants = [ex_delegated], rq_sources = ex_sources, rq_relations = ex_relations\<rparr>"

definition ex_stale_request :: request where
  "ex_stale_request = ex_request\<lparr>rq_grants := [ex_suspended, ex_revoked]\<rparr>"

lemmas ex_request_defs = ex_delegated_def ex_revoked_def ex_suspended_def ex_sources_def ex_request_def
  ex_stale_request_def

lemmas evaluate_eval = ineligibility.simps own_ineligibility_def delegation_link_def why_not_def

lemma ex_delegated_usable: "ineligibility ex_delegated 1000 ex_sources ex_relations 0 = NoReason"
  by (simp add: evaluate_eval ex_request_defs ex_grant_def ex_scope_defs scope_eval)

lemma ex_delegated_covers: "covers (gr_scope ex_delegated) (resolve_resource ex_relations ex_tenant_resource)"
  by (simp add: ex_request_defs ex_grant_def ex_scope_defs scope_eval)

theorem denial_names_gravest_reason_witness:
  "\<exists>g \<in> set (covering_grants ex_stale_request). evaluate ex_stale_request = deny (why_not ex_stale_request g)"
proof -
  have cov: "covering_grants ex_stale_request = [ex_suspended, ex_revoked]"
    by (simp add: covering_grants_def named_grants_def ex_request_defs ex_grant_def ex_scope_defs scope_eval)
  have why: "\<forall>g \<in> set (covering_grants ex_stale_request). why_not ex_stale_request g \<noteq> NoReason"
    by (simp add: cov evaluate_eval ex_revoked_def ex_suspended_def)
  have "rq_principal_active ex_stale_request" by (simp add: ex_request_defs)
  from denial_names_gravest_reason [OF this _ why] show ?thesis using cov by auto
qed

theorem delegation_never_widens_witness:
  "\<exists>r n. rests_on ex_sources ex_relations 1000 ex_delegated r n \<and>
     covers (gr_scope r) (resolve_resource ex_relations ex_tenant_resource)"
proof -
  have "\<forall>i s. ex_sources i = Some s \<longrightarrow> sc_mode (gr_scope s) \<noteq> ModeStaticMembership"
    by (auto simp: ex_sources_def ex_grant_def ex_scope_defs)
  from delegation_never_widens [OF ex_delegated_usable this ex_delegated_covers] show ?thesis by blast
qed

lemma ex_delegated_valid: "grant_validate ex_catalogue ex_delegated = None"
  by (simp add: ex_delegated_def ex_grant_def ex_catalogue_defs ex_tenant_scope_def grant_eval catalogue_eval
    scope_eval scope_at_def)

theorem effective_agrees_with_evaluate_witness:
  "\<exists>a. effective ''usr-bob'' [ex_delegated] ex_sources 1000 ex_relations = Some a \<and>
     sorted (map (\<lambda>e. (eg_permission e, eg_grant_id e)) (ea_grants a))"
proof -
  have "\<forall>g \<in> set (rq_grants ex_request). grant_validate ex_catalogue g = None"
    by (simp add: ex_request_def ex_delegated_valid)
  from effective_agrees_with_evaluate [OF this] show ?thesis by (auto simp: ex_request_def)
qed

end
