(* ===== verification/Admin_Administer.thy ===== *)
theory Admin_Administer
  imports Admin_Evaluate
begin

text \<open>
  Administering grants (\<open>internal/administration/administer.go\<close>): the plans that turn an issue,
  delegation or replacement request into the grant it would create or refuse it, the commands
  a person may issue on a grant, and when a replacement adds authority. A refusal is modelled
  by its registered code; the detail text is left out.

  The lemmas show that every planned grant satisfies the grant rules, is never for its own
  maker and never carries HIGH or CRITICAL authority unapproved; that a planned delegation is
  usable at once and never outlives its source; that the grant lifecycle has terminal states;
  and where a replacement can start authority earlier than the grant it replaces.
\<close>

section \<open>Refusals and requests\<close>

datatype refusal =
    CodeInvalidGrant | CodeSelfApproval | CodeApprovalRequired | CodeDelegationInvalid
  | CodeTransitionInvalid | CodeSoDViolation | CodeReplacementInvalid

definition max_delegation_hops_depth :: int where
  "max_delegation_hops_depth = 3"

record issue_request =
  iq_principal_id :: string
  iq_permission :: string
  iq_scope :: scope
  iq_grant_type :: grant_type
  iq_valid_from :: "instant option"
  iq_valid_until :: "instant option"
  iq_delegable_depth :: int
  iq_conditions :: "conditions option"
  iq_reason :: string

definition reason_missing :: "string \<Rightarrow> bool" where
  "reason_missing r \<longleftrightarrow> trim_space r = [] \<or> length r > 1000"

definition unknown_condition :: "conditions option \<Rightarrow> bool" where
  "unknown_condition c = (case c of None \<Rightarrow> False
     | Some cond \<Rightarrow> minimum_acr cond \<noteq> [] \<and> \<not> known_level default_assurance (minimum_acr cond))"

definition issue_start :: "issue_request \<Rightarrow> instant \<Rightarrow> instant" where
  "issue_start q now = (case iq_valid_from q of None \<Rightarrow> now | Some f \<Rightarrow> f)"

section \<open>Issuing\<close>

text \<open>The grant literal of \<open>buildIssue\<close>; fields it does not name keep their zero value.\<close>

definition issued_grant :: "permission \<Rightarrow> string \<Rightarrow> issue_request \<Rightarrow> instant \<Rightarrow> grant" where
  "issued_grant p caller q now =
    \<lparr>gr_grant_id = [], gr_principal_id = iq_principal_id q, gr_permission = iq_permission q,
     gr_scope = iq_scope q, gr_conditions = iq_conditions q, gr_grant_type = iq_grant_type q,
     gr_source = SourceDirect, gr_profile_key = [], gr_delegated_from_grant_id = [], gr_delegation_depth = 0,
     gr_delegable_depth = iq_delegable_depth q, gr_risk_class = effective_risk p (iq_scope q),
     gr_valid_from = issue_start q now, gr_valid_until = iq_valid_until q,
     gr_status = (if issue_start q now > now then StatusPending else StatusActive),
     gr_granted_by = caller, gr_approval_reference = [], gr_reason = iq_reason q, gr_created_at = now,
     gr_updated_at = None, gr_revoked_at = None, gr_revoked_by = [], gr_revocation_reason = [],
     gr_supersedes_grant_id = [], gr_superseded_by_grant_id = [], gr_version = 1\<rparr>"

definition build_issue :: "catalogue \<Rightarrow> string \<Rightarrow> issue_request \<Rightarrow> instant \<Rightarrow> refusal + grant" where
  "build_issue c caller q now =
    (if \<not> principal_id (iq_principal_id q) then Inl CodeInvalidGrant
     else if iq_principal_id q = caller then Inl CodeSelfApproval
     else case cat_permission c (iq_permission q) of
       None \<Rightarrow> Inl CodeInvalidGrant
     | Some p \<Rightarrow>
         if reason_missing (iq_reason q) then Inl CodeInvalidGrant
         else if unknown_condition (iq_conditions q) then Inl CodeInvalidGrant
         else if issue_start q now < now - minute_ns then Inl CodeInvalidGrant
         else case grant_validate c (issued_grant p caller q now) of
           Some _ \<Rightarrow> Inl CodeInvalidGrant
         | None \<Rightarrow> Inr (issued_grant p caller q now))"

text \<open>The gate both kinds of plan end with: HIGH and CRITICAL authority names its approval.\<close>

definition approval_gate :: "string \<Rightarrow> grant \<Rightarrow> refusal + grant" where
  "approval_gate approval_id g =
    (if risk_at_least (gr_risk_class g) RiskHigh
     then (if approval_id = [] then Inl CodeApprovalRequired else Inr (g\<lparr>gr_approval_reference := approval_id\<rparr>))
     else Inr g)"

definition plan_issue_with ::
  "catalogue \<Rightarrow> string \<Rightarrow> issue_request \<Rightarrow> instant \<Rightarrow> string \<Rightarrow> refusal + grant" where
  "plan_issue_with c caller q now approval_id =
    (case build_issue c caller q now of
       Inl e \<Rightarrow> Inl e
     | Inr g \<Rightarrow> approval_gate approval_id g)"

definition plan_issue :: "catalogue \<Rightarrow> string \<Rightarrow> issue_request \<Rightarrow> instant \<Rightarrow> refusal + grant" where
  "plan_issue c caller q now = plan_issue_with c caller q now []"

definition plan_approved_issue ::
  "catalogue \<Rightarrow> string \<Rightarrow> issue_request \<Rightarrow> instant \<Rightarrow> string \<Rightarrow> refusal + grant" where
  "plan_approved_issue c requester q now approval_id =
    (if approval_id = [] then Inl CodeApprovalRequired
     else let q' = (case iq_valid_from q of None \<Rightarrow> q
                    | Some f \<Rightarrow> if f < now then q\<lparr>iq_valid_from := None\<rparr> else q)
       in plan_issue_with c requester q' now approval_id)"

section \<open>Delegating\<close>

record delegation_request =
  dq_principal_id :: string
  dq_permission :: string
  dq_scope :: scope
  dq_valid_until :: instant
  dq_delegable_depth :: int
  dq_reason :: string

definition delegated_grant ::
  "permission \<Rightarrow> string \<Rightarrow> grant \<Rightarrow> delegation_request \<Rightarrow> instant \<Rightarrow> grant" where
  "delegated_grant p caller source q now =
    \<lparr>gr_grant_id = [], gr_principal_id = dq_principal_id q, gr_permission = dq_permission q,
     gr_scope = dq_scope q, gr_conditions = gr_conditions source, gr_grant_type = TypeTimeBound,
     gr_source = SourceDelegation, gr_profile_key = [], gr_delegated_from_grant_id = gr_grant_id source,
     gr_delegation_depth = gr_delegation_depth source + 1,
     gr_delegable_depth = dq_delegable_depth q, gr_risk_class = effective_risk p (dq_scope q),
     gr_valid_from = now, gr_valid_until = Some (dq_valid_until q), gr_status = StatusActive,
     gr_granted_by = caller, gr_approval_reference = [], gr_reason = dq_reason q, gr_created_at = now,
     gr_updated_at = None, gr_revoked_at = None, gr_revoked_by = [], gr_revocation_reason = [],
     gr_supersedes_grant_id = [], gr_superseded_by_grant_id = [], gr_version = 1\<rparr>"

definition outlives :: "instant \<Rightarrow> grant \<Rightarrow> bool" where
  "outlives until source = (case gr_valid_until source of None \<Rightarrow> False | Some su \<Rightarrow> until > su)"

definition plan_delegation_with ::
  "catalogue \<Rightarrow> string \<Rightarrow> grant \<Rightarrow> (string \<Rightarrow> grant option) \<Rightarrow> delegation_request \<Rightarrow> instant \<Rightarrow> relations \<Rightarrow>
   string \<Rightarrow> refusal + grant" where
  "plan_delegation_with c caller source sources q now rel approval_id =
    (if gr_principal_id source \<noteq> caller then Inl CodeDelegationInvalid
     else if dq_principal_id q = caller then Inl CodeSelfApproval
     else if \<not> principal_id (dq_principal_id q) then Inl CodeInvalidGrant
     else if ineligibility source now sources rel 0 \<noteq> NoReason then Inl CodeDelegationInvalid
     else case cat_permission c (dq_permission q) of
       None \<Rightarrow> Inl CodeDelegationInvalid
     | Some p \<Rightarrow>
         if dq_permission q \<noteq> gr_permission source then Inl CodeDelegationInvalid
         else if \<not> pm_delegable p then Inl CodeDelegationInvalid
         else if \<not> contains (gr_scope source) (dq_scope q) rel then Inl CodeDelegationInvalid
         else if sc_level (gr_scope source) \<noteq> sc_level (dq_scope q) \<and>
                 (sc_level (gr_scope source) \<notin> set (pm_scope_levels p) \<or>
                  sc_level (dq_scope q) \<notin> set (pm_scope_levels p)) then Inl CodeDelegationInvalid
         else if gr_delegable_depth source < 1 \<or> gr_delegation_depth source + 1 > max_delegation_hops_depth
           then Inl CodeDelegationInvalid
         else if dq_delegable_depth q < 0 \<or> dq_delegable_depth q > gr_delegable_depth source - 1
           then Inl CodeDelegationInvalid
         else if \<not> dq_valid_until q > now then Inl CodeInvalidGrant
         else if outlives (dq_valid_until q) source then Inl CodeDelegationInvalid
         else if reason_missing (dq_reason q) then Inl CodeInvalidGrant
         else case grant_validate c (delegated_grant p caller source q now) of
           Some _ \<Rightarrow> Inl CodeInvalidGrant
         | None \<Rightarrow> approval_gate approval_id (delegated_grant p caller source q now))"

definition plan_delegation ::
  "catalogue \<Rightarrow> string \<Rightarrow> grant \<Rightarrow> (string \<Rightarrow> grant option) \<Rightarrow> delegation_request \<Rightarrow> instant \<Rightarrow> relations \<Rightarrow>
   refusal + grant" where
  "plan_delegation c caller source sources q now rel = plan_delegation_with c caller source sources q now rel []"

definition plan_approved_delegation ::
  "catalogue \<Rightarrow> string \<Rightarrow> grant \<Rightarrow> (string \<Rightarrow> grant option) \<Rightarrow> delegation_request \<Rightarrow> instant \<Rightarrow> relations \<Rightarrow>
   string \<Rightarrow> refusal + grant" where
  "plan_approved_delegation c delegator source sources q now rel approval_id =
    (if approval_id = [] then Inl CodeApprovalRequired
     else plan_delegation_with c delegator source sources q now rel approval_id)"

section \<open>The grant lifecycle\<close>

datatype command = CommandSuspend | CommandResume | CommandRevoke | CommandWithdraw | CommandOther string

definition command_valid :: "command \<Rightarrow> bool" where
  "command_valid c \<longleftrightarrow> c \<in> {CommandSuspend, CommandResume, CommandRevoke, CommandWithdraw}"

definition grant_transition :: "grant_status \<Rightarrow> command \<Rightarrow> grant_status option" where
  "grant_transition s c =
    (case c of
       CommandWithdraw \<Rightarrow> (if s = StatusPending then Some StatusRevoked else None)
     | CommandSuspend \<Rightarrow> (if s = StatusActive then Some StatusSuspended else None)
     | CommandResume \<Rightarrow> (if s = StatusSuspended then Some StatusActive else None)
     | CommandRevoke \<Rightarrow> (if s = StatusActive \<or> s = StatusSuspended then Some StatusRevoked else None)
     | CommandOther _ \<Rightarrow> None)"

definition transition_target :: "grant \<Rightarrow> command \<Rightarrow> instant \<Rightarrow> refusal + grant_status" where
  "transition_target g c now =
    (case grant_transition (gr_status g) c of
       None \<Rightarrow> Inl CodeTransitionInvalid
     | Some to \<Rightarrow>
         if c = CommandResume \<and> (case gr_valid_until g of None \<Rightarrow> False | Some u \<Rightarrow> \<not> now < u)
         then Inl CodeTransitionInvalid else Inr to)"

definition usable :: "grant \<Rightarrow> (string \<Rightarrow> grant option) \<Rightarrow> instant \<Rightarrow> relations \<Rightarrow> bool" where
  "usable g sources now rel \<longleftrightarrow> ineligibility g now sources rel 0 = NoReason"

section \<open>Replacing\<close>

definition replaceable :: "grant \<Rightarrow> instant \<Rightarrow> bool" where
  "replaceable g now \<longleftrightarrow> gr_source g = SourceDirect \<and> live g now"

definition weaker_assurance :: "grant \<Rightarrow> grant \<Rightarrow> bool" where
  "weaker_assurance old next =
    (let o' = required default_assurance old; n = required default_assurance next in
     case (policy_level default_assurance (ar_minimum_acr o'), policy_level default_assurance (ar_minimum_acr n)) of
       (Some ol, Some nl) \<Rightarrow>
         if al_rank nl < al_rank ol then True
         else if ar_phishing_resistant_required o' \<and> \<not> ar_phishing_resistant_required n then True
         else if ar_max_authentication_age o' > 0 \<and>
                 (ar_max_authentication_age n = 0 \<or> ar_max_authentication_age n > ar_max_authentication_age o') then True
         else False
     | _ \<Rightarrow> ar_minimum_acr o' \<noteq> ar_minimum_acr n)"

definition adds_authority :: "grant \<Rightarrow> grant \<Rightarrow> relations \<Rightarrow> bool" where
  "adds_authority old next rel =
    (if gr_permission old \<noteq> gr_permission next \<or> \<not> contains (gr_scope old) (gr_scope next) rel then True
     else if gr_delegable_depth next > gr_delegable_depth old then True
     else if (case gr_valid_until old of None \<Rightarrow> False
              | Some ou \<Rightarrow> (case gr_valid_until next of None \<Rightarrow> True | Some nu \<Rightarrow> nu > ou)) then True
     else weaker_assurance old next)"

record replace_request =
  pq_permission :: string
  pq_scope :: scope
  pq_grant_type :: grant_type
  pq_valid_from :: "instant option"
  pq_valid_until :: "instant option"
  pq_delegable_depth :: int
  pq_conditions :: "conditions option"
  pq_reason :: string

definition issue_of_replace :: "replace_request \<Rightarrow> string \<Rightarrow> issue_request" where
  "issue_of_replace q who =
    \<lparr>iq_principal_id = who, iq_permission = pq_permission q, iq_scope = pq_scope q,
     iq_grant_type = pq_grant_type q, iq_valid_from = pq_valid_from q, iq_valid_until = pq_valid_until q,
     iq_delegable_depth = pq_delegable_depth q, iq_conditions = pq_conditions q, iq_reason = pq_reason q\<rparr>"

definition plan_replacement ::
  "catalogue \<Rightarrow> string \<Rightarrow> grant \<Rightarrow> replace_request \<Rightarrow> instant \<Rightarrow> relations \<Rightarrow> refusal + grant" where
  "plan_replacement c caller old q now rel =
    (if \<not> replaceable old now then Inl CodeReplacementInvalid
     else if (case pq_valid_from q of None \<Rightarrow> False | Some f \<Rightarrow> f > now) then Inl CodeInvalidGrant
     else case build_issue c caller (issue_of_replace q (gr_principal_id old)) now of
       Inl e \<Rightarrow> Inl e
     | Inr b \<Rightarrow>
         let g = b\<lparr>gr_status := StatusActive, gr_supersedes_grant_id := gr_grant_id old\<rparr> in
         if risk_at_least (gr_risk_class g) RiskHigh \<and> adds_authority old g rel
         then Inl CodeApprovalRequired else Inr g)"

section \<open>What a plan guarantees\<close>

lemma grant_validate_approval [simp]:
  "grant_validate c (g\<lparr>gr_approval_reference := a\<rparr>) = grant_validate c g"
  by (simp add: grant_validate_def grant_window_error_def grant_profile_error_def grant_delegation_error_def
    grant_source_error_def cong: if_cong option.case_cong grant_type.case_cong grant_source.case_cong)

lemma own_ineligibility_approval [simp]:
  "own_ineligibility (g\<lparr>gr_approval_reference := a\<rparr>) now = own_ineligibility g now"
  by (simp add: own_ineligibility_def cong: option.case_cong)

lemma delegation_link_approval [simp]:
  "delegation_link s (g\<lparr>gr_approval_reference := a\<rparr>) rel = delegation_link s g rel"
  by (simp add: delegation_link_def cong: option.case_cong)

lemma approval_gate_Inr:
  "approval_gate a g = Inr h \<Longrightarrow> (h = g \<or> h = g\<lparr>gr_approval_reference := a\<rparr>) \<and>
     (risk_at_least (gr_risk_class h) RiskHigh \<longrightarrow> a \<noteq> [] \<and> gr_approval_reference h = a)"
  by (auto simp: approval_gate_def split: if_splits)

lemma build_issue_Inr:
  assumes "build_issue c caller q now = Inr g"
  obtains p where "cat_permission c (iq_permission q) = Some p" and "g = issued_grant p caller q now"
    and "grant_validate c g = None" and "iq_principal_id q \<noteq> caller" and "now - minute_ns \<le> issue_start q now"
  using assms by (auto simp: build_issue_def result_simps split: option.splits if_splits)

lemma issued_grant_facts [simp]:
  "gr_principal_id (issued_grant p caller q now) = iq_principal_id q"
  "gr_granted_by (issued_grant p caller q now) = caller"
  "gr_source (issued_grant p caller q now) = SourceDirect"
  "gr_valid_from (issued_grant p caller q now) = issue_start q now"
  "gr_valid_until (issued_grant p caller q now) = iq_valid_until q"
  "gr_permission (issued_grant p caller q now) = iq_permission q"
  "gr_scope (issued_grant p caller q now) = iq_scope q"
  "gr_risk_class (issued_grant p caller q now) = effective_risk p (iq_scope q)"
  "gr_status (issued_grant p caller q now) = (if issue_start q now > now then StatusPending else StatusActive)"
  by (simp_all add: issued_grant_def)

lemma plan_issue_with_Inr:
  assumes "plan_issue_with c caller q now a = Inr g"
  obtains p where "cat_permission c (iq_permission q) = Some p"
    and "g = issued_grant p caller q now \<or> g = (issued_grant p caller q now)\<lparr>gr_approval_reference := a\<rparr>"
    and "grant_validate c g = None" and "iq_principal_id q \<noteq> caller" and "now - minute_ns \<le> issue_start q now"
    and "risk_at_least (gr_risk_class g) RiskHigh \<longrightarrow> a \<noteq> [] \<and> gr_approval_reference g = a"
proof -
  from assms obtain b where b: "build_issue c caller q now = Inr b" and g: "approval_gate a b = Inr g"
    by (auto simp: plan_issue_with_def split: sum.splits)
  from b show ?thesis
  proof (rule build_issue_Inr)
    fix p
    assume "cat_permission c (iq_permission q) = Some p" and "b = issued_grant p caller q now"
      and "grant_validate c b = None" and "iq_principal_id q \<noteq> caller" and "now - minute_ns \<le> issue_start q now"
    then show ?thesis using approval_gate_Inr [OF g] by (intro that [of p]) auto
  qed
qed

text \<open>
  Property (direct issuing stays below HIGH). Whatever \<open>PlanIssue\<close> plans satisfies every grant
  rule, is a DIRECT grant made by the caller for somebody else, carries the risk class its
  permission has at its scope, starts at most a minute ago, is PENDING exactly when it starts
  later than now, and is neither HIGH nor CRITICAL.
\<close>

theorem plan_issue_direct:
  assumes "plan_issue c caller q now = Inr g"
  shows "grant_validate c g = None \<and> gr_source g = SourceDirect \<and> gr_granted_by g = caller \<and>
    gr_principal_id g = iq_principal_id q \<and> gr_principal_id g \<noteq> caller \<and>
    gr_risk_class g = change_risk c (gr_permission g) (gr_scope g) \<and>
    now - minute_ns \<le> gr_valid_from g \<and> (gr_status g = StatusPending \<longleftrightarrow> now < gr_valid_from g) \<and>
    \<not> risk_at_least (gr_risk_class g) RiskHigh"
proof -
  from assms have "plan_issue_with c caller q now [] = Inr g" by (simp add: plan_issue_def)
  then show ?thesis
    by (rule plan_issue_with_Inr) (auto simp: change_risk_def split: if_splits)
qed

lemma approved_issue_start:
  "issue_start (case iq_valid_from q of None \<Rightarrow> q | Some f \<Rightarrow> if f < now then q\<lparr>iq_valid_from := None\<rparr> else q) now \<ge> now"
  by (auto simp: issue_start_def split: option.splits)

text \<open>
  Property (approved authority is never backdated and names its approval). Whatever
  \<open>PlanApprovedIssue\<close> plans satisfies every grant rule, is for somebody other than the
  requester, starts now or later, names its approval when it is HIGH or CRITICAL, and is
  usable as soon as it starts: evaluation accepts it now exactly when it starts now.
\<close>

theorem plan_approved_issue_sound:
  assumes "plan_approved_issue c requester q now approval = Inr g"
  shows "grant_validate c g = None \<and> gr_principal_id g \<noteq> requester \<and> now \<le> gr_valid_from g \<and>
    (risk_at_least (gr_risk_class g) RiskHigh \<longrightarrow> approval \<noteq> [] \<and> gr_approval_reference g = approval) \<and>
    (usable g sources now rel \<longleftrightarrow> gr_valid_from g = now)"
proof -
  let ?q = "case iq_valid_from q of None \<Rightarrow> q | Some f \<Rightarrow> if f < now then q\<lparr>iq_valid_from := None\<rparr> else q"
  note start = approved_issue_start [of now q]
  have who: "iq_principal_id ?q = iq_principal_id q" by (auto split: option.splits)
  from assms have "plan_issue_with c requester ?q now approval = Inr g"
    by (simp add: plan_approved_issue_def Let_def split: if_splits)
  then show ?thesis
  proof (rule plan_issue_with_Inr)
    fix p
    assume g: "g = issued_grant p requester ?q now \<or> g = (issued_grant p requester ?q now)\<lparr>gr_approval_reference := approval\<rparr>"
      and ok: "grant_validate c g = None" and other: "iq_principal_id ?q \<noteq> requester"
      and gate: "risk_at_least (gr_risk_class g) RiskHigh \<longrightarrow> approval \<noteq> [] \<and> gr_approval_reference g = approval"
    from g have from_g: "gr_valid_from g = issue_start ?q now" and st: "gr_status g = (if issue_start ?q now > now then StatusPending else StatusActive)"
      and src: "gr_source g \<noteq> SourceDelegation" and id: "gr_principal_id g = iq_principal_id ?q" by auto
    from grant_validate_facts(3) [OF ok] have "\<forall>u. gr_valid_until g = Some u \<longrightarrow> gr_valid_from g < u"
      by (auto simp: grant_window_error_def split: grant_type.splits if_splits)
    with start from_g st have "own_ineligibility g now = NoReason \<longleftrightarrow> gr_valid_from g = now"
      by (auto simp: own_ineligibility_iff valid_at_iff)
    with src have "usable g sources now rel \<longleftrightarrow> gr_valid_from g = now"
      by (simp add: usable_def ineligibility.simps)
    with ok gate start from_g id other show ?thesis by simp
  qed
qed

section \<open>Delegations\<close>

lemma rests_on_root_in:
  "rests_on sources rel now g r n \<Longrightarrow> r = g \<or> (\<exists>i. sources i = Some r)"
  by (induction rule: rests_on.induct) auto

lemma plan_delegation_Inr:
  assumes "plan_delegation_with c caller source sources q now rel a = Inr g"
  obtains p where "cat_permission c (dq_permission q) = Some p" and "pm_delegable p"
    and "g = delegated_grant p caller source q now \<or> g = (delegated_grant p caller source q now)\<lparr>gr_approval_reference := a\<rparr>"
    and "grant_validate c g = None" and "gr_principal_id source = caller" and "dq_principal_id q \<noteq> caller"
    and "ineligibility source now sources rel 0 = NoReason" and "dq_permission q = gr_permission source"
    and "contains (gr_scope source) (dq_scope q) rel" and "\<not> gr_delegable_depth source < 1"
    and "gr_delegation_depth source + 1 \<le> 3" and "\<not> dq_delegable_depth q > gr_delegable_depth source - 1"
    and "now < dq_valid_until q" and "\<not> outlives (dq_valid_until q) source"
    and "risk_at_least (gr_risk_class g) RiskHigh \<longrightarrow> a \<noteq> [] \<and> gr_approval_reference g = a"
proof -
  from assms obtain p where p: "cat_permission c (dq_permission q) = Some p"
    and ok: "grant_validate c (delegated_grant p caller source q now) = None"
    and gate: "approval_gate a (delegated_grant p caller source q now) = Inr g"
    and rest: "gr_principal_id source = caller" "dq_principal_id q \<noteq> caller" "pm_delegable p"
      "ineligibility source now sources rel 0 = NoReason" "dq_permission q = gr_permission source"
      "contains (gr_scope source) (dq_scope q) rel" "\<not> gr_delegable_depth source < 1"
      "gr_delegation_depth source + 1 \<le> 3" "\<not> dq_delegable_depth q > gr_delegable_depth source - 1"
      "now < dq_valid_until q" "\<not> outlives (dq_valid_until q) source"
    by (simp only: plan_delegation_with_def result_simps) (auto simp: max_delegation_hops_depth_def)
  from approval_gate_Inr [OF gate] ok have "grant_validate c g = None" by auto
  with p rest approval_gate_Inr [OF gate] show ?thesis by (intro that [of p]) auto
qed

lemma delegated_grant_link:
  assumes "gr_principal_id source = caller" and "dq_permission q = gr_permission source"
    and "contains (gr_scope source) (dq_scope q) rel" and "\<not> gr_delegable_depth source < 1"
    and "\<not> dq_delegable_depth q > gr_delegable_depth source - 1" and "\<not> outlives (dq_valid_until q) source"
    and "now < dq_valid_until q"
  shows "delegation_link source (delegated_grant p caller source q now) rel"
    and "own_ineligibility (delegated_grant p caller source q now) now = NoReason"
    and "gr_source (delegated_grant p caller source q now) = SourceDelegation"
    and "gr_delegated_from_grant_id (delegated_grant p caller source q now) = gr_grant_id source"
  using assms
  by (auto simp: delegated_grant_def delegation_link_def outlives_def own_ineligibility_def split: option.splits)

text \<open>
  C6 (a planned delegation works and stays within its source). When the source grant resolves
  by its id and no resolvable grant has a negative delegation depth, whatever a delegation
  plan creates is accepted by evaluation at once, satisfies every grant rule, is for somebody
  other than the delegator, ends no later than its source, allows fewer further hops, and
  names its approval when it is HIGH or CRITICAL.
\<close>

theorem planned_delegation_usable:
  assumes plan: "plan_delegation_with c caller source sources q now rel approval = Inr g"
    and src: "sources (gr_grant_id source) = Some source"
    and depth: "\<forall>i s. sources i = Some s \<longrightarrow> 0 \<le> gr_delegation_depth s"
  shows "usable g sources now rel \<and> grant_validate c g = None \<and> gr_principal_id g \<noteq> gr_principal_id source \<and>
    (\<forall>u. gr_valid_until source = Some u \<longrightarrow> (\<exists>v \<le> u. gr_valid_until g = Some v)) \<and>
    gr_delegable_depth g < gr_delegable_depth source \<and>
    (risk_at_least (gr_risk_class g) RiskHigh \<longrightarrow> approval \<noteq> [] \<and> gr_approval_reference g = approval)"
  using plan
proof (rule plan_delegation_Inr)
  fix p
  let ?d = "delegated_grant p caller source q now"
  assume g: "g = ?d \<or> g = ?d\<lparr>gr_approval_reference := approval\<rparr>" and ok: "grant_validate c g = None"
    and c: "gr_principal_id source = caller" "dq_permission q = gr_permission source"
      "contains (gr_scope source) (dq_scope q) rel" "\<not> gr_delegable_depth source < 1"
      "\<not> dq_delegable_depth q > gr_delegable_depth source - 1" "\<not> outlives (dq_valid_until q) source"
      "now < dq_valid_until q"
    and usable: "ineligibility source now sources rel 0 = NoReason" and hops: "gr_delegation_depth source + 1 \<le> 3"
    and other: "dq_principal_id q \<noteq> caller"
    and gate: "risk_at_least (gr_risk_class g) RiskHigh \<longrightarrow> approval \<noteq> [] \<and> gr_approval_reference g = approval"
  note d = delegated_grant_link [OF c, where p = p]
  have g_link: "delegation_link source g rel" "own_ineligibility g now = NoReason" "gr_source g = SourceDelegation"
    "gr_delegated_from_grant_id g = gr_grant_id source" using g d by auto
  have g_who: "gr_principal_id g = dq_principal_id q" using g by (auto simp: delegated_grant_def)
  from usable ineligibility_chain obtain r n where chain: "rests_on sources rel now source r n" by fastforce
  from rests_on_root_in [OF chain] src depth have "0 \<le> gr_delegation_depth r" by auto
  with rests_on_facts [OF chain] hops have "n \<le> 2" by auto
  moreover from g_link src chain have "rests_on sources rel now g r (Suc n)" by (auto intro: rests_on.link)
  ultimately have "usable g sources now rel" unfolding usable_def by (intro chain_ineligibility) auto
  moreover have "gr_delegable_depth g < gr_delegable_depth source" using g_link(1) by (auto simp: delegation_link_def)
  ultimately show ?thesis using ok gate g_who other c(1) delegation_link_end [OF g_link(1)] by simp
qed

section \<open>The grant lifecycle\<close>

definition grant_terminal :: "grant_status \<Rightarrow> bool" where
  "grant_terminal s = (case s of StatusPending \<Rightarrow> False | StatusActive \<Rightarrow> False | StatusSuspended \<Rightarrow> False | _ \<Rightarrow> True)"

lemma grant_transition_live:
  "\<not> grant_terminal s \<Longrightarrow> \<exists>c. grant_transition s c = Some StatusRevoked"
  by (cases s) (auto simp: grant_terminal_def grant_transition_def
    intro: exI [of _ CommandWithdraw] exI [of _ CommandRevoke])

interpretation grant_lifecycle: live_table grant_transition grant_terminal "\<lambda>_. True" "\<lambda>s. if grant_terminal s then 0 else 1"
proof unfold_locales
  show "grant_terminal s \<Longrightarrow> grant_transition s c = None" for s c
    by (cases s; cases c) (simp_all add: grant_terminal_def grant_transition_def)
  show "\<exists>c s'. grant_transition s c = Some s' \<and> True \<and> (if grant_terminal s' then 0 else 1) < (if grant_terminal s then 0 else (1::nat))"
    if "\<not> grant_terminal s" for s
  proof -
    from grant_transition_live [OF that] obtain c where "grant_transition s c = Some StatusRevoked" ..
    with that show ?thesis by (intro exI [of _ c] exI [of _ StatusRevoked]) (simp add: grant_terminal_def)
  qed
qed

lemma grant_transition_inactive:
  "s \<notin> {StatusActive, StatusSuspended} \<Longrightarrow> grant_transition s c = Some s' \<Longrightarrow> s' \<notin> {StatusActive, StatusSuspended}"
  by (cases c) (auto simp: grant_transition_def split: if_splits)

text \<open>
  Property (people end authority, they never create it by command). No sequence of commands leads
  out of REVOKED or EXPIRED, every status a grant can be live in has a sequence of commands
  that ends it, and a sequence of commands that leaves a grant ACTIVE started from a grant that
  was ACTIVE or SUSPENDED: a PENDING grant is never activated by a person.
\<close>

theorem grant_commands_terminal:
  "(\<forall>cs s'. run_table grant_transition StatusRevoked cs = Some s' \<longrightarrow> s' = StatusRevoked) \<and>
   (\<forall>cs s'. run_table grant_transition StatusExpired cs = Some s' \<longrightarrow> s' = StatusExpired) \<and>
   (\<forall>s. \<exists>cs s'. run_table grant_transition s cs = Some s' \<and> grant_terminal s') \<and>
   (\<forall>s cs. run_table grant_transition s cs = Some StatusActive \<longrightarrow> s \<in> {StatusActive, StatusSuspended})"
proof (intro conjI allI impI)
  show "run_table grant_transition StatusRevoked cs = Some s' \<Longrightarrow> s' = StatusRevoked" for cs s'
    using grant_lifecycle.terminal_final [of StatusRevoked cs s'] by (simp add: grant_terminal_def)
  show "run_table grant_transition StatusExpired cs = Some s' \<Longrightarrow> s' = StatusExpired" for cs s'
    using grant_lifecycle.terminal_final [of StatusExpired cs s'] by (simp add: grant_terminal_def)
  show "\<exists>cs s'. run_table grant_transition s cs = Some s' \<and> grant_terminal s'" for s
    by (rule grant_lifecycle.can_finish) simp
  show "s \<in> {StatusActive, StatusSuspended}" if "run_table grant_transition s cs = Some StatusActive" for s cs
  proof (rule ccontr)
    assume "s \<notin> {StatusActive, StatusSuspended}"
    from run_table_invariant [where I = "\<lambda>s. s \<notin> {StatusActive, StatusSuspended}", OF grant_transition_inactive this that]
    show False by simp
  qed
qed

theorem grant_commands_terminal_witness:
  "run_table grant_transition StatusActive [CommandSuspend, CommandResume] = Some StatusActive \<and>
   StatusActive \<in> {StatusActive, StatusSuspended}"
proof -
  have "run_table grant_transition StatusActive [CommandSuspend, CommandResume] = Some StatusActive"
    by (simp add: grant_transition_def)
  with grant_commands_terminal show ?thesis by blast
qed

text \<open>The grants a delegation was made from, at any distance, itself included.\<close>

inductive delegated_under :: "(string \<Rightarrow> grant option) \<Rightarrow> grant \<Rightarrow> grant \<Rightarrow> bool"
  for sources :: "string \<Rightarrow> grant option" where
  itself: "delegated_under sources h h"
| source: "gr_source h = SourceDelegation \<Longrightarrow> sources (gr_delegated_from_grant_id h) = Some s \<Longrightarrow>
    delegated_under sources s t \<Longrightarrow> delegated_under sources h t"

lemma rests_on_ancestors:
  "delegated_under sources h s \<Longrightarrow> rests_on sources rel now h r n \<Longrightarrow> own_ineligibility s now = NoReason"
proof (induction arbitrary: n rule: delegated_under.induct)
  case (itself h)
  then show ?case by (cases rule: rests_on_cases) auto
next
  case (source h s t)
  from source.prems source.hyps(1,2) obtain m where "rests_on sources rel now s r m"
    by (cases rule: rests_on_cases) auto
  then show ?case by (rule source.IH)
qed

text \<open>
  C7 (suspending or ending a grant ends what was delegated from it). After a suspend, revoke
  or withdraw command succeeds on a grant, neither the grant nor anything delegated from it,
  at any distance, is usable.
\<close>

theorem ended_grant_cascades:
  assumes "transition_target g c now = Inr to" and "c \<noteq> CommandResume"
    and "delegated_under sources h (g\<lparr>gr_status := to\<rparr>)"
  shows "\<not> usable h sources now rel"
proof
  assume "usable h sources now rel"
  then obtain r n where "rests_on sources rel now h r n"
    using ineligibility_chain [of h now sources rel 0] by (auto simp: usable_def)
  from rests_on_ancestors [OF assms(3) this] have "to = StatusActive" by (simp add: own_ineligibility_iff)
  with assms(1,2) show False
    by (cases c) (auto simp: transition_target_def grant_transition_def split: if_splits)
qed

theorem ended_grant_cascades_witness:
  "transition_target ex_grant CommandRevoke 1000 = Inr StatusRevoked \<and>
   \<not> usable ex_delegated [''grant-1'' \<mapsto> ex_grant\<lparr>gr_status := StatusRevoked\<rparr>] 1000 ex_relations"
proof -
  let ?s = "[''grant-1'' \<mapsto> ex_grant\<lparr>gr_status := StatusRevoked\<rparr>]"
  have to: "transition_target ex_grant CommandRevoke 1000 = Inr StatusRevoked"
    by (simp add: transition_target_def grant_transition_def ex_grant_def)
  have "delegated_under ?s ex_delegated (ex_grant\<lparr>gr_status := StatusRevoked\<rparr>)"
    by (rule delegated_under.source [OF _ _ delegated_under.itself]) (simp_all add: ex_delegated_def)
  from ended_grant_cascades [OF to _ this] to show ?thesis by simp
qed

section \<open>Replacements\<close>

lemma default_ages:
  "ar_max_authentication_age (required default_assurance g) \<in> {0, 300}"
  by (cases "gr_risk_class g"; cases "gr_conditions g")
    (auto simp: required_def requirement_for_def default_assurance_def zero_requirement_def Let_def split: option.splits)

lemma default_levels_issuable: "policy_level default_assurance name = Some l \<Longrightarrow> al_issuable l"
  by (auto simp: policy_level_def default_assurance_def split: if_splits)

lemma met_default_iff:
  "met default_assurance req s now \<longleftrightarrow>
     (\<exists>l. policy_level default_assurance (ar_minimum_acr req) = Some l \<and>
       (al_rank l > 0 \<longrightarrow> al_rank l \<le> session_rank default_assurance s)) \<and>
     (ar_max_authentication_age req > 0 \<longrightarrow>
       (let at = (if se_step_up_at s \<noteq> 0 then se_step_up_at s else se_authenticated_at s)
        in at \<noteq> 0 \<and> 0 \<le> time_sub now at \<and> time_sub now at \<le> duration_of (ar_max_authentication_age req) second_ns)) \<and>
     (ar_phishing_resistant_required req \<longrightarrow> phishing_resistant default_assurance s)"
  by (auto simp: met_def Let_def default_levels_issuable split: option.splits)

lemma not_weaker_met:
  assumes "\<not> weaker_assurance old new" and "met default_assurance (required default_assurance new) s now"
  shows "met default_assurance (required default_assurance old) s now"
proof -
  let ?o = "required default_assurance old" and ?n = "required default_assurance new"
  from assms(2) obtain nl where nl: "policy_level default_assurance (ar_minimum_acr ?n) = Some nl"
    by (auto simp: met_default_iff)
  with assms(1) obtain ol where ol: "policy_level default_assurance (ar_minimum_acr ?o) = Some ol"
    by (cases "policy_level default_assurance (ar_minimum_acr ?o)") (auto simp: weaker_assurance_def Let_def)
  from assms(1) nl ol have rank: "al_rank ol \<le> al_rank nl"
    and phish: "ar_phishing_resistant_required ?o \<longrightarrow> ar_phishing_resistant_required ?n"
    and age: "ar_max_authentication_age ?o > 0 \<longrightarrow>
      ar_max_authentication_age ?n \<noteq> 0 \<and> ar_max_authentication_age ?n \<le> ar_max_authentication_age ?o"
    by (auto simp: weaker_assurance_def Let_def split: if_splits)
  from age default_ages [of old] default_ages [of new]
  have "ar_max_authentication_age ?o > 0 \<longrightarrow> ar_max_authentication_age ?n = ar_max_authentication_age ?o" by auto
  with assms(2) rank phish nl ol default_ages [of new] show ?thesis unfolding met_default_iff by (auto simp: Let_def)
qed

text \<open>
  Property (a direct replacement never widens HIGH authority). Whatever \<open>PlanReplacement\<close> plans is
  ACTIVE, for the replaced grant's principal and never the caller, names the grant it
  replaces; and when it is HIGH or CRITICAL it carries the same permission within the old
  scope, ends no later, allows no more delegation, and every session that meets its
  requirement meets the old grant's.
\<close>

theorem replacement_never_widens_high:
  assumes "plan_replacement c caller old q now rel = Inr g"
  shows "gr_status g = StatusActive \<and> gr_principal_id g = gr_principal_id old \<and> gr_principal_id g \<noteq> caller \<and>
    gr_supersedes_grant_id g = gr_grant_id old \<and> replaceable old now \<and>
    (risk_at_least (gr_risk_class g) RiskHigh \<longrightarrow>
      gr_permission g = gr_permission old \<and> contains (gr_scope old) (gr_scope g) rel \<and>
      gr_delegable_depth g \<le> gr_delegable_depth old \<and>
      (\<forall>u. gr_valid_until old = Some u \<longrightarrow> (\<exists>v \<le> u. gr_valid_until g = Some v)) \<and>
      (\<forall>s t. met default_assurance (required default_assurance g) s t \<longrightarrow>
             met default_assurance (required default_assurance old) s t))"
proof -
  from assms obtain b where b: "build_issue c caller (issue_of_replace q (gr_principal_id old)) now = Inr b"
    and g: "g = b\<lparr>gr_status := StatusActive, gr_supersedes_grant_id := gr_grant_id old\<rparr>"
    and rep: "replaceable old now" and add: "risk_at_least (gr_risk_class g) RiskHigh \<longrightarrow> \<not> adds_authority old g rel"
    by (simp only: plan_replacement_def result_simps Let_def) auto
  from b have "gr_principal_id b = gr_principal_id old \<and> gr_principal_id b \<noteq> caller"
    by (rule build_issue_Inr) (auto simp: issue_of_replace_def)
  moreover have "gr_permission g = gr_permission old \<and> contains (gr_scope old) (gr_scope g) rel \<and>
      gr_delegable_depth g \<le> gr_delegable_depth old \<and>
      (\<forall>u. gr_valid_until old = Some u \<longrightarrow> (\<exists>v \<le> u. gr_valid_until g = Some v)) \<and> \<not> weaker_assurance old g"
    if "risk_at_least (gr_risk_class g) RiskHigh"
  proof -
    from add that have "\<not> adds_authority old g rel" by blast
    then show ?thesis by (auto simp: adds_authority_def split: if_splits option.splits)
  qed
  ultimately show ?thesis using g rep not_weaker_met [of old g] by auto
qed

section \<open>Requests for the witnesses\<close>

definition ex_issue :: issue_request where
  "ex_issue = \<lparr>iq_principal_id = ''usr-alice'', iq_permission = ''tenant.read'', iq_scope = ex_tenant_scope,
     iq_grant_type = TypeStanding, iq_valid_from = None, iq_valid_until = None, iq_delegable_depth = 1,
     iq_conditions = None, iq_reason = ''duty''\<rparr>"

definition ex_high_issue :: issue_request where
  "ex_high_issue = ex_issue\<lparr>iq_permission := ''tenant.suspend'', iq_valid_from := Some 10\<rparr>"

definition ex_delegation :: delegation_request where
  "ex_delegation = \<lparr>dq_principal_id = ''usr-bob'', dq_permission = ''tenant.read'', dq_scope = ex_tenant_scope,
     dq_valid_until = 5000, dq_delegable_depth = 1, dq_reason = ''cover''\<rparr>"

text \<open>An approved HIGH grant whose authority begins only at instant 900000.\<close>

definition ex_future_grant :: grant where
  "ex_future_grant = ex_grant\<lparr>gr_permission := ''tenant.suspend'', gr_risk_class := RiskHigh,
     gr_valid_from := 900000, gr_status := StatusPending, gr_approval_reference := ''cs-1''\<rparr>"

definition ex_replace :: replace_request where
  "ex_replace = \<lparr>pq_permission = ''tenant.suspend'', pq_scope = ex_tenant_scope, pq_grant_type = TypeStanding,
     pq_valid_from = None, pq_valid_until = None, pq_delegable_depth = 1, pq_conditions = None, pq_reason = ''sooner''\<rparr>"

lemmas ex_issue_defs = ex_issue_def ex_high_issue_def ex_delegation_def ex_future_grant_def ex_replace_def
  ex_grant_def ex_catalogue_defs ex_tenant_scope_def scope_at_def

lemmas plan_eval = plan_issue_def plan_approved_issue_def plan_issue_with_def build_issue_def issued_grant_def
  issue_start_def reason_missing_def unknown_condition_def approval_gate_def effective_risk_def
  plan_delegation_with_def delegated_grant_def outlives_def max_delegation_hops_depth_def minute_ns_def

lemma ex_issue_planned: "\<exists>g. plan_issue ex_catalogue ''usr-root'' ex_issue 1000 = Inr g"
  by (simp add: ex_issue_defs plan_eval grant_eval catalogue_eval scope_eval)

lemma ex_high_issue_planned:
  "\<exists>g. plan_approved_issue ex_catalogue ''usr-root'' ex_high_issue 1000 ''cs-1'' = Inr g \<and>
     gr_valid_from g = 1000 \<and> gr_risk_class g = RiskHigh"
  by (simp add: ex_issue_defs plan_eval grant_eval catalogue_eval scope_eval)

lemma ex_delegation_planned:
  "\<exists>g. plan_delegation_with ex_catalogue ''usr-alice'' ex_grant ex_sources ex_delegation 1000 ex_relations [] = Inr g"
  by (simp add: ex_issue_defs plan_eval grant_eval catalogue_eval scope_eval evaluate_eval)

theorem plan_issue_direct_witness:
  "\<exists>g. plan_issue ex_catalogue ''usr-root'' ex_issue 1000 = Inr g \<and> grant_validate ex_catalogue g = None"
  using ex_issue_planned plan_issue_direct [of ex_catalogue "''usr-root''" ex_issue 1000] by blast

theorem plan_approved_issue_sound_witness:
  "\<exists>g. plan_approved_issue ex_catalogue ''usr-root'' ex_high_issue 1000 ''cs-1'' = Inr g \<and>
     gr_approval_reference g = ''cs-1'' \<and> usable g ex_sources 1000 ex_relations"
proof -
  from ex_high_issue_planned obtain g where
    g: "plan_approved_issue ex_catalogue ''usr-root'' ex_high_issue 1000 ''cs-1'' = Inr g"
    and now: "gr_valid_from g = 1000" and high: "gr_risk_class g = RiskHigh" by blast
  from plan_approved_issue_sound [OF g, of ex_sources ex_relations] g now high show ?thesis by auto
qed

theorem planned_delegation_usable_witness:
  "\<exists>g. plan_delegation_with ex_catalogue ''usr-alice'' ex_grant ex_sources ex_delegation 1000 ex_relations [] = Inr g \<and>
     usable g ex_sources 1000 ex_relations"
proof -
  have src: "ex_sources (gr_grant_id ex_grant) = Some ex_grant"
    and depth: "\<forall>i s. ex_sources i = Some s \<longrightarrow> 0 \<le> gr_delegation_depth s"
    by (auto simp: ex_sources_def ex_grant_def)
  from ex_delegation_planned planned_delegation_usable [OF _ src depth] show ?thesis by blast
qed

text \<open>
  Property (a replacement can bring a HIGH grant forward unapproved). There is a valid PENDING
  grant of HIGH authority, not usable now, whose replacement planned without any approval is
  usable now: \<open>AddsAuthority\<close> compares the ends of the two grants and not their starts.
\<close>

theorem replacement_starts_early:
  "\<exists>c caller old q now rel sources g. grant_validate c old = None \<and> risk_at_least (gr_risk_class old) RiskHigh \<and>
     \<not> usable old sources now rel \<and> plan_replacement c caller old q now rel = Inr g \<and>
     risk_at_least (gr_risk_class g) RiskHigh \<and> gr_approval_reference g = [] \<and> usable g sources now rel"
proof -
  have valid: "grant_validate ex_catalogue ex_future_grant = None"
    by (simp add: ex_issue_defs grant_eval catalogue_eval scope_eval)
  have "\<not> usable ex_future_grant ex_sources 1000 ex_relations"
    by (simp add: usable_def evaluate_eval ex_issue_defs)
  moreover have "\<exists>g. plan_replacement ex_catalogue ''usr-root'' ex_future_grant ex_replace 1000 ex_relations = Inr g \<and>
     risk_at_least (gr_risk_class g) RiskHigh \<and> gr_approval_reference g = [] \<and> usable g ex_sources 1000 ex_relations"
    by (simp add: plan_replacement_def replaceable_def live_def issue_of_replace_def adds_authority_def
      weaker_assurance_def usable_def ex_issue_defs plan_eval grant_eval catalogue_eval scope_eval evaluate_eval
      assurance_eval)
  moreover have "risk_at_least (gr_risk_class ex_future_grant) RiskHigh" by (simp add: ex_future_grant_def)
  ultimately show ?thesis using valid by blast
qed

theorem replacement_never_widens_high_witness:
  "\<exists>g. plan_replacement ex_catalogue ''usr-root'' ex_future_grant ex_replace 1000 ex_relations = Inr g \<and>
     gr_permission g = gr_permission ex_future_grant"
proof -
  have "\<exists>g. plan_replacement ex_catalogue ''usr-root'' ex_future_grant ex_replace 1000 ex_relations = Inr g \<and>
     risk_at_least (gr_risk_class g) RiskHigh"
    by (simp add: plan_replacement_def replaceable_def live_def issue_of_replace_def adds_authority_def
      weaker_assurance_def ex_issue_defs plan_eval grant_eval catalogue_eval scope_eval assurance_eval)
  then show ?thesis using replacement_never_widens_high by blast
qed

end
