(* ===== verification/Admin_Policy.thy ===== *)
theory Admin_Policy
  imports Admin_Administer "HOL-Library.Multiset"
begin

text \<open>
  The policies around administrative grants: separation of duties
  (\<open>internal/administration/sod.go\<close>, with the embedded \<open>separation-of-duties.yaml\<close>), the plan
  checks of grant changes (\<open>changecheck.go\<close>), which permissions grants rather than roles
  decide (\<open>enforcement.go\<close>), and the readiness evidence for moving them (\<open>readiness.go\<close>).

  The lemmas show what the policies guarantee of the parties and the duration of a change,
  that a change whose plan checks all pass can be carried out, that a rollback only returns
  authority to roles, and that readiness fails closed.
\<close>

section \<open>Separation of duties\<close>

record sod_policy =
  sp_id :: string
  sp_change_kinds :: "string list"
  sp_risk_threshold :: risk_class
  sp_actors :: "string list"
  sp_minimum_distinct_actors :: int
  sp_allowed_grant_types :: "grant_type list"
  sp_maximum_duration_hours :: int
  sp_jit_target_hours :: int
  sp_status :: string

record sod =
  sod_policies :: "sod_policy list"
  sod_conflicting :: "string list list"

definition kind_issuance :: string where
  "kind_issuance = ''ADMINISTRATIVE_GRANT_ISSUANCE''"

definition kind_delegation :: string where
  "kind_delegation = ''ADMINISTRATIVE_GRANT_DELEGATION''"

definition applies :: "sod_policy \<Rightarrow> string \<Rightarrow> risk_class \<Rightarrow> bool" where
  "applies p kind risk \<longleftrightarrow> sp_status p = ''ACTIVE'' \<and> kind \<in> set (sp_change_kinds p) \<and>
     risk_at_least risk (sp_risk_threshold p)"

text \<open>The \<open>parties\<close> map, whose other roles read as the empty string.\<close>

definition party :: "string \<Rightarrow> string \<Rightarrow> string \<Rightarrow> string \<Rightarrow> string" where
  "party requester approver grantee role =
    (if role = ''requester'' then requester else if role = ''approver'' then approver
     else if role = ''grantee'' then grantee else [])"

definition known_parties :: "sod_policy \<Rightarrow> (string \<Rightarrow> string) \<Rightarrow> string list" where
  "known_parties p parties = filter (\<lambda>v. v \<noteq> []) (map parties (sp_actors p))"

definition policy_independence ::
  "string \<Rightarrow> risk_class \<Rightarrow> string \<Rightarrow> string \<Rightarrow> string \<Rightarrow> sod_policy \<Rightarrow> refusal option" where
  "policy_independence kind risk requester approver grantee p =
    (if \<not> applies p kind risk \<or> sp_minimum_distinct_actors p = 0 then None
     else if requester \<noteq> [] \<and> requester = grantee then Some CodeSelfApproval
     else if approver \<noteq> [] \<and> (approver = requester \<or> approver = grantee) then Some CodeSelfApproval
     else let known = known_parties p (party requester approver grantee) in
       if length known = length (sp_actors p) \<and> int (length (remdups known)) < sp_minimum_distinct_actors p
       then Some CodeSoDViolation else None)"

definition independence ::
  "sod \<Rightarrow> string \<Rightarrow> risk_class \<Rightarrow> string \<Rightarrow> string \<Rightarrow> string \<Rightarrow> refusal option" where
  "independence s kind risk requester approver grantee =
    first_error (policy_independence kind risk requester approver grantee) (sod_policies s)"

datatype bound_error = TypeNotAllowed string | NeedsEnd string | LastsTooLong string

definition policy_bound ::
  "string \<Rightarrow> risk_class \<Rightarrow> grant_type \<Rightarrow> instant \<Rightarrow> instant option \<Rightarrow> sod_policy \<Rightarrow> bound_error option" where
  "policy_bound kind risk gtype from until p =
    (if \<not> applies p kind risk then None
     else if sp_allowed_grant_types p \<noteq> [] \<and> gtype \<notin> set (sp_allowed_grant_types p) then Some (TypeNotAllowed (sp_id p))
     else if sp_maximum_duration_hours p > 0 then
       (case until of
          None \<Rightarrow> Some (NeedsEnd (sp_id p))
        | Some u \<Rightarrow> if time_sub u from > duration_of (sp_maximum_duration_hours p) hour_ns
                    then Some (LastsTooLong (sp_id p)) else None)
     else None)"

definition grant_bound ::
  "sod \<Rightarrow> string \<Rightarrow> risk_class \<Rightarrow> grant_type \<Rightarrow> instant \<Rightarrow> instant option \<Rightarrow> bound_error option" where
  "grant_bound s kind risk gtype from until = first_error (policy_bound kind risk gtype from until) (sod_policies s)"

definition conflict_in :: "string \<Rightarrow> string list \<Rightarrow> string list \<Rightarrow> string option" where
  "conflict_in key held ps =
    (if key \<notin> set ps then None else find (\<lambda>o'. o' \<noteq> key \<and> o' \<in> set held) ps)"

text \<open>The conflicting permission, or the empty string.\<close>

definition sod_conflict :: "sod \<Rightarrow> string \<Rightarrow> string list \<Rightarrow> string" where
  "sod_conflict s key held =
    (case first_error (conflict_in key held) (sod_conflicting s) of None \<Rightarrow> [] | Some o' \<Rightarrow> o')"

text \<open>The embedded \<open>separation-of-duties.yaml\<close>.\<close>

definition default_sod :: sod where
  "default_sod = \<lparr>sod_policies =
     [\<lparr>sp_id = ''sod-privileged-grant-independent-approval'',
       sp_change_kinds = [kind_issuance, kind_delegation], sp_risk_threshold = RiskHigh,
       sp_actors = [''requester'', ''approver'', ''grantee''], sp_minimum_distinct_actors = 3,
       sp_allowed_grant_types = [], sp_maximum_duration_hours = 0, sp_jit_target_hours = 0, sp_status = ''ACTIVE''\<rparr>,
      \<lparr>sp_id = ''sod-critical-grant-bounded'', sp_change_kinds = [kind_issuance], sp_risk_threshold = RiskCritical,
       sp_actors = [], sp_minimum_distinct_actors = 0, sp_allowed_grant_types = [TypeTimeBound, TypeJustInTime],
       sp_maximum_duration_hours = 24, sp_jit_target_hours = 1, sp_status = ''ACTIVE''\<rparr>],
     sod_conflicting = []\<rparr>"

section \<open>Plan checks of grant changes\<close>

datatype plan_check =
    CheckGranteeActive | CheckRequesterNotGrantee | CheckPermissionGrantable | CheckValidityWindow
  | CheckSoDConflict | CheckNotAlreadyHeld | CheckRequesterHolds | CheckWithinSource | CheckReplacedGrantValid

record issuance_facts =
  if_catalogue :: catalogue
  if_sod :: sod
  if_request :: issue_request
  if_requester :: string
  if_grantee_active :: bool
  if_held :: "grant list"
  if_now :: instant

definition held_permissions :: "grant list \<Rightarrow> instant \<Rightarrow> string list" where
  "held_permissions held now = map gr_permission (filter (\<lambda>g. live g now) held)"

definition grantable_failure :: "catalogue \<Rightarrow> issue_request \<Rightarrow> bool" where
  "grantable_failure c q =
    (case cat_permission c (iq_permission q) of
       None \<Rightarrow> True
     | Some p \<Rightarrow>
         if scope_validate (iq_scope q) \<noteq> None then True
         else if sc_level (iq_scope q) \<notin> set (pm_scope_levels p) then True
         else iq_delegable_depth q > 0 \<and> \<not> pm_delegable p)"

definition window_failure :: "sod \<Rightarrow> issue_request \<Rightarrow> risk_class \<Rightarrow> instant \<Rightarrow> bool" where
  "window_failure s q risk now =
    (let from = (case iq_valid_from q of None \<Rightarrow> now | Some f \<Rightarrow> if f > now then f else now) in
     if (iq_grant_type q = TypeStanding) \<noteq> (iq_valid_until q = None) then True
     else if (case iq_valid_until q of None \<Rightarrow> False | Some u \<Rightarrow> \<not> u > from) then True
     else grant_bound s kind_issuance risk (iq_grant_type q) from (iq_valid_until q) \<noteq> None)"

text \<open>The failed checks; the explanation texts are left out.\<close>

definition issuance_failures :: "issuance_facts \<Rightarrow> plan_check set" where
  "issuance_failures f =
    (let q = if_request f; now = if_now f in
     (if \<not> if_grantee_active f then {CheckGranteeActive} else {}) \<union>
     (if if_requester f = iq_principal_id q then {CheckRequesterNotGrantee} else {}) \<union>
     (if grantable_failure (if_catalogue f) q then {CheckPermissionGrantable} else {}) \<union>
     (case cat_permission (if_catalogue f) (iq_permission q) of
        None \<Rightarrow> {}
      | Some p \<Rightarrow>
          (if window_failure (if_sod f) q (effective_risk p (iq_scope q)) now then {CheckValidityWindow} else {}) \<union>
          (if sod_conflict (if_sod f) (iq_permission q) (held_permissions (if_held f) now) \<noteq> []
           then {CheckSoDConflict} else {})) \<union>
     (if list_ex (\<lambda>g. live g now \<and> gr_permission g = iq_permission q \<and> same_scope (gr_scope g) (iq_scope q)) (if_held f)
      then {CheckNotAlreadyHeld} else {}))"

record delegation_facts =
  df_catalogue :: catalogue
  df_sod :: sod
  df_request :: delegation_request
  df_requester :: string
  df_source :: grant
  df_chain :: "string \<Rightarrow> grant option"
  df_grantee_active :: bool
  df_held :: "grant list"
  df_relations :: relations
  df_now :: instant

definition delegation_failures :: "delegation_facts \<Rightarrow> plan_check set" where
  "delegation_failures f =
    (let q = df_request f in
     (if \<not> df_grantee_active f then {CheckGranteeActive} else {}) \<union>
     (if df_requester f = dq_principal_id q then {CheckRequesterNotGrantee} else {}) \<union>
     (if gr_principal_id (df_source f) \<noteq> df_requester f then {CheckRequesterHolds}
      else case plan_delegation_with (df_catalogue f) (df_requester f) (df_source f) (df_chain f) q (df_now f)
                  (df_relations f) ''plan'' of
        Inr _ \<Rightarrow> {}
      | Inl code \<Rightarrow> if code \<noteq> CodeSelfApproval \<and> code \<noteq> CodeApprovalRequired then {CheckWithinSource} else {}) \<union>
     (if sod_conflict (df_sod f) (dq_permission q) (held_permissions (df_held f) (df_now f)) \<noteq> []
      then {CheckSoDConflict} else {}))"

section \<open>Enforcement\<close>

datatype enforcement_mode = ModeRoleAuthoritative | ModeGrantsEnforced

record enforcement_criteria =
  ec_status :: string
  ec_minimum_observation_days :: int
  ec_minimum_decisions :: int
  ec_maximum_grants_narrower :: int
  ec_maximum_not_evaluated :: int
  ec_maximum_unresolved_or_error :: int

record enforced_scope =
  es_environments :: "string list"
  es_tenants :: "string list"

record enforced_permission =
  ep_permission :: string
  ep_scope :: "enforced_scope option"
  ep_approved_by :: string
  ep_approved_at :: string
  ep_evidence_ref :: string

record enforcement_policy =
  po_criteria :: enforcement_criteria
  po_waves :: "(int \<times> risk_class) list"
  po_critical_enforcement :: string
  po_lift_requires :: "string list"
  po_enforced :: "enforced_permission list"

definition enforcement_complete :: "enforcement_policy \<Rightarrow> bool" where
  "enforcement_complete p \<longleftrightarrow> \<not> (length (po_waves p) \<noteq> 4 \<or> ec_minimum_observation_days (po_criteria p) < 1 \<or>
     ec_minimum_decisions (po_criteria p) < 1)"

definition wave :: "enforcement_policy \<Rightarrow> risk_class \<Rightarrow> int" where
  "wave p risk = (case find (\<lambda>w. snd w = risk) (po_waves p) of None \<Rightarrow> int (length (po_waves p)) | Some w \<Rightarrow> fst w)"

record enforcement =
  en_policy :: "enforcement_policy option"
  en_catalogue :: "catalogue option"
  en_rollback :: "string list"
  en_rollback_all :: bool

fun rollback_keys :: "string list \<Rightarrow> enforcement \<Rightarrow> enforcement" where
  "rollback_keys [] e = e"
| "rollback_keys (k # ks) e =
     (let key = trim_space k in
      rollback_keys ks (if key = [] then e else if key = ''*'' then e\<lparr>en_rollback_all := True\<rparr>
                        else e\<lparr>en_rollback := key # en_rollback e\<rparr>))"

definition new_enforcement ::
  "enforcement_policy option \<Rightarrow> catalogue option \<Rightarrow> string list \<Rightarrow> enforcement" where
  "new_enforcement policy c rollback =
    rollback_keys rollback \<lparr>en_policy = policy, en_catalogue = c, en_rollback = [], en_rollback_all = False\<rparr>"

text \<open>A nil \<open>*Enforcement\<close> is \<open>None\<close>.\<close>

definition enforcement_entry :: "enforcement option \<Rightarrow> string \<Rightarrow> enforced_permission option" where
  "enforcement_entry eo key =
    (case eo of None \<Rightarrow> None | Some e \<Rightarrow>
     (case en_policy e of None \<Rightarrow> None | Some po \<Rightarrow>
     (case en_catalogue e of None \<Rightarrow> None | Some c \<Rightarrow>
       if en_rollback_all e \<or> key \<in> set (en_rollback e) then None
       else if ec_status (po_criteria po) \<noteq> ''APPROVED'' then None
       else case cat_permission c key of
         None \<Rightarrow> None
       | Some p \<Rightarrow>
           if pm_risk_class p = RiskCritical \<and> po_critical_enforcement po \<noteq> ''LIFTED'' then None
           else find (\<lambda>en. ep_permission en = key \<and> ep_approved_by en \<noteq> [] \<and> ep_approved_at en \<noteq> [] \<and>
                           ep_evidence_ref en \<noteq> []) (po_enforced po))))"

definition enforcement_lists :: "enforcement option \<Rightarrow> string \<Rightarrow> bool" where
  "enforcement_lists e key \<longleftrightarrow> enforcement_entry e key \<noteq> None"

definition enforcement_mode_of :: "enforcement option \<Rightarrow> string \<Rightarrow> resource \<Rightarrow> enforcement_mode" where
  "enforcement_mode_of e key r =
    (case enforcement_entry e key of
       None \<Rightarrow> ModeRoleAuthoritative
     | Some en \<Rightarrow>
         (case ep_scope en of
            None \<Rightarrow> ModeGrantsEnforced
          | Some s \<Rightarrow>
              if es_environments s \<noteq> [] \<and> re_environment r \<notin> set (es_environments s) then ModeRoleAuthoritative
              else if es_tenants s \<noteq> [] \<and> re_tenant_id r \<notin> set (es_tenants s) then ModeRoleAuthoritative
              else ModeGrantsEnforced))"

section \<open>Readiness\<close>

record permission_evidence =
  ev_permission :: string
  ev_decisions :: int
  ev_agree :: int
  ev_grants_broader :: int
  ev_grants_narrower :: int
  ev_not_evaluated :: int
  ev_unresolved_or_error :: int
  ev_observed_days :: int
  ev_first_observed_at :: "instant option"
  ev_last_observed_at :: "instant option"

definition zero_evidence :: permission_evidence where
  "zero_evidence = \<lparr>ev_permission = [], ev_decisions = 0, ev_agree = 0, ev_grants_broader = 0,
     ev_grants_narrower = 0, ev_not_evaluated = 0, ev_unresolved_or_error = 0, ev_observed_days = 0,
     ev_first_observed_at = None, ev_last_observed_at = None\<rparr>"

datatype blocker =
    BlockerCriticalProhibited | BlockerCriteriaNotApproved | BlockerNotObserved | BlockerObservationPeriod
  | BlockerDecisions | BlockerGrantsBroader | BlockerGrantsNarrower | BlockerNotEvaluated | BlockerUnresolvedOrError

text \<open>The counts a row copies field by field are kept together as \<open>pr_evidence\<close>.\<close>

record permission_readiness =
  pr_permission :: string
  pr_risk_class :: risk_class
  pr_wave :: int
  pr_enforcement :: enforcement_mode
  pr_evidence :: permission_evidence
  pr_ready :: bool
  pr_blockers :: "blocker list"

record migration_readiness =
  mr_generated_at :: instant
  mr_criteria :: enforcement_criteria
  mr_permissions :: "permission_readiness list"

definition readiness_blockers :: "enforcement_policy \<Rightarrow> permission \<Rightarrow> permission_evidence \<Rightarrow> blocker list" where
  "readiness_blockers po p ev =
    (let c = po_criteria po in
     (if pm_risk_class p = RiskCritical \<and> po_critical_enforcement po \<noteq> ''LIFTED'' then [BlockerCriticalProhibited] else []) @
     (if ec_status c \<noteq> ''APPROVED'' then [BlockerCriteriaNotApproved] else []) @
     (if ev_decisions ev = 0 then [BlockerNotObserved]
      else (if ev_observed_days ev < ec_minimum_observation_days c then [BlockerObservationPeriod] else []) @
           (if ev_decisions ev < ec_minimum_decisions c then [BlockerDecisions] else []) @
           (if ev_grants_broader ev > 0 then [BlockerGrantsBroader] else []) @
           (if ev_grants_narrower ev > ec_maximum_grants_narrower c then [BlockerGrantsNarrower] else []) @
           (if ev_not_evaluated ev > ec_maximum_not_evaluated c then [BlockerNotEvaluated] else []) @
           (if ev_unresolved_or_error ev > ec_maximum_unresolved_or_error c then [BlockerUnresolvedOrError] else [])))"

text \<open>\<open>byPermission\<close>: the last evidence row of a permission wins.\<close>

definition evidence_of :: "permission_evidence list \<Rightarrow> string \<Rightarrow> permission_evidence" where
  "evidence_of evs key = map_read zero_evidence (map_of (map (\<lambda>ev. (ev_permission ev, ev)) (rev evs))) key"

definition readiness_row ::
  "enforcement_policy \<Rightarrow> enforcement option \<Rightarrow> permission_evidence list \<Rightarrow> permission \<Rightarrow> permission_readiness" where
  "readiness_row po e evs p =
    (let ev = evidence_of evs (pm_key p); bs = readiness_blockers po p ev in
     \<lparr>pr_permission = pm_key p, pr_risk_class = pm_risk_class p, pr_wave = wave po (pm_risk_class p),
      pr_enforcement = (if enforcement_lists e (pm_key p) then ModeGrantsEnforced else ModeRoleAuthoritative),
      pr_evidence = ev, pr_ready = (bs = []), pr_blockers = bs\<rparr>)"

definition readiness ::
  "enforcement_policy \<Rightarrow> catalogue \<Rightarrow> enforcement option \<Rightarrow> permission_evidence list \<Rightarrow> instant \<Rightarrow> migration_readiness" where
  "readiness po c e evs now =
    \<lparr>mr_generated_at = now, mr_criteria = po_criteria po,
     mr_permissions = sort_key (\<lambda>r. (pr_wave r, pr_permission r))
       (map (readiness_row po e evs) (cat_permissions_sorted c))\<rparr>"

section \<open>What the separation of duties guarantees\<close>

lemma policy_independence_None:
  assumes "policy_independence kind risk requester approver grantee p = None"
    and "applies p kind risk" and "sp_minimum_distinct_actors p \<noteq> 0"
  shows "(requester \<noteq> [] \<longrightarrow> requester \<noteq> grantee) \<and> (approver \<noteq> [] \<longrightarrow> approver \<noteq> requester \<and> approver \<noteq> grantee) \<and>
    ([] \<notin> party requester approver grantee ` set (sp_actors p) \<longrightarrow>
      sp_minimum_distinct_actors p \<le> int (card (party requester approver grantee ` set (sp_actors p))))"
proof -
  let ?pt = "party requester approver grantee"
  have "sp_minimum_distinct_actors p \<le> int (card (?pt ` set (sp_actors p)))" if "[] \<notin> ?pt ` set (sp_actors p)"
  proof -
    from that have "known_parties p ?pt = map ?pt (sp_actors p)"
      by (auto simp: known_parties_def filter_id_conv image_iff)
    with assms show ?thesis
      by (simp add: policy_independence_def length_remdups_card_conv split: if_splits)
  qed
  with assms show ?thesis by (auto simp: policy_independence_def split: if_splits)
qed

text \<open>
  Property (the parties to a privileged change are independent). When \<open>Independence\<close> finds nothing
  against the parties of a change, every active policy that applies to its kind and risk and
  asks for distinct actors is kept: nobody requests authority for themselves, an approver is
  neither the requester nor the grantee, and once all the policy's actors are known at least
  its minimum number of different principals are among them.
\<close>

theorem independence_kept:
  assumes "independence s kind risk requester approver grantee = None"
    and "p \<in> set (sod_policies s)" and "applies p kind risk" and "sp_minimum_distinct_actors p \<noteq> 0"
  shows "(requester \<noteq> [] \<longrightarrow> requester \<noteq> grantee) \<and> (approver \<noteq> [] \<longrightarrow> approver \<noteq> requester \<and> approver \<noteq> grantee) \<and>
    ([] \<notin> party requester approver grantee ` set (sp_actors p) \<longrightarrow>
      sp_minimum_distinct_actors p \<le> int (card (party requester approver grantee ` set (sp_actors p))))"
  using assms by (intro policy_independence_None) (auto simp: independence_def first_error_None_iff)

lemma grant_bound_within:
  assumes "grant_bound s kind risk gtype from until = None" and "p \<in> set (sod_policies s)" and "applies p kind risk"
    and "0 < sp_maximum_duration_hours p" and "sp_maximum_duration_hours p \<le> 1000000"
  shows "\<exists>u. until = Some u \<and> u - from \<le> sp_maximum_duration_hours p * hour_ns"
proof -
  let ?d = "sp_maximum_duration_hours p * hour_ns"
  from assms(4,5) have range: "min_duration \<le> ?d" "?d < max_duration"
    by (simp_all add: hour_ns_def second_ns_def min_duration_def max_duration_def)
  from assms(1,2) have "policy_bound kind risk gtype from until p = None" by (simp add: grant_bound_def first_error_None_iff)
  with assms(3,4) obtain u where "until = Some u" and "time_sub u from \<le> duration_of (sp_maximum_duration_hours p) hour_ns"
    by (auto simp: policy_bound_def split: if_splits option.splits)
  moreover from range have "duration_of (sp_maximum_duration_hours p) hour_ns = ?d"
    by (simp add: duration_of_def wrap64_id)
  ultimately show ?thesis using time_sub_le [OF range(2)] by auto
qed

text \<open>
  Property (the embedded policies). Under the embedded separation-of-duties document, the requester,
  the approver and the grantee of a HIGH or CRITICAL grant change are three different
  principals, and a CRITICAL issuance within its bounds is never STANDING and lasts at most 24
  hours.
\<close>

theorem default_sod_bounds:
  assumes "independence default_sod kind risk requester approver grantee = None"
    and "kind \<in> {kind_issuance, kind_delegation}" and "risk_at_least risk RiskHigh"
    and "requester \<noteq> []" and "approver \<noteq> []"
    and "grant_bound default_sod kind_issuance RiskCritical gtype from until = None"
  shows "distinct [requester, approver, grantee] \<and> gtype \<in> {TypeTimeBound, TypeJustInTime} \<and>
    (\<exists>u. until = Some u \<and> u - from \<le> 24 * hour_ns)"
proof (intro conjI)
  let ?first = "sod_policies default_sod ! 0" and ?second = "sod_policies default_sod ! 1"
  have members: "?first \<in> set (sod_policies default_sod)" "?second \<in> set (sod_policies default_sod)"
    by (simp_all add: default_sod_def)
  have first: "applies ?first kind risk" "sp_minimum_distinct_actors ?first \<noteq> 0"
    using assms(2,3) by (auto simp: applies_def default_sod_def)
  have second: "applies ?second kind_issuance RiskCritical" "sp_maximum_duration_hours ?second = 24"
    by (simp_all add: applies_def default_sod_def)
  show "distinct [requester, approver, grantee]"
    using policy_independence_None [OF _ first, of requester approver grantee] assms(1,4,5) members(1)
    by (auto simp: independence_def first_error_None_iff)
  show "\<exists>u. until = Some u \<and> u - from \<le> 24 * hour_ns"
    using grant_bound_within [OF assms(6) members(2) second(1)] second(2) by simp
  from assms(6) members(2) have "policy_bound kind_issuance RiskCritical gtype from until ?second = None"
    by (simp add: grant_bound_def first_error_None_iff)
  with second(1) show "gtype \<in> {TypeTimeBound, TypeJustInTime}"
    by (auto simp: policy_bound_def default_sod_def split: if_splits)
qed

section \<open>A change whose checks pass can be carried out\<close>

lemma union_checks_empty: "(if b then {x} else {}) = {} \<longleftrightarrow> \<not> b"
  by simp

lemma issuance_failures_empty:
  assumes "issuance_failures f = {}"
  obtains p where "cat_permission (if_catalogue f) (iq_permission (if_request f)) = Some p"
    and "if_requester f \<noteq> iq_principal_id (if_request f)"
    and "scope_validate (iq_scope (if_request f)) = None"
    and "sc_level (iq_scope (if_request f)) \<in> set (pm_scope_levels p)"
    and "iq_delegable_depth (if_request f) > 0 \<longrightarrow> pm_delegable p"
    and "\<not> window_failure (if_sod f) (if_request f) (effective_risk p (iq_scope (if_request f))) (if_now f)"
proof -
  from assms have ne: "if_requester f \<noteq> iq_principal_id (if_request f)"
    and ok: "\<not> grantable_failure (if_catalogue f) (if_request f)"
    by (simp_all only: issuance_failures_def Let_def Un_empty union_checks_empty) auto
  from ok obtain p where p: "cat_permission (if_catalogue f) (iq_permission (if_request f)) = Some p"
    and rest: "scope_validate (iq_scope (if_request f)) = None"
      "sc_level (iq_scope (if_request f)) \<in> set (pm_scope_levels p)"
      "iq_delegable_depth (if_request f) > 0 \<longrightarrow> pm_delegable p"
    by (auto simp: grantable_failure_def split: option.splits if_splits)
  from assms p have "\<not> window_failure (if_sod f) (if_request f) (effective_risk p (iq_scope (if_request f))) (if_now f)"
    by (auto simp: issuance_failures_def Let_def split: if_splits)
  with p ne rest show ?thesis by (intro that)
qed

lemma issued_grant_valid:
  assumes "catalogue_ok c" and "cat_permission c (iq_permission q) = Some p"
    and "principal_id (iq_principal_id q)" and "principal_id caller" and "caller \<noteq> iq_principal_id q"
    and "scope_validate (iq_scope q) = None" and "sc_level (iq_scope q) \<in> set (pm_scope_levels p)"
    and "0 \<le> iq_delegable_depth q" and "iq_delegable_depth q \<le> 2" and "iq_delegable_depth q > 0 \<longrightarrow> pm_delegable p"
    and "grant_window_error (issued_grant p caller q now) = None" and "iq_reason q \<noteq> []"
  shows "grant_validate c (issued_grant p caller q now) = None"
proof -
  from catalogue_ok_permission [OF assms(1,2)] have "risk_valid (pm_risk_class p)" by (simp add: permission_ok_def)
  then have "risk_at_least (effective_risk p (iq_scope q)) (pm_risk_class p)" and "risk_valid (effective_risk p (iq_scope q))"
    using effective_risk_raises by (blast, simp add: effective_risk_def risk_valid_def)
  moreover have "grant_profile_error c (issued_grant p caller q now) = None"
    and "grant_source_error (issued_grant p caller q now) = None"
    and "grant_delegation_error p (issued_grant p caller q now) = None"
    using assms(8-10)
    by (auto simp: grant_profile_error_def grant_source_error_def grant_delegation_error_def issued_grant_def)
  ultimately show ?thesis
    using assms by (simp add: grant_validate_None) (simp add: issued_grant_def)
qed

text \<open>
  Property (an issuance whose plan checks pass can be issued). For a loaded catalogue, canonical
  principal ids, a stated reason, a known grant type and assurance level and a delegation depth in
  range, a request with no failed plan check is turned into a grant by \<open>PlanApprovedIssue\<close>
  whatever its risk.
\<close>

theorem passed_issuance_is_issuable:
  assumes "issuance_failures f = {}" and "catalogue_ok (if_catalogue f)"
    and "principal_id (iq_principal_id (if_request f))" and "principal_id (if_requester f)"
    and "\<not> reason_missing (iq_reason (if_request f))" and "\<not> unknown_condition (iq_conditions (if_request f))"
    and "iq_grant_type (if_request f) \<in> {TypeStanding, TypeTimeBound, TypeJustInTime}"
    and "0 \<le> iq_delegable_depth (if_request f)" and "iq_delegable_depth (if_request f) \<le> 2" and "approval \<noteq> []"
  shows "\<exists>g. plan_approved_issue (if_catalogue f) (if_requester f) (if_request f) (if_now f) approval = Inr g"
  using assms(1)
proof (rule issuance_failures_empty)
  fix p
  let ?q = "if_request f" and ?now = "if_now f"
  let ?r = "case iq_valid_from ?q of None \<Rightarrow> ?q | Some t \<Rightarrow> if t < ?now then ?q\<lparr>iq_valid_from := None\<rparr> else ?q"
  assume p: "cat_permission (if_catalogue f) (iq_permission ?q) = Some p" "if_requester f \<noteq> iq_principal_id ?q"
    "scope_validate (iq_scope ?q) = None" "sc_level (iq_scope ?q) \<in> set (pm_scope_levels p)"
    "iq_delegable_depth ?q > 0 \<longrightarrow> pm_delegable p"
    and win: "\<not> window_failure (if_sod f) ?q (effective_risk p (iq_scope ?q)) ?now"
  have same: "iq_principal_id ?r = iq_principal_id ?q" "iq_permission ?r = iq_permission ?q" "iq_scope ?r = iq_scope ?q"
    "iq_delegable_depth ?r = iq_delegable_depth ?q" "iq_reason ?r = iq_reason ?q" "iq_conditions ?r = iq_conditions ?q"
    by (auto split: option.splits)
  have reason: "iq_reason ?q \<noteq> []" using assms(5) by (auto simp: reason_missing_def trim_space_def)
  have "grant_window_error (issued_grant p (if_requester f) ?r ?now) = None"
    using win assms(7)
    by (cases "iq_valid_from ?q"; cases "iq_valid_until ?q")
      (auto simp: window_failure_def grant_window_error_def issued_grant_def issue_start_def Let_def split: if_splits)
  then have "grant_validate (if_catalogue f) (issued_grant p (if_requester f) ?r ?now) = None"
    using assms p reason by (intro issued_grant_valid) (simp_all only: same simp_thms)
  then have "build_issue (if_catalogue f) (if_requester f) ?r ?now = Inr (issued_grant p (if_requester f) ?r ?now)"
    using assms p approved_issue_start [of ?now ?q] unfolding build_issue_def same
    by (auto simp: minute_ns_def second_ns_def)
  with assms(10) show ?thesis
    unfolding plan_approved_issue_def plan_issue_with_def approval_gate_def by (simp add: Let_def)
qed

lemma approval_gate_ex: "(\<exists>g. approval_gate a d = Inr g) \<longleftrightarrow> a \<noteq> [] \<or> \<not> risk_at_least (gr_risk_class d) RiskHigh"
  by (simp add: approval_gate_def)

lemma plan_delegation_approval_irrelevant:
  assumes "plan_delegation_with c caller source sources q now rel a = Inr g" and "b \<noteq> []"
  shows "\<exists>h. plan_delegation_with c caller source sources q now rel b = Inr h"
proof -
  from assms(1) obtain p where "approval_gate a (delegated_grant p caller source q now) = Inr g"
    and "\<And>b h. approval_gate b (delegated_grant p caller source q now) = Inr h \<Longrightarrow>
      plan_delegation_with c caller source sources q now rel b = Inr h"
    by (simp only: plan_delegation_with_def result_simps) auto
  moreover obtain h where "approval_gate b (delegated_grant p caller source q now) = Inr h"
    using approval_gate_ex assms(2) by blast
  ultimately show ?thesis by blast
qed

lemma plan_delegation_Inl:
  assumes "plan_delegation_with c caller source sources q now rel a = Inl e"
    and "e \<in> {CodeSelfApproval, CodeApprovalRequired}"
  shows "dq_principal_id q = caller \<or> a = []"
  using assms by (auto simp: plan_delegation_with_def approval_gate_def split: if_splits option.splits)

text \<open>
  Property (a delegation whose plan checks pass can be made). A delegation request with no failed
  plan check is turned into a grant by \<open>PlanApprovedDelegation\<close>, and the delegate is not the
  requester.
\<close>

theorem passed_delegation_is_delegable:
  assumes "delegation_failures f = {}" and "approval \<noteq> []"
  shows "df_requester f \<noteq> dq_principal_id (df_request f) \<and>
    (\<exists>g. plan_approved_delegation (df_catalogue f) (df_requester f) (df_source f) (df_chain f) (df_request f)
       (df_now f) (df_relations f) approval = Inr g)"
proof -
  let ?plan = "plan_delegation_with (df_catalogue f) (df_requester f) (df_source f) (df_chain f) (df_request f)
       (df_now f) (df_relations f)"
  from assms(1) have ne: "df_requester f \<noteq> dq_principal_id (df_request f)"
    by (auto simp: delegation_failures_def Let_def split: if_splits)
  have "\<exists>g. ?plan ''plan'' = Inr g"
  proof (cases "?plan ''plan''")
    case (Inl e)
    with assms(1) have "e \<in> {CodeSelfApproval, CodeApprovalRequired}"
      by (auto simp: delegation_failures_def Let_def split: if_splits)
    from plan_delegation_Inl [OF Inl this] ne show ?thesis by simp
  qed simp
  then obtain g where "?plan ''plan'' = Inr g" ..
  from plan_delegation_approval_irrelevant [OF this assms(2)] ne assms(2) show ?thesis
    by (simp add: plan_approved_delegation_def)
qed

section \<open>Enforcement and readiness\<close>

lemma rollback_keys_facts:
  "en_policy (rollback_keys ks e) = en_policy e \<and> en_catalogue (rollback_keys ks e) = en_catalogue e \<and>
   set (en_rollback (rollback_keys ks e)) = set (en_rollback e) \<union> (trim_space ` set ks - {[], ''*''}) \<and>
   (en_rollback_all (rollback_keys ks e) \<longleftrightarrow> en_rollback_all e \<or> ''*'' \<in> trim_space ` set ks)"
  by (induction ks arbitrary: e) (auto simp: Let_def)

lemma new_enforcement_entry:
  "enforcement_entry (Some (new_enforcement po c ks)) key =
    (if ''*'' \<in> trim_space ` set ks \<or> key \<in> trim_space ` set ks - {[], ''*''} then None
     else enforcement_entry (Some (new_enforcement po c [])) key)"
  unfolding enforcement_entry_def new_enforcement_def
  by (simp add: rollback_keys_facts cong: option.case_cong) (simp split: option.splits)

lemma enforcement_entry_Some:
  assumes "enforcement_entry (Some (new_enforcement po c ks)) key = Some en"
  shows "\<exists>policy cat p. po = Some policy \<and> c = Some cat \<and> ec_status (po_criteria policy) = ''APPROVED'' \<and>
    cat_permission cat key = Some p \<and> (pm_risk_class p = RiskCritical \<longrightarrow> po_critical_enforcement policy = ''LIFTED'') \<and>
    en \<in> set (po_enforced policy) \<and> ep_permission en = key \<and> ep_approved_by en \<noteq> [] \<and> ep_evidence_ref en \<noteq> []"
  using assms
  by (auto simp: enforcement_entry_def new_enforcement_def rollback_keys_facts find_Some_iff
    split: option.splits if_splits)

text \<open>
  Property (enforcement comes from the policy alone and a rollback only gives back to roles). When
  grants decide a permission under a rollback list, they decide it under every shorter list
  too, the list names neither the permission nor the star, and the policy is approved and holds
  an entry for that registered permission with its approver and evidence; a CRITICAL permission
  is decided by grants only when its prohibition is lifted.
\<close>

theorem rollback_only_returns_to_roles:
  assumes "enforcement_mode_of (Some (new_enforcement po c ks)) key r = ModeGrantsEnforced"
    and "set ks' \<subseteq> set ks"
  shows "enforcement_mode_of (Some (new_enforcement po c ks')) key r = ModeGrantsEnforced \<and>
    ''*'' \<notin> trim_space ` set ks \<and> (key \<noteq> [] \<longrightarrow> key \<notin> trim_space ` set ks) \<and>
    (\<exists>policy cat p en. po = Some policy \<and> c = Some cat \<and> ec_status (po_criteria policy) = ''APPROVED'' \<and>
      cat_permission cat key = Some p \<and> (pm_risk_class p = RiskCritical \<longrightarrow> po_critical_enforcement policy = ''LIFTED'') \<and>
      en \<in> set (po_enforced policy) \<and> ep_permission en = key \<and> ep_approved_by en \<noteq> [] \<and> ep_evidence_ref en \<noteq> [])"
proof -
  from assms(1) obtain en where en: "enforcement_entry (Some (new_enforcement po c ks)) key = Some en"
    by (auto simp: enforcement_mode_of_def split: option.splits)
  then have star: "''*'' \<notin> trim_space ` set ks" and key: "key \<notin> trim_space ` set ks - {[], ''*''}"
    by (auto simp: new_enforcement_entry [of po c ks] split: if_splits)
  with assms(2) have "''*'' \<notin> trim_space ` set ks'" "key \<notin> trim_space ` set ks' - {[], ''*''}" by blast+
  moreover from en star key have "enforcement_entry (Some (new_enforcement po c [])) key = Some en"
    by (subst (asm) new_enforcement_entry) (simp only: simp_thms if_False)
  ultimately have "enforcement_entry (Some (new_enforcement po c ks')) key = Some en"
    by (subst new_enforcement_entry) (simp only: simp_thms if_False)
  with assms(1) en have "enforcement_mode_of (Some (new_enforcement po c ks')) key r = ModeGrantsEnforced"
    by (simp add: enforcement_mode_of_def)
  moreover from star key have "key \<noteq> [] \<longrightarrow> key \<notin> trim_space ` set ks" by (cases "key = ''*''") (simp, force)
  ultimately show ?thesis using star enforcement_entry_Some [OF en] by blast
qed

lemma readiness_blockers_Nil:
  "readiness_blockers po p ev = [] \<longleftrightarrow>
     (pm_risk_class p = RiskCritical \<longrightarrow> po_critical_enforcement po = ''LIFTED'') \<and>
     ec_status (po_criteria po) = ''APPROVED'' \<and> ev_decisions ev \<noteq> 0 \<and>
     ec_minimum_observation_days (po_criteria po) \<le> ev_observed_days ev \<and>
     ec_minimum_decisions (po_criteria po) \<le> ev_decisions ev \<and> ev_grants_broader ev \<le> 0 \<and>
     ev_grants_narrower ev \<le> ec_maximum_grants_narrower (po_criteria po) \<and>
     ev_not_evaluated ev \<le> ec_maximum_not_evaluated (po_criteria po) \<and>
     ev_unresolved_or_error ev \<le> ec_maximum_unresolved_or_error (po_criteria po)"
  by (simp add: readiness_blockers_def Let_def linorder_not_less)

text \<open>
  Property (readiness fails closed). The report has one row per registered permission, ordered by
  wave; a row is ready exactly when the criteria are approved, the permission was observed long
  and often enough, grants were never broader than roles and every tolerance is kept, and a
  CRITICAL permission is not ready while its prohibition stands.
\<close>

theorem readiness_fails_closed:
  "mset (map pr_permission (mr_permissions (readiness po c e evs now))) = mset (map pm_key (cat_permissions_sorted c)) \<and>
   sorted (map pr_wave (mr_permissions (readiness po c e evs now))) \<and>
   pr_ready (readiness_row po e evs p) =
     ((pm_risk_class p = RiskCritical \<longrightarrow> po_critical_enforcement po = ''LIFTED'') \<and>
      ec_status (po_criteria po) = ''APPROVED'' \<and> ev_decisions (evidence_of evs (pm_key p)) \<noteq> 0 \<and>
      ec_minimum_observation_days (po_criteria po) \<le> ev_observed_days (evidence_of evs (pm_key p)) \<and>
      ec_minimum_decisions (po_criteria po) \<le> ev_decisions (evidence_of evs (pm_key p)) \<and>
      ev_grants_broader (evidence_of evs (pm_key p)) \<le> 0 \<and>
      ev_grants_narrower (evidence_of evs (pm_key p)) \<le> ec_maximum_grants_narrower (po_criteria po) \<and>
      ev_not_evaluated (evidence_of evs (pm_key p)) \<le> ec_maximum_not_evaluated (po_criteria po) \<and>
      ev_unresolved_or_error (evidence_of evs (pm_key p)) \<le> ec_maximum_unresolved_or_error (po_criteria po))"
proof (intro conjI)
  let ?rows = "map (readiness_row po e evs) (cat_permissions_sorted c)"
  have keys: "map pr_permission ?rows = map pm_key (cat_permissions_sorted c)"
    by (simp add: readiness_row_def Let_def)
  have "mset (map pr_permission (mr_permissions (readiness po c e evs now))) = mset (map pr_permission ?rows)"
    by (simp add: readiness_def multiset.map_comp)
  then show "mset (map pr_permission (mr_permissions (readiness po c e evs now))) = mset (map pm_key (cat_permissions_sorted c))"
    by (simp only: keys)
  have "sorted (map (\<lambda>r. (pr_wave r, pr_permission r)) (mr_permissions (readiness po c e evs now)))"
    by (simp add: readiness_def)
  then show "sorted (map pr_wave (mr_permissions (readiness po c e evs now)))"
    by (simp add: sorted_map) (erule sorted_wrt_mono_rel [rotated], auto simp: less_eq_prod_def)
qed (simp add: readiness_row_def Let_def readiness_blockers_Nil)

section \<open>Witnesses\<close>

lemmas sod_eval = independence_def policy_independence_def known_parties_def party_def applies_def grant_bound_def
  policy_bound_def default_sod_def kind_issuance_def kind_delegation_def risk_at_least_def

lemma ex_independent:
  "independence default_sod kind_issuance RiskHigh ''usr-alice'' ''usr-carol'' ''usr-bob'' = None"
  by (simp add: sod_eval)

lemma ex_bounded:
  "grant_bound default_sod kind_issuance RiskCritical TypeJustInTime 0 (Some hour_ns) = None"
  by (simp add: sod_eval time_sub_def duration_of_def wrap64_id hour_ns_def second_ns_def min_duration_def max_duration_def)

theorem independence_kept_witness:
  "applies (sod_policies default_sod ! 0) kind_issuance RiskHigh \<and>
   3 \<le> int (card (party ''usr-alice'' ''usr-carol'' ''usr-bob'' ` {''requester'', ''approver'', ''grantee''}))"
proof -
  let ?p = "sod_policies default_sod ! 0"
  have p: "?p \<in> set (sod_policies default_sod)" "applies ?p kind_issuance RiskHigh" "sp_minimum_distinct_actors ?p \<noteq> 0"
    and facts: "sp_minimum_distinct_actors ?p = 3" "set (sp_actors ?p) = {''requester'', ''approver'', ''grantee''}"
    by (simp_all add: sod_eval)
  have "[] \<notin> party ''usr-alice'' ''usr-carol'' ''usr-bob'' ` set (sp_actors ?p)" by (simp add: facts(2) party_def)
  with independence_kept [OF ex_independent p] p(2) facts show ?thesis by simp
qed

theorem default_sod_bounds_witness:
  "distinct [''usr-alice'', ''usr-carol'', ''usr-bob''] \<and> (\<exists>u. Some hour_ns = Some u \<and> u - 0 \<le> 24 * hour_ns)"
  using default_sod_bounds [OF ex_independent _ _ _ _ ex_bounded] by (simp add: risk_at_least_def)

definition ex_issuance_facts :: issuance_facts where
  "ex_issuance_facts = \<lparr>if_catalogue = ex_catalogue, if_sod = default_sod, if_request = ex_high_issue,
     if_requester = ''usr-root'', if_grantee_active = True, if_held = [ex_grant], if_now = 1000\<rparr>"

definition ex_delegation_facts :: delegation_facts where
  "ex_delegation_facts = \<lparr>df_catalogue = ex_catalogue, df_sod = default_sod, df_request = ex_delegation,
     df_requester = ''usr-alice'', df_source = ex_grant, df_chain = ex_sources, df_grantee_active = True,
     df_held = [], df_relations = ex_relations, df_now = 1000\<rparr>"

lemma ex_catalogue_ok: "catalogue_ok ex_catalogue"
  by (rule parse_catalogue_cases(1) [OF ex_catalogue_parses])

lemma ex_issuance_passes: "issuance_failures ex_issuance_facts = {}"
  by (simp add: issuance_failures_def ex_issuance_facts_def grantable_failure_def window_failure_def sod_conflict_def
    held_permissions_def live_def same_scope_def effective_risk_def sod_eval ex_issue_defs catalogue_eval scope_eval)

theorem passed_issuance_is_issuable_witness:
  "\<exists>g. plan_approved_issue ex_catalogue ''usr-root'' ex_high_issue 1000 ''cs-1'' = Inr g"
proof -
  have "principal_id (iq_principal_id ex_high_issue)" "principal_id ''usr-root''" "\<not> reason_missing (iq_reason ex_high_issue)"
    "\<not> unknown_condition (iq_conditions ex_high_issue)" "0 \<le> iq_delegable_depth ex_high_issue"
    "iq_delegable_depth ex_high_issue \<le> 2" "iq_grant_type ex_high_issue = TypeStanding"
    by (simp_all add: ex_issue_defs principal_id_def is_alnum_def reason_missing_def unknown_condition_def go_simps)
  with passed_issuance_is_issuable [OF ex_issuance_passes, of "''cs-1''"] ex_catalogue_ok show ?thesis
    by (simp add: ex_issuance_facts_def)
qed

lemma ex_delegation_passes: "delegation_failures ex_delegation_facts = {}"
proof -
  from ex_delegation_planned plan_delegation_approval_irrelevant [where b = "''plan''"] obtain g where
    "plan_delegation_with ex_catalogue ''usr-alice'' ex_grant ex_sources ex_delegation 1000 ex_relations ''plan'' = Inr g"
    by blast
  then show ?thesis
    by (simp add: delegation_failures_def ex_delegation_facts_def sod_conflict_def default_sod_def)
      (simp add: ex_delegation_def ex_grant_def)
qed

theorem passed_delegation_is_delegable_witness:
  "\<exists>g. plan_approved_delegation ex_catalogue ''usr-alice'' ex_grant ex_sources ex_delegation 1000 ex_relations ''cs-2'' = Inr g"
  using passed_delegation_is_delegable [OF ex_delegation_passes, of "''cs-2''"] by (simp add: ex_delegation_facts_def)

definition ex_enforcement_policy :: enforcement_policy where
  "ex_enforcement_policy = \<lparr>po_criteria = \<lparr>ec_status = ''APPROVED'', ec_minimum_observation_days = 14,
     ec_minimum_decisions = 100, ec_maximum_grants_narrower = 0, ec_maximum_not_evaluated = 0,
     ec_maximum_unresolved_or_error = 0\<rparr>,
     po_waves = [(1, RiskLow), (2, RiskModerate), (3, RiskHigh), (4, RiskCritical)],
     po_critical_enforcement = ''PROHIBITED'', po_lift_requires = [],
     po_enforced = [\<lparr>ep_permission = ''tenant.read'', ep_scope = None, ep_approved_by = ''usr-root'',
       ep_approved_at = ''2026-10-01'', ep_evidence_ref = ''ev-1''\<rparr>]\<rparr>"

theorem rollback_only_returns_to_roles_witness:
  "enforcement_mode_of (Some (new_enforcement (Some ex_enforcement_policy) (Some ex_catalogue) []))
     ''tenant.read'' ex_tenant_resource = ModeGrantsEnforced \<and> ''*'' \<notin> trim_space ` set ['' tenant.suspend '']"
proof -
  have "enforcement_mode_of (Some (new_enforcement (Some ex_enforcement_policy) (Some ex_catalogue) ['' tenant.suspend '']))
     ''tenant.read'' ex_tenant_resource = ModeGrantsEnforced"
    by (simp add: enforcement_mode_of_def enforcement_entry_def new_enforcement_def ex_enforcement_policy_def
      ex_catalogue_defs cat_permission_def Let_def go_simps)
  from rollback_only_returns_to_roles [OF this, of "[]"] show ?thesis by simp
qed

theorem readiness_fails_closed_witness:
  "pr_ready (readiness_row ex_enforcement_policy None [] ex_permission) = False"
proof -
  have "ev_decisions (evidence_of [] (pm_key ex_permission)) = 0" by (simp add: evidence_of_def zero_evidence_def)
  with readiness_fails_closed [of ex_enforcement_policy ex_catalogue None "[]" 0 ex_permission] show ?thesis by blast
qed

end
