(* ===== verification/Changeset_Plan.thy ===== *)
theory Changeset_Plan
  imports Changeset_Lifecycle Domain_Ids Admin_Policy
begin

text \<open>
  Changesets and their plans (\<open>internal/changeset/changeset.go\<close>, \<open>planner.go\<close>): drafting a
  desired change, validating it against its target, generating the plan and the digests that
  bind it, and when a plan is stale.

  Findings are modelled by their code; the prose of messages, summaries and strategies is left
  out, as no decision reads it. The embedded permission catalogue is an argument \<open>cat\<close>. The
  digest (SHA-256 of the JSON rendering) is an argument \<open>digest\<close> on the structure that is
  rendered; theorems that compare digests name the absence of a collision as a hypothesis.
\<close>

section \<open>The aggregate\<close>

record desired_change =
  dc_kind :: change_kind
  dc_tenant_id :: string
  dc_market_id :: string
  dc_mapping_id :: string
  dc_provider_id :: string
  dc_engine_instance_id :: string
  dc_release_id :: string
  dc_principal_id :: string
  dc_permission :: string
  dc_scope :: "scope option"
  dc_grant_type :: grant_type
  dc_valid_from :: "instant option"
  dc_valid_until :: "instant option"
  dc_delegable_depth :: int
  dc_conditions :: "conditions option"
  dc_source_grant_id :: string
  dc_replaces_grant_id :: string

definition target_type_of :: "desired_change \<Rightarrow> target_type" where
  "target_type_of d = kind_target (dc_kind d)"

definition target_id_of :: "desired_change \<Rightarrow> string" where
  "target_id_of d =
    (case target_type_of d of
       TargetMarket \<Rightarrow> dc_market_id d
     | TargetMapping \<Rightarrow> dc_mapping_id d
     | TargetProvider \<Rightarrow> dc_provider_id d
     | TargetRelease \<Rightarrow> dc_release_id d
     | TargetInstance \<Rightarrow> dc_engine_instance_id d
     | TargetAdminPrincipal \<Rightarrow> dc_principal_id d
     | TargetAdminGrant \<Rightarrow> dc_source_grant_id d
     | _ \<Rightarrow> dc_tenant_id d)"

record create_request =
  cr_title :: string
  cr_description :: string
  cr_reason :: string
  cr_business_justification :: string
  cr_desired_change :: desired_change

record plan_reference =
  rf_plan_id :: string
  rf_plan_version :: int
  rf_plan_digest :: string

type_synonym finding = string

definition block_target_not_found :: finding where
  "block_target_not_found = ''CHANGESET_TARGET_NOT_FOUND''"

definition block_target_state_conflict :: finding where
  "block_target_state_conflict = ''CHANGESET_TARGET_STATE_CONFLICT''"

definition block_target_locked :: finding where
  "block_target_locked = ''CHANGESET_TARGET_LOCKED''"

text \<open>The plan's risk class; \<open>RiskNone\<close> is the empty string of an unplanned changeset.\<close>

datatype plan_risk = RiskNone | PlanLow | PlanMedium | PlanHigh | PlanCritical | PlanRiskOther string

record changeset =
  ch_id :: string
  ch_type :: string
  ch_title :: string
  ch_description :: string
  ch_reason :: string
  ch_business_justification :: string
  ch_source :: string
  ch_requested_by :: string
  ch_requested_at :: instant
  ch_target_scope :: scope
  ch_base_revision :: int
  ch_desired_change :: desired_change
  ch_risk_class :: plan_risk
  ch_state :: cs_state
  ch_current_plan :: "plan_reference option"
  ch_approval_id :: string
  ch_operation_id :: string
  ch_blocking_reasons :: "finding list"
  ch_correlation_id :: string
  ch_created_at :: instant
  ch_updated_at :: instant
  ch_revision :: int

record step_resources =
  rs_tenant_id :: string
  rs_market_id :: string
  rs_mapping_id :: string
  rs_provider_id :: string
  rs_release_id :: string
  rs_engine_instance_id :: string
  rs_desired_release_id :: string
  rs_grantee_principal_id :: string
  rs_source_grant_id :: string
  rs_from_status :: string
  rs_to_status :: string
  rs_target_revision :: int

record plan_step =
  ps_step_id :: string
  ps_operation :: string
  ps_depends_on :: "string list"
  ps_resources :: step_resources
  ps_irreversible :: bool

record plan =
  pl_plan_id :: string
  pl_plan_version :: int
  pl_plan_digest :: string
  pl_base_revision :: int
  pl_generated_at :: instant
  pl_expires_at :: instant
  pl_risk_class :: plan_risk
  pl_changeset_id :: string
  pl_changeset_type :: string
  pl_desired_change :: desired_change
  pl_steps :: "plan_step list"
  pl_readiness :: "(string \<times> bool) list"
  pl_blockers :: "finding list"
  pl_resources_created :: int
  pl_resources_changed :: int

definition reference :: "plan \<Rightarrow> plan_reference" where
  "reference p = \<lparr>rf_plan_id = pl_plan_id p, rf_plan_version = pl_plan_version p, rf_plan_digest = pl_plan_digest p\<rparr>"

section \<open>Drafting\<close>

datatype changeset_error = ErrInvalid

text \<open>No identifier but the one the target names is set.\<close>

definition names_only ::
  "desired_change \<Rightarrow> bool \<Rightarrow> bool \<Rightarrow> bool \<Rightarrow> bool \<Rightarrow> bool \<Rightarrow> bool \<Rightarrow> bool" where
  "names_only d tenant market mapping provider release inst \<longleftrightarrow>
     (tenant \<or> dc_tenant_id d = []) \<and> (market \<or> dc_market_id d = []) \<and> (mapping \<or> dc_mapping_id d = []) \<and>
     (provider \<or> dc_provider_id d = []) \<and> (release \<or> dc_release_id d = []) \<and> (inst \<or> dc_engine_instance_id d = [])"

definition valid_grant_id :: "string \<Rightarrow> bool" where
  "valid_grant_id v \<longleftrightarrow> opaque_id ''agr_'' v"

text \<open>The empty grant type is \<open>TypeOther ''''\<close>.\<close>

definition grant_change_scope :: "desired_change \<Rightarrow> target_type \<Rightarrow> changeset_error + scope" where
  "grant_change_scope d target =
    (if \<not> names_only d False False False False False False then Inl ErrInvalid
     else if \<not> is_uuid (dc_principal_id d) \<or> dc_permission d = [] then Inl ErrInvalid
     else case dc_scope d of
       None \<Rightarrow> Inl ErrInvalid
     | Some sc \<Rightarrow>
         if target = TargetAdminGrant \<and> (dc_source_grant_id d = [] \<or> dc_grant_type d \<noteq> TypeOther []) then Inl ErrInvalid
         else if dc_replaces_grant_id d \<noteq> [] \<and>
                 (target \<noteq> TargetAdminPrincipal \<or> \<not> valid_grant_id (dc_replaces_grant_id d)) then Inl ErrInvalid
         else if target = TargetAdminPrincipal \<and> (dc_source_grant_id d \<noteq> [] \<or> dc_grant_type d = TypeOther [])
           then Inl ErrInvalid
         else if scope_validate sc \<noteq> None then Inl ErrInvalid
         else Inr sc)"

definition draft_scope :: "desired_change \<Rightarrow> target_type \<Rightarrow> changeset_error + scope" where
  "draft_scope d target =
    (case target of
       TargetTenant \<Rightarrow>
         (if \<not> valid_tenant_id (dc_tenant_id d) \<or> \<not> names_only d True False False False False False then Inl ErrInvalid
          else Inr ((scope_at LevelTenant)\<lparr>sc_tenant_id := dc_tenant_id d\<rparr>))
     | TargetMarket \<Rightarrow>
         (if dc_market_id d = [] \<or> \<not> names_only d False True False False False False then Inl ErrInvalid
          else Inr (scope_at LevelPlatform))
     | TargetMapping \<Rightarrow>
         (if \<not> valid_mapping_id (dc_mapping_id d) \<or> \<not> names_only d False False True False False False then Inl ErrInvalid
          else Inr (scope_at LevelPlatform))
     | TargetProvider \<Rightarrow>
         (if \<not> valid_provider_id (dc_provider_id d) \<or> \<not> names_only d False False False True False False then Inl ErrInvalid
          else Inr (scope_at LevelPlatform))
     | TargetRelease \<Rightarrow>
         (if \<not> valid_release_id (dc_release_id d) \<or> \<not> names_only d False False False False True False then Inl ErrInvalid
          else Inr (scope_at LevelPlatform))
     | TargetInstance \<Rightarrow>
         (if \<not> valid_engine_instance_id (dc_engine_instance_id d) \<or>
             (dc_release_id d \<noteq> [] \<and> \<not> valid_release_id (dc_release_id d)) \<or>
             \<not> names_only d False False False False True True then Inl ErrInvalid
          else Inr (scope_at LevelPlatform))
     | TargetAdminPrincipal \<Rightarrow> grant_change_scope d target
     | TargetAdminGrant \<Rightarrow> grant_change_scope d target
     | TargetNone \<Rightarrow> Inl ErrInvalid)"

definition draft ::
  "create_request \<Rightarrow> string \<Rightarrow> string \<Rightarrow> string \<Rightarrow> string \<Rightarrow> int \<Rightarrow> instant \<Rightarrow> changeset_error + changeset" where
  "draft req i requester source correlation base_revision now =
    (case cs_kinds (dc_kind (cr_desired_change req)) of
       None \<Rightarrow> Inl ErrInvalid
     | Some kind \<Rightarrow>
         (case draft_scope (cr_desired_change req) (ki_target kind) of
            Inl e \<Rightarrow> Inl e
          | Inr sc \<Rightarrow> Inr
              \<lparr>ch_id = i, ch_type = ki_changeset_type kind, ch_title = cr_title req, ch_description = cr_description req,
               ch_reason = cr_reason req, ch_business_justification = cr_business_justification req,
               ch_source = source, ch_requested_by = requester, ch_requested_at = now, ch_target_scope = sc,
               ch_base_revision = (if base_revision < 1 then 1 else base_revision),
               ch_desired_change = cr_desired_change req, ch_risk_class = RiskNone, ch_state = StateDraft,
               ch_current_plan = None, ch_approval_id = [], ch_operation_id = [], ch_blocking_reasons = [],
               ch_correlation_id = correlation, ch_created_at = now, ch_updated_at = now, ch_revision = 1\<rparr>))"

section \<open>Validating\<close>

record target =
  ta_found :: bool
  ta_status :: string
  ta_revision :: int
  ta_desired_release_id :: string
  ta_tenant_id :: string
  ta_locked_by :: "string list"
  ta_check_failures :: "string \<Rightarrow> string option"

record validation =
  va_invalid :: "finding list"
  va_blockers :: "finding list"

definition failed_checks :: "kind_spec \<Rightarrow> target \<Rightarrow> finding list" where
  "failed_checks kind t =
    map pc_blocker (filter (\<lambda>pc. ta_check_failures t (pc_check pc) \<noteq> None) (ki_plan_checks kind))"

definition validate :: "changeset \<Rightarrow> target \<Rightarrow> validation" where
  "validate c t =
    (case cs_kinds (dc_kind (ch_desired_change c)) of
       None \<Rightarrow> \<lparr>va_invalid = [block_target_state_conflict], va_blockers = []\<rparr>
     | Some kind \<Rightarrow>
         if \<not> ta_found t then \<lparr>va_invalid = [block_target_not_found], va_blockers = []\<rparr>
         else \<lparr>va_invalid = [], va_blockers =
           (if ta_status t \<notin> set (ki_from_status kind) then [block_target_state_conflict] else []) @
           map (\<lambda>_. block_target_locked) (filter (\<lambda>other. other \<noteq> ch_id c) (ta_locked_by t)) @
           failed_checks kind t\<rparr>)"

section \<open>Planning\<close>

definition empty_resources :: step_resources where
  "empty_resources = \<lparr>rs_tenant_id = [], rs_market_id = [], rs_mapping_id = [], rs_provider_id = [], rs_release_id = [],
     rs_engine_instance_id = [], rs_desired_release_id = [], rs_grantee_principal_id = [], rs_source_grant_id = [],
     rs_from_status = [], rs_to_status = [], rs_target_revision = 0\<rparr>"

definition target_resources :: "kind_spec \<Rightarrow> desired_change \<Rightarrow> step_resources" where
  "target_resources kind d =
    (let res = empty_resources\<lparr>rs_to_status := ki_to_status kind\<rparr> in
     case ki_target kind of
       TargetMarket \<Rightarrow> res\<lparr>rs_market_id := dc_market_id d\<rparr>
     | TargetMapping \<Rightarrow> res\<lparr>rs_mapping_id := dc_mapping_id d\<rparr>
     | TargetProvider \<Rightarrow> res\<lparr>rs_provider_id := dc_provider_id d\<rparr>
     | TargetRelease \<Rightarrow> res\<lparr>rs_release_id := dc_release_id d\<rparr>
     | TargetInstance \<Rightarrow> res\<lparr>rs_engine_instance_id := dc_engine_instance_id d, rs_desired_release_id := dc_release_id d\<rparr>
     | TargetAdminPrincipal \<Rightarrow> res\<lparr>rs_grantee_principal_id := dc_principal_id d\<rparr>
     | TargetAdminGrant \<Rightarrow> res\<lparr>rs_source_grant_id := dc_source_grant_id d\<rparr>
     | _ \<Rightarrow> res\<lparr>rs_tenant_id := dc_tenant_id d\<rparr>)"

definition first_resources :: "kind_spec \<Rightarrow> desired_change \<Rightarrow> target \<Rightarrow> step_resources" where
  "first_resources kind d t =
    (let res = (target_resources kind d)\<lparr>rs_from_status := ta_status t\<rparr> in
     if ki_target kind \<noteq> TargetTenant then res\<lparr>rs_target_revision := ta_revision t\<rparr> else res)"

definition step_id_of :: "string \<Rightarrow> string" where
  "step_id_of op = map (\<lambda>c. if c = CHR ''_'' then CHR ''-'' else c) (to_lower op)"

fun plan_steps_from ::
  "kind_spec \<Rightarrow> desired_change \<Rightarrow> target \<Rightarrow> nat \<Rightarrow> string \<Rightarrow> string list \<Rightarrow> plan_step list" where
  "plan_steps_from kind d t i previous [] = []"
| "plan_steps_from kind d t i previous (op # ops) =
     \<lparr>ps_step_id = step_id_of op, ps_operation = op, ps_depends_on = (if previous \<noteq> [] then [previous] else []),
      ps_resources = (if i = 0 then first_resources kind d t else target_resources kind d), ps_irreversible = False\<rparr>
     # plan_steps_from kind d t (Suc i) (step_id_of op) ops"

definition grant_change_risk :: "catalogue \<Rightarrow> desired_change \<Rightarrow> plan_risk" where
  "grant_change_risk cat d =
    (let risk = (case cat_permission cat (dc_permission d) of
                   None \<Rightarrow> RiskHigh
                 | Some p \<Rightarrow> (case dc_scope d of None \<Rightarrow> RiskHigh | Some sc \<Rightarrow> effective_risk p sc))
     in case risk of RiskLow \<Rightarrow> PlanLow | RiskModerate \<Rightarrow> PlanMedium | RiskHigh \<Rightarrow> PlanHigh
        | RiskCritical \<Rightarrow> PlanCritical | RiskOther r \<Rightarrow> PlanRiskOther r)"

definition plan_risk_of :: "catalogue \<Rightarrow> kind_spec \<Rightarrow> desired_change \<Rightarrow> plan_risk" where
  "plan_risk_of cat kind d =
    (if ki_target kind = TargetAdminPrincipal \<or> ki_target kind = TargetAdminGrant then grant_change_risk cat d
     else if ki_target kind \<in> {TargetInstance, TargetRelease, TargetProvider} then PlanHigh
     else if ki_target kind \<in> {TargetMarket, TargetMapping} then PlanMedium
     else if ki_changeset_type kind = ''SUSPEND'' then PlanHigh
     else PlanMedium)"

datatype digest_input =
    MaterialInput string string desired_change int plan_risk "plan_step list" "finding list"
  | PlanDigestInput string int string

definition material_input :: "plan \<Rightarrow> digest_input" where
  "material_input p = MaterialInput (pl_changeset_id p) (pl_changeset_type p) (pl_desired_change p) (pl_base_revision p)
     (pl_risk_class p) (pl_steps p) (pl_blockers p)"

definition material :: "(digest_input \<Rightarrow> string) \<Rightarrow> plan \<Rightarrow> string" where
  "material digest p = digest (material_input p)"

definition plan_digest :: "(digest_input \<Rightarrow> string) \<Rightarrow> plan \<Rightarrow> string" where
  "plan_digest digest p = digest (PlanDigestInput (pl_plan_id p) (pl_plan_version p) (material digest p))"

record plan_input =
  pn_changeset :: changeset
  pn_target :: target
  pn_plan_id :: string
  pn_plan_version :: int
  pn_now :: instant
  pn_ttl :: duration

definition unsealed_plan :: "catalogue \<Rightarrow> kind_spec \<Rightarrow> plan_input \<Rightarrow> plan" where
  "unsealed_plan cat kind inp =
    (let c = pn_changeset inp; d = ch_desired_change c; t = pn_target inp; v = validate c t;
         ttl = (if pn_ttl inp \<le> 0 then 24 * hour_ns else pn_ttl inp);
         grants = (ki_target kind = TargetAdminPrincipal \<or> ki_target kind = TargetAdminGrant) in
     \<lparr>pl_plan_id = pn_plan_id inp, pl_plan_version = pn_plan_version inp, pl_plan_digest = [],
      pl_base_revision = max (ta_revision t) 1, pl_generated_at = pn_now inp, pl_expires_at = pn_now inp + ttl,
      pl_risk_class = plan_risk_of cat kind d, pl_changeset_id = ch_id c, pl_changeset_type = ki_changeset_type kind,
      pl_desired_change = d, pl_steps = plan_steps_from kind d t 0 [] (ki_operations kind),
      pl_readiness = map (\<lambda>pc. (pc_check pc, ta_check_failures t (pc_check pc) = None)) (ki_plan_checks kind),
      pl_blockers = va_invalid v @ va_blockers v,
      pl_resources_created = (if grants then 1 else 0), pl_resources_changed = (if grants then 0 else 1)\<rparr>)"

definition generate ::
  "(digest_input \<Rightarrow> string) \<Rightarrow> catalogue \<Rightarrow> plan_input \<Rightarrow> changeset_error + plan" where
  "generate digest cat inp =
    (case cs_kinds (dc_kind (ch_desired_change (pn_changeset inp))) of
       None \<Rightarrow> Inl ErrInvalid
     | Some kind \<Rightarrow>
         let p = unsealed_plan cat kind inp in Inr (p\<lparr>pl_plan_digest := plan_digest digest p\<rparr>))"

definition stale :: "(digest_input \<Rightarrow> string) \<Rightarrow> plan \<Rightarrow> plan \<Rightarrow> instant \<Rightarrow> bool" where
  "stale digest approved fresh now \<longleftrightarrow>
     \<not> now < pl_expires_at approved \<or> material digest approved \<noteq> material digest fresh"

section \<open>Approvals\<close>

datatype decision_kind = DecisionApproved | DecisionRejected | DecisionChangesRequested | DecisionOther string

record decision_request =
  dr_plan_id :: string
  dr_plan_version :: int
  dr_plan_digest :: string
  dr_decision :: decision_kind
  dr_reason :: string

record approval =
  ap_approval_id :: string
  ap_subject_id :: string
  ap_plan_id :: string
  ap_plan_version :: int
  ap_plan_digest :: string
  ap_decision :: decision_kind
  ap_reason :: string
  ap_decided_by :: string
  ap_decided_by_subject :: string
  ap_decided_at :: instant

definition decision_transition :: "decision_kind \<Rightarrow> cs_transition" where
  "decision_transition d = (case d of DecisionApproved \<Rightarrow> TApprove | DecisionRejected \<Rightarrow> TReject | _ \<Rightarrow> TRequestChanges)"

section \<open>Drafts are well formed\<close>

lemma opaque_id_nonempty: "opaque_id pre v \<Longrightarrow> v \<noteq> []"
  by (auto simp: opaque_id_def)

lemma valid_ids_nonempty:
  "valid_tenant_id v \<Longrightarrow> v \<noteq> []" "valid_mapping_id v \<Longrightarrow> v \<noteq> []" "valid_provider_id v \<Longrightarrow> v \<noteq> []"
  "valid_release_id v \<Longrightarrow> v \<noteq> []" "valid_engine_instance_id v \<Longrightarrow> v \<noteq> []" "is_uuid v \<Longrightarrow> v \<noteq> []"
  by (auto simp: valid_tenant_id_def valid_mapping_id_def valid_provider_id_def valid_release_id_def
    valid_engine_instance_id_def is_uuid_def length_between_def)

lemma simple_scopes_valid:
  "scope_validate (scope_at LevelPlatform) = None"
  "t \<noteq> [] \<Longrightarrow> scope_validate ((scope_at LevelTenant)\<lparr>sc_tenant_id := t\<rparr>) = None"
  by (simp_all add: scope_at_def scope_validate_defs environments_def)

lemma draft_scope_Inr:
  assumes "draft_scope d (kind_target (dc_kind d)) = Inr sc"
  shows "scope_validate sc = None \<and> target_id_of d \<noteq> []"
proof (cases "kind_target (dc_kind d)")
  case TargetAdminPrincipal
  with assms show ?thesis
    by (auto simp: draft_scope_def grant_change_scope_def target_id_of_def target_type_of_def valid_ids_nonempty
      split: if_splits option.splits)
next
  case TargetAdminGrant
  with assms show ?thesis
    by (auto simp: draft_scope_def grant_change_scope_def target_id_of_def target_type_of_def
      split: if_splits option.splits)
qed (use assms in \<open>auto simp: draft_scope_def target_id_of_def target_type_of_def simple_scopes_valid valid_ids_nonempty
  split: if_splits\<close>)

lemma draft_state: "draft req i requester source correlation base_revision now = Inr c \<Longrightarrow> ch_state c = StateDraft \<and> ch_id c = i"
  by (auto simp: draft_def split: option.splits sum.splits)

text \<open>
  Whatever \<open>Draft\<close> accepts is a DRAFT of a supported kind at
  revision 1 with the kind's changeset type, names a target, has a valid scope and a base
  revision of at least 1, and records the request's change and its requester.
\<close>

theorem draft_well_formed:
  assumes "draft req i requester source correlation base_revision now = Inr c"
  shows "(\<exists>kind. cs_kinds (dc_kind (ch_desired_change c)) = Some kind \<and> ch_type c = ki_changeset_type kind) \<and>
    ch_state c = StateDraft \<and> ch_revision c = 1 \<and> 1 \<le> ch_base_revision c \<and> ch_requested_by c = requester \<and>
    ch_desired_change c = cr_desired_change req \<and> target_id_of (ch_desired_change c) \<noteq> [] \<and>
    scope_validate (ch_target_scope c) = None \<and> ch_current_plan c = None \<and> ch_approval_id c = []"
proof -
  from assms obtain kind sc where kind: "cs_kinds (dc_kind (cr_desired_change req)) = Some kind"
    and sc: "draft_scope (cr_desired_change req) (ki_target kind) = Inr sc"
    and c: "ch_desired_change c = cr_desired_change req" "ch_target_scope c = sc" "ch_type c = ki_changeset_type kind"
      "ch_state c = StateDraft" "ch_revision c = 1" "1 \<le> ch_base_revision c" "ch_requested_by c = requester"
      "ch_current_plan c = None" "ch_approval_id c = []"
    by (auto simp: draft_def split: option.splits sum.splits)
  from kind have "kind_target (dc_kind (cr_desired_change req)) = ki_target kind" by (simp add: kind_target_def)
  with sc draft_scope_Inr [of "cr_desired_change req" sc] kind c show ?thesis by simp
qed

section \<open>Plans\<close>

lemma plan_steps_length [simp]: "length (plan_steps_from kind d t i prev ops) = length ops"
  by (induction ops arbitrary: i prev) simp_all

lemma plan_steps_nth:
  "k < length ops \<Longrightarrow> plan_steps_from kind d t i prev ops ! k =
    \<lparr>ps_step_id = step_id_of (ops ! k), ps_operation = ops ! k,
     ps_depends_on = (if k = 0 then (if prev \<noteq> [] then [prev] else [])
                      else if step_id_of (ops ! (k - 1)) \<noteq> [] then [step_id_of (ops ! (k - 1))] else []),
     ps_resources = (if i + k = 0 then first_resources kind d t else target_resources kind d), ps_irreversible = False\<rparr>"
proof (induction ops arbitrary: i prev k)
  case Nil
  then show ?case by simp
next
  case (Cons op ops)
  then show ?case by (cases k) (auto simp: nth_Cons')
qed

lemma step_id_nonempty: "op \<noteq> [] \<Longrightarrow> step_id_of op \<noteq> []"
  by (simp add: step_id_of_def to_lower_def)

lemma kind_operations:
  "cs_kinds k = Some kind \<Longrightarrow> length (ki_operations kind) = 2 \<and> [] \<notin> set (ki_operations kind)"
  by (cases k) auto

lemma generate_Inr:
  assumes "generate digest cat inp = Inr p"
  obtains kind where "cs_kinds (dc_kind (ch_desired_change (pn_changeset inp))) = Some kind"
    and "p = (unsealed_plan cat kind inp)\<lparr>pl_plan_digest := plan_digest digest (unsealed_plan cat kind inp)\<rparr>"
  using assms by (auto simp: generate_def Let_def split: option.splits)

lemma unsealed_plan_facts [simp]:
  "pl_steps (unsealed_plan cat kind inp) =
     plan_steps_from kind (ch_desired_change (pn_changeset inp)) (pn_target inp) 0 [] (ki_operations kind)"
  "pl_blockers (unsealed_plan cat kind inp) =
     va_invalid (validate (pn_changeset inp) (pn_target inp)) @ va_blockers (validate (pn_changeset inp) (pn_target inp))"
  "pl_base_revision (unsealed_plan cat kind inp) = max (ta_revision (pn_target inp)) 1"
  "pl_desired_change (unsealed_plan cat kind inp) = ch_desired_change (pn_changeset inp)"
  "pl_changeset_id (unsealed_plan cat kind inp) = ch_id (pn_changeset inp)"
  "pl_plan_id (unsealed_plan cat kind inp) = pn_plan_id inp"
  "pl_plan_version (unsealed_plan cat kind inp) = pn_plan_version inp"
  by (simp_all add: unsealed_plan_def Let_def)

lemma first_resources_status:
  "rs_from_status (first_resources kind d t) = ta_status t"
  "ki_target kind \<noteq> TargetTenant \<Longrightarrow> rs_target_revision (first_resources kind d t) = ta_revision t"
  by (simp_all add: first_resources_def Let_def)

lemma generated_first_step:
  assumes "generate digest cat inp = Inr p"
  shows "pl_steps p \<noteq> [] \<and> rs_from_status (ps_resources (hd (pl_steps p))) = ta_status (pn_target inp)"
  using assms
proof (rule generate_Inr)
  fix kind
  assume kind: "cs_kinds (dc_kind (ch_desired_change (pn_changeset inp))) = Some kind"
    and p: "p = (unsealed_plan cat kind inp)\<lparr>pl_plan_digest := plan_digest digest (unsealed_plan cat kind inp)\<rparr>"
  from kind_operations [OF kind] show ?thesis
    by (cases "ki_operations kind") (auto simp: p first_resources_status)
qed

text \<open>
  Property (a plan is a chain of the kind's operations). A generated plan has exactly the kind's
  operations in their order; the first step depends on nothing, every other step on the one
  before it, and the first one records the status the target had when it was planned.
\<close>

theorem plan_is_chain:
  assumes "generate digest cat inp = Inr p"
  shows "\<exists>kind. cs_kinds (dc_kind (ch_desired_change (pn_changeset inp))) = Some kind \<and>
    map ps_operation (pl_steps p) = ki_operations kind \<and> length (pl_steps p) = 2 \<and>
    ps_depends_on (pl_steps p ! 0) = [] \<and> ps_depends_on (pl_steps p ! 1) = [ps_step_id (pl_steps p ! 0)] \<and>
    rs_from_status (ps_resources (pl_steps p ! 0)) = ta_status (pn_target inp)"
  using assms
proof (rule generate_Inr)
  fix kind
  assume kind: "cs_kinds (dc_kind (ch_desired_change (pn_changeset inp))) = Some kind"
    and p: "p = (unsealed_plan cat kind inp)\<lparr>pl_plan_digest := plan_digest digest (unsealed_plan cat kind inp)\<rparr>"
  from kind_operations [OF kind] obtain a b where ops: "ki_operations kind = [a, b]" and "a \<noteq> []"
    by (auto simp: numeral_2_eq_2 length_Suc_conv)
  then show ?thesis using kind
    by (simp add: p step_id_nonempty first_resources_status)
qed

text \<open>
  Property (an approved plan that is not stale still describes its target). When a plan without
  blockers was generated against one reading of the target, and against a later reading it is
  not stale, then, unless the digest collides on the two plans, the later reading has no
  findings either, shows the same status and, apart from revisions below 1, the same revision.
\<close>

theorem fresh_plan_same_target:
  assumes old: "generate digest cat inp = Inr p" and new: "generate digest cat inp' = Inr p'"
    and clean: "pl_blockers p = []" and fresh: "\<not> stale digest p p' now"
    and no_collision: "material digest p = material digest p' \<Longrightarrow> material_input p = material_input p'"
  shows "validate (pn_changeset inp') (pn_target inp') = \<lparr>va_invalid = [], va_blockers = []\<rparr> \<and>
    ta_status (pn_target inp') = ta_status (pn_target inp) \<and>
    max (ta_revision (pn_target inp')) 1 = max (ta_revision (pn_target inp)) 1 \<and>
    ch_desired_change (pn_changeset inp') = ch_desired_change (pn_changeset inp) \<and> now < pl_expires_at p"
proof -
  from fresh have "material digest p = material digest p'" and exp: "now < pl_expires_at p"
    by (simp_all add: stale_def)
  with no_collision have same: "pl_blockers p = pl_blockers p'" "pl_steps p = pl_steps p'"
    "pl_base_revision p = pl_base_revision p'" "pl_desired_change p = pl_desired_change p'"
    by (simp_all add: material_input_def)
  from generated_first_step [OF old] generated_first_step [OF new] same(2)
  have status: "ta_status (pn_target inp') = ta_status (pn_target inp)" by auto
  from old have "pl_base_revision p = max (ta_revision (pn_target inp)) 1"
    "pl_desired_change p = ch_desired_change (pn_changeset inp)" by (auto elim!: generate_Inr)
  moreover from new have "pl_base_revision p' = max (ta_revision (pn_target inp')) 1"
    "pl_desired_change p' = ch_desired_change (pn_changeset inp')"
    "pl_blockers p' = va_invalid (validate (pn_changeset inp') (pn_target inp')) @
       va_blockers (validate (pn_changeset inp') (pn_target inp'))" by (auto elim!: generate_Inr)
  ultimately show ?thesis using same clean status exp by (cases "validate (pn_changeset inp') (pn_target inp')") simp
qed

text \<open>
  Validation reports nothing exactly
  when the kind is supported, the target exists in a status the kind starts from, no other
  open changeset holds it, and every plan check of the kind passed.
\<close>

theorem validate_clean_iff:
  "validate c t = \<lparr>va_invalid = [], va_blockers = []\<rparr> \<longleftrightarrow>
    (\<exists>kind. cs_kinds (dc_kind (ch_desired_change c)) = Some kind \<and> ta_found t \<and> ta_status t \<in> set (ki_from_status kind) \<and>
      set (ta_locked_by t) \<subseteq> {ch_id c} \<and> list_all (\<lambda>pc. ta_check_failures t (pc_check pc) = None) (ki_plan_checks kind))"
  by (auto simp: validate_def failed_checks_def filter_empty_conv list_all_iff split: option.splits)

section \<open>Examples\<close>

text \<open>The suspension of one tenant, with a concrete function on the structure for the digest.\<close>

definition ex_digest :: "digest_input \<Rightarrow> string" where
  "ex_digest d = (case d of MaterialInput i _ _ _ _ _ _ \<Rightarrow> ''m-'' @ i | PlanDigestInput i _ m \<Rightarrow> i @ m)"

definition ex_change :: desired_change where
  "ex_change = \<lparr>dc_kind = KindTenantSuspension, dc_tenant_id = ''tn_acme'', dc_market_id = [], dc_mapping_id = [],
     dc_provider_id = [], dc_engine_instance_id = [], dc_release_id = [], dc_principal_id = [], dc_permission = [],
     dc_scope = None, dc_grant_type = TypeOther [], dc_valid_from = None, dc_valid_until = None, dc_delegable_depth = 0,
     dc_conditions = None, dc_source_grant_id = [], dc_replaces_grant_id = []\<rparr>"

definition ex_request :: create_request where
  "ex_request = \<lparr>cr_title = ''t'', cr_description = [], cr_reason = ''r'', cr_business_justification = [],
     cr_desired_change = ex_change\<rparr>"

definition ex_draft :: changeset where
  "ex_draft = projr (draft ex_request ''cs_1'' ''ann'' ''API'' [] 4 10)"

lemma ex_draft_ok: "draft ex_request ''cs_1'' ''ann'' ''API'' [] 4 10 = Inr ex_draft"
  by code_simp

theorem draft_well_formed_witness:
  "ch_type ex_draft = ''SUSPEND'' \<and> ch_state ex_draft = StateDraft \<and> ch_revision ex_draft = 1 \<and>
    target_id_of (ch_desired_change ex_draft) \<noteq> [] \<and> scope_validate (ch_target_scope ex_draft) = None"
proof -
  have "ch_desired_change ex_draft = ex_change" by code_simp
  then show ?thesis using draft_well_formed [OF ex_draft_ok] by (auto simp: ex_change_def)
qed

definition ex_target :: "int \<Rightarrow> target" where
  "ex_target revision = \<lparr>ta_found = True, ta_status = ''active'', ta_revision = revision, ta_desired_release_id = [],
     ta_tenant_id = ''tn_acme'', ta_locked_by = [], ta_check_failures = (\<lambda>_. None)\<rparr>"

definition ex_plan_input :: "int \<Rightarrow> instant \<Rightarrow> plan_input" where
  "ex_plan_input revision now = \<lparr>pn_changeset = ex_draft, pn_target = ex_target revision, pn_plan_id = ''pl_1'',
     pn_plan_version = 1, pn_now = now, pn_ttl = 0\<rparr>"

definition ex_generated :: "int \<Rightarrow> instant \<Rightarrow> plan" where
  "ex_generated revision now = projr (generate ex_digest ex_catalogue (ex_plan_input revision now))"

lemma ex_generated_ok:
  "generate ex_digest ex_catalogue (ex_plan_input 0 20) = Inr (ex_generated 0 20)"
  "generate ex_digest ex_catalogue (ex_plan_input 1 40) = Inr (ex_generated 1 40)"
  by code_simp+

theorem plan_is_chain_witness:
  "map ps_operation (pl_steps (ex_generated 0 20)) = [''SUSPEND_TENANT'', ''VERIFY_TENANT_STATE''] \<and>
    ps_depends_on (pl_steps (ex_generated 0 20) ! 1) = [ps_step_id (pl_steps (ex_generated 0 20) ! 0)]"
proof -
  have "dc_kind (ch_desired_change (pn_changeset (ex_plan_input 0 20))) = KindTenantSuspension" by code_simp
  then show ?thesis using plan_is_chain [OF ex_generated_ok(1)] by auto
qed

theorem fresh_plan_same_target_witness:
  "validate ex_draft (ex_target 1) = \<lparr>va_invalid = [], va_blockers = []\<rparr> \<and> 40 < pl_expires_at (ex_generated 0 20)"
proof -
  have "pl_blockers (ex_generated 0 20) = []" "\<not> stale ex_digest (ex_generated 0 20) (ex_generated 1 40) 40"
    and same: "material_input (ex_generated 0 20) = material_input (ex_generated 1 40)" by code_simp+
  from fresh_plan_same_target [OF ex_generated_ok this(1,2) same] show ?thesis by (simp add: ex_plan_input_def)
qed

end
