(* ===== verification/Changeset_Store.thy ===== *)
theory Changeset_Store
  imports Changeset_Plan
begin

text \<open>
  The changeset commands (\<open>internal/repository/postgres_changeset.go\<close>): create, submit, decide,
  apply and cancel, each one transaction on the changeset's current revision. The database is
  a record of its tables (\<open>internal/store/postgres/migrations/000069_changesets.sql\<close> with its
  unique keys and checks); a command returns an error, which leaves the tables as they were, or
  the new tables.

  What a changeset names (tenants, markets, providers, grants and so on) is a world \<open>'w\<close> read and
  changed through four operations, the record \<open>targets\<close>: the row of \<open>targetQueries\<close>, the plan
  checks of the target's kind, the target's own maker-checker rule and \<open>applyToTarget\<close>. The
  commands are stated for every such record; \<open>tenant_targets\<close> is the one of the tenants table.
  Audit rows and log output are not modelled.

  The lemmas give the invariant of every reachable database and, from it, what a completed
  changeset implies.
\<close>

section \<open>Tables\<close>

datatype cs_error =
    ErrChangesetNotFound | ErrChangesetRevisionMismatch | ErrChangesetStateConflict
  | ErrChangesetIdempotencyConflict | ErrChangesetSelfApproval | ErrChangesetPlanMismatch | ErrChangesetPlanStale
  | ErrChangesetPlanNotApproved | ErrChangesetVerificationMismatch | ErrPlanAlreadyDecided | ErrOperationKeyReused
  | ErrOperationKeyRace | ErrInvalidPlan | ErrTargetSelfApproval | ErrGrantSelfApproval | ErrGrantSoDViolation
  | ErrConstraint string | ErrTarget string

record plan_row =
  ro_plan :: plan
  ro_superseded_at :: "instant option"

record outcome_row =
  ou_operation_id :: string
  ou_final_state :: cs_state
  ou_applied_plan_digest :: string
  ou_recorded_at :: instant

record operation =
  op_id :: string
  op_subject_id :: string
  op_tenant_id :: string
  op_plan_id :: string
  op_plan_digest :: string
  op_approval_id :: string
  op_requested_by :: string
  op_key :: string
  op_request_hash :: string
  op_total_steps :: nat
  op_created_at :: instant

record store =
  st_changesets :: "string \<Rightarrow> changeset option"
  st_ids :: "string list"
  st_keys :: "string \<times> string \<Rightarrow> (string \<times> string) option"
  st_plans :: "plan_row list"
  st_approvals :: "approval list"
  st_outcomes :: "string \<Rightarrow> outcome_row option"
  st_operations :: "operation list"

definition empty_store :: store where
  "empty_store = \<lparr>st_changesets = (\<lambda>_. None), st_ids = [], st_keys = (\<lambda>_. None), st_plans = [], st_approvals = [],
     st_outcomes = (\<lambda>_. None), st_operations = []\<rparr>"

text \<open>
  What the commands need of the resource a changeset names: its status, revision and owning
  tenant; its desired release and the failures of its plan checks; who may approve; the change.
\<close>

record 'w targets =
  tg_row :: "'w \<Rightarrow> desired_change \<Rightarrow> (string \<times> int \<times> string) option"
  tg_checks :: "'w \<Rightarrow> changeset \<Rightarrow> instant \<Rightarrow> cs_error + (string \<times> (string \<Rightarrow> string option))"
  tg_maker_checker :: "'w \<Rightarrow> changeset \<Rightarrow> string \<Rightarrow> string \<Rightarrow> cs_error option"
  tg_apply :: "'w \<Rightarrow> changeset \<Rightarrow> kind_spec \<Rightarrow> plan \<Rightarrow> target \<Rightarrow> string \<Rightarrow> string \<Rightarrow> instant \<Rightarrow>
     cs_error + ('w \<times> string \<times> bool)"

section \<open>Helpers\<close>

definition lock_changeset :: "store \<Rightarrow> string \<Rightarrow> int \<Rightarrow> cs_error + changeset" where
  "lock_changeset st i expected =
    (case st_changesets st i of
       None \<Rightarrow> Inl ErrChangesetNotFound
     | Some c \<Rightarrow> if ch_revision c \<noteq> expected then Inl ErrChangesetRevisionMismatch else Inr c)"

text \<open>The states that hold the semantic lock on their target.\<close>

definition open_states :: "cs_state list" where
  "open_states = [StateValidating, StatePlanning, StateBlocked, StatePlanned, StateAwaitingApproval,
     StateChangesRequested, StateApproved, StateScheduled, StateApplying, StateFailed, StatePartiallyApplied,
     StateVerifying, StateVerificationFailed]"

definition holds_lock :: "changeset \<Rightarrow> changeset \<Rightarrow> bool" where
  "holds_lock me other \<longleftrightarrow> target_type_of (ch_desired_change other) = target_type_of (ch_desired_change me) \<and>
     target_id_of (ch_desired_change other) = target_id_of (ch_desired_change me) \<and> ch_id other \<noteq> ch_id me \<and>
     ch_state other \<in> set open_states \<and> (ch_created_at other, ch_id other) < (ch_created_at me, ch_id me)"

definition locked_by :: "store \<Rightarrow> changeset \<Rightarrow> string list" where
  "locked_by st c =
    (case st_changesets st (ch_id c) of
       None \<Rightarrow> []
     | Some me \<Rightarrow> sort (filter (\<lambda>j. case st_changesets st j of None \<Rightarrow> False
         | Some other \<Rightarrow> holds_lock me other) (st_ids st)))"

definition read_target :: "'w targets \<Rightarrow> 'w \<Rightarrow> store \<Rightarrow> changeset \<Rightarrow> instant \<Rightarrow> cs_error + target" where
  "read_target tg w st c now =
    (if target_type_of (ch_desired_change c) = TargetNone then Inl ErrChangesetStateConflict
     else case tg_row tg w (ch_desired_change c) of
       None \<Rightarrow> Inr \<lparr>ta_found = False, ta_status = [], ta_revision = 0, ta_desired_release_id = [], ta_tenant_id = [],
                  ta_locked_by = [], ta_check_failures = (\<lambda>_. None)\<rparr>
     | Some (status, revision, tenant) \<Rightarrow>
         (case tg_checks tg w c now of
            Inl e \<Rightarrow> Inl e
          | Inr (desired, failures) \<Rightarrow> Inr
              \<lparr>ta_found = True, ta_status = status, ta_revision = revision, ta_desired_release_id = desired,
               ta_tenant_id = tenant, ta_locked_by = locked_by st c, ta_check_failures = failures\<rparr>))"

definition step :: "changeset \<Rightarrow> cs_transition \<Rightarrow> cs_error + changeset" where
  "step c t = (case cs_next (ch_state c) t of
     Inl _ \<Rightarrow> Inl ErrChangesetStateConflict | Inr s \<Rightarrow> Inr (c\<lparr>ch_state := s\<rparr>))"

fun steps :: "changeset \<Rightarrow> cs_transition list \<Rightarrow> cs_error + changeset" where
  "steps c [] = Inr c"
| "steps c (t # ts) = (case step c t of Inl e \<Rightarrow> Inl e | Inr c' \<Rightarrow> steps c' ts)"

definition save_changeset :: "store \<Rightarrow> changeset \<Rightarrow> instant \<Rightarrow> store" where
  "save_changeset st c now =
    st\<lparr>st_changesets := (st_changesets st)(ch_id c \<mapsto> c\<lparr>ch_updated_at := now, ch_revision := ch_revision c + 1\<rparr>)\<rparr>"

definition record_outcome :: "store \<Rightarrow> string \<Rightarrow> outcome_row \<Rightarrow> cs_error + store" where
  "record_outcome st i ou =
    (if st_outcomes st i \<noteq> None then Inl (ErrConstraint ''outcome_pkey'')
     else Inr (st\<lparr>st_outcomes := (st_outcomes st)(i \<mapsto> ou)\<rparr>))"

definition plain_outcome :: "cs_state \<Rightarrow> instant \<Rightarrow> outcome_row" where
  "plain_outcome s now = \<lparr>ou_operation_id = [], ou_final_state = s, ou_applied_plan_digest = [], ou_recorded_at = now\<rparr>"

definition next_plan_version :: "store \<Rightarrow> string \<Rightarrow> int" where
  "next_plan_version st i =
    foldr max (map (pl_plan_version \<circ> ro_plan) (filter (\<lambda>r. pl_changeset_id (ro_plan r) = i) (st_plans st))) 0 + 1"

text \<open>Supersede the changeset's open plans and insert the new one.\<close>

definition insert_plan :: "store \<Rightarrow> plan \<Rightarrow> instant \<Rightarrow> cs_error + store" where
  "insert_plan st p now =
    (if pl_plan_id p \<in> set (map (pl_plan_id \<circ> ro_plan) (st_plans st)) then Inl (ErrConstraint ''plan_pkey'')
     else Inr (st\<lparr>st_plans :=
       map (\<lambda>r. if pl_changeset_id (ro_plan r) = pl_changeset_id p \<and> ro_superseded_at r = None
                then r\<lparr>ro_superseded_at := Some now\<rparr> else r) (st_plans st)
       @ [\<lparr>ro_plan = p, ro_superseded_at = None\<rparr>]\<rparr>))"

definition load_plan :: "store \<Rightarrow> changeset \<Rightarrow> cs_error + plan" where
  "load_plan st c =
    (case ch_current_plan c of
       None \<Rightarrow> Inl ErrChangesetNotFound
     | Some ref \<Rightarrow>
         (case find (\<lambda>r. pl_plan_id (ro_plan r) = rf_plan_id ref) (st_plans st) of
            None \<Rightarrow> Inl ErrChangesetNotFound | Some r \<Rightarrow> Inr (ro_plan r)))"

definition freshly_stale ::
  "(digest_input \<Rightarrow> string) \<Rightarrow> catalogue \<Rightarrow> changeset \<Rightarrow> plan \<Rightarrow> target \<Rightarrow> instant \<Rightarrow> cs_error + bool" where
  "freshly_stale digest cat c p t now =
    (case generate digest cat \<lparr>pn_changeset = c, pn_target = t, pn_plan_id = pl_plan_id p,
             pn_plan_version = pl_plan_version p, pn_now = now, pn_ttl = 0\<rparr> of
       Inl _ \<Rightarrow> Inl ErrInvalidPlan
     | Inr fresh \<Rightarrow> Inr (stale digest p fresh now))"

section \<open>Create and submit\<close>

definition create_changeset :: "store \<Rightarrow> changeset \<Rightarrow> string \<Rightarrow> string \<Rightarrow> cs_error + store" where
  "create_changeset st c key request_hash =
    (if st_keys st (ch_requested_by c, key) \<noteq> None then Inl ErrChangesetIdempotencyConflict
     else if st_changesets st (ch_id c) \<noteq> None then Inl (ErrConstraint ''changeset_pkey'')
     else Inr (st\<lparr>st_changesets := (st_changesets st)(ch_id c \<mapsto> c), st_ids := st_ids st @ [ch_id c],
                   st_keys := (st_keys st)((ch_requested_by c, key) \<mapsto> (ch_id c, request_hash))\<rparr>))"

text \<open>The branch of a target that cannot be changed: INVALID, with an outcome.\<close>

definition submit_invalid :: "store \<Rightarrow> changeset \<Rightarrow> validation \<Rightarrow> instant \<Rightarrow> cs_error + store" where
  "submit_invalid st c v now =
    (case step (c\<lparr>ch_blocking_reasons := va_invalid v\<rparr>) TInvalidate of
       Inl e \<Rightarrow> Inl e
     | Inr c' \<Rightarrow>
         (case record_outcome st (ch_id c') (plain_outcome (ch_state c') now) of
            Inl e \<Rightarrow> Inl e
          | Inr st' \<Rightarrow> Inr (save_changeset st' c' now)))"

definition submit_planned ::
  "(digest_input \<Rightarrow> string) \<Rightarrow> catalogue \<Rightarrow> store \<Rightarrow> changeset \<Rightarrow> target \<Rightarrow> validation \<Rightarrow> string \<Rightarrow> instant \<Rightarrow>
   cs_error + store" where
  "submit_planned digest cat st c t v plan_id now =
    (case step c TValidated of
       Inl e \<Rightarrow> Inl e
     | Inr c1 \<Rightarrow>
         (case generate digest cat \<lparr>pn_changeset = c1, pn_target = t, pn_plan_id = plan_id,
                  pn_plan_version = next_plan_version st (ch_id c1), pn_now = now, pn_ttl = 0\<rparr> of
            Inl _ \<Rightarrow> Inl ErrInvalidPlan
          | Inr p \<Rightarrow>
              (case insert_plan st p now of
                 Inl e \<Rightarrow> Inl e
               | Inr st' \<Rightarrow>
                   let c2 = c1\<lparr>ch_current_plan := Some (reference p), ch_risk_class := pl_risk_class p\<rparr> in
                   (case (if va_blockers v \<noteq> [] then step (c2\<lparr>ch_blocking_reasons := va_blockers v\<rparr>) TBlock
                          else steps c2 [TPlanned, TRequestApproval]) of
                      Inl e \<Rightarrow> Inl e
                    | Inr c3 \<Rightarrow> Inr (save_changeset st' c3 now)))))"

definition submit_changeset ::
  "(digest_input \<Rightarrow> string) \<Rightarrow> catalogue \<Rightarrow> 'w targets \<Rightarrow> 'w \<Rightarrow> store \<Rightarrow> string \<Rightarrow> int \<Rightarrow> string \<Rightarrow> instant \<Rightarrow>
   cs_error + store" where
  "submit_changeset digest cat tg w st i expected plan_id now =
    (case lock_changeset st i expected of
       Inl e \<Rightarrow> Inl e
     | Inr c0 \<Rightarrow>
         (case step c0 TSubmit of
            Inl e \<Rightarrow> Inl e
          | Inr c1 \<Rightarrow>
              (case read_target tg w st c1 now of
                 Inl e \<Rightarrow> Inl e
               | Inr t \<Rightarrow>
                   let c = c1\<lparr>ch_approval_id := [], ch_blocking_reasons := []\<rparr>; v = validate c t in
                   if va_invalid v \<noteq> [] then submit_invalid st c v now
                   else submit_planned digest cat st c t v plan_id now)))"

section \<open>Decide\<close>

text \<open>
  The constraints of the approval table: one decision per plan, a known decision, and a reason
  for anything but an approval.
\<close>

definition insert_approval :: "store \<Rightarrow> approval \<Rightarrow> cs_error + store" where
  "insert_approval st a =
    (if list_ex (\<lambda>b. ap_approval_id b = ap_approval_id a \<or> ap_plan_id b = ap_plan_id a) (st_approvals st)
       then Inl ErrPlanAlreadyDecided
     else if ap_decision a \<notin> {DecisionApproved, DecisionRejected, DecisionChangesRequested} then Inl (ErrConstraint ''decision'')
     else if ap_decision a \<noteq> DecisionApproved \<and> ap_reason a = [] then Inl (ErrConstraint ''reason'')
     else Inr (st\<lparr>st_approvals := st_approvals st @ [a]\<rparr>))"

text \<open>The checks an approval runs on the plan and the target; any other decision runs none.\<close>

definition approval_checks ::
  "(digest_input \<Rightarrow> string) \<Rightarrow> catalogue \<Rightarrow> 'w targets \<Rightarrow> 'w \<Rightarrow> store \<Rightarrow> changeset \<Rightarrow> plan \<Rightarrow> string \<Rightarrow> string \<Rightarrow>
   instant \<Rightarrow> cs_error option" where
  "approval_checks digest cat tg w st c p approver subject now =
    (case read_target tg w st c now of
       Inl e \<Rightarrow> Some e
     | Inr t \<Rightarrow>
         (case freshly_stale digest cat c p t now of
            Inl e \<Rightarrow> Some e
          | Inr st_ \<Rightarrow> if st_ then Some ErrChangesetPlanStale else tg_maker_checker tg w c approver subject))"

definition decide_changeset ::
  "(digest_input \<Rightarrow> string) \<Rightarrow> catalogue \<Rightarrow> 'w targets \<Rightarrow> 'w \<Rightarrow> store \<Rightarrow> string \<Rightarrow> int \<Rightarrow> decision_request \<Rightarrow>
   string \<Rightarrow> string \<Rightarrow> string \<Rightarrow> instant \<Rightarrow> cs_error + (store \<times> approval)" where
  "decide_changeset digest cat tg w st i expected req approval_id approver subject now =
    (case lock_changeset st i expected of
       Inl e \<Rightarrow> Inl e
     | Inr c \<Rightarrow>
         if \<not> cs_allows (ch_state c) (decision_transition (dr_decision req)) then Inl ErrChangesetStateConflict
         else if approver = ch_requested_by c then Inl ErrChangesetSelfApproval
         else case load_plan st c of
           Inl e \<Rightarrow> Inl e
         | Inr p \<Rightarrow>
             if dr_plan_id req \<noteq> pl_plan_id p \<or> dr_plan_version req \<noteq> pl_plan_version p \<or>
                dr_plan_digest req \<noteq> pl_plan_digest p then Inl ErrChangesetPlanMismatch
             else case (if dr_decision req = DecisionApproved
                        then approval_checks digest cat tg w st c p approver subject now else None) of
               Some e \<Rightarrow> Inl e
             | None \<Rightarrow>
                 let a = \<lparr>ap_approval_id = approval_id, ap_subject_id = ch_id c, ap_plan_id = pl_plan_id p,
                          ap_plan_version = pl_plan_version p, ap_plan_digest = pl_plan_digest p,
                          ap_decision = dr_decision req, ap_reason = dr_reason req, ap_decided_by = approver,
                          ap_decided_by_subject = subject, ap_decided_at = now\<rparr> in
                 (case insert_approval st a of
                    Inl e \<Rightarrow> Inl e
                  | Inr st1 \<Rightarrow>
                      (case step c (decision_transition (dr_decision req)) of
                         Inl e \<Rightarrow> Inl e
                       | Inr c1 \<Rightarrow>
                           let c2 = (if dr_decision req = DecisionApproved then c1\<lparr>ch_approval_id := approval_id\<rparr> else c1) in
                           (case (if cs_terminal (ch_state c2)
                                  then record_outcome st1 (ch_id c2) (plain_outcome (ch_state c2) now) else Inr st1) of
                              Inl e \<Rightarrow> Inl e
                            | Inr st2 \<Rightarrow> Inr (save_changeset st2 c2 now, a)))))"

section \<open>Apply and cancel\<close>

definition prior_apply :: "store \<Rightarrow> string \<Rightarrow> string \<Rightarrow> string \<Rightarrow> cs_error + operation option" where
  "prior_apply st requester key request_hash =
    (case find (\<lambda>o'. op_requested_by o' = requester \<and> op_key o' = key) (st_operations st) of
       None \<Rightarrow> Inr None
     | Some o' \<Rightarrow> if op_request_hash o' \<noteq> request_hash then Inl ErrOperationKeyReused else Inr (Some o'))"

text \<open>
  From the lock on: the approval of the current plan, the fresh reading of the target, the
  change and its verification.
\<close>

definition apply_locked ::
  "(digest_input \<Rightarrow> string) \<Rightarrow> catalogue \<Rightarrow> 'w targets \<Rightarrow> 'w \<Rightarrow> store \<Rightarrow> changeset \<Rightarrow> instant \<Rightarrow>
   cs_error + ('w \<times> changeset \<times> plan \<times> string)" where
  "apply_locked digest cat tg w st c now =
    (if \<not> cs_allows (ch_state c) TApply then Inl ErrChangesetStateConflict
     else case load_plan st c of
       Inl e \<Rightarrow> Inl e
     | Inr p \<Rightarrow>
         (case find (\<lambda>a. ap_approval_id a = ch_approval_id c) (st_approvals st) of
            None \<Rightarrow> Inl ErrChangesetPlanNotApproved
          | Some a \<Rightarrow>
              if ap_decision a \<noteq> DecisionApproved then Inl ErrChangesetPlanNotApproved
              else if ap_plan_digest a \<noteq> pl_plan_digest p then Inl ErrChangesetPlanMismatch
              else case read_target tg w st c now of
                Inl e \<Rightarrow> Inl e
              | Inr t \<Rightarrow>
                  (case freshly_stale digest cat c p t now of
                     Inl e \<Rightarrow> Inl e
                   | Inr st_ \<Rightarrow>
                       if st_ then Inl ErrChangesetPlanStale
                       else case cs_kinds (dc_kind (ch_desired_change c)) of
                         None \<Rightarrow> Inl ErrInvalidPlan
                       | Some kind \<Rightarrow>
                           (case step c TApply of
                              Inl e \<Rightarrow> Inl e
                            | Inr c1 \<Rightarrow>
                                (case tg_apply tg w c1 kind p t (ap_decided_by a) (ap_decided_by_subject a) now of
                                   Inl e \<Rightarrow> Inl e
                                 | Inr (w', tenant_id, verified) \<Rightarrow>
                                     (case step c1 TApplied of
                                        Inl e \<Rightarrow> Inl e
                                      | Inr c2 \<Rightarrow>
                                          if \<not> verified then Inl ErrChangesetVerificationMismatch
                                          else (case step c2 TComplete of
                                             Inl e \<Rightarrow> Inl e
                                           | Inr c3 \<Rightarrow> Inr (w', c3, p, tenant_id))))))))"

definition insert_operation :: "store \<Rightarrow> operation \<Rightarrow> cs_error + store" where
  "insert_operation st o' =
    (if list_ex (\<lambda>q. op_requested_by q = op_requested_by o' \<and> op_key q = op_key o') (st_operations st) then Inl ErrOperationKeyRace
     else if list_ex (\<lambda>q. op_id q = op_id o') (st_operations st) then Inl (ErrConstraint ''execution_operation_pkey'')
     else Inr (st\<lparr>st_operations := st_operations st @ [o']\<rparr>))"

text \<open>The result is the database, the world, the operation and whether it is a replay.\<close>

definition apply_changeset ::
  "(digest_input \<Rightarrow> string) \<Rightarrow> catalogue \<Rightarrow> 'w targets \<Rightarrow> 'w \<Rightarrow> store \<Rightarrow> string \<Rightarrow> int \<Rightarrow> string \<Rightarrow> string \<Rightarrow>
   string \<Rightarrow> string \<Rightarrow> instant \<Rightarrow> cs_error + (store \<times> 'w \<times> operation \<times> bool)" where
  "apply_changeset digest cat tg w st i expected operation_id key request_hash requester now =
    (case prior_apply st requester key request_hash of
       Inl e \<Rightarrow> Inl e
     | Inr (Some o') \<Rightarrow> Inr (st, w, o', True)
     | Inr None \<Rightarrow>
         (case lock_changeset st i expected of
            Inl e \<Rightarrow> Inl e
          | Inr c \<Rightarrow>
              (case apply_locked digest cat tg w st c now of
                 Inl e \<Rightarrow> Inl e
               | Inr (w', c1, p, tenant_id) \<Rightarrow>
                   let c2 = c1\<lparr>ch_operation_id := operation_id\<rparr>;
                       o' = \<lparr>op_id = operation_id, op_subject_id = ch_id c2, op_tenant_id = tenant_id,
                             op_plan_id = pl_plan_id p, op_plan_digest = pl_plan_digest p, op_approval_id = ch_approval_id c2,
                             op_requested_by = requester, op_key = key, op_request_hash = request_hash,
                             op_total_steps = length (pl_steps p), op_created_at = now\<rparr> in
                   (case insert_operation st o' of
                      Inl e \<Rightarrow> Inl e
                    | Inr st1 \<Rightarrow>
                        (case record_outcome (save_changeset st1 c2 now) (ch_id c2)
                                \<lparr>ou_operation_id = operation_id, ou_final_state = ch_state c2,
                                 ou_applied_plan_digest = pl_plan_digest p, ou_recorded_at = now\<rparr> of
                           Inl e \<Rightarrow> Inl e
                         | Inr st2 \<Rightarrow> Inr (st2, w', o', False))))))"

definition cancel_changeset :: "store \<Rightarrow> string \<Rightarrow> int \<Rightarrow> instant \<Rightarrow> cs_error + store" where
  "cancel_changeset st i expected now =
    (case lock_changeset st i expected of
       Inl e \<Rightarrow> Inl e
     | Inr c \<Rightarrow>
         (case step c TCancel of
            Inl e \<Rightarrow> Inl e
          | Inr c1 \<Rightarrow>
              let c2 = c1\<lparr>ch_blocking_reasons := []\<rparr> in
              record_outcome (save_changeset st c2 now) (ch_id c2) (plain_outcome (ch_state c2) now)))"

section \<open>The tenants table as the target\<close>

record tenant_row =
  tn_desired_state :: string
  tn_observed_state :: string
  tn_revision :: int

text \<open>The revision the plan was made at: the first step's, or the plan's base revision.\<close>

definition planned_revision :: "plan \<Rightarrow> int" where
  "planned_revision p =
    (case pl_steps p of
       [] \<Rightarrow> pl_base_revision p
     | s # _ \<Rightarrow> if 0 < rs_target_revision (ps_resources s) then rs_target_revision (ps_resources s) else pl_base_revision p)"

definition tenant_query :: "(string \<Rightarrow> tenant_row option) \<Rightarrow> desired_change \<Rightarrow> (string \<times> int \<times> string) option" where
  "tenant_query rows d =
    (if target_type_of d \<noteq> TargetTenant then None
     else map_option (\<lambda>r. (tn_desired_state r, tn_revision r, target_id_of d)) (rows (target_id_of d)))"

definition apply_tenant ::
  "(string \<Rightarrow> tenant_row option) \<Rightarrow> changeset \<Rightarrow> kind_spec \<Rightarrow> plan \<Rightarrow> target \<Rightarrow> string \<Rightarrow> string \<Rightarrow> instant \<Rightarrow>
   cs_error + ((string \<Rightarrow> tenant_row option) \<times> string \<times> bool)" where
  "apply_tenant rows c kind p t approver subject now =
    (let i = dc_tenant_id (ch_desired_change c); to = ki_to_status kind in
     if ki_target kind \<noteq> TargetTenant then Inl (ErrTarget ''no tenant'')
     else case rows i of
       None \<Rightarrow> Inl ErrChangesetPlanStale
     | Some r \<Rightarrow>
         if tn_revision r \<noteq> planned_revision p then Inl ErrChangesetPlanStale
         else let r' = \<lparr>tn_desired_state = to, tn_observed_state = to, tn_revision = tn_revision r + 1\<rparr> in
              Inr (rows(i \<mapsto> r'), i, tn_desired_state r' = to \<and> tn_observed_state r' = to))"

definition tenant_targets :: "(string \<Rightarrow> tenant_row option) targets" where
  "tenant_targets = \<lparr>tg_row = tenant_query, tg_checks = (\<lambda>_ _ _. Inr ([], \<lambda>_. None)),
     tg_maker_checker = (\<lambda>_ _ _ _. None), tg_apply = apply_tenant\<rparr>"

section \<open>The invariant of the tables\<close>

text \<open>The plan a row names: recorded for this changeset, made by \<open>Generate\<close>.\<close>

definition plan_recorded ::
  "(digest_input \<Rightarrow> string) \<Rightarrow> catalogue \<Rightarrow> store \<Rightarrow> changeset \<Rightarrow> plan \<Rightarrow> bool" where
  "plan_recorded digest cat st c p \<longleftrightarrow> ch_current_plan c = Some (reference p) \<and> p \<in> set (map ro_plan (st_plans st)) \<and>
     pl_changeset_id p = ch_id c \<and> (\<exists>inp. generate digest cat inp = Inr p)"

definition approved_by :: "store \<Rightarrow> changeset \<Rightarrow> plan \<Rightarrow> approval \<Rightarrow> bool" where
  "approved_by st c p a \<longleftrightarrow> a \<in> set (st_approvals st) \<and> ap_approval_id a = ch_approval_id c \<and> ap_subject_id a = ch_id c \<and>
     ap_decision a = DecisionApproved \<and> ap_decided_by a \<noteq> ch_requested_by c \<and>
     ap_plan_id a = pl_plan_id p \<and> ap_plan_digest a = pl_plan_digest p"

definition completed_by :: "store \<Rightarrow> changeset \<Rightarrow> plan \<Rightarrow> operation \<Rightarrow> bool" where
  "completed_by st c p o' \<longleftrightarrow> o' \<in> set (st_operations st) \<and> op_id o' = ch_operation_id c \<and> op_subject_id o' = ch_id c \<and>
     op_approval_id o' = ch_approval_id c \<and> op_plan_digest o' = pl_plan_digest p"

definition resting_states :: "cs_state set" where
  "resting_states = {StateDraft, StateInvalid, StateBlocked, StateAwaitingApproval, StateRejected,
     StateChangesRequested, StateApproved, StateCompleted, StateCancelled}"

text \<open>A plan that waits for approval has no blockers, and what rests on it is approved and recorded.\<close>

definition governed :: "(digest_input \<Rightarrow> string) \<Rightarrow> catalogue \<Rightarrow> store \<Rightarrow> changeset \<Rightarrow> bool" where
  "governed digest cat st c \<longleftrightarrow>
     (ch_state c \<in> {StateAwaitingApproval, StateApproved, StateCompleted} \<longrightarrow>
       (\<exists>p. plan_recorded digest cat st c p \<and> pl_blockers p = [] \<and>
         (ch_state c \<noteq> StateAwaitingApproval \<longrightarrow> (\<exists>a. approved_by st c p a)) \<and>
         (ch_state c = StateCompleted \<longrightarrow> (\<exists>o'. completed_by st c p o'))))"

definition outcome_matches :: "store \<Rightarrow> changeset \<Rightarrow> bool" where
  "outcome_matches st c = (case st_outcomes st (ch_id c) of None \<Rightarrow> \<not> cs_terminal (ch_state c)
      | Some ou \<Rightarrow> cs_terminal (ch_state c) \<and> ou_final_state ou = ch_state c)"

definition cs_row_ok :: "(digest_input \<Rightarrow> string) \<Rightarrow> catalogue \<Rightarrow> store \<Rightarrow> string \<Rightarrow> changeset \<Rightarrow> bool" where
  "cs_row_ok digest cat st i c \<longleftrightarrow> ch_id c = i \<and> ch_state c \<in> resting_states \<and> outcome_matches st c \<and>
     governed digest cat st c"

definition cs_inv :: "(digest_input \<Rightarrow> string) \<Rightarrow> catalogue \<Rightarrow> store \<Rightarrow> bool" where
  "cs_inv digest cat st \<longleftrightarrow> distinct (map pl_plan_id (map ro_plan (st_plans st))) \<and>
     distinct (map ap_approval_id (st_approvals st)) \<and> set (st_ids st) = dom (st_changesets st) \<and>
     (\<forall>i. st_changesets st i = None \<longrightarrow> st_outcomes st i = None) \<and>
     (\<forall>i c. st_changesets st i = Some c \<longrightarrow> cs_row_ok digest cat st i c)"

text \<open>Tables only grow.\<close>

definition tables_grow :: "store \<Rightarrow> store \<Rightarrow> bool" where
  "tables_grow st st' \<longleftrightarrow> set (map ro_plan (st_plans st)) \<subseteq> set (map ro_plan (st_plans st')) \<and>
     set (st_approvals st) \<subseteq> set (st_approvals st') \<and> set (st_operations st) \<subseteq> set (st_operations st')"

lemma cs_row_ok_mono:
  assumes "cs_row_ok digest cat st i c" and "tables_grow st st'" and "st_outcomes st' i = st_outcomes st i"
  shows "cs_row_ok digest cat st' i c"
proof -
  have "plan_recorded digest cat st c p \<Longrightarrow> plan_recorded digest cat st' c p" for p
    using assms(2) by (auto simp: plan_recorded_def tables_grow_def)
  moreover have "approved_by st c p a \<Longrightarrow> approved_by st' c p a" for p a
    using assms(2) by (auto simp: approved_by_def tables_grow_def)
  moreover have "completed_by st c p o' \<Longrightarrow> completed_by st' c p o'" for p o'
    using assms(2) by (auto simp: completed_by_def tables_grow_def)
  ultimately have "governed digest cat st c \<Longrightarrow> governed digest cat st' c" unfolding governed_def by blast
  with assms(1,3) show ?thesis by (auto simp: cs_row_ok_def outcome_matches_def)
qed

lemma cs_inv_update:
  assumes "cs_inv digest cat st" and "tables_grow st st'"
    and "distinct (map pl_plan_id (map ro_plan (st_plans st')))" and "distinct (map ap_approval_id (st_approvals st'))"
    and "st_changesets st' = (st_changesets st)(i \<mapsto> c)" and "set (st_ids st') = insert i (set (st_ids st))"
    and "\<And>j. j \<noteq> i \<Longrightarrow> st_outcomes st' j = st_outcomes st j"
    and "cs_row_ok digest cat st' i c"
  shows "cs_inv digest cat st'"
  using assms cs_row_ok_mono [OF _ assms(2)] unfolding cs_inv_def by (auto split: if_splits)

section \<open>Helper facts\<close>

lemma step_Inr: "step c t = Inr c' \<longleftrightarrow> (\<exists>s. cs_step (ch_state c) t = Some s \<and> c' = c\<lparr>ch_state := s\<rparr>)"
  by (auto simp: step_def cs_step_def split: sum.splits)

lemma cs_step_from:
  "cs_step s TSubmit = Some s' \<Longrightarrow> s' = StateValidating \<and> s \<in> {StateDraft, StateBlocked, StateChangesRequested, StateApproved}"
  "cs_step s TInvalidate = Some s' \<Longrightarrow> s = StateValidating \<and> s' = StateInvalid"
  "cs_step s TValidated = Some s' \<Longrightarrow> s = StateValidating \<and> s' = StatePlanning"
  "cs_step s TBlock = Some s' \<Longrightarrow> s = StatePlanning \<and> s' = StateBlocked"
  "cs_step s TPlanned = Some s' \<Longrightarrow> s = StatePlanning \<and> s' = StatePlanned"
  "cs_step s TRequestApproval = Some s' \<Longrightarrow> s = StatePlanned \<and> s' = StateAwaitingApproval"
  "cs_step s TApprove = Some s' \<Longrightarrow> s = StateAwaitingApproval \<and> s' = StateApproved"
  "cs_step s TReject = Some s' \<Longrightarrow> s = StateAwaitingApproval \<and> s' = StateRejected"
  "cs_step s TRequestChanges = Some s' \<Longrightarrow> s = StateAwaitingApproval \<and> s' = StateChangesRequested"
  "cs_step s TApply = Some s' \<Longrightarrow> s = StateApproved \<and> s' = StateApplying"
  "cs_step s TApplied = Some s' \<Longrightarrow> s = StateApplying \<and> s' = StateVerifying"
  "cs_step s TComplete = Some s' \<Longrightarrow> s = StateVerifying \<and> s' = StateCompleted"
  "cs_step s TCancel = Some s' \<Longrightarrow> s' = StateCancelled \<and> \<not> cs_terminal s"
  by (cases s; force simp: cs_step_iff cs_terminal_def cs_terminal_states_def)+

lemma lock_changeset_Inr:
  "lock_changeset st i expected = Inr c \<longleftrightarrow> st_changesets st i = Some c \<and> ch_revision c = expected"
  by (auto simp: lock_changeset_def split: option.splits)

lemma record_outcome_Inr:
  "record_outcome st i ou = Inr st' \<longleftrightarrow> st_outcomes st i = None \<and> st' = st\<lparr>st_outcomes := (st_outcomes st)(i \<mapsto> ou)\<rparr>"
  by (auto simp: record_outcome_def)

lemma insert_plan_Inr:
  assumes "insert_plan st p now = Inr st'"
  shows "map ro_plan (st_plans st') = map ro_plan (st_plans st) @ [p]"
    and "pl_plan_id p \<notin> set (map pl_plan_id (map ro_plan (st_plans st)))"
    and "st_changesets st' = st_changesets st" "st_outcomes st' = st_outcomes st" "st_approvals st' = st_approvals st"
      "st_operations st' = st_operations st" "st_ids st' = st_ids st"
  using assms by (auto simp: insert_plan_def split: if_splits)

lemma insert_approval_Inr:
  assumes "insert_approval st a = Inr st'"
  shows "st' = st\<lparr>st_approvals := st_approvals st @ [a]\<rparr>" and "ap_approval_id a \<notin> set (map ap_approval_id (st_approvals st))"
  using assms by (auto simp: insert_approval_def list_ex_iff split: if_splits)

lemma insert_operation_Inr:
  "insert_operation st o' = Inr st' \<Longrightarrow> st' = st\<lparr>st_operations := st_operations st @ [o']\<rparr>"
  by (auto simp: insert_operation_def split: if_splits)

lemma load_plan_recorded:
  assumes "cs_inv digest cat st" and "plan_recorded digest cat st c p" and "load_plan st c = Inr q"
  shows "q = p"
proof -
  from assms(3) obtain ref r where ref: "ch_current_plan c = Some ref"
    and r: "r \<in> set (st_plans st)" "pl_plan_id (ro_plan r) = rf_plan_id ref" "q = ro_plan r"
    by (auto simp: load_plan_def dest!: find_SomeD split: option.splits)
  from assms(2) ref have p: "p \<in> set (map ro_plan (st_plans st))" "rf_plan_id ref = pl_plan_id p"
    by (auto simp: plan_recorded_def reference_def)
  from assms(1) have "distinct (map pl_plan_id (map ro_plan (st_plans st)))" by (simp only: cs_inv_def)
  then have inj: "inj_on pl_plan_id (set (map ro_plan (st_plans st)))" unfolding distinct_map by blast
  from r have "q \<in> set (map ro_plan (st_plans st))" by simp
  moreover have "pl_plan_id q = pl_plan_id p" using p r by simp
  ultimately show ?thesis using p(1) by (intro inj_onD [OF inj])
qed

section \<open>Every command keeps the invariant\<close>

lemma empty_store_inv: "cs_inv digest cat empty_store"
  by (simp add: cs_inv_def empty_store_def)

lemma create_inv:
  assumes "cs_inv digest cat st" and "draft req i requester source correlation base_revision now = Inr c"
    and "create_changeset st c key request_hash = Inr st'"
  shows "cs_inv digest cat st'"
proof -
  from draft_state [OF assms(2)] have state: "ch_state c = StateDraft" by blast
  from assms(3) have none: "st_changesets st (ch_id c) = None"
    and st': "st' = st\<lparr>st_changesets := (st_changesets st)(ch_id c \<mapsto> c), st_ids := st_ids st @ [ch_id c],
      st_keys := (st_keys st)((ch_requested_by c, key) \<mapsto> (ch_id c, request_hash))\<rparr>"
    by (auto simp: create_changeset_def split: if_splits)
  from none assms(1) have "st_outcomes st (ch_id c) = None" by (simp add: cs_inv_def)
  then have "cs_row_ok digest cat st' (ch_id c) c"
    by (simp add: st' cs_row_ok_def outcome_matches_def governed_def state resting_states_def cs_terminal_def cs_terminal_states_def)
  with assms(1) show ?thesis
    by (intro cs_inv_update [OF assms(1), where i = "ch_id c" and c = c]) (auto simp: st' tables_grow_def cs_inv_def)
qed

lemma saved_row_ok:
  assumes "cs_inv digest cat st" and "st_changesets st i = Some c0" and "ch_id c = i"
    and "tables_grow st st1" and "st_changesets st1 = st_changesets st" and "st_ids st1 = st_ids st"
    and "distinct (map pl_plan_id (map ro_plan (st_plans st1)))" and "distinct (map ap_approval_id (st_approvals st1))"
    and "\<And>j. j \<noteq> i \<Longrightarrow> st_outcomes st1 j = st_outcomes st j"
    and "ch_state c \<in> resting_states" and "outcome_matches st1 c" and "governed digest cat st1 c"
  shows "cs_inv digest cat (save_changeset st1 c now)"
proof (rule cs_inv_update [OF assms(1), where i = i])
  let ?c = "c\<lparr>ch_updated_at := now, ch_revision := ch_revision c + 1\<rparr>" and ?st = "save_changeset st1 c now"
  show "tables_grow st ?st" using assms(4) by (simp add: save_changeset_def tables_grow_def)
  show "st_changesets ?st = (st_changesets st)(i \<mapsto> ?c)" using assms(3,5) by (simp add: save_changeset_def)
  have same: "st_plans ?st = st_plans st1" "st_approvals ?st = st_approvals st1" "st_operations ?st = st_operations st1"
    "st_outcomes ?st = st_outcomes st1" by (simp_all add: save_changeset_def)
  show "distinct (map pl_plan_id (map ro_plan (st_plans ?st)))" "distinct (map ap_approval_id (st_approvals ?st))"
    using assms(7,8) by (simp_all only: same)
  have "i \<in> set (st_ids st)" using assms(1,2) by (auto simp: cs_inv_def)
  then show "set (st_ids ?st) = insert i (set (st_ids st))" using assms(6) by (auto simp: save_changeset_def)
  show "\<And>j. j \<noteq> i \<Longrightarrow> st_outcomes ?st j = st_outcomes st j" using assms(9) by (simp add: same)
  have "governed digest cat ?st ?c = governed digest cat st1 c"
    by (simp add: governed_def plan_recorded_def approved_by_def completed_by_def same)
  with assms(3,10-12) show "cs_row_ok digest cat ?st i ?c" 
    by (simp add: cs_row_ok_def outcome_matches_def same cong: option.case_cong)
qed

lemma row_facts:
  assumes "cs_inv digest cat st" and "st_changesets st i = Some c"
  shows "ch_id c = i" and "ch_state c \<in> resting_states" and "outcome_matches st c" and "governed digest cat st c"
    and "distinct (map pl_plan_id (map ro_plan (st_plans st)))" and "distinct (map ap_approval_id (st_approvals st))"
  using assms unfolding cs_inv_def cs_row_ok_def by blast+

lemma not_terminal_no_outcome: "outcome_matches st c \<Longrightarrow> \<not> cs_terminal (ch_state c) \<Longrightarrow> st_outcomes st (ch_id c) = None"
  by (auto simp: outcome_matches_def split: option.splits)

lemmas state_simps = resting_states_def cs_terminal_def cs_terminal_states_def

lemma submit_invalid_inv:
  assumes inv: "cs_inv digest cat st" and c0: "st_changesets st i = Some c0" and idc: "ch_id c = i"
    and sub: "submit_invalid st c v now = Inr st'"
  shows "cs_inv digest cat st'"
proof -
  let ?c = "c\<lparr>ch_blocking_reasons := va_invalid v, ch_state := StateInvalid\<rparr>"
  from sub idc have none: "st_outcomes st i = None"
    and st': "st' = save_changeset (st\<lparr>st_outcomes := (st_outcomes st)(i \<mapsto> plain_outcome StateInvalid now)\<rparr>) ?c now"
    by (auto simp: submit_invalid_def result_simps step_Inr record_outcome_Inr dest!: cs_step_from(2))
  show ?thesis unfolding st'
    by (rule saved_row_ok [OF inv c0])
      (use row_facts [OF inv c0] idc in \<open>auto simp: tables_grow_def outcome_matches_def plain_outcome_def governed_def state_simps\<close>)
qed

lemma generated_for:
  assumes "generate digest cat inp = Inr p"
  shows "pl_changeset_id p = ch_id (pn_changeset inp)"
    and "pl_blockers p = va_invalid (validate (pn_changeset inp) (pn_target inp)) @
      va_blockers (validate (pn_changeset inp) (pn_target inp))"
  using assms by (auto elim!: generate_Inr)

lemma steps_planned:
  "steps c [TPlanned, TRequestApproval] = Inr c' \<Longrightarrow> c' = c\<lparr>ch_state := StateAwaitingApproval\<rparr>"
  by (auto simp: step_Inr split: sum.splits dest!: cs_step_from(5,6))

lemma validate_state_irrelevant: "validate (c\<lparr>ch_state := s\<rparr>) t = validate c t"
  by (simp add: validate_def cong: option.case_cong if_cong)

lemma submit_planned_inv:
  assumes inv: "cs_inv digest cat st" and c0: "st_changesets st i = Some c0" and idc: "ch_id c = i"
    and out: "st_outcomes st i = None" and v: "v = validate c t" and ok: "va_invalid v = []"
    and sub: "submit_planned digest cat st c t v plan_id now = Inr st'"
  shows "cs_inv digest cat st'"
proof -
  let ?c1 = "c\<lparr>ch_state := StatePlanning\<rparr>"
  from sub obtain p st1 c3 where
    p: "generate digest cat \<lparr>pn_changeset = ?c1, pn_target = t, pn_plan_id = plan_id,
          pn_plan_version = next_plan_version st (ch_id ?c1), pn_now = now, pn_ttl = 0\<rparr> = Inr p"
    and st1: "insert_plan st p now = Inr st1"
    and c3: "(if va_blockers v \<noteq> [] then step (?c1\<lparr>ch_current_plan := Some (reference p), ch_risk_class := pl_risk_class p,
          ch_blocking_reasons := va_blockers v\<rparr>) TBlock
        else steps (?c1\<lparr>ch_current_plan := Some (reference p), ch_risk_class := pl_risk_class p\<rparr>) [TPlanned, TRequestApproval]) = Inr c3"
    and st': "st' = save_changeset st1 c3 now"
    by (auto simp only: submit_planned_def result_simps step_Inr Let_def dest!: cs_step_from(3))
  note rows = insert_plan_Inr [OF st1] and gen = generated_for [OF p]
  have grow: "tables_grow st st1" by (auto simp: tables_grow_def rows simp del: set_map)
  have clean: "va_blockers v = [] \<Longrightarrow> pl_blockers p = []"
    using gen(2) ok v by (simp add: validate_state_irrelevant)
  have idp: "pl_changeset_id p = i" using gen(1) idc by simp
  have facts: "ch_id c3 = i" "ch_state c3 \<in> {StateBlocked, StateAwaitingApproval}"
    "ch_current_plan c3 = Some (reference p)" "ch_state c3 = StateAwaitingApproval \<Longrightarrow> pl_blockers p = []"
    using c3 idc clean by (auto simp: step_Inr simp del: steps.simps dest!: cs_step_from(4) steps_planned split: if_splits)
  have "governed digest cat st1 c3"
    using facts p idp by (auto simp: governed_def plan_recorded_def rows simp flip: set_map)
  moreover have "outcome_matches st1 c3" "ch_state c3 \<in> resting_states"
    using facts out by (auto simp: outcome_matches_def rows state_simps)
  moreover have "distinct (map pl_plan_id (map ro_plan (st_plans st1)))" "distinct (map ap_approval_id (st_approvals st1))"
    using rows row_facts(5,6) [OF inv c0] by (simp_all del: map_map)
  ultimately show ?thesis unfolding st'
    using saved_row_ok [OF inv c0 facts(1) grow rows(3)] by (simp add: rows)
qed

lemma submit_inv:
  assumes inv: "cs_inv digest cat st" and sub: "submit_changeset digest cat tg w st i expected plan_id now = Inr st'"
  shows "cs_inv digest cat st'"
proof -
  from sub obtain c0 s t where c0: "st_changesets st i = Some c0" and s: "cs_step (ch_state c0) TSubmit = Some s"
    and rest: "(let c = c0\<lparr>ch_state := s, ch_approval_id := [], ch_blocking_reasons := []\<rparr>; v = validate c t in
      if va_invalid v \<noteq> [] then submit_invalid st c v now else submit_planned digest cat st c t v plan_id now) = Inr st'"
    by (auto simp only: submit_changeset_def result_simps step_Inr lock_changeset_Inr)
  from row_facts [OF inv c0] cs_step_from(1) [OF s] have "st_outcomes st i = None"
    using not_terminal_no_outcome [of st c0] by (auto simp: state_simps)
  moreover define c where "c = c0\<lparr>ch_state := s, ch_approval_id := [], ch_blocking_reasons := []\<rparr>"
  moreover have "ch_id c = i" using row_facts(1) [OF inv c0] by (simp add: c_def)
  ultimately show ?thesis
    using rest submit_invalid_inv [OF inv c0, of c "validate c t" now st']
      submit_planned_inv [OF inv c0, of c "validate c t" t plan_id now st']
    by (auto simp: Let_def split: if_splits)
qed

lemma decision_states:
  "cs_step s (decision_transition d) = Some s' \<Longrightarrow> s = StateAwaitingApproval \<and>
     s' \<in> {StateApproved, StateRejected, StateChangesRequested} \<and> (s' = StateApproved \<longleftrightarrow> d = DecisionApproved)"
  by (cases d) (auto simp: decision_transition_def dest!: cs_step_from(7,8,9))

text \<open>The row an accepted decision writes.\<close>

definition decision_row :: "changeset \<Rightarrow> plan \<Rightarrow> decision_request \<Rightarrow> string \<Rightarrow> string \<Rightarrow> string \<Rightarrow> instant \<Rightarrow> approval" where
  "decision_row c p req aid approver subject now =
    \<lparr>ap_approval_id = aid, ap_subject_id = ch_id c, ap_plan_id = pl_plan_id p, ap_plan_version = pl_plan_version p,
     ap_plan_digest = pl_plan_digest p, ap_decision = dr_decision req, ap_reason = dr_reason req,
     ap_decided_by = approver, ap_decided_by_subject = subject, ap_decided_at = now\<rparr>"

lemma decide_Inr:
  assumes "decide_changeset digest cat tg w st i expected req aid approver subject now = Inr (st', a)"
  obtains c p s st1 st2 where "st_changesets st i = Some c" and "load_plan st c = Inr p"
    and "approver \<noteq> ch_requested_by c" and "dr_plan_digest req = pl_plan_digest p"
    and "dr_decision req = DecisionApproved \<longrightarrow> approval_checks digest cat tg w st c p approver subject now = None"
    and "a = decision_row c p req aid approver subject now" and "insert_approval st a = Inr st1"
    and "cs_step (ch_state c) (decision_transition (dr_decision req)) = Some s"
    and "(if cs_terminal s then record_outcome st1 (ch_id c) (plain_outcome s now) else Inr st1) = Inr st2"
    and "st' = save_changeset st2 (c\<lparr>ch_state := s, ch_approval_id := (if dr_decision req = DecisionApproved then aid
           else ch_approval_id c)\<rparr>) now"
proof -
  from assms show ?thesis
    unfolding decide_changeset_def Let_def decision_row_def [symmetric]
    by (simp only: result_simps lock_changeset_Inr step_Inr if_error_None)
      (elim exE conjE, rule that, auto split: if_splits)
qed

lemma decide_inv:
  assumes inv: "cs_inv digest cat st"
    and dec: "decide_changeset digest cat tg w st i expected req aid approver subject now = Inr (st', a)"
  shows "cs_inv digest cat st'"
  using dec
proof (rule decide_Inr)
  fix c :: changeset and p :: plan and s :: cs_state and st1 st2 :: store
  let ?c = "c\<lparr>ch_state := s, ch_approval_id := (if dr_decision req = DecisionApproved then aid else ch_approval_id c)\<rparr>"
  assume c: "st_changesets st i = Some c" and p: "load_plan st c = Inr p" and other: "approver \<noteq> ch_requested_by c"
    and a: "a = decision_row c p req aid approver subject now" and ins: "insert_approval st a = Inr st1"
    and s: "cs_step (ch_state c) (decision_transition (dr_decision req)) = Some s"
    and out: "(if cs_terminal s then record_outcome st1 (ch_id c) (plain_outcome s now) else Inr st1) = Inr st2"
    and st': "st' = save_changeset st2 ?c now"
  note row = row_facts [OF inv c] and st = decision_states [OF s] and app = insert_approval_Inr [OF ins]
  from row(4) st obtain q where q: "plan_recorded digest cat st c q" "pl_blockers q = []" by (auto simp: governed_def)
  with load_plan_recorded [OF inv _ p] have rec: "plan_recorded digest cat st c p" "pl_blockers p = []" by auto
  from row(1,3) st have none: "st_outcomes st i = None"
    using not_terminal_no_outcome [of st c] by (auto simp: state_simps)
  from out app(1) row(1) have tables: "st_plans st2 = st_plans st" "st_approvals st2 = st_approvals st @ [a]"
    "st_operations st2 = st_operations st" "st_changesets st2 = st_changesets st" "st_ids st2 = st_ids st"
    "st_outcomes st2 = (if cs_terminal s then (st_outcomes st)(i \<mapsto> plain_outcome s now) else st_outcomes st)"
    by (auto simp: record_outcome_Inr split: if_splits)
  have "plan_recorded digest cat st2 ?c p" using rec(1) by (simp add: plan_recorded_def tables)
  moreover have "approved_by st2 ?c p a" if "s = StateApproved"
    using that st other by (simp add: approved_by_def tables a decision_row_def)
  ultimately have "governed digest cat st2 ?c"
    unfolding governed_def using rec(2) st by (cases "s = StateApproved") (auto 0 3)
  moreover have "outcome_matches st2 ?c"
    using none row(1) by (auto simp: outcome_matches_def tables plain_outcome_def)
  moreover have "distinct (map ap_approval_id (st_approvals st2))" using row(6) app(2) by (simp add: tables)
  moreover have "tables_grow st st2" by (auto simp: tables_grow_def tables)
  ultimately show ?thesis unfolding st'
    using row(1,5) st saved_row_ok [OF inv c, where c = ?c and ?st1.0 = st2 and now = now] by (auto simp: tables state_simps)
qed

lemma apply_locked_Inr:
  assumes "apply_locked digest cat tg w st c now = Inr (w', c', p, tenant_id)"
  obtains a t kind where "ch_state c = StateApproved" and "load_plan st c = Inr p"
    and "a \<in> set (st_approvals st)" and "ap_approval_id a = ch_approval_id c" and "ap_decision a = DecisionApproved"
    and "ap_plan_digest a = pl_plan_digest p" and "read_target tg w st c now = Inr t"
    and "freshly_stale digest cat c p t now = Inr False" and "cs_kinds (dc_kind (ch_desired_change c)) = Some kind"
    and "tg_apply tg w (c\<lparr>ch_state := StateApplying\<rparr>) kind p t (ap_decided_by a) (ap_decided_by_subject a) now =
      Inr (w', tenant_id, True)"
    and "c' = c\<lparr>ch_state := StateCompleted\<rparr>"
proof -
  from assms obtain q a t kind s s2 s3 verified where
    q: "load_plan st c = Inr q" and a: "find (\<lambda>a. ap_approval_id a = ch_approval_id c) (st_approvals st) = Some a"
    and dec: "ap_decision a = DecisionApproved" "ap_plan_digest a = pl_plan_digest q"
    and t: "read_target tg w st c now = Inr t" "freshly_stale digest cat c q t now = Inr False"
    and kind: "cs_kinds (dc_kind (ch_desired_change c)) = Some kind"
    and s: "cs_step (ch_state c) TApply = Some s" "cs_step s TApplied = Some s2" "cs_step s2 TComplete = Some s3"
    and app: "tg_apply tg w (c\<lparr>ch_state := s\<rparr>) kind q t (ap_decided_by a) (ap_decided_by_subject a) now = Inr (w', tenant_id, True)"
    and eq: "c' = c\<lparr>ch_state := s3\<rparr>" "p = q"
    unfolding apply_locked_def
    by (auto simp: step_Inr split: if_splits sum.splits option.splits)
  from s have "ch_state c = StateApproved \<and> s = StateApplying \<and> s3 = StateCompleted" by (auto dest!: cs_step_from)
  with find_SomeD [OF a] q dec t kind app eq show ?thesis by (intro that [of a t kind]) auto
qed

lemma apply_Inr:
  assumes "apply_changeset digest cat tg w st i expected oid key hash requester now = Inr (st', w', o', False)"
  obtains c c1 p tenant_id where "st_changesets st i = Some c" and "apply_locked digest cat tg w st c now = Inr (w', c1, p, tenant_id)"
    and "o' = \<lparr>op_id = oid, op_subject_id = ch_id c1, op_tenant_id = tenant_id, op_plan_id = pl_plan_id p,
      op_plan_digest = pl_plan_digest p, op_approval_id = ch_approval_id c1, op_requested_by = requester, op_key = key,
      op_request_hash = hash, op_total_steps = length (pl_steps p), op_created_at = now\<rparr>"
    and "st_outcomes st (ch_id c1) = None"
    and "st' = (save_changeset (st\<lparr>st_operations := st_operations st @ [o']\<rparr>) (c1\<lparr>ch_operation_id := oid\<rparr>) now)
      \<lparr>st_outcomes := (st_outcomes st)(ch_id c1 \<mapsto> \<lparr>ou_operation_id = oid, ou_final_state = ch_state c1,
        ou_applied_plan_digest = pl_plan_digest p, ou_recorded_at = now\<rparr>)\<rparr>"
  using assms unfolding apply_changeset_def
  by (auto simp: Let_def lock_changeset_Inr record_outcome_Inr save_changeset_def
    split: sum.splits option.splits prod.splits dest!: insert_operation_Inr)

lemma replay_unchanged:
  "apply_changeset digest cat tg w st i expected oid key hash requester now = Inr (st', w', o', True) \<Longrightarrow> st' = st \<and> w' = w"
  by (auto simp: apply_changeset_def Let_def split: sum.splits option.splits prod.splits)

lemma apply_inv:
  assumes inv: "cs_inv digest cat st"
    and app: "apply_changeset digest cat tg w st i expected oid key hash requester now = Inr (st', w', o', replay)"
  shows "cs_inv digest cat st'"
proof (cases replay)
  case True
  with app replay_unchanged [of digest cat tg w st i expected oid key hash requester now st' w' o'] inv show ?thesis by simp
next
  case False
  with app have "apply_changeset digest cat tg w st i expected oid key hash requester now = Inr (st', w', o', False)" by simp
  then show ?thesis
  proof (rule apply_Inr)
    fix c c1 :: changeset and p :: plan and tenant_id :: string
    let ?c = "c\<lparr>ch_state := StateCompleted, ch_operation_id := oid\<rparr>"
    let ?st = "st\<lparr>st_operations := st_operations st @ [o'], st_outcomes := (st_outcomes st)(i \<mapsto> \<lparr>ou_operation_id = oid,
        ou_final_state = StateCompleted, ou_applied_plan_digest = pl_plan_digest p, ou_recorded_at = now\<rparr>)\<rparr>"
    assume c: "st_changesets st i = Some c" and lk: "apply_locked digest cat tg w st c now = Inr (w', c1, p, tenant_id)"
      and o': "o' = \<lparr>op_id = oid, op_subject_id = ch_id c1, op_tenant_id = tenant_id, op_plan_id = pl_plan_id p,
        op_plan_digest = pl_plan_digest p, op_approval_id = ch_approval_id c1, op_requested_by = requester, op_key = key,
        op_request_hash = hash, op_total_steps = length (pl_steps p), op_created_at = now\<rparr>"
      and st': "st' = (save_changeset (st\<lparr>st_operations := st_operations st @ [o']\<rparr>) (c1\<lparr>ch_operation_id := oid\<rparr>) now)
        \<lparr>st_outcomes := (st_outcomes st)(ch_id c1 \<mapsto> \<lparr>ou_operation_id = oid, ou_final_state = ch_state c1,
          ou_applied_plan_digest = pl_plan_digest p, ou_recorded_at = now\<rparr>)\<rparr>"
    note row = row_facts [OF inv c]
    from lk have c1: "c1 = c\<lparr>ch_state := StateCompleted\<rparr>" and appr: "ch_state c = StateApproved"
      and load: "load_plan st c = Inr p" by (auto elim!: apply_locked_Inr)
    from row(4) appr obtain q a where q: "plan_recorded digest cat st c q" "pl_blockers q = []" "approved_by st c q a"
      by (auto simp: governed_def)
    with load_plan_recorded [OF inv _ load] have rec: "plan_recorded digest cat st c p" "pl_blockers p = []" "approved_by st c p a"
      by auto
    then have "plan_recorded digest cat ?st ?c p" "approved_by ?st ?c p a" "completed_by ?st ?c p o'"
      by (simp_all add: plan_recorded_def approved_by_def completed_by_def o' c1)
    with rec(2) have "governed digest cat ?st ?c" unfolding governed_def by auto
    moreover have "outcome_matches ?st ?c" "ch_state ?c \<in> resting_states" "tables_grow st ?st"
      using row(1) by (auto simp: outcome_matches_def state_simps tables_grow_def)
    ultimately have "cs_inv digest cat (save_changeset ?st ?c now)"
      using row(1,5,6) by (intro saved_row_ok [OF inv c]) simp_all
    moreover have "st' = save_changeset ?st ?c now" using row(1) by (simp add: st' c1 save_changeset_def)
    ultimately show ?thesis by simp
  qed
qed

lemma cancel_inv:
  assumes inv: "cs_inv digest cat st" and can: "cancel_changeset st i expected now = Inr st'"
  shows "cs_inv digest cat st'"
proof -
  from can obtain c s where c: "st_changesets st i = Some c" and s: "cs_step (ch_state c) TCancel = Some s"
    and ro: "record_outcome (save_changeset st (c\<lparr>ch_state := s, ch_blocking_reasons := []\<rparr>) now) (ch_id c) (plain_outcome s now) = Inr st'"
    by (auto simp: cancel_changeset_def step_Inr lock_changeset_Inr Let_def split: sum.splits)
  note row = row_facts [OF inv c]
  let ?c = "c\<lparr>ch_state := StateCancelled, ch_blocking_reasons := []\<rparr>"
  let ?st = "st\<lparr>st_outcomes := (st_outcomes st)(i \<mapsto> plain_outcome StateCancelled now)\<rparr>"
  from cs_step_from(13) [OF s] have sc: "s = StateCancelled" by blast
  have "governed digest cat ?st ?c" "outcome_matches ?st ?c" "ch_state ?c \<in> resting_states" "tables_grow st ?st"
    using row(1) by (auto simp: governed_def outcome_matches_def plain_outcome_def state_simps tables_grow_def)
  then have "cs_inv digest cat (save_changeset ?st ?c now)"
    using row(1,5,6) by (intro saved_row_ok [OF inv c]) simp_all
  moreover from ro row(1) have "st' = save_changeset ?st ?c now"
    by (simp add: record_outcome_Inr sc save_changeset_def)
  ultimately show ?thesis by simp
qed

section \<open>Reachable databases\<close>

text \<open>
  Every interleaving of commands on any changesets, with the world changing arbitrarily between
  them: the transactions serialise, so a history is a sequence of commands.
\<close>

inductive reachable ::
  "(digest_input \<Rightarrow> string) \<Rightarrow> catalogue \<Rightarrow> 'w targets \<Rightarrow> store \<Rightarrow> 'w \<Rightarrow> bool"
  for digest :: "digest_input \<Rightarrow> string" and cat :: catalogue and tg :: "'w targets" where
  start: "reachable digest cat tg empty_store w"
| world: "reachable digest cat tg st w \<Longrightarrow> reachable digest cat tg st w'"
| create: "reachable digest cat tg st w \<Longrightarrow>
    draft req i requester source correlation base_revision now = Inr c \<Longrightarrow>
    create_changeset st c key hash = Inr st' \<Longrightarrow> reachable digest cat tg st' w"
| submit: "reachable digest cat tg st w \<Longrightarrow> submit_changeset digest cat tg w st i expected plan_id now = Inr st' \<Longrightarrow>
    reachable digest cat tg st' w"
| decide: "reachable digest cat tg st w \<Longrightarrow>
    decide_changeset digest cat tg w st i expected req aid approver subject now = Inr (st', a) \<Longrightarrow>
    reachable digest cat tg st' w"
| execute: "reachable digest cat tg st w \<Longrightarrow>
    apply_changeset digest cat tg w st i expected oid key hash requester now = Inr (st', w', o', replay) \<Longrightarrow>
    reachable digest cat tg st' w'"
| cancel: "reachable digest cat tg st w \<Longrightarrow> cancel_changeset st i expected now = Inr st' \<Longrightarrow>
    reachable digest cat tg st' w"

lemma reachable_inv: "reachable digest cat tg st w \<Longrightarrow> cs_inv digest cat st"
  by (induction rule: reachable.induct)
    (blast intro: empty_store_inv create_inv submit_inv decide_inv apply_inv cancel_inv)+

text \<open>
  C4 (what a completed changeset implies). In every reachable database, a COMPLETED changeset
  has a recorded plan without blockers; somebody other than its requester approved exactly that
  plan, by id and digest; the recorded operation names that approval and that digest; and its
  outcome says COMPLETED.
\<close>

theorem completed_was_governed:
  assumes "reachable digest cat tg st w" and "st_changesets st i = Some c" and "ch_state c = StateCompleted"
  shows "\<exists>p a o' ou. ch_current_plan c = Some (reference p) \<and> p \<in> set (map ro_plan (st_plans st)) \<and> pl_blockers p = [] \<and>
    a \<in> set (st_approvals st) \<and> ap_subject_id a = i \<and> ap_decision a = DecisionApproved \<and>
    ap_decided_by a \<noteq> ch_requested_by c \<and> ap_plan_id a = pl_plan_id p \<and> ap_plan_digest a = pl_plan_digest p \<and>
    o' \<in> set (st_operations st) \<and> op_subject_id o' = i \<and> op_approval_id o' = ap_approval_id a \<and>
    op_plan_digest o' = ap_plan_digest a \<and>
    st_outcomes st i = Some ou \<and> ou_final_state ou = StateCompleted"
proof -
  note row = row_facts [OF reachable_inv [OF assms(1)] assms(2)]
  from row(4) assms(3) obtain p a o' where "plan_recorded digest cat st c p" "pl_blockers p = []" "approved_by st c p a"
    "completed_by st c p o'" by (auto simp: governed_def)
  moreover from row(1,3) assms(3) obtain ou where "st_outcomes st i = Some ou" "ou_final_state ou = StateCompleted"
    by (auto simp: outcome_matches_def state_simps split: option.splits)
  ultimately show ?thesis
    using row(1) unfolding plan_recorded_def approved_by_def completed_by_def
    by (intro exI [of _ p] exI [of _ a] exI [of _ o'] exI [of _ ou]) simp
qed


section \<open>What an apply rests on\<close>

text \<open>The plan that is generated again when a changeset is applied.\<close>

definition fresh_input :: "changeset \<Rightarrow> target \<Rightarrow> plan \<Rightarrow> instant \<Rightarrow> plan_input" where
  "fresh_input c t p now = \<lparr>pn_changeset = c, pn_target = t, pn_plan_id = pl_plan_id p,
     pn_plan_version = pl_plan_version p, pn_now = now, pn_ttl = 0\<rparr>"

lemma freshly_stale_False:
  "freshly_stale digest cat c p t now = Inr False \<longleftrightarrow>
    (\<exists>q. generate digest cat (fresh_input c t p now) = Inr q \<and> now < pl_expires_at p \<and> material digest p = material digest q)"
  by (auto simp: freshly_stale_def fresh_input_def stale_def split: sum.splits)

lemma validate_unlocked:
  assumes "validate c t = \<lparr>va_invalid = [], va_blockers = []\<rparr>"
  shows "set (ta_locked_by t) \<subseteq> {ch_id c}"
  using assms by (auto simp: validate_def filter_empty_conv split: option.splits if_splits)

lemma no_earlier_holder:
  assumes "cs_inv digest cat st" and "st_changesets st i = Some c" and "read_target tg w st c now = Inr t" and "ta_found t"
    and "set (ta_locked_by t) \<subseteq> {ch_id c}" and "st_changesets st j = Some other"
  shows "\<not> holds_lock c other"
proof
  assume h: "holds_lock c other"
  from assms(1,6) have "j \<in> set (st_ids st)" by (auto simp: cs_inv_def)
  moreover have "ch_id c = i" "ch_id other = j" using row_facts(1) assms(1,2,6) by blast+
  ultimately have "j \<in> set (locked_by st c)" using h assms(2,6) by (simp add: locked_by_def)
  moreover from assms(3,4) have "ta_locked_by t = locked_by st c"
    by (auto simp: read_target_def split: if_splits option.splits sum.splits prod.splits)
  ultimately show False using assms(5) h \<open>ch_id other = j\<close> by (auto simp: holds_lock_def)
qed

lemma applied_facts:
  assumes inv: "cs_inv digest cat st"
    and app: "apply_changeset digest cat tg w st i expected oid key hash requester now = Inr (st', w', o', False)"
  obtains c p t q kind a tenant_id where "st_changesets st i = Some c" and "ch_state c = StateApproved"
    and "load_plan st c = Inr p" and "pl_blockers p = []" and "\<exists>inp. generate digest cat inp = Inr p"
    and "now < pl_expires_at p" and "read_target tg w st c now = Inr t"
    and "generate digest cat (fresh_input c t p now) = Inr q" and "material digest p = material digest q"
    and "cs_kinds (dc_kind (ch_desired_change c)) = Some kind"
    and "tg_apply tg w (c\<lparr>ch_state := StateApplying\<rparr>) kind p t (ap_decided_by (a :: approval)) (ap_decided_by_subject a) now =
      Inr (w', tenant_id, True)"
  using app
proof (rule apply_Inr)
  fix c c1 :: changeset and p :: plan and tenant_id :: string
  assume c: "st_changesets st i = Some c" and lk: "apply_locked digest cat tg w st c now = Inr (w', c1, p, tenant_id)"
  from lk show thesis
  proof (rule apply_locked_Inr)
    fix a :: approval and t kind
    assume l: "ch_state c = StateApproved" "load_plan st c = Inr p" "read_target tg w st c now = Inr t"
      "freshly_stale digest cat c p t now = Inr False" "cs_kinds (dc_kind (ch_desired_change c)) = Some kind"
      "tg_apply tg w (c\<lparr>ch_state := StateApplying\<rparr>) kind p t (ap_decided_by a) (ap_decided_by_subject a) now =
        Inr (w', tenant_id, True)"
    from row_facts(4) [OF inv c] l(1) obtain q where "plan_recorded digest cat st c q" "pl_blockers q = []"
      by (auto simp: governed_def)
    with load_plan_recorded [OF inv _ l(2)] have "pl_blockers p = []" "\<exists>inp. generate digest cat inp = Inr p"
      by (auto simp: plan_recorded_def)
    moreover from l(4) obtain q' where "generate digest cat (fresh_input c t p now) = Inr q'" "now < pl_expires_at p"
      "material digest p = material digest q'" by (auto simp: freshly_stale_False)
    ultimately show thesis using that [OF c l(1,2) _ _ _ l(3) _ _ l(5,6)] by blast
  qed
qed

text \<open>
  C5 (a change is applied to the state it was approved for). When an apply succeeds in a
  reachable database, the approved plan has not expired and its material digest equals the one
  of a plan generated from the target as it is now. Unless these two plans collide in the
  digest, the target is found, in a status the kind starts from, with every plan check passing,
  and no changeset created earlier holds the target's semantic lock.
\<close>

theorem applied_on_current_target:
  assumes "reachable digest cat tg st w"
    and "apply_changeset digest cat tg w st i expected oid key hash requester now = Inr (st', w', o', False)"
  shows "\<exists>c p t q. st_changesets st i = Some c \<and> ch_state c = StateApproved \<and> load_plan st c = Inr p \<and>
    now < pl_expires_at p \<and> read_target tg w st c now = Inr t \<and>
    generate digest cat (fresh_input c t p now) = Inr q \<and> material digest p = material digest q \<and>
    (material_input p = material_input q \<longrightarrow>
      validate c t = \<lparr>va_invalid = [], va_blockers = []\<rparr> \<and> ta_found t \<and>
      (\<forall>j other. st_changesets st j = Some other \<longrightarrow> \<not> holds_lock c other))"
proof (rule applied_facts [OF reachable_inv [OF assms(1)] assms(2)])
  fix c p t q kind
  assume c: "st_changesets st i = Some c" and p: "load_plan st c = Inr p" "pl_blockers p = []" "now < pl_expires_at p"
    and st: "ch_state c = StateApproved" and t: "read_target tg w st c now = Inr t"
    and q: "generate digest cat (fresh_input c t p now) = Inr q" "material digest p = material digest q"
  have "validate c t = \<lparr>va_invalid = [], va_blockers = []\<rparr> \<and> ta_found t \<and>
      (\<forall>j other. st_changesets st j = Some other \<longrightarrow> \<not> holds_lock c other)" if "material_input p = material_input q"
  proof -
    from that p(2) have "pl_blockers q = []" by (simp add: material_input_def)
    with generated_for(2) [OF q(1)] have v: "validate c t = \<lparr>va_invalid = [], va_blockers = []\<rparr>"
      by (cases "validate c t") (simp add: fresh_input_def)
    then have "ta_found t" by (auto simp: validate_def split: option.splits if_splits)
    with v no_earlier_holder [OF reachable_inv [OF assms(1)] c t _ validate_unlocked [OF v]] show ?thesis by blast
  qed
  with c p st t q show ?thesis by blast
qed

text \<open>
  Property (what a tenant changeset does). On the tenants table, an apply that succeeds in a reachable
  database writes the kind's target status to both state columns of the tenant it names,
  advances its revision by one and touches no other tenant; and unless the digest of the
  approved plan collides, the tenant was in a status the kind starts from.
\<close>

theorem tenant_change_applied:
  assumes "reachable digest cat tenant_targets st rows"
    and "apply_changeset digest cat tenant_targets rows st i expected oid key hash requester now = Inr (st', rows', o', False)"
  shows "\<exists>c kind p r. st_changesets st i = Some c \<and> cs_kinds (dc_kind (ch_desired_change c)) = Some kind \<and>
    load_plan st c = Inr p \<and> rows (dc_tenant_id (ch_desired_change c)) = Some r \<and>
    rows' = rows(dc_tenant_id (ch_desired_change c) \<mapsto> \<lparr>tn_desired_state = ki_to_status kind,
      tn_observed_state = ki_to_status kind, tn_revision = tn_revision r + 1\<rparr>) \<and>
    ((\<exists>q t. generate digest cat (fresh_input c t p now) = Inr q \<and> material digest p = material digest q \<and>
        material_input p \<noteq> material_input q) \<or> tn_desired_state r \<in> set (ki_from_status kind))"
proof (rule applied_facts [OF reachable_inv [OF assms(1)] assms(2)])
  fix c :: changeset and p t q kind and a :: approval and tenant_id :: string
  let ?d = "ch_desired_change c"
  assume c: "st_changesets st i = Some c" and p: "load_plan st c = Inr p" "pl_blockers p = []"
    and t: "read_target tenant_targets rows st c now = Inr t" and kind: "cs_kinds (dc_kind ?d) = Some kind"
    and q: "generate digest cat (fresh_input c t p now) = Inr q" "material digest p = material digest q"
    and ap: "tg_apply tenant_targets rows (c\<lparr>ch_state := StateApplying\<rparr>) kind p t (ap_decided_by a) (ap_decided_by_subject a) now =
      Inr (rows', tenant_id, True)"
  from ap obtain r where r: "rows (dc_tenant_id ?d) = Some r" "ki_target kind = TargetTenant"
    "rows' = rows(dc_tenant_id ?d \<mapsto> \<lparr>tn_desired_state = ki_to_status kind,
      tn_observed_state = ki_to_status kind, tn_revision = tn_revision r + 1\<rparr>)"
    by (auto simp: tenant_targets_def apply_tenant_def Let_def split: if_splits option.splits)
  from kind r have "target_type_of ?d = TargetTenant" by (simp add: target_type_of_def kind_target_def)
  with t r have status: "ta_status t = tn_desired_state r"
    by (auto simp: read_target_def tenant_targets_def tenant_query_def target_id_of_def)
  have "tn_desired_state r \<in> set (ki_from_status kind)" if "material_input p = material_input q"
  proof -
    from that p(2) have "pl_blockers q = []" by (simp add: material_input_def)
    with generated_for(2) [OF q(1)] show ?thesis
      using kind status by (auto simp: validate_def fresh_input_def split: option.splits if_splits)
  qed
  with c p kind r q show ?thesis by blast
qed

section \<open>A history that ends in COMPLETED\<close>

text \<open>The suspension of one tenant: drafted, submitted, approved by somebody else and applied.\<close>

definition ex_rows :: "string \<Rightarrow> tenant_row option" where
  "ex_rows = [''tn_acme'' \<mapsto> \<lparr>tn_desired_state = ''active'', tn_observed_state = ''active'', tn_revision = 4\<rparr>]"

definition ex_decision :: decision_request where
  "ex_decision = \<lparr>dr_plan_id = ''pl_1'', dr_plan_version = 1, dr_plan_digest = ''pl_1m-cs_1'',
     dr_decision = DecisionApproved, dr_reason = []\<rparr>"

definition ex_submit :: "store \<Rightarrow> cs_error + store" where
  "ex_submit st = submit_changeset ex_digest ex_catalogue tenant_targets ex_rows st ''cs_1'' 1 ''pl_1'' 20"

definition ex_decide :: "store \<Rightarrow> cs_error + (store \<times> approval)" where
  "ex_decide st = decide_changeset ex_digest ex_catalogue tenant_targets ex_rows st ''cs_1'' 2 ex_decision
     ''ap_1'' ''bob'' ''sub-bob'' 30"

definition ex_apply :: "store \<Rightarrow> cs_error + (store \<times> (string \<Rightarrow> tenant_row option) \<times> operation \<times> bool)" where
  "ex_apply st = apply_changeset ex_digest ex_catalogue tenant_targets ex_rows st ''cs_1'' 3
     ''op_1'' ''ka'' ''ha'' ''carol'' 40"

text \<open>What is evaluated of the approved changeset, and of the database after the apply.\<close>

definition ex_approved_ok :: "store \<Rightarrow> bool" where
  "ex_approved_ok st =
    (case st_changesets st ''cs_1'' of
       None \<Rightarrow> False
     | Some c \<Rightarrow> ch_desired_change c = ex_change \<and>
         (case load_plan st c of
            Inl _ \<Rightarrow> False
          | Inr p \<Rightarrow>
              (case read_target tenant_targets ex_rows st c 40 of
                 Inl _ \<Rightarrow> False
               | Inr t \<Rightarrow>
                   (case generate ex_digest ex_catalogue (fresh_input c t p 40) of
                      Inl _ \<Rightarrow> False
                    | Inr q \<Rightarrow> material_input p = material_input q))))"

definition ex_history_ok :: bool where
  "ex_history_ok =
    (case create_changeset empty_store ex_draft ''k'' ''h'' of
       Inl _ \<Rightarrow> False
     | Inr st1 \<Rightarrow>
         (case ex_submit st1 of
            Inl _ \<Rightarrow> False
          | Inr st2 \<Rightarrow>
              (case ex_decide st2 of
                 Inl _ \<Rightarrow> False
               | Inr (st3, a) \<Rightarrow> ex_approved_ok st3 \<and>
                   (case ex_apply st3 of
                      Inl _ \<Rightarrow> False
                    | Inr (st4, rows, o', replay) \<Rightarrow> \<not> replay \<and>
                        map_option ch_state (st_changesets st4 ''cs_1'') = Some StateCompleted))))"

lemma ex_history: "ex_history_ok"
  by code_simp

lemma ex_history_reachable:
  obtains st st' rows o' where "reachable ex_digest ex_catalogue tenant_targets st ex_rows" and "ex_approved_ok st"
    and "ex_apply st = Inr (st', rows, o', False)" and "reachable ex_digest ex_catalogue tenant_targets st' rows"
    and "map_option ch_state (st_changesets st' ''cs_1'') = Some StateCompleted"
proof -
  from ex_history obtain st1 st2 st3 a st4 rows o' where
    st1: "create_changeset empty_store ex_draft ''k'' ''h'' = Inr st1" and st2: "ex_submit st1 = Inr st2"
    and st3: "ex_decide st2 = Inr (st3, a)" "ex_approved_ok st3"
    and st4: "ex_apply st3 = Inr (st4, rows, o', False)"
      "map_option ch_state (st_changesets st4 ''cs_1'') = Some StateCompleted"
    unfolding ex_history_ok_def by (auto split: sum.splits)
  have "reachable ex_digest ex_catalogue tenant_targets st1 ex_rows"
    by (rule reachable.create [OF reachable.start ex_draft_ok st1])
  then have "reachable ex_digest ex_catalogue tenant_targets st2 ex_rows"
    by (rule reachable.submit [OF _ st2 [unfolded ex_submit_def]])
  then have "reachable ex_digest ex_catalogue tenant_targets st3 ex_rows"
    by (rule reachable.decide [OF _ st3(1) [unfolded ex_decide_def]])
  moreover from this have "reachable ex_digest ex_catalogue tenant_targets st4 rows"
    by (rule reachable.execute [OF _ st4(1) [unfolded ex_apply_def]])
  ultimately show thesis using st3(2) st4 that by blast
qed

theorem completed_was_governed_witness:
  "\<exists>(st :: store) (rows :: string \<Rightarrow> tenant_row option) c p a o'.
    reachable ex_digest ex_catalogue tenant_targets st rows \<and> st_changesets st ''cs_1'' = Some c \<and>
    ch_state c = StateCompleted \<and> ch_current_plan c = Some (reference p) \<and> pl_blockers p = [] \<and>
    a \<in> set (st_approvals st) \<and> ap_decided_by a \<noteq> ch_requested_by c \<and> ap_plan_digest a = pl_plan_digest p \<and>
    o' \<in> set (st_operations st) \<and> op_approval_id o' = ap_approval_id a"
proof (rule ex_history_reachable)
  fix st' rows
  assume r: "reachable ex_digest ex_catalogue tenant_targets st' rows"
    and "map_option ch_state (st_changesets st' ''cs_1'') = Some StateCompleted"
  then obtain c where c: "st_changesets st' ''cs_1'' = Some c" "ch_state c = StateCompleted" by blast
  show ?thesis using completed_was_governed [OF r c] r c by blast
qed


theorem applied_on_current_target_witness:
  "\<exists>(st :: store) c p t. reachable ex_digest ex_catalogue tenant_targets st ex_rows \<and>
    st_changesets st ''cs_1'' = Some c \<and> load_plan st c = Inr p \<and> 40 < pl_expires_at p \<and>
    read_target tenant_targets ex_rows st c 40 = Inr t \<and> validate c t = \<lparr>va_invalid = [], va_blockers = []\<rparr>"
proof (rule ex_history_reachable)
  fix st st' rows o'
  assume r: "reachable ex_digest ex_catalogue tenant_targets st ex_rows" and ok: "ex_approved_ok st"
    and ap: "ex_apply st = Inr (st', rows, o', False)"
  from applied_on_current_target [OF r ap [unfolded ex_apply_def]] obtain c p t q where
    w: "st_changesets st ''cs_1'' = Some c" "load_plan st c = Inr p" "40 < pl_expires_at p"
      "read_target tenant_targets ex_rows st c 40 = Inr t" "generate ex_digest ex_catalogue (fresh_input c t p 40) = Inr q"
    and clean: "material_input p = material_input q \<Longrightarrow> validate c t = \<lparr>va_invalid = [], va_blockers = []\<rparr>" by blast
  from ok w have "material_input p = material_input q" by (simp add: ex_approved_ok_def)
  with r w clean show ?thesis by blast
qed

theorem tenant_change_applied_witness:
  "\<exists>(st :: store) st' rows o'. reachable ex_digest ex_catalogue tenant_targets st ex_rows \<and>
    ex_apply st = Inr (st', rows, o', False) \<and> rows ''tn_acme'' =
      Some \<lparr>tn_desired_state = ''suspended'', tn_observed_state = ''suspended'', tn_revision = 5\<rparr>"
proof (rule ex_history_reachable)
  fix st st' rows o'
  assume r: "reachable ex_digest ex_catalogue tenant_targets st ex_rows" and ok: "ex_approved_ok st"
    and ap: "ex_apply st = Inr (st', rows, o', False)"
  from tenant_change_applied [OF r ap [unfolded ex_apply_def]] obtain c kind t where
    w: "st_changesets st ''cs_1'' = Some c" "cs_kinds (dc_kind (ch_desired_change c)) = Some kind"
      "ex_rows (dc_tenant_id (ch_desired_change c)) = Some t"
      "rows = ex_rows(dc_tenant_id (ch_desired_change c) \<mapsto> \<lparr>tn_desired_state = ki_to_status kind,
        tn_observed_state = ki_to_status kind, tn_revision = tn_revision t + 1\<rparr>)" by blast
  from ok w(1) have "ch_desired_change c = ex_change" by (simp add: ex_approved_ok_def)
  with w have "rows ''tn_acme'' = Some \<lparr>tn_desired_state = ''suspended'', tn_observed_state = ''suspended'', tn_revision = 5\<rparr>"
    by (auto simp: ex_change_def ex_rows_def)
  with r ap show ?thesis by blast
qed

end
