(* ===== verification/Release.thy ===== *)
theory Release
  imports Prelude "HOL-Library.AList" "HOL-Library.Multiset"
begin

text \<open>
  Engine releases (\<open>internal/topology/release\<close>): what a recorded release must satisfy
  (\<open>release.go\<close>), which release an instance is observed running (\<open>observation.go\<close>), when that is
  drift from the desired one (\<open>drift.go\<close>), and what drift does to a tenant's readiness
  (\<open>readiness.go\<close>). Identifiers are in \<open>Domain_Ids\<close>.

  The index expression \<open>releases[0]\<close> of \<open>Derive\<close> panics on an observation without artifacts, which
  is the \<open>Inl\<close> branch of \<open>derive\<close>. \<open>sort.Slice\<close> may leave equal keys in any order; the model keeps
  them in the order of the slice. JSON wire forms and the content digest are not modelled.
\<close>

section \<open>Recording a release\<close>

record artifact =
  af_artifact_type :: string
  af_repository :: string
  af_digest :: string
  af_platform :: string
  af_display_tag :: string

record provider_support =
  su_provider_key :: string
  su_capability :: string
  su_contract_versions :: "int list"

record provenance =
  pr_attestation_uri :: string
  pr_attestation_digest :: string
  pr_builder_id :: string

record record_request =
  rr_engine_id :: string
  rr_release_version :: string
  rr_artifacts :: "artifact list"
  rr_provider_support :: "provider_support list"
  rr_declaration_digest :: string
  rr_source_revision :: string
  rr_provenance :: "provenance option"
  rr_reason :: string

datatype record_error = ErrDuplicateDigest string | ReasonProviderNotOwned string | ErrDuplicateSupport string string

fun digest_error :: "string list \<Rightarrow> artifact list \<Rightarrow> record_error option" where
  "digest_error seen [] = None"
| "digest_error seen (a # as) =
    (if af_digest a \<in> set seen then Some (ErrDuplicateDigest (af_digest a)) else digest_error (af_digest a # seen) as)"

definition support_key :: "provider_support \<Rightarrow> string" where
  "support_key s = su_provider_key s @ '' '' @ su_capability s"

text \<open>The part of a provider key before its first dot.\<close>

definition engine_of_provider :: "string \<Rightarrow> string" where
  "engine_of_provider key = takeWhile (\<lambda>c. c \<noteq> CHR ''.'') key"

fun support_error :: "string \<Rightarrow> string list \<Rightarrow> provider_support list \<Rightarrow> record_error option" where
  "support_error engine seen [] = None"
| "support_error engine seen (s # ss) =
    (if engine_of_provider (su_provider_key s) \<noteq> engine then Some (ReasonProviderNotOwned (su_provider_key s))
     else if support_key s \<in> set seen then Some (ErrDuplicateSupport (su_provider_key s) (su_capability s))
     else support_error engine (support_key s # seen) ss)"

definition record_check :: "record_request \<Rightarrow> record_error option" where
  "record_check r =
    (case digest_error [] (rr_artifacts r) of
       Some e \<Rightarrow> Some e
     | None \<Rightarrow> support_error (rr_engine_id r) [] (rr_provider_support r))"

section \<open>Observed releases\<close>

datatype observed_state =
    ObservedRelease | ObservedUnknownArtifact | ObservedForeignArtifact | ObservedMixed | ObservedUnknown | ObservedOther string

record observed_artifact =
  oa_digest :: string
  oa_platform :: string

record dep_observation =
  do_observation_id :: string
  do_engine_instance_id :: string
  do_artifacts :: "observed_artifact list"
  do_environment :: string
  do_region :: string
  do_observed_at :: instant
  do_expires_at :: instant
  do_recorded_at :: instant
  do_ingestion_sequence :: int
  do_source :: string

record observed_release =
  or_engine_instance_id :: string
  or_state :: observed_state
  or_release_id :: string
  or_release_ids :: "string list"
  or_observation_id :: string
  or_evaluated_at :: instant

record owner =
  ow_release_id :: string
  ow_engine_id :: string

definition dep_current :: "dep_observation \<Rightarrow> instant \<Rightarrow> bool" where
  "dep_current ob now \<longleftrightarrow> do_observed_at ob \<le> now \<and> now < do_expires_at ob"

definition newer_deployment :: "dep_observation \<Rightarrow> dep_observation \<Rightarrow> bool" where
  "newer_deployment a b =
    (if do_observed_at a \<noteq> do_observed_at b then do_observed_at b < do_observed_at a
     else do_ingestion_sequence b < do_ingestion_sequence a)"

definition current_observation :: "dep_observation list \<Rightarrow> instant \<Rightarrow> dep_observation option" where
  "current_observation obs now =
    (case keep_newest newer_deployment None obs of
       None \<Rightarrow> None
     | Some newest \<Rightarrow> if dep_current newest now then Some newest else None)"

datatype release_panic = IndexOutOfRange

text \<open>The loop over the artifacts: it stops at an unknown one (\<open>None\<close>).\<close>

fun derive_loop ::
  "string \<Rightarrow> (string \<Rightarrow> owner option) \<Rightarrow> observed_artifact list \<Rightarrow> string list \<Rightarrow> bool \<Rightarrow> (string list \<times> bool) option" where
  "derive_loop engine owners [] releases foreign = Some (releases, foreign)"
| "derive_loop engine owners (a # as) releases foreign =
    (case owners (oa_digest a) of
       None \<Rightarrow> None
     | Some w \<Rightarrow>
         if ow_engine_id w \<noteq> engine then derive_loop engine owners as releases True
         else if ow_release_id w \<notin> set releases then derive_loop engine owners as (releases @ [ow_release_id w]) foreign
         else derive_loop engine owners as releases foreign)"

definition derive ::
  "string \<Rightarrow> string \<Rightarrow> dep_observation option \<Rightarrow> (string \<Rightarrow> owner option) \<Rightarrow> instant \<Rightarrow> release_panic + observed_release" where
  "derive inst engine current owners now =
    (let out = \<lparr>or_engine_instance_id = inst, or_state = ObservedUnknown, or_release_id = [], or_release_ids = [],
                or_observation_id = [], or_evaluated_at = now\<rparr> in
     case current of
       None \<Rightarrow> Inr out
     | Some ob \<Rightarrow>
         let out = out\<lparr>or_observation_id := do_observation_id ob\<rparr> in
         (case derive_loop engine owners (do_artifacts ob) [] False of
            None \<Rightarrow> Inr (out\<lparr>or_state := ObservedUnknownArtifact\<rparr>)
          | Some (releases, foreign) \<Rightarrow>
              if foreign then Inr (out\<lparr>or_state := ObservedForeignArtifact\<rparr>)
              else if 1 < length releases then Inr (out\<lparr>or_state := ObservedMixed, or_release_ids := sort releases\<rparr>)
              else (case releases of
                      [] \<Rightarrow> Inl IndexOutOfRange
                    | r # _ \<Rightarrow> Inr (out\<lparr>or_state := ObservedRelease, or_release_id := r\<rparr>))))"

section \<open>Drift\<close>

datatype drift_reason =
    DriftRevokedReleaseRunning | DriftUnknownArtifactRunning | DriftDeploymentLocationMismatch
  | DriftReleaseMismatch | DriftReleaseUnobserved

definition drift_precedence :: "drift_reason list" where
  "drift_precedence = [DriftRevokedReleaseRunning, DriftUnknownArtifactRunning, DriftDeploymentLocationMismatch,
     DriftReleaseMismatch, DriftReleaseUnobserved]"

record drift_rule =
  dl_grace :: duration
  dl_severity :: string
  dl_readiness_effect :: string

text \<open>The \<open>drift\<close> section of the embedded \<open>release-policy.yaml\<close>.\<close>

fun drift_policy :: "drift_reason \<Rightarrow> drift_rule" where
  "drift_policy DriftReleaseMismatch = \<lparr>dl_grace = 1800 * second_ns, dl_severity = ''DEGRADED'', dl_readiness_effect = ''DEGRADED''\<rparr>"
| "drift_policy DriftRevokedReleaseRunning = \<lparr>dl_grace = 0, dl_severity = ''CRITICAL'', dl_readiness_effect = ''BLOCKED''\<rparr>"
| "drift_policy DriftUnknownArtifactRunning = \<lparr>dl_grace = 0, dl_severity = ''CRITICAL'', dl_readiness_effect = ''BLOCKED''\<rparr>"
| "drift_policy DriftReleaseUnobserved = \<lparr>dl_grace = 900 * second_ns, dl_severity = ''WARNING'', dl_readiness_effect = ''DEGRADED''\<rparr>"
| "drift_policy DriftDeploymentLocationMismatch = \<lparr>dl_grace = 0, dl_severity = ''CRITICAL'', dl_readiness_effect = ''BLOCKED''\<rparr>"

record drift_input =
  di_environment :: string
  di_region :: string
  di_desired_release_id :: string
  di_desired_since :: instant
  di_observed :: observed_release
  di_current :: "dep_observation option"
  di_revoked :: "string list"

record drift_condition =
  dn_reason :: drift_reason
  dn_not_before :: instant

definition drift_holds :: "drift_input \<Rightarrow> drift_reason \<Rightarrow> bool" where
  "drift_holds i reason =
    (case reason of
       DriftRevokedReleaseRunning \<Rightarrow> di_revoked i \<noteq> []
     | DriftUnknownArtifactRunning \<Rightarrow> or_state (di_observed i) \<in> {ObservedUnknownArtifact, ObservedForeignArtifact}
     | DriftDeploymentLocationMismatch \<Rightarrow>
         (case di_current i of None \<Rightarrow> False
          | Some ob \<Rightarrow> do_environment ob \<noteq> di_environment i \<or> do_region ob \<noteq> di_region i)
     | DriftReleaseMismatch \<Rightarrow> di_desired_release_id i \<noteq> [] \<and>
         (or_state (di_observed i) = ObservedRelease \<and> or_release_id (di_observed i) \<noteq> di_desired_release_id i \<or>
          or_state (di_observed i) = ObservedMixed)
     | DriftReleaseUnobserved \<Rightarrow> di_desired_release_id i \<noteq> [] \<and> or_state (di_observed i) = ObservedUnknown)"

text \<open>The zero instant when the reason does not depend on the desired release.\<close>

definition release_drift_condition :: "drift_input \<Rightarrow> drift_condition option" where
  "release_drift_condition i =
    map_option (\<lambda>reason. \<lparr>dn_reason = reason, dn_not_before =
        (if reason = DriftReleaseMismatch \<or> reason = DriftReleaseUnobserved then di_desired_since i else 0)\<rparr>)
      (find (drift_holds i) drift_precedence)"

definition drift_open :: "drift_rule \<Rightarrow> instant \<Rightarrow> instant \<Rightarrow> instant \<Rightarrow> bool" where
  "drift_open rule since not_before now \<longleftrightarrow>
    \<not> now < (if since < not_before then not_before else since) + dl_grace rule"

section \<open>Readiness\<close>

definition effect_blocked :: string where
  "effect_blocked = ''BLOCKED''"

definition effect_degraded :: string where
  "effect_degraded = ''DEGRADED''"

record bound_instance =
  bi_engine_instance_id :: string
  bi_drift_reason :: string
  bi_drift_effect :: string

record readiness_finding =
  rf_reason :: string
  rf_engine_instance_ids :: "string list"

record capability_readiness =
  ca_capability_key :: string
  ca_mandatory :: bool
  ca_effect :: string
  ca_findings :: "readiness_finding list"

text \<open>The loop over the bindings, with the map from reasons to instances and the flag.\<close>

fun readiness_loop ::
  "bound_instance list \<Rightarrow> (string \<times> string list) list \<Rightarrow> bool \<Rightarrow> (string \<times> string list) list \<times> bool" where
  "readiness_loop [] by_reason all_blocked = (by_reason, all_blocked)"
| "readiness_loop (b # bs) by_reason all_blocked =
    (if bi_drift_reason b = [] then readiness_loop bs by_reason False
     else readiness_loop bs
       (AList.update (bi_drift_reason b)
          (map_read [] (map_of by_reason) (bi_drift_reason b) @ [bi_engine_instance_id b]) by_reason)
       (if bi_drift_effect b \<noteq> effect_blocked then False else all_blocked))"

definition release_readiness_of :: "string \<Rightarrow> bool \<Rightarrow> bound_instance list \<Rightarrow> capability_readiness" where
  "release_readiness_of key mandatory bindings =
    (let out = \<lparr>ca_capability_key = key, ca_mandatory = mandatory, ca_effect = [], ca_findings = []\<rparr> in
     if bindings = [] then out
     else let (by_reason, all_blocked) = readiness_loop bindings [] True in
       if by_reason = [] then out
       else out\<lparr>ca_findings := map (\<lambda>r. \<lparr>rf_reason = r, rf_engine_instance_ids = sort (map_read [] (map_of by_reason) r)\<rparr>)
                               (sort (map fst by_reason)),
                ca_effect := (if mandatory \<and> all_blocked then effect_blocked else effect_degraded)\<rparr>)"

record tenant_readiness =
  tr_effect :: string
  tr_capabilities :: "capability_readiness list"

fun aggregate_loop :: "capability_readiness list \<Rightarrow> tenant_readiness \<Rightarrow> tenant_readiness" where
  "aggregate_loop [] out = out"
| "aggregate_loop (c # cs) out =
    (if ca_effect c = [] then aggregate_loop cs out
     else aggregate_loop cs (out\<lparr>tr_capabilities := tr_capabilities out @ [c],
       tr_effect := (if ca_effect c = effect_blocked then effect_blocked
                     else if tr_effect out = [] then effect_degraded else tr_effect out)\<rparr>))"

definition aggregate :: "capability_readiness list \<Rightarrow> tenant_readiness" where
  "aggregate cs = (let out = aggregate_loop cs \<lparr>tr_effect = [], tr_capabilities = []\<rparr> in
     out\<lparr>tr_capabilities := sort_key ca_capability_key (tr_capabilities out)\<rparr>)"

section \<open>A recorded release\<close>

lemma digest_error_None:
  "digest_error seen as = None \<longleftrightarrow> distinct (map af_digest as) \<and> set (map af_digest as) \<inter> set seen = {}"
  by (induction as arbitrary: seen) auto

lemma support_error_None:
  "support_error engine seen ss = None \<longleftrightarrow> (\<forall>s \<in> set ss. engine_of_provider (su_provider_key s) = engine) \<and>
     distinct (map support_key ss) \<and> set (map support_key ss) \<inter> set seen = {}"
  by (induction ss arbitrary: seen) auto

lemma support_key_inj:
  assumes "CHR '' '' \<notin> set (su_provider_key s)" and "CHR '' '' \<notin> set (su_provider_key t)"
  shows "support_key s = support_key t \<longleftrightarrow> su_provider_key s = su_provider_key t \<and> su_capability s = su_capability t"
proof
  have cut: "takeWhile (\<lambda>c. c \<noteq> CHR '' '') (support_key u) = su_provider_key u \<and>
      dropWhile (\<lambda>c. c \<noteq> CHR '' '') (support_key u) = '' '' @ su_capability u" if "CHR '' '' \<notin> set (su_provider_key u)" for u
    using that by (simp add: support_key_def takeWhile_append dropWhile_append in_set_conv_decomp)
  assume "support_key s = support_key t"
  with cut [OF assms(1)] cut [OF assms(2)] show "su_provider_key s = su_provider_key t \<and> su_capability s = su_capability t"
    by auto
qed (simp add: support_key_def)

text \<open>
  Property (what a recorded release satisfies). When no provider key contains a blank, \<open>Check\<close> accepts a
  record request exactly when its artifact digests are distinct, every provider belongs to the
  request's engine, and no provider lists its support for a capability twice.
\<close>

theorem record_check_iff:
  assumes "list_all (\<lambda>s. CHR '' '' \<notin> set (su_provider_key s)) (rr_provider_support r)"
  shows "record_check r = None \<longleftrightarrow> distinct (map af_digest (rr_artifacts r)) \<and>
    list_all (\<lambda>s. engine_of_provider (su_provider_key s) = rr_engine_id r) (rr_provider_support r) \<and>
    distinct (map (\<lambda>s. (su_provider_key s, su_capability s)) (rr_provider_support r))"
proof -
  have "distinct (map support_key ss) \<longleftrightarrow> distinct (map (\<lambda>s. (su_provider_key s, su_capability s)) ss)"
    if "list_all (\<lambda>s. CHR '' '' \<notin> set (su_provider_key s)) ss" for ss
    using that by (induction ss) (auto simp: image_iff list_all_iff support_key_inj)
  with assms show ?thesis
    by (auto simp: record_check_def error_simps digest_error_None support_error_None list_all_iff)
qed

section \<open>The current observation\<close>

interpretation deployment_order: newest_first newer_deployment
  by unfold_locales (auto simp: newer_deployment_def split: if_splits)

text \<open>
  Property (an older observation never stands in). Among observations with distinct ingestion
  sequences, the current observation at an instant is the one, if any, that supersedes every
  other, provided it is itself current; when that one is expired or dated in the future there
  is none, however current the others are. The order in which they are read is immaterial.
\<close>

theorem current_observation_iff:
  assumes "distinct (map do_ingestion_sequence obs)"
  shows "current_observation obs now = Some ob \<longleftrightarrow>
    ob \<in> set obs \<and> dep_current ob now \<and> (\<forall>x \<in> set obs - {ob}. newer_deployment ob x)"
proof
  have total: "newer_deployment x y \<or> newer_deployment y x" if "x \<in> set obs" "y \<in> set obs" "x \<noteq> y" for x y
  proof -
    from assms that have "do_ingestion_sequence x \<noteq> do_ingestion_sequence y" by (auto simp: distinct_map dest: inj_onD)
    then show ?thesis by (auto simp: newer_deployment_def)
  qed
  assume "current_observation obs now = Some ob"
  then have k: "keep_newest newer_deployment None obs = Some ob" "dep_current ob now"
    by (auto simp: current_observation_def split: option.splits if_splits)
  from deployment_order.keep_newest_max [OF k(1)] k(2) total
  show "ob \<in> set obs \<and> dep_current ob now \<and> (\<forall>x \<in> set obs - {ob}. newer_deployment ob x)" by blast
next
  assume a: "ob \<in> set obs \<and> dep_current ob now \<and> (\<forall>x \<in> set obs - {ob}. newer_deployment ob x)"
  then obtain m where m: "keep_newest newer_deployment None obs = Some m"
    using deployment_order.keep_newest_None_iff [of obs] by (cases "keep_newest newer_deployment None obs") auto
  with a have "m = ob" by (intro deployment_order.keep_newest_unique [OF m]) auto
  with m a show "current_observation obs now = Some ob" by (simp add: current_observation_def)
qed

section \<open>The observed release\<close>

text \<open>Everything observed is an artifact of one release of the engine.\<close>

definition runs_release :: "string \<Rightarrow> (string \<Rightarrow> owner option) \<Rightarrow> dep_observation \<Rightarrow> string \<Rightarrow> bool" where
  "runs_release engine owners ob r \<longleftrightarrow> do_artifacts ob \<noteq> [] \<and>
     list_all (\<lambda>a. owners (oa_digest a) = Some \<lparr>ow_release_id = r, ow_engine_id = engine\<rparr>) (do_artifacts ob)"

lemma derive_loop_None: "derive_loop engine owners as releases foreign = None \<longleftrightarrow> (\<exists>a \<in> set as. owners (oa_digest a) = None)"
  by (induction as arbitrary: releases foreign) (auto split: option.splits)

text \<open>The releases of the engine among the owners, and whether another engine is among them.\<close>

definition own_releases :: "string \<Rightarrow> (string \<Rightarrow> owner option) \<Rightarrow> observed_artifact list \<Rightarrow> string set" where
  "own_releases engine owners as =
    {r. \<exists>a \<in> set as. \<exists>w. owners (oa_digest a) = Some w \<and> ow_engine_id w = engine \<and> ow_release_id w = r}"

definition has_foreign :: "string \<Rightarrow> (string \<Rightarrow> owner option) \<Rightarrow> observed_artifact list \<Rightarrow> bool" where
  "has_foreign engine owners as \<longleftrightarrow> (\<exists>a \<in> set as. \<exists>w. owners (oa_digest a) = Some w \<and> ow_engine_id w \<noteq> engine)"

lemma own_releases_Cons:
  "owners (oa_digest a) = Some w \<Longrightarrow> own_releases engine owners (a # as) =
    (if ow_engine_id w = engine then insert (ow_release_id w) (own_releases engine owners as) else own_releases engine owners as)"
  "owners (oa_digest a) = Some w \<Longrightarrow>
    has_foreign engine owners (a # as) = (ow_engine_id w \<noteq> engine \<or> has_foreign engine owners as)"
  by (auto simp: own_releases_def has_foreign_def)

lemma derive_loop_Some:
  "derive_loop engine owners as releases foreign = Some (rs, f) \<Longrightarrow> distinct releases \<Longrightarrow>
    f = (foreign \<or> has_foreign engine owners as) \<and> distinct rs \<and> set rs = set releases \<union> own_releases engine owners as"
proof (induction as arbitrary: releases foreign)
  case Nil
  then show ?case by (simp add: own_releases_def has_foreign_def)
next
  case (Cons a as)
  from Cons.prems(1) obtain w where w: "owners (oa_digest a) = Some w" by (auto split: option.splits)
  show ?case
  proof (cases "ow_engine_id w = engine")
    case False
    with Cons.prems w have "derive_loop engine owners as releases True = Some (rs, f)" by simp
    from Cons.IH [OF this Cons.prems(2)] False show ?thesis by (simp add: own_releases_Cons [of owners a w, OF w])
  next
    case True
    let ?releases = "if ow_release_id w \<in> set releases then releases else releases @ [ow_release_id w]"
    from True Cons.prems w have "derive_loop engine owners as ?releases foreign = Some (rs, f)" by (simp split: if_splits)
    from Cons.IH [OF this] Cons.prems(2) True show ?thesis
      by (auto simp: own_releases_Cons [of owners a w, OF w] split: if_splits)
  qed
qed

lemma own_releases_one:
  assumes "\<forall>a \<in> set as. owners (oa_digest a) \<noteq> None" and "\<not> has_foreign engine owners as"
  shows "own_releases engine owners as = {r} \<longleftrightarrow>
      as \<noteq> [] \<and> (\<forall>a \<in> set as. owners (oa_digest a) = Some \<lparr>ow_release_id = r, ow_engine_id = engine\<rparr>)"
    and "own_releases engine owners as = {} \<longleftrightarrow> as = []"
    and "own_releases engine owners as = set (map (\<lambda>a. ow_release_id (the (owners (oa_digest a)))) as)"
proof -
  have own: "\<exists>w. owners (oa_digest a) = Some w \<and> ow_engine_id w = engine" if "a \<in> set as" for a
    using assms that by (auto simp: has_foreign_def)
  show img: "own_releases engine owners as = set (map (\<lambda>a. ow_release_id (the (owners (oa_digest a)))) as)"
  proof (intro set_eqI iffI)
    fix r assume "r \<in> set (map (\<lambda>a. ow_release_id (the (owners (oa_digest a)))) as)"
    then obtain a where "a \<in> set as" "r = ow_release_id (the (owners (oa_digest a)))" by auto
    with own [of a] show "r \<in> own_releases engine owners as" by (auto simp: own_releases_def intro!: bexI [of _ a])
  qed (auto simp: own_releases_def intro!: rev_image_eqI)
  then show "own_releases engine owners as = {} \<longleftrightarrow> as = []" by simp
  have one: "owners (oa_digest a) = Some \<lparr>ow_release_id = r, ow_engine_id = engine\<rparr> \<longleftrightarrow>
      ow_release_id (the (owners (oa_digest a))) = r" if "a \<in> set as" for a
  proof -
    from own [OF that] obtain w where "owners (oa_digest a) = Some w" "ow_engine_id w = engine" by blast
    then show ?thesis by (cases w) auto
  qed
  show "own_releases engine owners as = {r} \<longleftrightarrow>
      as \<noteq> [] \<and> (\<forall>a \<in> set as. owners (oa_digest a) = Some \<lparr>ow_release_id = r, ow_engine_id = engine\<rparr>)"
    unfolding img using one by (cases as) auto
qed

lemma derive_value:
  "derive_loop engine owners (do_artifacts ob) [] False = None \<Longrightarrow> derive inst engine (Some ob) owners now =
     Inr \<lparr>or_engine_instance_id = inst, or_state = ObservedUnknownArtifact, or_release_id = [], or_release_ids = [],
       or_observation_id = do_observation_id ob, or_evaluated_at = now\<rparr>"
  "derive_loop engine owners (do_artifacts ob) [] False = Some (rs, True) \<Longrightarrow> derive inst engine (Some ob) owners now =
     Inr \<lparr>or_engine_instance_id = inst, or_state = ObservedForeignArtifact, or_release_id = [], or_release_ids = [],
       or_observation_id = do_observation_id ob, or_evaluated_at = now\<rparr>"
  "derive_loop engine owners (do_artifacts ob) [] False = Some (rs, False) \<Longrightarrow> derive inst engine (Some ob) owners now =
     (if 1 < length rs then Inr \<lparr>or_engine_instance_id = inst, or_state = ObservedMixed, or_release_id = [],
        or_release_ids = sort rs, or_observation_id = do_observation_id ob, or_evaluated_at = now\<rparr>
      else if rs = [] then Inl IndexOutOfRange
      else Inr \<lparr>or_engine_instance_id = inst, or_state = ObservedRelease, or_release_id = hd rs, or_release_ids = [],
        or_observation_id = do_observation_id ob, or_evaluated_at = now\<rparr>)"
  by (auto simp: derive_def Let_def split: list.splits)

text \<open>The three ways the loop over the artifacts ends.\<close>

lemma derive_loop_cases:
  obtains (unknown) "derive_loop engine owners as [] False = None" "\<exists>a \<in> set as. owners (oa_digest a) = None"
  | (foreign) rs where "derive_loop engine owners as [] False = Some (rs, True)"
      "\<forall>a \<in> set as. owners (oa_digest a) \<noteq> None" "has_foreign engine owners as"
  | (own) rs where "derive_loop engine owners as [] False = Some (rs, False)"
      "\<forall>a \<in> set as. owners (oa_digest a) \<noteq> None" "\<not> has_foreign engine owners as"
      "distinct rs" "set rs = own_releases engine owners as"
proof (cases "derive_loop engine owners as [] False")
  case None
  then show ?thesis using unknown by (simp add: derive_loop_None)
next
  case (Some x)
  obtain rs f where x: "x = (rs, f)" by (cases x)
  note spec = derive_loop_Some [OF Some [unfolded x], simplified]
  have "\<forall>a \<in> set as. owners (oa_digest a) \<noteq> None" using derive_loop_None [of engine owners as "[]" False] Some by auto
  with Some x spec foreign own show ?thesis by (cases f) auto
qed

lemma own_facts:
  assumes "\<forall>a \<in> set (do_artifacts ob). owners (oa_digest a) \<noteq> None" "\<not> has_foreign engine owners (do_artifacts ob)"
    "distinct rs" "set rs = own_releases engine owners (do_artifacts ob)"
  shows "runs_release engine owners ob q \<longleftrightarrow> rs = [q]" and "do_artifacts ob = [] \<longleftrightarrow> rs = []"
    and "list_all (\<lambda>a. \<exists>w. owners (oa_digest a) = Some w \<and> ow_engine_id w = engine) (do_artifacts ob)"
    and "sorted_list_of_set (set (map (\<lambda>a. ow_release_id (the (owners (oa_digest a)))) (do_artifacts ob))) = sort rs"
proof -
  note one = own_releases_one [OF assms(1,2)]
  have single: "rs = [q] \<longleftrightarrow> set rs = {q}" using assms(3) by (cases rs; cases "tl rs") auto
  show "runs_release engine owners ob q \<longleftrightarrow> rs = [q]"
    unfolding single using one(1) assms(4) by (simp add: runs_release_def list_all_iff)
  show "do_artifacts ob = [] \<longleftrightarrow> rs = []" using one(2) assms(4) by auto
  show "list_all (\<lambda>a. \<exists>w. owners (oa_digest a) = Some w \<and> ow_engine_id w = engine) (do_artifacts ob)"
    using assms(1,2) by (auto simp: list_all_iff has_foreign_def)
  show "sorted_list_of_set (set (map (\<lambda>a. ow_release_id (the (owners (oa_digest a)))) (do_artifacts ob))) = sort rs"
    unfolding one(3) [symmetric] assms(4) [symmetric] using assms(3)
    by (simp only: sorted_list_of_set_sort_remdups distinct_remdups_id)
qed

text \<open>
  Property (the observed release). \<open>Derive\<close> on an observation reports UNKNOWN_ARTIFACT exactly when some
  observed digest has no owner; otherwise FOREIGN_ARTIFACT exactly when some digest belongs to
  another engine; RELEASE with an identifier exactly when every digest is an artifact of that
  release of the engine; otherwise MIXED, with the releases of the observed digests listed once
  each in order. It panics exactly on an observation without artifacts.
\<close>

theorem derive_correct:
  "(derive inst engine (Some ob) owners now = Inl IndexOutOfRange \<longleftrightarrow> do_artifacts ob = []) \<and>
   ((\<exists>out. derive inst engine (Some ob) owners now = Inr out \<and> or_state out = ObservedUnknownArtifact) \<longleftrightarrow>
     list_ex (\<lambda>a. owners (oa_digest a) = None) (do_artifacts ob)) \<and>
   ((\<exists>out. derive inst engine (Some ob) owners now = Inr out \<and> or_state out = ObservedForeignArtifact) \<longleftrightarrow>
     list_all (\<lambda>a. owners (oa_digest a) \<noteq> None) (do_artifacts ob) \<and>
     list_ex (\<lambda>a. ow_engine_id (the (owners (oa_digest a))) \<noteq> engine) (do_artifacts ob)) \<and>
   ((\<exists>out. derive inst engine (Some ob) owners now = Inr out \<and> or_state out = ObservedRelease \<and> or_release_id out = r) \<longleftrightarrow>
     runs_release engine owners ob r) \<and>
   ((\<exists>out. derive inst engine (Some ob) owners now = Inr out \<and> or_state out = ObservedMixed \<and> or_release_ids out = rs) \<longleftrightarrow>
     list_all (\<lambda>a. \<exists>w. owners (oa_digest a) = Some w \<and> ow_engine_id w = engine) (do_artifacts ob) \<and>
     rs = sorted_list_of_set (set (map (\<lambda>a. ow_release_id (the (owners (oa_digest a)))) (do_artifacts ob))) \<and> 1 < length rs)"
proof (cases rule: derive_loop_cases [of engine owners "do_artifacts ob"])
  case unknown
  then obtain a where "a \<in> set (do_artifacts ob)" "owners (oa_digest a) = None" by blast
  then have "do_artifacts ob \<noteq> []" "\<not> list_all (\<lambda>a. owners (oa_digest a) \<noteq> None) (do_artifacts ob)"
    "\<not> list_all (\<lambda>a. \<exists>w. owners (oa_digest a) = Some w \<and> ow_engine_id w = engine) (do_artifacts ob)"
    "list_ex (\<lambda>a. owners (oa_digest a) = None) (do_artifacts ob)" "\<not> runs_release engine owners ob r"
    by (auto simp: list_all_iff list_ex_iff runs_release_def intro!: bexI [of _ a])
  then show ?thesis by (simp add: derive_value(1) [OF unknown(1)])
next
  case (foreign rs')
  then obtain a w where "a \<in> set (do_artifacts ob)" "owners (oa_digest a) = Some w" "ow_engine_id w \<noteq> engine"
    by (auto simp: has_foreign_def)
  with foreign(2) have "do_artifacts ob \<noteq> []" "list_all (\<lambda>a. owners (oa_digest a) \<noteq> None) (do_artifacts ob)"
    "\<not> list_all (\<lambda>a. \<exists>w. owners (oa_digest a) = Some w \<and> ow_engine_id w = engine) (do_artifacts ob)"
    "\<not> list_ex (\<lambda>a. owners (oa_digest a) = None) (do_artifacts ob)" "\<not> runs_release engine owners ob r"
    "list_ex (\<lambda>a. ow_engine_id (the (owners (oa_digest a))) \<noteq> engine) (do_artifacts ob)"
    by (auto simp: list_all_iff list_ex_iff runs_release_def intro!: bexI [of _ a])
  then show ?thesis by (simp add: derive_value(2) [OF foreign(1)])
next
  case (own rs')
  note facts = own_facts [OF own(2-5)]
  from facts(3) have all: "\<not> list_ex (\<lambda>a. owners (oa_digest a) = None) (do_artifacts ob)"
    "\<not> list_ex (\<lambda>a. ow_engine_id (the (owners (oa_digest a))) \<noteq> engine) (do_artifacts ob)"
    by (auto simp: list_all_iff list_ex_iff)
  show ?thesis unfolding facts(1,2,4) derive_value(3) [OF own(1)] using facts(3) all
    by (cases rs'; cases "tl rs'") (auto simp: list_all_iff)
qed

section \<open>Drift\<close>

lemma drift_condition_first:
  "release_drift_condition i = Some c \<Longrightarrow> drift_holds i (dn_reason c)"
  by (auto simp: release_drift_condition_def dest!: find_SomeD)

lemma no_drift_iff: "release_drift_condition i = None \<longleftrightarrow> (\<forall>reason. \<not> drift_holds i reason)"
proof
  assume "release_drift_condition i = None"
  then have "\<forall>reason \<in> set drift_precedence. \<not> drift_holds i reason"
    by (simp only: release_drift_condition_def map_option_is_None find_None_iff) blast
  moreover have "reason \<in> set drift_precedence" for reason by (cases reason) (simp_all add: drift_precedence_def)
  ultimately show "\<forall>reason. \<not> drift_holds i reason" by blast
qed (simp add: release_drift_condition_def drift_precedence_def)

text \<open>
  Property (no drift means the desired release runs). For an instance whose observed release is derived
  from its current observation, there is no drift condition exactly when no observed release is
  revoked, the observation (if any) is of the instance's own environment and region, and: with a
  desired release, there is an observation and everything it observed is an artifact of that
  release; without one, there is no observation, or only the engine's own artifacts were observed.
\<close>

theorem no_drift_means_desired_runs:
  assumes "derive inst engine (di_current i) owners now = Inr (di_observed i)"
  shows "release_drift_condition i = None \<longleftrightarrow> di_revoked i = [] \<and>
    (case di_current i of
       None \<Rightarrow> di_desired_release_id i = []
     | Some ob \<Rightarrow> do_environment ob = di_environment i \<and> do_region ob = di_region i \<and>
         (if di_desired_release_id i \<noteq> [] then runs_release engine owners ob (di_desired_release_id i)
          else list_all (\<lambda>a. \<exists>w. owners (oa_digest a) = Some w \<and> ow_engine_id w = engine) (do_artifacts ob)))"
proof -
  have all: "(\<forall>reason. P reason) \<longleftrightarrow> P DriftRevokedReleaseRunning \<and> P DriftUnknownArtifactRunning \<and>
      P DriftDeploymentLocationMismatch \<and> P DriftReleaseMismatch \<and> P DriftReleaseUnobserved" for P
    by (metis drift_reason.exhaust)
  show ?thesis
  proof (cases "di_current i")
    case None
    with assms [symmetric] have "or_state (di_observed i) = ObservedUnknown" by (simp add: derive_def Let_def)
    then show ?thesis using None by (auto simp: no_drift_iff all drift_holds_def)
  next
    case (Some ob)
    show ?thesis
    proof (cases rule: derive_loop_cases [of engine owners "do_artifacts ob"])
      case unknown
      then have "\<not> runs_release engine owners ob r" for r by (auto simp: runs_release_def list_all_iff)
      moreover from unknown have "\<not> list_all (\<lambda>a. \<exists>w. owners (oa_digest a) = Some w \<and> ow_engine_id w = engine) (do_artifacts ob)"
        by (fastforce simp: list_all_iff)
      moreover from assms [symmetric] have "or_state (di_observed i) = ObservedUnknownArtifact"
        unfolding Some derive_value(1) [OF unknown(1)] by auto
      ultimately show ?thesis using Some by (simp add: no_drift_iff all drift_holds_def)
    next
      case (foreign rs)
      then have "\<not> runs_release engine owners ob r" for r by (fastforce simp: runs_release_def list_all_iff has_foreign_def)
      moreover from foreign have "\<not> list_all (\<lambda>a. \<exists>w. owners (oa_digest a) = Some w \<and> ow_engine_id w = engine) (do_artifacts ob)"
        by (fastforce simp: list_all_iff has_foreign_def)
      moreover from assms [symmetric] have "or_state (di_observed i) = ObservedForeignArtifact"
        unfolding Some derive_value(2) [OF foreign(1)] by auto
      ultimately show ?thesis using Some by (simp add: no_drift_iff all drift_holds_def)
    next
      case (own rs)
      note facts = own_facts [OF own(2-5)]
      from assms [symmetric] have "rs \<noteq> [] \<and> (if 1 < length rs then or_state (di_observed i) = ObservedMixed
          else or_state (di_observed i) = ObservedRelease \<and> or_release_id (di_observed i) = hd rs)"
        unfolding Some derive_value(3) [OF own(1)] by (auto split: if_splits)
      then show ?thesis using Some facts(3)
        by (cases rs; cases "tl rs") (auto simp: no_drift_iff all drift_holds_def facts(1))
    qed
  qed
qed

section \<open>Readiness\<close>

text \<open>Bindings whose instance has open drift, and those whose drift blocks.\<close>

definition drifting :: "bound_instance \<Rightarrow> bool" where
  "drifting b \<longleftrightarrow> bi_drift_reason b \<noteq> []"

definition blocking :: "bound_instance \<Rightarrow> bool" where
  "blocking b \<longleftrightarrow> drifting b \<and> bi_drift_effect b = effect_blocked"

lemma readiness_loop_spec:
  assumes "readiness_loop bs m all_blocked = (m', all_blocked')"
  shows "all_blocked' \<longleftrightarrow> all_blocked \<and> list_all blocking bs"
    and "set (map fst m') = set (map fst m) \<union> bi_drift_reason ` set (filter drifting bs)"
    and "distinct (map fst m) \<Longrightarrow> distinct (map fst m')"
    and "r \<noteq> [] \<Longrightarrow> map_read [] (map_of m') r =
      map_read [] (map_of m) r @ map bi_engine_instance_id (filter (\<lambda>b. bi_drift_reason b = r) bs)"
  using assms
proof (induction bs arbitrary: m all_blocked)
  case (Cons b bs)
  {
    case 1
    then show ?case using Cons.IH(1) by (auto simp: blocking_def drifting_def split: if_splits)
  next
    case 2
    then show ?case using Cons.IH(2) by (auto simp: drifting_def dom_update split: if_splits)
  next
    case 3
    then show ?case by (auto intro: Cons.IH(3) Cons.IH(3) [OF AList.distinct_update] split: if_splits)
  next
    case 4
    then show ?case using Cons.IH(4) by (auto simp: map_read_def update_conv' split: if_splits)
  }
qed simp_all

lemma release_readiness_value:
  "ca_capability_key (release_readiness_of key mandatory bs) = key"
  "ca_effect (release_readiness_of key mandatory bs) =
    (if \<not> list_ex drifting bs then [] else if mandatory \<and> list_all blocking bs then effect_blocked else effect_degraded)"
  "ca_findings (release_readiness_of key mandatory bs) =
    map (\<lambda>r. \<lparr>rf_reason = r, rf_engine_instance_ids = sort (map bi_engine_instance_id (filter (\<lambda>b. bi_drift_reason b = r) bs))\<rparr>)
      (sorted_list_of_set (bi_drift_reason ` set (filter drifting bs)))"
proof -
  obtain m ab where loop: "readiness_loop bs [] True = (m, ab)" by (cases "readiness_loop bs [] True")
  note spec = readiness_loop_spec [OF loop, simplified]
  have keys: "sort (map fst m) = sorted_list_of_set (bi_drift_reason ` set (filter drifting bs))"
    using sorted_list_of_set_sort_remdups [of "map fst m"] spec(2,3) by (simp add: distinct_remdups_id)
  have none: "m = [] \<longleftrightarrow> \<not> list_ex drifting bs" using spec(2) by (cases m) (auto simp: list_ex_iff)
  have ids: "map (\<lambda>r. \<lparr>rf_reason = r, rf_engine_instance_ids = sort (map_read [] (map_of m) r)\<rparr>) (sort (map fst m)) =
      map (\<lambda>r. \<lparr>rf_reason = r, rf_engine_instance_ids = sort (map bi_engine_instance_id (filter (\<lambda>b. bi_drift_reason b = r) bs))\<rparr>)
        (sort (map fst m))"
    using spec(2,4) by (auto simp: drifting_def map_read_def)
  have "bs = [] \<Longrightarrow> m = []" "\<not> list_ex drifting bs \<Longrightarrow> {x \<in> set bs. drifting x} = {}"
    using loop by (auto simp: list_ex_iff)
  then show "ca_capability_key (release_readiness_of key mandatory bs) = key"
    "ca_effect (release_readiness_of key mandatory bs) =
      (if \<not> list_ex drifting bs then [] else if mandatory \<and> list_all blocking bs then effect_blocked else effect_degraded)"
    "ca_findings (release_readiness_of key mandatory bs) =
      map (\<lambda>r. \<lparr>rf_reason = r, rf_engine_instance_ids = sort (map bi_engine_instance_id (filter (\<lambda>b. bi_drift_reason b = r) bs))\<rparr>)
        (sorted_list_of_set (bi_drift_reason ` set (filter drifting bs)))"
    using none ids spec(1) keys by (auto simp: release_readiness_of_def Let_def loop)
qed

lemma aggregate_loop_spec:
  "tr_capabilities (aggregate_loop cs out) = tr_capabilities out @ filter (\<lambda>c. ca_effect c \<noteq> []) cs"
  "tr_effect (aggregate_loop cs out) =
    (if list_ex (\<lambda>c. ca_effect c = effect_blocked) cs then effect_blocked
     else if tr_effect out \<noteq> [] then tr_effect out
     else if list_ex (\<lambda>c. ca_effect c \<noteq> []) cs then effect_degraded else [])"
  by (induction cs arbitrary: out) (auto simp: effect_blocked_def effect_degraded_def)

text \<open>The verdict over capabilities given with their bindings.\<close>

lemma aggregate_readiness:
  fixes caps :: "(string \<times> bool \<times> bound_instance list) list"
  defines "t \<equiv> aggregate (map (\<lambda>(key, mandatory, bs). release_readiness_of key mandatory bs) caps)"
  shows "(tr_effect t = effect_blocked \<longleftrightarrow> list_ex (\<lambda>(key, mandatory, bs). mandatory \<and> bs \<noteq> [] \<and> list_all blocking bs) caps) \<and>
    (tr_effect t = [] \<longleftrightarrow> list_all (\<lambda>(key, mandatory, bs). \<not> list_ex drifting bs) caps) \<and>
    tr_effect t \<in> {effect_blocked, effect_degraded, []} \<and>
    mset (map ca_capability_key (tr_capabilities t)) =
      mset (map fst (filter (\<lambda>(key, mandatory, bs). list_ex drifting bs) caps)) \<and>
    sorted (map ca_capability_key (tr_capabilities t))"
proof -
  let ?cs = "map (\<lambda>(key, mandatory, bs). release_readiness_of key mandatory bs) caps"
  have drift: "list_all blocking bs \<Longrightarrow> bs \<noteq> [] \<Longrightarrow> list_ex drifting bs" for bs
    by (cases bs) (auto simp: blocking_def)
  have eff: "ca_effect (release_readiness_of key mandatory bs) = effect_blocked \<longleftrightarrow> mandatory \<and> bs \<noteq> [] \<and> list_all blocking bs"
    "ca_effect (release_readiness_of key mandatory bs) = [] \<longleftrightarrow> \<not> list_ex drifting bs" for key mandatory bs
    using drift [of bs] by (auto simp: release_readiness_value effect_blocked_def effect_degraded_def)
  have affected: "filter (\<lambda>c. ca_effect c \<noteq> []) ?cs =
      map (\<lambda>(key, mandatory, bs). release_readiness_of key mandatory bs) (filter (\<lambda>(key, mandatory, bs). list_ex drifting bs) caps)"
    by (induction caps) (auto simp: eff(2))
  have keys: "map ca_capability_key (map (\<lambda>(key, mandatory, bs). release_readiness_of key mandatory bs) xs) = map fst xs" for xs
    by (auto simp: release_readiness_value)
  have "mset (map ca_capability_key (tr_capabilities t)) = mset (map ca_capability_key (filter (\<lambda>c. ca_effect c \<noteq> []) ?cs))"
    by (simp add: t_def aggregate_def Let_def aggregate_loop_spec)
  then have "mset (map ca_capability_key (tr_capabilities t)) =
      mset (map fst (filter (\<lambda>(key, mandatory, bs). list_ex drifting bs) caps))"
    by (simp only: affected keys)
  moreover have "sorted (map ca_capability_key (tr_capabilities t))" by (simp add: t_def aggregate_def Let_def)
  moreover have "tr_effect t = (if list_ex (\<lambda>(key, mandatory, bs). mandatory \<and> bs \<noteq> [] \<and> list_all blocking bs) caps
      then effect_blocked
      else if \<not> list_all (\<lambda>(key, mandatory, bs). \<not> list_ex drifting bs) caps then effect_degraded else [])"
  proof -
    have "list_ex (\<lambda>c. ca_effect c = effect_blocked) ?cs \<longleftrightarrow>
        list_ex (\<lambda>(key, mandatory, bs). mandatory \<and> bs \<noteq> [] \<and> list_all blocking bs) caps"
      "list_ex (\<lambda>c. ca_effect c \<noteq> []) ?cs \<longleftrightarrow> \<not> list_all (\<lambda>(key, mandatory, bs). \<not> list_ex drifting bs) caps"
      by (induction caps) (auto simp: eff)
    then show ?thesis by (simp add: t_def aggregate_def Let_def aggregate_loop_spec)
  qed
  moreover have "list_ex (\<lambda>(key, mandatory, bs). mandatory \<and> bs \<noteq> [] \<and> list_all blocking bs) caps \<Longrightarrow>
      \<not> list_all (\<lambda>(key, mandatory, bs). \<not> list_ex drifting bs) caps"
    using drift by (induction caps) auto
  ultimately show ?thesis by (simp add: effect_blocked_def effect_degraded_def)
qed

section \<open>Examples\<close>

definition ex_support :: provider_support where
  "ex_support = \<lparr>su_provider_key = ''erp.orders'', su_capability = ''orders'', su_contract_versions = [1]\<rparr>"

definition ex_record_request :: record_request where
  "ex_record_request = \<lparr>rr_engine_id = ''erp'', rr_release_version = ''1.0.0'',
     rr_artifacts = [\<lparr>af_artifact_type = ''OCI_IMAGE'', af_repository = ''r'', af_digest = ''d1'', af_platform = [], af_display_tag = []\<rparr>],
     rr_provider_support = [ex_support], rr_declaration_digest = ''dd'', rr_source_revision = ''abc'', rr_provenance = None,
     rr_reason = ''first''\<rparr>"

theorem record_check_iff_witness: "record_check ex_record_request = None"
proof -
  have "list_all (\<lambda>s. CHR '' '' \<notin> set (su_provider_key s)) (rr_provider_support ex_record_request)"
    by (simp add: ex_record_request_def ex_support_def)
  from record_check_iff [OF this] show ?thesis
    by (simp add: ex_record_request_def ex_support_def engine_of_provider_def)
qed

definition ex_deployment :: "int \<Rightarrow> instant \<Rightarrow> dep_observation" where
  "ex_deployment n at = \<lparr>do_observation_id = ''obs'', do_engine_instance_id = ''ei_1'',
     do_artifacts = [\<lparr>oa_digest = ''d1'', oa_platform = []\<rparr>], do_environment = ''production'', do_region = ''eu'',
     do_observed_at = at, do_expires_at = at + 60, do_recorded_at = at, do_ingestion_sequence = n, do_source = ''probe''\<rparr>"

theorem current_observation_iff_witness:
  "current_observation [ex_deployment 1 100, ex_deployment 3 110, ex_deployment 2 110] 120 = Some (ex_deployment 3 110)"
proof -
  have seqs: "distinct (map do_ingestion_sequence [ex_deployment 1 100, ex_deployment 3 110, ex_deployment 2 110])"
    by (simp add: ex_deployment_def)
  show ?thesis unfolding current_observation_iff [OF seqs]
    by (auto simp: ex_deployment_def dep_current_def newer_deployment_def)
qed

definition ex_owners :: "string \<Rightarrow> owner option" where
  "ex_owners = [''d1'' \<mapsto> \<lparr>ow_release_id = ''erl_1'', ow_engine_id = ''erp''\<rparr>]"

definition ex_drift_input :: drift_input where
  "ex_drift_input = \<lparr>di_environment = ''production'', di_region = ''eu'', di_desired_release_id = ''erl_1'', di_desired_since = 50,
     di_observed = \<lparr>or_engine_instance_id = ''ei_1'', or_state = ObservedRelease, or_release_id = ''erl_1'', or_release_ids = [],
       or_observation_id = ''obs'', or_evaluated_at = 120\<rparr>,
     di_current = Some (ex_deployment 1 100), di_revoked = []\<rparr>"

theorem no_drift_means_desired_runs_witness: "release_drift_condition ex_drift_input = None"
proof -
  have "derive ''ei_1'' ''erp'' (di_current ex_drift_input) ex_owners 120 = Inr (di_observed ex_drift_input)"
    by (simp add: derive_def ex_drift_input_def ex_deployment_def ex_owners_def)
  from no_drift_means_desired_runs [OF this] show ?thesis
    by (simp add: ex_drift_input_def ex_deployment_def ex_owners_def runs_release_def)
qed

end
