(* ===== verification/Release_Drift.thy ===== *)
theory Release_Drift
  imports Release
begin

text \<open>
  The stored release drift of an engine instance and what it does to tenants
  (\<open>internal/repository/postgres_release_drift.go\<close>, \<open>postgres_observation.go\<close>): deriving the observed
  release from the newest observation, one evaluation of an instance's drift row, and the
  tenant's readiness from its usable bindings.

  The rows a query returns are arguments: the instance's observations, the owners of digests,
  the revoked releases, the bindings. An evaluation takes the advisory lock of its instance, so
  the evaluations of one instance form a sequence.
\<close>

section \<open>The observed release of an instance\<close>

text \<open>The query's \<open>ORDER BY observed_at DESC, ingestion_sequence DESC LIMIT 1\<close>.\<close>

definition newest_row :: "dep_observation list \<Rightarrow> dep_observation option" where
  "newest_row obs = keep_newest newer_deployment None obs"

definition observed_release_of ::
  "string \<Rightarrow> string \<Rightarrow> dep_observation list \<Rightarrow> (string \<Rightarrow> owner option) \<Rightarrow> instant \<Rightarrow>
   release_panic + (observed_release \<times> dep_observation option)" where
  "observed_release_of inst engine obs owners now =
    (let current = (case newest_row obs of None \<Rightarrow> None | Some ob \<Rightarrow> current_observation [ob] now) in
     case derive inst engine current owners now of
       Inl e \<Rightarrow> Inl e
     | Inr out \<Rightarrow> Inr (out, current))"

text \<open>The releases whose status is looked up, and the revoked ones among them.\<close>

definition observed_keys :: "observed_release \<Rightarrow> string list" where
  "observed_keys out = (case or_state out of
     ObservedRelease \<Rightarrow> [or_release_id out] | ObservedMixed \<Rightarrow> or_release_ids out | _ \<Rightarrow> [])"

definition revoked_among :: "(string \<Rightarrow> bool) \<Rightarrow> observed_release \<Rightarrow> string list" where
  "revoked_among revoked out = filter revoked (observed_keys out)"

section \<open>One evaluation\<close>

record drift_row =
  dw_reason :: drift_reason
  dw_condition_since :: instant
  dw_opened_at :: "instant option"
  dw_announced_reason :: "drift_reason option"
  dw_observed_state :: observed_state
  dw_observed_release :: string
  dw_observation_id :: string
  dw_desired_release :: string
  dw_evaluated_at :: instant

datatype drift_error = NoDriftRule drift_reason

text \<open>The opening instant of a condition that has held since \<open>since\<close>, if its grace has passed.\<close>

definition opened_instant ::
  "drift_rule \<Rightarrow> drift_condition \<Rightarrow> instant \<Rightarrow> instant \<Rightarrow> drift_row option \<Rightarrow> instant option" where
  "opened_instant rule c since now stored =
    (if \<not> drift_open rule since (dn_not_before c) now then None
     else let at = (if since < dn_not_before c then dn_not_before c else since) + dl_grace rule;
              at = (if now < at then now else at) in
       (case stored of
          None \<Rightarrow> Some at
        | Some row \<Rightarrow> if dw_reason row = dn_reason c \<and> dw_opened_at row \<noteq> None then dw_opened_at row else Some at))"

text \<open>The new row, and whether the drift is announced; no row when there is no condition.\<close>

definition evaluate_drift ::
  "(drift_reason \<Rightarrow> drift_rule option) \<Rightarrow> drift_input \<Rightarrow> instant \<Rightarrow> drift_row option \<Rightarrow>
   drift_error + (drift_row option \<times> bool)" where
  "evaluate_drift policy i now stored =
    (case release_drift_condition i of
       None \<Rightarrow> Inr (None, False)
     | Some c \<Rightarrow>
         (case policy (dn_reason c) of
            None \<Rightarrow> Inl (NoDriftRule (dn_reason c))
          | Some rule \<Rightarrow>
              let since = (case stored of None \<Rightarrow> now
                           | Some row \<Rightarrow> if dw_reason row = dn_reason c then dw_condition_since row else now);
                  opened = opened_instant rule c since now stored;
                  announced = (case stored of None \<Rightarrow> None | Some row \<Rightarrow> dw_announced_reason row);
                  announce_as = (if opened \<noteq> None \<and> announced = Some (dn_reason c) then announced else None);
                  publish = (opened \<noteq> None \<and> announce_as = None) in
              Inr (Some \<lparr>dw_reason = dn_reason c, dw_condition_since = since, dw_opened_at = opened,
                     dw_announced_reason = (if publish then Some (dn_reason c) else announce_as),
                     dw_observed_state = or_state (di_observed i),
                     dw_observed_release = (if or_state (di_observed i) = ObservedRelease then or_release_id (di_observed i) else []),
                     dw_observation_id = or_observation_id (di_observed i),
                     dw_desired_release = di_desired_release_id i, dw_evaluated_at = now\<rparr>, publish)))"

section \<open>The tenant's readiness\<close>

text \<open>A row of the bindings query: capability, instance and open drift reason (empty if none).\<close>

record binding_row =
  br_capability :: string
  br_instance :: string
  br_reason :: string

definition bound_of :: "(string \<Rightarrow> string) \<Rightarrow> binding_row \<Rightarrow> bound_instance" where
  "bound_of effect_of r = \<lparr>bi_engine_instance_id = br_instance r, bi_drift_reason = br_reason r,
     bi_drift_effect = (if br_reason r \<noteq> [] then effect_of (br_reason r) else [])\<rparr>"

fun group_bindings ::
  "(string \<Rightarrow> string) \<Rightarrow> binding_row list \<Rightarrow> string list \<Rightarrow> (string \<Rightarrow> bound_instance list) \<Rightarrow>
   string list \<times> (string \<Rightarrow> bound_instance list)" where
  "group_bindings effect_of [] order by_capability = (order, by_capability)"
| "group_bindings effect_of (r # rs) order by_capability =
    group_bindings effect_of rs
      (if br_capability r \<in> set order then order else order @ [br_capability r])
      (by_capability(br_capability r := by_capability (br_capability r) @ [bound_of effect_of r]))"

definition tenant_release_readiness :: "string list \<Rightarrow> (string \<Rightarrow> string) \<Rightarrow> binding_row list \<Rightarrow> tenant_readiness" where
  "tenant_release_readiness mandatory effect_of rows =
    (let (order, by_capability) = group_bindings effect_of rows [] (\<lambda>_. []) in
     aggregate (map (\<lambda>c. release_readiness_of c (c \<in> set mandatory) (by_capability c)) order))"

section \<open>Drift opens after its grace\<close>

text \<open>
  The evaluations of one instance, latest first, at instants that do not go back, and the row
  after them.
\<close>

inductive drift_run :: "(drift_reason \<Rightarrow> drift_rule option) \<Rightarrow> (instant \<times> drift_input) list \<Rightarrow> drift_row option \<Rightarrow> bool"
  for policy :: "drift_reason \<Rightarrow> drift_rule option" where
  start: "drift_run policy [] None"
| evaluated: "drift_run policy es stored \<Longrightarrow> list_all (\<lambda>(at, _). at \<le> now) es \<Longrightarrow>
    evaluate_drift policy i now stored = Inr (row, publish) \<Longrightarrow> drift_run policy ((now, i) # es) row"

definition graces_ok :: "(drift_reason \<Rightarrow> drift_rule option) \<Rightarrow> bool" where
  "graces_ok policy \<longleftrightarrow> (\<forall>reason rule. policy reason = Some rule \<longrightarrow> 0 \<le> dl_grace rule)"

definition condition_reason :: "drift_input \<Rightarrow> drift_reason option" where
  "condition_reason i = map_option dn_reason (release_drift_condition i)"

lemma evaluate_drift_Some:
  assumes "evaluate_drift policy i now stored = Inr (Some row, publish)"
  obtains c rule where "release_drift_condition i = Some c" and "policy (dn_reason c) = Some rule"
    and "dw_reason row = dn_reason c"
    and "dw_condition_since row = (case stored of None \<Rightarrow> now
           | Some r \<Rightarrow> if dw_reason r = dn_reason c then dw_condition_since r else now)"
    and "dw_opened_at row = opened_instant rule c (dw_condition_since row) now stored"
    and "dw_announced_reason row = (if dw_opened_at row \<noteq> None then Some (dn_reason c) else None)"
    and "publish \<longleftrightarrow> dw_opened_at row \<noteq> None \<and> (case stored of None \<Rightarrow> True | Some r \<Rightarrow> dw_announced_reason r \<noteq> Some (dn_reason c))"
  using assms unfolding evaluate_drift_def by (fastforce simp: Let_def split: option.splits if_splits)

lemma opened_instant_SomeD:
  assumes "opened_instant rule c since now stored = Some at" and "0 \<le> dl_grace rule"
    and "\<And>row. stored = Some row \<Longrightarrow> dw_opened_at row \<noteq> None \<Longrightarrow> the (dw_opened_at row) \<le> now"
  shows "since + dl_grace rule \<le> now" and "dn_not_before c + dl_grace rule \<le> now" and "at \<le> now"
  using assms by (auto simp: opened_instant_def drift_open_def Let_def split: if_splits option.splits)

text \<open>What is known of the row after a history: how long its reason has held, and its announcement.\<close>

definition row_justified :: "(drift_reason \<Rightarrow> drift_rule option) \<Rightarrow> (instant \<times> drift_input) list \<Rightarrow> drift_row \<Rightarrow> bool" where
  "row_justified policy es row \<longleftrightarrow>
    (\<exists>held rest. es = held @ rest \<and> held \<noteq> [] \<and> list_all (\<lambda>(at, i). condition_reason i = Some (dw_reason row)) held \<and>
      dw_condition_since row = fst (last held)) \<and>
    (\<forall>at. dw_opened_at row = Some at \<longrightarrow> at \<le> fst (hd es) \<and>
      (\<exists>rule. policy (dw_reason row) = Some rule \<and> dw_condition_since row + dl_grace rule \<le> fst (hd es))) \<and>
    dw_announced_reason row = (if dw_opened_at row \<noteq> None then Some (dw_reason row) else None)"

lemma justified_step:
  assumes stored: "\<And>r. stored = Some r \<Longrightarrow> row_justified policy es r" and mono: "list_all (\<lambda>(at, _). at \<le> now) es"
    and ev: "evaluate_drift policy i now stored = Inr (Some row, publish)"
    and grace: "graces_ok policy"
  shows "row_justified policy ((now, i) # es) row"
  using ev
proof (rule evaluate_drift_Some)
  fix c rule
  assume c: "release_drift_condition i = Some c" and rule: "policy (dn_reason c) = Some rule" and reason: "dw_reason row = dn_reason c"
    and since: "dw_condition_since row = (case stored of None \<Rightarrow> now
           | Some r \<Rightarrow> if dw_reason r = dn_reason c then dw_condition_since r else now)"
    and opened: "dw_opened_at row = opened_instant rule c (dw_condition_since row) now stored"
    and ann: "dw_announced_reason row = (if dw_opened_at row \<noteq> None then Some (dn_reason c) else None)"
  have here: "condition_reason i = Some (dw_reason row)" using c reason by (simp add: condition_reason_def)
  have "\<exists>held rest. (now, i) # es = held @ rest \<and> held \<noteq> [] \<and> list_all (\<lambda>(at, i). condition_reason i = Some (dw_reason row)) held \<and>
      dw_condition_since row = fst (last held)"
  proof (cases "\<exists>r. stored = Some r \<and> dw_reason r = dn_reason c")
    case True
    then obtain r held rest where r: "stored = Some r" "dw_reason r = dn_reason c" "es = held @ rest" "held \<noteq> []"
      "list_all (\<lambda>(at, i). condition_reason i = Some (dw_reason r)) held" "dw_condition_since r = fst (last held)"
      using stored by (auto simp: row_justified_def)
    then have "(now, i) # es = ((now, i) # held) @ rest \<and> (now, i) # held \<noteq> [] \<and>
        list_all (\<lambda>(at, i). condition_reason i = Some (dw_reason row)) ((now, i) # held) \<and>
        dw_condition_since row = fst (last ((now, i) # held))" using here since reason by simp
    then show ?thesis by blast
  next
    case False
    then have "(now, i) # es = [(now, i)] @ es \<and> [(now, i)] \<noteq> [] \<and>
        list_all (\<lambda>(at, i). condition_reason i = Some (dw_reason row)) [(now, i)] \<and> dw_condition_since row = fst (last [(now, i)])"
      using here since by (auto split: option.splits)
    then show ?thesis by blast
  qed
  moreover have "the (dw_opened_at r) \<le> now" if "stored = Some r" "dw_opened_at r \<noteq> None" for r
  proof -
    from stored [OF that(1)] that(2) have "the (dw_opened_at r) \<le> fst (hd es)" "es \<noteq> []" by (auto simp: row_justified_def)
    with mono show ?thesis by (cases es) auto
  qed
  then have "at \<le> now \<and> dw_condition_since row + dl_grace rule \<le> now" if "dw_opened_at row = Some at" for at
    using opened_instant_SomeD [OF that [unfolded opened]] grace rule by (auto simp: graces_ok_def)
  ultimately show ?thesis using rule reason ann by (auto simp: row_justified_def)
qed

lemma drift_run_justified:
  assumes "drift_run policy es row" and "graces_ok policy"
  shows "row = Some r \<Longrightarrow> row_justified policy es r"
  using assms(1)
proof (induction arbitrary: r rule: drift_run.induct)
  case (evaluated es stored now i row publish)
  then show ?case using justified_step [of stored policy es now i r publish] assms(2) by blast
qed simp

text \<open>
  Property (drift opens only after its grace). For a policy without negative graces: after any sequence
  of evaluations of an instance, the stored reason held at every one of the latest evaluations
  back to the one that set \<open>condition_since\<close>; drift is open only when its reason's grace has
  passed since then, and never opened in the future.
\<close>

theorem drift_opens_after_grace:
  assumes "drift_run policy es (Some row)" and "graces_ok policy"
  shows "\<exists>held rest. es = held @ rest \<and> held \<noteq> [] \<and>
      list_all (\<lambda>(at, i). condition_reason i = Some (dw_reason row)) held \<and> dw_condition_since row = fst (last held) \<and>
      (\<forall>at. dw_opened_at row = Some at \<longrightarrow> at \<le> fst (hd held) \<and>
        (\<exists>rule. policy (dw_reason row) = Some rule \<and> fst (last held) + dl_grace rule \<le> fst (hd held)))"
proof -
  from drift_run_justified [OF assms] have j: "row_justified policy es row" by simp
  then obtain held rest where h: "es = held @ rest" "held \<noteq> []"
    "list_all (\<lambda>(at, i). condition_reason i = Some (dw_reason row)) held" "dw_condition_since row = fst (last held)"
    by (auto simp: row_justified_def)
  then have "hd es = hd held" by simp
  with j h show ?thesis by (intro exI [of _ held] exI [of _ rest]) (auto simp: row_justified_def)
qed

text \<open>
  Property (drift is announced once). After any sequence of evaluations, the next one publishes an
  event exactly when it leaves drift open with a reason that was not already open.
\<close>

theorem drift_announced_once:
  assumes "drift_run policy es stored" and "graces_ok policy"
    and "evaluate_drift policy i now stored = Inr (row, publish)"
  shows "publish \<longleftrightarrow> (\<exists>r. row = Some r \<and> dw_opened_at r \<noteq> None \<and>
    (\<forall>s. stored = Some s \<longrightarrow> dw_opened_at s \<noteq> None \<longrightarrow> dw_reason s \<noteq> dw_reason r))"
proof (cases row)
  case None
  with assms(3) show ?thesis by (auto simp: evaluate_drift_def Let_def split: option.splits)
next
  case (Some r)
  have ann: "dw_announced_reason s = (if dw_opened_at s \<noteq> None then Some (dw_reason s) else None)" if "stored = Some s" for s
    using drift_run_justified [OF assms(1,2) that] by (simp add: row_justified_def)
  from assms(3) Some show ?thesis
    by (auto elim!: evaluate_drift_Some split: option.splits if_splits simp: ann)
qed

section \<open>What drift does to a tenant\<close>

lemma group_bindings_spec:
  assumes "group_bindings effect_of rows order m = (order', m')"
  shows "set order' = set order \<union> br_capability ` set rows"
    and "distinct order' \<longleftrightarrow> distinct order"
    and "m' c = m c @ map (bound_of effect_of) (filter (\<lambda>r. br_capability r = c) rows)"
  using assms by (induction rows arbitrary: order m) (auto split: if_splits)

text \<open>A binding row whose instance drifts, and one whose drift blocks.\<close>

definition row_drifts :: "binding_row \<Rightarrow> bool" where
  "row_drifts r \<longleftrightarrow> br_reason r \<noteq> []"

definition row_blocks :: "(string \<Rightarrow> string) \<Rightarrow> binding_row \<Rightarrow> bool" where
  "row_blocks effect_of r \<longleftrightarrow> br_reason r \<noteq> [] \<and> effect_of (br_reason r) = effect_blocked"

lemma bound_of_drift:
  "drifting (bound_of effect_of r) \<longleftrightarrow> row_drifts r" "blocking (bound_of effect_of r) \<longleftrightarrow> row_blocks effect_of r"
  by (auto simp: drifting_def blocking_def bound_of_def row_drifts_def row_blocks_def)

text \<open>
  Property (what release drift does to a tenant). The tenant's verdict is BLOCKED exactly when some
  mandatory capability has usable bindings and every one of them is on an instance whose open
  drift blocks; it is empty exactly when no usable binding is on a drifting instance; otherwise
  it is DEGRADED. The capabilities listed are exactly those with a drifting binding, once each
  in key order.
\<close>

theorem tenant_readiness_verdict:
  "(tr_effect (tenant_release_readiness mandatory effect_of rows) = effect_blocked \<longleftrightarrow>
     list_ex (\<lambda>r. br_capability r \<in> set mandatory \<and>
       list_all (row_blocks effect_of) (filter (\<lambda>b. br_capability b = br_capability r) rows)) rows) \<and>
   (tr_effect (tenant_release_readiness mandatory effect_of rows) = [] \<longleftrightarrow> \<not> list_ex row_drifts rows) \<and>
   tr_effect (tenant_release_readiness mandatory effect_of rows) \<in> {effect_blocked, effect_degraded, []} \<and>
   map ca_capability_key (tr_capabilities (tenant_release_readiness mandatory effect_of rows)) =
     sorted_list_of_set (br_capability ` set (filter row_drifts rows))"
proof -
  obtain order m where g: "group_bindings effect_of rows [] (\<lambda>_. []) = (order, m)"
    by (cases "group_bindings effect_of rows [] (\<lambda>_. [])")
  note spec = group_bindings_spec [OF g, simplified]
  let ?caps = "map (\<lambda>c. (c, c \<in> set mandatory, m c)) order"
  have t: "tenant_release_readiness mandatory effect_of rows =
      aggregate (map (\<lambda>(key, mandatory, bs). release_readiness_of key mandatory bs) ?caps)"
    by (simp add: tenant_release_readiness_def g comp_def)
  note agg = aggregate_readiness [of ?caps, folded t]
  have drift: "list_ex drifting (m c) \<longleftrightarrow> (\<exists>r \<in> set rows. br_capability r = c \<and> row_drifts r)" for c
    by (auto simp: spec(3) list_ex_iff bound_of_drift)
  have block: "m c \<noteq> [] \<and> list_all blocking (m c) \<longleftrightarrow>
      c \<in> br_capability ` set rows \<and> list_all (row_blocks effect_of) (filter (\<lambda>b. br_capability b = c) rows)" for c
    by (auto simp: spec(3) list_all_iff bound_of_drift filter_empty_conv)
  have blocked: "list_ex (\<lambda>(key, mandatory, bs). mandatory \<and> bs \<noteq> [] \<and> list_all blocking bs) ?caps \<longleftrightarrow>
      list_ex (\<lambda>r. br_capability r \<in> set mandatory \<and>
        list_all (row_blocks effect_of) (filter (\<lambda>b. br_capability b = br_capability r) rows)) rows"
    using spec(1) by (auto simp: list_ex_iff block)
  have clear: "list_all (\<lambda>(key, mandatory, bs). \<not> list_ex drifting bs) ?caps \<longleftrightarrow> \<not> list_ex row_drifts rows"
    unfolding list_all_iff set_map ball_simps prod.case drift spec(1) by (auto simp: list_ex_iff)
  have "map ca_capability_key (tr_capabilities (tenant_release_readiness mandatory effect_of rows)) =
      sorted_list_of_set (br_capability ` set (filter row_drifts rows))"
  proof -
    let ?ks = "map ca_capability_key (tr_capabilities (tenant_release_readiness mandatory effect_of rows))"
      and ?order = "filter (\<lambda>c. list_ex drifting (m c)) order"
    have "map fst (filter (\<lambda>(key, mandatory, bs). list_ex drifting bs) ?caps) = ?order"
      by (induction order) auto
    with agg have "mset ?ks = mset ?order" "sorted ?ks" by metis+
    then have "?ks = sort ?order" by (metis properties_for_sort)
    moreover have "set ?order = br_capability ` set (filter row_drifts rows)" unfolding set_filter drift spec(1) by (auto simp: image_iff) metis+
    moreover have "sort ?order = sorted_list_of_set (set ?order)"
      using spec(2) by (simp only: sorted_list_of_set_sort_remdups distinct_remdups_id distinct_filter)
    ultimately show ?thesis by metis
  qed
  with agg [unfolded blocked clear] show ?thesis by blast
qed

section \<open>Examples\<close>

text \<open>An instance that desires a release nobody observes, evaluated twice, half an hour apart.\<close>

definition ex_unobserved :: drift_input where
  "ex_unobserved = \<lparr>di_environment = ''production'', di_region = ''eu'', di_desired_release_id = ''erl_1'', di_desired_since = 50,
     di_observed = \<lparr>or_engine_instance_id = ''ei_1'', or_state = ObservedUnknown, or_release_id = [], or_release_ids = [],
       or_observation_id = [], or_evaluated_at = 120\<rparr>, di_current = None, di_revoked = []\<rparr>"

definition ex_first_row :: "drift_row option \<times> bool" where
  "ex_first_row = projr (evaluate_drift (Some \<circ> drift_policy) ex_unobserved 100 None)"

definition ex_second_row :: "drift_row option \<times> bool" where
  "ex_second_row = projr (evaluate_drift (Some \<circ> drift_policy) ex_unobserved (1800 * second_ns) (fst ex_first_row))"

lemma ex_drift_policy_grace: "graces_ok (Some \<circ> drift_policy)"
proof -
  have "0 \<le> dl_grace (drift_policy reason)" for reason by (cases reason) (simp_all add: second_ns_def)
  then show ?thesis by (simp add: graces_ok_def)
qed

lemma ex_first_run: "drift_run (Some \<circ> drift_policy) [(100, ex_unobserved)] (fst ex_first_row)"
proof (rule drift_run.evaluated [OF drift_run.start])
  show "evaluate_drift (Some \<circ> drift_policy) ex_unobserved 100 None = Inr (fst ex_first_row, snd ex_first_row)"
    by code_simp
qed simp

lemma ex_second_evaluation:
  "evaluate_drift (Some \<circ> drift_policy) ex_unobserved (1800 * second_ns) (fst ex_first_row) =
     Inr (fst ex_second_row, snd ex_second_row)"
  by code_simp

lemma ex_second_run:
  "drift_run (Some \<circ> drift_policy) [(1800 * second_ns, ex_unobserved), (100, ex_unobserved)] (fst ex_second_row)"
  by (rule drift_run.evaluated [OF ex_first_run _ ex_second_evaluation]) (simp add: second_ns_def)

theorem drift_opens_after_grace_witness:
  "\<exists>row. fst ex_second_row = Some row \<and> dw_opened_at row \<noteq> None \<and>
    (\<exists>held rest. [(1800 * second_ns, ex_unobserved), (100, ex_unobserved)] = held @ rest \<and>
      dw_condition_since row = fst (last held) \<and> fst (last held) + dl_grace (drift_policy (dw_reason row)) \<le> fst (hd held))"
proof -
  have "fst ex_second_row \<noteq> None" "map_option dw_opened_at (fst ex_second_row) \<noteq> Some None" by code_simp+
  then obtain row at where row: "fst ex_second_row = Some row" "dw_opened_at row = Some at" by auto
  from drift_opens_after_grace [OF ex_second_run [unfolded row(1)] ex_drift_policy_grace] row show ?thesis by fastforce
qed

theorem drift_announced_once_witness:
  "snd ex_second_row \<and> (\<exists>r. fst ex_second_row = Some r \<and> dw_opened_at r \<noteq> None \<and>
    (\<forall>s. fst ex_first_row = Some s \<longrightarrow> dw_opened_at s \<noteq> None \<longrightarrow> dw_reason s \<noteq> dw_reason r))"
proof -
  have "snd ex_second_row" by code_simp
  with drift_announced_once [OF ex_first_run ex_drift_policy_grace ex_second_evaluation] show ?thesis by simp
qed

end
