(* ===== verification/Release_Store.thy ===== *)
theory Release_Store
  imports Changeset_Store Release_Drift Domain_Ids
begin

text \<open>
  Engine releases and desired releases in the database (\<open>internal/repository/postgres_engine_release.go\<close>,
  \<open>postgres_desired_release.go\<close>, \<open>postgres_release_approval.go\<close>, \<open>postgres_observation.go\<close>,
  \<open>postgres_release_drift.go\<close>): recording a release, approving it and setting an instance's desired
  release through a changeset, deprecating and revoking it with the disposition of every instance
  that desires it, reading the desired release, recording an observation and evaluating drift.

  The topology tables are a record; an engine is named by its unique code. Each command is one
  transaction: an error leaves the tables as they were. The triggers of migrations 000082 and
  000086 are part of the updates they guard. The content digest and the minted row identifiers are
  arguments. Audit rows and the data of events are not modelled; an event is its type with the
  identifiers it names. Of a failed plan check only its name is kept, not the explanation.
\<close>

section \<open>The release policy\<close>

record release_policy =
  rp_transitions :: "(string \<times> string list \<times> string) list"
  rp_may_become_desired :: "string list"
  rp_readable_as_desired :: "string list"
  rp_provenance_required :: "string \<Rightarrow> bool"
  rp_certification_required :: "string \<Rightarrow> bool"
  rp_ttl_minimum :: int
  rp_ttl_maximum :: int
  rp_drift :: "drift_reason \<Rightarrow> drift_rule option"

text \<open>The embedded \<open>release-policy.yaml\<close>.\<close>

definition default_release_policy :: release_policy where
  "default_release_policy = \<lparr>
     rp_transitions = [(''approve'', [''CANDIDATE''], ''APPROVED''), (''deprecate'', [''APPROVED''], ''DEPRECATED''),
       (''revoke'', [''CANDIDATE'', ''APPROVED'', ''DEPRECATED''], ''REVOKED'')],
     rp_may_become_desired = [''APPROVED''], rp_readable_as_desired = [''APPROVED'', ''DEPRECATED''],
     rp_provenance_required = (\<lambda>e. e = ''production''), rp_certification_required = (\<lambda>e. e = ''production''),
     rp_ttl_minimum = 60, rp_ttl_maximum = 3600, rp_drift = Some \<circ> drift_policy\<rparr>"

section \<open>Tables\<close>

record actor =
  ac_actor_id :: string
  ac_actor_type :: string
  ac_correlation_id :: string

definition validate_actor :: "actor \<Rightarrow> bool" where
  "validate_actor a \<longleftrightarrow> ac_actor_id a \<noteq> [] \<and> ac_actor_type a \<in> {''human'', ''workload''} \<and> is_uuid (ac_correlation_id a)"

record release_row =
  rl_engine_id :: string
  rl_version :: string
  rl_artifacts :: "artifact list"
  rl_support :: "provider_support list"
  rl_declaration_digest :: string
  rl_source_revision :: string
  rl_provenance :: "provenance option"
  rl_content_digest :: string
  rl_status :: string
  rl_recorded_by :: string
  rl_recorded_at :: instant
  rl_reason :: string
  rl_status_changed_by :: string
  rl_status_changed_at :: "instant option"
  rl_status_reason :: string

record instance_row =
  in_engine_id :: string
  in_environment :: string
  in_region :: string
  in_status :: string
  in_desired_release :: string
  in_desired_version :: int
  in_desired_changeset :: string
  in_desired_updated_at :: "instant option"
  in_created_at :: instant

record certification =
  ce_provider_key :: string
  ce_capability :: string
  ce_contract_version :: int
  ce_release :: string
  ce_status :: string
  ce_valid_until :: "instant option"

record capability_row =
  cy_contract_versions :: "int list"
  cy_canonical :: bool

datatype topo_event =
    ReleaseRecorded string
  | ReleaseStatusChanged string string string
  | DesiredReleaseChanged string string string string int
  | ReleaseDriftDetected string drift_reason

record topology =
  tp_engines :: "string list"
  tp_providers :: "string \<Rightarrow> string option"
  tp_capabilities :: "string \<Rightarrow> capability_row option"
  tp_certifications :: "certification list"
  tp_releases :: "string \<Rightarrow> release_row option"
  tp_release_ids :: "string list"
  tp_instances :: "string \<Rightarrow> instance_row option"
  tp_instance_ids :: "string list"
  tp_observations :: "dep_observation list"
  tp_sequence :: int
  tp_drift :: "string \<Rightarrow> drift_row option"
  tp_events :: "topo_event list"

datatype release_error =
    ErrInvalidActor | ErrRecord record_error | ErrEngineReleaseEngineUnknown string | ErrEngineReleaseVersionConflict string string
  | ErrEngineReleaseDigestConflict string | ErrProviderNotRegistered string | ErrCapabilityNotCatalogued string
  | ErrReleaseKeyTaken string | ErrEngineReleaseNotFound | ErrEngineReleaseTransition string string | ErrDispositionsWithoutRevocation
  | ErrDisposedTwice string | ErrNotDesiring string | ErrRevocationUncovered "string list" | ErrReplacedByItself
  | ErrReplacementRefused string string | ErrChangedWhileLocked string | ErrDesiredReleaseGuard | ErrReleaseImmutable string string
  | ErrRevocationGuard | ErrEngineInstanceNotFound | ErrDesiredReleaseUnavailable string | ErrObservationWindowInvalid
  | ErrObservationInstanceUnknown string | ErrDrift drift_error | ReleasePanic release_panic

section \<open>Recording a release\<close>

text \<open>What \<open>ContentDigest\<close> covers.\<close>

type_synonym content =
  "string \<times> string \<times> artifact list \<times> provider_support list \<times> string \<times> string \<times> provenance option"

definition content_of :: "record_request \<Rightarrow> content" where
  "content_of r = (rr_engine_id r, rr_release_version r, rr_artifacts r, rr_provider_support r, rr_declaration_digest r,
     rr_source_revision r, rr_provenance r)"

definition release_of_version :: "topology \<Rightarrow> string \<Rightarrow> string \<Rightarrow> string option" where
  "release_of_version tp engine version =
    find (\<lambda>k. case tp_releases tp k of None \<Rightarrow> False | Some r \<Rightarrow> rl_engine_id r = engine \<and> rl_version r = version)
      (tp_release_ids tp)"

definition owner_of :: "topology \<Rightarrow> string \<Rightarrow> owner option" where
  "owner_of tp digest =
    (case find (\<lambda>k. case tp_releases tp k of None \<Rightarrow> False | Some r \<Rightarrow> digest \<in> set (map af_digest (rl_artifacts r)))
            (tp_release_ids tp) of
       None \<Rightarrow> None
     | Some k \<Rightarrow> map_option (\<lambda>r. \<lparr>ow_release_id = k, ow_engine_id = rl_engine_id r\<rparr>) (tp_releases tp k))"

definition support_row_error :: "topology \<Rightarrow> string \<Rightarrow> provider_support \<Rightarrow> release_error option" where
  "support_row_error tp engine s =
    (if tp_providers tp (su_provider_key s) \<noteq> Some engine then Some (ErrProviderNotRegistered (su_provider_key s))
     else case tp_capabilities tp (su_capability s) of
       None \<Rightarrow> Some (ErrCapabilityNotCatalogued (su_capability s))
     | Some c \<Rightarrow>
         if \<not> cy_canonical c then Some (ErrCapabilityNotCatalogued (su_capability s))
         else if list_all (\<lambda>v. v \<in> set (cy_contract_versions c)) (su_contract_versions s) then None
         else Some (ErrCapabilityNotCatalogued (su_capability s)))"

definition recorded_row :: "(content \<Rightarrow> string) \<Rightarrow> record_request \<Rightarrow> string \<Rightarrow> instant \<Rightarrow> release_row" where
  "recorded_row content_digest req recorded_by now =
     \<lparr>rl_engine_id = rr_engine_id req, rl_version = rr_release_version req, rl_artifacts = rr_artifacts req,
      rl_support = rr_provider_support req, rl_declaration_digest = rr_declaration_digest req,
      rl_source_revision = rr_source_revision req, rl_provenance = rr_provenance req,
      rl_content_digest = content_digest (content_of req), rl_status = ''CANDIDATE'', rl_recorded_by = recorded_by,
      rl_recorded_at = now, rl_reason = rr_reason req, rl_status_changed_by = [], rl_status_changed_at = None, rl_status_reason = []\<rparr>"

text \<open>The result is the tables, the release's key and whether it is a replay.\<close>

definition record_engine_release ::
  "(content \<Rightarrow> string) \<Rightarrow> topology \<Rightarrow> record_request \<Rightarrow> string \<Rightarrow> instant \<Rightarrow> string \<Rightarrow> actor \<Rightarrow>
   release_error + (topology \<times> string \<times> bool)" where
  "record_engine_release content_digest tp req recorded_by now uuid a =
    (if \<not> validate_actor a then Inl ErrInvalidActor
     else case record_check req of
       Some e \<Rightarrow> Inl (ErrRecord e)
     | None \<Rightarrow>
         if rr_engine_id req \<notin> set (tp_engines tp) then Inl (ErrEngineReleaseEngineUnknown (rr_engine_id req))
         else let row = recorded_row content_digest req recorded_by now; key = release_id uuid in
         (case release_of_version tp (rr_engine_id req) (rr_release_version req) of
            Some k \<Rightarrow>
              (if map_option rl_content_digest (tp_releases tp k) = Some (rl_content_digest row) then Inr (tp, k, True)
               else Inl (ErrEngineReleaseVersionConflict (rr_engine_id req) (rr_release_version req)))
          | None \<Rightarrow>
              (case first_error (support_row_error tp (rr_engine_id req)) (rr_provider_support req) of
                 Some e \<Rightarrow> Inl e
               | None \<Rightarrow>
                   if tp_releases tp key \<noteq> None then Inl (ErrReleaseKeyTaken key)
                   else (case find (\<lambda>d. owner_of tp d \<noteq> None) (map af_digest (rr_artifacts req)) of
                           Some d \<Rightarrow> Inl (ErrEngineReleaseDigestConflict d)
                         | None \<Rightarrow> Inr (tp\<lparr>tp_releases := (tp_releases tp)(key \<mapsto> row), tp_release_ids := tp_release_ids tp @ [key],
                                        tp_events := tp_events tp @ [ReleaseRecorded key]\<rparr>, key, False)))))"

section \<open>The status of a release\<close>

text \<open>The triggers: status moves only along the lifecycle, and a revoked release is never desired.\<close>

definition status_moves :: "string \<Rightarrow> string \<Rightarrow> bool" where
  "status_moves s t \<longleftrightarrow> s = t \<or> s = ''CANDIDATE'' \<and> t = ''APPROVED'' \<or> s = ''APPROVED'' \<and> t = ''DEPRECATED'' \<or>
     s \<noteq> ''REVOKED'' \<and> t = ''REVOKED''"

definition desires :: "topology \<Rightarrow> string \<Rightarrow> string \<Rightarrow> bool" where
  "desires tp i k \<longleftrightarrow> (case tp_instances tp i of None \<Rightarrow> False | Some row \<Rightarrow> in_desired_release row = k)"

definition update_status ::
  "topology \<Rightarrow> string \<Rightarrow> release_row \<Rightarrow> string \<Rightarrow> string \<Rightarrow> instant \<Rightarrow> string \<Rightarrow> release_error + topology" where
  "update_status tp k r to by now reason =
    (if \<not> status_moves (rl_status r) to then Inl (ErrReleaseImmutable (rl_status r) to)
     else if to = ''REVOKED'' \<and> rl_status r \<noteq> ''REVOKED'' \<and> list_ex (\<lambda>i. desires tp i k) (tp_instance_ids tp)
       then Inl ErrRevocationGuard
     else Inr (tp\<lparr>tp_releases := (tp_releases tp)(k \<mapsto> r\<lparr>rl_status := to, rl_status_changed_by := by,
                 rl_status_changed_at := Some now, rl_status_reason := reason\<rparr>),
               tp_events := tp_events tp @ [ReleaseStatusChanged k (rl_status r) to]\<rparr>))"

section \<open>The desired release of an instance\<close>

definition certified :: "topology \<Rightarrow> string \<Rightarrow> provider_support \<Rightarrow> instant \<Rightarrow> int \<Rightarrow> bool" where
  "certified tp k s now v \<longleftrightarrow> list_ex (\<lambda>c. ce_provider_key c = su_provider_key s \<and> ce_capability c = su_capability s \<and>
     ce_contract_version c = v \<and> ce_release c = k \<and> ce_status c = ''CERTIFIED'' \<and>
     (case ce_valid_until c of None \<Rightarrow> True | Some t \<Rightarrow> now < t)) (tp_certifications tp)"

text \<open>
  Support whose provider and capability are registered and that lacks a current certification of
  one of its contract majors.
\<close>

definition certification_gaps :: "topology \<Rightarrow> string \<Rightarrow> release_row \<Rightarrow> instant \<Rightarrow> (string \<times> string \<times> int) list" where
  "certification_gaps tp k r now = concat (map (\<lambda>s.
     if tp_providers tp (su_provider_key s) \<noteq> None \<and> tp_capabilities tp (su_capability s) \<noteq> None
     then map (\<lambda>v. (su_provider_key s, su_capability s, v))
            (filter (\<lambda>v. \<not> certified tp k s now v) (su_contract_versions s))
     else []) (rl_support r))"

text \<open>Why a release may not become desired: the names of the failed checks.\<close>

definition desired_release_eligibility ::
  "release_policy \<Rightarrow> topology \<Rightarrow> string \<Rightarrow> string \<Rightarrow> string \<Rightarrow> instant \<Rightarrow> string list" where
  "desired_release_eligibility pol tp k engine environment now =
    (case tp_releases tp k of
       None \<Rightarrow> [''RELEASE_APPROVED'']
     | Some r \<Rightarrow>
         let env = to_lower (trim_space environment) in
         (if rl_status r \<notin> set (rp_may_become_desired pol) then [''RELEASE_APPROVED''] else []) @
         (if rl_engine_id r \<noteq> engine then [''RELEASE_ENGINE''] else []) @
         (if rp_provenance_required pol env \<and> rl_provenance r = None then [''PROVENANCE''] else []) @
         (if rp_certification_required pol env \<and> certification_gaps tp k r now \<noteq> [] then [''CERTIFICATION''] else []))"

definition desired_release_checks ::
  "release_policy \<Rightarrow> topology \<Rightarrow> string \<Rightarrow> string \<Rightarrow> instant \<Rightarrow> release_error + (string \<times> string list)" where
  "desired_release_checks pol tp i k now =
    (case tp_instances tp i of
       None \<Rightarrow> Inl ErrEngineInstanceNotFound
     | Some row \<Rightarrow> Inr (in_desired_release row,
         (if k \<noteq> [] then desired_release_eligibility pol tp k (in_engine_id row) (in_environment row) now else []) @
         (if k = in_desired_release row then [''DESIRED_RELEASE_CHANGES''] else [])))"

text \<open>
  The update of the desired release at an expected version, with its trigger. \<open>None\<close>: the instance
  is not at that version. The event reads the new release, so one that is not recorded is an error.
\<close>

definition set_desired_release ::
  "topology \<Rightarrow> string \<Rightarrow> string \<Rightarrow> int \<Rightarrow> string \<Rightarrow> instant \<Rightarrow> release_error + topology option" where
  "set_desired_release tp i k expected changeset now =
    (case tp_instances tp i of
       None \<Rightarrow> Inr None
     | Some row \<Rightarrow>
         if in_desired_version row \<noteq> expected then Inr None
         else (case (if k = [] then Some None else map_option Some (tp_releases tp k)) of
            None \<Rightarrow> Inl ErrEngineReleaseNotFound
          | Some new \<Rightarrow>
              if k \<noteq> in_desired_release row \<and> (case new of None \<Rightarrow> False
                  | Some r \<Rightarrow> rl_status r \<noteq> ''APPROVED'' \<or> rl_engine_id r \<noteq> in_engine_id row)
                then Inl ErrDesiredReleaseGuard
              else let row' = row\<lparr>in_desired_release := k, in_desired_version := in_desired_version row + 1,
                           in_desired_changeset := changeset, in_desired_updated_at := Some now\<rparr> in
                Inr (Some (tp\<lparr>tp_instances := (tp_instances tp)(i \<mapsto> row'),
                       tp_events := tp_events tp @ [DesiredReleaseChanged i (in_desired_release row) k changeset (in_desired_version row')]\<rparr>))))"

text \<open>What a desired-state read returns: the release, or nothing desired.\<close>

definition get_desired_release :: "release_policy \<Rightarrow> topology \<Rightarrow> string \<Rightarrow> release_error + (string \<times> release_row) option" where
  "get_desired_release pol tp i =
    (if \<not> valid_engine_instance_id i then Inl ErrEngineInstanceNotFound
     else case tp_instances tp i of
       None \<Rightarrow> Inl ErrEngineInstanceNotFound
     | Some row \<Rightarrow>
         if in_desired_release row = [] then Inr None
         else case tp_releases tp (in_desired_release row) of
           None \<Rightarrow> Inl ErrEngineReleaseNotFound
         | Some r \<Rightarrow>
             if rl_status r \<notin> set (rp_readable_as_desired pol) then Inl (ErrDesiredReleaseUnavailable (in_desired_release row))
             else Inr (Some (in_desired_release row, r)))"

section \<open>Deprecating and revoking\<close>

datatype disposition_action = DispositionReplace | DispositionClear | DispositionOther string

record disposition =
  dp_instance :: string
  dp_action :: disposition_action
  dp_replacement :: string

record status_change =
  sg_target_status :: string
  sg_reason :: string
  sg_dispositions :: "disposition list"

definition desiring_instances :: "topology \<Rightarrow> string \<Rightarrow> string list" where
  "desiring_instances tp k = sort (filter (\<lambda>i. desires tp i k) (tp_instance_ids tp))"

fun dispositions_error :: "string list \<Rightarrow> string list \<Rightarrow> disposition list \<Rightarrow> release_error option" where
  "dispositions_error order seen [] = None"
| "dispositions_error order seen (d # ds) =
    (if dp_instance d \<in> set seen then Some (ErrDisposedTwice (dp_instance d))
     else if dp_instance d \<notin> set order then Some (ErrNotDesiring (dp_instance d))
     else dispositions_error order (dp_instance d # seen) ds)"

text \<open>The first check a replacement fails, in the order the refusals are tried, with its code.\<close>

definition refusal_codes :: "(string \<times> string) list" where
  "refusal_codes = [(''RELEASE_APPROVED'', ''RELEASE_NOT_APPROVED''), (''RELEASE_ENGINE'', ''RELEASE_ENGINE_MISMATCH''),
     (''PROVENANCE'', ''RELEASE_PROVENANCE_REQUIRED''), (''CERTIFICATION'', ''VALIDATION_FAILED'')]"

definition replacement_error ::
  "release_policy \<Rightarrow> topology \<Rightarrow> string \<Rightarrow> disposition \<Rightarrow> instance_row \<Rightarrow> instant \<Rightarrow> release_error option" where
  "replacement_error pol tp k d row now =
    (if dp_action d \<noteq> DispositionReplace then None
     else if dp_replacement d = k then Some ErrReplacedByItself
     else let failures = desired_release_eligibility pol tp (dp_replacement d) (in_engine_id row) (in_environment row) now in
       map_option (\<lambda>(check, code). ErrReplacementRefused (dp_instance d) code)
         (find (\<lambda>(check, code). check \<in> set failures) refusal_codes))"

definition dispose_one ::
  "release_policy \<Rightarrow> string \<Rightarrow> disposition list \<Rightarrow> instant \<Rightarrow> string \<Rightarrow> topology \<Rightarrow> release_error + topology" where
  "dispose_one pol k ds now i tp =
    (case (tp_instances tp i, find (\<lambda>d. dp_instance d = i) ds) of
       (Some row, Some d) \<Rightarrow>
         (case replacement_error pol tp k d row now of
            Some e \<Rightarrow> Inl e
          | None \<Rightarrow>
              (case set_desired_release tp i (if dp_action d = DispositionReplace then dp_replacement d else [])
                      (in_desired_version row) [] now of
                 Inl e \<Rightarrow> Inl e
               | Inr None \<Rightarrow> Inl (ErrChangedWhileLocked i)
               | Inr (Some tp') \<Rightarrow> Inr tp'))
     | _ \<Rightarrow> Inl (ErrChangedWhileLocked i))"

definition dispose_of_desiring_instances ::
  "release_policy \<Rightarrow> topology \<Rightarrow> string \<Rightarrow> disposition list \<Rightarrow> instant \<Rightarrow> release_error + topology" where
  "dispose_of_desiring_instances pol tp k ds now =
    (let order = desiring_instances tp k; uncovered = filter (\<lambda>i. i \<notin> set (map dp_instance ds)) order in
     case dispositions_error order [] ds of
       Some e \<Rightarrow> Inl e
     | None \<Rightarrow>
         if uncovered \<noteq> [] then Inl (ErrRevocationUncovered uncovered)
         else fold_result (dispose_one pol k ds now) order tp)"

definition transition_allowed :: "release_policy \<Rightarrow> string \<Rightarrow> string \<Rightarrow> bool" where
  "transition_allowed pol status to \<longleftrightarrow>
     list_ex (\<lambda>(command, froms, t). command \<noteq> ''approve'' \<and> t = to \<and> status \<in> set froms) (rp_transitions pol)"

definition change_release_status ::
  "release_policy \<Rightarrow> topology \<Rightarrow> string \<Rightarrow> status_change \<Rightarrow> string \<Rightarrow> instant \<Rightarrow> actor \<Rightarrow> release_error + topology" where
  "change_release_status pol tp k req changed_by now a =
    (if \<not> valid_release_id k then Inl ErrEngineReleaseNotFound
     else if \<not> validate_actor a then Inl ErrInvalidActor
     else case tp_releases tp k of
       None \<Rightarrow> Inl ErrEngineReleaseNotFound
     | Some r \<Rightarrow>
         if \<not> transition_allowed pol (rl_status r) (sg_target_status req)
           then Inl (ErrEngineReleaseTransition (rl_status r) (sg_target_status req))
         else case (if sg_target_status req = ''REVOKED'' then dispose_of_desiring_instances pol tp k (sg_dispositions req) now
                    else if sg_dispositions req \<noteq> [] then Inl ErrDispositionsWithoutRevocation else Inr tp) of
                Inl e \<Rightarrow> Inl e
              | Inr tp' \<Rightarrow> update_status tp' k r (sg_target_status req) changed_by now (sg_reason req))"

section \<open>Approval of a release\<close>

text \<open>
  The environments whose requirements a release meets: the Control Plane's own and those of the
  engine's instances that are not retired.
\<close>

definition approval_environments :: "topology \<Rightarrow> string \<Rightarrow> string \<Rightarrow> string list" where
  "approval_environments tp engine control_plane =
    (let envs = remdups (concat (map (\<lambda>i. case tp_instances tp i of None \<Rightarrow> []
           | Some row \<Rightarrow> if in_engine_id row = engine \<and> to_lower (in_status row) \<noteq> ''retired'' \<and> in_environment row \<noteq> []
                         then [to_lower (in_environment row)] else []) (tp_instance_ids tp)));
         own = to_lower (trim_space control_plane) in
     sort (if own \<noteq> [] \<and> own \<notin> set envs then envs @ [own] else envs))"

definition requiring :: "(string \<Rightarrow> bool) \<Rightarrow> string list \<Rightarrow> string list" where
  "requiring policy envs = filter policy envs"

definition uncatalogued :: "topology \<Rightarrow> release_row \<Rightarrow> string list" where
  "uncatalogued tp r = map su_capability (filter (\<lambda>s. case tp_capabilities tp (su_capability s) of None \<Rightarrow> True
     | Some c \<Rightarrow> \<not> cy_canonical c \<or> \<not> list_all (\<lambda>v. v \<in> set (cy_contract_versions c)) (su_contract_versions s)) (rl_support r))"

definition release_approval_checks ::
  "release_policy \<Rightarrow> string \<Rightarrow> topology \<Rightarrow> string \<Rightarrow> instant \<Rightarrow> release_error + string list" where
  "release_approval_checks pol control_plane tp k now =
    (case tp_releases tp k of
       None \<Rightarrow> Inl ErrEngineReleaseNotFound
     | Some r \<Rightarrow>
         let envs = approval_environments tp (rl_engine_id r) control_plane in
         Inr ((if uncatalogued tp r \<noteq> [] then [''SUPPORT_CATALOGUED''] else []) @
           (if requiring (rp_provenance_required pol) envs \<noteq> [] \<and> rl_provenance r = None then [''PROVENANCE''] else []) @
           (if requiring (rp_certification_required pol) envs \<noteq> [] \<and> certification_gaps tp k r now \<noteq> [] then [''CERTIFICATION''] else [])))"

section \<open>Releases and instances as the targets of changesets\<close>

text \<open>
  The status reason names the changeset and is at most 500 characters, the last an ellipsis
  (three bytes in UTF-8) when it is cut.
\<close>

definition release_status_reason :: "string \<Rightarrow> string \<Rightarrow> string" where
  "release_status_reason changeset reason =
    (let out = ''Approved by changeset '' @ changeset @ '': '' @ reason in
     if 500 < length out then take 499 out @ [CHR 0xE2, CHR 0x80, CHR 0xA6] else out)"

definition release_query :: "topology \<Rightarrow> desired_change \<Rightarrow> (string \<times> int \<times> string) option" where
  "release_query tp d =
    (case target_type_of d of
       TargetRelease \<Rightarrow> map_option (\<lambda>r. (rl_status r, 1, [])) (tp_releases tp (target_id_of d))
     | TargetInstance \<Rightarrow> map_option (\<lambda>row. (in_status row, in_desired_version row, [])) (tp_instances tp (target_id_of d))
     | _ \<Rightarrow> None)"

definition failure_map :: "string list \<Rightarrow> string \<Rightarrow> string option" where
  "failure_map names check = (if check \<in> set names then Some check else None)"

definition release_checks ::
  "release_policy \<Rightarrow> string \<Rightarrow> topology \<Rightarrow> changeset \<Rightarrow> instant \<Rightarrow> cs_error + (string \<times> (string \<Rightarrow> string option))" where
  "release_checks pol control_plane tp c now =
    (let d = ch_desired_change c in
     case target_type_of d of
       TargetRelease \<Rightarrow>
         (case release_approval_checks pol control_plane tp (dc_release_id d) now of
            Inl e \<Rightarrow> Inl (ErrTarget ''engine release'') | Inr fs \<Rightarrow> Inr ([], failure_map fs))
     | TargetInstance \<Rightarrow>
         (case desired_release_checks pol tp (dc_engine_instance_id d) (dc_release_id d) now of
            Inl e \<Rightarrow> Inl (ErrTarget ''engine instance'') | Inr (current, fs) \<Rightarrow> Inr (current, failure_map fs))
     | _ \<Rightarrow> Inr ([], \<lambda>_. None))"

definition release_maker_checker :: "topology \<Rightarrow> changeset \<Rightarrow> string \<Rightarrow> string \<Rightarrow> cs_error option" where
  "release_maker_checker tp c approver subject =
    (if target_type_of (ch_desired_change c) \<noteq> TargetRelease then None
     else case tp_releases tp (dc_release_id (ch_desired_change c)) of
       None \<Rightarrow> None
     | Some r \<Rightarrow> if rl_recorded_by r \<noteq> [] \<and> (rl_recorded_by r = approver \<or> rl_recorded_by r = subject)
                 then Some ErrTargetSelfApproval else None)"

text \<open>The branches of \<open>applyToTarget\<close> for a release and for an instance, each read back after the write.\<close>

definition apply_release_approval ::
  "topology \<Rightarrow> changeset \<Rightarrow> kind_spec \<Rightarrow> string \<Rightarrow> string \<Rightarrow> instant \<Rightarrow> cs_error + (topology \<times> string \<times> bool)" where
  "apply_release_approval tp c kind approver subject now =
    (let k = dc_release_id (ch_desired_change c) in
     case release_maker_checker tp c approver subject of
       Some e \<Rightarrow> Inl e
     | None \<Rightarrow>
         (case tp_releases tp k of
            None \<Rightarrow> Inl ErrChangesetPlanStale
          | Some r \<Rightarrow>
              if rl_status r \<notin> set (ki_from_status kind) then Inl ErrChangesetPlanStale
              else (case update_status tp k r (ki_to_status kind) approver now
                           (release_status_reason (ch_id c) (ch_reason c)) of
                      Inl e \<Rightarrow> Inl (ErrTarget ''approve engine release'')
                    | Inr tp' \<Rightarrow> Inr (tp', [], map_option rl_status (tp_releases tp' k) = Some (ki_to_status kind)))))"

definition apply_desired_release ::
  "topology \<Rightarrow> changeset \<Rightarrow> kind_spec \<Rightarrow> plan \<Rightarrow> target \<Rightarrow> instant \<Rightarrow> cs_error + (topology \<times> string \<times> bool)" where
  "apply_desired_release tp c kind p t now =
    (let d = ch_desired_change c; i = dc_engine_instance_id d in
     if ta_status t \<notin> set (ki_from_status kind) then Inl ErrChangesetPlanStale
     else case set_desired_release tp i (dc_release_id d) (planned_revision p) (ch_id c) now of
       Inl e \<Rightarrow> Inl (ErrTarget ''set desired release'')
     | Inr None \<Rightarrow> Inl ErrChangesetPlanStale
     | Inr (Some tp') \<Rightarrow> Inr (tp', [], map_option in_desired_release (tp_instances tp' i) = Some (dc_release_id d)))"

definition apply_release ::
  "topology \<Rightarrow> changeset \<Rightarrow> kind_spec \<Rightarrow> plan \<Rightarrow> target \<Rightarrow> string \<Rightarrow> string \<Rightarrow> instant \<Rightarrow> cs_error + (topology \<times> string \<times> bool)" where
  "apply_release tp c kind p t approver subject now =
    (case ki_target kind of
       TargetRelease \<Rightarrow> apply_release_approval tp c kind approver subject now
     | TargetInstance \<Rightarrow> apply_desired_release tp c kind p t now
     | _ \<Rightarrow> Inl (ErrTarget ''neither a release nor an instance''))"

definition release_targets :: "release_policy \<Rightarrow> string \<Rightarrow> topology targets" where
  "release_targets pol control_plane = \<lparr>tg_row = release_query, tg_checks = release_checks pol control_plane,
     tg_maker_checker = release_maker_checker, tg_apply = apply_release\<rparr>"

section \<open>Observations and drift\<close>

record observation_submission =
  os_engine_instance_id :: string
  os_artifacts :: "observed_artifact list"
  os_environment :: string
  os_region :: string
  os_observed_at :: instant
  os_expires_at :: instant

definition observation_window_ok :: "release_policy \<Rightarrow> instant \<Rightarrow> instant \<Rightarrow> bool" where
  "observation_window_ok pol observed_at expires_at \<longleftrightarrow>
    (let ttl = time_sub expires_at observed_at in
     \<not> (ttl < duration_of (rp_ttl_minimum pol) second_ns \<or> duration_of (rp_ttl_maximum pol) second_ns < ttl))"

definition observations_of :: "topology \<Rightarrow> string \<Rightarrow> dep_observation list" where
  "observations_of tp i = filter (\<lambda>ob. do_engine_instance_id ob = i) (tp_observations tp)"

definition is_revoked :: "topology \<Rightarrow> string \<Rightarrow> bool" where
  "is_revoked tp k = (case tp_releases tp k of None \<Rightarrow> False | Some r \<Rightarrow> rl_status r = ''REVOKED'')"

definition drift_input_of :: "instance_row \<Rightarrow> observed_release \<Rightarrow> dep_observation option \<Rightarrow> string list \<Rightarrow> drift_input" where
  "drift_input_of row out current revoked =
     \<lparr>di_environment = in_environment row, di_region = in_region row, di_desired_release_id = in_desired_release row,
      di_desired_since = (case in_desired_updated_at row of None \<Rightarrow> in_created_at row | Some t \<Rightarrow> t),
      di_observed = out, di_current = current, di_revoked = revoked\<rparr>"

text \<open>\<open>evaluateReleaseDriftTx\<close>: the instance's row, its observed release, what of it is revoked, the stored drift.\<close>

definition evaluate_release_drift_tx :: "release_policy \<Rightarrow> topology \<Rightarrow> string \<Rightarrow> instant \<Rightarrow> release_error + topology" where
  "evaluate_release_drift_tx pol tp i now =
    (case tp_instances tp i of
       None \<Rightarrow> Inl ErrEngineInstanceNotFound
     | Some row \<Rightarrow>
         (case observed_release_of i (in_engine_id row) (observations_of tp i) (owner_of tp) now of
            Inl e \<Rightarrow> Inl (ReleasePanic e)
          | Inr (out, current) \<Rightarrow>
              (case evaluate_drift (rp_drift pol) (drift_input_of row out current (revoked_among (is_revoked tp) out)) now (tp_drift tp i) of
                 Inl e \<Rightarrow> Inl (ErrDrift e)
               | Inr (stored, publish) \<Rightarrow> Inr (tp\<lparr>tp_drift := (tp_drift tp)(i := stored),
                   tp_events := tp_events tp @ (case stored of None \<Rightarrow> []
                     | Some d \<Rightarrow> if publish then [ReleaseDriftDetected i (dw_reason d)] else [])\<rparr>))))"

definition evaluate_release_drift :: "release_policy \<Rightarrow> topology \<Rightarrow> string \<Rightarrow> instant \<Rightarrow> release_error + topology" where
  "evaluate_release_drift pol tp i now =
    (if \<not> valid_engine_instance_id i then Inl ErrEngineInstanceNotFound else evaluate_release_drift_tx pol tp i now)"

text \<open>
  The sweep evaluates every instance it lists, carries on after an error and reports the first; a
  panic ends it.
\<close>

definition swept :: "topology \<Rightarrow> string \<Rightarrow> bool" where
  "swept tp i \<longleftrightarrow> (case tp_instances tp i of None \<Rightarrow> False
     | Some row \<Rightarrow> in_desired_release row \<noteq> [] \<or> observations_of tp i \<noteq> [] \<or> tp_drift tp i \<noteq> None)"

fun sweep_loop ::
  "release_policy \<Rightarrow> instant \<Rightarrow> string list \<Rightarrow> topology \<Rightarrow> nat \<Rightarrow> release_error option \<Rightarrow> topology \<times> nat \<times> release_error option" where
  "sweep_loop pol now [] tp evaluated first = (tp, evaluated, first)"
| "sweep_loop pol now (i # is) tp evaluated first =
    (case evaluate_release_drift pol tp i now of
       Inl (ReleasePanic e) \<Rightarrow> (tp, evaluated, Some (ReleasePanic e))
     | Inl e \<Rightarrow> sweep_loop pol now is tp evaluated (case first of None \<Rightarrow> Some e | Some f \<Rightarrow> Some f)
     | Inr tp' \<Rightarrow> sweep_loop pol now is tp' (Suc evaluated) first)"

definition sweep_release_drift :: "release_policy \<Rightarrow> topology \<Rightarrow> instant \<Rightarrow> topology \<times> nat \<times> release_error option" where
  "sweep_release_drift pol tp now = sweep_loop pol now (sort (filter (swept tp) (tp_instance_ids tp))) tp 0 None"

text \<open>
  Recording an observation commits it and then evaluates the instance's drift; an error of the
  evaluation is logged, not returned, and a panic leaves the observation recorded. The database
  draws the ingestion sequence.
\<close>

definition submitted :: "topology \<Rightarrow> observation_submission \<Rightarrow> string \<Rightarrow> string \<Rightarrow> instant \<Rightarrow> dep_observation" where
  "submitted tp req key source now =
     \<lparr>do_observation_id = key, do_engine_instance_id = os_engine_instance_id req, do_artifacts = os_artifacts req,
      do_environment = os_environment req, do_region = os_region req, do_observed_at = os_observed_at req,
      do_expires_at = os_expires_at req, do_recorded_at = now, do_ingestion_sequence = tp_sequence tp + 1, do_source = source\<rparr>"

definition record_deployment_observation ::
  "release_policy \<Rightarrow> topology \<Rightarrow> observation_submission \<Rightarrow> string \<Rightarrow> string \<Rightarrow> instant \<Rightarrow> topology \<times> (release_error + dep_observation)" where
  "record_deployment_observation pol tp req key source now =
    (if \<not> observation_window_ok pol (os_observed_at req) (os_expires_at req) then (tp, Inl ErrObservationWindowInvalid)
     else case tp_instances tp (os_engine_instance_id req) of
       None \<Rightarrow> (tp, Inl (ErrObservationInstanceUnknown (os_engine_instance_id req)))
     | Some row \<Rightarrow>
         let ob = submitted tp req key source now;
             tp1 = tp\<lparr>tp_observations := tp_observations tp @ [ob], tp_sequence := tp_sequence tp + 1\<rparr> in
         (case evaluate_release_drift pol tp1 (os_engine_instance_id req) now of
            Inl (ReleasePanic e) \<Rightarrow> (tp1, Inl (ReleasePanic e))
          | Inl e \<Rightarrow> (tp1, Inr ob)
          | Inr tp2 \<Rightarrow> (tp2, Inr ob)))"

section \<open>The invariant of the tables\<close>

definition desired_ok :: "topology \<Rightarrow> instance_row \<Rightarrow> bool" where
  "desired_ok tp row \<longleftrightarrow> in_desired_release row = [] \<or>
     (\<exists>r. tp_releases tp (in_desired_release row) = Some r \<and> rl_engine_id r = in_engine_id row \<and>
       rl_status r \<in> {''APPROVED'', ''DEPRECATED''})"

definition release_ok :: "release_row \<Rightarrow> bool" where
  "release_ok r \<longleftrightarrow> distinct (map af_digest (rl_artifacts r)) \<and>
     rl_status r \<in> {''CANDIDATE'', ''APPROVED'', ''DEPRECATED'', ''REVOKED''} \<and>
     (rl_status r = ''APPROVED'' \<longrightarrow> rl_recorded_by r = [] \<or> rl_status_changed_by r \<noteq> rl_recorded_by r)"

definition separate :: "release_row \<Rightarrow> release_row \<Rightarrow> bool" where
  "separate r s \<longleftrightarrow> set (map af_digest (rl_artifacts r)) \<inter> set (map af_digest (rl_artifacts s)) = {} \<and>
     (rl_engine_id r, rl_version r) \<noteq> (rl_engine_id s, rl_version s)"

definition topo_inv :: "topology \<Rightarrow> bool" where
  "topo_inv tp \<longleftrightarrow> set (tp_release_ids tp) = dom (tp_releases tp) \<and> set (tp_instance_ids tp) = dom (tp_instances tp) \<and>
     (\<forall>i row. tp_instances tp i = Some row \<longrightarrow> desired_ok tp row) \<and>
     (\<forall>k r. tp_releases tp k = Some r \<longrightarrow> release_ok r) \<and>
     (\<forall>k r l s. tp_releases tp k = Some r \<longrightarrow> tp_releases tp l = Some s \<longrightarrow> k \<noteq> l \<longrightarrow> separate r s)"

text \<open>The content of a release, which never changes.\<close>

definition identity_of :: "release_row \<Rightarrow> release_row" where
  "identity_of r = r\<lparr>rl_status := [], rl_status_changed_by := [], rl_status_changed_at := None, rl_status_reason := []\<rparr>"

definition releases_kept :: "topology \<Rightarrow> topology \<Rightarrow> bool" where
  "releases_kept tp tp' \<longleftrightarrow> (\<forall>k r. tp_releases tp k = Some r \<longrightarrow>
     (\<exists>r'. tp_releases tp' k = Some r' \<and> identity_of r' = identity_of r \<and> status_moves (rl_status r) (rl_status r')))"

lemma topo_invD:
  assumes "topo_inv tp"
  shows "set (tp_release_ids tp) = dom (tp_releases tp)" and "set (tp_instance_ids tp) = dom (tp_instances tp)"
    and "tp_instances tp i = Some row \<Longrightarrow> desired_ok tp row" and "tp_releases tp k = Some r \<Longrightarrow> release_ok r"
    and "tp_releases tp k = Some r \<Longrightarrow> tp_releases tp l = Some s \<Longrightarrow> k \<noteq> l \<Longrightarrow> separate r s"
  using assms unfolding topo_inv_def by blast+

lemma separate_sym: "separate r s \<longleftrightarrow> separate s r"
  by (auto simp: separate_def)

lemma topo_inv_same:
  assumes "topo_inv tp" and "tp_releases tp' = tp_releases tp" and "tp_release_ids tp' = tp_release_ids tp"
    and "tp_instances tp' = tp_instances tp" and "tp_instance_ids tp' = tp_instance_ids tp"
  shows "topo_inv tp'"
  using assms unfolding topo_inv_def desired_ok_def by simp

section \<open>Recording keeps the invariant\<close>

lemma owner_of_None:
  assumes "set (tp_release_ids tp) = dom (tp_releases tp)"
  shows "owner_of tp d = None \<longleftrightarrow> (\<forall>k r. tp_releases tp k = Some r \<longrightarrow> d \<notin> set (map af_digest (rl_artifacts r)))"
proof -
  let ?P = "\<lambda>k. case tp_releases tp k of None \<Rightarrow> False | Some r \<Rightarrow> d \<in> set (map af_digest (rl_artifacts r))"
  have "owner_of tp d = None \<longleftrightarrow> find ?P (tp_release_ids tp) = None"
    unfolding owner_of_def by (auto dest!: find_SomeD split: option.splits)
  also have "\<dots> \<longleftrightarrow> (\<forall>k \<in> dom (tp_releases tp). \<not> ?P k)" unfolding find_None_iff assms by blast
  also have "\<dots> \<longleftrightarrow> (\<forall>k r. tp_releases tp k = Some r \<longrightarrow> d \<notin> set (map af_digest (rl_artifacts r)))"
    by (auto split: option.splits)
  finally show ?thesis .
qed

lemma release_of_version_None:
  assumes "set (tp_release_ids tp) = dom (tp_releases tp)"
  shows "release_of_version tp e v = None \<longleftrightarrow> (\<forall>k r. tp_releases tp k = Some r \<longrightarrow> (rl_engine_id r, rl_version r) \<noteq> (e, v))"
  unfolding release_of_version_def find_None_iff assms by (fastforce simp: dom_def split: option.splits)

lemma record_Inr:
  assumes "record_engine_release cd tp req by now uuid a = Inr (tp', k, replay)" and "topo_inv tp"
  shows "replay \<and> tp' = tp \<or>
    \<not> replay \<and> k = release_id uuid \<and> tp_releases tp k = None \<and> distinct (map af_digest (rr_artifacts req)) \<and>
      (\<forall>l s. tp_releases tp l = Some s \<longrightarrow> separate (recorded_row cd req by now) s) \<and>
      tp' = tp\<lparr>tp_releases := (tp_releases tp)(k \<mapsto> recorded_row cd req by now), tp_release_ids := tp_release_ids tp @ [k],
        tp_events := tp_events tp @ [ReleaseRecorded k]\<rparr>"
proof (cases replay)
  case True
  with assms(1) show ?thesis by (auto simp: record_engine_release_def Let_def split: if_splits option.splits)
next
  case False
  note ids = topo_invD(1) [OF assms(2)]
  from assms(1) False have rec: "k = release_id uuid" "tp_releases tp k = None" "record_check req = None"
      "release_of_version tp (rr_engine_id req) (rr_release_version req) = None"
      "find (\<lambda>d. owner_of tp d \<noteq> None) (map af_digest (rr_artifacts req)) = None"
      "tp' = tp\<lparr>tp_releases := (tp_releases tp)(k \<mapsto> recorded_row cd req by now), tp_release_ids := tp_release_ids tp @ [k],
        tp_events := tp_events tp @ [ReleaseRecorded k]\<rparr>"
    by (auto simp: record_engine_release_def Let_def split: if_splits option.splits)
  from rec(3) have "distinct (map af_digest (rr_artifacts req))"
    by (auto simp: record_check_def error_simps digest_error_None)
  moreover have "separate (recorded_row cd req by now) s" if "tp_releases tp l = Some s" for l s
    using rec(4,5) that unfolding release_of_version_None [OF ids] find_None_iff owner_of_None [OF ids] separate_def recorded_row_def
    by fastforce
  ultimately show ?thesis using False rec by blast
qed

lemma record_inv:
  assumes "topo_inv tp" and "record_engine_release cd tp req by now uuid a = Inr (tp', k, replay)"
  shows "topo_inv tp'"
  using record_Inr [OF assms(2,1)]
proof (elim disjE conjE)
  assume new: "tp_releases tp k = None" "distinct (map af_digest (rr_artifacts req))"
    "\<forall>l s. tp_releases tp l = Some s \<longrightarrow> separate (recorded_row cd req by now) s"
    "tp' = tp\<lparr>tp_releases := (tp_releases tp)(k \<mapsto> recorded_row cd req by now), tp_release_ids := tp_release_ids tp @ [k],
        tp_events := tp_events tp @ [ReleaseRecorded k]\<rparr>"
  have "release_ok (recorded_row cd req by now)" using new(2) by (simp add: release_ok_def recorded_row_def)
  moreover have "desired_ok tp' row" if "tp_instances tp i = Some row" for i row
    using topo_invD(3) [OF assms(1) that] new(1) by (auto simp: desired_ok_def new(4))
  ultimately show ?thesis
    using topo_invD [OF assms(1)] new(1,3) unfolding topo_inv_def
    by (auto simp: new(4) separate_sym [of _ "recorded_row cd req by now"])
qed (use assms(1) in simp)

section \<open>Setting a desired release and changing a status keep the invariant\<close>

lemma set_desired_Inr:
  assumes "set_desired_release tp i k expected cs now = Inr (Some tp')" and "topo_inv tp"
  obtains row row' where "tp_instances tp i = Some row" and "in_desired_version row = expected"
    and "row' = row\<lparr>in_desired_release := k, in_desired_version := in_desired_version row + 1,
      in_desired_changeset := cs, in_desired_updated_at := Some now\<rparr>"
    and "tp_instances tp' = (tp_instances tp)(i \<mapsto> row')" and "tp_releases tp' = tp_releases tp"
    and "tp_release_ids tp' = tp_release_ids tp" and "tp_instance_ids tp' = tp_instance_ids tp"
    and "desired_ok tp row'"
proof -
  from assms(1) obtain row where row: "tp_instances tp i = Some row" "in_desired_version row = expected"
    by (auto simp: set_desired_release_def Let_def split: option.splits if_splits)
  note old = topo_invD(3) [OF assms(2) row(1)]
  from assms(1) row have "desired_ok tp (row\<lparr>in_desired_release := k, in_desired_version := in_desired_version row + 1,
      in_desired_changeset := cs, in_desired_updated_at := Some now\<rparr>)"
    using old by (auto simp: set_desired_release_def Let_def desired_ok_def split: option.splits if_splits)
  moreover from assms(1) row have "tp_instances tp' = (tp_instances tp)(i \<mapsto> row\<lparr>in_desired_release := k,
      in_desired_version := in_desired_version row + 1, in_desired_changeset := cs, in_desired_updated_at := Some now\<rparr>)"
    "tp_releases tp' = tp_releases tp" "tp_release_ids tp' = tp_release_ids tp" "tp_instance_ids tp' = tp_instance_ids tp"
    by (auto simp: set_desired_release_def Let_def split: option.splits if_splits)
  ultimately show thesis using row by (intro that [OF row refl])
qed

lemma desired_ok_same: "tp_releases tp' = tp_releases tp \<Longrightarrow> desired_ok tp' row = desired_ok tp row"
  by (simp add: desired_ok_def)

lemma set_desired_inv:
  assumes "topo_inv tp" and "set_desired_release tp i k expected cs now = Inr (Some tp')"
  shows "topo_inv tp'"
  using assms(2,1)
proof (rule set_desired_Inr)
  fix row row'
  assume new: "tp_instances tp i = Some row" "tp_instances tp' = (tp_instances tp)(i \<mapsto> row')" "tp_releases tp' = tp_releases tp"
    "tp_release_ids tp' = tp_release_ids tp" "tp_instance_ids tp' = tp_instance_ids tp" "desired_ok tp row'"
  show ?thesis using topo_invD [OF assms(1)] new unfolding topo_inv_def
    by (auto simp: desired_ok_same [OF new(3)] split: if_splits)
qed

lemma update_status_Inr:
  assumes "update_status tp k r to by now reason = Inr tp'"
  shows "status_moves (rl_status r) to"
    and "tp_releases tp' = (tp_releases tp)(k \<mapsto> r\<lparr>rl_status := to, rl_status_changed_by := by,
      rl_status_changed_at := Some now, rl_status_reason := reason\<rparr>)"
    and "tp_instances tp' = tp_instances tp" "tp_release_ids tp' = tp_release_ids tp" "tp_instance_ids tp' = tp_instance_ids tp"
    and "to = ''REVOKED'' \<Longrightarrow> rl_status r \<noteq> ''REVOKED'' \<Longrightarrow> i \<in> set (tp_instance_ids tp) \<Longrightarrow> \<not> desires tp i k"
  using assms by (auto simp: update_status_def list_ex_iff split: if_splits)

lemma update_status_inv:
  assumes inv: "topo_inv tp" and r: "tp_releases tp k = Some r" and up: "update_status tp k r to by now reason = Inr tp'"
    and approved: "to = ''APPROVED'' \<Longrightarrow> rl_recorded_by r = [] \<or> by \<noteq> rl_recorded_by r"
  shows "topo_inv tp'"
proof -
  let ?r = "r\<lparr>rl_status := to, rl_status_changed_by := by, rl_status_changed_at := Some now, rl_status_reason := reason\<rparr>"
  note new = update_status_Inr [OF up]
  have st: "rl_status r \<in> {''CANDIDATE'', ''APPROVED'', ''DEPRECATED'', ''REVOKED''}" "distinct (map af_digest (rl_artifacts r))"
    using topo_invD(4) [OF inv r] by (simp_all add: release_ok_def)
  then have "release_ok ?r" using new(1) approved by (auto simp: release_ok_def status_moves_def)
  moreover have "separate ?r s = separate r s" for s by (simp add: separate_def)
  moreover have "desired_ok tp' row" if row: "tp_instances tp i = Some row" for i row
  proof (cases "in_desired_release row = k")
    case True
    have "i \<in> set (tp_instance_ids tp)" using topo_invD(2) [OF inv] row by auto
    moreover have "desires tp i k" using row True by (simp add: desires_def)
    ultimately have "to \<noteq> ''REVOKED'' \<or> rl_status r = ''REVOKED''" using new(6) by blast
    then show ?thesis using topo_invD(3) [OF inv row] r True new(1) by (auto simp: desired_ok_def new(2) status_moves_def)
  next
    case False
    then show ?thesis using topo_invD(3) [OF inv row] by (auto simp: desired_ok_def new(2))
  qed
  ultimately show ?thesis using topo_invD [OF inv] r unfolding topo_inv_def new(2-5)
    by (auto simp: separate_sym [of _ ?r] split: if_splits)
qed

section \<open>Disposing of the instances that desire a release\<close>

text \<open>What a disposition leaves unchanged.\<close>

definition same_releases :: "topology \<Rightarrow> topology \<Rightarrow> bool" where
  "same_releases tp tp' \<longleftrightarrow> tp_releases tp' = tp_releases tp \<and> tp_release_ids tp' = tp_release_ids tp \<and>
     tp_instance_ids tp' = tp_instance_ids tp \<and> tp_providers tp' = tp_providers tp \<and>
     tp_capabilities tp' = tp_capabilities tp \<and> tp_certifications tp' = tp_certifications tp"

lemma same_releases_refl [simp]: "same_releases tp tp"
  by (simp add: same_releases_def)

lemma same_releases_trans: "same_releases a b \<Longrightarrow> same_releases b c \<Longrightarrow> same_releases a c"
  by (simp add: same_releases_def)

lemma eligibility_same:
  "same_releases tp tp' \<Longrightarrow> desired_release_eligibility pol tp' k e env now = desired_release_eligibility pol tp k e env now"
  by (simp add: same_releases_def desired_release_eligibility_def certification_gaps_def certified_def cong: option.case_cong)

definition disposed_to :: "disposition \<Rightarrow> string" where
  "disposed_to d = (if dp_action d = DispositionReplace then dp_replacement d else [])"

definition disposed ::
  "release_policy \<Rightarrow> topology \<Rightarrow> string \<Rightarrow> disposition list \<Rightarrow> instant \<Rightarrow> string \<Rightarrow> instance_row \<Rightarrow> bool" where
  "disposed pol tp k ds now i row' \<longleftrightarrow> (\<exists>d \<in> set ds. dp_instance d = i \<and> in_desired_release row' = disposed_to d \<and>
     (dp_action d = DispositionReplace \<longrightarrow> dp_replacement d \<noteq> k \<and>
       desired_release_eligibility pol tp (dp_replacement d) (in_engine_id row') (in_environment row') now = []))"

lemma flagged:
  "c \<in> set ((if p1 then [n1] else []) @ (if p2 then [n2] else []) @ (if p3 then [n3] else []) @ (if p4 then [n4] else [])) \<Longrightarrow>
    c \<in> set [n1, n2, n3, n4]"
  by (auto split: if_splits)

lemma eligibility_names:
  assumes "c \<in> set (desired_release_eligibility pol tp k e env now)"
  shows "c \<in> fst ` set refusal_codes"
proof -
  have "set [''RELEASE_APPROVED'', ''RELEASE_ENGINE'', ''PROVENANCE'', ''CERTIFICATION''] = fst ` set refusal_codes"
    by (simp add: refusal_codes_def)
  moreover have "c \<in> set [''RELEASE_APPROVED'', ''RELEASE_ENGINE'', ''PROVENANCE'', ''CERTIFICATION'']"
  proof (cases "tp_releases tp k")
    case None
    with assms show ?thesis by (simp add: desired_release_eligibility_def)
  next
    case (Some r)
    with assms show ?thesis unfolding desired_release_eligibility_def Let_def by (simp only: option.case) (rule flagged)
  qed
  ultimately show ?thesis by blast
qed

lemma replacement_error_None:
  assumes "replacement_error pol tp k d row now = None" and "dp_action d = DispositionReplace"
  shows "dp_replacement d \<noteq> k" and "desired_release_eligibility pol tp (dp_replacement d) (in_engine_id row) (in_environment row) now = []"
proof -
  let ?fs = "desired_release_eligibility pol tp (dp_replacement d) (in_engine_id row) (in_environment row) now"
  from assms show "dp_replacement d \<noteq> k" by (auto simp: replacement_error_def split: if_splits)
  from assms have "find (\<lambda>(check, code). check \<in> set ?fs) refusal_codes = None"
    by (auto simp: replacement_error_def Let_def split: if_splits)
  then have none: "x \<in> fst ` set refusal_codes \<Longrightarrow> x \<notin> set ?fs" for x unfolding find_None_iff by force
  show "?fs = []"
  proof (rule ccontr)
    assume "?fs \<noteq> []"
    then have "hd ?fs \<in> set ?fs" by (rule hd_in_set)
    with none [OF eligibility_names [OF this]] show False by (rule notE)
  qed
qed

lemma dispose_one_Inr:
  assumes "dispose_one pol k ds now i tp = Inr tp'" and "topo_inv tp"
  obtains row' where "topo_inv tp'" and "same_releases tp tp'" and "tp_instances tp' = (tp_instances tp)(i \<mapsto> row')"
    and "disposed pol tp k ds now i row'"
proof -
  from assms(1) obtain row d where row: "tp_instances tp i = Some row" and d: "find (\<lambda>d. dp_instance d = i) ds = Some d"
    and ok: "replacement_error pol tp k d row now = None"
    and set: "set_desired_release tp i (disposed_to d) (in_desired_version row) [] now = Inr (Some tp')"
    by (auto simp: dispose_one_def disposed_to_def split: option.splits sum.splits)
  from set assms(2) obtain row' where row': "row' = row\<lparr>in_desired_release := disposed_to d, in_desired_version := in_desired_version row + 1,
      in_desired_changeset := [], in_desired_updated_at := Some now\<rparr>" "tp_instances tp' = (tp_instances tp)(i \<mapsto> row')"
    by (rule set_desired_Inr) (use row in auto)
  have "same_releases tp tp'"
    using set by (auto simp: set_desired_release_def same_releases_def Let_def split: option.splits if_splits)
  moreover have "disposed pol tp k ds now i row'"
    using find_SomeD [OF d] replacement_error_None [OF ok] unfolding disposed_def row'(1) by auto
  ultimately show thesis using set_desired_inv [OF assms(2) set] row'(2) that by blast
qed

lemma disposed_same: "same_releases tp tp' \<Longrightarrow> disposed pol tp' k ds now i row = disposed pol tp k ds now i row"
  by (simp add: disposed_def eligibility_same)

lemma dispose_all:
  assumes "fold_result (dispose_one pol k ds now) is tp = Inr tp'" and "topo_inv tp"
  shows "topo_inv tp' \<and> same_releases tp tp' \<and> (\<forall>i. i \<notin> set is \<longrightarrow> tp_instances tp' i = tp_instances tp i) \<and>
    (\<forall>i \<in> set is. \<exists>row'. tp_instances tp' i = Some row' \<and> disposed pol tp k ds now i row')"
  using assms
proof (induction "is" arbitrary: tp)
  case Nil
  then show ?case by simp
next
  case (Cons i "is")
  from Cons.prems(1) obtain tp1 where one: "dispose_one pol k ds now i tp = Inr tp1"
    and rest: "fold_result (dispose_one pol k ds now) is tp1 = Inr tp'" by (auto split: sum.splits)
  from one Cons.prems(2) show ?case
  proof (rule dispose_one_Inr)
    fix row'
    assume one: "topo_inv tp1" "same_releases tp tp1" "tp_instances tp1 = (tp_instances tp)(i \<mapsto> row')"
      "disposed pol tp k ds now i row'"
    from Cons.IH [OF rest one(1)] have ih: "topo_inv tp'" "same_releases tp1 tp'"
      "\<forall>j. j \<notin> set is \<longrightarrow> tp_instances tp' j = tp_instances tp1 j"
      "\<forall>j \<in> set is. \<exists>row'. tp_instances tp' j = Some row' \<and> disposed pol tp k ds now j row'"
      by (simp_all add: disposed_same [OF one(2)])
    show ?thesis
      using ih one same_releases_trans [OF one(2) ih(2)] by (auto simp: fun_upd_apply)
  qed
qed

lemma dispose_Inr:
  assumes "dispose_of_desiring_instances pol tp k ds now = Inr tp'" and "topo_inv tp"
  shows "topo_inv tp'" and "same_releases tp tp'"
    and "tp_instances tp i = Some row \<Longrightarrow> in_desired_release row \<noteq> k \<Longrightarrow> tp_instances tp' i = Some row"
    and "tp_instances tp i = Some row \<Longrightarrow> in_desired_release row = k \<Longrightarrow>
      \<exists>row'. tp_instances tp' i = Some row' \<and> disposed pol tp k ds now i row'"
    and "tp_instances tp i = None \<Longrightarrow> tp_instances tp' i = None"
proof -
  from assms(1) have "fold_result (dispose_one pol k ds now) (desiring_instances tp k) tp = Inr tp'"
    by (auto simp: dispose_of_desiring_instances_def Let_def split: option.splits if_splits)
  note all = dispose_all [OF this assms(2)]
  have ids: "i \<in> set (desiring_instances tp k) \<longleftrightarrow> (\<exists>row. tp_instances tp i = Some row \<and> in_desired_release row = k)" for i
    using topo_invD(2) [OF assms(2)] by (auto simp: desiring_instances_def desires_def split: option.splits)
  show "topo_inv tp'" "same_releases tp tp'" using all by blast+
  show "tp_instances tp i = Some row \<Longrightarrow> in_desired_release row \<noteq> k \<Longrightarrow> tp_instances tp' i = Some row"
    "tp_instances tp i = None \<Longrightarrow> tp_instances tp' i = None" using all ids [of i] by simp_all
  show "tp_instances tp i = Some row \<Longrightarrow> in_desired_release row = k \<Longrightarrow>
      \<exists>row'. tp_instances tp' i = Some row' \<and> disposed pol tp k ds now i row'" using all ids [of i] by blast
qed

lemma change_status_Inr:
  assumes "change_release_status pol tp k req by now a = Inr tp'" and "topo_inv tp"
  obtains r tp1 where "tp_releases tp k = Some r" and "topo_inv tp1" and "same_releases tp tp1"
    and "update_status tp1 k r (sg_target_status req) by now (sg_reason req) = Inr tp'"
    and "valid_release_id k" and "transition_allowed pol (rl_status r) (sg_target_status req)"
    and "sg_target_status req = ''REVOKED'' \<Longrightarrow> dispose_of_desiring_instances pol tp k (sg_dispositions req) now = Inr tp1"
    and "sg_target_status req \<noteq> ''REVOKED'' \<Longrightarrow> tp1 = tp"
  using assms
  by (auto simp: change_release_status_def dest: dispose_Inr(1,2) split: if_splits option.splits sum.splits)

end
