(* ===== verification/Release_Guard.thy ===== *)
theory Release_Guard
  imports Release_Store
begin

text \<open>
  What holds of the release tables in every reachable state: the step relation of the commands of
  \<open>Release_Store\<close>, the invariant, and its consequences for desired releases, revocations, the
  database's guards and the recognition of what an instance runs.
\<close>

section \<open>Reachable tables\<close>

text \<open>
  What other commands do between these: they register engines, providers, capabilities,
  certifications and instances, and change an instance's other columns; they touch no release and
  set no desired release.
\<close>

definition other_change :: "topology \<Rightarrow> topology \<Rightarrow> bool" where
  "other_change tp tp' \<longleftrightarrow> tp_releases tp' = tp_releases tp \<and> tp_release_ids tp' = tp_release_ids tp \<and>
     set (tp_instance_ids tp') = dom (tp_instances tp') \<and>
     (\<forall>i row'. tp_instances tp' i = Some row' \<longrightarrow> in_desired_release row' = [] \<or>
       (\<exists>row. tp_instances tp i = Some row \<and> in_desired_release row' = in_desired_release row \<and> in_engine_id row' = in_engine_id row))"

inductive topo_step :: "(content \<Rightarrow> string) \<Rightarrow> release_policy \<Rightarrow> topology \<Rightarrow> topology \<Rightarrow> bool"
  for cd :: "content \<Rightarrow> string" and pol :: release_policy where
  recorded: "record_engine_release cd tp req by now uuid a = Inr (tp', k, replay) \<Longrightarrow> topo_step cd pol tp tp'"
| changed: "change_release_status pol tp k req by now a = Inr tp' \<Longrightarrow> topo_step cd pol tp tp'"
| applied: "cs_kinds (dc_kind (ch_desired_change c)) = Some kind \<Longrightarrow>
    apply_release tp c kind p t approver subject now = Inr (tp', tenant, verified) \<Longrightarrow> topo_step cd pol tp tp'"
| observed: "record_deployment_observation pol tp req key source now = (tp', result) \<Longrightarrow> topo_step cd pol tp tp'"
| evaluated: "evaluate_release_drift pol tp i now = Inr tp' \<Longrightarrow> topo_step cd pol tp tp'"
| swept: "sweep_release_drift pol tp now = (tp', n, e) \<Longrightarrow> topo_step cd pol tp tp'"
| other: "other_change tp tp' \<Longrightarrow> topo_step cd pol tp tp'"

inductive topo_reachable :: "(content \<Rightarrow> string) \<Rightarrow> release_policy \<Rightarrow> topology \<Rightarrow> bool"
  for cd :: "content \<Rightarrow> string" and pol :: release_policy where
  initial: "tp_releases tp = (\<lambda>_. None) \<Longrightarrow> tp_release_ids tp = [] \<Longrightarrow> tp_instances tp = (\<lambda>_. None) \<Longrightarrow> tp_instance_ids tp = [] \<Longrightarrow>
    topo_reachable cd pol tp"
| stepped: "topo_reachable cd pol tp \<Longrightarrow> topo_step cd pol tp tp' \<Longrightarrow> topo_reachable cd pol tp'"

section \<open>Every step keeps the invariant and the releases\<close>

lemma evaluate_drift_frame:
  assumes "evaluate_release_drift pol tp i now = Inr tp'"
  shows "tp_releases tp' = tp_releases tp" "tp_release_ids tp' = tp_release_ids tp" "tp_instances tp' = tp_instances tp"
    "tp_instance_ids tp' = tp_instance_ids tp"
  using assms by (auto simp: evaluate_release_drift_def evaluate_release_drift_tx_def split: if_splits option.splits sum.splits)

lemma sweep_frame:
  "sweep_loop pol now is tp n e = (tp', n', e') \<Longrightarrow> tp_releases tp' = tp_releases tp \<and> tp_release_ids tp' = tp_release_ids tp \<and>
    tp_instances tp' = tp_instances tp \<and> tp_instance_ids tp' = tp_instance_ids tp"
proof (induction "is" arbitrary: tp n e)
  case (Cons i "is")
  show ?case
  proof (cases "evaluate_release_drift pol tp i now")
    case (Inl err)
    then show ?thesis using Cons by (cases err) auto
  next
    case (Inr tp1)
    with Cons.IH [of tp1 "Suc n" e] Cons.prems evaluate_drift_frame [OF Inr] show ?thesis by auto
  qed
qed simp

lemma observe_frame:
  assumes "record_deployment_observation pol tp req key source now = (tp', result)"
  shows "tp_releases tp' = tp_releases tp \<and> tp_release_ids tp' = tp_release_ids tp \<and>
    tp_instances tp' = tp_instances tp \<and> tp_instance_ids tp' = tp_instance_ids tp"
proof -
  let ?tp1 = "tp\<lparr>tp_observations := tp_observations tp @ [submitted tp req key source now], tp_sequence := tp_sequence tp + 1\<rparr>"
  from assms consider "tp' = tp" | "tp' = ?tp1" | "evaluate_release_drift pol ?tp1 (os_engine_instance_id req) now = Inr tp'"
    by (auto simp: record_deployment_observation_def Let_def split: if_splits option.splits sum.splits release_error.splits)
  then show ?thesis by cases (auto dest: evaluate_drift_frame)
qed

lemma applied_cases:
  assumes "cs_kinds (dc_kind (ch_desired_change c)) = Some kind"
    and "apply_release tp c kind p t approver subject now = Inr (tp', tenant, verified)"
  obtains (approval) r k reason where "tp_releases tp k = Some r" and "rl_recorded_by r = [] \<or> approver \<noteq> rl_recorded_by r"
      and "update_status tp k r (ki_to_status kind) approver now reason = Inr tp'"
  | (desired) i k where "set_desired_release tp i k (planned_revision p) (ch_id c) now = Inr (Some tp')"
proof (cases "ki_target kind")
  case TargetRelease
  then have "target_type_of (ch_desired_change c) = TargetRelease" using assms(1) by (simp add: target_type_of_def kind_target_def)
  with TargetRelease assms(2) show thesis
    by (auto simp: apply_release_def apply_release_approval_def release_maker_checker_def Let_def
        split: option.splits sum.splits if_splits intro: approval)
next
  case TargetInstance
  with assms(2) show thesis
    by (auto simp: apply_release_def apply_desired_release_def Let_def split: option.splits sum.splits if_splits intro: desired)
qed (use assms(2) in \<open>simp_all add: apply_release_def\<close>)

lemma other_inv:
  assumes "topo_inv tp" and "other_change tp tp'"
  shows "topo_inv tp'"
proof -
  from assms(2) have same: "tp_releases tp' = tp_releases tp" by (simp add: other_change_def)
  have "desired_ok tp' row'" if row': "tp_instances tp' i = Some row'" for i row'
  proof -
    from assms(2) row' consider "in_desired_release row' = []" | row where "tp_instances tp i = Some row"
      "in_desired_release row' = in_desired_release row" "in_engine_id row' = in_engine_id row"
      unfolding other_change_def by blast
    then show ?thesis
    proof cases
      case 2
      then show ?thesis using topo_invD(3) [OF assms(1)] by (auto simp: desired_ok_def same)
    qed (simp add: desired_ok_def)
  qed
  then show ?thesis using assms topo_invD [OF assms(1)] unfolding topo_inv_def other_change_def by auto
qed

lemma change_status_not_approved:
  "transition_allowed default_release_policy s t \<Longrightarrow>
    t = ''DEPRECATED'' \<and> s = ''APPROVED'' \<or> t = ''REVOKED'' \<and> s \<in> {''CANDIDATE'', ''APPROVED'', ''DEPRECATED''}"
  by (simp add: transition_allowed_def default_release_policy_def) blast

lemma step_inv:
  assumes "topo_step cd default_release_policy tp tp'" and inv: "topo_inv tp"
  shows "topo_inv tp'"
  using assms(1)
proof cases
  case (recorded req who now uuid a k replay)
  then show ?thesis by (rule record_inv [OF inv])
next
  case (changed k req who now a)
  from changed inv show ?thesis
  proof (rule change_status_Inr)
    fix r tp1
    assume c: "tp_releases tp k = Some r" "topo_inv tp1" "same_releases tp tp1"
      "update_status tp1 k r (sg_target_status req) who now (sg_reason req) = Inr tp'"
      "transition_allowed default_release_policy (rl_status r) (sg_target_status req)"
    from c(1,3) have "tp_releases tp1 k = Some r" by (simp add: same_releases_def)
    moreover have "sg_target_status req \<noteq> ''APPROVED''" using change_status_not_approved [OF c(5)] by auto
    ultimately show ?thesis using update_status_inv [OF c(2) _ c(4)] by blast
  qed
next
  case (applied c kind p t approver subject now tenant verified)
  then show ?thesis
  proof (cases rule: applied_cases)
    case (approval r k reason)
    then show ?thesis by (intro update_status_inv [OF inv]) auto
  next
    case (desired i k)
    then show ?thesis by (rule set_desired_inv [OF inv])
  qed
next
  case (observed req key source now result)
  from observe_frame [OF this] show ?thesis using topo_inv_same [OF inv] by blast
next
  case (evaluated i now)
  from evaluate_drift_frame [OF this] show ?thesis by (rule topo_inv_same [OF inv])
next
  case (swept now n e)
  from sweep_frame [OF this [unfolded sweep_release_drift_def]] show ?thesis using topo_inv_same [OF inv] by blast
next
  case other
  then show ?thesis by (rule other_inv [OF inv])
qed

lemma reachable_topo_inv: "topo_reachable cd default_release_policy tp \<Longrightarrow> topo_inv tp"
proof (induction rule: topo_reachable.induct)
  case (initial tp)
  then show ?case by (simp add: topo_inv_def)
next
  case (stepped tp tp')
  then show ?case using step_inv by blast
qed

section \<open>Desired releases\<close>

text \<open>
  C9 (a revoked release is never desired). In every reachable state an instance that is registered
  under a canonical identifier reads its desired release without error: either it desires nothing,
  or the release is recorded, of the instance's own engine, and APPROVED or DEPRECATED.
\<close>

theorem desired_never_revoked:
  assumes "topo_reachable cd default_release_policy tp" and "valid_engine_instance_id i" and "tp_instances tp i = Some row"
  shows "in_desired_release row = [] \<and> get_desired_release default_release_policy tp i = Inr None \<or>
    (\<exists>r. get_desired_release default_release_policy tp i = Inr (Some (in_desired_release row, r)) \<and>
      rl_engine_id r = in_engine_id row \<and> rl_status r \<in> {''APPROVED'', ''DEPRECATED''})"
  using topo_invD(3) [OF reachable_topo_inv [OF assms(1)] assms(3)] assms(2,3)
  by (auto simp: desired_ok_def get_desired_release_def default_release_policy_def)

lemma valid_release_nonempty: "valid_release_id k \<Longrightarrow> k \<noteq> []"
  by (auto simp: valid_release_id_def length_between_def)

lemma disposed_moves: "disposed pol tp k ds now i row' \<Longrightarrow> k \<noteq> [] \<Longrightarrow> in_desired_release row' \<noteq> k"
  by (auto simp: disposed_def disposed_to_def split: if_splits)

lemma dispose_none_desires:
  assumes "dispose_of_desiring_instances pol tp k ds now = Inr tp'" and "topo_inv tp" and "k \<noteq> []"
  shows "\<not> desires tp' i k"
proof (cases "tp_instances tp i")
  case None
  then show ?thesis using dispose_Inr(5) [OF assms(1,2)] by (simp add: desires_def)
next
  case (Some row)
  from dispose_Inr(3,4) [OF assms(1,2) Some] obtain row' where "tp_instances tp' i = Some row'" "in_desired_release row' \<noteq> k"
    using disposed_moves [OF _ assms(3)] by blast
  then show ?thesis by (simp add: desires_def)
qed

text \<open>
  C10 (what a revocation does). When a revocation succeeds in a reachable state, the release is
  REVOKED and no instance desires it; an instance that did not desire it is unchanged; an instance
  that did was named by one of the request's dispositions and now desires nothing, or the
  replacement named there, which is another release and passed every eligibility check for the
  instance's engine and environment. Every other release is unchanged.
\<close>

theorem revocation_disposes_all:
  assumes "topo_reachable cd default_release_policy tp" and "sg_target_status req = ''REVOKED''"
    and "change_release_status default_release_policy tp k req who now a = Inr tp'"
  shows "map_option rl_status (tp_releases tp' k) = Some ''REVOKED'' \<and> \<not> desires tp' i k \<and>
    (l \<noteq> k \<longrightarrow> tp_releases tp' l = tp_releases tp l) \<and>
    (case tp_instances tp i of
       None \<Rightarrow> tp_instances tp' i = None
     | Some row \<Rightarrow> if in_desired_release row \<noteq> k then tp_instances tp' i = Some row
         else \<exists>row'. tp_instances tp' i = Some row' \<and>
           disposed default_release_policy tp k (sg_dispositions req) now i row')"
  using assms(3) reachable_topo_inv [OF assms(1)]
proof (rule change_status_Inr)
  fix r tp1
  assume c: "valid_release_id k" "same_releases tp tp1" "update_status tp1 k r (sg_target_status req) who now (sg_reason req) = Inr tp'"
    and dispose: "sg_target_status req = ''REVOKED'' \<Longrightarrow> dispose_of_desiring_instances default_release_policy tp k (sg_dispositions req) now = Inr tp1"
  note up = update_status_Inr [OF c(3), unfolded assms(2)]
  note d = dispose_Inr [OF dispose [OF assms(2)] reachable_topo_inv [OF assms(1)]]
  have inst: "case tp_instances tp i of None \<Rightarrow> tp_instances tp' i = None
     | Some row \<Rightarrow> if in_desired_release row \<noteq> k then tp_instances tp' i = Some row
         else \<exists>row'. tp_instances tp' i = Some row' \<and> disposed default_release_policy tp k (sg_dispositions req) now i row'"
    using d(3,4,5) [of i] by (simp add: up(3) split: option.splits)
  moreover have "\<not> desires tp' i k"
    using dispose_none_desires [OF dispose [OF assms(2)] reachable_topo_inv [OF assms(1)] valid_release_nonempty [OF c(1)], of i]
    by (simp add: desires_def up(3))
  ultimately show ?thesis using c(2) by (simp add: up(2) same_releases_def)
qed

section \<open>The database's guards\<close>

text \<open>The errors of the triggers of migrations 000082 and 000086.\<close>

definition guard_error :: "release_error \<Rightarrow> bool" where
  "guard_error e = (case e of ErrDesiredReleaseGuard \<Rightarrow> True | ErrRevocationGuard \<Rightarrow> True | ErrReleaseImmutable _ _ \<Rightarrow> True | _ \<Rightarrow> False)"

lemma eligible_replacement:
  assumes "desired_release_eligibility default_release_policy tp k e env now = []"
  obtains r where "tp_releases tp k = Some r" and "rl_status r = ''APPROVED''" and "rl_engine_id r = e"
  using assms
  by (cases "tp_releases tp k") (auto simp: desired_release_eligibility_def default_release_policy_def Let_def split: if_splits)

lemma set_desired_guard:
  assumes "set_desired_release tp i k v cs now = Inl e" and "tp_instances tp i = Some row"
    and "k \<noteq> [] \<Longrightarrow> desired_release_eligibility default_release_policy tp k (in_engine_id row) env now' = []"
  shows "\<not> guard_error e"
proof (cases "k = []")
  case True
  with assms(1,2) show ?thesis by (auto simp: set_desired_release_def Let_def split: if_splits)
next
  case False
  from assms(3) [OF this] obtain r where "tp_releases tp k = Some r" "rl_status r = ''APPROVED''" "rl_engine_id r = in_engine_id row"
    by (rule eligible_replacement)
  with assms(1,2) False show ?thesis by (auto simp: set_desired_release_def Let_def split: if_splits)
qed

lemma fold_result_error: "fold_result f xs s = Inl e \<Longrightarrow> \<exists>x \<in> set xs. \<exists>t. f x t = Inl e"
  by (induction xs arbitrary: s) (auto split: sum.splits)

lemma dispose_guard:
  assumes "dispose_of_desiring_instances default_release_policy tp k ds now = Inl e"
  shows "\<not> guard_error e"
proof -
  have "\<not> guard_error e" if "dispositions_error order seen ds = Some e" for order seen
    using that by (induction order seen ds rule: dispositions_error.induct) (auto simp: guard_error_def split: if_splits)
  moreover have "\<not> guard_error e" if fold: "fold_result (dispose_one default_release_policy k ds now) is tp = Inl e" for "is"
  proof -
    from fold_result_error [OF fold] obtain i t
      where one: "dispose_one default_release_policy k ds now i t = Inl e" by blast
    from one consider "e = ErrChangedWhileLocked i"
      | row d where "tp_instances t i = Some row" "replacement_error default_release_policy t k d row now = Some e"
      | row d where "tp_instances t i = Some row" "replacement_error default_release_policy t k d row now = None"
          "set_desired_release t i (disposed_to d) (in_desired_version row) [] now = Inl e"
      by (auto simp: dispose_one_def disposed_to_def split: option.splits sum.splits)
    then show ?thesis
    proof cases
      case (3 row d)
      have "desired_release_eligibility default_release_policy t (disposed_to d) (in_engine_id row) (in_environment row) now = []"
        if "disposed_to d \<noteq> []"
        using replacement_error_None(2) [OF 3(2)] that by (simp add: disposed_to_def split: if_splits)
      with set_desired_guard [OF 3(3,1)] show ?thesis by blast
    qed (auto simp: guard_error_def replacement_error_def Let_def split: if_splits)
  qed
  ultimately show ?thesis using assms
    by (auto simp: dispose_of_desiring_instances_def Let_def guard_error_def split: option.splits if_splits)
qed

text \<open>
  Property (the database's guards never fire). In a reachable state a deprecation or a revocation is never
  refused by a trigger: the command's own checks leave no release revoked while desired, no
  replacement that is not APPROVED or is another engine's, and no move outside the lifecycle.
\<close>

theorem guards_never_fire:
  assumes "topo_reachable cd default_release_policy tp"
    and "change_release_status default_release_policy tp k req who now a = Inl e"
  shows "\<not> guard_error e"
proof (rule ccontr)
  note inv = reachable_topo_inv [OF assms(1)]
  assume guard: "\<not> \<not> guard_error e"
  let ?t = "sg_target_status req"
  from guard assms(2) obtain r where r: "tp_releases tp k = Some r" "valid_release_id k"
    and allowed: "transition_allowed default_release_policy (rl_status r) ?t"
    and rest: "(?t = ''REVOKED'' \<and> dispose_of_desiring_instances default_release_policy tp k (sg_dispositions req) now = Inl e) \<or>
      (\<exists>tp1. (if ?t = ''REVOKED'' then dispose_of_desiring_instances default_release_policy tp k (sg_dispositions req) now = Inr tp1 else tp1 = tp) \<and>
        update_status tp1 k r ?t who now (sg_reason req) = Inl e)"
    by (auto simp: change_release_status_def guard_error_def split: if_splits option.splits sum.splits)
  have moves: "status_moves (rl_status r) ?t" using change_status_not_approved [OF allowed] by (auto simp: status_moves_def)
  from rest dispose_guard guard obtain tp1 where up: "update_status tp1 k r ?t who now (sg_reason req) = Inl e"
    and tp1: "if ?t = ''REVOKED'' then dispose_of_desiring_instances default_release_policy tp k (sg_dispositions req) now = Inr tp1 else tp1 = tp"
    by blast
  from up moves have revoked: "?t = ''REVOKED''" "list_ex (\<lambda>i. desires tp1 i k) (tp_instance_ids tp1)"
    by (auto simp: update_status_def split: if_splits)
  with tp1 have dispose: "dispose_of_desiring_instances default_release_policy tp k (sg_dispositions req) now = Inr tp1" by simp
  from dispose_none_desires [OF dispose inv valid_release_nonempty [OF r(2)]] revoked(2)
  show False by (simp add: list_ex_iff)
qed

section \<open>Releases are immutable and approved by somebody else\<close>

lemma status_moves_refl [simp]: "status_moves s s"
  by (simp add: status_moves_def)

lemma releases_kept_same: "tp_releases tp' = tp_releases tp \<Longrightarrow> releases_kept tp tp'"
  by (simp add: releases_kept_def)

lemma releases_kept_update:
  assumes "update_status tp k r to who now reason = Inr tp'" and "tp_releases tp k = Some r"
  shows "releases_kept tp tp'"
  using update_status_Inr(1,2) [OF assms(1)] assms(2)
  by (auto simp: releases_kept_def identity_of_def)

lemma step_releases_kept:
  assumes "topo_step cd default_release_policy tp tp'" and inv: "topo_inv tp"
  shows "releases_kept tp tp'"
  using assms(1)
proof cases
  case (recorded req who now uuid a k replay)
  from record_Inr [OF this inv] show ?thesis by (auto simp: releases_kept_def)
next
  case (changed k req who now a)
  from changed inv show ?thesis
  proof (rule change_status_Inr)
    fix r tp1
    assume c: "tp_releases tp k = Some r" "same_releases tp tp1"
      "update_status tp1 k r (sg_target_status req) who now (sg_reason req) = Inr tp'"
    then show ?thesis using releases_kept_update [OF c(3)] by (simp add: same_releases_def releases_kept_def)
  qed
next
  case (applied c kind p t approver subject now tenant verified)
  then show ?thesis
  proof (cases rule: applied_cases)
    case (desired i k)
    then show ?thesis by (intro releases_kept_same) (erule set_desired_Inr [OF _ inv])
  qed (erule releases_kept_update)
next
  case (observed req key source now result)
  from observe_frame [OF this] show ?thesis by (simp add: releases_kept_same)
next
  case (evaluated i now)
  from evaluate_drift_frame [OF this] show ?thesis by (simp add: releases_kept_same)
next
  case (swept now n e)
  from sweep_frame [OF this [unfolded sweep_release_drift_def]] show ?thesis by (simp add: releases_kept_same)
qed (simp add: other_change_def releases_kept_same)

text \<open>
  C11 (a release is immutable). Whatever command runs in a reachable state, every recorded release is
  still recorded under its key with the same engine, version, artifacts, support, digests and
  recorder, and its status is unchanged or moved one step along CANDIDATE, APPROVED, DEPRECATED or to
  REVOKED, which is final. A release that is APPROVED had its status set by somebody other than its
  recorder, when it has one. No two releases share an artifact digest, nor an engine and version.
\<close>

theorem releases_immutable:
  assumes "topo_reachable cd default_release_policy tp" and "topo_step cd default_release_policy tp tp'"
    and "tp_releases tp k = Some r"
  shows "(\<exists>r'. tp_releases tp' k = Some r' \<and> identity_of r' = identity_of r \<and> status_moves (rl_status r) (rl_status r')) \<and>
    (rl_status r = ''APPROVED'' \<longrightarrow> rl_recorded_by r = [] \<or> rl_status_changed_by r \<noteq> rl_recorded_by r) \<and>
    (tp_releases tp l = Some s \<longrightarrow> l \<noteq> k \<longrightarrow> separate r s)"
proof -
  note inv = reachable_topo_inv [OF assms(1)]
  from topo_invD(4) [OF inv assms(3)] have "rl_status r = ''APPROVED'' \<longrightarrow> rl_recorded_by r = [] \<or> rl_status_changed_by r \<noteq> rl_recorded_by r"
    by (simp add: release_ok_def)
  with step_releases_kept [OF assms(2) inv] topo_invD(5) [OF inv assms(3)] assms(3) show ?thesis
    unfolding releases_kept_def by blast
qed

section \<open>Recognising what an instance runs\<close>

lemma owner_of_recorded:
  assumes inv: "topo_inv tp" and r: "tp_releases tp k = Some r" and d: "d \<in> set (map af_digest (rl_artifacts r))"
  shows "owner_of tp d = Some \<lparr>ow_release_id = k, ow_engine_id = rl_engine_id r\<rparr>"
proof -
  let ?P = "\<lambda>k. case tp_releases tp k of None \<Rightarrow> False | Some r \<Rightarrow> d \<in> set (map af_digest (rl_artifacts r))"
  have "k \<in> set (tp_release_ids tp)" "?P k" using topo_invD(1) [OF inv] r d by auto
  then obtain l where l: "find ?P (tp_release_ids tp) = Some l" by (cases "find ?P (tp_release_ids tp)") (auto simp: find_None_iff)
  from find_SomeD [OF l] obtain s where s: "tp_releases tp l = Some s" "d \<in> set (map af_digest (rl_artifacts s))"
    by (cases "tp_releases tp l") auto
  have "l = k"
  proof (rule ccontr)
    assume "l \<noteq> k"
    from topo_invD(5) [OF inv s(1) r this] s(2) d show False unfolding separate_def by blast
  qed
  with l r show ?thesis by (simp add: owner_of_def)
qed

lemma derive_single:
  assumes "do_artifacts ob \<noteq> []" and "list_all (\<lambda>a. owners (oa_digest a) = Some \<lparr>ow_release_id = k, ow_engine_id = e\<rparr>) (do_artifacts ob)"
  shows "derive inst e (Some ob) owners now = Inr \<lparr>or_engine_instance_id = inst, or_state = ObservedRelease, or_release_id = k,
    or_release_ids = [], or_observation_id = do_observation_id ob, or_evaluated_at = now\<rparr>"
proof (cases rule: derive_loop_cases [of e owners "do_artifacts ob"])
  case (own rs)
  have "runs_release e owners ob k" using assms by (simp add: runs_release_def)
  then have "rs = [k]" using own_facts(1) [OF own(2-5)] by simp
  then show ?thesis by (simp add: derive_value(3) [OF own(1)])
qed (use assms in \<open>auto simp: list_all_iff has_foreign_def\<close>)

lemma observed_recorded:
  assumes "topo_inv tp" and "tp_releases tp k = Some r" and "newest_row obs = Some ob" and "dep_current ob now"
    and "do_artifacts ob \<noteq> []" and "list_all (\<lambda>a. oa_digest a \<in> set (map af_digest (rl_artifacts r))) (do_artifacts ob)"
  shows "observed_release_of i (rl_engine_id r) obs (owner_of tp) now = Inr (\<lparr>or_engine_instance_id = i, or_state = ObservedRelease,
    or_release_id = k, or_release_ids = [], or_observation_id = do_observation_id ob, or_evaluated_at = now\<rparr>, Some ob)"
proof -
  have "list_all (\<lambda>a. owner_of tp (oa_digest a) = Some \<lparr>ow_release_id = k, ow_engine_id = rl_engine_id r\<rparr>) (do_artifacts ob)"
    using assms(6) owner_of_recorded [OF assms(1,2)] by (auto simp: list_all_iff)
  from derive_single [OF assms(5) this] assms(3,4) show ?thesis
    by (simp add: observed_release_of_def current_observation_def Let_def)
qed

text \<open>
  C12 (a recorded release is recognised). In a reachable state, when an instance's newest observation
  is current and lists artifacts that all belong to one recorded release of the instance's engine,
  its observed release is that release.
\<close>

theorem release_recognised:
  assumes "topo_reachable cd default_release_policy tp" and "tp_releases tp k = Some r"
    and "newest_row (observations_of tp i) = Some ob" and "dep_current ob now" and "do_artifacts ob \<noteq> []"
    and "list_all (\<lambda>a. oa_digest a \<in> set (map af_digest (rl_artifacts r))) (do_artifacts ob)"
  shows "\<exists>out. observed_release_of i (rl_engine_id r) (observations_of tp i) (owner_of tp) now = Inr (out, Some ob) \<and>
    or_state out = ObservedRelease \<and> or_release_id out = k"
  using observed_recorded [OF reachable_topo_inv [OF assms(1)] assms(2-6)] by simp

text \<open>
  Property (a revoked release that runs is drift at once). In a reachable state, evaluating an instance
  whose newest observation is current and lists only artifacts of a REVOKED release of its engine
  records open drift for the reason REVOKED_RELEASE_RUNNING, whose effect on readiness is BLOCKED,
  provided the clock has not run back behind the stored row.
\<close>

theorem revoked_release_drifts:
  assumes "topo_reachable cd default_release_policy tp" and "valid_engine_instance_id i" and "tp_instances tp i = Some row"
    and "tp_releases tp k = Some r" and "rl_status r = ''REVOKED''" and "rl_engine_id r = in_engine_id row"
    and "newest_row (observations_of tp i) = Some ob" and "dep_current ob now" and "do_artifacts ob \<noteq> []"
    and "list_all (\<lambda>a. oa_digest a \<in> set (map af_digest (rl_artifacts r))) (do_artifacts ob)"
    and "0 \<le> now" and "\<And>d. tp_drift tp i = Some d \<Longrightarrow> dw_condition_since d \<le> now"
  shows "\<exists>tp' d. evaluate_release_drift default_release_policy tp i now = Inr tp' \<and> tp_drift tp' i = Some d \<and>
    dw_reason d = DriftRevokedReleaseRunning \<and> dw_opened_at d \<noteq> None \<and>
    dl_readiness_effect (drift_policy (dw_reason d)) = effect_blocked"
proof -
  let ?out = "\<lparr>or_engine_instance_id = i, or_state = ObservedRelease, or_release_id = k, or_release_ids = [],
    or_observation_id = do_observation_id ob, or_evaluated_at = now\<rparr>"
  let ?in = "drift_input_of row ?out (Some ob) [k]"
  have obs: "observed_release_of i (in_engine_id row) (observations_of tp i) (owner_of tp) now = Inr (?out, Some ob)"
    using observed_recorded [OF reachable_topo_inv [OF assms(1)] assms(4,7-10)] assms(6) by simp
  have "revoked_among (is_revoked tp) ?out = [k]"
    using assms(4,5) by (simp add: revoked_among_def observed_keys_def is_revoked_def)
  moreover have cond: "release_drift_condition ?in = Some \<lparr>dn_reason = DriftRevokedReleaseRunning, dn_not_before = 0\<rparr>"
    by (simp add: release_drift_condition_def drift_precedence_def drift_holds_def drift_input_of_def)
  have pol: "rp_drift default_release_policy = Some \<circ> drift_policy" by (simp add: default_release_policy_def)
  obtain d publish where ev: "evaluate_drift (rp_drift default_release_policy) ?in now (tp_drift tp i) = Inr (Some d, publish)"
      "dw_reason d = DriftRevokedReleaseRunning" "dw_opened_at d \<noteq> None"
    using assms(11,12) unfolding evaluate_drift_def cond pol
    by (cases "tp_drift tp i") (auto simp: Let_def opened_instant_def drift_open_def)
  ultimately show ?thesis using assms(2,3) obs ev
    by (auto simp: evaluate_release_drift_def evaluate_release_drift_tx_def effect_blocked_def)
qed

section \<open>Examples\<close>

text \<open>
  A history: an instance is registered, two releases are recorded and approved, the first becomes
  desired and is observed, and is then revoked with the second as its replacement.
\<close>

definition ex_actor :: actor where
  "ex_actor = \<lparr>ac_actor_id = ''ann'', ac_actor_type = ''human'', ac_correlation_id = ex_uuid\<rparr>"

definition ex_record :: "string \<Rightarrow> string \<Rightarrow> record_request" where
  "ex_record version digest = \<lparr>rr_engine_id = ''erp'', rr_release_version = version,
     rr_artifacts = [\<lparr>af_artifact_type = ''OCI_IMAGE'', af_repository = ''r'', af_digest = digest, af_platform = [], af_display_tag = []\<rparr>],
     rr_provider_support = [], rr_declaration_digest = [], rr_source_revision = [], rr_provenance = None, rr_reason = ''first''\<rparr>"

definition ex_content_digest :: "content \<Rightarrow> string" where
  "ex_content_digest c = fst (snd c)"

definition ex_empty :: topology where
  "ex_empty = \<lparr>tp_engines = [''erp''], tp_providers = (\<lambda>_. None), tp_capabilities = (\<lambda>_. None), tp_certifications = [],
     tp_releases = (\<lambda>_. None), tp_release_ids = [], tp_instances = (\<lambda>_. None), tp_instance_ids = [], tp_observations = [],
     tp_sequence = 0, tp_drift = (\<lambda>_. None), tp_events = []\<rparr>"

definition ex_registered :: topology where
  "ex_registered = ex_empty\<lparr>tp_instances := [''ei_abc'' \<mapsto> \<lparr>in_engine_id = ''erp'', in_environment = ''staging'', in_region = ''af'',
       in_status = ''ACTIVE'', in_desired_release = [], in_desired_version = 1, in_desired_changeset = [],
       in_desired_updated_at = None, in_created_at = 5\<rparr>], tp_instance_ids := [''ei_abc'']\<rparr>"

definition ex_recording :: "topology \<Rightarrow> string \<Rightarrow> string \<Rightarrow> string \<Rightarrow> release_error + (topology \<times> string \<times> bool)" where
  "ex_recording tp version digest uuid =
     record_engine_release ex_content_digest tp (ex_record version digest) ''ann'' 10 uuid ex_actor"

definition ex_applying ::
  "changeset \<Rightarrow> plan \<Rightarrow> topology \<Rightarrow> change_kind \<Rightarrow> string \<Rightarrow> cs_error + (topology \<times> string \<times> bool)" where
  "ex_applying c p tp kind uuid =
     apply_release tp (c\<lparr>ch_desired_change := ex_change\<lparr>dc_kind := kind, dc_engine_instance_id := ''ei_abc'', dc_release_id := release_id uuid\<rparr>\<rparr>)
       (the (cs_kinds kind)) p ((ex_target 1)\<lparr>ta_status := ''ACTIVE''\<rparr>) ''bob'' ''sub-bob'' 20"

definition ex_observing :: "topology \<Rightarrow> topology \<times> (release_error + dep_observation)" where
  "ex_observing tp = record_deployment_observation default_release_policy tp
     \<lparr>os_engine_instance_id = ''ei_abc'', os_artifacts = [\<lparr>oa_digest = ''d1'', oa_platform = []\<rparr>], os_environment = ''staging'',
      os_region = ''af'', os_observed_at = 30, os_expires_at = 30 + 60 * second_ns\<rparr> ''ob_1'' ''agent'' 40"

definition ex_revoking :: "topology \<Rightarrow> disposition list \<Rightarrow> release_error + topology" where
  "ex_revoking tp ds = change_release_status default_release_policy tp (release_id ''one'')
     \<lparr>sg_target_status = ''REVOKED'', sg_reason = ''bad'', sg_dispositions = ds\<rparr> ''carol'' 50 ex_actor"

definition ex_dispositions :: "disposition list" where
  "ex_dispositions = [\<lparr>dp_instance = ''ei_abc'', dp_action = DispositionReplace, dp_replacement = release_id ''two''\<rparr>]"

text \<open>What is evaluated of the history.\<close>

definition ex_runs_first :: "topology \<Rightarrow> bool" where
  "ex_runs_first tp =
    (case (tp_instances tp ''ei_abc'', tp_releases tp (release_id ''one''), newest_row (observations_of tp ''ei_abc'')) of
       (Some row, Some r, Some ob) \<Rightarrow> rl_engine_id r = in_engine_id row \<and> dep_current ob 60 \<and> do_artifacts ob \<noteq> [] \<and>
         list_all (\<lambda>a. oa_digest a \<in> set (map af_digest (rl_artifacts r))) (do_artifacts ob) \<and>
         (case tp_drift tp ''ei_abc'' of None \<Rightarrow> True | Some d \<Rightarrow> dw_condition_since d \<le> 60)
     | _ \<Rightarrow> False)"

definition ex_history_ok :: bool where
  "ex_history_ok =
    (case (Some ex_draft, Some (ex_generated 1 40)) of (Some c, Some p) \<Rightarrow>
    (case ex_recording ex_registered ''1.0.0'' ''d1'' ''one'' of Inl _ \<Rightarrow> False | Inr (t1, _, _) \<Rightarrow>
    (case ex_recording t1 ''1.1.0'' ''d2'' ''two'' of Inl _ \<Rightarrow> False | Inr (t2, _, _) \<Rightarrow>
    (case ex_applying c p t2 KindReleaseApproval ''one'' of Inl _ \<Rightarrow> False | Inr (t3, _, _) \<Rightarrow>
    (case ex_applying c p t3 KindReleaseApproval ''two'' of Inl _ \<Rightarrow> False | Inr (t4, _, _) \<Rightarrow>
    (case ex_applying c p t4 KindDesiredRelease ''one'' of Inl _ \<Rightarrow> False | Inr (t5, _, _) \<Rightarrow>
    (case ex_observing t5 of (t6, _) \<Rightarrow>
    (case ex_revoking t6 ex_dispositions of Inl _ \<Rightarrow> False | Inr t7 \<Rightarrow>
      isl (ex_revoking t6 []) \<and> ex_runs_first t6 \<and> ex_runs_first t7 \<and>
      map_option rl_status (tp_releases t6 (release_id ''one'')) = Some ''APPROVED'' \<and>
      map_option in_desired_release (tp_instances t6 ''ei_abc'') = Some (release_id ''one'')))))))) | _ \<Rightarrow> False)"

lemma ex_history_evaluated: ex_history_ok
  by code_simp

lemma ex_applying_reachable:
  assumes "topo_reachable cd pol tp" and "ex_applying c p tp kind u = Inr (tp', x)" and "cs_kinds kind \<noteq> None"
  shows "topo_reachable cd pol tp'"
proof -
  obtain tenant verified where x: "x = (tenant, verified)" by (cases x)
  let ?c = "c\<lparr>ch_desired_change := ex_change\<lparr>dc_kind := kind, dc_engine_instance_id := ''ei_abc'', dc_release_id := release_id u\<rparr>\<rparr>"
  have "cs_kinds (dc_kind (ch_desired_change ?c)) = Some (the (cs_kinds kind))" using assms(3) by simp
  from topo_step.applied [OF this assms(2) [unfolded ex_applying_def x]] show ?thesis
    by (rule topo_reachable.stepped [OF assms(1)])
qed

lemma ex_topology_history:
  obtains t6 t7 where "topo_reachable ex_content_digest default_release_policy t6" and "topo_reachable ex_content_digest default_release_policy t7"
    and "ex_revoking t6 ex_dispositions = Inr t7" and "isl (ex_revoking t6 [])" and "ex_runs_first t6" and "ex_runs_first t7"
    and "map_option rl_status (tp_releases t6 (release_id ''one'')) = Some ''APPROVED''"
    and "map_option in_desired_release (tp_instances t6 ''ei_abc'') = Some (release_id ''one'')"
proof -
  let ?R = "topo_reachable ex_content_digest default_release_policy"
  from ex_history_evaluated obtain t1 t2 t3 t4 t5 t6 t7 x1 x2 x3 x4 x5 x6 where
    run: "ex_recording ex_registered ''1.0.0'' ''d1'' ''one'' = Inr (t1, x1)" "ex_recording t1 ''1.1.0'' ''d2'' ''two'' = Inr (t2, x2)"
      "ex_applying ex_draft (ex_generated 1 40) t2 KindReleaseApproval ''one'' = Inr (t3, x3)"
      "ex_applying ex_draft (ex_generated 1 40) t3 KindReleaseApproval ''two'' = Inr (t4, x4)"
      "ex_applying ex_draft (ex_generated 1 40) t4 KindDesiredRelease ''one'' = Inr (t5, x5)"
      "ex_observing t5 = (t6, x6)" "ex_revoking t6 ex_dispositions = Inr t7"
    and facts: "isl (ex_revoking t6 [])" "ex_runs_first t6" "ex_runs_first t7"
      "map_option rl_status (tp_releases t6 (release_id ''one'')) = Some ''APPROVED''"
      "map_option in_desired_release (tp_instances t6 ''ei_abc'') = Some (release_id ''one'')"
    unfolding ex_history_ok_def by (auto split: sum.splits prod.splits)
  have "?R ex_empty" by (rule topo_reachable.initial) (simp_all add: ex_empty_def)
  moreover have "other_change ex_empty ex_registered" by (simp add: other_change_def ex_registered_def ex_empty_def)
  ultimately have r0: "?R ex_registered" by (blast intro: topo_reachable.stepped topo_step.other)
  have recording: "?R tp \<Longrightarrow> ex_recording tp v d u = Inr (tp', x) \<Longrightarrow> ?R tp'" for tp v d u tp' x
    by (cases x) (auto simp: ex_recording_def intro: topo_reachable.stepped topo_step.recorded)
  from recording [OF r0 run(1)] have "?R t2" by (rule recording) (rule run(2))
  then have "?R t3" by (rule ex_applying_reachable [OF _ run(3)]) simp
  then have "?R t4" by (rule ex_applying_reachable [OF _ run(4)]) simp
  then have "?R t5" by (rule ex_applying_reachable [OF _ run(5)]) simp
  then have r6: "?R t6" using run(6) by (auto simp: ex_observing_def intro: topo_reachable.stepped topo_step.observed)
  then have r7: "?R t7" using run(7) by (auto simp: ex_revoking_def intro: topo_reachable.stepped topo_step.changed)
  from that [OF r6 r7 run(7) facts] show thesis .
qed

lemma ex_runs_firstE:
  assumes "ex_runs_first tp"
  obtains row r ob where "tp_instances tp ''ei_abc'' = Some row" and "tp_releases tp (release_id ''one'') = Some r"
    and "newest_row (observations_of tp ''ei_abc'') = Some ob" and "rl_engine_id r = in_engine_id row" and "dep_current ob 60"
    and "do_artifacts ob \<noteq> []" and "list_all (\<lambda>a. oa_digest a \<in> set (map af_digest (rl_artifacts r))) (do_artifacts ob)"
    and "\<And>d. tp_drift tp ''ei_abc'' = Some d \<Longrightarrow> dw_condition_since d \<le> 60"
  using assms unfolding ex_runs_first_def by (auto split: option.splits)

lemma ex_instance_id: "valid_engine_instance_id ''ei_abc''"
  by code_simp

theorem desired_never_revoked_witness:
  "\<exists>tp r. get_desired_release default_release_policy tp ''ei_abc'' = Inr (Some (release_id ''one'', r)) \<and>
    rl_status r \<in> {''APPROVED'', ''DEPRECATED''}"
proof (rule ex_topology_history)
  fix t6
  assume t6: "topo_reachable ex_content_digest default_release_policy t6"
    "map_option in_desired_release (tp_instances t6 ''ei_abc'') = Some (release_id ''one'')"
  then obtain row where row: "tp_instances t6 ''ei_abc'' = Some row" "in_desired_release row = release_id ''one''" by auto
  have "release_id ''one'' \<noteq> []" by code_simp
  with desired_never_revoked [OF t6(1) ex_instance_id row(1)] show ?thesis unfolding row(2) by blast
qed

theorem revocation_disposes_all_witness:
  "\<exists>tp tp'. ex_revoking tp ex_dispositions = Inr tp' \<and> \<not> desires tp' ''ei_abc'' (release_id ''one'') \<and>
    map_option rl_status (tp_releases tp' (release_id ''one'')) = Some ''REVOKED''"
proof (rule ex_topology_history)
  fix t6 t7
  assume t6: "topo_reachable ex_content_digest default_release_policy t6" "ex_revoking t6 ex_dispositions = Inr t7"
  from revocation_disposes_all [OF t6(1) _ t6(2) [unfolded ex_revoking_def], of "''ei_abc''"]
  have "map_option rl_status (tp_releases t7 (release_id ''one'')) = Some ''REVOKED'' \<and> \<not> desires t7 ''ei_abc'' (release_id ''one'')" by simp
  with t6(2) show ?thesis by blast
qed

theorem guards_never_fire_witness:
  "\<exists>tp e. ex_revoking tp [] = Inl e \<and> \<not> guard_error e"
proof (rule ex_topology_history)
  fix t6
  assume t6: "topo_reachable ex_content_digest default_release_policy t6" "isl (ex_revoking t6 [])"
  then obtain e where e: "ex_revoking t6 [] = Inl e" by (auto simp: isl_def)
  from guards_never_fire [OF t6(1) e [unfolded ex_revoking_def]] e show ?thesis by blast
qed

theorem releases_immutable_witness:
  "\<exists>tp tp' r r'. tp_releases tp (release_id ''one'') = Some r \<and> rl_status r = ''APPROVED'' \<and> ex_revoking tp ex_dispositions = Inr tp' \<and>
    tp_releases tp' (release_id ''one'') = Some r' \<and> identity_of r' = identity_of r"
proof (rule ex_topology_history)
  fix t6 t7
  assume t6: "topo_reachable ex_content_digest default_release_policy t6" "ex_revoking t6 ex_dispositions = Inr t7"
    "map_option rl_status (tp_releases t6 (release_id ''one'')) = Some ''APPROVED''"
  then obtain r where r: "tp_releases t6 (release_id ''one'') = Some r" "rl_status r = ''APPROVED''" by auto
  have "topo_step ex_content_digest default_release_policy t6 t7"
    by (rule topo_step.changed [OF t6(2) [unfolded ex_revoking_def]])
  from releases_immutable [OF t6(1) this r(1)] t6(2) r show ?thesis by blast
qed

theorem release_recognised_witness:
  "\<exists>tp out e ob. observed_release_of ''ei_abc'' e (observations_of tp ''ei_abc'') (owner_of tp) 60 = Inr (out, Some ob) \<and>
    or_state out = ObservedRelease \<and> or_release_id out = release_id ''one''"
proof (rule ex_topology_history)
  fix t6
  assume t6: "topo_reachable ex_content_digest default_release_policy t6" "ex_runs_first t6"
  from t6(2) show ?thesis by (rule ex_runs_firstE) (use release_recognised [OF t6(1)] in blast)
qed

theorem revoked_release_drifts_witness:
  "\<exists>tp tp' d. evaluate_release_drift default_release_policy tp ''ei_abc'' 60 = Inr tp' \<and> tp_drift tp' ''ei_abc'' = Some d \<and>
    dw_reason d = DriftRevokedReleaseRunning"
proof (rule ex_topology_history)
  fix t6 t7
  assume t: "topo_reachable ex_content_digest default_release_policy t6" "topo_reachable ex_content_digest default_release_policy t7"
    "ex_revoking t6 ex_dispositions = Inr t7" "ex_runs_first t7"
  have "map_option rl_status (tp_releases t7 (release_id ''one'')) = Some ''REVOKED''"
    using t(3) reachable_topo_inv [OF t(1)] unfolding ex_revoking_def
    by (rule change_status_Inr) (auto dest: update_status_Inr(2))
  then have revoked: "rl_status r = ''REVOKED''" if "tp_releases t7 (release_id ''one'') = Some r" for r using that by simp
  from t(4) show ?thesis
  proof (rule ex_runs_firstE)
    fix row r ob
    assume f: "tp_instances t7 ''ei_abc'' = Some row" "tp_releases t7 (release_id ''one'') = Some r"
      "newest_row (observations_of t7 ''ei_abc'') = Some ob" "rl_engine_id r = in_engine_id row" "dep_current ob 60"
      "do_artifacts ob \<noteq> []" "list_all (\<lambda>a. oa_digest a \<in> set (map af_digest (rl_artifacts r))) (do_artifacts ob)"
      "\<And>d. tp_drift t7 ''ei_abc'' = Some d \<Longrightarrow> dw_condition_since d \<le> 60"
    from revoked_release_drifts [OF t(2) ex_instance_id f(1,2) revoked [OF f(2)] f(4,3,5,6,7) _ f(8)] show ?thesis by auto
  qed
qed

end
