(* ===== verification/Health.thy ===== *)
theory Health
  imports Prelude
begin

text \<open>
  Provider health (\<open>internal/health/health.go\<close>, \<open>policy.go\<close>): observations that count only while
  they are current, the policy document and the rules it must satisfy to load, and the verdict
  on a candidate at its three levels.

  The decoded YAML document is a record; a YAML mapping is the list of its entries in the order
  of the document, read with \<open>map_of\<close>. Go visits the entries of \<open>eligible_statuses\<close> in any order,
  which only changes which of several errors is returned.

  The lemmas show what every policy that loads guarantees of an eligible candidate, and that the
  order of observations is one in which a tie never resolves toward health.
\<close>

section \<open>Observations\<close>

datatype health_status = StatusUnknown | StatusHealthy | StatusDegraded | StatusUnavailable | StatusInvalid string

definition health_status_valid :: "health_status \<Rightarrow> bool" where
  "health_status_valid s = (case s of StatusInvalid _ \<Rightarrow> False | _ \<Rightarrow> True)"

datatype criticality = CriticalityNone | CriticalityCritical | CriticalityStandard | CriticalityInvalid string

definition criticality_valid :: "criticality \<Rightarrow> bool" where
  "criticality_valid c = (case c of CriticalityInvalid _ \<Rightarrow> False | _ \<Rightarrow> True)"

definition or_default :: "criticality \<Rightarrow> criticality" where
  "or_default c = (if c = CriticalityNone then CriticalityStandard else c)"

datatype health_source = SourceActiveProbe | SourcePassiveTelemetry | SourceEngineReport | SourceOperator | SourceInvalid string

definition health_source_valid :: "health_source \<Rightarrow> bool" where
  "health_source_valid s = (case s of SourceInvalid _ \<Rightarrow> False | _ \<Rightarrow> True)"

datatype health_level = LevelEngineInstance | LevelProvider | LevelProviderCapability | LevelInvalid string

record health_subject =
  su_engine_instance_id :: string
  su_provider_id :: string
  su_capability_key :: string

definition subject_level :: "health_subject \<Rightarrow> health_level option" where
  "subject_level s =
    (if su_engine_instance_id s \<noteq> [] \<and> su_provider_id s = [] \<and> su_capability_key s = [] then Some LevelEngineInstance
     else if su_engine_instance_id s = [] \<and> su_provider_id s \<noteq> [] \<and> su_capability_key s = [] then Some LevelProvider
     else if su_engine_instance_id s = [] \<and> su_provider_id s \<noteq> [] \<and> su_capability_key s \<noteq> [] then Some LevelProviderCapability
     else None)"

record observation =
  ob_subject :: health_subject
  ob_status :: health_status
  ob_observed_at :: instant
  ob_expires_at :: instant
  ob_source :: health_source
  ob_reasons :: "string list"

text \<open>The pattern of a reason code: at least two groups of capitals and digits joined by \<open>_\<close>.\<close>

definition upper_or_digit :: "char \<Rightarrow> bool" where
  "upper_or_digit c \<longleftrightarrow> is_upper c \<or> is_digit c"

definition reason_code :: "string \<Rightarrow> bool" where
  "reason_code r =
    (case split_at (CHR ''_'') r of
       (c # g) # gs \<Rightarrow> is_upper c \<and> list_all upper_or_digit g \<and> gs \<noteq> [] \<and>
         list_all (\<lambda>h. h \<noteq> [] \<and> list_all upper_or_digit h) gs
     | _ \<Rightarrow> False)"

datatype observation_error =
    SubjectAmbiguous | StatusUnknownValue | SourceUnknownValue | WindowEmpty | ReasonMissing | ReasonsTooMany
  | ReasonMalformed string | ReasonRepeated string

fun reasons_error :: "string list \<Rightarrow> string list \<Rightarrow> observation_error option" where
  "reasons_error seen [] = None"
| "reasons_error seen (r # rs) =
    (if 64 < length r \<or> \<not> reason_code r then Some (ReasonMalformed r)
     else if r \<in> set seen then Some (ReasonRepeated r)
     else reasons_error (seen @ [r]) rs)"

definition observation_validate :: "observation \<Rightarrow> observation_error option" where
  "observation_validate ob =
    (if subject_level (ob_subject ob) = None then Some SubjectAmbiguous
     else if \<not> health_status_valid (ob_status ob) then Some StatusUnknownValue
     else if \<not> health_source_valid (ob_source ob) then Some SourceUnknownValue
     else if ob_observed_at ob = 0 \<or> \<not> ob_observed_at ob < ob_expires_at ob then Some WindowEmpty
     else if ob_reasons ob = [] \<and> ob_status ob \<noteq> StatusHealthy then Some ReasonMissing
     else if 16 < length (ob_reasons ob) then Some ReasonsTooMany
     else reasons_error [] (ob_reasons ob))"

definition health_current :: "observation option \<Rightarrow> instant \<Rightarrow> bool" where
  "health_current ob now = (case ob of None \<Rightarrow> False | Some x \<Rightarrow> ob_observed_at x \<le> now \<and> now < ob_expires_at x)"

definition effective_health :: "observation option \<Rightarrow> instant \<Rightarrow> health_status" where
  "effective_health ob now = (case ob of None \<Rightarrow> StatusUnknown
     | Some x \<Rightarrow> if health_current ob now then ob_status x else StatusUnknown)"

section \<open>The policy\<close>

record policy_document =
  pd_policy_version :: int
  pd_effective_status :: "(string \<times> health_status) list"
  pd_equal_time :: "health_status list"
  pd_levels :: "(health_level \<times> bool) list"
  pd_eligible_statuses :: "(criticality \<times> health_status list) list"
  pd_resolution :: "(health_status \<times> string) list"
  pd_provisioning :: string

record health_policy =
  hp_eligible :: "(criticality \<times> health_status list) list"
  hp_equal_time :: "health_status list"
  hp_resolution_denials :: "(health_status \<times> string) list"
  hp_provisioning_denial :: string

datatype policy_error =
    UnsupportedVersion | EffectiveStatusNotUnknown string | PrecedenceWrong | LevelsWrong | EligibleNotTwo
  | CriticalityUnknown | StatusNotAcceptable | CriticalNotHealthyOnly | DenialCodeMissing health_status
  | ProvisioningCodeMissing

definition effective_status_error :: "policy_document \<Rightarrow> string \<Rightarrow> policy_error option" where
  "effective_status_error doc key =
    (if map_of (pd_effective_status doc) key = Some StatusUnknown then None else Some (EffectiveStatusNotUnknown key))"

text \<open>The \<open>levels\<close> map: a repeated level keeps its last entry, and an absent one reads false.\<close>

definition level_always :: "policy_document \<Rightarrow> health_level \<Rightarrow> bool" where
  "level_always doc l = (case map_of (rev (pd_levels doc)) l of None \<Rightarrow> False | Some b \<Rightarrow> b)"

definition levels_ok :: "policy_document \<Rightarrow> bool" where
  "levels_ok doc \<longleftrightarrow> length (remdups (map fst (pd_levels doc))) = 3 \<and> level_always doc LevelEngineInstance \<and>
     \<not> level_always doc LevelProvider \<and> \<not> level_always doc LevelProviderCapability"

definition eligible_in :: "(criticality \<times> health_status list) list \<Rightarrow> criticality \<Rightarrow> health_status list" where
  "eligible_in m c = (case map_of m c of None \<Rightarrow> [] | Some ss \<Rightarrow> ss)"

definition eligible_entry_error :: "criticality \<times> health_status list \<Rightarrow> policy_error option" where
  "eligible_entry_error e =
    (if fst e \<noteq> CriticalityCritical \<and> fst e \<noteq> CriticalityStandard then Some CriticalityUnknown
     else if list_ex (\<lambda>s. \<not> health_status_valid s \<or> s = StatusUnavailable) (snd e) then Some StatusNotAcceptable
     else None)"

definition denial_error :: "policy_document \<Rightarrow> health_status \<Rightarrow> policy_error option" where
  "denial_error doc s =
    (let rejected = s \<notin> set (eligible_in (pd_eligible_statuses doc) CriticalityCritical) \<or>
           s \<notin> set (eligible_in (pd_eligible_statuses doc) CriticalityStandard) in
     if rejected \<and> (case map_of (pd_resolution doc) s of None \<Rightarrow> True | Some code \<Rightarrow> \<not> reason_code code)
     then Some (DenialCodeMissing s) else None)"

definition policy_document_error :: "policy_document \<Rightarrow> policy_error option" where
  "policy_document_error doc =
    (if pd_policy_version doc \<noteq> 1 then Some UnsupportedVersion
     else case first_error (effective_status_error doc)
                 [''expired_observation'', ''missing_observation'', ''future_observation''] of
       Some e \<Rightarrow> Some e
     | None \<Rightarrow>
         if pd_equal_time doc \<noteq> [StatusUnavailable, StatusUnknown, StatusDegraded, StatusHealthy] then Some PrecedenceWrong
         else if \<not> levels_ok doc then Some LevelsWrong
         else if length (remdups (map fst (pd_eligible_statuses doc))) \<noteq> 2 then Some EligibleNotTwo
         else case first_error eligible_entry_error (pd_eligible_statuses doc) of
           Some e \<Rightarrow> Some e
         | None \<Rightarrow>
             if eligible_in (pd_eligible_statuses doc) CriticalityCritical \<noteq> [StatusHealthy] then Some CriticalNotHealthyOnly
             else case first_error (denial_error doc)
                        [StatusUnknown, StatusHealthy, StatusDegraded, StatusUnavailable] of
               Some e \<Rightarrow> Some e
             | None \<Rightarrow> if \<not> reason_code (pd_provisioning doc) then Some ProvisioningCodeMissing else None)"

definition parse_policy :: "policy_document \<Rightarrow> policy_error + health_policy" where
  "parse_policy doc =
    (case policy_document_error doc of
       Some e \<Rightarrow> Inl e
     | None \<Rightarrow> Inr \<lparr>hp_eligible = pd_eligible_statuses doc, hp_equal_time = pd_equal_time doc,
                   hp_resolution_denials = pd_resolution doc, hp_provisioning_denial = pd_provisioning doc\<rparr>)"

text \<open>The embedded \<open>health-policy.yaml\<close>.\<close>

definition health_document :: policy_document where
  "health_document = \<lparr>pd_policy_version = 1,
     pd_effective_status = [(''expired_observation'', StatusUnknown), (''missing_observation'', StatusUnknown),
       (''future_observation'', StatusUnknown)],
     pd_equal_time = [StatusUnavailable, StatusUnknown, StatusDegraded, StatusHealthy],
     pd_levels = [(LevelEngineInstance, True), (LevelProvider, False), (LevelProviderCapability, False)],
     pd_eligible_statuses = [(CriticalityCritical, [StatusHealthy]), (CriticalityStandard, [StatusHealthy, StatusUnknown])],
     pd_resolution = [(StatusUnknown, ''PROVIDER_HEALTH_UNKNOWN''), (StatusDegraded, ''PROVIDER_UNAVAILABLE''),
       (StatusUnavailable, ''PROVIDER_UNAVAILABLE'')],
     pd_provisioning = ''NO_HEALTHY_PROVIDER''\<rparr>"

section \<open>The verdict\<close>

record levels =
  lv_engine_instance :: "observation option"
  lv_provider :: "observation option"
  lv_provider_capability :: "observation option"

record health_decision =
  hd_eligible :: bool
  hd_level :: health_level
  hd_status :: health_status
  hd_reason_code :: string

definition level_checks :: "levels \<Rightarrow> (health_level \<times> observation option \<times> bool) list" where
  "level_checks ls = [(LevelEngineInstance, lv_engine_instance ls, True), (LevelProvider, lv_provider ls, False),
     (LevelProviderCapability, lv_provider_capability ls, False)]"

fun check_levels ::
  "health_policy \<Rightarrow> health_status list \<Rightarrow> instant \<Rightarrow> (health_level \<times> observation option \<times> bool) list \<Rightarrow> health_decision" where
  "check_levels p eligible now [] =
     \<lparr>hd_eligible = True, hd_level = LevelInvalid [], hd_status = StatusInvalid [], hd_reason_code = []\<rparr>"
| "check_levels p eligible now ((level, ob, always) # cs) =
    (if ob = None \<and> \<not> always then check_levels p eligible now cs
     else let status = effective_health ob now in
       if status \<notin> set eligible then
         \<lparr>hd_eligible = False, hd_level = level, hd_status = status,
          hd_reason_code = map_read [] (map_of (hp_resolution_denials p)) status\<rparr>
       else check_levels p eligible now cs)"

definition evaluate_health :: "health_policy \<Rightarrow> criticality \<Rightarrow> levels \<Rightarrow> instant \<Rightarrow> health_decision" where
  "evaluate_health p c ls now = check_levels p (eligible_in (hp_eligible p) (or_default c)) now (level_checks ls)"

definition check_health ::
  "health_policy \<Rightarrow> criticality \<Rightarrow> levels \<Rightarrow> instant \<Rightarrow> (criticality \<times> health_decision) option" where
  "check_health p c ls now =
    (let d = evaluate_health p c ls now in if hd_eligible d then None else Some (or_default c, d))"

definition provisioning_blocker :: "health_policy \<Rightarrow> string" where
  "provisioning_blocker p = hp_provisioning_denial p"

section \<open>The newest observation\<close>

text \<open>\<open>slices.Index\<close>: the first position of a value, or -1.\<close>

fun slice_index :: "'a list \<Rightarrow> 'a \<Rightarrow> int" where
  "slice_index [] y = - 1"
| "slice_index (x # xs) y = (if x = y then 0 else let i = slice_index xs y in if i < 0 then - 1 else i + 1)"

definition newer_health :: "health_policy \<Rightarrow> observation \<Rightarrow> observation \<Rightarrow> bool" where
  "newer_health p a b =
    (if ob_observed_at a \<noteq> ob_observed_at b then ob_observed_at b < ob_observed_at a
     else slice_index (hp_equal_time p) (ob_status a) < slice_index (hp_equal_time p) (ob_status b))"

interpretation health_order: newest_first "newer_health p" for p
  by unfold_locales (auto simp: newer_health_def split: if_splits)

section \<open>What a policy that loads guarantees\<close>

lemma parse_policy_Inr:
  assumes "parse_policy doc = Inr p"
  shows "policy_document_error doc = None" and "hp_eligible p = pd_eligible_statuses doc"
    and "hp_equal_time p = pd_equal_time doc" and "hp_resolution_denials p = pd_resolution doc"
  using assms by (auto simp: parse_policy_def split: option.splits)

lemma loaded_policy:
  assumes "parse_policy doc = Inr p"
  shows "eligible_in (hp_eligible p) CriticalityCritical = [StatusHealthy]"
    and "s \<in> set (eligible_in (hp_eligible p) c) \<Longrightarrow> health_status_valid s \<and> s \<noteq> StatusUnavailable"
    and "hp_equal_time p = [StatusUnavailable, StatusUnknown, StatusDegraded, StatusHealthy]"
    and "health_status_valid s \<Longrightarrow> s \<notin> set (eligible_in (hp_eligible p) c) \<Longrightarrow> c \<in> {CriticalityCritical, CriticalityStandard} \<Longrightarrow>
      \<exists>code. map_of (hp_resolution_denials p) s = Some code \<and> reason_code code"
proof -
  note p = parse_policy_Inr [OF assms]
  from p(1) have doc: "pd_equal_time doc = [StatusUnavailable, StatusUnknown, StatusDegraded, StatusHealthy]"
    "eligible_in (pd_eligible_statuses doc) CriticalityCritical = [StatusHealthy]"
    "first_error eligible_entry_error (pd_eligible_statuses doc) = None"
    "first_error (denial_error doc) [StatusUnknown, StatusHealthy, StatusDegraded, StatusUnavailable] = None"
    by (simp_all only: policy_document_error_def error_simps not_not)
  show "eligible_in (hp_eligible p) CriticalityCritical = [StatusHealthy]" using doc(2) p(2) by simp
  show "hp_equal_time p = [StatusUnavailable, StatusUnknown, StatusDegraded, StatusHealthy]" using doc(1) p(3) by simp
  show "health_status_valid s \<and> s \<noteq> StatusUnavailable" if "s \<in> set (eligible_in (hp_eligible p) c)"
  proof -
    from that p(2) obtain ss where ss: "(c, ss) \<in> set (pd_eligible_statuses doc)" "s \<in> set ss"
      by (auto simp: eligible_in_def split: option.splits dest: map_of_SomeD [OF sym])
    with doc(3) have "eligible_entry_error (c, ss) = None" by (simp add: first_error_None_iff)
    with ss(2) show ?thesis by (auto simp: eligible_entry_error_def list_ex_iff split: if_splits)
  qed
  show "\<exists>code. map_of (hp_resolution_denials p) s = Some code \<and> reason_code code"
    if "health_status_valid s" "s \<notin> set (eligible_in (hp_eligible p) c)" "c \<in> {CriticalityCritical, CriticalityStandard}"
  proof -
    from that(1) have "s \<in> {StatusUnknown, StatusHealthy, StatusDegraded, StatusUnavailable}"
      by (cases s) (simp_all add: health_status_valid_def)
    with doc(4) have "denial_error doc s = None" by (auto simp: first_error_None_iff simp del: first_error.simps)
    with that(2,3) p(2,4) show ?thesis by (auto simp: denial_error_def Let_def split: option.splits if_splits)
  qed
qed

lemma check_levels_eligible:
  "hd_eligible (check_levels p eligible now cs) \<longleftrightarrow>
    (\<forall>(level, ob, always) \<in> set cs. ob = None \<and> \<not> always \<or> effective_health ob now \<in> set eligible)"
  by (induction p eligible now cs rule: check_levels.induct) (auto simp: Let_def)

lemma check_levels_refusal:
  "\<not> hd_eligible (check_levels p eligible now cs) \<Longrightarrow>
    \<exists>level ob always. (level, ob, always) \<in> set cs \<and> (ob \<noteq> None \<or> always) \<and> effective_health ob now \<notin> set eligible \<and>
      check_levels p eligible now cs = \<lparr>hd_eligible = False, hd_level = level, hd_status = effective_health ob now,
        hd_reason_code = map_read [] (map_of (hp_resolution_denials p)) (effective_health ob now)\<rparr>"
proof (induction cs)
  case Nil
  then show ?case by simp
next
  case (Cons c cs)
  obtain level ob always where c: "c = (level, ob, always)" by (cases c) auto
  show ?case
  proof (cases "ob = None \<and> \<not> always \<or> effective_health ob now \<in> set eligible")
    case True
    then have eq: "check_levels p eligible now (c # cs) = check_levels p eligible now cs" by (auto simp: Let_def c)
    from Cons.IH Cons.prems show ?thesis unfolding eq by auto
  next
    case False
    then have "check_levels p eligible now (c # cs) = \<lparr>hd_eligible = False, hd_level = level,
        hd_status = effective_health ob now,
        hd_reason_code = map_read [] (map_of (hp_resolution_denials p)) (effective_health ob now)\<rparr>"
      by (auto simp: Let_def c)
    with False show ?thesis unfolding c by auto
  qed
qed

text \<open>The observations held of a candidate.\<close>

definition held :: "levels \<Rightarrow> observation list" where
  "held ls = concat (map (\<lambda>ob. case ob of None \<Rightarrow> [] | Some x \<Rightarrow> [x])
     [lv_engine_instance ls, lv_provider ls, lv_provider_capability ls])"

lemma held_iff: "x \<in> set (held ls) \<longleftrightarrow> lv_engine_instance ls = Some x \<or> lv_provider ls = Some x \<or> lv_provider_capability ls = Some x"
  by (auto simp: held_def split: option.splits)

lemma effective_healthy:
  "effective_health ob now = StatusHealthy \<longleftrightarrow> (\<exists>x. ob = Some x \<and> ob_status x = StatusHealthy \<and> health_current ob now)"
  by (auto simp: effective_health_def split: option.splits)

lemma eligible_levels:
  assumes "hd_eligible (evaluate_health p c ls now)"
  shows "effective_health (lv_engine_instance ls) now \<in> set (eligible_in (hp_eligible p) (or_default c))"
    and "x \<in> set (held ls) \<Longrightarrow> effective_health (Some x) now \<in> set (eligible_in (hp_eligible p) (or_default c))"
  using assms unfolding evaluate_health_def check_levels_eligible by (auto simp: level_checks_def held_iff)

lemma critical_health:
  assumes "parse_policy doc = Inr p" and "hd_eligible (evaluate_health p CriticalityCritical ls now)"
  shows "lv_engine_instance ls \<noteq> None \<and>
    list_all (\<lambda>x. ob_status x = StatusHealthy \<and> ob_observed_at x \<le> now \<and> now < ob_expires_at x) (held ls)"
proof -
  have "set (eligible_in (hp_eligible p) (or_default CriticalityCritical)) = {StatusHealthy}"
    using loaded_policy(1) [OF assms(1)] by (simp add: or_default_def)
  with eligible_levels [OF assms(2)] show ?thesis by (auto simp: effective_healthy health_current_def list_all_iff)
qed

text \<open>
  C14 (eligibility rests on current health). Under any policy that \<open>ParsePolicy\<close> accepts, a
  candidate eligible for a CRITICAL capability has an engine instance observation, and every
  observation held of it, at any level, is HEALTHY and current; and whatever the criticality, no
  current observation of an eligible candidate says UNAVAILABLE. No level masks another.
\<close>

theorem eligible_rests_on_current_health:
  assumes "parse_policy doc = Inr p" and "hd_eligible (evaluate_health p c ls now)"
  shows "(c = CriticalityCritical \<longrightarrow> lv_engine_instance ls \<noteq> None \<and>
      list_all (\<lambda>x. ob_status x = StatusHealthy \<and> ob_observed_at x \<le> now \<and> now < ob_expires_at x) (held ls)) \<and>
    list_all (\<lambda>x. \<not> (health_current (Some x) now \<and> ob_status x = StatusUnavailable)) (held ls)"
proof -
  note ok = loaded_policy [OF assms(1)] and el = eligible_levels [OF assms(2)]
  have "c = CriticalityCritical \<longrightarrow> lv_engine_instance ls \<noteq> None \<and>
      list_all (\<lambda>x. ob_status x = StatusHealthy \<and> ob_observed_at x \<le> now \<and> now < ob_expires_at x) (held ls)"
    using critical_health [OF assms(1)] assms(2) by blast
  moreover have "\<not> (health_current (Some x) now \<and> ob_status x = StatusUnavailable)" if "x \<in> set (held ls)" for x
    using ok(2) [OF el(2) [OF that]] by (auto simp: effective_health_def)
  ultimately show ?thesis by (simp add: list_all_iff)
qed

text \<open>
  Property (a refusal names its level and a registered code). Under a policy that loads, when the
  observations held of a candidate have known statuses and the criticality is a known one, a
  refusal names a level that was checked, the effective status of that level, which the
  criticality does not accept, and a well-formed reason code.
\<close>

theorem refusals_carry_codes:
  assumes "parse_policy doc = Inr p" and "criticality_valid c"
    and "list_all (\<lambda>x. health_status_valid (ob_status x)) (held ls)" and "\<not> hd_eligible (evaluate_health p c ls now)"
  shows "reason_code (hd_reason_code (evaluate_health p c ls now)) \<and>
    (\<exists>ob. (hd_level (evaluate_health p c ls now), ob) \<in> {(LevelEngineInstance, lv_engine_instance ls),
        (LevelProvider, lv_provider ls), (LevelProviderCapability, lv_provider_capability ls)} \<and>
      hd_status (evaluate_health p c ls now) = effective_health ob now \<and>
      hd_status (evaluate_health p c ls now) \<notin> set (eligible_in (hp_eligible p) (or_default c)))"
proof -
  from check_levels_refusal [OF assms(4) [unfolded evaluate_health_def]] obtain level ob always where
    w: "(level, ob, always) \<in> set (level_checks ls)"
      "effective_health ob now \<notin> set (eligible_in (hp_eligible p) (or_default c))"
    and d: "evaluate_health p c ls now = \<lparr>hd_eligible = False, hd_level = level, hd_status = effective_health ob now,
        hd_reason_code = map_read [] (map_of (hp_resolution_denials p)) (effective_health ob now)\<rparr>"
    unfolding evaluate_health_def by blast
  from w(1) assms(3) have "health_status_valid (effective_health ob now)"
    by (cases ob) (auto simp: level_checks_def held_iff list_all_iff effective_health_def health_status_valid_def split: if_splits)
  moreover from assms(2) have "or_default c \<in> {CriticalityCritical, CriticalityStandard}"
    by (cases c) (simp_all add: criticality_valid_def or_default_def)
  ultimately obtain code where "map_of (hp_resolution_denials p) (effective_health ob now) = Some code" "reason_code code"
    using loaded_policy(4) [OF assms(1) _ w(2)] by blast
  then have "reason_code (hd_reason_code (evaluate_health p c ls now))" by (simp add: d)
  moreover have "(level, ob) \<in> {(LevelEngineInstance, lv_engine_instance ls),
        (LevelProvider, lv_provider ls), (LevelProviderCapability, lv_provider_capability ls)}"
    using w(1) by (auto simp: level_checks_def)
  ultimately show ?thesis using w(2) by (auto simp: d)
qed

text \<open>Of the observations made at the latest instant, the newest is one of the most severe.\<close>

lemma tie_never_resolves_toward_health:
  assumes "parse_policy doc = Inr p" and "keep_newest (newer_health p) None obs = Some m" and "x \<in> set obs"
  shows "m \<in> set obs \<and> ob_observed_at x \<le> ob_observed_at m \<and>
    (ob_observed_at x = ob_observed_at m \<longrightarrow>
      slice_index [StatusUnavailable, StatusUnknown, StatusDegraded, StatusHealthy] (ob_status m) \<le>
      slice_index [StatusUnavailable, StatusUnknown, StatusDegraded, StatusHealthy] (ob_status x))"
proof -
  from health_order.keep_newest_max [OF assms(2)] assms(3) have "m \<in> set obs" "\<not> newer_health p x m" by auto
  then show ?thesis using loaded_policy(3) [OF assms(1)] by (auto simp: newer_health_def split: if_splits)
qed

section \<open>Examples\<close>

definition ex_health_policy :: health_policy where
  "ex_health_policy = projr (parse_policy health_document)"

lemma ex_health_policy_ok: "parse_policy health_document = Inr ex_health_policy"
  by code_simp

definition ex_observation :: "health_status \<Rightarrow> observation" where
  "ex_observation s = \<lparr>ob_subject = \<lparr>su_engine_instance_id = ''ei_1'', su_provider_id = [], su_capability_key = []\<rparr>,
     ob_status = s, ob_observed_at = 10, ob_expires_at = 20, ob_source = SourceActiveProbe, ob_reasons = []\<rparr>"

definition ex_levels :: "health_status \<Rightarrow> levels" where
  "ex_levels s = \<lparr>lv_engine_instance = Some (ex_observation s), lv_provider = None, lv_provider_capability = None\<rparr>"

theorem eligible_rests_on_current_health_witness:
  "hd_eligible (evaluate_health ex_health_policy CriticalityCritical (ex_levels StatusHealthy) 15) \<and>
    list_all (\<lambda>x. ob_status x = StatusHealthy \<and> ob_observed_at x \<le> 15 \<and> 15 < ob_expires_at x) (held (ex_levels StatusHealthy))"
proof -
  have e: "hd_eligible (evaluate_health ex_health_policy CriticalityCritical (ex_levels StatusHealthy) 15)" by code_simp
  from eligible_rests_on_current_health [OF ex_health_policy_ok e] e show ?thesis by simp
qed

theorem refusals_carry_codes_witness:
  "reason_code (hd_reason_code (evaluate_health ex_health_policy CriticalityNone (ex_levels StatusDegraded) 15))"
proof -
  have "criticality_valid CriticalityNone" "list_all (\<lambda>x. health_status_valid (ob_status x)) (held (ex_levels StatusDegraded))"
    "\<not> hd_eligible (evaluate_health ex_health_policy CriticalityNone (ex_levels StatusDegraded) 15)" by code_simp+
  from refusals_carry_codes [OF ex_health_policy_ok this] show ?thesis by blast
qed

end
