(* ===== verification/Migration_Plan.thy ===== *)
theory Migration_Plan
  imports Health "HOL-Library.Multiset"
begin

text \<open>
  Provider migration planning (\<open>internal/topology/migration/types.go\<close>, \<open>planner.go\<close>): the request
  and its validation, discovery of the affected bindings, the choice of a healthy target instance
  for each, the cohorts, the blockers and the chain of steps.

  The authoritative state the planner reads (\<open>Facts\<close>) is a record of functions. A finding is its
  code with the values its message is formatted from. The short digest that shortens long step
  identifiers and the digest of the plan are arguments; impact and strategy texts are left out.
  \<open>sort.Slice\<close> is a stable sort by the compared key.
\<close>

section \<open>Requests and plans\<close>

datatype mig_op =
    OpVerifyTargetReadiness | OpCreateMigrationBinding | OpStartShadow | OpStopShadow | OpFreezeCohortWrites
  | OpMigrateCohortData | OpReconcileCohortData | OpShiftCohort | OpUnfreezeCohortWrites | OpValidateCohort
  | OpRetireSourceBinding | OpRemoveMigrationBinding

text \<open>The operation's name in the contract.\<close>

fun op_name :: "mig_op \<Rightarrow> string" where
  "op_name OpVerifyTargetReadiness = ''VERIFY_TARGET_READINESS''"
| "op_name OpCreateMigrationBinding = ''CREATE_MIGRATION_BINDING''"
| "op_name OpStartShadow = ''START_SHADOW''"
| "op_name OpStopShadow = ''STOP_SHADOW''"
| "op_name OpFreezeCohortWrites = ''FREEZE_COHORT_WRITES''"
| "op_name OpMigrateCohortData = ''MIGRATE_COHORT_DATA''"
| "op_name OpReconcileCohortData = ''RECONCILE_COHORT_DATA''"
| "op_name OpShiftCohort = ''SHIFT_COHORT''"
| "op_name OpUnfreezeCohortWrites = ''UNFREEZE_COHORT_WRITES''"
| "op_name OpValidateCohort = ''VALIDATE_COHORT''"
| "op_name OpRetireSourceBinding = ''RETIRE_SOURCE_BINDING''"
| "op_name OpRemoveMigrationBinding = ''REMOVE_MIGRATION_BINDING''"

definition stateful_sequence :: "mig_op list" where
  "stateful_sequence = [OpFreezeCohortWrites, OpMigrateCohortData, OpReconcileCohortData, OpShiftCohort, OpUnfreezeCohortWrites]"

datatype migration_mode = ModeStatelessRebind | ModeStatefulCutover | ModeOther string

datatype rollback_strategy = RollbackRebindSource | RollbackRestoreAndRebind | RollbackForwardFixOnly | RollbackOther string

record mig_capability =
  mc_capability_key :: string
  mc_contract_version :: int

record selector =
  se_tenant_ids :: "string list"
  se_legal_entity_ids :: "string list"
  se_estate_ids :: "string list"
  se_markets :: "string list"
  se_regions :: "string list"

record cohort =
  co_cohort_key :: string
  co_selector :: "selector option"

record mig_request =
  mr_source_provider_key :: string
  mr_target_provider_key :: string
  mr_capabilities :: "mig_capability list"
  mr_migration_mode :: migration_mode
  mr_data_strategy :: string
  mr_rollback_strategy :: rollback_strategy
  mr_shadow :: bool
  mr_cohorts :: "cohort list"
  mr_validation_checks :: "(string \<times> string) list"
  mr_cutover_window :: "(instant \<times> instant) option"
  mr_owners :: "string list"
  mr_reason :: string

record mig_resources =
  me_cohort_key :: string
  me_capability_key :: string
  me_provider_key :: string
  me_binding_mode :: string
  me_engine_instance_id :: string
  me_binding_ids :: "string list"
  me_binding_count :: "nat option"

definition no_resources :: mig_resources where
  "no_resources = \<lparr>me_cohort_key = [], me_capability_key = [], me_provider_key = [], me_binding_mode = [],
     me_engine_instance_id = [], me_binding_ids = [], me_binding_count = None\<rparr>"

record mig_step =
  ms_step_id :: string
  ms_operation :: mig_op
  ms_depends_on :: "string list"
  ms_resources :: mig_resources
  ms_irreversible :: bool

datatype mig_finding =
    BlockSourceNotBound string
  | BlockNoContractVersion string string
  | BlockBindingVersion string string int int
  | BlockAlreadyInProgress string
  | BlockTargetNotRegistered
  | BlockTargetNotSupported string
  | BlockTargetContractIncompatible string int
  | BlockTargetNotEligible string
  | BlockTargetUnhealthy string
  | BlockShadowUnsafe
  | BlockCohortOverlap string string string
  | BlockContextUnassigned string string
  | WarnCohortEmpty string
  | WarnNotReversible

record discovery =
  ds_binding_count :: nat
  ds_tenant_ids :: "string list"
  ds_estate_ids :: "string list"
  ds_markets :: "string list"
  ds_cohorts :: "(string \<times> nat \<times> nat) list"

datatype mig_risk = MigHigh | MigCritical

record mig_plan =
  mp_plan_id :: string
  mp_plan_version :: int
  mp_plan_digest :: string
  mp_base_revision :: int
  mp_generated_at :: instant
  mp_expires_at :: instant
  mp_risk_class :: mig_risk
  mp_provider_migration_id :: string
  mp_request :: mig_request
  mp_source_provider_key :: string
  mp_target_provider_key :: string
  mp_migration_mode :: migration_mode
  mp_discovery :: discovery
  mp_steps :: "mig_step list"
  mp_security_checks :: "(string \<times> string) list"
  mp_readiness :: "(string \<times> string) list"
  mp_blockers :: "mig_finding list"
  mp_warnings :: "mig_finding list"

section \<open>The state a plan is derived from\<close>

record source_binding =
  sb_binding_id :: string
  sb_capability_key :: string
  sb_contract_version :: int
  sb_tenant_id :: string
  sb_legal_entity_id :: string
  sb_estate_id :: string
  sb_markets :: "string list"
  sb_region :: string
  sb_environment :: string

record mig_provider =
  mv_status :: string
  mv_support :: "string \<Rightarrow> int list option"

record mig_instance =
  mn_engine_instance_id :: string
  mn_region :: string
  mn_environment :: string
  mn_status :: string
  mn_health :: "string \<Rightarrow> levels"

record facts =
  fa_source_bindings :: "string \<Rightarrow> string list \<Rightarrow> string + source_binding list"
  fa_provider :: "string \<Rightarrow> string + mig_provider option"
  fa_provider_instances :: "string \<Rightarrow> string list \<Rightarrow> string + mig_instance list"
  fa_open_migrations :: "string \<Rightarrow> string list \<Rightarrow> string + string list"

section \<open>Validating a request\<close>

datatype mig_error =
    SameProvider | WindowReversed | CohortNamedTwice string | SelectorOmitted | CapabilityNamedTwice string
  | FactsUnavailable string

fun cohorts_error :: "string list \<Rightarrow> cohort list \<Rightarrow> mig_error option" where
  "cohorts_error seen [] = None"
| "cohorts_error seen (c # cs) =
    (if co_cohort_key c \<in> set seen then Some (CohortNamedTwice (co_cohort_key c))
     else if co_selector c = None \<and> cs \<noteq> [] then Some SelectorOmitted
     else cohorts_error (co_cohort_key c # seen) cs)"

fun capabilities_error :: "string list \<Rightarrow> mig_capability list \<Rightarrow> mig_error option" where
  "capabilities_error seen [] = None"
| "capabilities_error seen (c # cs) =
    (if mc_capability_key c \<in> set seen then Some (CapabilityNamedTwice (mc_capability_key c))
     else capabilities_error (mc_capability_key c # seen) cs)"

definition mig_validate :: "mig_request \<Rightarrow> mig_error option" where
  "mig_validate r =
    (if mr_source_provider_key r = mr_target_provider_key r then Some SameProvider
     else if (case mr_cutover_window r of None \<Rightarrow> False | Some (starts, ends) \<Rightarrow> \<not> starts < ends) then Some WindowReversed
     else case cohorts_error [] (mr_cohorts r) of
       Some e \<Rightarrow> Some e
     | None \<Rightarrow> capabilities_error [] (mr_capabilities r))"

section \<open>Findings\<close>

text \<open>\<open>block\<close> appends a finding unless the plan has it.\<close>

definition add_block :: "mig_finding list \<Rightarrow> mig_finding \<Rightarrow> mig_finding list" where
  "add_block fs f = (if f \<in> set fs then fs else fs @ [f])"

definition collect_blocks :: "mig_finding list \<Rightarrow> mig_finding list" where
  "collect_blocks fs = foldl add_block [] fs"

definition bindings_of :: "source_binding list \<Rightarrow> mig_capability \<Rightarrow> source_binding list" where
  "bindings_of bs c = filter (\<lambda>b. sb_capability_key b = mc_capability_key c) bs"

definition unbound_findings :: "mig_request \<Rightarrow> source_binding list \<Rightarrow> mig_finding list" where
  "unbound_findings r bs = map (\<lambda>c. BlockSourceNotBound (mc_capability_key c))
     (filter (\<lambda>c. bindings_of bs c = []) (mr_capabilities r))"

definition version_finding :: "mig_capability \<Rightarrow> source_binding \<Rightarrow> mig_finding list" where
  "version_finding c b =
    (if sb_contract_version b < 1 then [BlockNoContractVersion (sb_binding_id b) (mc_capability_key c)]
     else if sb_contract_version b \<noteq> mc_contract_version c
       then [BlockBindingVersion (sb_binding_id b) (mc_capability_key c) (sb_contract_version b) (mc_contract_version c)]
     else [])"

definition version_findings :: "mig_request \<Rightarrow> source_binding list \<Rightarrow> mig_finding list" where
  "version_findings r bs = concat (map (\<lambda>c. concat (map (version_finding c) (bindings_of bs c))) (mr_capabilities r))"

fun required_loop :: "int list \<Rightarrow> source_binding list \<Rightarrow> int list" where
  "required_loop versions [] = versions"
| "required_loop versions (b # bs) =
    required_loop (if 1 \<le> sb_contract_version b \<and> sb_contract_version b \<notin> set versions
                   then versions @ [sb_contract_version b] else versions) bs"

definition required_versions :: "mig_capability \<Rightarrow> source_binding list \<Rightarrow> int list" where
  "required_versions c bs = sort (required_loop [mc_contract_version c] bs)"

definition support_findings :: "mig_request \<Rightarrow> source_binding list \<Rightarrow> mig_provider \<Rightarrow> mig_finding list" where
  "support_findings r bs p = concat (map (\<lambda>c.
     (case mv_support p (mc_capability_key c) of
        None \<Rightarrow> [BlockTargetNotSupported (mc_capability_key c)]
      | Some versions \<Rightarrow> map (BlockTargetContractIncompatible (mc_capability_key c))
          (filter (\<lambda>v. v \<notin> set versions) (required_versions c (bindings_of bs c))))) (mr_capabilities r))"

section \<open>The target instance of a binding\<close>

definition is_active :: "string \<Rightarrow> bool" where
  "is_active s \<longleftrightarrow> to_lower s = ''active''"

definition located_at :: "source_binding \<Rightarrow> mig_instance \<Rightarrow> bool" where
  "located_at b i \<longleftrightarrow> is_active (mn_status i) \<and> (sb_environment b = [] \<or> mn_environment i = sb_environment b) \<and>
     (sb_region b = [] \<or> mn_region i = sb_region b)"

datatype serve_result = Serves string | ServeUnhealthy | ServeNotEligible

fun serve_loop :: "health_policy \<Rightarrow> source_binding \<Rightarrow> instant \<Rightarrow> bool \<Rightarrow> mig_instance list \<Rightarrow> serve_result" where
  "serve_loop hp b now located [] = (if located then ServeUnhealthy else ServeNotEligible)"
| "serve_loop hp b now located (i # is) =
    (if \<not> located_at b i then serve_loop hp b now located is
     else if hd_eligible (evaluate_health hp CriticalityCritical (mn_health i (sb_capability_key b)) now)
       then Serves (mn_engine_instance_id i)
     else serve_loop hp b now True is)"

definition serve :: "health_policy \<Rightarrow> source_binding \<Rightarrow> mig_instance list \<Rightarrow> instant \<Rightarrow> serve_result" where
  "serve hp b is now = serve_loop hp b now False is"

text \<open>The \<open>chosen\<close> map from binding to target instance.\<close>

fun choose_instances :: "health_policy \<Rightarrow> mig_instance list \<Rightarrow> instant \<Rightarrow> source_binding list \<Rightarrow> (string \<Rightarrow> string) \<Rightarrow> string \<Rightarrow> string" where
  "choose_instances hp is now [] chosen = chosen"
| "choose_instances hp is now (b # bs) chosen =
    choose_instances hp is now bs (case serve hp b is now of Serves i \<Rightarrow> chosen(sb_binding_id b := i) | _ \<Rightarrow> chosen)"

definition serve_findings ::
  "mig_request \<Rightarrow> health_policy \<Rightarrow> source_binding list \<Rightarrow> mig_instance list \<Rightarrow> instant \<Rightarrow> mig_finding list" where
  "serve_findings r hp bs is now = concat (map (\<lambda>c.
     (if list_ex (\<lambda>b. sb_capability_key b = mc_capability_key c \<and> serve hp b is now = ServeNotEligible) bs
      then [BlockTargetNotEligible (mc_capability_key c)] else []) @
     (if list_ex (\<lambda>b. sb_capability_key b = mc_capability_key c \<and> serve hp b is now = ServeUnhealthy) bs
      then [BlockTargetUnhealthy (mc_capability_key c)] else [])) (mr_capabilities r))"

section \<open>Cohorts\<close>

definition in_values :: "string list \<Rightarrow> string \<Rightarrow> bool" where
  "in_values values v \<longleftrightarrow> values = [] \<or> v \<in> set values"

definition selector_matches :: "selector \<Rightarrow> source_binding \<Rightarrow> bool" where
  "selector_matches s b \<longleftrightarrow> in_values (se_tenant_ids s) (sb_tenant_id b) \<and>
     in_values (se_legal_entity_ids s) (sb_legal_entity_id b) \<and> in_values (se_estate_ids s) (sb_estate_id b) \<and>
     in_values (se_regions s) (sb_region b) \<and>
     (se_markets s = [] \<or> list_ex (\<lambda>m. m \<in> set (se_markets s)) (sb_markets b))"

definition cohort_matches :: "cohort \<Rightarrow> source_binding \<Rightarrow> bool" where
  "cohort_matches c b = (case co_selector c of None \<Rightarrow> False | Some s \<Rightarrow> selector_matches s b)"

definition assign_cohort :: "cohort list \<Rightarrow> source_binding \<Rightarrow> mig_finding + nat" where
  "assign_cohort cs b =
    (let matched = filter (\<lambda>i. cohort_matches (cs ! i) b) [0..<length cs] in
     if 1 < length matched
       then Inl (BlockCohortOverlap (sb_binding_id b) (co_cohort_key (cs ! (matched ! 0))) (co_cohort_key (cs ! (matched ! 1))))
     else if length matched = 1 then Inr (hd matched)
     else if cs \<noteq> [] \<and> co_selector (last cs) = None then Inr (length cs - 1)
     else Inl (BlockContextUnassigned (sb_binding_id b) (sb_tenant_id b)))"

definition cohort_findings :: "cohort list \<Rightarrow> source_binding list \<Rightarrow> mig_finding list" where
  "cohort_findings cs bs = concat (map (\<lambda>b. case assign_cohort cs b of Inl f \<Rightarrow> [f] | Inr _ \<Rightarrow> []) bs)"

definition members :: "cohort list \<Rightarrow> source_binding list \<Rightarrow> nat \<Rightarrow> source_binding list" where
  "members cs bs i = filter (\<lambda>b. assign_cohort cs b = Inr i) bs"

definition sorted_keys :: "string list \<Rightarrow> string list" where
  "sorted_keys ks = sort (remdups ks)"

definition discover :: "mig_request \<Rightarrow> source_binding list \<Rightarrow> discovery" where
  "discover r bs = \<lparr>ds_binding_count = length bs, ds_tenant_ids = sorted_keys (map sb_tenant_id bs),
     ds_estate_ids = sorted_keys (filter (\<lambda>e. e \<noteq> []) (map sb_estate_id bs)),
     ds_markets = sorted_keys (concat (map sb_markets bs)),
     ds_cohorts = map (\<lambda>i. (co_cohort_key (mr_cohorts r ! i), length (members (mr_cohorts r) bs i),
       length (remdups (map sb_tenant_id (members (mr_cohorts r) bs i))))) [0..<length (mr_cohorts r)]\<rparr>"

definition mig_warnings :: "mig_request \<Rightarrow> source_binding list \<Rightarrow> mig_finding list" where
  "mig_warnings r bs = map (\<lambda>i. WarnCohortEmpty (co_cohort_key (mr_cohorts r ! i)))
       (filter (\<lambda>i. members (mr_cohorts r) bs i = []) [0..<length (mr_cohorts r)]) @
     (if mr_rollback_strategy r = RollbackForwardFixOnly then [WarnNotReversible] else [])"

section \<open>Steps\<close>

record step_spec =
  sc_id :: string
  sc_op :: mig_op
  sc_resources :: mig_resources
  sc_irreversible :: bool

fun chain_steps :: "string \<Rightarrow> step_spec list \<Rightarrow> mig_step list" where
  "chain_steps previous [] = []"
| "chain_steps previous (s # ss) =
     \<lparr>ms_step_id = sc_id s, ms_operation = sc_op s, ms_depends_on = (if previous \<noteq> [] then [previous] else []),
      ms_resources = sc_resources s, ms_irreversible = sc_irreversible s\<rparr> # chain_steps (sc_id s) ss"

definition trim_right_hyphens :: "string \<Rightarrow> string" where
  "trim_right_hyphens s = rev (dropWhile (\<lambda>c. c = CHR ''-'') (rev s))"

definition step_id :: "(string \<Rightarrow> string) \<Rightarrow> string \<Rightarrow> string \<Rightarrow> string" where
  "step_id short_digest prefix key =
    (let i = prefix @ ''-'' @ map (\<lambda>c. if c = CHR ''.'' \<or> c = CHR ''_'' then CHR ''-'' else c) (to_lower key) in
     if length i \<le> 64 then i else trim_right_hyphens (take 51 i) @ ''-'' @ short_digest i)"

text \<open>One binding step per capability and target instance, with the source bindings that move there.\<close>

definition bind_specs ::
  "(string \<Rightarrow> string) \<Rightarrow> mig_request \<Rightarrow> source_binding list \<Rightarrow> (string \<Rightarrow> string) \<Rightarrow> mig_capability \<Rightarrow> step_spec list" where
  "bind_specs short_digest r bs chosen c =
    (let moving = filter (\<lambda>b. chosen (sb_binding_id b) \<noteq> []) (bindings_of bs c) in
     map (\<lambda>i. let ids = map sb_binding_id (filter (\<lambda>b. chosen (sb_binding_id b) = i) moving) in
            \<lparr>sc_id = step_id short_digest ''bind'' (mc_capability_key c @ ''-'' @ i), sc_op = OpCreateMigrationBinding,
             sc_resources = no_resources\<lparr>me_capability_key := mc_capability_key c, me_provider_key := mr_target_provider_key r,
               me_binding_mode := ''MIGRATION'', me_engine_instance_id := i, me_binding_ids := ids,
               me_binding_count := Some (length ids)\<rparr>, sc_irreversible = False\<rparr>)
       (sorted_keys (map (\<lambda>b. chosen (sb_binding_id b)) moving)))"

definition cohort_ops :: "mig_request \<Rightarrow> mig_op list" where
  "cohort_ops r = (if mr_migration_mode r = ModeStatefulCutover then stateful_sequence else [OpShiftCohort]) @ [OpValidateCohort]"

definition cohort_resources :: "mig_request \<Rightarrow> cohort \<Rightarrow> source_binding list \<Rightarrow> mig_resources" where
  "cohort_resources r c ms = no_resources\<lparr>me_cohort_key := co_cohort_key c, me_provider_key := mr_target_provider_key r,
     me_binding_count := Some (length ms), me_binding_ids := sort (map sb_binding_id ms)\<rparr>"

definition cohort_specs :: "(string \<Rightarrow> string) \<Rightarrow> mig_request \<Rightarrow> cohort \<Rightarrow> source_binding list \<Rightarrow> step_spec list" where
  "cohort_specs short_digest r c ms =
    map (\<lambda>op. \<lparr>sc_id = step_id short_digest (co_cohort_key c) (op_name op), sc_op = op,
        sc_resources = cohort_resources r c ms,
        sc_irreversible = (mr_rollback_strategy r = RollbackForwardFixOnly \<and> op = OpShiftCohort)\<rparr>) (cohort_ops r)"

definition provider_resources :: "mig_request \<Rightarrow> mig_resources" where
  "provider_resources r = no_resources\<lparr>me_provider_key := mr_target_provider_key r\<rparr>"

definition prepare_specs ::
  "(string \<Rightarrow> string) \<Rightarrow> mig_request \<Rightarrow> source_binding list \<Rightarrow> (string \<Rightarrow> string) \<Rightarrow> step_spec list" where
  "prepare_specs short_digest r bs chosen =
    \<lparr>sc_id = ''verify-target'', sc_op = OpVerifyTargetReadiness, sc_resources = provider_resources r, sc_irreversible = False\<rparr> #
    concat (map (bind_specs short_digest r bs chosen) (mr_capabilities r))"

definition shadow_specs :: "mig_request \<Rightarrow> step_spec list" where
  "shadow_specs r = (if mr_shadow r then
     [\<lparr>sc_id = ''start-shadow'', sc_op = OpStartShadow, sc_resources = provider_resources r, sc_irreversible = False\<rparr>,
      \<lparr>sc_id = ''stop-shadow'', sc_op = OpStopShadow, sc_resources = provider_resources r, sc_irreversible = False\<rparr>] else [])"

definition retire_specs :: "(string \<Rightarrow> string) \<Rightarrow> mig_request \<Rightarrow> source_binding list \<Rightarrow> step_spec list" where
  "retire_specs short_digest r bs =
    map (\<lambda>c. \<lparr>sc_id = step_id short_digest ''retire'' (mc_capability_key c), sc_op = OpRetireSourceBinding,
        sc_resources = no_resources\<lparr>me_capability_key := mc_capability_key c, me_provider_key := mr_source_provider_key r,
          me_binding_count := Some (length (bindings_of bs c))\<rparr>, sc_irreversible = False\<rparr>) (mr_capabilities r)"

definition plan_specs ::
  "(string \<Rightarrow> string) \<Rightarrow> mig_request \<Rightarrow> source_binding list \<Rightarrow> (string \<Rightarrow> string) \<Rightarrow> step_spec list" where
  "plan_specs short_digest r bs chosen = prepare_specs short_digest r bs chosen @ shadow_specs r @
     concat (map (\<lambda>i. cohort_specs short_digest r (mr_cohorts r ! i) (members (mr_cohorts r) bs i)) [0..<length (mr_cohorts r)]) @
     retire_specs short_digest r bs"

definition mig_risk_of :: "mig_request \<Rightarrow> mig_risk" where
  "mig_risk_of r = (if mr_migration_mode r = ModeStatefulCutover then MigCritical else MigHigh)"

section \<open>The plan\<close>

record mig_input =
  mi_request :: mig_request
  mi_provider_migration_id :: string
  mi_plan_id :: string
  mi_plan_version :: int
  mi_base_revision :: int
  mi_now :: instant

datatype mig_digest_input =
    MigMaterial string mig_request string string migration_mode mig_risk discovery "mig_step list"
      "(string \<times> string) list" "mig_finding list"
  | MigBound string int int string

definition mig_material :: "(mig_digest_input \<Rightarrow> string) \<Rightarrow> mig_plan \<Rightarrow> string" where
  "mig_material digest p = digest (MigMaterial (mp_provider_migration_id p) (mp_request p) (mp_source_provider_key p)
     (mp_target_provider_key p) (mp_migration_mode p) (mp_risk_class p) (mp_discovery p) (mp_steps p) (mp_readiness p) (mp_blockers p))"

definition mig_plan_digest :: "(mig_digest_input \<Rightarrow> string) \<Rightarrow> mig_plan \<Rightarrow> string" where
  "mig_plan_digest digest p = digest (MigBound (mp_plan_id p) (mp_plan_version p) (mp_base_revision p) (mig_material digest p))"

record planner =
  pr_facts :: facts
  pr_policy :: health_policy
  pr_plan_ttl :: duration
  pr_digest :: "mig_digest_input \<Rightarrow> string"
  pr_short_digest :: "string \<Rightarrow> string"

text \<open>The target's findings and the chosen instances: none are chosen for a provider that is not active.\<close>

definition target_part ::
  "planner \<Rightarrow> mig_input \<Rightarrow> source_binding list \<Rightarrow> string list \<Rightarrow> mig_error + (mig_finding list \<times> (string \<Rightarrow> string))" where
  "target_part pl inp bs keys =
    (let r = mi_request inp in
     case fa_provider (pr_facts pl) (mr_target_provider_key r) of
       Inl e \<Rightarrow> Inl (FactsUnavailable e)
     | Inr p \<Rightarrow>
         (case (case p of Some q \<Rightarrow> if is_active (mv_status q) then Some q else None | None \<Rightarrow> None) of
            None \<Rightarrow> Inr ([BlockTargetNotRegistered], \<lambda>_. [])
          | Some q \<Rightarrow>
              (case fa_provider_instances (pr_facts pl) (mr_target_provider_key r) keys of
                 Inl e \<Rightarrow> Inl (FactsUnavailable e)
               | Inr is \<Rightarrow>
                   let is = sort_key mn_engine_instance_id is in
                   Inr (support_findings r bs q @ serve_findings r (pr_policy pl) bs is (mi_now inp),
                        choose_instances (pr_policy pl) is (mi_now inp) bs (\<lambda>_. [])))))"

text \<open>The checks every plan carries; evaluation leaves their texts folded.\<close>

definition target_isolation_check :: "string \<times> string" where [code del]:
  "target_isolation_check = (''TARGET_ISOLATION_COMPATIBLE'', ''Every target instance serves each cohort's region and environment.'')"

definition target_healthy_check :: "string \<times> string" where [code del]:
  "target_healthy_check = (''TARGET_HEALTHY'', ''Every target instance a cohort moves to has a current HEALTHY observation.'')"

definition unsealed_mig_plan ::
  "planner \<Rightarrow> mig_input \<Rightarrow> source_binding list \<Rightarrow> mig_finding list \<Rightarrow> (string \<Rightarrow> string) \<Rightarrow> mig_plan" where
  "unsealed_mig_plan pl inp bs blockers chosen =
    (let r = mi_request inp; ttl = (if pr_plan_ttl pl \<le> 0 then 7 * 24 * hour_ns else pr_plan_ttl pl) in
     \<lparr>mp_plan_id = mi_plan_id inp, mp_plan_version = mi_plan_version inp, mp_plan_digest = [],
      mp_base_revision = mi_base_revision inp, mp_generated_at = mi_now inp, mp_expires_at = mi_now inp + ttl,
      mp_risk_class = mig_risk_of r, mp_provider_migration_id = mi_provider_migration_id inp, mp_request = r,
      mp_source_provider_key = mr_source_provider_key r, mp_target_provider_key = mr_target_provider_key r,
      mp_migration_mode = mr_migration_mode r, mp_discovery = discover r bs, mp_steps = chain_steps [] (plan_specs (pr_short_digest pl) r bs chosen),
      mp_security_checks = [target_isolation_check],
      mp_readiness = target_healthy_check # mr_validation_checks r,
      mp_blockers = collect_blocks blockers, mp_warnings = mig_warnings r bs\<rparr>)"

definition make_plan :: "planner \<Rightarrow> mig_input \<Rightarrow> mig_error + mig_plan" where
  "make_plan pl inp =
    (let r = mi_request inp; keys = map mc_capability_key (mr_capabilities r) in
     case mig_validate r of
       Some e \<Rightarrow> Inl e
     | None \<Rightarrow>
         (case fa_source_bindings (pr_facts pl) (mr_source_provider_key r) keys of
            Inl e \<Rightarrow> Inl (FactsUnavailable e)
          | Inr found \<Rightarrow>
              let bs = sort_key sb_binding_id found in
              (case fa_open_migrations (pr_facts pl) (mr_source_provider_key r) keys of
                 Inl e \<Rightarrow> Inl (FactsUnavailable e)
               | Inr opened \<Rightarrow>
                   (case target_part pl inp bs keys of
                      Inl e \<Rightarrow> Inl e
                    | Inr (target_findings, chosen) \<Rightarrow>
                        let p = unsealed_mig_plan pl inp bs
                              (unbound_findings r bs @ version_findings r bs @
                               map BlockAlreadyInProgress (filter (\<lambda>i. i \<noteq> mi_provider_migration_id inp) opened) @
                               target_findings @ (if mr_shadow r then [BlockShadowUnsafe] else []) @
                               cohort_findings (mr_cohorts r) bs) chosen in
                        Inr (p\<lparr>mp_plan_digest := mig_plan_digest (pr_digest pl) p\<rparr>)))))"

section \<open>A plan without blockers\<close>

lemma foldl_add_block: "set (foldl add_block acc fs) = set acc \<union> set fs"
  by (induction fs arbitrary: acc) (auto simp: add_block_def)

lemma no_blockers: "collect_blocks fs = [] \<longleftrightarrow> fs = []"
  using foldl_add_block [of "[]" fs] by (cases fs) (auto simp: collect_blocks_def)

lemma unsealed_plan_fields:
  "mp_blockers (unsealed_mig_plan pl inp bs blockers chosen) = collect_blocks blockers"
  "mp_steps (unsealed_mig_plan pl inp bs blockers chosen) =
    chain_steps [] (plan_specs (pr_short_digest pl) (mi_request inp) bs chosen)"
  "mp_request (unsealed_mig_plan pl inp bs blockers chosen) = mi_request inp"
  by (simp_all add: unsealed_mig_plan_def Let_def)

lemma chain_steps_specs:
  "map (\<lambda>s. (ms_step_id s, ms_operation s, ms_resources s, ms_irreversible s)) (chain_steps previous ss) =
     map (\<lambda>s. (sc_id s, sc_op s, sc_resources s, sc_irreversible s)) ss"
  by (induction ss arbitrary: previous) simp_all

lemma chain_steps_ex:
  "(\<exists>s \<in> set (chain_steps previous ss). P (ms_operation s) (ms_resources s)) \<longleftrightarrow> (\<exists>s \<in> set ss. P (sc_op s) (sc_resources s))"
  by (induction ss arbitrary: previous) auto

lemma cohorts_error_None:
  "cohorts_error seen cs = None \<Longrightarrow> distinct (map co_cohort_key cs) \<and> set (map co_cohort_key cs) \<inter> set seen = {}"
proof (induction cs arbitrary: seen)
  case (Cons c cs)
  from Cons.prems have "co_cohort_key c \<notin> set seen" "cohorts_error (co_cohort_key c # seen) cs = None"
    by (auto split: if_splits)
  with Cons.IH [of "co_cohort_key c # seen"] show ?case by auto
qed simp

lemma serve_Serves:
  assumes "serve hp b is now = Serves k"
  shows "\<exists>i \<in> set is. mn_engine_instance_id i = k \<and> located_at b i \<and>
    hd_eligible (evaluate_health hp CriticalityCritical (mn_health i (sb_capability_key b)) now)"
proof -
  have "serve_loop hp b now l is = Serves k \<Longrightarrow> ?thesis" for l
    by (induction "is" arbitrary: l) (auto split: if_splits)
  with assms show ?thesis by (simp add: serve_def)
qed

lemma choose_instances_other:
  "k \<notin> sb_binding_id ` set bs \<Longrightarrow> choose_instances hp is now bs chosen k = chosen k"
  by (induction bs arbitrary: chosen) (auto split: serve_result.splits)

lemma choose_instances_serves:
  "distinct (map sb_binding_id bs) \<Longrightarrow> b \<in> set bs \<Longrightarrow> serve hp b is now = Serves k \<Longrightarrow>
    choose_instances hp is now bs chosen (sb_binding_id b) = k"
  by (induction bs arbitrary: chosen) (auto simp: choose_instances_other split: serve_result.splits)

lemma make_plan_Inr:
  assumes "make_plan pl inp = Inr p" and "mp_blockers p = []"
    and "fa_source_bindings (pr_facts pl) (mr_source_provider_key (mi_request inp))
      (map mc_capability_key (mr_capabilities (mi_request inp))) = Inr found"
  obtains q "is" where "fa_provider (pr_facts pl) (mr_target_provider_key (mi_request inp)) = Inr (Some q)"
    and "is_active (mv_status q)"
    and "fa_provider_instances (pr_facts pl) (mr_target_provider_key (mi_request inp))
      (map mc_capability_key (mr_capabilities (mi_request inp))) = Inr is"
    and "serve_findings (mi_request inp) (pr_policy pl) (sort_key sb_binding_id found) (sort_key mn_engine_instance_id is) (mi_now inp) = []"
    and "cohort_findings (mr_cohorts (mi_request inp)) (sort_key sb_binding_id found) = []"
    and "mig_validate (mi_request inp) = None"
    and "mp_steps p = chain_steps [] (plan_specs (pr_short_digest pl) (mi_request inp) (sort_key sb_binding_id found)
      (choose_instances (pr_policy pl) (sort_key mn_engine_instance_id is) (mi_now inp) (sort_key sb_binding_id found) (\<lambda>_. [])))"
  using assms
  by (auto simp: make_plan_def target_part_def Let_def unsealed_plan_fields no_blockers split: option.splits sum.splits if_splits)

lemma assign_cohort_bound:
  assumes "assign_cohort cs b = Inr i"
  shows "i < length cs"
proof -
  let ?matched = "filter (\<lambda>i. cohort_matches (cs ! i) b) [0..<length cs]"
  have "hd ?matched < length cs" if "length ?matched = 1"
  proof -
    from that have "hd ?matched \<in> set ?matched" by (intro hd_in_set) auto
    then show ?thesis by auto
  qed
  with assms show ?thesis by (auto simp: assign_cohort_def Let_def split: if_splits)
qed

lemma cohort_findings_None:
  assumes "cohort_findings cs bs = []" and "b \<in> set bs"
  obtains i where "assign_cohort cs b = Inr i" and "i < length cs"
proof -
  from assms obtain i where "assign_cohort cs b = Inr i"
    by (cases "assign_cohort cs b") (auto simp: cohort_findings_def split: sum.splits)
  with that assign_cohort_bound show thesis by blast
qed

lemma shift_op: "OpShiftCohort \<in> set (cohort_ops r)"
  by (simp add: cohort_ops_def stateful_sequence_def)

lemma cohort_ops_cases:
  "op \<in> set (cohort_ops r) \<Longrightarrow> op \<in> set stateful_sequence \<or> op = OpValidateCohort"
  by (auto simp: cohort_ops_def stateful_sequence_def split: if_splits)

text \<open>The plan's SHIFT_COHORT steps are the cohorts', one each with the ids of its members.\<close>

lemma bind_specs_op: "s \<in> set (bind_specs sd r bs chosen c) \<Longrightarrow> sc_op s = OpCreateMigrationBinding"
  by (auto simp: bind_specs_def Let_def)

lemma cohort_specs_shift:
  "(\<exists>s \<in> set (cohort_specs sd r c ms). sc_op s = OpShiftCohort \<and> P (sc_resources s)) \<longleftrightarrow> P (cohort_resources r c ms)"
  using shift_op [of r] by (auto simp: cohort_specs_def)

lemma part_ops:
  "s \<in> set (prepare_specs sd r bs chosen) \<Longrightarrow> sc_op s \<in> {OpVerifyTargetReadiness, OpCreateMigrationBinding}"
  "s \<in> set (shadow_specs r) \<Longrightarrow> sc_op s \<in> {OpStartShadow, OpStopShadow}"
  "s \<in> set (retire_specs sd r bs) \<Longrightarrow> sc_op s = OpRetireSourceBinding"
  by (auto simp: prepare_specs_def shadow_specs_def retire_specs_def dest: bind_specs_op split: if_splits)

lemma shift_specs:
  "(\<exists>s \<in> set (plan_specs sd r bs chosen). sc_op s = OpShiftCohort \<and> P (sc_resources s)) \<longleftrightarrow>
    (\<exists>i < length (mr_cohorts r). P (cohort_resources r (mr_cohorts r ! i) (members (mr_cohorts r) bs i)))"
proof -
  have "(\<exists>s \<in> set (plan_specs sd r bs chosen). sc_op s = OpShiftCohort \<and> P (sc_resources s)) \<longleftrightarrow>
      (\<exists>i < length (mr_cohorts r). \<exists>s \<in> set (cohort_specs sd r (mr_cohorts r ! i) (members (mr_cohorts r) bs i)).
        sc_op s = OpShiftCohort \<and> P (sc_resources s))"
    unfolding plan_specs_def set_append bex_Un using part_ops by fastforce
  then show ?thesis by (simp add: cohort_specs_shift)
qed

lemma cohort_resources_fields:
  "me_cohort_key (cohort_resources r c ms) = co_cohort_key c"
  "me_binding_ids (cohort_resources r c ms) = sort (map sb_binding_id ms)"
  by (simp_all add: cohort_resources_def)

lemma bind_specs_ex:
  assumes "b \<in> set bs" and "c \<in> set (mr_capabilities r)" and "sb_capability_key b = mc_capability_key c"
    and "chosen (sb_binding_id b) = i" and "i \<noteq> []"
  shows "\<exists>s \<in> set (plan_specs sd r bs chosen). sc_op s = OpCreateMigrationBinding \<and> me_engine_instance_id (sc_resources s) = i \<and>
    sb_binding_id b \<in> set (me_binding_ids (sc_resources s))"
proof -
  let ?moving = "filter (\<lambda>b. chosen (sb_binding_id b) \<noteq> []) (bindings_of bs c)"
  from assms have b: "b \<in> set ?moving" by (simp add: bindings_of_def)
  with assms(4) have "i \<in> set (sorted_keys (map (\<lambda>b. chosen (sb_binding_id b)) ?moving))" by (force simp: sorted_keys_def)
  moreover from b assms(4) have "sb_binding_id b \<in> set (map sb_binding_id (filter (\<lambda>b. chosen (sb_binding_id b) = i) ?moving))" by auto
  ultimately have "\<exists>s \<in> set (bind_specs sd r bs chosen c). sc_op s = OpCreateMigrationBinding \<and>
      me_engine_instance_id (sc_resources s) = i \<and> sb_binding_id b \<in> set (me_binding_ids (sc_resources s))"
    unfolding bind_specs_def Let_def by (auto intro!: bexI [of _ i])
  with assms(2) show ?thesis by (auto simp: plan_specs_def prepare_specs_def)
qed

text \<open>The cohort a binding is assigned to is the only one whose shift names it.\<close>

lemma shifted_once:
  assumes "distinct (map sb_binding_id bs)" and "b \<in> set bs" and "cohort_findings (mr_cohorts r) bs = []"
    and steps: "steps = chain_steps [] (plan_specs sd r bs chosen)"
  shows "\<exists>!k. \<exists>s \<in> set steps. ms_operation s = OpShiftCohort \<and> me_cohort_key (ms_resources s) = k \<and>
    sb_binding_id b \<in> set (me_binding_ids (ms_resources s))"
proof -
  let ?cs = "mr_cohorts r"
  have shift: "(\<exists>s \<in> set steps. ms_operation s = OpShiftCohort \<and> me_cohort_key (ms_resources s) = x \<and>
      sb_binding_id b \<in> set (me_binding_ids (ms_resources s))) \<longleftrightarrow>
      (\<exists>j < length ?cs. co_cohort_key (?cs ! j) = x \<and> sb_binding_id b \<in> sb_binding_id ` set (members ?cs bs j))" for x
    unfolding steps chain_steps_ex [where P = "\<lambda>op res. op = OpShiftCohort \<and> me_cohort_key res = x \<and>
      sb_binding_id b \<in> set (me_binding_ids res)"] shift_specs [where P = "\<lambda>res. me_cohort_key res = x \<and>
      sb_binding_id b \<in> set (me_binding_ids res)"] by (simp add: cohort_resources_fields)
  from assms(3,2) obtain j where j: "assign_cohort ?cs b = Inr j" "j < length ?cs"
    by (rule cohort_findings_None)
  have only: "sb_binding_id b \<in> sb_binding_id ` set (members ?cs bs j') \<longleftrightarrow> j' = j" for j'
  proof
    have inj: "inj_on sb_binding_id (set bs)" using assms(1) unfolding distinct_map by blast
    assume "sb_binding_id b \<in> sb_binding_id ` set (members ?cs bs j')"
    then obtain b' where b': "b' \<in> set bs" "assign_cohort ?cs b' = Inr j'" "sb_binding_id b = sb_binding_id b'"
      unfolding members_def by auto
    from inj_onD [OF inj b'(3) assms(2) b'(1)] b'(2) j(1) show "j' = j" by simp
  next
    assume "j' = j"
    then have "b \<in> set (members ?cs bs j')" using assms(2) j(1) unfolding members_def by simp
    then show "sb_binding_id b \<in> sb_binding_id ` set (members ?cs bs j')" by (rule imageI)
  qed
  show ?thesis unfolding shift only using j(2) by blast
qed

text \<open>A binding of a requested capability without a serving finding is bound to the instance that serves it.\<close>

lemma served_and_bound:
  assumes "distinct (map sb_binding_id bs)" and b: "b \<in> set bs"
    and c: "c \<in> set (mr_capabilities r)" "sb_capability_key b = mc_capability_key c"
    and sf: "serve_findings r hp bs is now = []" and ids: "list_all (\<lambda>i. mn_engine_instance_id i \<noteq> []) is"
    and steps: "steps = chain_steps [] (plan_specs sd r bs (choose_instances hp is now bs (\<lambda>_. [])))"
  obtains i where "i \<in> set is" and "located_at b i"
    and "hd_eligible (evaluate_health hp CriticalityCritical (mn_health i (sb_capability_key b)) now)"
    and "\<exists>s \<in> set steps. ms_operation s = OpCreateMigrationBinding \<and>
      me_engine_instance_id (ms_resources s) = mn_engine_instance_id i \<and> sb_binding_id b \<in> set (me_binding_ids (ms_resources s))"
proof -
  let ?chosen = "choose_instances hp is now bs (\<lambda>_. [])"
  have "serve hp b is now \<noteq> ServeNotEligible" "serve hp b is now \<noteq> ServeUnhealthy"
    using sf c b by (auto simp: serve_findings_def list_ex_iff split: if_splits)
  then obtain k where k: "serve hp b is now = Serves k" by (cases "serve hp b is now") auto
  from serve_Serves [OF k] obtain i where i: "i \<in> set is" "mn_engine_instance_id i = k" "located_at b i"
    "hd_eligible (evaluate_health hp CriticalityCritical (mn_health i (sb_capability_key b)) now)" by auto
  have "?chosen (sb_binding_id b) = k" by (rule choose_instances_serves [OF assms(1) b k])
  moreover have "k \<noteq> []" using i(1,2) ids by (auto simp: list_all_iff)
  ultimately have "\<exists>s \<in> set steps. ms_operation s = OpCreateMigrationBinding \<and>
      me_engine_instance_id (ms_resources s) = k \<and> sb_binding_id b \<in> set (me_binding_ids (ms_resources s))"
    using bind_specs_ex [OF b c, of ?chosen k sd] unfolding steps
    by (subst chain_steps_ex [where P = "\<lambda>op res. op = OpCreateMigrationBinding \<and> me_engine_instance_id res = k \<and>
      sb_binding_id b \<in> set (me_binding_ids res)"]) blast
  with i that show thesis by blast
qed

text \<open>
  C13 (a plan without blockers moves every binding once, to healthy ground). Assume the policy
  loads, the planner reads the source bindings of the requested capabilities with distinct
  identifiers, and target instances have identifiers. If the plan has no blockers, then for every
  discovered binding: exactly one cohort's SHIFT_COHORT step names it; and some binding step
  assigns it to a target instance that is ACTIVE, in the environment and region its scope names,
  and of which every observation held, the engine instance's always among them, is HEALTHY and
  current at planning time.
\<close>

theorem unblocked_plan_sound:
  assumes plan: "make_plan pl inp = Inr p" "mp_blockers p = []"
    and policy: "parse_policy doc = Inr (pr_policy pl)"
    and found: "fa_source_bindings (pr_facts pl) (mr_source_provider_key (mi_request inp))
      (map mc_capability_key (mr_capabilities (mi_request inp))) = Inr found"
    and wf: "distinct (map sb_binding_id found)"
      "list_all (\<lambda>b. sb_capability_key b \<in> set (map mc_capability_key (mr_capabilities (mi_request inp)))) found"
    and inst: "fa_provider_instances (pr_facts pl) (mr_target_provider_key (mi_request inp))
      (map mc_capability_key (mr_capabilities (mi_request inp))) = Inr is" "list_all (\<lambda>i. mn_engine_instance_id i \<noteq> []) is"
    and b: "b \<in> set found"
  shows "(\<exists>!k. \<exists>s \<in> set (mp_steps p). ms_operation s = OpShiftCohort \<and> me_cohort_key (ms_resources s) = k \<and>
      sb_binding_id b \<in> set (me_binding_ids (ms_resources s))) \<and>
    (\<exists>i \<in> set is. located_at b i \<and> lv_engine_instance (mn_health i (sb_capability_key b)) \<noteq> None \<and>
      list_all (\<lambda>x. ob_status x = StatusHealthy \<and> ob_observed_at x \<le> mi_now inp \<and> mi_now inp < ob_expires_at x)
        (held (mn_health i (sb_capability_key b))) \<and>
      (\<exists>s \<in> set (mp_steps p). ms_operation s = OpCreateMigrationBinding \<and>
        me_engine_instance_id (ms_resources s) = mn_engine_instance_id i \<and> sb_binding_id b \<in> set (me_binding_ids (ms_resources s))))"
  using plan found
proof (rule make_plan_Inr)
  fix q and is' :: "mig_instance list"
  let ?r = "mi_request inp" and ?bs = "sort_key sb_binding_id found" and ?is = "sort_key mn_engine_instance_id is'"
    and ?hp = "pr_policy pl" and ?now = "mi_now inp"
  assume is': "fa_provider_instances (pr_facts pl) (mr_target_provider_key ?r) (map mc_capability_key (mr_capabilities ?r)) = Inr is'"
    and sf: "serve_findings ?r ?hp ?bs ?is ?now = []" and cf: "cohort_findings (mr_cohorts ?r) ?bs = []"
    and steps: "mp_steps p = chain_steps [] (plan_specs (pr_short_digest pl) ?r ?bs (choose_instances ?hp ?is ?now ?bs (\<lambda>_. [])))"
  have bs: "b \<in> set ?bs" "distinct (map sb_binding_id ?bs)" using b wf(1) by (auto simp: distinct_map)
  from wf(2) b obtain c where c: "c \<in> set (mr_capabilities ?r)" "sb_capability_key b = mc_capability_key c"
    by (auto simp: list_all_iff)
  have ids: "list_all (\<lambda>i. mn_engine_instance_id i \<noteq> []) ?is" using inst is' by (simp add: list_all_iff)
  from served_and_bound [OF bs(2,1) c sf ids steps] obtain i where i: "i \<in> set ?is" "located_at b i"
    "hd_eligible (evaluate_health ?hp CriticalityCritical (mn_health i (sb_capability_key b)) ?now)"
    "\<exists>s \<in> set (mp_steps p). ms_operation s = OpCreateMigrationBinding \<and>
      me_engine_instance_id (ms_resources s) = mn_engine_instance_id i \<and> sb_binding_id b \<in> set (me_binding_ids (ms_resources s))" .
  from i(1) inst(1) is' have "i \<in> set is" by simp
  with i(2,4) critical_health [OF policy i(3)] shifted_once [OF bs(2,1) cf steps] show ?thesis by blast
qed

definition ex_binding :: source_binding where
  "ex_binding = \<lparr>sb_binding_id = ''b1'', sb_capability_key = ''erp'', sb_contract_version = 1, sb_tenant_id = ''t1'',
     sb_legal_entity_id = [], sb_estate_id = [], sb_markets = [], sb_region = ''af'', sb_environment = ''prod''\<rparr>"

definition ex_instance :: mig_instance where
  "ex_instance = \<lparr>mn_engine_instance_id = ''i1'', mn_region = ''af'', mn_environment = ''prod'', mn_status = ''ACTIVE'',
     mn_health = (\<lambda>_. ex_levels StatusHealthy)\<rparr>"

definition ex_request :: "migration_mode \<Rightarrow> rollback_strategy \<Rightarrow> mig_request" where
  "ex_request m rs = \<lparr>mr_source_provider_key = ''old'', mr_target_provider_key = ''new'',
     mr_capabilities = [\<lparr>mc_capability_key = ''erp'', mc_contract_version = 1\<rparr>], mr_migration_mode = m,
     mr_data_strategy = [], mr_rollback_strategy = rs, mr_shadow = False,
     mr_cohorts = [\<lparr>co_cohort_key = ''all'', co_selector = None\<rparr>], mr_validation_checks = [], mr_cutover_window = None,
     mr_owners = [], mr_reason = []\<rparr>"

definition ex_planner :: planner where
  "ex_planner = \<lparr>pr_facts = \<lparr>fa_source_bindings = (\<lambda>_ _. Inr [ex_binding]),
       fa_provider = (\<lambda>_. Inr (Some \<lparr>mv_status = ''active'', mv_support = (\<lambda>_. Some [1])\<rparr>)),
       fa_provider_instances = (\<lambda>_ _. Inr [ex_instance]), fa_open_migrations = (\<lambda>_ _. Inr [])\<rparr>,
     pr_policy = ex_health_policy, pr_plan_ttl = 0, pr_digest = (\<lambda>_. ''d''), pr_short_digest = (\<lambda>_. ''s'')\<rparr>"

definition ex_input :: "migration_mode \<Rightarrow> rollback_strategy \<Rightarrow> mig_input" where
  "ex_input m rs = \<lparr>mi_request = ex_request m rs, mi_provider_migration_id = ''m1'', mi_plan_id = ''p1'', mi_plan_version = 1,
     mi_base_revision = 1, mi_now = 15\<rparr>"

definition ex_plan :: "migration_mode \<Rightarrow> rollback_strategy \<Rightarrow> mig_plan" where
  "ex_plan m rs = projr (make_plan ex_planner (ex_input m rs))"

lemma ex_plan_ok:
  "make_plan ex_planner (ex_input ModeStatelessRebind RollbackRebindSource) = Inr (ex_plan ModeStatelessRebind RollbackRebindSource)"
  "mp_blockers (ex_plan ModeStatelessRebind RollbackRebindSource) = []"
  by code_simp+

theorem unblocked_plan_sound_witness:
  "\<exists>i \<in> {ex_instance}. located_at ex_binding i \<and> lv_engine_instance (mn_health i ''erp'') \<noteq> None"
proof -
  let ?in = "ex_input ModeStatelessRebind RollbackRebindSource"
  have policy: "parse_policy health_document = Inr (pr_policy ex_planner)" by (simp add: ex_planner_def ex_health_policy_ok)
  have found: "fa_source_bindings (pr_facts ex_planner) k ks = Inr [ex_binding]"
    "fa_provider_instances (pr_facts ex_planner) k ks = Inr [ex_instance]" for k ks by (simp_all add: ex_planner_def)
  have wf: "distinct (map sb_binding_id [ex_binding])"
    "list_all (\<lambda>b. sb_capability_key b \<in> set (map mc_capability_key (mr_capabilities (mi_request ?in)))) [ex_binding]"
    "list_all (\<lambda>i. mn_engine_instance_id i \<noteq> []) [ex_instance]" "sb_capability_key ex_binding = ''erp''"
    by (simp_all add: ex_input_def ex_request_def ex_binding_def ex_instance_def)
  from unblocked_plan_sound [OF ex_plan_ok policy found(1) wf(1,2) found(2) wf(3), of ex_binding] wf(4)
  show ?thesis by simp
qed

end
