(* ===== verification/Migration_Run.thy ===== *)
theory Migration_Run
  imports Migration_Plan
begin

text \<open>
  The provider migration lifecycle (\<open>internal/topology/migration/lifecycle.go\<close>, \<open>task.go\<close>): the
  stages and transitions of the embedded \<open>control-plane/v1/provider-migration-lifecycle.yaml\<close>, the
  operations each transition runs, the engine steps with their roles, and \<open>Select\<close>, which picks
  the approved plan's steps of one transition.

  The lemmas interpret the document as a \<open>live_table\<close>, show that a migration completes only through
  preparation, canary, validation and retirement, and that the transitions of a whole migration
  select every step of a plan exactly once and in the plan's order.
\<close>

section \<open>Stages and transitions\<close>

datatype mig_stage =
    StagePlan | StagePrepare | StageShadow | StageCanary | StageShift | StageValidate | StageRetireOld
  | StageComplete | StageCancelled | StageRolledBack | StageOther string

datatype mig_transition =
    TransitionPrepare | TransitionShadow | TransitionCanary | TransitionShift | TransitionValidate
  | TransitionRetireOld | TransitionComplete | TransitionCancel | TransitionRollBack | TransitionReplan
  | TransitionOther string

text \<open>The \<open>states\<close> of the document.\<close>

fun mig_states :: "mig_stage \<Rightarrow> (mig_transition \<times> mig_stage) list option" where
  "mig_states StagePlan = Some [(TransitionReplan, StagePlan), (TransitionPrepare, StagePrepare), (TransitionCancel, StageCancelled)]"
| "mig_states StagePrepare = Some [(TransitionShadow, StageShadow), (TransitionCanary, StageCanary), (TransitionCancel, StageCancelled)]"
| "mig_states StageShadow = Some [(TransitionCanary, StageCanary), (TransitionCancel, StageCancelled)]"
| "mig_states StageCanary = Some [(TransitionValidate, StageValidate), (TransitionRollBack, StageRolledBack)]"
| "mig_states StageShift = Some [(TransitionValidate, StageValidate), (TransitionRollBack, StageRolledBack)]"
| "mig_states StageValidate = Some [(TransitionShift, StageShift), (TransitionRetireOld, StageRetireOld), (TransitionRollBack, StageRolledBack)]"
| "mig_states StageRetireOld = Some [(TransitionComplete, StageComplete)]"
| "mig_states _ = None"

datatype transition_error = HasEnded mig_stage | NoTransition mig_transition mig_stage | RunsNoSteps mig_transition | NoCohort

definition mig_next :: "mig_stage \<Rightarrow> mig_transition \<Rightarrow> transition_error + mig_stage" where
  "mig_next s t =
    (case mig_states s of
       None \<Rightarrow> Inl (HasEnded s)
     | Some ts \<Rightarrow>
         (case map_of ts t of
            None \<Rightarrow> Inl (NoTransition t s)
          | Some s' \<Rightarrow> if t = TransitionReplan then Inl (NoTransition t s) else Inr s'))"

definition mig_terminal :: "mig_stage \<Rightarrow> bool" where
  "mig_terminal s \<longleftrightarrow> s = StageComplete \<or> s = StageCancelled \<or> s = StageRolledBack"

definition forward :: "mig_transition \<Rightarrow> bool" where
  "forward t \<longleftrightarrow> t \<noteq> TransitionCancel \<and> t \<noteq> TransitionRollBack"

definition moves_authority :: "mig_transition \<Rightarrow> bool" where
  "moves_authority t \<longleftrightarrow> t = TransitionCanary \<or> t = TransitionShift"

section \<open>What a transition runs\<close>

datatype step_scope = ScopeMigration | ScopeFirstCohort | ScopeCurrentCohort | ScopeNextCohort

text \<open>\<open>stage_steps\<close>.\<close>

fun stage_steps :: "mig_transition \<Rightarrow> (step_scope \<times> mig_op list) option" where
  "stage_steps TransitionPrepare = Some (ScopeMigration, [OpVerifyTargetReadiness, OpCreateMigrationBinding])"
| "stage_steps TransitionShadow = Some (ScopeMigration, [OpStartShadow])"
| "stage_steps TransitionCanary = Some (ScopeFirstCohort, [OpStopShadow, OpFreezeCohortWrites, OpMigrateCohortData,
     OpReconcileCohortData, OpShiftCohort, OpUnfreezeCohortWrites])"
| "stage_steps TransitionValidate = Some (ScopeCurrentCohort, [OpValidateCohort])"
| "stage_steps TransitionShift = Some (ScopeNextCohort, [OpFreezeCohortWrites, OpMigrateCohortData, OpReconcileCohortData,
     OpShiftCohort, OpUnfreezeCohortWrites])"
| "stage_steps TransitionRetireOld = Some (ScopeMigration, [OpRetireSourceBinding])"
| "stage_steps TransitionComplete = Some (ScopeMigration, [])"
| "stage_steps _ = None"

datatype role = RoleSource | RoleTarget
datatype direction = DirectionForward | DirectionReverse

text \<open>\<open>engine_steps\<close>: the roles that perform an operation forward and in reverse.\<close>

fun engine_steps :: "mig_op \<Rightarrow> (role list \<times> role list) option" where
  "engine_steps OpFreezeCohortWrites = Some ([RoleSource], [RoleTarget])"
| "engine_steps OpMigrateCohortData = Some ([RoleTarget], [RoleSource])"
| "engine_steps OpReconcileCohortData = Some ([RoleSource, RoleTarget], [RoleSource, RoleTarget])"
| "engine_steps OpUnfreezeCohortWrites = Some ([RoleTarget], [RoleSource])"
| "engine_steps _ = None"

definition engine_operation :: "mig_op \<Rightarrow> bool" where
  "engine_operation op \<longleftrightarrow> engine_steps op \<noteq> None"

definition roles :: "mig_op \<Rightarrow> direction \<Rightarrow> role list" where
  "roles op d = (case engine_steps op of None \<Rightarrow> [] | Some (f, r) \<Rightarrow> if d = DirectionReverse then r else f)"

definition rollback_release :: "mig_op list" where
  "rollback_release = [OpUnfreezeCohortWrites]"

fun rollback_ops :: "rollback_strategy \<Rightarrow> mig_op list" where
  "rollback_ops RollbackRebindSource = [OpFreezeCohortWrites, OpShiftCohort, OpUnfreezeCohortWrites]"
| "rollback_ops RollbackRestoreAndRebind = [OpFreezeCohortWrites, OpMigrateCohortData, OpReconcileCohortData, OpShiftCohort,
     OpUnfreezeCohortWrites]"
| "rollback_ops _ = []"

definition cancel_compensation :: "mig_op list" where
  "cancel_compensation = [OpStopShadow, OpRemoveMigrationBinding]"

section \<open>Selecting the steps of a transition\<close>

definition cohort_keys :: "mig_plan \<Rightarrow> string list" where
  "cohort_keys p = map co_cohort_key (mr_cohorts (mp_request p))"

fun following :: "string list \<Rightarrow> string \<Rightarrow> string option" where
  "following (k # l # ks) c = (if k = c then Some l else following (l # ks) c)"
| "following _ c = None"

definition selected_cohort :: "step_scope \<Rightarrow> mig_plan \<Rightarrow> string \<Rightarrow> transition_error + string" where
  "selected_cohort sc p current =
    (case sc of
       ScopeMigration \<Rightarrow> Inr []
     | ScopeFirstCohort \<Rightarrow> (case cohort_keys p of [] \<Rightarrow> Inl NoCohort | k # _ \<Rightarrow> Inr k)
     | ScopeCurrentCohort \<Rightarrow> if current = [] then Inl NoCohort else Inr current
     | ScopeNextCohort \<Rightarrow> (case following (cohort_keys p) current of None \<Rightarrow> Inl NoCohort | Some k \<Rightarrow> Inr k))"

definition in_selection :: "step_scope \<Rightarrow> mig_op list \<Rightarrow> string \<Rightarrow> mig_step \<Rightarrow> bool" where
  "in_selection sc ops k s \<longleftrightarrow> ms_operation s \<in> set ops \<and>
     (if sc \<noteq> ScopeMigration then me_cohort_key (ms_resources s) = k \<or> ms_operation s = OpStopShadow
      else me_cohort_key (ms_resources s) = [])"

text \<open>\<open>Select\<close>: the cohort a forward transition moves and the plan's steps it runs.\<close>

definition select_steps :: "mig_plan \<Rightarrow> string \<Rightarrow> mig_transition \<Rightarrow> transition_error + (string \<times> mig_step list)" where
  "select_steps p current t =
    (case stage_steps t of
       None \<Rightarrow> Inl (RunsNoSteps t)
     | Some (sc, ops) \<Rightarrow>
         (case selected_cohort sc p current of
            Inl e \<Rightarrow> Inl e
          | Inr k \<Rightarrow> Inr (k, filter (in_selection sc ops k) (mp_steps p))))"

definition last_cohort :: "mig_plan \<Rightarrow> string \<Rightarrow> bool" where
  "last_cohort p k \<longleftrightarrow> cohort_keys p \<noteq> [] \<and> last (cohort_keys p) = k"

section \<open>The lifecycle is live and ordered\<close>

definition mig_table :: "mig_stage \<Rightarrow> mig_transition \<Rightarrow> mig_stage option" where
  "mig_table s t = (case mig_next s t of Inl _ \<Rightarrow> None | Inr s' \<Rightarrow> Some s')"

definition mig_known :: "mig_stage \<Rightarrow> bool" where
  "mig_known s \<longleftrightarrow> mig_states s \<noteq> None \<or> mig_terminal s"

fun mig_rank :: "mig_stage \<Rightarrow> nat" where
  "mig_rank StagePlan = 1"
| "mig_rank StagePrepare = 1"
| "mig_rank StageShadow = 1"
| "mig_rank StageCanary = 1"
| "mig_rank StageShift = 1"
| "mig_rank StageValidate = 1"
| "mig_rank StageRetireOld = 1"
| "mig_rank _ = 0"

lemmas mig_table_defs = mig_table_def mig_next_def

lemma mig_table_cases:
  assumes "mig_table s t = Some s'"
  shows "(s, t, s') \<in> {(StagePlan, TransitionPrepare, StagePrepare), (StagePlan, TransitionCancel, StageCancelled),
    (StagePrepare, TransitionShadow, StageShadow), (StagePrepare, TransitionCanary, StageCanary),
    (StagePrepare, TransitionCancel, StageCancelled), (StageShadow, TransitionCanary, StageCanary),
    (StageShadow, TransitionCancel, StageCancelled), (StageCanary, TransitionValidate, StageValidate),
    (StageCanary, TransitionRollBack, StageRolledBack), (StageShift, TransitionValidate, StageValidate),
    (StageShift, TransitionRollBack, StageRolledBack), (StageValidate, TransitionShift, StageShift),
    (StageValidate, TransitionRetireOld, StageRetireOld), (StageValidate, TransitionRollBack, StageRolledBack),
    (StageRetireOld, TransitionComplete, StageComplete)}"
  using assms by (cases s; cases t) (simp_all add: mig_table_defs)

interpretation mt: live_table mig_table mig_terminal mig_known mig_rank
proof
  show "mig_table s t = None" if "mig_terminal s" for s t
    using that by (auto simp: mig_table_defs mig_terminal_def)
next
  fix s assume "mig_known s" "\<not> mig_terminal s"
  then consider "s \<in> {StagePlan, StagePrepare, StageShadow}" | "s \<in> {StageCanary, StageShift, StageValidate}" | "s = StageRetireOld"
    by (cases s) (simp_all add: mig_known_def mig_terminal_def)
  then show "\<exists>t s'. mig_table s t = Some s' \<and> mig_known s' \<and> mig_rank s' < mig_rank s"
  proof cases
    case 1
    then have "mig_table s TransitionCancel = Some StageCancelled \<and> mig_known StageCancelled \<and> mig_rank StageCancelled < mig_rank s"
      by (auto simp: mig_table_defs mig_known_def mig_terminal_def)
    then show ?thesis by blast
  next
    case 2
    then have "mig_table s TransitionRollBack = Some StageRolledBack \<and> mig_known StageRolledBack \<and> mig_rank StageRolledBack < mig_rank s"
      by (auto simp: mig_table_defs mig_known_def mig_terminal_def)
    then show ?thesis by blast
  next
    case 3
    then have "mig_table s TransitionComplete = Some StageComplete \<and> mig_known StageComplete \<and> mig_rank StageComplete < mig_rank s"
      by (simp add: mig_table_defs mig_known_def mig_terminal_def)
    then show ?thesis by blast
  qed
qed

section \<open>The transitions of a whole migration select the whole plan\<close>

text \<open>The cohort follows each selection, as in \<open>AdvanceProviderMigration\<close>.\<close>

fun select_run :: "mig_plan \<Rightarrow> string \<Rightarrow> mig_transition list \<Rightarrow> transition_error + mig_step list" where
  "select_run p current [] = Inr []"
| "select_run p current (t # ts) =
    (case select_steps p current t of
       Inl e \<Rightarrow> Inl e
     | Inr (k, ss) \<Rightarrow> (case select_run p k ts of Inl e \<Rightarrow> Inl e | Inr rest \<Rightarrow> Inr (ss @ rest)))"

definition cohort_transitions :: "nat \<Rightarrow> mig_transition list" where
  "cohort_transitions n = concat (replicate n [TransitionShift, TransitionValidate])"

definition whole_run :: "mig_plan \<Rightarrow> mig_transition list" where
  "whole_run p = [TransitionPrepare, TransitionCanary, TransitionValidate] @
     cohort_transitions (length (cohort_keys p) - 1) @ [TransitionRetireOld, TransitionComplete]"

lemma cohort_transitions_Suc: "cohort_transitions (Suc n) = [TransitionShift, TransitionValidate] @ cohort_transitions n"
  by (simp add: cohort_transitions_def)

lemma cohort_transitions_table: "run_table mig_table StageValidate (cohort_transitions n @ ts) = run_table mig_table StageValidate ts"
  by (induction n) (simp_all add: cohort_transitions_Suc cohort_transitions_def mig_table_defs)

text \<open>A plan in its parts: preparation, then the moving and the validating steps of each cohort, then retirement.\<close>

type_synonym segment = "string \<times> mig_step list \<times> mig_step list"

definition segment_steps :: "segment \<Rightarrow> mig_step list" where
  "segment_steps g = fst (snd g) @ snd (snd g)"

definition step_kind :: "mig_op set \<Rightarrow> string \<Rightarrow> mig_step \<Rightarrow> bool" where
  "step_kind ops k s \<longleftrightarrow> ms_operation s \<in> ops \<and> me_cohort_key (ms_resources s) = k"

definition segment_ok :: "segment \<Rightarrow> bool" where
  "segment_ok g \<longleftrightarrow> list_all (step_kind (set stateful_sequence) (fst g)) (fst (snd g)) \<and>
     list_all (step_kind {OpValidateCohort} (fst g)) (snd (snd g))"

definition plan_parts :: "mig_plan \<Rightarrow> mig_step list \<Rightarrow> segment list \<Rightarrow> mig_step list \<Rightarrow> bool" where
  "plan_parts p A gs R \<longleftrightarrow> mp_steps p = A @ concat (map segment_steps gs) @ R \<and> map fst gs = cohort_keys p \<and>
     list_all (step_kind {OpVerifyTargetReadiness, OpCreateMigrationBinding} []) A \<and> list_all segment_ok gs \<and>
     list_all (step_kind {OpRetireSourceBinding} []) R"

lemma filter_none: "(\<And>x. x \<in> set xs \<Longrightarrow> \<not> P x) \<Longrightarrow> filter P xs = []"
  by (simp add: filter_empty_conv)

lemma filter_all: "(\<And>x. x \<in> set xs \<Longrightarrow> P x) \<Longrightarrow> filter P xs = xs"
  by (simp add: filter_id_conv)

lemmas step_kind_simps = in_selection_def step_kind_def segment_ok_def list_all_iff stateful_sequence_def

lemma segment_keyed:
  "segment_ok g \<Longrightarrow> s \<in> set (segment_steps g) \<Longrightarrow>
    me_cohort_key (ms_resources s) = fst g \<and> ms_operation s \<noteq> OpStopShadow"
  by (auto simp: segment_steps_def step_kind_simps)

lemma select_migration:
  assumes "plan_parts p A gs R" and "[] \<notin> set (cohort_keys p)"
  shows "select_steps p c TransitionPrepare = Inr ([], A)" and "select_steps p c TransitionRetireOld = Inr ([], R)"
    and "select_steps p c TransitionComplete = Inr ([], [])"
proof -
  let ?C = "concat (map segment_steps gs)"
  have C: "me_cohort_key (ms_resources s) \<noteq> []" if "s \<in> set ?C" for s
  proof -
    from that obtain g where "g \<in> set gs" "s \<in> set (segment_steps g)" by auto
    moreover from assms(1) have "segment_ok g" if "g \<in> set gs" for g using that by (simp add: plan_parts_def list_all_iff)
    moreover from assms(1) have "map fst gs = cohort_keys p" by (simp add: plan_parts_def)
    with assms(2) have "[] \<notin> set (map fst gs)" by metis
    with \<open>g \<in> set gs\<close> have "fst g \<noteq> []" by force
    ultimately show ?thesis using segment_keyed by metis
  qed
  from assms(1) have steps: "mp_steps p = A @ ?C @ R" and A: "list_all (step_kind {OpVerifyTargetReadiness, OpCreateMigrationBinding} []) A"
    and R: "list_all (step_kind {OpRetireSourceBinding} []) R" by (simp_all add: plan_parts_def)
  have none: "filter (in_selection ScopeMigration ops []) ?C = []" for ops
    using C by (intro filter_none) (simp add: in_selection_def)
  show "select_steps p c TransitionPrepare = Inr ([], A)" "select_steps p c TransitionRetireOld = Inr ([], R)"
      "select_steps p c TransitionComplete = Inr ([], [])"
    unfolding select_steps_def selected_cohort_def steps filter_append stage_steps.simps option.case prod.case sum.case step_scope.case none
    using A R by (auto simp: filter_id_conv filter_empty_conv in_selection_def step_kind_def list_all_iff)
qed

lemma select_segment:
  assumes parts: "plan_parts p A (pre @ g # post) R" and "distinct (cohort_keys p)" and "sc \<noteq> ScopeMigration"
  shows "set ops \<inter> {OpVerifyTargetReadiness, OpCreateMigrationBinding, OpRetireSourceBinding} = {} \<Longrightarrow>
    filter (in_selection sc ops (fst g)) (mp_steps p) = filter (\<lambda>s. ms_operation s \<in> set ops) (segment_steps g)"
proof -
  assume ops: "set ops \<inter> {OpVerifyTargetReadiness, OpCreateMigrationBinding, OpRetireSourceBinding} = {}"
  let ?P = "in_selection sc ops (fst g)"
  from parts have seg: "segment_ok h" if "h \<in> set (pre @ g # post)" for h using that by (auto simp: plan_parts_def list_all_iff)
  from parts assms(2) have "distinct (map fst (pre @ g # post))" by (metis plan_parts_def)
  then have "fst g \<notin> fst ` (set pre \<union> set post)" by auto
  then have other: "fst h \<noteq> fst g" if "h \<in> set pre \<union> set post" for h
    using that by (metis imageI)
  have keyed: "me_cohort_key (ms_resources s) = fst h \<and> ms_operation s \<noteq> OpStopShadow"
    if "h \<in> set (pre @ g # post)" "s \<in> set (segment_steps h)" for h s
    using segment_keyed [OF seg [OF that(1)] that(2)] .
  have out: "filter ?P (segment_steps h) = []" if "h \<in> set pre \<union> set post" for h
    using other [OF that] keyed [of h] that assms(3) by (intro filter_none) (auto simp: in_selection_def)
  have none: "filter ?P (concat (map segment_steps hs)) = []" if "set hs \<subseteq> set pre \<union> set post" for hs
    using that out by (induction hs) auto
  have own: "filter ?P (segment_steps g) = filter (\<lambda>s. ms_operation s \<in> set ops) (segment_steps g)"
    using keyed [of g] assms(3) by (intro filter_cong) (auto simp: in_selection_def)
  have "ms_operation s \<notin> set ops" if "s \<in> set A \<union> set R" for s
    using that parts ops by (auto simp: plan_parts_def list_all_iff step_kind_def)
  then have AR: "filter ?P A = []" "filter ?P R = []" by (auto simp: in_selection_def intro!: filter_none)
  from parts have "mp_steps p = A @ concat (map segment_steps (pre @ g # post)) @ R" by (simp add: plan_parts_def)
  then show "filter ?P (mp_steps p) = filter (\<lambda>s. ms_operation s \<in> set ops) (segment_steps g)"
    by (simp add: AR own none)
qed

lemma select_moves:
  assumes "plan_parts p A (pre @ g # post) R" and "distinct (cohort_keys p)" and "segment_ok g"
    and "t = TransitionCanary \<or> t = TransitionShift" and "stage_steps t = Some (sc, ops)"
  shows "filter (in_selection sc ops (fst g)) (mp_steps p) = fst (snd g)"
proof -
  from assms(4,5) have sc: "sc \<noteq> ScopeMigration" and ops: "set ops \<inter> {OpVerifyTargetReadiness, OpCreateMigrationBinding, OpRetireSourceBinding} = {}"
    and moves: "set stateful_sequence \<subseteq> set ops" "OpValidateCohort \<notin> set ops" by (auto simp: stateful_sequence_def)
  have "filter (\<lambda>s. ms_operation s \<in> set ops) (segment_steps g) = fst (snd g)"
    using assms(3) moves by (auto simp: segment_steps_def segment_ok_def list_all_iff step_kind_def filter_id_conv filter_empty_conv)
  with select_segment [OF assms(1,2) sc ops] show ?thesis by simp
qed

lemma select_validates:
  assumes "plan_parts p A (pre @ g # post) R" and "distinct (cohort_keys p)" and "segment_ok g"
  shows "filter (in_selection ScopeCurrentCohort [OpValidateCohort] (fst g)) (mp_steps p) = snd (snd g)"
proof -
  have "filter (\<lambda>s. ms_operation s \<in> set [OpValidateCohort]) (segment_steps g) = snd (snd g)"
    using assms(3) by (auto simp: segment_steps_def segment_ok_def list_all_iff step_kind_def filter_id_conv filter_empty_conv stateful_sequence_def)
  with select_segment [OF assms(1,2), of ScopeCurrentCohort "[OpValidateCohort]"] show ?thesis by simp
qed

lemma following_next: "distinct (xs @ c # d # ys) \<Longrightarrow> following (xs @ c # d # ys) c = Some d"
proof (induction xs)
  case (Cons x xs)
  then show ?case by (cases xs) auto
qed simp

lemma select_cohorts:
  assumes "distinct (cohort_keys p)" and "[] \<notin> set (cohort_keys p)"
  shows "plan_parts p A (pre @ g # post) R \<Longrightarrow>
    select_run p (fst g) (cohort_transitions (length post) @ [TransitionRetireOld, TransitionComplete]) =
      Inr (concat (map segment_steps post) @ R)"
proof (induction post arbitrary: pre g)
  case Nil
  with assms(2) show ?case by (simp add: cohort_transitions_def select_migration)
next
  case (Cons h post)
  from Cons.prems have keys: "cohort_keys p = map fst pre @ fst g # fst h # map fst post" and ok: "segment_ok h"
    by (simp_all add: plan_parts_def)
  have parts: "plan_parts p A ((pre @ [g]) @ h # post) R" using Cons.prems by simp
  from assms keys have next_key: "following (cohort_keys p) (fst g) = Some (fst h)" and ne: "fst h \<noteq> []"
    using following_next [of "map fst pre" "fst g" "fst h" "map fst post"] by auto
  have shift: "select_steps p (fst g) TransitionShift = Inr (fst h, fst (snd h))"
    using select_moves [OF parts assms(1) ok _ stage_steps.simps(5)] next_key by (simp add: select_steps_def selected_cohort_def)
  have validate: "select_steps p (fst h) TransitionValidate = Inr (fst h, snd (snd h))"
    using select_validates [OF parts assms(1) ok] ne by (simp add: select_steps_def selected_cohort_def)
  show ?case using Cons.IH [OF parts] by (simp add: cohort_transitions_Suc shift validate segment_steps_def)
qed

lemma select_whole:
  assumes "distinct (cohort_keys p)" and "[] \<notin> set (cohort_keys p)" and parts: "plan_parts p A gs R" and "cohort_keys p \<noteq> []"
  shows "select_run p [] (whole_run p) = Inr (mp_steps p)"
proof -
  from parts assms(4) obtain g post where gs: "gs = g # post" by (cases gs) (auto simp: plan_parts_def)
  from parts gs have keys: "cohort_keys p = fst g # map fst post" and ok: "segment_ok g" by (simp_all add: plan_parts_def)
  have parts': "plan_parts p A ([] @ g # post) R" using parts gs by simp
  have canary: "select_steps p [] TransitionCanary = Inr (fst g, fst (snd g))"
    using select_moves [OF parts' assms(1) ok _ stage_steps.simps(3)] by (simp add: select_steps_def selected_cohort_def keys)
  have validate: "select_steps p (fst g) TransitionValidate = Inr (fst g, snd (snd g))"
    using select_validates [OF parts' assms(1) ok] assms(2) by (auto simp: select_steps_def selected_cohort_def keys)
  have "mp_steps p = A @ concat (map segment_steps gs) @ R" using parts by (simp add: plan_parts_def)
  then show ?thesis
    using select_cohorts [OF assms(1,2) parts'] by (simp add: whole_run_def keys select_migration [OF parts assms(2)] canary validate gs segment_steps_def)
qed

text \<open>A plan without blockers is in that form.\<close>

lemma chain_steps_append:
  "\<exists>previous'. chain_steps previous (xs @ ys) = chain_steps previous xs @ chain_steps previous' ys"
  by (induction xs arbitrary: previous) auto

lemma chain_steps_kind:
  "list_all (step_kind ops k) (chain_steps previous ss) \<longleftrightarrow> list_all (\<lambda>s. sc_op s \<in> ops \<and> me_cohort_key (sc_resources s) = k) ss"
  by (induction ss arbitrary: previous) (simp_all add: step_kind_def)

lemma cohort_segment:
  "\<exists>D V. chain_steps previous (cohort_specs sd r c ms) = segment_steps (co_cohort_key c, D, V) \<and> segment_ok (co_cohort_key c, D, V)"
proof -
  let ?spec = "\<lambda>op. \<lparr>sc_id = step_id sd (co_cohort_key c) (op_name op), sc_op = op, sc_resources = cohort_resources r c ms,
      sc_irreversible = (mr_rollback_strategy r = RollbackForwardFixOnly \<and> op = OpShiftCohort)\<rparr>"
  obtain ops where ops: "cohort_ops r = ops @ [OpValidateCohort]" "set ops \<subseteq> set stateful_sequence"
    by (auto simp: cohort_ops_def stateful_sequence_def split: if_splits)
  from chain_steps_append [of previous "map ?spec ops" "[?spec OpValidateCohort]"] obtain previous' where
    "chain_steps previous (cohort_specs sd r c ms) = chain_steps previous (map ?spec ops) @ chain_steps previous' [?spec OpValidateCohort]"
    by (auto simp: cohort_specs_def ops(1))
  moreover have "list_all (step_kind (set stateful_sequence) (co_cohort_key c)) (chain_steps previous (map ?spec ops))"
    unfolding chain_steps_kind using ops(2) by (auto simp: list_all_iff cohort_resources_def)
  moreover have "list_all (step_kind {OpValidateCohort} (co_cohort_key c)) (chain_steps previous' [?spec OpValidateCohort])"
    unfolding chain_steps_kind by (simp add: cohort_resources_def)
  ultimately show ?thesis unfolding segment_steps_def segment_ok_def fst_conv snd_conv by blast
qed

lemma cohort_segments:
  "\<exists>gs. chain_steps previous (concat (map (\<lambda>i. cohort_specs sd r (c i) (ms i)) is)) = concat (map segment_steps gs) \<and>
    map fst gs = map (\<lambda>i. co_cohort_key (c i)) is \<and> list_all segment_ok gs"
proof (induction "is" arbitrary: previous)
  case (Cons i "is")
  from chain_steps_append obtain previous' where
    split: "chain_steps previous (cohort_specs sd r (c i) (ms i) @ concat (map (\<lambda>i. cohort_specs sd r (c i) (ms i)) is)) =
      chain_steps previous (cohort_specs sd r (c i) (ms i)) @ chain_steps previous' (concat (map (\<lambda>i. cohort_specs sd r (c i) (ms i)) is))" by blast
  from cohort_segment obtain D V where
    "chain_steps previous (cohort_specs sd r (c i) (ms i)) = segment_steps (co_cohort_key (c i), D, V)" "segment_ok (co_cohort_key (c i), D, V)"
    by blast
  moreover from Cons.IH obtain gs where "chain_steps previous' (concat (map (\<lambda>i. cohort_specs sd r (c i) (ms i)) is)) = concat (map segment_steps gs)"
    "map fst gs = map (\<lambda>i. co_cohort_key (c i)) is" "list_all segment_ok gs" by blast
  ultimately show ?case using split
    by (intro exI [of _ "(co_cohort_key (c i), D, V) # gs"]) simp
qed simp

lemma prepare_kind:
  "list_all (step_kind {OpVerifyTargetReadiness, OpCreateMigrationBinding} []) (chain_steps previous (prepare_specs sd r bs chosen))"
  unfolding chain_steps_kind by (auto simp: list_all_iff prepare_specs_def bind_specs_def provider_resources_def no_resources_def Let_def)

lemma retire_kind: "list_all (step_kind {OpRetireSourceBinding} []) (chain_steps previous (retire_specs sd r bs))"
  unfolding chain_steps_kind by (auto simp: list_all_iff retire_specs_def no_resources_def)

lemma make_plan_request:
  assumes "make_plan pl inp = Inr p"
  shows "mp_request p = mi_request inp" and "mig_validate (mi_request inp) = None"
    and "mp_blockers p = [] \<Longrightarrow> \<not> mr_shadow (mi_request inp)"
    and "\<exists>bs chosen. mp_steps p = chain_steps [] (plan_specs (pr_short_digest pl) (mi_request inp) bs chosen)"
  using assms
  by (auto simp: make_plan_def Let_def unsealed_plan_fields no_blockers split: option.splits sum.splits if_splits) blast+

lemma plan_has_parts:
  assumes "make_plan pl inp = Inr p" and "mp_blockers p = []"
  shows "\<exists>A gs R. plan_parts p A gs R"
proof -
  let ?r = "mi_request inp" let ?sd = "pr_short_digest pl"
  from make_plan_request(4) [OF assms(1)] obtain bs chosen where steps: "mp_steps p = chain_steps [] (plan_specs ?sd ?r bs chosen)" by blast
  let ?cs = "concat (map (\<lambda>i. cohort_specs ?sd ?r (mr_cohorts ?r ! i) (members (mr_cohorts ?r) bs i)) [0..<length (mr_cohorts ?r)])"
  have specs: "plan_specs ?sd ?r bs chosen = prepare_specs ?sd ?r bs chosen @ ?cs @ retire_specs ?sd ?r bs"
    using make_plan_request(3) [OF assms] by (simp add: plan_specs_def shadow_specs_def)
  from chain_steps_append obtain q where
    "mp_steps p = chain_steps [] (prepare_specs ?sd ?r bs chosen) @ chain_steps q (?cs @ retire_specs ?sd ?r bs)" unfolding steps specs by blast
  moreover from chain_steps_append obtain q' where
    "chain_steps q (?cs @ retire_specs ?sd ?r bs) = chain_steps q ?cs @ chain_steps q' (retire_specs ?sd ?r bs)" by blast
  moreover from cohort_segments obtain gs where "chain_steps q ?cs = concat (map segment_steps gs)"
    "map fst gs = map (\<lambda>i. co_cohort_key (mr_cohorts ?r ! i)) [0..<length (mr_cohorts ?r)]" "list_all segment_ok gs" by blast
  moreover have "map (\<lambda>i. co_cohort_key (mr_cohorts ?r ! i)) [0..<length (mr_cohorts ?r)] = cohort_keys p"
    using map_nth [of "mr_cohorts ?r"] unfolding cohort_keys_def make_plan_request(1) [OF assms(1)] by (metis (no_types, lifting) map_map o_apply map_eq_conv)
  ultimately show ?thesis unfolding plan_parts_def using prepare_kind retire_kind by metis
qed

lemma plan_cohorts_distinct:
  assumes "make_plan pl inp = Inr p"
  shows "distinct (cohort_keys p)"
  using make_plan_request(1,2) [OF assms] cohorts_error_None [of "[]" "mr_cohorts (mi_request inp)"]
  by (auto simp: cohort_keys_def mig_validate_def error_simps)

text \<open>
  Property (the transitions of a migration run its plan). For a plan without blockers whose cohorts have
  keys, the transitions prepare, canary, validate, then shift and validate once per further cohort,
  retire_old and complete lead from PLAN to COMPLETE, and the steps they select are, one after the
  other, exactly the plan's steps: none is left out, none runs twice, none out of order.
\<close>

theorem transitions_run_whole_plan:
  assumes "make_plan pl inp = Inr p" and "mp_blockers p = []" and "cohort_keys p \<noteq> []" and "[] \<notin> set (cohort_keys p)"
  shows "run_table mig_table StagePlan (whole_run p) = Some StageComplete \<and> select_run p [] (whole_run p) = Inr (mp_steps p)"
proof -
  from plan_has_parts [OF assms(1,2)] obtain A gs R where "plan_parts p A gs R" by blast
  from select_whole [OF plan_cohorts_distinct [OF assms(1)] assms(4) this assms(3)]
  have "select_run p [] (whole_run p) = Inr (mp_steps p)" .
  moreover have "run_table mig_table StagePlan (whole_run p) = Some StageComplete"
    using cohort_transitions_table [of _ "[TransitionRetireOld, TransitionComplete]"] by (simp add: whole_run_def mig_table_defs)
  ultimately show ?thesis by blast
qed

theorem transitions_run_whole_plan_witness:
  "run_table mig_table StagePlan (whole_run (ex_plan ModeStatelessRebind RollbackRebindSource)) = Some StageComplete \<and>
   select_run (ex_plan ModeStatelessRebind RollbackRebindSource) [] (whole_run (ex_plan ModeStatelessRebind RollbackRebindSource)) =
     Inr (mp_steps (ex_plan ModeStatelessRebind RollbackRebindSource))"
proof (rule transitions_run_whole_plan)
  show "make_plan ex_planner (ex_input ModeStatelessRebind RollbackRebindSource) = Inr (ex_plan ModeStatelessRebind RollbackRebindSource)"
    "mp_blockers (ex_plan ModeStatelessRebind RollbackRebindSource) = []" using ex_plan_ok by simp_all
  show "cohort_keys (ex_plan ModeStatelessRebind RollbackRebindSource) \<noteq> []" "[] \<notin> set (cohort_keys (ex_plan ModeStatelessRebind RollbackRebindSource))"
    by code_simp+
qed

text \<open>
  C40 (a migration completes only step by step, and can always end). Every run of the lifecycle from
  PLAN to COMPLETE passes PREPARE, CANARY, VALIDATE and RETIRE_OLD in that order; an ended migration
  refuses every transition; and from every stage some run leads to an end.
\<close>

theorem migration_stages_in_order:
  "(run_table mig_table StagePlan ts = Some StageComplete \<longrightarrow>
     (\<exists>us vs ws xs ys. ts = us @ vs @ ws @ xs @ ys \<and> run_table mig_table StagePlan us = Some StagePrepare \<and>
       run_table mig_table StagePrepare vs = Some StageCanary \<and> run_table mig_table StageCanary ws = Some StageValidate \<and>
       run_table mig_table StageValidate xs = Some StageRetireOld \<and> run_table mig_table StageRetireOld ys = Some StageComplete)) \<and>
   (mig_terminal s \<longrightarrow> mig_table s t = None) \<and>
   (mig_known s \<longrightarrow> (\<exists>us s'. run_table mig_table s us = Some s' \<and> mig_terminal s'))"
proof (intro conjI impI)
  assume run: "run_table mig_table StagePlan ts = Some StageComplete"
  let ?over = "{StageCancelled, StageRolledBack}"
  have g1: "y \<in> {StagePlan} \<union> ?over \<or> y = StagePrepare" if "x \<in> {StagePlan} \<union> ?over" "mig_table x t = Some y" for x t y
    using mig_table_cases [OF that(2)] that(1) by auto
  have "\<exists>us ts'. ts = us @ ts' \<and> run_table mig_table StagePlan us = Some StagePrepare \<and> run_table mig_table StagePrepare ts' = Some StageComplete"
    by (rule run_table_gate [where A = "{StagePlan} \<union> ?over" and nxt = mig_table and g = StagePrepare], rule g1) (use run in auto)
  then obtain us ts' where 1: "ts = us @ ts'" "run_table mig_table StagePlan us = Some StagePrepare" "run_table mig_table StagePrepare ts' = Some StageComplete" by blast
  have g2: "y \<in> {StagePrepare, StageShadow} \<union> ?over \<or> y = StageCanary" if "x \<in> {StagePrepare, StageShadow} \<union> ?over" "mig_table x t = Some y" for x t y
    using mig_table_cases [OF that(2)] that(1) by auto
  have "\<exists>vs ts''. ts' = vs @ ts'' \<and> run_table mig_table StagePrepare vs = Some StageCanary \<and> run_table mig_table StageCanary ts'' = Some StageComplete"
    by (rule run_table_gate [where A = "{StagePrepare, StageShadow} \<union> ?over" and nxt = mig_table and g = StageCanary], rule g2) (use 1(3) in auto)
  then obtain vs ts'' where 2: "ts' = vs @ ts''" "run_table mig_table StagePrepare vs = Some StageCanary" "run_table mig_table StageCanary ts'' = Some StageComplete" by blast
  have g3: "y \<in> {StageCanary} \<union> ?over \<or> y = StageValidate" if "x \<in> {StageCanary} \<union> ?over" "mig_table x t = Some y" for x t y
    using mig_table_cases [OF that(2)] that(1) by auto
  have "\<exists>ws xs'. ts'' = ws @ xs' \<and> run_table mig_table StageCanary ws = Some StageValidate \<and> run_table mig_table StageValidate xs' = Some StageComplete"
    by (rule run_table_gate [where A = "{StageCanary} \<union> ?over" and nxt = mig_table and g = StageValidate], rule g3) (use 2(3) in auto)
  then obtain ws xs' where 3: "ts'' = ws @ xs'" "run_table mig_table StageCanary ws = Some StageValidate" "run_table mig_table StageValidate xs' = Some StageComplete" by blast
  have g4: "y \<in> {StageValidate, StageShift} \<union> ?over \<or> y = StageRetireOld" if "x \<in> {StageValidate, StageShift} \<union> ?over" "mig_table x t = Some y" for x t y
    using mig_table_cases [OF that(2)] that(1) by auto
  have "\<exists>xs ys. xs' = xs @ ys \<and> run_table mig_table StageValidate xs = Some StageRetireOld \<and> run_table mig_table StageRetireOld ys = Some StageComplete"
    by (rule run_table_gate [where A = "{StageValidate, StageShift} \<union> ?over" and nxt = mig_table and g = StageRetireOld], rule g4) (use 3(3) in auto)
  then obtain xs ys where 4: "xs' = xs @ ys" "run_table mig_table StageValidate xs = Some StageRetireOld" "run_table mig_table StageRetireOld ys = Some StageComplete" by blast
  from 1 2 3 4 show "\<exists>us vs ws xs ys. ts = us @ vs @ ws @ xs @ ys \<and> run_table mig_table StagePlan us = Some StagePrepare \<and>
       run_table mig_table StagePrepare vs = Some StageCanary \<and> run_table mig_table StageCanary ws = Some StageValidate \<and>
       run_table mig_table StageValidate xs = Some StageRetireOld \<and> run_table mig_table StageRetireOld ys = Some StageComplete" by blast
qed (use mt.terminal_refuses mt.can_finish in blast)+

theorem migration_stages_in_order_witness:
  "\<exists>us vs ws xs ys. [TransitionPrepare, TransitionCanary, TransitionValidate, TransitionRetireOld, TransitionComplete] = us @ vs @ ws @ xs @ ys \<and>
    run_table mig_table StagePlan us = Some StagePrepare \<and> run_table mig_table StagePrepare vs = Some StageCanary \<and>
    run_table mig_table StageCanary ws = Some StageValidate \<and> run_table mig_table StageValidate xs = Some StageRetireOld \<and>
    run_table mig_table StageRetireOld ys = Some StageComplete"
proof -
  let ?ts = "[TransitionPrepare, TransitionCanary, TransitionValidate, TransitionRetireOld, TransitionComplete]"
  have "run_table mig_table StagePlan ?ts = Some StageComplete" by (simp add: mig_table_defs)
  with migration_stages_in_order [of ?ts] show ?thesis by blast
qed

end
