(* ===== verification/Migration_Exec.thy ===== *)
theory Migration_Exec
  imports Migration_Run Release_Store
begin

text \<open>
  Running a provider migration (\<open>internal/repository/postgres_provider_migration_execution.go\<close>,
  \<open>postgres_engine_migration_task.go\<close>, \<open>postgres_provider_migration.go\<close>): deciding on the plan,
  advancing the migration through its lifecycle, the local steps on capability bindings and their
  ledger, the engine steps as tasks that workloads claim and report, rolling back and cancelling.

  The state \<open>exec_db\<close> is what the database holds of one migration: its row, plan, approvals,
  operations, runs, ledger and tasks, and the shared tables its execution reads and writes. Every
  query of the code is restricted to one migration or operation, so the rows of other migrations
  do not appear; they show only in \<open>xd_open\<close>. An engine instance is named by its key, and
  \<open>xd_workloads\<close> gives a registered instance its attested workload, the empty string when it has none. A command is
  one transaction: \<open>Inl\<close> leaves the database as it was; \<open>AdvanceProviderMigration\<close>, which commits
  the settlement of a running advance first, and the task commands, which commit an expiry they
  then report as an error, return the database with the result. Identifiers of new bindings and
  tasks are drawn from the supplies \<open>xp_binding_id\<close> and \<open>xp_task_id\<close>, and one that is taken is an
  error. The database clock is the command's \<open>now\<close>. The exclusion constraint on overlapping PRIMARY
  bindings is not modelled: an update it refuses is an error that changes nothing. Audit rows,
  result documents and explanatory texts are left out; of a step failure its code is kept.
\<close>

section \<open>Tables\<close>

datatype op_status =
    OpQueued | OpPreparing | OpRunning | OpWaiting | OpVerifying | OpBlocked | OpSucceeded | OpFailed | OpPartiallyApplied
  | OpCompensating | OpCompensated | OpCompensationFailed | OpCancelRequested | OpCancelled

record migration =
  mm_id :: string
  mm_stage :: mig_stage
  mm_current_cohort :: string
  mm_blocked :: bool
  mm_failure_reason :: string
  mm_approval_id :: string
  mm_operation_id :: string
  mm_shifted :: "string list"
  mm_created_by :: string
  mm_started_at :: "instant option"
  mm_completed_at :: "instant option"
  mm_revision :: int

record exec_op =
  eo_status :: op_status
  eo_plan_digest :: string
  eo_approval_id :: string
  eo_requested_by :: string
  eo_request_hash :: string
  eo_phase :: mig_stage
  eo_completed_steps :: nat
  eo_total_steps :: nat
  eo_current_step :: string
  eo_problem :: string
  eo_completed_at :: "instant option"

record run_row =
  rn_transition :: mig_transition
  rn_cohort :: string
  rn_steps :: "mig_step list"
  rn_next :: nat
  rn_target_stage :: mig_stage

datatype ledger_state = LedgerPrepared | LedgerShifted | LedgerRetired | LedgerRemoved

record ledger_row =
  lg_source :: string
  lg_target :: string
  lg_mode :: string
  lg_capability :: string
  lg_cohort :: string
  lg_state :: ledger_state
  lg_instance :: string

record binding_rec =
  bg_capability :: string
  bg_instance :: string
  bg_scope :: string
  bg_mode :: string
  bg_priority :: int
  bg_status :: string
  bg_contract_version :: string
  bg_effective_from :: instant
  bg_effective_to :: "instant option"
  bg_provider :: string
  bg_version :: int

record scope_row =
  sw_tenant :: string
  sw_legal_entity :: string
  sw_estate :: string
  sw_market :: string
  sw_jurisdiction :: string
  sw_region :: string
  sw_environment :: string

datatype task_status = TaskPending | TaskClaimed | TaskSucceeded | TaskFailed | TaskCancelled

record task_result =
  tr_record_count :: "int option"
  tr_content_digest :: string
  tr_reason_code :: string

record task_row =
  tk_id :: string
  tk_operation_id :: string
  tk_step_id :: string
  tk_operation :: mig_op
  tk_role :: role
  tk_direction :: direction
  tk_instance :: string
  tk_provider :: string
  tk_cohort :: string
  tk_capabilities :: "string list"
  tk_tenants :: "string list"
  tk_estates :: "string list"
  tk_counterpart :: "(string \<times> string list) option"
  tk_status :: task_status
  tk_attempt :: int
  tk_claimed_by :: string
  tk_lease :: "instant option"
  tk_deadline :: instant
  tk_result :: "task_result option"
  tk_report_hash :: string
  tk_reported_at :: "instant option"
  tk_revision :: int

record exec_db =
  xd_migration :: migration
  xd_plan :: mig_plan
  xd_approvals :: "approval list"
  xd_operations :: "string \<Rightarrow> exec_op option"
  xd_keys :: "string \<times> string \<Rightarrow> string option"
  xd_runs :: "string \<Rightarrow> run_row option"
  xd_ledger :: "ledger_row list"
  xd_tasks :: "task_row list"
  xd_bindings :: "string \<Rightarrow> binding_rec option"
  xd_binding_ids :: "string list"
  xd_scopes :: "string \<Rightarrow> scope_row option"
  xd_workloads :: "string \<Rightarrow> string option"
  xd_providers :: "string \<Rightarrow> mig_provider option"
  xd_instances :: "string \<Rightarrow> mig_instance list"
  xd_open :: "string \<Rightarrow> string list \<Rightarrow> string list"
  xd_minted :: nat

text \<open>What every command is given: the planner's parts, the supplies of identifiers, the registered failure codes.\<close>

record exec_params =
  xp_policy :: "health_policy option"
  xp_plan_ttl :: duration
  xp_digest :: "mig_digest_input \<Rightarrow> string"
  xp_short_digest :: "string \<Rightarrow> string"
  xp_binding_id :: "nat \<Rightarrow> string"
  xp_task_id :: "nat \<Rightarrow> string"
  xp_registered_failure :: "string \<Rightarrow> bool"

datatype exec_error =
    ExecInvalidActor | ErrOperationKeyReused | ErrProviderMigrationRevisionMismatch | ErrProviderMigrationStageConflict
  | ErrProviderMigrationSelfApproval | ErrProviderMigrationPlanMismatch | ErrProviderMigrationPlanStale
  | ErrProviderMigrationBlocked | ErrProviderMigrationNotApproved | ErrProviderMigrationOperationRunning
  | ErrProviderMigrationWindowClosed | ErrProviderMigrationNotReversible | ErrProviderMigrationPlanDecided
  | ErrProviderMigrationNotExecutable | ErrProviderMigrationSelfExecution | ErrPlanning | ErrNoHealthPolicy | ErrRowMissing
  | ErrIdentifierTaken string | ErrBindingId string | ErrEngineMigrationTaskNotFound | ErrEngineMigrationTaskRevision
  | ErrEngineMigrationTaskClaimed | ErrEngineMigrationTaskFinal | ErrEngineMigrationTaskLeaseExpired
  | ErrEngineMigrationTaskReportInvalid

text \<open>A step fails on authoritative state with a code, or the command fails.\<close>

datatype step_error = StepFailure string | StepAborts exec_error

section \<open>Authoritative state as the migration's own execution left it untouched\<close>

definition atoi_digits :: "string \<Rightarrow> int" where
  "atoi_digits s = foldl (\<lambda>n c. n * 10 + (int (byte c) - 48)) 0 s"

text \<open>\<open>contractMajor\<close>: the major of "v1", "1" or "1.0.0", 0 when it has none.\<close>

definition contract_major :: "string \<Rightarrow> int" where
  "contract_major stored =
    (let s = to_lower (trim_space stored);
         t = (case s of c # r \<Rightarrow> if c = CHR ''v'' then r else s | [] \<Rightarrow> []);
         major = takeWhile (\<lambda>c. c \<noteq> CHR ''.'') t;
         digits = (case major of c # r \<Rightarrow> if c = CHR ''+'' then r else major | [] \<Rightarrow> []);
         n = atoi_digits digits in
     if digits = [] \<or> \<not> list_all is_digit digits \<or> max_duration < n \<or> n < 1 then 0 else n)"

definition is_authoritative_mode :: "string \<Rightarrow> bool" where
  "is_authoritative_mode m \<longleftrightarrow> m = ''PRIMARY'' \<or> m = ''FALLBACK''"

definition in_period :: "binding_rec \<Rightarrow> instant \<Rightarrow> bool" where
  "in_period b now \<longleftrightarrow> bg_effective_from b \<le> now \<and> (case bg_effective_to b of None \<Rightarrow> True | Some t \<Rightarrow> now < t)"

definition carries_traffic :: "binding_rec \<Rightarrow> instant \<Rightarrow> bool" where
  "carries_traffic b now \<longleftrightarrow> to_lower (bg_status b) = ''active'' \<and> is_authoritative_mode (bg_mode b) \<and> in_period b now"

definition is_market :: "string \<Rightarrow> bool" where
  "is_market m \<longleftrightarrow> length m = 2 \<and> list_all (\<lambda>c. \<not> is_lower c) m"

definition source_of_row :: "exec_db \<Rightarrow> string \<Rightarrow> string + source_binding" where
  "source_of_row w i =
    (case xd_bindings w i of
       None \<Rightarrow> Inl ''binding''
     | Some b \<Rightarrow>
         (case (xd_scopes w (bg_scope b), format_resource_id ''bind'' i) of
            (Some s, Some key) \<Rightarrow> Inr \<lparr>sb_binding_id = key, sb_capability_key = bg_capability b,
               sb_contract_version = contract_major (bg_contract_version b), sb_tenant_id = sw_tenant s,
               sb_legal_entity_id = sw_legal_entity s, sb_estate_id = sw_estate s,
               sb_markets = (if is_market (sw_market s) then [sw_market s] else []) @
                 (if is_market (sw_jurisdiction s) \<and> \<not> (is_market (sw_market s) \<and> sw_jurisdiction s = sw_market s) then [sw_jurisdiction s] else []),
               sb_region = sw_region s, sb_environment = sw_environment s\<rparr>
          | _ \<Rightarrow> Inl ''resource id''))"

fun collect_rows :: "(string \<Rightarrow> string + 'a) \<Rightarrow> string list \<Rightarrow> string + 'a list" where
  "collect_rows f [] = Inr []"
| "collect_rows f (i # is) =
    (case f i of Inl e \<Rightarrow> Inl e | Inr r \<Rightarrow> (case collect_rows f is of Inl e \<Rightarrow> Inl e | Inr rs \<Rightarrow> Inr (r # rs)))"

text \<open>
  \<open>SourceBindings\<close>: the provider's bindings that carry traffic, and those the migration's ledger
  records, which count as the live bindings they were.
\<close>

definition counts_as_source :: "exec_db \<Rightarrow> instant \<Rightarrow> string \<Rightarrow> string list \<Rightarrow> string \<Rightarrow> bool" where
  "counts_as_source w now provider keys i \<longleftrightarrow>
    (case xd_bindings w i of
       None \<Rightarrow> False
     | Some b \<Rightarrow> bg_provider b = provider \<and> bg_capability b \<in> set keys \<and> xd_scopes w (bg_scope b) \<noteq> None \<and>
         (carries_traffic b now \<or> i \<in> set (map lg_source (xd_ledger w))))"

definition source_bindings :: "exec_db \<Rightarrow> instant \<Rightarrow> string \<Rightarrow> string list \<Rightarrow> string + source_binding list" where
  "source_bindings w now provider keys =
     collect_rows (source_of_row w) (filter (counts_as_source w now provider keys) (sort (xd_binding_ids w)))"

definition open_migrations :: "exec_db \<Rightarrow> string \<Rightarrow> string list \<Rightarrow> string list" where
  "open_migrations w provider keys =
    (let r = mp_request (xd_plan w); own = xd_migration w in
     xd_open w provider keys @
     (if mr_source_provider_key r = provider \<and> list_ex (\<lambda>c. mc_capability_key c \<in> set keys) (mr_capabilities r) \<and> \<not> mig_terminal (mm_stage own)
      then [mm_id own] else []))"

definition migration_facts :: "exec_db \<Rightarrow> instant \<Rightarrow> facts" where
  "migration_facts w now = \<lparr>fa_source_bindings = source_bindings w now, fa_provider = (\<lambda>p. Inr (xd_providers w p)),
     fa_provider_instances = (\<lambda>p keys. Inr (xd_instances w p)), fa_open_migrations = (\<lambda>p keys. Inr (open_migrations w p keys))\<rparr>"

text \<open>\<open>planStale\<close>: the plan generated afresh has other material; expiry counts only before execution.\<close>

definition plan_stale :: "exec_params \<Rightarrow> exec_db \<Rightarrow> instant \<Rightarrow> exec_error + bool" where
  "plan_stale xp w now =
    (let m = xd_migration w; p = xd_plan w in
     if mm_stage m = StagePlan \<and> \<not> now < mp_expires_at p then Inr True
     else case xp_policy xp of
       None \<Rightarrow> Inl ErrNoHealthPolicy
     | Some pol \<Rightarrow>
         (case make_plan \<lparr>pr_facts = migration_facts w now, pr_policy = pol, pr_plan_ttl = xp_plan_ttl xp, pr_digest = xp_digest xp,
                 pr_short_digest = xp_short_digest xp\<rparr>
               \<lparr>mi_request = mp_request p, mi_provider_migration_id = mm_id m, mi_plan_id = mp_plan_id p, mi_plan_version = mp_plan_version p,
                mi_base_revision = mp_base_revision p, mi_now = now\<rparr> of
            Inl e \<Rightarrow> Inl ErrPlanning
          | Inr fresh \<Rightarrow> Inr (mig_material (xp_digest xp) fresh \<noteq> mig_material (xp_digest xp) p)))"

section \<open>Local steps\<close>

text \<open>The executor of one call: the migration as the call found it, and where it runs.\<close>

record executor =
  xc_migration :: migration
  xc_plan :: mig_plan
  xc_now :: instant
  xc_operation_id :: string
  xc_direction :: direction
  xc_params :: exec_params

text \<open>The last SHIFT_COHORT step that names a binding gives its cohort.\<close>

definition cohort_of :: "mig_plan \<Rightarrow> string \<Rightarrow> string" where
  "cohort_of p b =
    (case find (\<lambda>s. ms_operation s = OpShiftCohort \<and> b \<in> set (me_binding_ids (ms_resources s))) (rev (mp_steps p)) of
       None \<Rightarrow> [] | Some s \<Rightarrow> me_cohort_key (ms_resources s))"

definition new_binding :: "binding_rec \<Rightarrow> string \<Rightarrow> string \<Rightarrow> instant \<Rightarrow> binding_rec" where
  "new_binding b instance_key provider now =
     b\<lparr>bg_instance := instance_key, bg_mode := ''MIGRATION'', bg_status := ''ACTIVE'', bg_effective_from := now,
       bg_effective_to := None, bg_provider := provider, bg_version := 1\<rparr>"

definition create_one :: "executor \<Rightarrow> mig_step \<Rightarrow> string \<Rightarrow> exec_db \<Rightarrow> step_error + exec_db" where
  "create_one x sp bid w =
    (case parse_resource_id ''bind'' bid of
       None \<Rightarrow> Inl (StepAborts (ErrBindingId bid))
     | Some source \<Rightarrow>
         if source \<in> set (map lg_source (xd_ledger w)) then Inr w
         else (case xd_bindings w source of
            None \<Rightarrow> Inl (StepFailure ''PLAN_STALE'')
          | Some b \<Rightarrow>
              if \<not> carries_traffic b (xc_now x) then Inl (StepFailure ''PLAN_STALE'')
              else let target = xp_binding_id (xc_params x) (xd_minted w); i = me_engine_instance_id (ms_resources sp) in
                if xd_bindings w target \<noteq> None then Inl (StepAborts (ErrIdentifierTaken target))
                else Inr (w\<lparr>xd_minted := Suc (xd_minted w), xd_binding_ids := xd_binding_ids w @ [target],
                  xd_bindings := (xd_bindings w)(target \<mapsto> new_binding b i (mp_target_provider_key (xc_plan x)) (xc_now x)),
                  xd_ledger := xd_ledger w @ [\<lparr>lg_source = source, lg_target = target, lg_mode = bg_mode b,
                    lg_capability = me_capability_key (ms_resources sp), lg_cohort = cohort_of (xc_plan x) bid,
                    lg_state = LedgerPrepared, lg_instance = i\<rparr>]\<rparr>)))"

definition create_migration_bindings :: "executor \<Rightarrow> mig_step \<Rightarrow> exec_db \<Rightarrow> step_error + exec_db" where
  "create_migration_bindings x sp w =
    (if xd_workloads w (me_engine_instance_id (ms_resources sp)) = None \<or> xd_providers w (mp_target_provider_key (xc_plan x)) = None
       then Inl (StepFailure ''MIGRATION_TARGET_NOT_REGISTERED'')
     else fold_result (create_one x sp) (me_binding_ids (ms_resources sp)) w)"

definition ledger_rows :: "exec_db \<Rightarrow> (ledger_row \<Rightarrow> bool) \<Rightarrow> ledger_row list" where
  "ledger_rows w P = sort_key lg_source (filter P (xd_ledger w))"

definition set_ledger :: "string \<Rightarrow> ledger_state \<Rightarrow> exec_db \<Rightarrow> exec_db" where
  "set_ledger source st w = w\<lparr>xd_ledger := map (\<lambda>l. if lg_source l = source then l\<lparr>lg_state := st\<rparr> else l) (xd_ledger w)\<rparr>"

definition update_binding :: "string \<Rightarrow> (binding_rec \<Rightarrow> binding_rec) \<Rightarrow> exec_db \<Rightarrow> exec_db" where
  "update_binding i f w =
    (case xd_bindings w i of
       None \<Rightarrow> w
     | Some b \<Rightarrow> w\<lparr>xd_bindings := (xd_bindings w)(i \<mapsto> (f b)\<lparr>bg_version := bg_version b + 1\<rparr>)\<rparr>)"

definition set_mode :: "string \<Rightarrow> string \<Rightarrow> exec_db \<Rightarrow> exec_db" where
  "set_mode i mode = update_binding i (bg_mode_update (\<lambda>_. mode))"

definition retire_binding :: "string \<Rightarrow> instant \<Rightarrow> exec_db \<Rightarrow> exec_db" where
  "retire_binding i now = update_binding i (\<lambda>b. b\<lparr>bg_status := ''RETIRED'', bg_effective_to := Some now\<rparr>)"

text \<open>Each source steps down before its target takes the source's mode.\<close>

definition shift_one :: "ledger_row \<Rightarrow> exec_db \<Rightarrow> step_error + exec_db" where
  "shift_one l w =
    (if lg_state l \<noteq> LedgerPrepared then Inl (StepFailure ''PROVIDER_MIGRATION_STAGE_CONFLICT'')
     else Inr (set_ledger (lg_source l) LedgerShifted (set_mode (lg_target l) (lg_mode l) (set_mode (lg_source l) ''MIGRATION'' w))))"

definition shift_cohort :: "mig_step \<Rightarrow> exec_db \<Rightarrow> step_error + exec_db" where
  "shift_cohort sp w =
    (let rows = ledger_rows w (\<lambda>l. lg_cohort l = me_cohort_key (ms_resources sp)) in
     if length rows \<noteq> length (me_binding_ids (ms_resources sp)) then Inl (StepFailure ''PLAN_STALE'')
     else fold_result shift_one rows w)"

definition unshift_one :: "ledger_row \<Rightarrow> exec_db \<Rightarrow> exec_db" where
  "unshift_one l w = set_ledger (lg_source l) LedgerPrepared (set_mode (lg_source l) (lg_mode l) (set_mode (lg_target l) ''MIGRATION'' w))"

definition unshift_cohort :: "string \<Rightarrow> exec_db \<Rightarrow> exec_db" where
  "unshift_cohort k w = fold unshift_one (ledger_rows w (\<lambda>l. lg_cohort l = k \<and> lg_state l = LedgerShifted)) w"

definition can_serve :: "executor \<Rightarrow> mig_instance list \<Rightarrow> string \<Rightarrow> string \<Rightarrow> bool" where
  "can_serve x is instance_key capability \<longleftrightarrow>
    (case find (\<lambda>i. mn_engine_instance_id i = instance_key) is of
       None \<Rightarrow> False
     | Some i \<Rightarrow> is_active (mn_status i) \<and>
         (case xp_policy (xc_params x) of None \<Rightarrow> True
          | Some pol \<Rightarrow> hd_eligible (evaluate_health pol CriticalityCritical (mn_health i capability) (xc_now x))))"

definition validate_one :: "executor \<Rightarrow> ledger_row \<Rightarrow> exec_db \<Rightarrow> step_error + exec_db" where
  "validate_one x l w =
    (case (xd_bindings w (lg_target l), xd_bindings w (lg_source l)) of
       (Some t, Some s) \<Rightarrow>
         if xd_workloads w (bg_instance t) = None then Inl (StepAborts ErrRowMissing)
         else if lg_state l \<noteq> LedgerShifted \<or> bg_mode t \<noteq> lg_mode l \<or> to_lower (bg_status t) \<noteq> ''active'' \<or> bg_mode s \<noteq> ''MIGRATION''
           then Inl (StepFailure ''MIGRATION_VALIDATION_FAILED'')
         else if can_serve x (xd_instances w (mp_target_provider_key (xc_plan x))) (bg_instance t) (lg_capability l) then Inr w
         else Inl (StepFailure ''MIGRATION_VALIDATION_FAILED'')
     | _ \<Rightarrow> Inl (StepAborts ErrRowMissing))"

definition validate_cohort :: "executor \<Rightarrow> string \<Rightarrow> exec_db \<Rightarrow> step_error + exec_db" where
  "validate_cohort x k w = fold_result (validate_one x) (ledger_rows w (\<lambda>l. lg_cohort l = k)) w"

definition retire_one :: "instant \<Rightarrow> ledger_row \<Rightarrow> exec_db \<Rightarrow> step_error + exec_db" where
  "retire_one now l w =
    (if lg_state l \<noteq> LedgerShifted then Inl (StepFailure ''PROVIDER_MIGRATION_STAGE_CONFLICT'')
     else Inr (set_ledger (lg_source l) LedgerRetired (retire_binding (lg_source l) now w)))"

definition retire_source :: "instant \<Rightarrow> string \<Rightarrow> exec_db \<Rightarrow> step_error + exec_db" where
  "retire_source now capability w = fold_result (retire_one now) (ledger_rows w (\<lambda>l. lg_capability l = capability)) w"

definition remove_one :: "instant \<Rightarrow> ledger_row \<Rightarrow> exec_db \<Rightarrow> exec_db" where
  "remove_one now l w = set_ledger (lg_source l) LedgerRemoved (retire_binding (lg_target l) now w)"

definition remove_migration_bindings :: "instant \<Rightarrow> exec_db \<Rightarrow> exec_db" where
  "remove_migration_bindings now w = fold (remove_one now) (ledger_rows w (\<lambda>l. lg_state l = LedgerPrepared)) w"

text \<open>The executor's shifted cohorts: \<open>None\<close> until a step of the call touches them.\<close>

type_synonym shifted = "string list option"

definition shifted_base :: "executor \<Rightarrow> shifted \<Rightarrow> string list" where
  "shifted_base x sh = (case sh of None \<Rightarrow> mm_shifted (xc_migration x) | Some ks \<Rightarrow> ks)"

definition add_shifted :: "executor \<Rightarrow> string \<Rightarrow> shifted \<Rightarrow> shifted" where
  "add_shifted x k sh = (let ks = shifted_base x sh in Some (if k \<in> set ks then ks else ks @ [k]))"

definition remove_shifted :: "executor \<Rightarrow> string \<Rightarrow> shifted \<Rightarrow> shifted" where
  "remove_shifted x k sh = Some (filter (\<lambda>l. l \<noteq> k) (shifted_base x sh))"

definition keep_shifted :: "shifted \<Rightarrow> step_error + exec_db \<Rightarrow> step_error + (exec_db \<times> shifted)" where
  "keep_shifted sh r = (case r of Inl e \<Rightarrow> Inl e | Inr w \<Rightarrow> Inr (w, sh))"

text \<open>\<open>migrationExecutor.run\<close>.\<close>

definition run_local :: "executor \<Rightarrow> mig_transition \<Rightarrow> mig_step \<Rightarrow> exec_db \<Rightarrow> shifted \<Rightarrow> step_error + (exec_db \<times> shifted)" where
  "run_local x t sp w sh =
    (let k = me_cohort_key (ms_resources sp) in
     case ms_operation sp of
       OpVerifyTargetReadiness \<Rightarrow> Inr (w, sh)
     | OpCreateMigrationBinding \<Rightarrow> keep_shifted sh (create_migration_bindings x sp w)
     | OpStartShadow \<Rightarrow> Inl (StepAborts ErrProviderMigrationNotExecutable)
     | OpStopShadow \<Rightarrow> Inr (w, sh)
     | OpShiftCohort \<Rightarrow>
         if t = TransitionRollBack then Inr (unshift_cohort k w, remove_shifted x k sh)
         else keep_shifted (add_shifted x k sh) (shift_cohort sp w)
     | OpValidateCohort \<Rightarrow> keep_shifted sh (validate_cohort x k w)
     | OpRetireSourceBinding \<Rightarrow> keep_shifted sh (retire_source (xc_now x) (me_capability_key (ms_resources sp)) w)
     | OpRemoveMigrationBinding \<Rightarrow> Inr (remove_migration_bindings (xc_now x) w, sh)
     | _ \<Rightarrow> Inl (StepAborts ErrProviderMigrationNotExecutable))"

section \<open>Engine steps\<close>

definition step_tasks :: "exec_db \<Rightarrow> string \<Rightarrow> string \<Rightarrow> task_row list" where
  "step_tasks w op step_key = sort_key tk_id (filter (\<lambda>t. tk_operation_id t = op \<and> tk_step_id t = step_key) (xd_tasks w))"

text \<open>A member of a cohort: capability, source and target instance, tenant, estate.\<close>

type_synonym member = "string \<times> string \<times> string \<times> string \<times> string"

definition member_of :: "exec_db \<Rightarrow> ledger_row \<Rightarrow> member list" where
  "member_of w l =
    (case xd_bindings w (lg_source l) of
       None \<Rightarrow> []
     | Some b \<Rightarrow>
         (case xd_scopes w (bg_scope b) of
            None \<Rightarrow> []
          | Some s \<Rightarrow> if xd_workloads w (bg_instance b) = None \<or> xd_workloads w (lg_instance l) = None then []
                      else [(lg_capability l, bg_instance b, lg_instance l, sw_tenant s, sw_estate s)]))"

definition cohort_members :: "exec_db \<Rightarrow> string \<Rightarrow> member list" where
  "cohort_members w k = concat (map (member_of w) (filter (\<lambda>l. lg_cohort l = k) (xd_ledger w)))"

definition role_instances :: "role \<Rightarrow> member list \<Rightarrow> string list" where
  "role_instances r ms = sorted_keys (map (\<lambda>(c, source, target, t, e). if r = RoleSource then source else target) ms)"

definition role_provider :: "executor \<Rightarrow> role \<Rightarrow> string" where
  "role_provider x r = (if r = RoleSource then mp_source_provider_key (xc_plan x) else mp_target_provider_key (xc_plan x))"

definition other_role :: "role \<Rightarrow> role" where
  "other_role r = (if r = RoleSource then RoleTarget else RoleSource)"

definition task_deadline :: "executor \<Rightarrow> instant" where
  "task_deadline x =
    (case mr_cutover_window (mp_request (xc_plan x)) of
       Some (starts, ends) \<Rightarrow> if xc_now x < ends then ends else xc_now x + duration_of 24 hour_ns
     | None \<Rightarrow> xc_now x + duration_of 24 hour_ns)"

definition new_task :: "executor \<Rightarrow> mig_step \<Rightarrow> member list \<Rightarrow> role \<Rightarrow> string \<Rightarrow> string \<Rightarrow> task_row" where
  "new_task x sp ms r i key =
     \<lparr>tk_id = key, tk_operation_id = xc_operation_id x, tk_step_id = ms_step_id sp, tk_operation = ms_operation sp, tk_role = r,
      tk_direction = xc_direction x, tk_instance = i, tk_provider = role_provider x r, tk_cohort = me_cohort_key (ms_resources sp),
      tk_capabilities = sorted_keys (map (\<lambda>(c, _). c) ms), tk_tenants = sorted_keys (map (\<lambda>(c, s, t, tenant, e). tenant) ms),
      tk_estates = sorted_keys (filter (\<lambda>e. e \<noteq> []) (map (\<lambda>(c, s, t, tenant, e). e) ms)),
      tk_counterpart = (if ms_operation sp = OpMigrateCohortData
        then Some (role_provider x (other_role r), role_instances (other_role r) ms) else None),
      tk_status = TaskPending, tk_attempt = 1, tk_claimed_by = [], tk_lease = None, tk_deadline = task_deadline x, tk_result = None,
      tk_report_hash = [], tk_reported_at = None, tk_revision = 1\<rparr>"

definition issue_one :: "executor \<Rightarrow> mig_step \<Rightarrow> member list \<Rightarrow> role \<times> string \<Rightarrow> exec_db \<Rightarrow> step_error + exec_db" where
  "issue_one x sp ms a w =
    (let key = xp_task_id (xc_params x) (xd_minted w) in
     if key \<in> set (map tk_id (xd_tasks w)) then Inl (StepAborts (ErrIdentifierTaken key))
     else Inr (w\<lparr>xd_minted := Suc (xd_minted w), xd_tasks := xd_tasks w @ [new_task x sp ms (fst a) (snd a) key]\<rparr>))"

definition assignments :: "executor \<Rightarrow> mig_step \<Rightarrow> member list \<Rightarrow> (role \<times> string) list" where
  "assignments x sp ms = concat (map (\<lambda>r. map (Pair r) (role_instances r ms)) (roles (ms_operation sp) (xc_direction x)))"

text \<open>\<open>issueTasks\<close>: one task per role and instance; the number issued. A cohort without members issues none.\<close>

definition issue_tasks :: "executor \<Rightarrow> mig_step \<Rightarrow> exec_db \<Rightarrow> step_error + (exec_db \<times> nat)" where
  "issue_tasks x sp w =
    (let ms = cohort_members w (me_cohort_key (ms_resources sp)); as = (if ms = [] then [] else assignments x sp ms) in
     case fold_result (issue_one x sp ms) as w of Inl e \<Rightarrow> Inl e | Inr w' \<Rightarrow> Inr (w', length as))"

text \<open>\<open>reconciled\<close>: the counts of both sides agree, and the digests where each side has one report.\<close>

definition reported :: "task_row list \<Rightarrow> role \<Rightarrow> (int \<times> string) list" where
  "reported ts r = concat (map (\<lambda>t.
     case tk_result t of
       Some res \<Rightarrow> (case tr_record_count res of
           Some n \<Rightarrow> if tk_status t = TaskSucceeded \<and> tk_role t = r then [(n, tr_content_digest res)] else []
         | None \<Rightarrow> [])
     | None \<Rightarrow> []) ts)"

definition reconciled :: "task_row list \<Rightarrow> bool" where
  "reconciled ts =
    (let source = reported ts RoleSource; target = reported ts RoleTarget in
     foldl (\<lambda>n p. wrap64 (n + fst p)) 0 source = foldl (\<lambda>n p. wrap64 (n + fst p)) 0 target \<and>
     \<not> (length source = 1 \<and> length target = 1 \<and> snd (hd source) \<noteq> snd (hd target)))"

definition failure_code :: "task_row \<Rightarrow> string" where
  "failure_code t = (case tk_result t of None \<Rightarrow> ''MIGRATION_TASK_TIMEOUT'' | Some res \<Rightarrow> tr_reason_code res)"

text \<open>\<open>engineStep\<close>: the database and whether the step is done.\<close>

definition engine_step :: "executor \<Rightarrow> mig_step \<Rightarrow> exec_db \<Rightarrow> step_error + (exec_db \<times> bool)" where
  "engine_step x sp w =
    (let ts = step_tasks w (xc_operation_id x) (ms_step_id sp) in
     if ts = [] then (case issue_tasks x sp w of Inl e \<Rightarrow> Inl e | Inr (w', n) \<Rightarrow> Inr (w', n = 0))
     else case find (\<lambda>t. tk_status t = TaskFailed) ts of
       Some t \<Rightarrow> Inl (StepFailure (failure_code t))
     | None \<Rightarrow>
         let done = list_all (\<lambda>t. tk_status t \<noteq> TaskPending \<and> tk_status t \<noteq> TaskClaimed) ts in
         if done \<and> ms_operation sp = OpReconcileCohortData \<and> \<not> reconciled ts
           then Inl (StepFailure ''MIGRATION_RECONCILIATION_MISMATCH'')
         else Inr (w, done))"

section \<open>Driving a run\<close>

definition is_open_task :: "task_row \<Rightarrow> bool" where
  "is_open_task t \<longleftrightarrow> tk_status t = TaskPending \<or> tk_status t = TaskClaimed"

definition cancel_open_tasks :: "string \<Rightarrow> exec_db \<Rightarrow> exec_db" where
  "cancel_open_tasks op w = w\<lparr>xd_tasks := map (\<lambda>t. if tk_operation_id t = op \<and> is_open_task t
     then t\<lparr>tk_status := TaskCancelled, tk_revision := tk_revision t + 1\<rparr> else t) (xd_tasks w)\<rparr>"

definition expire_migration_tasks :: "instant \<Rightarrow> exec_db \<Rightarrow> exec_db" where
  "expire_migration_tasks now w = w\<lparr>xd_tasks := map (\<lambda>t. if is_open_task t \<and> tk_deadline t \<le> now
     then t\<lparr>tk_status := TaskFailed, tk_result := Some \<lparr>tr_record_count = None, tr_content_digest = [], tr_reason_code = ''MIGRATION_TASK_TIMEOUT''\<rparr>,
            tk_reported_at := Some now, tk_revision := tk_revision t + 1\<rparr> else t) (xd_tasks w)\<rparr>"

datatype drive_end = DriveDone | DriveWaiting | DriveFailed string

fun drive_loop :: "executor \<Rightarrow> mig_transition \<Rightarrow> mig_step list \<Rightarrow> nat \<Rightarrow> exec_db \<Rightarrow> shifted \<Rightarrow>
    exec_error + (exec_db \<times> shifted \<times> nat \<times> drive_end)" where
  "drive_loop x t [] n w sh = Inr (w, sh, n, DriveDone)"
| "drive_loop x t (sp # sps) n w sh =
    (if engine_operation (ms_operation sp)
     then (case engine_step x sp w of
             Inl (StepFailure c) \<Rightarrow> Inr (w, sh, n, DriveFailed c)
           | Inl (StepAborts e) \<Rightarrow> Inl e
           | Inr (w', done) \<Rightarrow> if done then drive_loop x t sps (Suc n) w' sh else Inr (w', sh, n, DriveWaiting))
     else (case run_local x t sp w sh of
             Inl (StepFailure c) \<Rightarrow> Inr (w, sh, n, DriveFailed c)
           | Inl (StepAborts e) \<Rightarrow> Inl e
           | Inr (w', sh') \<Rightarrow> drive_loop x t sps (Suc n) w' sh'))"

text \<open>
  \<open>drive\<close>: run the steps from \<open>rn_next\<close> and record the operation, the run and the migration. A failed
  step undoes the local effects of the call (the savepoint); \<open>previous\<close> is the stage and the cohort
  before the transition was accepted, when the call accepted it.
\<close>

definition ended_stage :: "migration \<Rightarrow> run_row \<Rightarrow> (mig_stage \<times> string) option \<Rightarrow> bool \<Rightarrow> drive_end \<Rightarrow> mig_stage \<times> string" where
  "ended_stage m r previous issued e =
    (case e of
       DriveDone \<Rightarrow> (rn_target_stage r, rn_cohort r)
     | DriveWaiting \<Rightarrow> (if forward (rn_transition r) then rn_target_stage r else mm_stage m, rn_cohort r)
     | DriveFailed c \<Rightarrow>
         (case previous of
            Some p \<Rightarrow> if \<not> issued then p
                      else (if forward (rn_transition r) then rn_target_stage r else mm_stage m, rn_cohort r)
          | None \<Rightarrow> (if forward (rn_transition r) then rn_target_stage r else mm_stage m, rn_cohort r)))"

definition ended_status :: "drive_end \<Rightarrow> op_status" where
  "ended_status e = (case e of DriveDone \<Rightarrow> OpSucceeded | DriveWaiting \<Rightarrow> OpRunning | DriveFailed c \<Rightarrow> OpFailed)"

definition executor_of :: "exec_params \<Rightarrow> migration \<Rightarrow> mig_plan \<Rightarrow> instant \<Rightarrow> string \<Rightarrow> mig_transition \<Rightarrow> executor" where
  "executor_of xp m p now op t = \<lparr>xc_migration = m, xc_plan = p, xc_now = now, xc_operation_id = op,
     xc_direction = (if t = TransitionRollBack then DirectionReverse else DirectionForward), xc_params = xp\<rparr>"

definition drive :: "exec_params \<Rightarrow> migration \<Rightarrow> string \<Rightarrow> run_row \<Rightarrow> (mig_stage \<times> string) option \<Rightarrow> instant \<Rightarrow> exec_db \<Rightarrow> exec_error + exec_db" where
  "drive xp m op r previous now w =
    (let x = executor_of xp m (xd_plan w) now op (rn_transition r) in
     case drive_loop x (rn_transition r) (drop (rn_next r) (rn_steps r)) (rn_next r) w None of
       Inl e \<Rightarrow> Inl e
     | Inr (w1, sh1, n, e) \<Rightarrow>
         let failed = (case e of DriveFailed c \<Rightarrow> True | _ \<Rightarrow> False);
             w2 = (if failed then w else w1);
             sh = (if failed then None else sh1);
             issued = list_ex (\<lambda>t. tk_operation_id t = op) (xd_tasks w2);
             (stage, cohort) = ended_stage m r previous issued e;
             failure = (case e of DriveFailed c \<Rightarrow> c | _ \<Rightarrow> []);
             completed = (if e = DriveDone \<and> mig_terminal stage then Some now else mm_completed_at m);
             w3 = (if failed then cancel_open_tasks op w2 else w2);
             row = xd_migration w3 in
         Inr (w3\<lparr>xd_operations := (case xd_operations w3 op of None \<Rightarrow> xd_operations w3
                   | Some o' \<Rightarrow> (xd_operations w3)(op \<mapsto> o'\<lparr>eo_status := ended_status e, eo_phase := stage, eo_completed_steps := n,
                       eo_current_step := (if e \<noteq> DriveDone \<and> n < length (rn_steps r) then ms_step_id (rn_steps r ! n) else []),
                       eo_problem := failure, eo_completed_at := (if e = DriveWaiting then None else Some now)\<rparr>)),
                 xd_runs := (xd_runs w3)(op \<mapsto> r\<lparr>rn_next := n\<rparr>),
                 xd_migration := row\<lparr>mm_stage := stage, mm_current_cohort := cohort, mm_operation_id := op,
                   mm_shifted := shifted_base x sh, mm_failure_reason := failure, mm_started_at := mm_started_at m,
                   mm_completed_at := completed, mm_revision := mm_revision row + 1\<rparr>\<rparr>))"

text \<open>\<open>resume\<close>: continue the running advance from where it waits, or end it when it was asked to stop.\<close>

definition resume :: "exec_params \<Rightarrow> instant \<Rightarrow> exec_db \<Rightarrow> exec_error + exec_db" where
  "resume xp now w =
    (let m = xd_migration w; op = mm_operation_id m in
     case (xd_runs w op, xd_operations w op) of
       (Some r, Some o') \<Rightarrow>
         if eo_status o' = OpCancelRequested then
           (let w1 = cancel_open_tasks op w in
            Inr (w1\<lparr>xd_operations := (xd_operations w1)(op \<mapsto> o'\<lparr>eo_status := OpCancelled, eo_completed_at := Some now\<rparr>),
                     xd_migration := m\<lparr>mm_failure_reason := ''The advance was cancelled before it finished.'', mm_revision := mm_revision m + 1\<rparr>\<rparr>))
         else if eo_status o' = OpRunning then drive xp m op r None now w
         else Inr w
     | _ \<Rightarrow> Inr w)"

definition expire_and_resume :: "exec_params \<Rightarrow> instant \<Rightarrow> exec_db \<Rightarrow> exec_error + exec_db" where
  "expire_and_resume xp now w = resume xp now (expire_migration_tasks now w)"

definition settle :: "exec_params \<Rightarrow> instant \<Rightarrow> exec_db \<Rightarrow> exec_error + exec_db" where
  "settle xp now w = (if mm_operation_id (xd_migration w) = [] then Inr w else expire_and_resume xp now w)"

section \<open>Deciding on the plan\<close>

definition decide_migration ::
  "exec_params \<Rightarrow> exec_db \<Rightarrow> int \<Rightarrow> decision_request \<Rightarrow> string \<Rightarrow> string \<Rightarrow> instant \<Rightarrow> actor \<Rightarrow> exec_error + exec_db" where
  "decide_migration xp w expected req approval_id approver now a =
    (let m = xd_migration w; p = xd_plan w in
     if \<not> validate_actor a then Inl ExecInvalidActor
     else if mm_revision m \<noteq> expected then Inl ErrProviderMigrationRevisionMismatch
     else if mm_stage m \<noteq> StagePlan \<or> mm_approval_id m \<noteq> [] then Inl ErrProviderMigrationStageConflict
     else if approver = mm_created_by m then Inl ErrProviderMigrationSelfApproval
     else if dr_plan_id req \<noteq> mp_plan_id p \<or> dr_plan_version req \<noteq> mp_plan_version p \<or> dr_plan_digest req \<noteq> mp_plan_digest p
       then Inl ErrProviderMigrationPlanMismatch
     else case (if dr_decision req = DecisionApproved
                then (if mm_blocked m \<or> mp_blockers p \<noteq> [] then Inl ErrProviderMigrationBlocked
                      else case plan_stale xp w now of
                        Inl e \<Rightarrow> Inl e
                      | Inr st \<Rightarrow> if st then Inl ErrProviderMigrationPlanStale else Inr ())
                else Inr ()) of
            Inl e \<Rightarrow> Inl e
          | Inr _ \<Rightarrow>
              if list_ex (\<lambda>d. ap_plan_id d = mp_plan_id p \<or> ap_approval_id d = approval_id) (xd_approvals w) then Inl ErrProviderMigrationPlanDecided
              else let d = \<lparr>ap_approval_id = approval_id, ap_subject_id = mm_id m, ap_plan_id = mp_plan_id p, ap_plan_version = mp_plan_version p,
                       ap_plan_digest = mp_plan_digest p, ap_decision = dr_decision req, ap_reason = dr_reason req, ap_decided_by = approver,
                       ap_decided_by_subject = [], ap_decided_at = now\<rparr>;
                       w1 = w\<lparr>xd_approvals := xd_approvals w @ [d]\<rparr> in
                Inr (if dr_decision req = DecisionApproved
                     then w1\<lparr>xd_migration := m\<lparr>mm_approval_id := approval_id, mm_revision := mm_revision m + 1\<rparr>\<rparr> else w1))"

section \<open>Advancing\<close>

record advance =
  av_expected_revision :: int
  av_transition :: mig_transition
  av_operation_id :: string
  av_idempotency_key :: string
  av_request_hash :: string
  av_requested_by :: string
  av_now :: instant
  av_actor :: actor

definition prior_advance :: "exec_db \<Rightarrow> advance \<Rightarrow> exec_error + string option" where
  "prior_advance w av =
    (case xd_keys w (av_requested_by av, av_idempotency_key av) of
       None \<Rightarrow> Inr None
     | Some op \<Rightarrow>
         (case xd_operations w op of
            None \<Rightarrow> Inl ErrRowMissing
          | Some o' \<Rightarrow> if eo_request_hash o' \<noteq> av_request_hash av then Inl ErrOperationKeyReused else Inr (Some op)))"

definition operation_ended :: "op_status \<Rightarrow> bool" where
  "operation_ended s \<longleftrightarrow> s \<in> {OpSucceeded, OpFailed, OpCompensated, OpCompensationFailed, OpCancelled}"

definition operation_running :: "exec_db \<Rightarrow> exec_error option" where
  "operation_running w =
    (let op = mm_operation_id (xd_migration w) in
     if op = [] then None
     else case xd_operations w op of
       None \<Rightarrow> Some ErrRowMissing
     | Some o' \<Rightarrow> if operation_ended (eo_status o') then None else Some ErrProviderMigrationOperationRunning)"

text \<open>\<open>checkAdvanceAllowed\<close>.\<close>

definition advance_refused :: "exec_params \<Rightarrow> exec_db \<Rightarrow> advance \<Rightarrow> exec_error option" where
  "advance_refused xp w av =
    (let m = xd_migration w; p = xd_plan w; now = av_now av in
     if mm_approval_id m = [] then Some ErrProviderMigrationNotApproved
     else case find (\<lambda>d. ap_approval_id d = mm_approval_id m) (xd_approvals w) of
       None \<Rightarrow> Some ErrProviderMigrationNotApproved
     | Some d \<Rightarrow>
         if ap_decision d \<noteq> DecisionApproved \<or> ap_plan_digest d \<noteq> mp_plan_digest p then Some ErrProviderMigrationNotApproved
         else if ap_decided_by d = av_requested_by av then Some ErrProviderMigrationSelfExecution
         else if mm_blocked m \<or> mp_blockers p \<noteq> [] then Some ErrProviderMigrationBlocked
         else (case plan_stale xp w now of
            Inl e \<Rightarrow> Some e
          | Inr st \<Rightarrow>
              if st then Some ErrProviderMigrationPlanStale
              else (case mr_cutover_window (mp_request p) of
                      Some (starts, ends) \<Rightarrow> if moves_authority (av_transition av) \<and> (now < starts \<or> \<not> now < ends)
                                             then Some ErrProviderMigrationWindowClosed else None
                    | None \<Rightarrow> None)))"

definition cohort_order_error :: "mig_transition \<Rightarrow> migration \<Rightarrow> mig_plan \<Rightarrow> exec_error option" where
  "cohort_order_error t m p =
    (if t = TransitionValidate \<and> mm_current_cohort m \<notin> set (mm_shifted m) then Some ErrProviderMigrationStageConflict
     else if t = TransitionRetireOld \<and> \<not> last_cohort p (mm_current_cohort m) then Some ErrProviderMigrationStageConflict
     else None)"

definition step_name :: "mig_op \<Rightarrow> string" where
  "step_name op = map (\<lambda>c. if c = CHR ''_'' then CHR ''-'' else lower_char c) (op_name op)"

definition plain_step :: "string \<Rightarrow> mig_op \<Rightarrow> string \<Rightarrow> mig_step" where
  "plain_step key op k = \<lparr>ms_step_id = key, ms_operation = op, ms_depends_on = [],
     ms_resources = no_resources\<lparr>me_cohort_key := k\<rparr>, ms_irreversible = False\<rparr>"

definition compensation_steps :: "mig_op list \<Rightarrow> mig_step list" where
  "compensation_steps ops = map (\<lambda>op. plain_step (''compensate-'' @ step_name op) op []) ops"

definition step_key :: "string \<Rightarrow> mig_op \<Rightarrow> string" where
  "step_key pre op =
    (let i = pre @ ''-'' @ step_name op in if 64 < length i then trim_right_hyphens (take 64 i) else i)"

definition rollback_step :: "string \<Rightarrow> mig_op \<Rightarrow> mig_step" where
  "rollback_step k op = plain_step (step_key (''rollback-'' @ k) op) op k"

text \<open>\<open>rollbackSteps\<close>: release a frozen cohort, return the shifted ones, most recent first, remove the target bindings.\<close>

definition rollback_steps :: "migration \<Rightarrow> mig_plan \<Rightarrow> string \<Rightarrow> exec_error + mig_step list" where
  "rollback_steps m p frozen =
    (let strategy = mr_rollback_strategy (mp_request p) in
     if strategy = RollbackForwardFixOnly \<and> mm_shifted m \<noteq> [] then Inl ErrProviderMigrationNotReversible
     else Inr ((if frozen \<noteq> [] then map (rollback_step frozen) rollback_release else []) @
       concat (map (\<lambda>k. map (rollback_step k)
           (filter (\<lambda>op. \<not> (mp_migration_mode p = ModeStatelessRebind \<and> engine_operation op)) (rollback_ops strategy)))
         (rev (mm_shifted m))) @
       compensation_steps [OpRemoveMigrationBinding]))"

definition task_succeeded :: "exec_db \<Rightarrow> string \<Rightarrow> mig_op \<Rightarrow> direction \<Rightarrow> bool" where
  "task_succeeded w k op d \<longleftrightarrow>
     list_ex (\<lambda>t. tk_cohort t = k \<and> tk_operation t = op \<and> tk_direction t = d \<and> tk_status t = TaskSucceeded) (xd_tasks w)"

definition frozen_cohort :: "exec_db \<Rightarrow> string" where
  "frozen_cohort w =
    (let m = xd_migration w; k = mm_current_cohort m in
     if k = [] \<or> k \<in> set (mm_shifted m) then []
     else if task_succeeded w k OpFreezeCohortWrites DirectionForward \<and> \<not> task_succeeded w k OpUnfreezeCohortWrites DirectionReverse then k
     else [])"

text \<open>The steps an advance runs and the cohort it moves.\<close>

definition advance_steps :: "exec_db \<Rightarrow> mig_transition \<Rightarrow> exec_error + (mig_step list \<times> string)" where
  "advance_steps w t =
    (let m = xd_migration w; p = xd_plan w in
     if t = TransitionCancel then
       (if mm_shifted m \<noteq> [] then Inl ErrProviderMigrationStageConflict
        else Inr (compensation_steps cancel_compensation, mm_current_cohort m))
     else if t = TransitionRollBack then
       (case rollback_steps m p (frozen_cohort w) of Inl e \<Rightarrow> Inl e | Inr ss \<Rightarrow> Inr (ss, mm_current_cohort m))
     else case select_steps p (mm_current_cohort m) t of
       Inl e \<Rightarrow> Inl ErrProviderMigrationStageConflict
     | Inr (k, ss) \<Rightarrow> (case cohort_order_error t m p of Some e \<Rightarrow> Inl e | None \<Rightarrow> Inr (ss, k)))"

definition new_run :: "advance \<Rightarrow> mig_stage \<Rightarrow> mig_step list \<Rightarrow> string \<Rightarrow> run_row" where
  "new_run av target ss k = \<lparr>rn_transition = av_transition av, rn_cohort = k, rn_steps = ss, rn_next = 0, rn_target_stage = target\<rparr>"

definition accepted :: "exec_db \<Rightarrow> advance \<Rightarrow> string \<Rightarrow> migration" where
  "accepted w av k = (xd_migration w)\<lparr>mm_operation_id := av_operation_id av, mm_current_cohort := k,
     mm_started_at := (if av_transition av = TransitionPrepare \<and> mm_started_at (xd_migration w) = None then Some (av_now av)
       else mm_started_at (xd_migration w))\<rparr>"

definition accept_advance :: "exec_db \<Rightarrow> advance \<Rightarrow> mig_stage \<Rightarrow> mig_step list \<Rightarrow> string \<Rightarrow> exec_db" where
  "accept_advance w av target ss k =
     w\<lparr>xd_operations := (xd_operations w)(av_operation_id av \<mapsto>
         \<lparr>eo_status = OpRunning, eo_plan_digest = mp_plan_digest (xd_plan w), eo_approval_id = mm_approval_id (xd_migration w),
          eo_requested_by = av_requested_by av, eo_request_hash = av_request_hash av, eo_phase = target, eo_completed_steps = 0,
          eo_total_steps = length ss, eo_current_step = [], eo_problem = [], eo_completed_at = None\<rparr>),
       xd_keys := (xd_keys w)((av_requested_by av, av_idempotency_key av) \<mapsto> av_operation_id av),
       xd_runs := (xd_runs w)(av_operation_id av \<mapsto> new_run av target ss k)\<rparr>"

text \<open>The transaction of an advance after the running one was settled: the database and the operation.\<close>

definition advance_tx :: "exec_params \<Rightarrow> exec_db \<Rightarrow> advance \<Rightarrow> exec_error + (exec_db \<times> string)" where
  "advance_tx xp w av =
    (let m = xd_migration w; t = av_transition av; op = av_operation_id av in
     case prior_advance w av of
       Inl e \<Rightarrow> Inl e
     | Inr (Some o') \<Rightarrow> Inr (w, o')
     | Inr None \<Rightarrow>
         if mm_revision m \<noteq> av_expected_revision av then Inl ErrProviderMigrationRevisionMismatch
         else (case mig_next (mm_stage m) t of
            Inl e \<Rightarrow> Inl ErrProviderMigrationStageConflict
          | Inr target \<Rightarrow>
              (case operation_running w of
                 Some e \<Rightarrow> Inl e
               | None \<Rightarrow>
                   (case (if forward t then advance_refused xp w av else None) of
                      Some e \<Rightarrow> Inl e
                    | None \<Rightarrow>
                        (case advance_steps w t of
                           Inl e \<Rightarrow> Inl e
                         | Inr (ss, k) \<Rightarrow>
                             if xd_operations w op \<noteq> None then Inl (ErrIdentifierTaken op)
                             else (case drive xp (accepted w av k) op (new_run av target ss k) (Some (mm_stage m, mm_current_cohort m))
                                          (av_now av) (accept_advance w av target ss k) of
                                     Inl e \<Rightarrow> Inl e
                                   | Inr w' \<Rightarrow> Inr (w', op)))))))"

definition advance_migration :: "exec_params \<Rightarrow> exec_db \<Rightarrow> advance \<Rightarrow> exec_db \<times> (exec_error + string)" where
  "advance_migration xp w av =
    (if \<not> validate_actor (av_actor av) then (w, Inl ExecInvalidActor)
     else case prior_advance w av of
       Inl e \<Rightarrow> (w, Inl e)
     | Inr (Some op) \<Rightarrow> (w, Inr op)
     | Inr None \<Rightarrow>
         (case settle xp (av_now av) w of
            Inl e \<Rightarrow> (w, Inl e)
          | Inr w1 \<Rightarrow> (case advance_tx xp w1 av of Inl e \<Rightarrow> (w1, Inl e) | Inr (w2, op) \<Rightarrow> (w2, Inr op))))"

section \<open>The tasks of engine workloads\<close>

definition task_for_client :: "exec_db \<Rightarrow> string \<Rightarrow> string \<Rightarrow> task_row option" where
  "task_for_client w key client =
    (if client = [] then None
     else find (\<lambda>t. tk_id t = key \<and> xd_workloads w (tk_instance t) = Some client) (xd_tasks w))"

definition update_task :: "string \<Rightarrow> (task_row \<Rightarrow> task_row) \<Rightarrow> exec_db \<Rightarrow> exec_db" where
  "update_task key f w = w\<lparr>xd_tasks := map (\<lambda>t. if tk_id t = key then (f t)\<lparr>tk_revision := tk_revision t + 1\<rparr> else t) (xd_tasks w)\<rparr>"

definition release_lapsed :: "exec_db \<Rightarrow> string \<Rightarrow> instant \<Rightarrow> exec_db" where
  "release_lapsed w client now = (if client = [] then w else
     w\<lparr>xd_tasks := map (\<lambda>t. if xd_workloads w (tk_instance t) = Some client \<and> tk_status t = TaskClaimed \<and>
         (case tk_lease t of None \<Rightarrow> False | Some l \<Rightarrow> l \<le> now)
       then t\<lparr>tk_status := TaskPending, tk_claimed_by := [], tk_lease := None, tk_attempt := tk_attempt t + 1, tk_revision := tk_revision t + 1\<rparr>
       else t) (xd_tasks w)\<rparr>)"

text \<open>\<open>ListEngineMigrationTasks\<close>: lapsed leases are released, then the first page of open tasks after the token.\<close>

definition list_tasks :: "exec_db \<Rightarrow> string \<Rightarrow> string \<Rightarrow> instant \<Rightarrow> exec_db \<times> task_row list" where
  "list_tasks w client token now =
    (let w' = release_lapsed w client now in
     (w', if client = [] then [] else take 100 (sort_key tk_id (filter (\<lambda>t. xd_workloads w' (tk_instance t) = Some client \<and>
        is_open_task t \<and> now < tk_deadline t \<and> token < tk_id t) (xd_tasks w')))))"

definition lease_live :: "task_row \<Rightarrow> instant \<Rightarrow> bool" where
  "lease_live t now \<longleftrightarrow> (case tk_lease t of None \<Rightarrow> False | Some l \<Rightarrow> now < l)"

definition task_lease :: duration where
  "task_lease = duration_of 300 second_ns"

definition claim_task :: "exec_params \<Rightarrow> exec_db \<Rightarrow> string \<Rightarrow> int \<Rightarrow> string \<Rightarrow> instant \<Rightarrow> exec_db \<times> exec_error option" where
  "claim_task xp w key expected client now =
    (case task_for_client w key client of
       None \<Rightarrow> (w, Some ErrEngineMigrationTaskNotFound)
     | Some t \<Rightarrow>
         if is_open_task t \<and> \<not> now < tk_deadline t then
           (case expire_and_resume xp now w of Inl e \<Rightarrow> (w, Some e) | Inr w' \<Rightarrow> (w', Some ErrEngineMigrationTaskFinal))
         else if \<not> is_open_task t then (w, Some ErrEngineMigrationTaskFinal)
         else if tk_revision t \<noteq> expected then (w, Some ErrEngineMigrationTaskRevision)
         else if tk_status t = TaskClaimed \<and> lease_live t now \<and> tk_claimed_by t \<noteq> client then (w, Some ErrEngineMigrationTaskClaimed)
         else (update_task key (\<lambda>u. u\<lparr>tk_status := TaskClaimed, tk_claimed_by := client, tk_lease := Some (now + task_lease),
                 tk_attempt := tk_attempt t + (if tk_status t = TaskClaimed \<and> \<not> lease_live t now then 1 else 0)\<rparr>) w, None))"

record task_report =
  tq_outcome :: task_status
  tq_record_count :: "int option"
  tq_content_digest :: string
  tq_reason_code :: string

definition report_invalid :: "exec_params \<Rightarrow> task_row \<Rightarrow> task_report \<Rightarrow> bool" where
  "report_invalid xp t r \<longleftrightarrow>
     tq_outcome r = TaskFailed \<and> \<not> xp_registered_failure xp (tq_reason_code r) \<or>
     tq_outcome r = TaskSucceeded \<and> tq_reason_code r \<noteq> [] \<or>
     tq_outcome r = TaskSucceeded \<and> tk_operation t = OpReconcileCohortData \<and> (tq_record_count r = None \<or> tq_content_digest r = [])"

definition report_task ::
  "exec_params \<Rightarrow> exec_db \<Rightarrow> string \<Rightarrow> int \<Rightarrow> string \<Rightarrow> task_report \<Rightarrow> string \<Rightarrow> instant \<Rightarrow> exec_db \<times> exec_error option" where
  "report_task xp w key expected client r hash now =
    (case task_for_client w key client of
       None \<Rightarrow> (w, Some ErrEngineMigrationTaskNotFound)
     | Some t \<Rightarrow>
         if \<not> is_open_task t then
           (w, if tk_report_hash t \<noteq> [] \<and> tk_report_hash t = hash then None else Some ErrEngineMigrationTaskFinal)
         else if \<not> now < tk_deadline t then
           (case expire_and_resume xp now w of Inl e \<Rightarrow> (w, Some e) | Inr w' \<Rightarrow> (w', Some ErrEngineMigrationTaskFinal))
         else if tk_revision t \<noteq> expected then (w, Some ErrEngineMigrationTaskRevision)
         else if tk_status t \<noteq> TaskClaimed \<or> tk_claimed_by t \<noteq> client \<or> \<not> lease_live t now then (w, Some ErrEngineMigrationTaskLeaseExpired)
         else if report_invalid xp t r then (w, Some ErrEngineMigrationTaskReportInvalid)
         else (case resume xp now (update_task key (\<lambda>u. u\<lparr>tk_status := tq_outcome r,
                   tk_result := Some \<lparr>tr_record_count = tq_record_count r, tr_content_digest = tq_content_digest r, tr_reason_code = tq_reason_code r\<rparr>,
                   tk_report_hash := hash, tk_reported_at := Some now\<rparr>) w) of
                 Inl e \<Rightarrow> (w, Some e)
               | Inr w' \<Rightarrow> (w', None)))"

text \<open>\<open>CancelOperation\<close> on a running advance.\<close>

definition request_cancel :: "exec_db \<Rightarrow> string \<Rightarrow> exec_db" where
  "request_cancel w op =
    (case xd_operations w op of
       None \<Rightarrow> w
     | Some o' \<Rightarrow> if eo_status o' \<in> {OpPreparing, OpRunning} then w\<lparr>xd_operations := (xd_operations w)(op \<mapsto> o'\<lparr>eo_status := OpCancelRequested\<rparr>)\<rparr> else w)"

end
