(* ===== verification/Migration_Authority.thy ===== *)
theory Migration_Authority
  imports Migration_Exec
begin

text \<open>
  What running a provider migration keeps: for every binding the migration moves, exactly one of the
  source and the target binding is authoritative, whatever the sequence of commands, reports,
  failures and cancellations; and an ended migration leaves the authority on the side its stage
  says.

  The proofs go through \<open>moved\<close>, the effect every local step has on the ledger and the bindings,
  and \<open>mid\<close>, what holds between the steps of a run of one transition.
\<close>

section \<open>The ledger and the bindings agree\<close>

definition is_live :: "binding_rec \<Rightarrow> bool" where
  "is_live b \<longleftrightarrow> to_lower (bg_status b) = ''active''"

definition row_modes :: "ledger_row \<Rightarrow> binding_rec \<Rightarrow> binding_rec \<Rightarrow> bool" where
  "row_modes l s t =
    (case lg_state l of
       LedgerPrepared \<Rightarrow> bg_mode s = lg_mode l \<and> is_live s \<and> bg_mode t = ''MIGRATION'' \<and> is_live t
     | LedgerShifted \<Rightarrow> bg_mode s = ''MIGRATION'' \<and> is_live s \<and> bg_mode t = lg_mode l \<and> is_live t
     | LedgerRetired \<Rightarrow> bg_mode s = ''MIGRATION'' \<and> \<not> is_live s \<and> bg_mode t = lg_mode l \<and> is_live t
     | LedgerRemoved \<Rightarrow> bg_mode s = lg_mode l \<and> is_live s \<and> bg_mode t = ''MIGRATION'' \<and> \<not> is_live t)"

definition row_ok :: "(string \<Rightarrow> binding_rec option) \<Rightarrow> ledger_row \<Rightarrow> bool" where
  "row_ok bs l \<longleftrightarrow> is_authoritative_mode (lg_mode l) \<and>
     (\<exists>s t. bs (lg_source l) = Some s \<and> bs (lg_target l) = Some t \<and> row_modes l s t \<and>
        bg_capability t = bg_capability s \<and> bg_scope t = bg_scope s)"

definition ledger_ok :: "exec_db \<Rightarrow> bool" where
  "ledger_ok w \<longleftrightarrow> distinct (map lg_source (xd_ledger w) @ map lg_target (xd_ledger w)) \<and>
     (\<forall>l \<in> set (xd_ledger w). row_ok (xd_bindings w) l)"

text \<open>The fields of a binding no step of a migration changes.\<close>

definition identity :: "binding_rec \<Rightarrow> string \<times> string \<times> string \<times> int \<times> string \<times> string" where
  "identity b = (bg_capability b, bg_instance b, bg_scope b, bg_priority b, bg_contract_version b, bg_provider b)"

text \<open>
  The effect of a local step: the rows of \<open>P\<close> take the state \<open>st\<close>, only ledger and bindings change,
  and of the bindings only those of the ledger, which keep their identity.
\<close>

definition rest_of :: "exec_db \<Rightarrow> exec_db" where
  "rest_of w = w\<lparr>xd_ledger := [], xd_bindings := Map.empty\<rparr>"

definition moved :: "ledger_state \<Rightarrow> (ledger_row \<Rightarrow> bool) \<Rightarrow> exec_db \<Rightarrow> exec_db \<Rightarrow> bool" where
  "moved st P w w' \<longleftrightarrow> ledger_ok w' \<and> rest_of w' = rest_of w \<and>
     xd_ledger w' = map (\<lambda>r. if P r then r\<lparr>lg_state := st\<rparr> else r) (xd_ledger w) \<and>
     (\<forall>i. map_option identity (xd_bindings w' i) = map_option identity (xd_bindings w i)) \<and>
     (\<forall>i. i \<notin> set (map lg_source (xd_ledger w) @ map lg_target (xd_ledger w)) \<longrightarrow> xd_bindings w' i = xd_bindings w i)"

lemma ledger_okD:
  assumes "ledger_ok w" and "l \<in> set (xd_ledger w)"
  shows "row_ok (xd_bindings w) l" and "l' \<in> set (xd_ledger w) \<Longrightarrow> lg_source l' = lg_source l \<Longrightarrow> l' = l"
    and "l' \<in> set (xd_ledger w) \<Longrightarrow> lg_target l' = lg_target l \<Longrightarrow> l' = l"
    and "l' \<in> set (xd_ledger w) \<Longrightarrow> lg_source l' \<noteq> lg_target l"
  using assms unfolding ledger_ok_def by (auto simp: distinct_map inj_on_def)

text \<open>Moving one row.\<close>

lemma moved_one:
  assumes "ledger_ok w" and l: "l \<in> set (xd_ledger w)"
    and frame: "rest_of w' = rest_of w"
    and ledger: "xd_ledger w' = map (\<lambda>r. if lg_source r = lg_source l then r\<lparr>lg_state := st\<rparr> else r) (xd_ledger w)"
    and same: "\<And>i. i \<noteq> lg_source l \<Longrightarrow> i \<noteq> lg_target l \<Longrightarrow> xd_bindings w' i = xd_bindings w i"
    and ident: "\<And>i. map_option identity (xd_bindings w' i) = map_option identity (xd_bindings w i)"
    and row: "row_ok (xd_bindings w') (l\<lparr>lg_state := st\<rparr>)"
  shows "moved st (\<lambda>r. lg_source r = lg_source l) w w'"
proof -
  note D = ledger_okD [OF assms(1)]
  have "row_ok (xd_bindings w') r'" if "r' \<in> set (xd_ledger w')" for r'
  proof -
    from that ledger obtain r where r: "r \<in> set (xd_ledger w)" "r' = (if lg_source r = lg_source l then r\<lparr>lg_state := st\<rparr> else r)" by auto
    show ?thesis
    proof (cases "lg_source r = lg_source l")
      case True
      with D(2) [OF l r(1)] r(2) row show ?thesis by simp
    next
      case False
      then have "r \<noteq> l" by auto
      have "lg_source r \<noteq> lg_target l" "lg_target r \<noteq> lg_source l" "lg_target r \<noteq> lg_target l"
        using D(4) [OF l r(1)] D(4) [OF r(1) l] D(3) [OF l r(1)] \<open>r \<noteq> l\<close> by auto
      with False same have "xd_bindings w' (lg_source r) = xd_bindings w (lg_source r)"
        "xd_bindings w' (lg_target r) = xd_bindings w (lg_target r)" by auto
      with D(1) [OF r(1)] False r(2) show ?thesis by (simp add: row_ok_def)
    qed
  qed
  moreover have "map lg_source (xd_ledger w') = map lg_source (xd_ledger w)" "map lg_target (xd_ledger w') = map lg_target (xd_ledger w)"
    by (simp_all add: ledger)
  ultimately have "ledger_ok w'" using assms(1) unfolding ledger_ok_def by simp
  moreover have "xd_bindings w' i = xd_bindings w i" if "i \<notin> set (map lg_source (xd_ledger w) @ map lg_target (xd_ledger w))" for i
    using that l same by auto
  ultimately show ?thesis unfolding moved_def using frame ledger ident by blast
qed

lemma moved_trans:
  assumes "moved st P w w1" and "moved st Q w1 w2" and "\<And>r. Q (r\<lparr>lg_state := st\<rparr>) = Q r"
  shows "moved st (\<lambda>r. P r \<or> Q r) w w2"
proof -
  have keys: "map lg_source (xd_ledger w1) = map lg_source (xd_ledger w)" "map lg_target (xd_ledger w1) = map lg_target (xd_ledger w)"
    using assms(1) by (auto simp: moved_def)
  have "xd_ledger w2 = map (\<lambda>r. if P r \<or> Q r then r\<lparr>lg_state := st\<rparr> else r) (xd_ledger w)"
    using assms by (auto simp: moved_def)
  moreover have "xd_bindings w2 i = xd_bindings w i" if "i \<notin> set (map lg_source (xd_ledger w) @ map lg_target (xd_ledger w))" for i
    using assms(1,2) that keys unfolding moved_def by metis
  moreover have "ledger_ok w2" "rest_of w2 = rest_of w" "map_option identity (xd_bindings w2 i) = map_option identity (xd_bindings w i)" for i
    using assms(1,2) unfolding moved_def by metis+
  ultimately show ?thesis unfolding moved_def by blast
qed

lemma moved_none:
  assumes "ledger_ok w" and "\<And>r. r \<in> set (xd_ledger w) \<Longrightarrow> \<not> P r"
  shows "moved st P w w"
  using assms by (auto simp: moved_def map_idI)

lemma moved_cong:
  assumes "moved st P w w'" and "\<And>r. r \<in> set (xd_ledger w) \<Longrightarrow> P r = Q r"
  shows "moved st Q w w'"
  using assms by (auto simp: moved_def cong: map_cong)

text \<open>Moving rows one after the other: an unprocessed row is still as it was.\<close>

lemma fold_moved:
  assumes "ledger_ok w" and "set rows \<subseteq> set (xd_ledger w)" and "distinct (map lg_source rows)"
    and step: "\<And>l w1 w2. ledger_ok w1 \<Longrightarrow> l \<in> set (xd_ledger w1) \<Longrightarrow> l \<in> set rows \<Longrightarrow> f l w1 = Inr w2 \<Longrightarrow>
      moved st (\<lambda>r. lg_source r = lg_source l) w1 w2"
    and "fold_result f rows w = Inr w'"
  shows "moved st (\<lambda>r. lg_source r \<in> lg_source ` set rows) w w'"
  using assms
proof (induction rows arbitrary: w)
  case Nil
  then show ?case by (simp add: moved_none)
next
  case (Cons l rows)
  from Cons.prems(5) obtain w1 where w1: "f l w = Inr w1" and rest: "fold_result f rows w1 = Inr w'" by (auto split: sum.splits)
  have m1: "moved st (\<lambda>r. lg_source r = lg_source l) w w1" using Cons.prems(1,2,4) w1 by auto
  have sub: "set rows \<subseteq> set (xd_ledger w1)"
  proof
    fix r assume r: "r \<in> set rows"
    from Cons.prems(3) have "lg_source l \<notin> lg_source ` set rows" by simp
    with r have "lg_source r \<noteq> lg_source l" by (metis imageI)
    moreover from r Cons.prems(2) have "r \<in> set (xd_ledger w)" by auto
    moreover from m1 have "xd_ledger w1 = map (\<lambda>r. if lg_source r = lg_source l then r\<lparr>lg_state := st\<rparr> else r) (xd_ledger w)"
      by (simp add: moved_def)
    ultimately show "r \<in> set (xd_ledger w1)" by force
  qed
  have "moved st (\<lambda>r. lg_source r \<in> lg_source ` set rows) w1 w'"
  proof (rule Cons.IH [OF _ sub _ _ rest])
    show "ledger_ok w1" using m1 by (simp add: moved_def)
    show "distinct (map lg_source rows)" using Cons.prems(3) by simp
    show "moved st (\<lambda>r. lg_source r = lg_source l') v v'" if "ledger_ok v" "l' \<in> set (xd_ledger v)" "l' \<in> set rows" "f l' v = Inr v'" for l' v v'
      using Cons.prems(4) [OF that(1,2) _ that(4)] that(3) by simp
  qed
  from moved_trans [OF m1 this] show ?case by (rule moved_cong) auto
qed

lemma fold_as_result: "fold f rows w = w' \<longleftrightarrow> fold_result (\<lambda>l w. Inr (f l w)) rows w = (Inr w' :: unit + 'a)"
  by (induction rows arbitrary: w) auto

lemma ledger_rows_set: "set (ledger_rows w P) = {l \<in> set (xd_ledger w). P l}"
  by (simp add: ledger_rows_def)

lemma ledger_rows_distinct: "ledger_ok w \<Longrightarrow> distinct (map lg_source (ledger_rows w P))"
  unfolding ledger_rows_def ledger_ok_def by (auto simp: distinct_map inj_on_def)

section \<open>Each local step\<close>

lemma update_binding_fields:
  "xd_bindings (update_binding i f w) = (xd_bindings w)(i := map_option (\<lambda>b. (f b)\<lparr>bg_version := bg_version b + 1\<rparr>) (xd_bindings w i))"
  "xd_ledger (update_binding i f w) = xd_ledger w"
  "rest_of (update_binding i f w) = rest_of w"
  by (auto simp: update_binding_def rest_of_def fun_eq_iff split: option.splits)

lemma set_ledger_fields:
  "xd_ledger (set_ledger i st w) = map (\<lambda>r. if lg_source r = i then r\<lparr>lg_state := st\<rparr> else r) (xd_ledger w)"
  "xd_bindings (set_ledger i st w) = xd_bindings w" "rest_of (set_ledger i st w) = rest_of w"
  by (simp_all add: set_ledger_def rest_of_def)

lemmas move_simps = update_binding_fields set_ledger_fields set_mode_def retire_binding_def

lemma identity_update [simp]:
  "identity (b\<lparr>bg_mode := m, bg_version := v\<rparr>) = identity b"
  "identity (b\<lparr>bg_status := s, bg_effective_to := e, bg_version := v\<rparr>) = identity b"
  by (simp_all add: identity_def)

lemma retired_not_live: "\<not> is_live (b\<lparr>bg_status := ''RETIRED'', bg_effective_to := e, bg_version := v\<rparr>)"
  by (simp add: is_live_def to_lower_def lower_char_def char_class_defs)

lemma source_not_target: "ledger_ok w \<Longrightarrow> l \<in> set (xd_ledger w) \<Longrightarrow> lg_target l \<noteq> lg_source l"
  using ledger_okD(4) by metis

lemma shift_one_moved:
  assumes "ledger_ok w" and "l \<in> set (xd_ledger w)" and "shift_one l w = Inr w'"
  shows "moved LedgerShifted (\<lambda>r. lg_source r = lg_source l) w w'" and "lg_state l = LedgerPrepared"
proof -
  from assms(3) show p: "lg_state l = LedgerPrepared" by (auto simp: shift_one_def split: if_splits)
  from assms(3) p have w': "w' = set_ledger (lg_source l) LedgerShifted (set_mode (lg_target l) (lg_mode l) (set_mode (lg_source l) ''MIGRATION'' w))"
    by (simp add: shift_one_def)
  from ledger_okD(1) [OF assms(1,2)] p obtain s t where st: "xd_bindings w (lg_source l) = Some s" "xd_bindings w (lg_target l) = Some t"
    "is_live s" "is_live t" "is_authoritative_mode (lg_mode l)"
    "bg_capability t = bg_capability s" "bg_scope t = bg_scope s" by (auto simp: row_ok_def row_modes_def)
  note ne = source_not_target [OF assms(1,2)]
  show "moved LedgerShifted (\<lambda>r. lg_source r = lg_source l) w w'"
    by (rule moved_one [OF assms(1,2)]) (use st ne in \<open>simp_all add: w' move_simps row_ok_def row_modes_def is_live_def\<close>)
qed

lemma unshift_one_moved:
  assumes "ledger_ok w" and "l \<in> set (xd_ledger w)" and p: "lg_state l = LedgerShifted"
  shows "moved LedgerPrepared (\<lambda>r. lg_source r = lg_source l) w (unshift_one l w)"
proof -
  from ledger_okD(1) [OF assms(1,2)] p obtain s t where st: "xd_bindings w (lg_source l) = Some s" "xd_bindings w (lg_target l) = Some t"
    "is_live s" "is_live t" "is_authoritative_mode (lg_mode l)"
    "bg_capability t = bg_capability s" "bg_scope t = bg_scope s" by (auto simp: row_ok_def row_modes_def)
  note ne = source_not_target [OF assms(1,2)]
  show ?thesis
    by (rule moved_one [OF assms(1,2)]) (use st ne in \<open>simp_all add: unshift_one_def move_simps row_ok_def row_modes_def is_live_def\<close>)
qed

lemma retire_one_moved:
  assumes "ledger_ok w" and "l \<in> set (xd_ledger w)" and "retire_one now l w = Inr w'"
  shows "moved LedgerRetired (\<lambda>r. lg_source r = lg_source l) w w'" and "lg_state l = LedgerShifted"
proof -
  from assms(3) show p: "lg_state l = LedgerShifted" by (auto simp: retire_one_def split: if_splits)
  from assms(3) p have w': "w' = set_ledger (lg_source l) LedgerRetired (retire_binding (lg_source l) now w)" by (simp add: retire_one_def)
  from ledger_okD(1) [OF assms(1,2)] p obtain s t where st: "xd_bindings w (lg_source l) = Some s" "xd_bindings w (lg_target l) = Some t"
    "bg_mode s = ''MIGRATION''" "bg_mode t = lg_mode l" "is_live t" "is_authoritative_mode (lg_mode l)"
    "bg_capability t = bg_capability s" "bg_scope t = bg_scope s" by (auto simp: row_ok_def row_modes_def)
  note ne = source_not_target [OF assms(1,2)]
  show "moved LedgerRetired (\<lambda>r. lg_source r = lg_source l) w w'"
    by (rule moved_one [OF assms(1,2)]) (use st ne in \<open>simp_all add: w' move_simps row_ok_def row_modes_def retired_not_live\<close>)
qed

lemma remove_one_moved:
  assumes "ledger_ok w" and "l \<in> set (xd_ledger w)" and p: "lg_state l = LedgerPrepared"
  shows "moved LedgerRemoved (\<lambda>r. lg_source r = lg_source l) w (remove_one now l w)"
proof -
  from ledger_okD(1) [OF assms(1,2)] p obtain s t where st: "xd_bindings w (lg_source l) = Some s" "xd_bindings w (lg_target l) = Some t"
    "bg_mode s = lg_mode l" "is_live s" "bg_mode t = ''MIGRATION''" "is_authoritative_mode (lg_mode l)"
    "bg_capability t = bg_capability s" "bg_scope t = bg_scope s" by (auto simp: row_ok_def row_modes_def)
  note ne = source_not_target [OF assms(1,2)]
  show ?thesis
    by (rule moved_one [OF assms(1,2)]) (use st ne in \<open>simp_all add: remove_one_def move_simps row_ok_def row_modes_def retired_not_live\<close>)
qed

text \<open>The whole cohort, capability or remainder.\<close>

lemma rows_moved:
  assumes ok: "ledger_ok w" and "\<And>l w1 w2. ledger_ok w1 \<Longrightarrow> l \<in> set (xd_ledger w1) \<Longrightarrow> P l \<Longrightarrow> f l w1 = Inr w2 \<Longrightarrow>
      moved st (\<lambda>r. lg_source r = lg_source l) w1 w2" and "fold_result f (ledger_rows w P) w = Inr w'"
  shows "moved st P w w'"
proof -
  have "moved st (\<lambda>r. lg_source r \<in> lg_source ` set (ledger_rows w P)) w w'"
    by (rule fold_moved [OF ok _ ledger_rows_distinct [OF ok] _ assms(3)]) (use assms(2) in \<open>auto simp: ledger_rows_set\<close>)
  then show ?thesis
    by (rule moved_cong) (use ledger_okD(2) [OF ok] in \<open>auto simp: ledger_rows_set image_iff\<close>)
qed

lemma shift_cohort_moved:
  assumes "ledger_ok w" and "shift_cohort sp w = Inr w'"
  shows "moved LedgerShifted (\<lambda>l. lg_cohort l = me_cohort_key (ms_resources sp)) w w'"
  by (rule rows_moved [OF assms(1), where f = shift_one])
    (use assms(2) shift_one_moved(1) in \<open>auto simp: shift_cohort_def Let_def split: if_splits\<close>)

lemma unshift_cohort_moved:
  assumes "ledger_ok w"
  shows "moved LedgerPrepared (\<lambda>l. lg_cohort l = k \<and> lg_state l = LedgerShifted) w (unshift_cohort k w)"
  by (rule rows_moved [OF assms, where f = "\<lambda>l w. Inr (unshift_one l w) :: unit + exec_db"])
    (auto simp: unshift_cohort_def fold_as_result [symmetric] intro: unshift_one_moved)

lemma retire_source_moved:
  assumes "ledger_ok w" and "retire_source now c w = Inr w'"
  shows "moved LedgerRetired (\<lambda>l. lg_capability l = c) w w'"
  by (rule rows_moved [OF assms(1), where f = "retire_one now"]) (use assms(2) retire_one_moved(1) in \<open>auto simp: retire_source_def\<close>)

lemma remove_bindings_moved:
  assumes "ledger_ok w"
  shows "moved LedgerRemoved (\<lambda>l. lg_state l = LedgerPrepared) w (remove_migration_bindings now w)"
  by (rule rows_moved [OF assms, where f = "\<lambda>l w. Inr (remove_one now l w) :: unit + exec_db"])
    (auto simp: remove_migration_bindings_def fold_as_result [symmetric] intro: remove_one_moved)

section \<open>Between the steps of a run\<close>

text \<open>What no step changes.\<close>

definition core :: "exec_db \<Rightarrow> exec_db" where
  "core w = w\<lparr>xd_ledger := [], xd_bindings := Map.empty, xd_binding_ids := [], xd_minted := 0, xd_tasks := []\<rparr>"

lemma core_fields:
  assumes "core w' = core w"
  shows "xd_migration w' = xd_migration w" and "xd_plan w' = xd_plan w" and "xd_approvals w' = xd_approvals w"
    and "xd_operations w' = xd_operations w" and "xd_keys w' = xd_keys w" and "xd_runs w' = xd_runs w"
    and "xd_scopes w' = xd_scopes w" and "xd_workloads w' = xd_workloads w" and "xd_providers w' = xd_providers w"
    and "xd_instances w' = xd_instances w" and "xd_open w' = xd_open w"
  using assms by (cases w, cases w', simp add: core_def)+

lemma rest_core: "rest_of w' = rest_of w \<Longrightarrow> core w' = core w \<and> xd_tasks w' = xd_tasks w"
  by (cases w, cases w') (simp add: core_def rest_of_def)

definition agrees :: "exec_db \<Rightarrow> string list \<Rightarrow> bool" where
  "agrees w ks \<longleftrightarrow> (\<forall>l \<in> set (xd_ledger w). lg_state l = (if lg_cohort l \<in> set ks then LedgerShifted else LedgerPrepared))"

definition all_in :: "ledger_state \<Rightarrow> exec_db \<Rightarrow> bool" where
  "all_in st w \<longleftrightarrow> (\<forall>l \<in> set (xd_ledger w). lg_state l = st)"

definition retires :: "mig_step list \<Rightarrow> string \<Rightarrow> bool" where
  "retires sps c \<longleftrightarrow> (\<exists>s \<in> set sps. ms_operation s = OpRetireSourceBinding \<and> me_capability_key (ms_resources s) = c)"

definition returns :: "mig_step list \<Rightarrow> string \<Rightarrow> bool" where
  "returns sps k \<longleftrightarrow> (\<exists>s \<in> set sps. ms_operation s = OpShiftCohort \<and> me_cohort_key (ms_resources s) = k)"

definition removes_last :: "mig_op set \<Rightarrow> mig_step list \<Rightarrow> bool" where
  "removes_last ops sps \<longleftrightarrow> sps \<noteq> [] \<and> ms_operation (last sps) = OpRemoveMigrationBinding \<and> (\<forall>s \<in> set (butlast sps). ms_operation s \<in> ops)"

text \<open>With the steps \<open>sps\<close> still to run and \<open>ks\<close> shifted.\<close>

definition mid :: "mig_transition \<Rightarrow> mig_step list \<Rightarrow> exec_db \<Rightarrow> string list \<Rightarrow> bool" where
  "mid t sps w ks =
    (case t of
       TransitionPrepare \<Rightarrow> ks = [] \<and> all_in LedgerPrepared w
     | TransitionRetireOld \<Rightarrow> (\<forall>l \<in> set (xd_ledger w). lg_state l = LedgerRetired \<or> retires sps (lg_capability l))
     | TransitionComplete \<Rightarrow> all_in LedgerRetired w
     | TransitionCancel \<Rightarrow>
         if sps = [] then all_in LedgerRemoved w else ks = [] \<and> all_in LedgerPrepared w \<and> removes_last {OpStopShadow} sps
     | TransitionRollBack \<Rightarrow>
         if sps = [] then all_in LedgerRemoved w
         else agrees w ks \<and> removes_last (set stateful_sequence) sps \<and> (\<forall>k \<in> set ks. returns (butlast sps) k)
     | _ \<Rightarrow> agrees w ks)"

definition may_run :: "mig_transition \<Rightarrow> mig_step \<Rightarrow> bool" where
  "may_run t sp \<longleftrightarrow> (forward t \<longrightarrow> (\<exists>sc ops. stage_steps t = Some (sc, ops) \<and> ms_operation sp \<in> set ops))"

lemma all_in_agrees: "agrees w [] \<longleftrightarrow> all_in LedgerPrepared w"
  by (simp add: agrees_def all_in_def)

lemma moved_ledger: "moved st P w w' \<Longrightarrow> xd_ledger w' = map (\<lambda>r. if P r then r\<lparr>lg_state := st\<rparr> else r) (xd_ledger w)"
  by (simp add: moved_def)

lemma moved_core: "moved st P w w' \<Longrightarrow> ledger_ok w' \<and> core w' = core w \<and> xd_tasks w' = xd_tasks w"
  unfolding moved_def using rest_core [of w' w] by blast

lemma removes_last_Cons:
  "removes_last ops (sp # sps) \<longleftrightarrow> (if sps = [] then ms_operation sp = OpRemoveMigrationBinding else ms_operation sp \<in> ops \<and> removes_last ops sps)"
  by (cases sps) (simp_all add: removes_last_def conj_ac)

section \<open>Creating the target bindings\<close>

lemma lower_active: "to_lower ''ACTIVE'' = ''active''"
  by code_simp

lemma new_binding_fields: "bg_mode (new_binding b i p now) = ''MIGRATION''" "is_live (new_binding b i p now)"
  "bg_capability (new_binding b i p now) = bg_capability b" "bg_scope (new_binding b i p now) = bg_scope b"
  by (simp_all add: new_binding_def is_live_def lower_active)

lemma carries_traffic_live: "carries_traffic b now \<Longrightarrow> is_live b \<and> is_authoritative_mode (bg_mode b)"
  by (simp add: carries_traffic_def is_live_def)

lemma migration_not_authoritative: "\<not> is_authoritative_mode ''MIGRATION''"
  by (simp add: is_authoritative_mode_def)

lemma create_one_ok:
  assumes ok: "ledger_ok w" and prep: "all_in LedgerPrepared w" and "create_one x sp bid w = Inr w'"
  shows "ledger_ok w' \<and> all_in LedgerPrepared w' \<and> core w' = core w \<and> xd_tasks w' = xd_tasks w \<and>
    (\<forall>l \<in> set (xd_ledger w'). l \<in> set (xd_ledger w) \<or> lg_capability l = me_capability_key (ms_resources sp))"
proof (cases "w' = w")
  case True
  then show ?thesis using assms by simp
next
  case False
  let ?target = "xp_binding_id (xc_params x) (xd_minted w)"
  from assms(3) False obtain source b where b: "xd_bindings w source = Some b" "source \<notin> set (map lg_source (xd_ledger w))"
    "carries_traffic b (xc_now x)" "xd_bindings w ?target = None"
    and w': "w' = w\<lparr>xd_minted := Suc (xd_minted w), xd_binding_ids := xd_binding_ids w @ [?target],
      xd_bindings := (xd_bindings w)(?target \<mapsto> new_binding b (me_engine_instance_id (ms_resources sp)) (mp_target_provider_key (xc_plan x)) (xc_now x)),
      xd_ledger := xd_ledger w @ [\<lparr>lg_source = source, lg_target = ?target, lg_mode = bg_mode b,
        lg_capability = me_capability_key (ms_resources sp), lg_cohort = cohort_of (xc_plan x) bid,
        lg_state = LedgerPrepared, lg_instance = me_engine_instance_id (ms_resources sp)\<rparr>]\<rparr>"
    by (auto simp: create_one_def Let_def split: option.splits if_splits)
  note live = carries_traffic_live [OF b(3)]
  have rows: "lg_source l \<noteq> ?target \<and> lg_target l \<noteq> ?target \<and> lg_target l \<noteq> source" if l: "l \<in> set (xd_ledger w)" for l
  proof -
    from ledger_okD(1) [OF ok l] prep l obtain s t where "xd_bindings w (lg_source l) = Some s" "xd_bindings w (lg_target l) = Some t"
      "bg_mode t = ''MIGRATION''" by (auto simp: row_ok_def row_modes_def all_in_def)
    with b live migration_not_authoritative show ?thesis by auto
  qed
  have fresh: "?target \<notin> lg_source ` set (xd_ledger w)" "?target \<notin> lg_target ` set (xd_ledger w)" "source \<notin> lg_target ` set (xd_ledger w)"
    using rows by fastforce+
  have "source \<noteq> ?target" using b by auto
  moreover have "row_ok (xd_bindings w') l" if l: "l \<in> set (xd_ledger w)" for l
    using ledger_okD(1) [OF ok l] rows [OF l] by (auto simp: w' row_ok_def)
  moreover have "row_ok (xd_bindings w') (last (xd_ledger w'))"
    using b live new_binding_fields \<open>source \<noteq> ?target\<close> by (simp add: w' row_ok_def row_modes_def)
  ultimately have "ledger_ok w'"
    using ok b(2) fresh by (auto simp: ledger_ok_def w')
  moreover have "all_in LedgerPrepared w'" using prep by (auto simp: all_in_def w')
  ultimately show ?thesis by (auto simp: w' core_def)
qed

lemma create_bindings_ok:
  assumes "ledger_ok w" and "all_in LedgerPrepared w" and "create_migration_bindings x sp w = Inr w'"
  shows "ledger_ok w' \<and> all_in LedgerPrepared w' \<and> core w' = core w \<and> xd_tasks w' = xd_tasks w \<and>
    (\<forall>l \<in> set (xd_ledger w'). l \<in> set (xd_ledger w) \<or> lg_capability l = me_capability_key (ms_resources sp))"
proof -
  have "fold_result (create_one x sp) bs v = Inr v' \<Longrightarrow> ledger_ok v \<Longrightarrow> all_in LedgerPrepared v \<Longrightarrow>
    ledger_ok v' \<and> all_in LedgerPrepared v' \<and> core v' = core v \<and> xd_tasks v' = xd_tasks v \<and>
    (\<forall>l \<in> set (xd_ledger v'). l \<in> set (xd_ledger v) \<or> lg_capability l = me_capability_key (ms_resources sp))" for bs v v'
  proof (induction bs arbitrary: v)
    case (Cons b bs)
    from Cons.prems(1) obtain v1 where v1: "create_one x sp b v = Inr v1" and rest: "fold_result (create_one x sp) bs v1 = Inr v'"
      by (auto split: sum.splits)
    note 1 = create_one_ok [OF Cons.prems(2,3) v1]
    from 1 have "ledger_ok v1" "all_in LedgerPrepared v1" by simp_all
    from Cons.IH [OF rest this] 1 show ?case by auto
  qed simp
  with assms show ?thesis by (auto simp: create_migration_bindings_def split: if_splits)
qed

section \<open>A step keeps what holds between steps\<close>

text \<open>
  What a step leaves: the ledger still agrees, only ledger, bindings, minted numbers and tasks may
  differ, new rows are of the capabilities \<open>C\<close> and new tasks of the operation \<open>op\<close>.
\<close>

definition tasks_kept :: "string \<Rightarrow> exec_db \<Rightarrow> exec_db \<Rightarrow> bool" where
  "tasks_kept op w w' \<longleftrightarrow> (\<forall>u \<in> set (xd_tasks w'). u \<in> set (xd_tasks w) \<or> tk_operation_id u = op)"

definition kept :: "string \<Rightarrow> string set \<Rightarrow> exec_db \<Rightarrow> exec_db \<Rightarrow> bool" where
  "kept op C w w' \<longleftrightarrow> ledger_ok w' \<and> core w' = core w \<and> tasks_kept op w w' \<and>
     lg_capability ` set (xd_ledger w') \<subseteq> lg_capability ` set (xd_ledger w) \<union> C"

definition creates :: "string set \<Rightarrow> mig_step \<Rightarrow> bool" where
  "creates C sp \<longleftrightarrow> (ms_operation sp = OpCreateMigrationBinding \<longrightarrow> me_capability_key (ms_resources sp) \<in> C)"

lemma moved_kept:
  assumes "moved st P w w'"
  shows "kept op C w w'"
proof -
  have "map lg_capability (xd_ledger w') = map lg_capability (xd_ledger w)" unfolding moved_ledger [OF assms] by simp
  then have "lg_capability ` set (xd_ledger w') = lg_capability ` set (xd_ledger w)" by (metis set_map)
  with moved_core [OF assms] show ?thesis by (simp add: kept_def tasks_kept_def)
qed

lemma kept_refl: "ledger_ok w \<Longrightarrow> kept op C w w"
  by (simp add: kept_def tasks_kept_def)

lemma kept_same: "ledger_ok w' \<Longrightarrow> core w' = core w \<Longrightarrow> xd_ledger w' = xd_ledger w \<Longrightarrow> tasks_kept op w w' \<Longrightarrow> kept op C w w'"
  by (simp add: kept_def)

lemma shifted_base_add [simp]: "set (shifted_base x (add_shifted x k sh)) = insert k (set (shifted_base x sh))"
  by (auto simp: add_shifted_def shifted_base_def Let_def)

lemma shifted_base_remove [simp]: "shifted_base x (remove_shifted x k sh) = filter (\<lambda>l. l \<noteq> k) (shifted_base x sh)"
  by (auto simp: remove_shifted_def shifted_base_def)

lemma keep_shifted_Inr: "keep_shifted sh r = Inr (w', sh') \<longleftrightarrow> r = Inr w' \<and> sh' = sh"
  by (auto simp: keep_shifted_def split: sum.splits)

lemma validate_same: "validate_cohort x k w = Inr w' \<Longrightarrow> w' = w"
proof -
  have "fold_result (validate_one x) rows w = Inr w' \<Longrightarrow> w' = w" for rows
  proof (induction rows)
    case (Cons l rows)
    then show ?case by (auto simp: validate_one_def split: sum.splits option.splits if_splits)
  qed simp
  then show "validate_cohort x k w = Inr w' \<Longrightarrow> w' = w" by (simp add: validate_cohort_def)
qed

lemma agrees_shift:
  assumes "agrees w ks" and "moved LedgerShifted (\<lambda>l. lg_cohort l = k) w w'" and "set ks' = insert k (set ks)"
  shows "agrees w' ks'"
  using assms(1,3) moved_ledger [OF assms(2)] by (auto simp: agrees_def)

lemma agrees_unshift:
  assumes "agrees w ks" and "moved LedgerPrepared (\<lambda>l. lg_cohort l = k \<and> lg_state l = LedgerShifted) w w'"
  shows "agrees w' (filter (\<lambda>l. l \<noteq> k) ks)"
  using assms(1) moved_ledger [OF assms(2)] by (auto simp: agrees_def split: if_splits)

lemma all_removed:
  assumes "all_in LedgerPrepared w" and "moved LedgerRemoved (\<lambda>l. lg_state l = LedgerPrepared) w w'"
  shows "all_in LedgerRemoved w'"
  using assms(1) moved_ledger [OF assms(2)] by (auto simp: all_in_def)

lemma retires_Cons:
  "retires (sp # sps) c \<longleftrightarrow> ms_operation sp = OpRetireSourceBinding \<and> me_capability_key (ms_resources sp) = c \<or> retires sps c"
  by (auto simp: retires_def)

lemma returns_Cons:
  "returns (sp # sps) k \<longleftrightarrow> ms_operation sp = OpShiftCohort \<and> me_cohort_key (ms_resources sp) = k \<or> returns sps k"
  by (auto simp: returns_def)

lemma retire_rows:
  assumes "\<forall>l \<in> set (xd_ledger w). lg_state l = LedgerRetired \<or> retires (sp # sps) (lg_capability l)"
    and "moved LedgerRetired (\<lambda>l. lg_capability l = me_capability_key (ms_resources sp)) w w'"
  shows "\<forall>l \<in> set (xd_ledger w'). lg_state l = LedgerRetired \<or> retires sps (lg_capability l)"
proof
  let ?c = "me_capability_key (ms_resources sp)"
  fix l' assume "l' \<in> set (xd_ledger w')"
  then obtain l where l: "l \<in> set (xd_ledger w)" "l' = (if lg_capability l = ?c then l\<lparr>lg_state := LedgerRetired\<rparr> else l)"
    unfolding moved_ledger [OF assms(2)] by auto
  show "lg_state l' = LedgerRetired \<or> retires sps (lg_capability l')"
  proof (cases "lg_capability l = ?c")
    case False
    with assms(1) l show ?thesis by (auto simp: retires_Cons)
  qed (simp add: l(2))
qed

lemma run_local_engine: "engine_operation (ms_operation sp) \<Longrightarrow> run_local x t sp w sh = Inl (StepAborts ErrProviderMigrationNotExecutable)"
  by (cases "ms_operation sp") (simp_all add: run_local_def engine_operation_def)

lemma run_forward_mid:
  assumes ok: "ledger_ok w" and "mid t (sp # sps) w (shifted_base x sh)" and "may_run t sp" and "forward t"
    and "run_local x t sp w sh = Inr (w', sh')" and "creates C sp"
  shows "kept op C w w' \<and> mid t sps w' (shifted_base x sh')"
proof -
  have same: ?thesis if "w' = w" "sh' = sh" "mid t sps w (shifted_base x sh)" using that ok by (simp add: kept_refl)
  from assms(3,4) obtain sc ops where ops: "stage_steps t = Some (sc, ops)" "ms_operation sp \<in> set ops" by (auto simp: may_run_def)
  from ops consider (prepare) "t = TransitionPrepare" "ms_operation sp = OpVerifyTargetReadiness \<or> ms_operation sp = OpCreateMigrationBinding"
    | (shadow) "t = TransitionShadow" "ms_operation sp = OpStartShadow"
    | (shift) "t = TransitionCanary \<or> t = TransitionShift" "ms_operation sp = OpStopShadow \<or> ms_operation sp = OpShiftCohort \<or> engine_operation (ms_operation sp)"
    | (validate) "t = TransitionValidate" "ms_operation sp = OpValidateCohort"
    | (retire) "t = TransitionRetireOld" "ms_operation sp = OpRetireSourceBinding"
    by (cases t) (auto simp: engine_operation_def)
  then show ?thesis
  proof cases
    case prepare
    with assms(2) have mid: "shifted_base x sh = []" "all_in LedgerPrepared w" by (simp_all add: mid_def)
    show ?thesis
    proof (cases "ms_operation sp = OpCreateMigrationBinding")
      case True
      with assms(5) have "create_migration_bindings x sp w = Inr w'" "sh' = sh" by (simp_all add: run_local_def keep_shifted_Inr)
      with create_bindings_ok [OF ok mid(2)] mid prepare(1) True assms(6) show ?thesis by (fastforce simp: kept_def tasks_kept_def mid_def creates_def)
    next
      case False
      with prepare assms(5) mid same show ?thesis by (auto simp: run_local_def mid_def)
    qed
  next
    case shadow
    with assms(5) show ?thesis by (simp add: run_local_def)
  next
    case shift
    then have agree: "mid t ss v ks = agrees v ks" for ss v ks by (auto simp: mid_def)
    show ?thesis
    proof (cases "ms_operation sp = OpShiftCohort")
      case True
      from shift(1) have "t \<noteq> TransitionRollBack" by auto
      with True assms(5) have moved: "shift_cohort sp w = Inr w'" and sh': "sh' = add_shifted x (me_cohort_key (ms_resources sp)) sh"
        by (simp_all add: run_local_def keep_shifted_Inr Let_def)
      note m = shift_cohort_moved [OF ok moved]
      from assms(2) have "agrees w (shifted_base x sh)" by (simp add: agree)
      from agrees_shift [OF this m] show ?thesis using moved_kept [OF m] by (simp add: agree sh')
    next
      case False
      have "\<not> engine_operation (ms_operation sp)" using run_local_engine assms(5) by fastforce
      with False shift(2) assms(5) have "w' = w" "sh' = sh" by (auto simp: run_local_def)
      with assms(2) same show ?thesis by (simp add: agree)
    qed
  next
    case validate
    with assms(5) have "validate_cohort x (me_cohort_key (ms_resources sp)) w = Inr w'" "sh' = sh" by (simp_all add: run_local_def keep_shifted_Inr)
    with validate_same assms(2) validate(1) same show ?thesis by (auto simp: mid_def)
  next
    case retire
    with assms(5) have "retire_source (xc_now x) (me_capability_key (ms_resources sp)) w = Inr w'" and sh': "sh' = sh"
      by (simp_all add: run_local_def keep_shifted_Inr)
    note m = retire_source_moved [OF ok this(1)]
    have "mid t sps w' ks" for ks
      using retire_rows [OF _ m] assms(2) retire(1) by (simp add: mid_def)
    with moved_kept [OF m] show ?thesis by simp
  qed
qed

lemma run_backward_mid:
  assumes ok: "ledger_ok w" and "mid t (sp # sps) w (shifted_base x sh)" and "\<not> forward t" and "run_local x t sp w sh = Inr (w', sh')"
  shows "kept op C w w' \<and> mid t sps w' (shifted_base x sh')"
proof -
  from assms(3) consider (cancel) "t = TransitionCancel" | (rollback) "t = TransitionRollBack" by (auto simp: forward_def)
  then show ?thesis
  proof cases
    case cancel
    with assms(2) have mid: "shifted_base x sh = []" "all_in LedgerPrepared w" "removes_last {OpStopShadow} (sp # sps)" by (simp_all add: mid_def)
    show ?thesis
    proof (cases "sps = []")
      case True
      with mid(3) assms(4) have w': "w' = remove_migration_bindings (xc_now x) w" by (simp add: removes_last_Cons run_local_def)
      note m = remove_bindings_moved [OF ok, of "xc_now x"]
      from all_removed [OF mid(2) m] moved_kept [OF m] show ?thesis by (simp add: cancel mid_def True w')
    next
      case False
      with mid(3) assms(4) have "w' = w" "sh' = sh" "removes_last {OpStopShadow} sps" by (auto simp: removes_last_Cons run_local_def)
      with ok mid cancel False show ?thesis by (simp add: mid_def kept_refl)
    qed
  next
    case rollback
    let ?ks = "shifted_base x sh" let ?k = "me_cohort_key (ms_resources sp)"
    from assms(2) rollback have mid: "agrees w ?ks" "removes_last (set stateful_sequence) (sp # sps)" "\<forall>k \<in> set ?ks. returns (butlast (sp # sps)) k"
      by (simp_all add: mid_def)
    show ?thesis
    proof (cases "sps = []")
      case True
      with mid(3) have "set ?ks = {}" by (auto simp: returns_def)
      with mid(1) have prep: "all_in LedgerPrepared w" by (simp add: all_in_agrees)
      from True mid(2) assms(4) have w': "w' = remove_migration_bindings (xc_now x) w" by (simp add: removes_last_Cons run_local_def)
      note m = remove_bindings_moved [OF ok, of "xc_now x"]
      from all_removed [OF prep m] moved_kept [OF m] show ?thesis by (simp add: rollback mid_def True w')
    next
      case False
      with mid(2) have rest: "ms_operation sp \<in> set stateful_sequence" "removes_last (set stateful_sequence) sps" by (auto simp: removes_last_Cons)
      with assms(4) rollback have shift: "ms_operation sp = OpShiftCohort" by (auto simp: stateful_sequence_def run_local_def)
      with assms(4) rollback have w': "w' = unshift_cohort ?k w" "sh' = remove_shifted x ?k sh" by (simp_all add: run_local_def Let_def)
      note m = unshift_cohort_moved [OF ok, of ?k]
      have "\<forall>k \<in> set (filter (\<lambda>l. l \<noteq> ?k) ?ks). returns (butlast sps) k"
        using mid(3) False by (auto simp: returns_Cons)
      with agrees_unshift [OF mid(1) m] rest(2) False moved_kept [OF m] show ?thesis by (simp add: rollback mid_def w')
    qed
  qed
qed

section \<open>Engine steps touch neither ledger nor bindings\<close>

lemma issue_tasks_same:
  assumes "issue_tasks x sp w = Inr (w', n)"
  shows "xd_ledger w' = xd_ledger w \<and> xd_bindings w' = xd_bindings w \<and> core w' = core w \<and> tasks_kept (xc_operation_id x) w w' \<and> (n = 0 \<longrightarrow> w' = w)"
proof -
  have "fold_result (issue_one x sp ms) as v = Inr v' \<Longrightarrow> xd_ledger v' = xd_ledger v \<and> xd_bindings v' = xd_bindings v \<and> core v' = core v \<and>
      tasks_kept (xc_operation_id x) v v'" for ms as v v'
  proof (induction as arbitrary: v)
    case (Cons a as)
    from Cons.prems obtain v1 where v1: "issue_one x sp ms a v = Inr v1" and rest: "fold_result (issue_one x sp ms) as v1 = Inr v'"
      by (auto split: sum.splits)
    from v1 have "xd_ledger v1 = xd_ledger v \<and> xd_bindings v1 = xd_bindings v \<and> core v1 = core v \<and> tasks_kept (xc_operation_id x) v v1"
      by (auto simp: issue_one_def Let_def core_def tasks_kept_def new_task_def split: if_splits)
    with Cons.IH [OF rest] show ?case unfolding tasks_kept_def by auto
  qed (simp add: tasks_kept_def)
  with assms show ?thesis by (auto simp: issue_tasks_def Let_def split: sum.splits if_splits)
qed

lemma engine_step_same:
  assumes "engine_step x sp w = Inr (w', d)"
  shows "xd_ledger w' = xd_ledger w \<and> xd_bindings w' = xd_bindings w \<and> core w' = core w \<and> tasks_kept (xc_operation_id x) w w' \<and> (d \<longrightarrow> w' = w)"
  using assms issue_tasks_same [of x sp w]
  by (auto simp: engine_step_def Let_def tasks_kept_def split: if_splits sum.splits option.splits)

lemma mid_same_ledger: "xd_ledger w' = xd_ledger w \<Longrightarrow> mid t sps w' ks = mid t sps w ks"
  by (simp add: mid_def agrees_def all_in_def split: mig_transition.splits)

lemma ledger_ok_same: "xd_ledger w' = xd_ledger w \<Longrightarrow> xd_bindings w' = xd_bindings w \<Longrightarrow> ledger_ok w' = ledger_ok w"
  by (simp add: ledger_ok_def)

lemma mid_engine:
  assumes "mid t (sp # sps) w ks" and "engine_operation (ms_operation sp)"
  shows "mid t sps w ks"
proof -
  from assms(2) have op: "ms_operation sp \<noteq> OpRetireSourceBinding" "ms_operation sp \<noteq> OpRemoveMigrationBinding"
    "ms_operation sp \<noteq> OpStopShadow" "ms_operation sp \<noteq> OpShiftCohort" by (auto simp: engine_operation_def)
  consider "t = TransitionCancel" | "t = TransitionRollBack" | "t = TransitionRetireOld"
    | "t \<noteq> TransitionCancel" "t \<noteq> TransitionRollBack" "t \<noteq> TransitionRetireOld" by blast
  then show ?thesis
  proof cases
    case 2
    with assms(1) op(2) have "sps \<noteq> []" by (auto simp: mid_def removes_last_Cons)
    with assms(1) op(4) 2 show ?thesis by (simp add: mid_def removes_last_Cons returns_Cons)
  qed (use assms(1) op in \<open>auto simp: mid_def removes_last_Cons retires_Cons split: if_splits mig_transition.splits\<close>)
qed

section \<open>The loop over the steps\<close>

definition loop_ended :: "mig_transition \<Rightarrow> mig_step list \<Rightarrow> exec_db \<Rightarrow> string list \<Rightarrow> drive_end \<Rightarrow> bool" where
  "loop_ended t sps w ks e =
    (case e of
       DriveDone \<Rightarrow> sps = [] \<and> mid t [] w ks
     | DriveWaiting \<Rightarrow> sps \<noteq> [] \<and> engine_operation (ms_operation (hd sps)) \<and> mid t sps w ks
     | DriveFailed c \<Rightarrow> True)"

lemma kept_trans: "kept op C w w1 \<Longrightarrow> kept op C w1 w2 \<Longrightarrow> kept op C w w2"
  by (simp add: kept_def tasks_kept_def) blast

lemma drive_loop_mid:
  assumes "drive_loop x t sps n w sh = Inr (w', sh', n', e)" and "ledger_ok w" and "mid t sps w (shifted_base x sh)" and "list_all (may_run t) sps"
    and "list_all (creates C) sps"
  shows "kept (xc_operation_id x) C w w' \<and> n \<le> n' \<and> loop_ended t (drop (n' - n) sps) w' (shifted_base x sh') e"
  using assms
proof (induction sps arbitrary: n w sh)
  case Nil
  then show ?case by (auto simp: loop_ended_def kept_refl)
next
  case (Cons sp sps)
  have later: ?case if k: "kept (xc_operation_id x) C w w1" and mid: "mid t sps w1 (shifted_base x sh1)" and loop: "drive_loop x t sps (Suc n) w1 sh1 = Inr (w', sh', n', e)" for w1 sh1
  proof -
    from k have "ledger_ok w1" by (simp add: kept_def)
    from Cons.IH [OF loop this mid] Cons.prems(4,5)
    have "kept (xc_operation_id x) C w1 w'" "Suc n \<le> n'" "loop_ended t (drop (n' - Suc n) sps) w' (shifted_base x sh') e" by simp_all
    with kept_trans [OF k] show ?thesis by (simp add: Suc_diff_le [symmetric] drop_Cons' Suc_le_eq)
  qed
  show ?case
  proof (cases "engine_operation (ms_operation sp)")
    case True
    note mid = mid_engine [OF Cons.prems(3) True]
    show ?thesis
    proof (cases "engine_step x sp w")
      case (Inl err)
      with Cons.prems(1,2) True show ?thesis by (cases err) (auto simp: loop_ended_def kept_refl)
    next
      case (Inr r)
      obtain w1 d where r: "r = (w1, d)" by (cases r)
      note same = engine_step_same [OF Inr [unfolded r]]
      with Cons.prems(2) have k: "kept (xc_operation_id x) C w w1" using ledger_ok_same [of w1 w] by (simp add: kept_same)
      show ?thesis
      proof (cases d)
        case True
        with same mid Cons.prems(1) \<open>engine_operation (ms_operation sp)\<close> Inr r show ?thesis using later [of w sh] Cons.prems(2) by (simp add: kept_refl)
      next
        case False
        with Cons.prems(1) True Inr r have "w' = w1" "sh' = sh" "n' = n" "e = DriveWaiting" by auto
        with k True Cons.prems(3) mid_same_ledger [of w1 w] same show ?thesis by (simp add: loop_ended_def)
      qed
    qed
  next
    case False
    show ?thesis
    proof (cases "run_local x t sp w sh")
      case (Inl err)
      with Cons.prems(1,2) False show ?thesis by (cases err) (auto simp: loop_ended_def kept_refl)
    next
      case (Inr r)
      obtain w1 sh1 where r: "r = (w1, sh1)" by (cases r)
      have k: "kept (xc_operation_id x) C w w1 \<and> mid t sps w1 (shifted_base x sh1)"
        using run_forward_mid [OF Cons.prems(2,3) _ _ Inr [unfolded r]] run_backward_mid [OF Cons.prems(2,3) _ Inr [unfolded r]] Cons.prems(4,5)
        by auto
      from Cons.prems(1) False Inr r have "drive_loop x t sps (Suc n) w1 sh1 = Inr (w', sh', n', e)" by simp
      with later [of w1 sh1] k show ?thesis by blast
    qed
  qed
qed

end
