(* ===== verification/Migration_Guard.thy ===== *)
theory Migration_Guard
  imports Migration_Authority
begin

text \<open>
  The commands of a provider migration as a step relation, the invariant of the database, and the
  properties that rest on it.
\<close>

section \<open>The invariant\<close>

definition plan_retires :: "mig_plan \<Rightarrow> string \<Rightarrow> bool" where
  "plan_retires p c \<longleftrightarrow> (\<exists>s \<in> set (mp_steps p). ms_operation s = OpRetireSourceBinding \<and> me_cohort_key (ms_resources s) = [] \<and>
     me_capability_key (ms_resources s) = c)"

definition plan_ok :: "mig_plan \<Rightarrow> bool" where
  "plan_ok p \<longleftrightarrow> list_all (creates (Collect (plan_retires p))) (mp_steps p) \<and>
     mr_rollback_strategy (mp_request p) \<in> {RollbackRebindSource, RollbackRestoreAndRebind, RollbackForwardFixOnly}"

definition phase_ok :: "exec_db \<Rightarrow> bool" where
  "phase_ok w =
    (case mm_stage (xd_migration w) of
       StagePlan \<Rightarrow> xd_ledger w = [] \<and> mm_shifted (xd_migration w) = []
     | StageRetireOld \<Rightarrow> all_in LedgerRetired w
     | StageComplete \<Rightarrow> all_in LedgerRetired w
     | StageCancelled \<Rightarrow> all_in LedgerRemoved w
     | StageRolledBack \<Rightarrow> all_in LedgerRemoved w
     | StageOther s \<Rightarrow> False
     | _ \<Rightarrow> agrees w (mm_shifted (xd_migration w)))"

definition run_fits :: "exec_db \<Rightarrow> run_row \<Rightarrow> bool" where
  "run_fits w r \<longleftrightarrow>
     (rn_transition r, rn_target_stage r) \<in> {(TransitionCanary, StageCanary), (TransitionShift, StageShift), (TransitionRollBack, StageRolledBack)} \<and>
     mm_stage (xd_migration w) \<in> {StageCanary, StageShift, StageValidate} \<and>
     mid (rn_transition r) (drop (rn_next r) (rn_steps r)) w (mm_shifted (xd_migration w)) \<and>
     list_all (may_run (rn_transition r)) (drop (rn_next r) (rn_steps r)) \<and>
     list_all (creates (Collect (plan_retires (xd_plan w)))) (drop (rn_next r) (rn_steps r))"

definition run_ok :: "exec_db \<Rightarrow> bool" where
  "run_ok w \<longleftrightarrow> (\<forall>r o'. xd_runs w (mm_operation_id (xd_migration w)) = Some r \<longrightarrow>
     xd_operations w (mm_operation_id (xd_migration w)) = Some o' \<longrightarrow> eo_status o' \<in> {OpPreparing, OpRunning, OpCancelRequested} \<longrightarrow> run_fits w r)"

definition tasks_known :: "exec_db \<Rightarrow> bool" where
  "tasks_known w \<longleftrightarrow> (\<forall>t \<in> set (xd_tasks w). xd_operations w (tk_operation_id t) \<noteq> None)"

definition caps_ok :: "exec_db \<Rightarrow> bool" where
  "caps_ok w \<longleftrightarrow> lg_capability ` set (xd_ledger w) \<subseteq> Collect (plan_retires (xd_plan w))"

definition exec_inv :: "exec_db \<Rightarrow> bool" where
  "exec_inv w \<longleftrightarrow> plan_ok (xd_plan w) \<and> ledger_ok w \<and> phase_ok w \<and> run_ok w \<and> tasks_known w \<and> caps_ok w"

section \<open>Driving a run keeps the invariant\<close>

lemma map_task_ids: "(\<And>t. tk_operation_id (f t) = tk_operation_id t) \<Longrightarrow> tk_operation_id ` set (map f ts) = tk_operation_id ` set ts"
  by (simp add: image_image)

lemma cancel_open_fields [simp]:
  "xd_ledger (cancel_open_tasks op w) = xd_ledger w" "xd_bindings (cancel_open_tasks op w) = xd_bindings w"
  "xd_migration (cancel_open_tasks op w) = xd_migration w" "xd_plan (cancel_open_tasks op w) = xd_plan w"
  "xd_runs (cancel_open_tasks op w) = xd_runs w" "xd_operations (cancel_open_tasks op w) = xd_operations w"
  "xd_approvals (cancel_open_tasks op w) = xd_approvals w"
  "tk_operation_id ` set (xd_tasks (cancel_open_tasks op w)) = tk_operation_id ` set (xd_tasks w)"
  by (simp_all add: cancel_open_tasks_def map_task_ids del: set_map)

lemma cancel_task_ids:
  "t \<in> set (xd_tasks (cancel_open_tasks op w)) \<Longrightarrow> tk_operation_id t \<in> tk_operation_id ` set (xd_tasks w)"
  using cancel_open_fields(8) [of op w] by (metis imageI)

definition has_failed :: "drive_end \<Rightarrow> bool" where
  "has_failed e = (case e of DriveFailed c \<Rightarrow> True | _ \<Rightarrow> False)"

definition issued_by :: "string \<Rightarrow> exec_db \<Rightarrow> bool" where
  "issued_by op w \<longleftrightarrow> list_ex (\<lambda>t. tk_operation_id t = op) (xd_tasks w)"

text \<open>What a call of \<open>drive\<close> leaves.\<close>

definition driven :: "string \<Rightarrow> run_row \<Rightarrow> migration \<Rightarrow> (mig_stage \<times> string) option \<Rightarrow> exec_db \<Rightarrow> exec_db \<Rightarrow> drive_end \<Rightarrow> nat \<Rightarrow> bool" where
  "driven op r m previous w w' e n \<longleftrightarrow> rn_next r \<le> n \<and>
     xd_plan w' = xd_plan w \<and> xd_approvals w' = xd_approvals w \<and> xd_runs w' = (xd_runs w)(op \<mapsto> r\<lparr>rn_next := n\<rparr>) \<and>
     (\<forall>i. i \<noteq> op \<longrightarrow> xd_operations w' i = xd_operations w i) \<and>
     map_option (\<lambda>o'. (eo_status o', eo_requested_by o', eo_approval_id o')) (xd_operations w' op) =
       map_option (\<lambda>o'. (ended_status e, eo_requested_by o', eo_approval_id o')) (xd_operations w op) \<and>
     mm_operation_id (xd_migration w') = op \<and> mm_approval_id (xd_migration w') = mm_approval_id (xd_migration w) \<and>
     mm_created_by (xd_migration w') = mm_created_by (xd_migration w) \<and> mm_blocked (xd_migration w') = mm_blocked (xd_migration w) \<and>
     (mm_stage (xd_migration w'), mm_current_cohort (xd_migration w')) = ended_stage m r previous (issued_by op (if has_failed e then w else w')) e \<and>
     tk_operation_id ` set (xd_tasks w') \<subseteq> insert op (tk_operation_id ` set (xd_tasks w)) \<and>
     (has_failed e \<longrightarrow> xd_ledger w' = xd_ledger w \<and> xd_bindings w' = xd_bindings w \<and> mm_shifted (xd_migration w') = mm_shifted m)"

lemma driven_stage:
  "driven op r m previous w w' e n \<Longrightarrow>
    mm_stage (xd_migration w') = fst (ended_stage m r previous (issued_by op (if has_failed e then w else w')) e)"
  unfolding driven_def by (metis fst_conv)

lemma drive_result:
  assumes "drive xp m op r previous now w = Inr w'" and "ledger_ok w" and "mid (rn_transition r) (drop (rn_next r) (rn_steps r)) w (mm_shifted m)"
    and "list_all (may_run (rn_transition r)) (drop (rn_next r) (rn_steps r))" and "list_all (creates C) (drop (rn_next r) (rn_steps r))"
  shows "\<exists>e n. driven op r m previous w w' e n \<and> ledger_ok w' \<and> lg_capability ` set (xd_ledger w') \<subseteq> lg_capability ` set (xd_ledger w) \<union> C \<and>
    loop_ended (rn_transition r) (drop n (rn_steps r)) w' (mm_shifted (xd_migration w')) e"
proof -
  let ?x = "executor_of xp m (xd_plan w) now op (rn_transition r)"
  from assms(1) obtain w1 sh1 n e where loop: "drive_loop ?x (rn_transition r) (drop (rn_next r) (rn_steps r)) (rn_next r) w None = Inr (w1, sh1, n, e)"
    by (auto simp: drive_def Let_def split: sum.splits)
  have x: "xc_operation_id ?x = op" "shifted_base ?x None = mm_shifted m" by (simp_all add: executor_of_def shifted_base_def)
  from drive_loop_mid [OF loop assms(2) _ assms(4,5)] assms(3) x
  have k: "kept op C w w1" and n: "rn_next r \<le> n"
    and dl: "loop_ended (rn_transition r) (drop (n - rn_next r) (drop (rn_next r) (rn_steps r))) w1 (shifted_base ?x sh1) e"
    by (simp_all del: drop_drop)
  from n have "drop (n - rn_next r) (drop (rn_next r) (rn_steps r)) = drop n (rn_steps r)" by simp
  with dl have le: "loop_ended (rn_transition r) (drop n (rn_steps r)) w1 (shifted_base ?x sh1) e" by metis
  from k have c: "core w1 = core w" and ok: "ledger_ok w1" and caps: "lg_capability ` set (xd_ledger w1) \<subseteq> lg_capability ` set (xd_ledger w) \<union> C"
    and tasks: "tasks_kept op w w1" by (simp_all add: kept_def)
  note fields = core_fields [OF c]
  have ids: "tk_operation_id ` set (xd_tasks w1) \<subseteq> insert op (tk_operation_id ` set (xd_tasks w))" using tasks by (auto simp: tasks_kept_def)
  show ?thesis
  proof (cases "has_failed e")
    case True
    then obtain code where e: "e = DriveFailed code" by (cases e) (simp_all add: has_failed_def)
    have "driven op r m previous w w' e n"
      using assms(1) loop n unfolding drive_def driven_def e
      by (auto simp: Let_def x has_failed_def issued_by_def ended_status_def dest!: cancel_task_ids split: prod.splits option.splits)
    moreover have "ledger_ok w'" using calculation assms(2) True ledger_ok_same [of w' w] by (simp add: driven_def)
    moreover have "xd_ledger w' = xd_ledger w" using calculation(1) True by (simp add: driven_def)
    ultimately show ?thesis using e by (intro exI [of _ e] exI [of _ n]) (simp add: loop_ended_def)
  next
    case False
    then have e: "e = DriveDone \<or> e = DriveWaiting" by (cases e) (simp_all add: has_failed_def)
    from assms(1) loop e have same: "xd_ledger w' = xd_ledger w1" "xd_bindings w' = xd_bindings w1" "xd_tasks w' = xd_tasks w1"
      "xd_plan w' = xd_plan w1" "xd_approvals w' = xd_approvals w1" "xd_runs w' = (xd_runs w1)(op \<mapsto> r\<lparr>rn_next := n\<rparr>)"
      by (auto simp: drive_def Let_def split: prod.splits)
    from assms(1) loop e have row: "mm_shifted (xd_migration w') = shifted_base ?x sh1" "mm_operation_id (xd_migration w') = op"
      "mm_approval_id (xd_migration w') = mm_approval_id (xd_migration w1)" "mm_created_by (xd_migration w') = mm_created_by (xd_migration w1)"
      "mm_blocked (xd_migration w') = mm_blocked (xd_migration w1)"
      "(mm_stage (xd_migration w'), mm_current_cohort (xd_migration w')) = ended_stage m r previous (issued_by op w1) e"
      by (auto simp: drive_def Let_def issued_by_def split: prod.splits)
    from assms(1) loop e have ops: "i \<noteq> op \<Longrightarrow> xd_operations w' i = xd_operations w1 i"
      "map_option (\<lambda>o'. (eo_status o', eo_requested_by o', eo_approval_id o')) (xd_operations w' op) =
       map_option (\<lambda>o'. (ended_status e, eo_requested_by o', eo_approval_id o')) (xd_operations w1 op)" for i
      by (auto simp: drive_def Let_def split: prod.splits option.splits)
    have "issued_by op w' = issued_by op w1" by (simp add: issued_by_def same(3))
    then have "driven op r m previous w w' e n"
      unfolding driven_def using n ids row ops False by (simp add: same fields)
    moreover have "ledger_ok w'" using ok ledger_ok_same [OF same(1,2)] by simp
    moreover have "loop_ended (rn_transition r) (drop n (rn_steps r)) w' (mm_shifted (xd_migration w')) e"
      using le e mid_same_ledger [of w' w1] same(1) row(1) by (auto simp: loop_ended_def)
    ultimately show ?thesis using caps by (intro exI [of _ e] exI [of _ n]) (simp add: same(1))
  qed
qed

section \<open>Every command keeps the invariant\<close>

lemma inv_parts:
  assumes "exec_inv w"
  shows "plan_ok (xd_plan w)" "ledger_ok w" "phase_ok w" "run_ok w" "tasks_known w" "caps_ok w"
  using assms by (simp_all add: exec_inv_def)

text \<open>A change that leaves alone what the invariant speaks of.\<close>

definition same_matter :: "exec_db \<Rightarrow> exec_db \<Rightarrow> bool" where
  "same_matter w w' \<longleftrightarrow> xd_plan w' = xd_plan w \<and> xd_ledger w' = xd_ledger w \<and>
     (\<forall>i \<in> lg_source ` set (xd_ledger w) \<union> lg_target ` set (xd_ledger w). xd_bindings w' i = xd_bindings w i) \<and>
     xd_runs w' = xd_runs w \<and> (\<forall>i. xd_operations w i \<noteq> None \<longrightarrow> xd_operations w' i \<noteq> None) \<and>
     (\<forall>i o'. xd_operations w' i = Some o' \<longrightarrow> eo_status o' \<in> {OpPreparing, OpRunning, OpCancelRequested} \<longrightarrow>
        (\<exists>q. xd_operations w i = Some q \<and> eo_status q \<in> {OpPreparing, OpRunning, OpCancelRequested})) \<and>
     tk_operation_id ` set (xd_tasks w') \<subseteq> tk_operation_id ` set (xd_tasks w) \<and>
     mm_stage (xd_migration w') = mm_stage (xd_migration w) \<and> mm_shifted (xd_migration w') = mm_shifted (xd_migration w) \<and>
     mm_operation_id (xd_migration w') = mm_operation_id (xd_migration w)"

lemma same_matter_inv:
  assumes "exec_inv w" and "same_matter w w'"
  shows "exec_inv w'"
proof -
  note inv = inv_parts [OF assms(1)]
  from assms(2) have same: "xd_plan w' = xd_plan w" "xd_ledger w' = xd_ledger w" "xd_runs w' = xd_runs w"
    "mm_stage (xd_migration w') = mm_stage (xd_migration w)" "mm_shifted (xd_migration w') = mm_shifted (xd_migration w)"
    "mm_operation_id (xd_migration w') = mm_operation_id (xd_migration w)"
    and bindings: "\<And>l. l \<in> set (xd_ledger w) \<Longrightarrow> xd_bindings w' (lg_source l) = xd_bindings w (lg_source l) \<and> xd_bindings w' (lg_target l) = xd_bindings w (lg_target l)"
    and ops: "\<And>i o'. xd_operations w' i = Some o' \<Longrightarrow> eo_status o' \<in> {OpPreparing, OpRunning, OpCancelRequested} \<Longrightarrow>
        \<exists>q. xd_operations w i = Some q \<and> eo_status q \<in> {OpPreparing, OpRunning, OpCancelRequested}"
    and dom: "\<And>i. xd_operations w i \<noteq> None \<Longrightarrow> xd_operations w' i \<noteq> None"
    and ids: "tk_operation_id ` set (xd_tasks w') \<subseteq> tk_operation_id ` set (xd_tasks w)"
    by (auto simp: same_matter_def)
  have "ledger_ok w'" using inv(2) bindings by (auto simp: ledger_ok_def row_ok_def same)
  moreover have "phase_ok w'" using inv(3) by (simp add: phase_ok_def all_in_def agrees_def same split: mig_stage.splits)
  moreover have "run_fits w' r = run_fits w r" for r using mid_same_ledger [OF same(2)] by (simp add: run_fits_def same)
  then have "run_ok w'" using inv(4) ops unfolding run_ok_def same by blast
  moreover have "tasks_known w'"
    unfolding tasks_known_def
  proof
    fix t assume "t \<in> set (xd_tasks w')"
    with ids obtain u where "u \<in> set (xd_tasks w)" "tk_operation_id t = tk_operation_id u" by auto
    with inv(5) dom show "xd_operations w' (tk_operation_id t) \<noteq> None" by (simp add: tasks_known_def)
  qed
  ultimately show ?thesis using inv(1,6) by (simp add: exec_inv_def caps_ok_def same)
qed

text \<open>The stage after a call of \<open>drive\<close> in an accepted or a resumed transition.\<close>

lemma drive_inv:
  assumes drive: "drive xp m op r previous now w = Inr w'" and ok: "plan_ok (xd_plan w)" "ledger_ok w" "tasks_known w" "caps_ok w"
    and mid: "mid (rn_transition r) (drop (rn_next r) (rn_steps r)) w (mm_shifted m)"
    and al: "list_all (may_run (rn_transition r)) (drop (rn_next r) (rn_steps r))"
    and cr: "list_all (creates (Collect (plan_retires (xd_plan w)))) (drop (rn_next r) (rn_steps r))"
    and op: "xd_operations w op \<noteq> None"
    and ends: "\<And>e n. driven op r m previous w w' e n \<Longrightarrow> loop_ended (rn_transition r) (drop n (rn_steps r)) w' (mm_shifted (xd_migration w')) e \<Longrightarrow>
      phase_ok w' \<and> (e = DriveWaiting \<longrightarrow> (rn_transition r, rn_target_stage r) \<in> {(TransitionCanary, StageCanary), (TransitionShift, StageShift), (TransitionRollBack, StageRolledBack)} \<and>
        mm_stage (xd_migration w') \<in> {StageCanary, StageShift, StageValidate})"
  shows "exec_inv w'"
proof -
  from drive_result [OF drive ok(2) mid al cr] obtain e n where d: "driven op r m previous w w' e n" and l: "ledger_ok w'"
    and caps: "lg_capability ` set (xd_ledger w') \<subseteq> lg_capability ` set (xd_ledger w) \<union> Collect (plan_retires (xd_plan w))"
    and le: "loop_ended (rn_transition r) (drop n (rn_steps r)) w' (mm_shifted (xd_migration w')) e" by blast
  note D = d [unfolded driven_def]
  from D have plan: "xd_plan w' = xd_plan w" and opid: "mm_operation_id (xd_migration w') = op"
    and runs: "xd_runs w' op = Some (r\<lparr>rn_next := n\<rparr>)" by simp_all
  have "tasks_known w'"
    unfolding tasks_known_def
  proof
    fix t assume "t \<in> set (xd_tasks w')"
    with D have "tk_operation_id t \<in> insert op (tk_operation_id ` set (xd_tasks w))" by blast
    with ok(3) op D show "xd_operations w' (tk_operation_id t) \<noteq> None" by (cases "tk_operation_id t = op") (auto simp: tasks_known_def)
  qed
  moreover have "run_ok w'"
    unfolding run_ok_def opid
  proof (intro allI impI)
    fix r' o' assume r': "xd_runs w' op = Some r'" and o': "xd_operations w' op = Some o'" "eo_status o' \<in> {OpPreparing, OpRunning, OpCancelRequested}"
    from D o' have "ended_status e \<in> {OpPreparing, OpRunning, OpCancelRequested}" by (auto simp: map_option_case split: option.splits)
    then have e: "e = DriveWaiting" by (cases e) (simp_all add: ended_status_def)
    have suffix: "set (drop n (rn_steps r)) \<subseteq> set (drop (rn_next r) (rn_steps r))"
      using D by (simp add: set_drop_subset_set_drop)
    from ends [OF d le] e le al cr suffix runs r' plan show "run_fits w' r'"
      by (auto simp: run_fits_def loop_ended_def list_all_iff)
  qed
  moreover have "caps_ok w'" using ok(4) caps unfolding caps_ok_def plan by blast
  moreover have "phase_ok w'" using ends [OF d le] by blast
  ultimately show ?thesis using ok(1) l by (simp add: exec_inv_def plan)
qed

text \<open>Resuming.\<close>

lemma resume_inv:
  assumes inv: "exec_inv w" and "resume xp now w = Inr w'"
  shows "exec_inv w'"
proof -
  let ?m = "xd_migration w" let ?op = "mm_operation_id ?m"
  note P = inv_parts [OF inv]
  consider (same) "w' = w" | (cancel) r o' where "xd_runs w ?op = Some r" "xd_operations w ?op = Some o'" "eo_status o' = OpCancelRequested"
      "w' = (cancel_open_tasks ?op w)\<lparr>xd_operations := (xd_operations w)(?op \<mapsto> o'\<lparr>eo_status := OpCancelled, eo_completed_at := Some now\<rparr>),
         xd_migration := ?m\<lparr>mm_failure_reason := ''The advance was cancelled before it finished.'', mm_revision := mm_revision ?m + 1\<rparr>\<rparr>"
    | (run) r o' where "xd_runs w ?op = Some r" "xd_operations w ?op = Some o'" "eo_status o' = OpRunning" "drive xp ?m ?op r None now w = Inr w'"
    using assms(2) by (auto simp: resume_def Let_def split: option.splits if_splits)
  then show ?thesis
  proof cases
    case same
    with inv show ?thesis by simp
  next
    case cancel
    have "same_matter w w'" using cancel(2) by (auto simp: same_matter_def cancel(4) dest!: cancel_task_ids split: if_splits)
    with inv show ?thesis by (rule same_matter_inv)
  next
    case run
    from P(4) run(1-3) have fits: "run_fits w r" by (simp add: run_ok_def)
    let ?t = "rn_transition r"
    from fits have tt: "(?t, rn_target_stage r) \<in> {(TransitionCanary, StageCanary), (TransitionShift, StageShift), (TransitionRollBack, StageRolledBack)}"
      and st: "mm_stage ?m \<in> {StageCanary, StageShift, StageValidate}" by (simp_all add: run_fits_def)
    from P(3) st have ag: "agrees w (mm_shifted ?m)" by (auto simp: phase_ok_def)
    show ?thesis
    proof (rule drive_inv [OF run(4) P(1,2,5,6)])
      show "mid ?t (drop (rn_next r) (rn_steps r)) w (mm_shifted ?m)" "list_all (may_run ?t) (drop (rn_next r) (rn_steps r))"
        "list_all (creates (Collect (plan_retires (xd_plan w)))) (drop (rn_next r) (rn_steps r))" using fits by (simp_all add: run_fits_def)
      show "xd_operations w ?op \<noteq> None" using run(2) by simp
    next
      fix e n assume d: "driven ?op r ?m None w w' e n" and le: "loop_ended ?t (drop n (rn_steps r)) w' (mm_shifted (xd_migration w')) e"
      have stage: "mm_stage (xd_migration w') = fst (ended_stage ?m r None (issued_by ?op (if has_failed e then w else w')) e)"
        by (rule driven_stage [OF d])
      have failed: "agrees w' (mm_shifted (xd_migration w'))" if "has_failed e"
        using d that ag by (simp add: driven_def agrees_def)
      show "phase_ok w' \<and> (e = DriveWaiting \<longrightarrow> (?t, rn_target_stage r) \<in> {(TransitionCanary, StageCanary), (TransitionShift, StageShift),
          (TransitionRollBack, StageRolledBack)} \<and> mm_stage (xd_migration w') \<in> {StageCanary, StageShift, StageValidate})"
        using stage failed tt st le
        by (cases e) (auto simp: ended_stage_def forward_def phase_ok_def loop_ended_def mid_def has_failed_def)
    qed
  qed
qed

text \<open>What an accepted advance runs.\<close>

lemma selected:
  assumes "select_steps p k t = Inr (k', ss)"
  obtains sc ops where "stage_steps t = Some (sc, ops)" and "ss = filter (in_selection sc ops k') (mp_steps p)"
    and "sc = ScopeMigration \<Longrightarrow> k' = []"
  using assms by (auto simp: select_steps_def selected_cohort_def split: option.splits prod.splits sum.splits step_scope.splits if_splits)

lemma forward_steps:
  assumes "select_steps p k t = Inr (k', ss)" and "plan_ok p"
  shows "list_all (may_run t) ss" and "list_all (creates (Collect (plan_retires p))) ss"
    and "t = TransitionRetireOld \<Longrightarrow> plan_retires p c \<Longrightarrow> retires ss c"
proof -
  from selected [OF assms(1)] obtain sc ops where sel: "stage_steps t = Some (sc, ops)" "ss = filter (in_selection sc ops k') (mp_steps p)"
    "sc = ScopeMigration \<Longrightarrow> k' = []" by metis
  show "list_all (may_run t) ss" using sel(1) by (auto simp: sel(2) list_all_iff may_run_def in_selection_def)
  show "list_all (creates (Collect (plan_retires p))) ss" using assms(2) by (auto simp: sel(2) list_all_iff plan_ok_def)
  assume "t = TransitionRetireOld" "plan_retires p c"
  with sel(1) show "retires ss c" by (auto simp: sel(2) retires_def plan_retires_def in_selection_def)
qed

lemma rollback_steps_ok:
  assumes "rollback_steps m p frozen = Inr ss" and "plan_ok p"
  shows "removes_last (set stateful_sequence) ss" and "k \<in> set (mm_shifted m) \<Longrightarrow> returns (butlast ss) k"
    and "ms_operation s = OpCreateMigrationBinding \<Longrightarrow> s \<notin> set ss"
proof -
  let ?st = "mr_rollback_strategy (mp_request p)"
  let ?ops = "filter (\<lambda>op. \<not> (mp_migration_mode p = ModeStatelessRebind \<and> engine_operation op)) (rollback_ops ?st)"
  let ?pre = "(if frozen \<noteq> [] then map (rollback_step frozen) rollback_release else []) @
    concat (map (\<lambda>k. map (rollback_step k) ?ops) (rev (mm_shifted m)))"
  from assms(1) have ss: "ss = ?pre @ [plain_step (''compensate-'' @ step_name OpRemoveMigrationBinding) OpRemoveMigrationBinding []]"
    by (auto simp: rollback_steps_def compensation_steps_def Let_def split: if_splits)
  have ops: "set (rollback_ops ?st) \<subseteq> set stateful_sequence" by (cases ?st) (auto simp: stateful_sequence_def)
  have "ms_operation s \<in> set stateful_sequence" if "s \<in> set ?pre" for s
    using that ops by (auto simp: rollback_step_def plain_step_def rollback_release_def stateful_sequence_def split: if_splits)
  then show "removes_last (set stateful_sequence) ss" unfolding removes_last_def ss by (simp add: plain_step_def butlast_append)
  from this show "ms_operation s = OpCreateMigrationBinding \<Longrightarrow> s \<notin> set ss"
    unfolding removes_last_def by (cases ss rule: rev_cases) (auto simp: stateful_sequence_def)
  assume k: "k \<in> set (mm_shifted m)"
  with assms have "?st = RollbackRebindSource \<or> ?st = RollbackRestoreAndRebind"
    by (auto simp: rollback_steps_def plan_ok_def Let_def split: if_splits)
  then have "OpShiftCohort \<in> set ?ops" by (auto simp: engine_operation_def)
  with k have "rollback_step k OpShiftCohort \<in> set ?pre" by auto
  moreover have "butlast ss = ?pre" unfolding ss by (rule butlast_snoc)
  moreover have "ms_operation (rollback_step k OpShiftCohort) = OpShiftCohort" "me_cohort_key (ms_resources (rollback_step k OpShiftCohort)) = k"
    by (simp_all add: rollback_step_def plain_step_def)
  ultimately show "returns (butlast ss) k" unfolding returns_def by metis
qed

lemma advance_steps_mid:
  assumes inv: "exec_inv w" and next_stage: "mig_next (mm_stage (xd_migration w)) t = Inr target" and steps: "advance_steps w t = Inr (ss, k)"
  shows "mid t ss w (mm_shifted (xd_migration w))" and "list_all (may_run t) ss" and "list_all (creates (Collect (plan_retires (xd_plan w)))) ss"
proof -
  let ?m = "xd_migration w" let ?p = "xd_plan w"
  note P = inv_parts [OF inv]
  from next_stage have tab: "mig_table (mm_stage ?m) t = Some target" by (simp add: mig_table_def)
  note T = mig_table_cases [OF tab]
  consider (cancel) "t = TransitionCancel" | (rollback) "t = TransitionRollBack" | (fwd) "t \<noteq> TransitionCancel" "t \<noteq> TransitionRollBack" by blast
  then have "mid t ss w (mm_shifted ?m) \<and> list_all (may_run t) ss \<and> list_all (creates (Collect (plan_retires ?p))) ss"
  proof cases
    case cancel
    with steps have sh: "mm_shifted ?m = []" and ss: "ss = compensation_steps cancel_compensation"
      by (auto simp: advance_steps_def Let_def split: if_splits)
    from T cancel have "mm_stage ?m \<in> {StagePlan, StagePrepare, StageShadow}" by auto
    with P(3) sh have "all_in LedgerPrepared w" by (auto simp: phase_ok_def all_in_agrees all_in_def)
    then show ?thesis using cancel sh
      by (simp add: mid_def ss compensation_steps_def cancel_compensation_def removes_last_def plain_step_def may_run_def creates_def forward_def)
  next
    case rollback
    with steps have ss: "rollback_steps ?m ?p (frozen_cohort w) = Inr ss" by (auto simp: advance_steps_def Let_def split: sum.splits)
    from T rollback have "mm_stage ?m \<in> {StageCanary, StageShift, StageValidate}" by auto
    with P(3) have "agrees w (mm_shifted ?m)" by (auto simp: phase_ok_def)
    moreover note R = rollback_steps_ok [OF ss P(1)]
    moreover have "ss \<noteq> []" using R(1) by (simp add: removes_last_def)
    ultimately show ?thesis using rollback R(3) by (auto simp: mid_def list_all_iff may_run_def creates_def forward_def)
  next
    case fwd
    with steps obtain k' where sel: "select_steps ?p (mm_current_cohort ?m) t = Inr (k', ss)"
      by (auto simp: advance_steps_def Let_def split: sum.splits option.splits)
    note F = forward_steps [OF sel P(1)]
    from P(6) have "retires ss (lg_capability l)" if "t = TransitionRetireOld" "l \<in> set (xd_ledger w)" for l
      using F(3) that by (auto simp: caps_ok_def)
    moreover have "agrees w (mm_shifted ?m)" if "mm_stage ?m \<in> {StagePrepare, StageShadow, StageCanary, StageShift, StageValidate}"
      using that P(3) by (auto simp: phase_ok_def)
    moreover have "xd_ledger w = [] \<and> mm_shifted ?m = []" if "mm_stage ?m = StagePlan" using that P(3) by (simp add: phase_ok_def)
    moreover have "all_in LedgerRetired w" if "mm_stage ?m = StageRetireOld" using that P(3) by (simp add: phase_ok_def)
    ultimately have "mid t ss w (mm_shifted ?m)" using T fwd by (auto simp: mid_def all_in_def)
    with F(1,2) show ?thesis by blast
  qed
  then show "mid t ss w (mm_shifted ?m)" "list_all (may_run t) ss" "list_all (creates (Collect (plan_retires ?p))) ss" by simp_all
qed

lemma accept_fields [simp]:
  "xd_ledger (accept_advance w av target ss k) = xd_ledger w" "xd_bindings (accept_advance w av target ss k) = xd_bindings w"
  "xd_plan (accept_advance w av target ss k) = xd_plan w" "xd_tasks (accept_advance w av target ss k) = xd_tasks w"
  "xd_migration (accept_advance w av target ss k) = xd_migration w" "xd_approvals (accept_advance w av target ss k) = xd_approvals w"
  by (simp_all add: accept_advance_def)

text \<open>An advance that is not a replay: it was checked, and one call of \<open>drive\<close> ran its steps.\<close>

lemma advance_tx_cases:
  assumes "advance_tx xp w av = Inr (w', op)"
  obtains (replay) "w' = w"
    | (new) target ss k where "op = av_operation_id av" and "mig_next (mm_stage (xd_migration w)) (av_transition av) = Inr target"
      and "forward (av_transition av) \<Longrightarrow> advance_refused xp w av = None" and "advance_steps w (av_transition av) = Inr (ss, k)"
      and "xd_operations w op = None" and "operation_running w = None" and "mm_revision (xd_migration w) = av_expected_revision av"
      and "drive xp (accepted w av k) op (new_run av target ss k) (Some (mm_stage (xd_migration w), mm_current_cohort (xd_migration w)))
        (av_now av) (accept_advance w av target ss k) = Inr w'"
  using assms unfolding advance_tx_def
  by (auto simp: Let_def split: sum.splits option.splits if_splits)

lemma failed_advance_stage:
  assumes "driven op r m (Some prev) w w' e n" and "has_failed e" and "\<not> issued_by op w"
  shows "(mm_stage (xd_migration w'), mm_current_cohort (xd_migration w')) = prev"
  using assms by (cases e) (auto simp: driven_def ended_stage_def has_failed_def)

lemma fresh_not_issued: "tasks_known w \<Longrightarrow> xd_operations w op = None \<Longrightarrow> \<not> issued_by op w"
  by (auto simp: tasks_known_def issued_by_def list_ex_iff)

lemma advance_tx_inv:
  assumes inv: "exec_inv w" and "advance_tx xp w av = Inr (w', op)"
  shows "exec_inv w'"
  using assms(2)
proof (cases rule: advance_tx_cases)
  case replay
  with inv show ?thesis by simp
next
  case (new target ss k)
  let ?t = "av_transition av" let ?m = "xd_migration w" let ?w = "accept_advance w av target ss k" let ?r = "new_run av target ss k"
  note P = inv_parts [OF inv]
  note S = advance_steps_mid [OF inv new(2,4)]
  have r: "rn_transition ?r = ?t" "drop (rn_next ?r) (rn_steps ?r) = ss" "rn_target_stage ?r = target" "rn_steps ?r = ss" by (simp_all add: new_run_def)
  have m: "mm_shifted (accepted w av k) = mm_shifted ?m" "mm_stage (accepted w av k) = mm_stage ?m" by (simp_all add: accepted_def)
  from new(2) have tab: "mig_table (mm_stage ?m) ?t = Some target" by (simp add: mig_table_def)
  note T = mig_table_cases [OF tab]
  have fresh: "\<not> issued_by op ?w" using fresh_not_issued [OF P(5) new(5)] by (simp add: issued_by_def)
  show ?thesis
  proof (rule drive_inv [OF new(8)])
    show "plan_ok (xd_plan ?w)" "ledger_ok ?w" "caps_ok ?w" using P(1,2,6) ledger_ok_same [of ?w w] by (simp_all add: caps_ok_def)
    show "tasks_known ?w" using P(5) by (auto simp: tasks_known_def accept_advance_def)
    show "mid (rn_transition ?r) (drop (rn_next ?r) (rn_steps ?r)) ?w (mm_shifted (accepted w av k))"
      unfolding r(1) r(2) m(1) mid_same_ledger [of ?w w, OF accept_fields(1)] by (rule S(1))
    show "list_all (may_run (rn_transition ?r)) (drop (rn_next ?r) (rn_steps ?r))" using S(2) by (simp only: r(1,2))
    show "list_all (creates (Collect (plan_retires (xd_plan ?w)))) (drop (rn_next ?r) (rn_steps ?r))" using S(3) by (simp only: r(2) accept_fields)
    show "xd_operations ?w op \<noteq> None" using new(1) by (simp add: accept_advance_def)
  next
    fix e n assume d: "driven op ?r (accepted w av k) (Some (mm_stage ?m, mm_current_cohort ?m)) ?w w' e n"
      and le: "loop_ended (rn_transition ?r) (drop n (rn_steps ?r)) w' (mm_shifted (xd_migration w')) e"
    have D: "xd_ledger w' = xd_ledger w \<and> mm_shifted (xd_migration w') = mm_shifted ?m \<and> mm_stage (xd_migration w') = mm_stage ?m" if "has_failed e"
      using d failed_advance_stage [OF d that fresh] that by (simp add: driven_def m)
    have failed: "phase_ok w'" if "has_failed e"
      using D [OF that] P(3) by (simp add: phase_ok_def all_in_def agrees_def split: mig_stage.splits)
    have stage: "mm_stage (xd_migration w') = fst (ended_stage (accepted w av k) ?r (Some (mm_stage ?m, mm_current_cohort ?m)) (issued_by op w') e)"
      if "\<not> has_failed e" using driven_stage [OF d] that by simp
    have waits: "?t = TransitionCanary \<or> ?t = TransitionShift \<or> ?t = TransitionRollBack" if "e = DriveWaiting"
    proof (rule ccontr)
      assume no: "\<not> ?thesis"
      from le that obtain sp rest where sp: "drop n ss = sp # rest" "engine_operation (ms_operation sp)" "mid ?t (sp # rest) w' (mm_shifted (xd_migration w'))"
        by (cases "drop n ss") (auto simp: loop_ended_def r)
      from sp(1) have "sp \<in> set ss" by (metis in_set_dropD list.set_intros(1))
      with S(2) have "may_run ?t sp" by (simp add: list_all_iff)
      with sp(2,3) T no show False
        by (auto simp: may_run_def forward_def engine_operation_def mid_def removes_last_Cons split: if_splits)
    qed
    show "phase_ok w' \<and> (e = DriveWaiting \<longrightarrow> (rn_transition ?r, rn_target_stage ?r) \<in> {(TransitionCanary, StageCanary), (TransitionShift, StageShift),
        (TransitionRollBack, StageRolledBack)} \<and> mm_stage (xd_migration w') \<in> {StageCanary, StageShift, StageValidate})"
    proof (cases e)
      case DriveDone
      then show ?thesis using stage T le by (auto simp: has_failed_def ended_stage_def phase_ok_def loop_ended_def mid_def r all_in_agrees retires_def all_in_def)
    next
      case DriveWaiting
      then show ?thesis using stage T le waits by (auto simp: has_failed_def ended_stage_def phase_ok_def loop_ended_def mid_def r forward_def m)
    next
      case (DriveFailed c)
      then show ?thesis using failed by (simp add: has_failed_def)
    qed
  qed
qed

text \<open>The other commands touch tasks and the states of operations.\<close>

lemma expire_matter: "same_matter w (expire_migration_tasks now w)"
  unfolding same_matter_def by (simp add: expire_migration_tasks_def map_task_ids del: set_map)

lemma update_task_matter:
  assumes "\<And>t. tk_operation_id (f t) = tk_operation_id t"
  shows "same_matter w (update_task key f w)"
  unfolding same_matter_def using assms by (simp add: update_task_def map_task_ids del: set_map)

lemma release_matter: "same_matter w (release_lapsed w client now)"
  unfolding same_matter_def by (simp add: release_lapsed_def map_task_ids del: set_map)

lemma request_cancel_matter: "same_matter w (request_cancel w op)"
  by (auto simp: same_matter_def request_cancel_def split: option.splits)

lemma decide_matter:
  assumes "decide_migration xp w expected req approval_id approver now a = Inr w'"
  shows "same_matter w w'"
  using assms by (auto simp: same_matter_def decide_migration_def Let_def split: if_splits sum.splits)

lemma expire_and_resume_inv: "exec_inv w \<Longrightarrow> expire_and_resume xp now w = Inr w' \<Longrightarrow> exec_inv w'"
  unfolding expire_and_resume_def by (rule resume_inv [OF same_matter_inv [OF _ expire_matter]])

lemma settle_inv:
  assumes "exec_inv w" and "settle xp now w = Inr w'"
  shows "exec_inv w'"
  using assms expire_and_resume_inv by (auto simp: settle_def split: if_splits)

lemma advance_inv:
  assumes "exec_inv w"
  shows "exec_inv (fst (advance_migration xp w av))"
proof -
  have "fst (advance_migration xp w av) = w \<or>
    (\<exists>w1. settle xp (av_now av) w = Inr w1 \<and> fst (advance_migration xp w av) = w1) \<or>
    (\<exists>w1 w2 op. settle xp (av_now av) w = Inr w1 \<and> advance_tx xp w1 av = Inr (w2, op) \<and> fst (advance_migration xp w av) = w2)"
    by (auto simp: advance_migration_def split: sum.splits option.splits)
  then show ?thesis using assms settle_inv advance_tx_inv by metis
qed

lemma claim_inv:
  assumes "exec_inv w"
  shows "exec_inv (fst (claim_task xp w key expected client now))"
proof -
  let ?f = "\<lambda>c l a u. u\<lparr>tk_status := TaskClaimed, tk_claimed_by := c, tk_lease := l, tk_attempt := a\<rparr>"
  have "fst (claim_task xp w key expected client now) = w \<or>
    (\<exists>w1. expire_and_resume xp now w = Inr w1 \<and> fst (claim_task xp w key expected client now) = w1) \<or>
    (\<exists>c l a. fst (claim_task xp w key expected client now) = update_task key (?f c l a) w)"
    by (auto simp: claim_task_def split: option.splits sum.splits)
  moreover have "same_matter w (update_task key (?f c l a) w)" for c l a by (rule update_task_matter) simp
  ultimately show ?thesis using assms expire_and_resume_inv same_matter_inv by metis
qed

lemma report_inv:
  assumes "exec_inv w"
  shows "exec_inv (fst (report_task xp w key expected client r hash now))"
proof -
  let ?f = "\<lambda>res u. u\<lparr>tk_status := tq_outcome r, tk_result := res, tk_report_hash := hash, tk_reported_at := Some now\<rparr>"
  have "fst (report_task xp w key expected client r hash now) = w \<or>
    (\<exists>w1. expire_and_resume xp now w = Inr w1 \<and> fst (report_task xp w key expected client r hash now) = w1) \<or>
    (\<exists>w1 res. resume xp now (update_task key (?f res) w) = Inr w1 \<and> fst (report_task xp w key expected client r hash now) = w1)"
    by (auto simp: report_task_def split: option.splits sum.splits)
  moreover have "same_matter w (update_task key (?f res) w)" for res by (rule update_task_matter) simp
  ultimately show ?thesis using assms expire_and_resume_inv same_matter_inv resume_inv by metis
qed

section \<open>Reachable databases\<close>

text \<open>
  A migration starts with a recorded plan; it may be blocked. Other commands may change any binding
  the migration has not taken up, and scopes, instances, providers and other migrations.
\<close>

definition exec_start :: "exec_params \<Rightarrow> exec_db \<Rightarrow> bool" where
  "exec_start xp w \<longleftrightarrow> (\<exists>pl inp. make_plan pl inp = Inr (xd_plan w)) \<and>
     mr_rollback_strategy (mp_request (xd_plan w)) \<in> {RollbackRebindSource, RollbackRestoreAndRebind, RollbackForwardFixOnly} \<and>
     mm_stage (xd_migration w) = StagePlan \<and> mm_shifted (xd_migration w) = [] \<and> mm_approval_id (xd_migration w) = [] \<and>
     mm_operation_id (xd_migration w) = [] \<and> mm_blocked (xd_migration w) = (mp_blockers (xd_plan w) \<noteq> []) \<and>
     xd_approvals w = [] \<and> xd_operations w = Map.empty \<and> xd_keys w = Map.empty \<and> xd_runs w = Map.empty \<and> xd_ledger w = [] \<and> xd_tasks w = []"

definition outside :: "exec_db \<Rightarrow> exec_db \<Rightarrow> bool" where
  "outside w w' \<longleftrightarrow> xd_migration w' = xd_migration w \<and> xd_plan w' = xd_plan w \<and> xd_approvals w' = xd_approvals w \<and>
     xd_operations w' = xd_operations w \<and> xd_keys w' = xd_keys w \<and> xd_runs w' = xd_runs w \<and> xd_ledger w' = xd_ledger w \<and>
     xd_tasks w' = xd_tasks w \<and>
     (\<forall>i \<in> lg_source ` set (xd_ledger w) \<union> lg_target ` set (xd_ledger w). xd_bindings w' i = xd_bindings w i)"

inductive exec_step :: "exec_params \<Rightarrow> exec_db \<Rightarrow> exec_db \<Rightarrow> bool" for xp where
  decided: "decide_migration xp w expected req approval_id approver now a = Inr w' \<Longrightarrow> exec_step xp w w'"
| advanced: "exec_step xp w (fst (advance_migration xp w av))"
| claimed: "exec_step xp w (fst (claim_task xp w key expected client now))"
| reported: "tq_outcome r \<in> {TaskSucceeded, TaskFailed} \<Longrightarrow> exec_step xp w (fst (report_task xp w key expected client r hash now))"
| listed: "exec_step xp w (fst (list_tasks w client token now))"
| cancelling: "exec_step xp w (request_cancel w op)"
| other: "outside w w' \<Longrightarrow> exec_step xp w w'"

inductive exec_reachable :: "exec_params \<Rightarrow> exec_db \<Rightarrow> bool" for xp where
  start: "exec_start xp w \<Longrightarrow> exec_reachable xp w"
| step: "exec_reachable xp w \<Longrightarrow> exec_step xp w w' \<Longrightarrow> exec_reachable xp w'"

lemma exec_step_inv: "exec_step xp w w' \<Longrightarrow> exec_inv w \<Longrightarrow> exec_inv w'"
proof (induction rule: exec_step.induct)
  case (decided w expected req approval_id approver now a w')
  then show ?case using same_matter_inv decide_matter by blast
next
  case (listed w client token now)
  then show ?case using same_matter_inv release_matter by (auto simp: list_tasks_def Let_def)
next
  case (cancelling w op)
  then show ?case using same_matter_inv request_cancel_matter by blast
next
  case (other w w')
  then have "same_matter w w'" by (auto simp: same_matter_def outside_def)
  with other show ?case using same_matter_inv by blast
qed (simp_all add: advance_inv claim_inv report_inv)

text \<open>A plan retires the source bindings of every capability it binds to the target.\<close>

lemma planned_covers:
  assumes "make_plan pl inp = Inr p"
  shows "list_all (creates (Collect (plan_retires p))) (mp_steps p)"
proof -
  let ?r = "mi_request inp" let ?sd = "pr_short_digest pl"
  from make_plan_request(4) [OF assms] obtain bs chosen where steps: "mp_steps p = chain_steps [] (plan_specs ?sd ?r bs chosen)" by blast
  have retire: "plan_retires p (mc_capability_key c)" if c: "c \<in> set (mr_capabilities ?r)" for c
  proof -
    have "\<exists>s \<in> set (retire_specs ?sd ?r bs). sc_op s = OpRetireSourceBinding \<and> me_cohort_key (sc_resources s) = [] \<and>
        me_capability_key (sc_resources s) = mc_capability_key c"
      using c by (auto simp: retire_specs_def no_resources_def)
    then have "\<exists>s \<in> set (plan_specs ?sd ?r bs chosen). sc_op s = OpRetireSourceBinding \<and> me_cohort_key (sc_resources s) = [] \<and>
        me_capability_key (sc_resources s) = mc_capability_key c"
      unfolding plan_specs_def by auto
    then show ?thesis unfolding plan_retires_def steps
      by (rule chain_steps_ex [of "[]" "plan_specs ?sd ?r bs chosen" "\<lambda>op res. op = OpRetireSourceBinding \<and> me_cohort_key res = [] \<and>
          me_capability_key res = mc_capability_key c", THEN iffD2])
  qed
  have "\<exists>c \<in> set (mr_capabilities ?r). me_capability_key (sc_resources s) = mc_capability_key c"
    if "s \<in> set (plan_specs ?sd ?r bs chosen)" "sc_op s = OpCreateMigrationBinding" for s
    using that cohort_ops_cases [of "sc_op s" ?r]
    by (auto simp: plan_specs_def prepare_specs_def shadow_specs_def cohort_specs_def retire_specs_def bind_specs_def no_resources_def Let_def
        stateful_sequence_def split: if_splits)
  then have "\<not> (\<exists>s \<in> set (mp_steps p). ms_operation s = OpCreateMigrationBinding \<and> me_capability_key (ms_resources s) \<notin> Collect (plan_retires p))"
    using retire chain_steps_ex [of "[]" "plan_specs ?sd ?r bs chosen" "\<lambda>op res. op = OpCreateMigrationBinding \<and> me_capability_key res \<notin> Collect (plan_retires p)"]
    unfolding steps by fastforce
  then show ?thesis by (auto simp: list_all_iff creates_def)
qed

lemma exec_reachable_inv: "exec_reachable xp w \<Longrightarrow> exec_inv w"
proof (induction rule: exec_reachable.induct)
  case (start w)
  then show ?case
    using planned_covers by (auto simp: exec_start_def exec_inv_def plan_ok_def ledger_ok_def phase_ok_def run_ok_def tasks_known_def caps_ok_def)
next
  case (step w w')
  then show ?case using exec_step_inv by blast
qed

end
