(* ===== verification/Migration_Safety.thy ===== *)
theory Migration_Safety
  imports Migration_Guard
begin

text \<open>
  What the execution of a provider migration guarantees in every reachable database: one authority
  per moved binding, ended migrations settled, failed advances without trace; and two ways in which
  its rollback leaves the engines behind.
\<close>

section \<open>Authority\<close>





text \<open>
  C39 (a failed advance leaves no trace): an advance whose operation ends failed in the transaction that
  accepted it keeps the ledger, every binding, the stage, the current cohort and the shifted cohorts.
\<close>

theorem failed_advance_leaves_no_trace:
  assumes "exec_reachable xp w" and "advance_tx xp w av = Inr (w', op)" and "xd_operations w op = None"
    and "map_option eo_status (xd_operations w' op) = Some OpFailed"
  shows "xd_ledger w' = xd_ledger w \<and> xd_bindings w' = xd_bindings w \<and> mm_stage (xd_migration w') = mm_stage (xd_migration w) \<and>
    mm_current_cohort (xd_migration w') = mm_current_cohort (xd_migration w) \<and> mm_shifted (xd_migration w') = mm_shifted (xd_migration w)"
  using assms(2)
proof (cases rule: advance_tx_cases)
  case replay
  with assms(3,4) show ?thesis by simp
next
  case (new target ss k)
  let ?w = "accept_advance w av target ss k" let ?r = "new_run av target ss k" let ?m = "accepted w av k"
  note inv = exec_reachable_inv [OF assms(1)]
  note P = inv_parts [OF inv] and S = advance_steps_mid [OF inv new(2,4)]
  have r: "rn_transition ?r = av_transition av" "drop (rn_next ?r) (rn_steps ?r) = ss" by (simp_all add: new_run_def)
  have m: "mm_shifted ?m = mm_shifted (xd_migration w)" by (simp add: accepted_def)
  have ok: "ledger_ok ?w" using P(2) ledger_ok_same [of ?w w] by simp
  have mid: "mid (rn_transition ?r) (drop (rn_next ?r) (rn_steps ?r)) ?w (mm_shifted ?m)"
    unfolding r m mid_same_ledger [of ?w w, OF accept_fields(1)] by (rule S(1))
  from drive_result [OF new(8) ok mid] S(2,3) obtain e n
    where d: "driven op ?r ?m (Some (mm_stage (xd_migration w), mm_current_cohort (xd_migration w))) ?w w' e n"
    unfolding r by blast
  then have "map_option eo_status (xd_operations w' op) = map_option (\<lambda>_. ended_status e) (xd_operations ?w op)"
    unfolding driven_def by (auto simp: map_option_case split: option.splits)
  with assms(4) have "ended_status e = OpFailed" by auto
  then have failed: "has_failed e" by (cases e) (simp_all add: has_failed_def ended_status_def)
  have fresh: "\<not> issued_by op ?w" using fresh_not_issued [OF P(5) new(5)] by (simp add: issued_by_def)
  from failed_advance_stage [OF d failed fresh] d failed show ?thesis by (simp add: driven_def m)
qed

section \<open>Two ways a rollback leaves the engines behind\<close>

lemma rollback_step_id:
  assumes "55 \<le> length k"
  shows "ms_step_id (rollback_step k op) = trim_right_hyphens (take 64 (''rollback-'' @ k))"
  using assms by (simp add: rollback_step_def plain_step_def step_key_def Let_def)

text \<open>
  Property (rollback steps of a long cohort key share one identifier): \<open>stepKey\<close> cuts the identifier of a
  rollback step at 64 characters, so for a cohort key of 55 characters or more every rollback step of
  the cohort has the same identifier; once the writes at the target are frozen, moving the data back
  and releasing the writes count as done without a task.
\<close>

theorem long_cohort_rollback_skips_steps:
  assumes "55 \<le> length k" and "ts = step_tasks w (xc_operation_id x) (ms_step_id (rollback_step k OpFreezeCohortWrites))" and "ts \<noteq> []"
    and "list_all (\<lambda>t. tk_status t = TaskSucceeded) ts" and "op \<in> {OpMigrateCohortData, OpUnfreezeCohortWrites}"
  shows "engine_step x (rollback_step k op) w = Inr (w, True)"
proof -
  have "ms_operation (rollback_step k op) = op" by (simp add: rollback_step_def plain_step_def)
  moreover have "find (\<lambda>t. tk_status t = TaskFailed) ts = None" using assms(4) by (auto simp: find_None_iff list_all_iff)
  moreover have "list_all (\<lambda>t. tk_status t \<noteq> TaskPending \<and> tk_status t \<noteq> TaskClaimed) ts" using assms(4) by (auto simp: list_all_iff)
  moreover have "step_tasks w (xc_operation_id x) (ms_step_id (rollback_step k op)) = ts" using assms(1,2) by (simp add: rollback_step_id)
  ultimately show ?thesis using assms(3,5) by (auto simp: engine_step_def Let_def)
qed

text \<open>
  Property (a second rollback releases the current cohort only): when a rollback failed after it had returned
  every cohort, the next one only removes the target bindings if the current cohort was released,
  whatever the tasks of the other cohorts say; their writes stay frozen in a migration that ends.
\<close>

theorem second_rollback_releases_current_only:
  assumes "mm_shifted (xd_migration w) = []"
    and "task_succeeded w (mm_current_cohort (xd_migration w)) OpUnfreezeCohortWrites DirectionReverse"
  shows "advance_steps w TransitionRollBack =
    Inr (compensation_steps [OpRemoveMigrationBinding], mm_current_cohort (xd_migration w))"
  using assms by (simp add: advance_steps_def Let_def rollback_steps_def frozen_cohort_def)

section \<open>A migration to look at\<close>

definition ex_source :: string where
  "ex_source = ''00000000-0000-4000-8000-000000000001''"

definition ex_moving :: "mig_plan \<Rightarrow> exec_db" where
  "ex_moving p = \<lparr>xd_migration = \<lparr>mm_id = ''m1'', mm_stage = StagePlan, mm_current_cohort = [], mm_blocked = False, mm_failure_reason = [],
       mm_approval_id = [], mm_operation_id = [], mm_shifted = [], mm_created_by = ''ann'', mm_started_at = None, mm_completed_at = None, mm_revision = 1\<rparr>,
     xd_plan = p, xd_approvals = [], xd_operations = Map.empty, xd_keys = Map.empty, xd_runs = Map.empty, xd_ledger = [], xd_tasks = [],
     xd_bindings = [ex_source \<mapsto> \<lparr>bg_capability = ''erp'', bg_instance = ''i0'', bg_scope = ''s'', bg_mode = ''PRIMARY'', bg_priority = 1,
       bg_status = ''ACTIVE'', bg_contract_version = ''v1'', bg_effective_from = 1, bg_effective_to = None, bg_provider = ''old'', bg_version = 1\<rparr>],
     xd_binding_ids = [ex_source],
     xd_scopes = [''s'' \<mapsto> \<lparr>sw_tenant = ''t'', sw_legal_entity = [], sw_estate = [], sw_market = [], sw_jurisdiction = [], sw_region = ''af'',
       sw_environment = ''prod''\<rparr>],
     xd_workloads = [''i0'' \<mapsto> ''w0'', ''i1'' \<mapsto> ''w1''],
     xd_providers = (\<lambda>_. Some \<lparr>mv_status = ''active'', mv_support = (\<lambda>_. Some [1])\<rparr>), xd_instances = (\<lambda>_. [ex_instance]),
     xd_open = (\<lambda>_ _. []), xd_minted = 0\<rparr>"

definition ex_policy :: health_policy where
  "ex_policy = \<lparr>hp_eligible = [(CriticalityCritical, [StatusHealthy])], hp_equal_time = [], hp_resolution_denials = [], hp_provisioning_denial = []\<rparr>"

definition ex_params :: exec_params where
  "ex_params = \<lparr>xp_policy = Some ex_policy, xp_plan_ttl = 100, xp_digest = (\<lambda>_. ''d''), xp_short_digest = (\<lambda>_. ''s''),
     xp_binding_id = (\<lambda>n. CHR ''b'' # replicate n CHR ''x''), xp_task_id = (\<lambda>n. CHR ''k'' # replicate n CHR ''x''), xp_registered_failure = (\<lambda>_. True)\<rparr>"

definition ex_planning :: "migration_mode \<Rightarrow> mig_error + mig_plan" where
  "ex_planning m =
     make_plan \<lparr>pr_facts = (migration_facts (ex_moving undefined) 15)\<lparr>fa_open_migrations := (\<lambda>_ _. Inr [])\<rparr>, pr_policy = ex_policy,
       pr_plan_ttl = 100, pr_digest = (\<lambda>_. ''d''), pr_short_digest = (\<lambda>_. ''s'')\<rparr>
     \<lparr>mi_request = Migration_Plan.ex_request m RollbackRebindSource, mi_provider_migration_id = ''m1'', mi_plan_id = ''p1'', mi_plan_version = 1,
      mi_base_revision = 1, mi_now = 15\<rparr>"

definition ex_caller :: actor where
  "ex_caller = \<lparr>ac_actor_id = ''bob'', ac_actor_type = ''human'', ac_correlation_id = ex_source\<rparr>"

definition ex_decided :: "exec_db \<Rightarrow> exec_error + exec_db" where
  "ex_decided w = decide_migration ex_params w (mm_revision (xd_migration w)) \<lparr>dr_plan_id = mp_plan_id (xd_plan w),
     dr_plan_version = mp_plan_version (xd_plan w), dr_plan_digest = mp_plan_digest (xd_plan w), dr_decision = DecisionApproved, dr_reason = ''go''\<rparr>
     ''ap'' ''carol'' 15 ex_caller"

definition ex_advance :: "mig_transition \<Rightarrow> string \<Rightarrow> exec_db \<Rightarrow> advance" where
  "ex_advance t op w =
     \<lparr>av_expected_revision = mm_revision (xd_migration w), av_transition = t, av_operation_id = op, av_idempotency_key = op,
      av_request_hash = ''h'', av_requested_by = ''bob'', av_now = 15, av_actor = ex_caller\<rparr>"

definition ex_advanced :: "mig_transition \<Rightarrow> string \<Rightarrow> exec_db \<Rightarrow> exec_db" where
  "ex_advanced t op w = fst (advance_migration ex_params w (ex_advance t op w))"

definition ex_unregistered :: "exec_db \<Rightarrow> exec_db" where
  "ex_unregistered w = w\<lparr>xd_workloads := [''i0'' \<mapsto> ''w0'']\<rparr>"

definition ex_refused :: "exec_db \<Rightarrow> bool" where
  "ex_refused w = (case advance_tx ex_params w (ex_advance TransitionPrepare ''1'' w) of
     Inl e \<Rightarrow> False | Inr (w', op) \<Rightarrow> xd_operations w op = None \<and> map_option eo_status (xd_operations w' op) = Some OpFailed)"

definition ex_shifts :: "exec_db \<Rightarrow> exec_db" where
  "ex_shifts w = ex_advanced TransitionCanary ''2'' (ex_advanced TransitionPrepare ''1'' w)"

definition ex_completes :: "exec_db \<Rightarrow> exec_db" where
  "ex_completes w = ex_advanced TransitionComplete ''5'' (ex_advanced TransitionRetireOld ''4'' (ex_advanced TransitionValidate ''3'' w))"

definition ex_migration_ok :: bool where
  "ex_migration_ok =
    (case ex_planning ModeStatelessRebind of
       Inl e \<Rightarrow> False
     | Inr p \<Rightarrow>
         (case ex_decided (ex_moving p) of
            Inl e \<Rightarrow> False
          | Inr w \<Rightarrow> mp_blockers p = [] \<and> mr_rollback_strategy (mp_request p) = RollbackRebindSource \<and> ex_refused (ex_unregistered w) \<and>
              (let w2 = ex_shifts w; w5 = ex_completes w2 in
               mm_stage (xd_migration w2) = StageCanary \<and> map lg_source (xd_ledger w2) = [ex_source] \<and> map lg_state (xd_ledger w2) = [LedgerShifted] \<and>
               map_option bg_capability (xd_bindings w2 ex_source) = Some ''erp'' \<and>
               mm_stage (xd_migration w5) = StageComplete \<and> xd_ledger w5 \<noteq> [])))"

lemma ex_migration_evaluated: "ex_migration_ok"
  by code_simp

lemma ex_advanced_reachable: "exec_reachable ex_params w \<Longrightarrow> exec_reachable ex_params (ex_advanced t op w)"
  unfolding ex_advanced_def by (erule exec_reachable.step) (rule exec_step.advanced)

lemma ex_migration:
  obtains w1 w2 w5 where "exec_reachable ex_params w1" and "exec_reachable ex_params w2" and "exec_reachable ex_params w5"
    and "ex_refused w1" and "mm_stage (xd_migration w2) = StageCanary" and "map lg_state (xd_ledger w2) = [LedgerShifted]"
    and "mm_stage (xd_migration w5) = StageComplete" and "xd_ledger w5 \<noteq> []"
    and "map lg_source (xd_ledger w2) = [ex_source]" and "map_option bg_capability (xd_bindings w2 ex_source) = Some ''erp''"
proof -
  from ex_migration_evaluated obtain p w where p: "ex_planning ModeStatelessRebind = Inr p" and w: "ex_decided (ex_moving p) = Inr w"
    and facts: "mp_blockers p = []" "mr_rollback_strategy (mp_request p) = RollbackRebindSource" "ex_refused (ex_unregistered w)"
      "mm_stage (xd_migration (ex_shifts w)) = StageCanary" "map lg_state (xd_ledger (ex_shifts w)) = [LedgerShifted]"
      "mm_stage (xd_migration (ex_completes (ex_shifts w))) = StageComplete" "xd_ledger (ex_completes (ex_shifts w)) \<noteq> []"
      "map lg_source (xd_ledger (ex_shifts w)) = [ex_source]" "map_option bg_capability (xd_bindings (ex_shifts w) ex_source) = Some ''erp''"
    unfolding ex_migration_ok_def by (auto simp: Let_def split: sum.splits)
  from p have "\<exists>pl inp. make_plan pl inp = Inr p" unfolding ex_planning_def by blast
  then have "exec_start ex_params (ex_moving p)" using facts(1,2) by (simp add: exec_start_def ex_moving_def)
  then have r0: "exec_reachable ex_params (ex_moving p)" by (rule exec_reachable.start)
  from exec_step.decided [OF w [unfolded ex_decided_def]] r0 have r1: "exec_reachable ex_params w" by (rule exec_reachable.step [rotated])
  have "outside w (ex_unregistered w)" by (simp add: outside_def ex_unregistered_def)
  then have u: "exec_reachable ex_params (ex_unregistered w)" by (rule exec_reachable.step [OF r1 exec_step.other])
  have r2: "exec_reachable ex_params (ex_shifts w)" unfolding ex_shifts_def by (intro ex_advanced_reachable r1)
  have r5: "exec_reachable ex_params (ex_completes (ex_shifts w))" unfolding ex_completes_def by (intro ex_advanced_reachable r2)
  show thesis by (rule that [OF u r2 r5 facts(3-9)])
qed



theorem failed_advance_leaves_no_trace_witness:
  "\<exists>w w' op. advance_tx ex_params w (ex_advance TransitionPrepare ''1'' w) = Inr (w', op) \<and> mm_stage (xd_migration w') = mm_stage (xd_migration w)"
proof (rule ex_migration)
  fix w1 assume w1: "exec_reachable ex_params w1" "ex_refused w1"
  from w1(2) obtain w' op where tx: "advance_tx ex_params w1 (ex_advance TransitionPrepare ''1'' w1) = Inr (w', op)" "xd_operations w1 op = None"
    "map_option eo_status (xd_operations w' op) = Some OpFailed" by (auto simp: ex_refused_def split: sum.splits)
  from failed_advance_leaves_no_trace [OF w1(1) tx] tx(1) show ?thesis by blast
qed

definition ex_task :: "string \<Rightarrow> string \<Rightarrow> mig_op \<Rightarrow> task_status \<Rightarrow> task_row" where
  "ex_task key k op st = \<lparr>tk_id = key, tk_operation_id = ''op'', tk_step_id = ms_step_id (rollback_step k op), tk_operation = op, tk_role = RoleSource,
     tk_direction = DirectionReverse, tk_instance = ''i0'', tk_provider = ''old'', tk_cohort = k, tk_capabilities = [''erp''], tk_tenants = [''t''],
     tk_estates = [], tk_counterpart = None, tk_status = st, tk_attempt = 1, tk_claimed_by = ''w0'', tk_lease = None, tk_deadline = 20,
     tk_result = None, tk_report_hash = ''r'', tk_reported_at = Some 15, tk_revision = 3\<rparr>"

theorem long_cohort_rollback_skips_steps_witness:
  "\<exists>k x w. length k = 55 \<and> list_all (\<lambda>t. tk_operation t = OpFreezeCohortWrites) (xd_tasks w) \<and>
    engine_step x (rollback_step k OpMigrateCohortData) w = Inr (w, True)"
proof -
  let ?k = "replicate 55 CHR ''k''" let ?w = "(ex_moving undefined)\<lparr>xd_tasks := [ex_task ''1'' ?k OpFreezeCohortWrites TaskSucceeded]\<rparr>"
  let ?x = "executor_of ex_params undefined undefined 15 ''op'' TransitionRollBack"
  have ts: "step_tasks ?w (xc_operation_id ?x) (ms_step_id (rollback_step ?k OpFreezeCohortWrites)) = [ex_task ''1'' ?k OpFreezeCohortWrites TaskSucceeded]"
    by (simp add: step_tasks_def executor_of_def ex_task_def)
  have "engine_step ?x (rollback_step ?k OpMigrateCohortData) ?w = Inr (?w, True)"
    by (rule long_cohort_rollback_skips_steps [OF _ ts [symmetric]]) (simp_all add: ex_task_def)
  moreover have "list_all (\<lambda>t. tk_operation t = OpFreezeCohortWrites) (xd_tasks ?w)" by (simp add: ex_task_def)
  ultimately show ?thesis by (intro exI [of _ ?k] exI [of _ ?x] exI [of _ ?w]) (simp only: length_replicate)
qed

theorem second_rollback_releases_current_only_witness:
  "\<exists>w. task_succeeded w ''a'' OpFreezeCohortWrites DirectionReverse \<and> \<not> task_succeeded w ''a'' OpUnfreezeCohortWrites DirectionReverse \<and>
    advance_steps w TransitionRollBack = Inr (compensation_steps [OpRemoveMigrationBinding], ''b'')"
proof -
  let ?w = "(ex_moving undefined)\<lparr>xd_migration := (xd_migration (ex_moving undefined))\<lparr>mm_stage := StageShift, mm_current_cohort := ''b''\<rparr>,
     xd_tasks := [ex_task ''1'' ''b'' OpFreezeCohortWrites TaskSucceeded, ex_task ''2'' ''b'' OpUnfreezeCohortWrites TaskSucceeded,
       ex_task ''3'' ''a'' OpFreezeCohortWrites TaskSucceeded, ex_task ''4'' ''a'' OpUnfreezeCohortWrites TaskFailed]\<rparr>"
  have tasks: "task_succeeded ?w ''b'' OpUnfreezeCohortWrites DirectionReverse" "task_succeeded ?w ''a'' OpFreezeCohortWrites DirectionReverse"
    "\<not> task_succeeded ?w ''a'' OpUnfreezeCohortWrites DirectionReverse" by (simp_all add: task_succeeded_def ex_task_def)
  have m: "mm_shifted (xd_migration ?w) = []" "mm_current_cohort (xd_migration ?w) = ''b''" by (simp_all add: ex_moving_def)
  from second_rollback_releases_current_only [OF m(1)] m(2) tasks show ?thesis by (intro exI [of _ ?w]) simp
qed

end
