(* ===== verification/Capability_Domain.thy ===== *)
theory Capability_Domain
  imports Health Domain_Ids
begin

text \<open>
  The capability aggregates (\<open>internal/capability/domain\<close>): capabilities, their dependencies, scopes,
  grants, providers, bindings and compositions, with the validation of each, and the search for a
  cycle among required dependencies with the repository command that relies on it
  (\<open>CreateCapabilityDependency\<close> in \<open>internal/repository/postgres.go\<close>).

  The search is Go's recursive closure \<open>visit\<close> over a map of states. Its model threads the map and
  takes fuel, \<open>None\<close> standing for a search that does not return; Go visits the keys of \<open>edges\<close> in any
  order, which is the list \<open>ks\<close>. The lemmas show that the search returns, in every order, and says
  yes exactly when the required dependencies have a cycle.
\<close>

section \<open>Keys\<close>

fun split_where :: "(char \<Rightarrow> bool) \<Rightarrow> string \<Rightarrow> string list" where
  "split_where P [] = [[]]"
| "split_where P (c # cs) =
    (if P c then [] # split_where P cs else (case split_where P cs of [] \<Rightarrow> [[c]] | w # ws \<Rightarrow> (c # w) # ws))"

text \<open>One segment that starts with a letter, then segments of letters and digits.\<close>

definition key_segments :: "string list \<Rightarrow> bool" where
  "key_segments ws =
    (case ws of
       (c # w) # vs \<Rightarrow> is_lower c \<and> list_all lower_alnum w \<and> list_all (\<lambda>v. v \<noteq> [] \<and> list_all lower_alnum v) vs
     | _ \<Rightarrow> False)"

definition valid_capability_key :: "string \<Rightarrow> bool" where
  "valid_capability_key s =
    (let ws = split_where (\<lambda>c. c = CHR ''.'' \<or> c = CHR ''-'') s in key_segments ws \<and> 1 < length ws)"

definition valid_composition_key :: "string \<Rightarrow> bool" where
  "valid_composition_key s =
    (case split_at (CHR ''.'') s of [a, b] \<Rightarrow> key_segments (split_at (CHR ''-'') a) \<and> key_segments (split_at (CHR ''-'') b) | _ \<Rightarrow> False)"

definition provider_key_part :: "string \<Rightarrow> bool" where
  "provider_key_part s = (case s of [] \<Rightarrow> False | c # cs \<Rightarrow> is_lower c \<and> list_all (\<lambda>d. lower_alnum d \<or> d = CHR ''-'') cs)"

definition valid_provider_key :: "string \<Rightarrow> bool" where
  "valid_provider_key s = (case split_at (CHR ''.'') s of [a, b] \<Rightarrow> provider_key_part a \<and> provider_key_part b | _ \<Rightarrow> False)"

section \<open>Capabilities and dependencies\<close>

datatype cap_lifecycle = LifecycleDraft | LifecycleActive | LifecycleSuspended | LifecycleDeprecated | LifecycleRetired | LifecycleOther string

definition cap_lifecycle_valid :: "cap_lifecycle \<Rightarrow> bool" where
  "cap_lifecycle_valid l = (case l of LifecycleOther _ \<Rightarrow> False | _ \<Rightarrow> True)"

datatype cap_maturity = MaturityExperimental | MaturityPreview | MaturitySupported | MaturityDeprecated | MaturityRetired | MaturityOther string

definition cap_maturity_valid :: "cap_maturity \<Rightarrow> bool" where
  "cap_maturity_valid m = (case m of MaturityOther _ \<Rightarrow> False | _ \<Rightarrow> True)"

record cap_capability =
  cy_id :: string
  cy_key :: string
  cy_name :: string
  cy_domain_key :: string
  cy_lifecycle :: cap_lifecycle
  cy_maturity :: cap_maturity
  cy_health_criticality :: criticality

datatype cap_error = CapKeyAndName | CapDomain | CapLifecycle | CapMaturity | CapCriticality

definition capability_validate :: "cap_capability \<Rightarrow> cap_error option" where
  "capability_validate c =
    (if \<not> valid_capability_key (cy_key c) \<or> trim_space (cy_name c) = [] then Some CapKeyAndName
     else if trim_space (cy_domain_key c) = [] then Some CapDomain
     else if \<not> cap_lifecycle_valid (cy_lifecycle c) then Some CapLifecycle
     else if \<not> cap_maturity_valid (cy_maturity c) then Some CapMaturity
     else if \<not> criticality_valid (cy_health_criticality c) then Some CapCriticality
     else None)"

definition is_resolvable :: "cap_capability \<Rightarrow> bool" where
  "is_resolvable c \<longleftrightarrow> cy_lifecycle c = LifecycleActive"

datatype dependency_type = DependencyRequired | DependencyOptional | DependencyConditional | DependencyOther string

definition dependency_type_valid :: "dependency_type \<Rightarrow> bool" where
  "dependency_type_valid t = (case t of DependencyOther _ \<Rightarrow> False | _ \<Rightarrow> True)"

record cap_dependency =
  dp_capability_id :: string
  dp_capability_key :: string
  dp_depends_on :: string
  dp_type :: dependency_type
  dp_condition :: string

datatype dependency_error = DependencyOwner | DependencyTarget | DependencySelf | DependencyTypeUnknown | DependencyCondition

definition dependency_validate :: "cap_dependency \<Rightarrow> dependency_error option" where
  "dependency_validate d =
    (if dp_capability_id d = [] \<and> dp_capability_key d = [] then Some DependencyOwner
     else if trim_space (dp_depends_on d) = [] then Some DependencyTarget
     else if dp_capability_key d \<noteq> [] \<and> dp_capability_key d = dp_depends_on d then Some DependencySelf
     else if \<not> dependency_type_valid (dp_type d) then Some DependencyTypeUnknown
     else if dp_type d = DependencyConditional \<and> trim_space (dp_condition d) = [] then Some DependencyCondition
     else None)"

section \<open>Cycles of required dependencies\<close>

type_synonym edges = "(string \<times> string) list"

definition required_edges :: "cap_dependency list \<Rightarrow> edges" where
  "required_edges ds = map (\<lambda>d. (dp_capability_key d, dp_depends_on d))
     (filter (\<lambda>d. dp_type d = DependencyRequired \<and> dp_capability_key d \<noteq> []) ds)"

definition successors :: "edges \<Rightarrow> string \<Rightarrow> string list" where
  "successors es n = map snd (filter (\<lambda>e. fst e = n) es)"

datatype visit_state = Unvisited | Visiting | Done

text \<open>\<open>visit\<close> and the loop over the successors of a node.\<close>

fun visit :: "nat \<Rightarrow> edges \<Rightarrow> string \<Rightarrow> (string \<Rightarrow> visit_state) \<Rightarrow> (bool \<times> (string \<Rightarrow> visit_state)) option"
  and visit_all :: "nat \<Rightarrow> edges \<Rightarrow> string list \<Rightarrow> (string \<Rightarrow> visit_state) \<Rightarrow> (bool \<times> (string \<Rightarrow> visit_state)) option" where
  "visit 0 es n st = None"
| "visit (Suc k) es n st =
    (case st n of
       Visiting \<Rightarrow> Some (True, st)
     | Done \<Rightarrow> Some (False, st)
     | Unvisited \<Rightarrow>
         (case visit_all k es (successors es n) (st(n := Visiting)) of
            None \<Rightarrow> None
          | Some (found, st') \<Rightarrow> Some (if found then (True, st') else (False, st'(n := Done)))))"
| "visit_all k es [] st = Some (False, st)"
| "visit_all k es (m # ms) st =
    (case visit k es m st of
       None \<Rightarrow> None
     | Some (found, st') \<Rightarrow> if found then Some (True, st') else visit_all k es ms st')"

text \<open>The outer loop.\<close>

fun visit_nodes :: "nat \<Rightarrow> edges \<Rightarrow> string list \<Rightarrow> (string \<Rightarrow> visit_state) \<Rightarrow> bool option" where
  "visit_nodes k es [] st = Some False"
| "visit_nodes k es (n # ns) st =
    (if st n = Unvisited
     then (case visit k es n st of
             None \<Rightarrow> None
           | Some (found, st') \<Rightarrow> if found then Some True else visit_nodes k es ns st')
     else visit_nodes k es ns st)"

definition edge_nodes :: "edges \<Rightarrow> string list" where
  "edge_nodes es = remdups (map fst es @ map snd es)"

text \<open>
  \<open>HasCapabilityDependencyCycle\<close> with the order \<open>ks\<close> in which the keys are ranged over. The fuel is the
  number of nodes and one more: a node is marked before its successors are visited.
\<close>

definition has_dependency_cycle :: "string list \<Rightarrow> cap_dependency list \<Rightarrow> bool option" where
  "has_dependency_cycle ks ds =
    (let es = required_edges ds in visit_nodes (Suc (length (edge_nodes es))) es ks (\<lambda>_. Unvisited))"

text \<open>
  \<open>CreateCapabilityDependency\<close>: the check reads every required dependency, the insert is a second
  statement and adds nothing when a capability is not registered. They are not one transaction.
\<close>

record dependency_store =
  ds_codes :: "string list"
  ds_rows :: "(string \<times> string \<times> dependency_type) list"

datatype create_dependency_error = DependencyInvalid dependency_error | DependencyCycle | SearchDiverges

definition required_rows :: "dependency_store \<Rightarrow> cap_dependency list" where
  "required_rows w = map (\<lambda>(a, b, t). \<lparr>dp_capability_id = [], dp_capability_key = a, dp_depends_on = b, dp_type = DependencyRequired, dp_condition = []\<rparr>)
     (filter (\<lambda>(a, b, t). t = DependencyRequired) (ds_rows w))"

definition check_dependency :: "(edges \<Rightarrow> string list) \<Rightarrow> dependency_store \<Rightarrow> cap_dependency \<Rightarrow> create_dependency_error option" where
  "check_dependency key_order w d =
    (case dependency_validate d of
       Some e \<Rightarrow> Some (DependencyInvalid e)
     | None \<Rightarrow>
         if dp_type d \<noteq> DependencyRequired then None
         else let existing = d # required_rows w in
           (case has_dependency_cycle (key_order (required_edges existing)) existing of
              None \<Rightarrow> Some SearchDiverges
            | Some found \<Rightarrow> if found then Some DependencyCycle else None))"

definition insert_dependency :: "dependency_store \<Rightarrow> cap_dependency \<Rightarrow> dependency_store" where
  "insert_dependency w d =
    (if dp_capability_key d \<in> set (ds_codes w) \<and> dp_depends_on d \<in> set (ds_codes w)
     then w\<lparr>ds_rows := ds_rows w @ [(dp_capability_key d, dp_depends_on d, dp_type d)]\<rparr> else w)"

definition create_capability_dependency ::
  "(edges \<Rightarrow> string list) \<Rightarrow> dependency_store \<Rightarrow> cap_dependency \<Rightarrow> create_dependency_error + dependency_store" where
  "create_capability_dependency key_order w d =
    (case check_dependency key_order w d of Some e \<Rightarrow> Inl e | None \<Rightarrow> Inr (insert_dependency w d))"

section \<open>Scopes, grants, providers and bindings\<close>

record cap_scope =
  cs_scope_id :: string
  cs_tenant :: string
  cs_legal_entity :: string
  cs_organisation :: string
  cs_business_unit :: string
  cs_digital_estate :: string
  cs_digital_property :: string
  cs_channel :: string
  cs_market :: string
  cs_jurisdiction :: string
  cs_currency :: string
  cs_customer_segment :: string
  cs_catalogue :: string
  cs_operating_region :: string
  cs_geographic_region :: string
  cs_deployment_region :: string
  cs_environment :: string
  cs_isolation_profile :: string
  cs_include_countries :: "string list"
  cs_exclude_countries :: "string list"

datatype cap_scope_error = ScopeTenant | ScopeContradictory

definition cap_scope_validate :: "cap_scope \<Rightarrow> cap_scope_error option" where
  "cap_scope_validate s =
    (if trim_space (cs_tenant s) = [] then Some ScopeTenant
     else if cs_include_countries s \<noteq> [] \<and> list_all (\<lambda>c. c \<in> set (cs_exclude_countries s)) (cs_include_countries s) then Some ScopeContradictory
     else None)"

datatype cap_grant_source =
    SourcePlatformBaseline | SourceProductSubscription | SourceContract | SourceTrial | SourceManualApproval | SourceInternalPolicy
  | SourceMigration | CapSourceOther string

definition cap_grant_source_valid :: "cap_grant_source \<Rightarrow> bool" where
  "cap_grant_source_valid s = (case s of CapSourceOther _ \<Rightarrow> False | _ \<Rightarrow> True)"

datatype cap_grant_status = CapGrantPending | CapGrantActive | CapGrantSuspended | CapGrantRevoked | CapGrantExpired | CapGrantOther string

definition cap_grant_status_valid :: "cap_grant_status \<Rightarrow> bool" where
  "cap_grant_status_valid s = (case s of CapGrantOther _ \<Rightarrow> False | _ \<Rightarrow> True)"

record cap_grant =
  ct_id :: string
  ct_tenant :: string
  ct_capability_id :: string
  ct_capability_key :: string
  ct_scope_id :: string
  ct_source :: cap_grant_source
  ct_source_reference :: string
  ct_status :: cap_grant_status
  ct_effective_from :: instant
  ct_effective_to :: "instant option"

datatype cap_grant_error =
  GrantTenant | GrantCapability | GrantScope | GrantSourceUnknown | GrantSourceReference | GrantStatusUnknown | GrantWindow

definition window_empty :: "instant \<Rightarrow> instant option \<Rightarrow> bool" where
  "window_empty from to = (case to of None \<Rightarrow> False | Some t \<Rightarrow> \<not> from < t)"

definition cap_grant_validate :: "cap_grant \<Rightarrow> cap_grant_error option" where
  "cap_grant_validate g =
    (if trim_space (ct_tenant g) = [] then Some GrantTenant
     else if ct_capability_id g = [] \<and> ct_capability_key g = [] then Some GrantCapability
     else if trim_space (ct_scope_id g) = [] then Some GrantScope
     else if \<not> cap_grant_source_valid (ct_source g) then Some GrantSourceUnknown
     else if ct_source g \<noteq> SourcePlatformBaseline \<and> trim_space (ct_source_reference g) = [] then Some GrantSourceReference
     else if \<not> cap_grant_status_valid (ct_status g) then Some GrantStatusUnknown
     else if window_empty (ct_effective_from g) (ct_effective_to g) then Some GrantWindow
     else None)"

definition is_effective :: "cap_grant \<Rightarrow> instant \<Rightarrow> bool" where
  "is_effective g at \<longleftrightarrow> ct_status g = CapGrantActive \<and> ct_effective_from g \<le> at \<and>
     (case ct_effective_to g of None \<Rightarrow> True | Some t \<Rightarrow> at < t)"

datatype binding_mode = ModePrimary | ModeFallback | ModeShadow | ModeMigration | ModeDisabled | BindingModeOther string

definition binding_mode_valid :: "binding_mode \<Rightarrow> bool" where
  "binding_mode_valid m = (case m of BindingModeOther _ \<Rightarrow> False | _ \<Rightarrow> True)"

record cap_provider =
  pv_provider_key :: string
  pv_name :: string
  pv_provider_type :: string
  pv_engine_id :: string

datatype cap_provider_error = ProviderKey | ProviderNameEngine | ProviderType

definition cap_provider_validate :: "cap_provider \<Rightarrow> cap_provider_error option" where
  "cap_provider_validate p =
    (if \<not> valid_provider_key (pv_provider_key p) then Some ProviderKey
     else if trim_space (pv_name p) = [] \<or> trim_space (pv_engine_id p) = [] then Some ProviderNameEngine
     else if pv_provider_type p \<notin> {''BAOBAB_ENGINE'', ''EXTERNAL_SERVICE'', ''PLATFORM_NATIVE'', ''ADAPTER''} then Some ProviderType
     else None)"

record cap_support =
  sp_provider_id :: string
  sp_capability_id :: string
  sp_capability_key :: string
  sp_contract_versions :: "int list"
  sp_effective_from :: instant
  sp_effective_to :: "instant option"

datatype cap_support_error = SupportProvider | SupportCapability | SupportVersions | SupportWindow

definition cap_support_validate :: "cap_support \<Rightarrow> cap_support_error option" where
  "cap_support_validate s =
    (if sp_provider_id s = [] then Some SupportProvider
     else if sp_capability_id s = [] \<and> sp_capability_key s = [] then Some SupportCapability
     else if sp_contract_versions s = [] then Some SupportVersions
     else if window_empty (sp_effective_from s) (sp_effective_to s) then Some SupportWindow
     else None)"

record cap_binding =
  cb_id :: string
  cb_capability_id :: string
  cb_capability_key :: string
  cb_provider_id :: string
  cb_engine_id :: string
  cb_engine_instance_id :: string
  cb_scope_id :: string
  cb_mode :: binding_mode
  cb_priority :: int
  cb_status :: string
  cb_contract_version :: string
  cb_effective_from :: instant
  cb_effective_to :: "instant option"
  cb_version :: int

datatype cap_binding_error = BindingCapability | BindingInstanceScope | BindingModeUnknown | BindingWindow

definition cap_binding_validate :: "cap_binding \<Rightarrow> cap_binding_error option" where
  "cap_binding_validate b =
    (if cb_capability_id b = [] \<and> cb_capability_key b = [] then Some BindingCapability
     else if cb_engine_instance_id b = [] \<or> cb_scope_id b = [] then Some BindingInstanceScope
     else if cb_mode b \<noteq> BindingModeOther [] \<and> \<not> binding_mode_valid (cb_mode b) then Some BindingModeUnknown
     else if window_empty (cb_effective_from b) (cb_effective_to b) then Some BindingWindow
     else None)"

section \<open>Compositions\<close>

datatype composition_type = CompositionPlatform | CompositionProduct | CompositionProfile | CompositionAddOn | CompositionInternal | CompositionTypeOther string

definition composition_type_valid :: "composition_type \<Rightarrow> bool" where
  "composition_type_valid t = (case t of CompositionTypeOther _ \<Rightarrow> False | _ \<Rightarrow> True)"

datatype membership_criticality = MembershipMandatory | MembershipImportant | MembershipOptional | MembershipOther string

definition membership_valid :: "membership_criticality \<Rightarrow> bool" where
  "membership_valid c = (case c of MembershipOther _ \<Rightarrow> False | _ \<Rightarrow> True)"

record composition_member =
  cm_capability_key :: string
  cm_criticality :: membership_criticality

record composition =
  cn_key :: string
  cn_type :: composition_type
  cn_version :: string
  cn_members :: "composition_member list"
  cn_lifecycle :: cap_lifecycle

datatype composition_error =
  MemberKey | MemberCriticality | CompositionKey | CompositionType | CompositionVersion | CompositionMembers | CompositionLifecycle

definition member_validate :: "composition_member \<Rightarrow> composition_error option" where
  "member_validate m =
    (if \<not> valid_capability_key (cm_capability_key m) then Some MemberKey
     else if \<not> membership_valid (cm_criticality m) then Some MemberCriticality
     else None)"

definition composition_validate :: "composition \<Rightarrow> composition_error option" where
  "composition_validate c =
    (if \<not> valid_composition_key (cn_key c) then Some CompositionKey
     else if \<not> composition_type_valid (cn_type c) then Some CompositionType
     else if trim_space (cn_version c) = [] then Some CompositionVersion
     else if cn_members c = [] then Some CompositionMembers
     else case first_error member_validate (cn_members c) of
       Some e \<Rightarrow> Some e
     | None \<Rightarrow> if \<not> cap_lifecycle_valid (cn_lifecycle c) then Some CompositionLifecycle else None)"

definition composition_resolvable :: "composition \<Rightarrow> bool" where
  "composition_resolvable c \<longleftrightarrow> cn_lifecycle c = LifecycleActive"

section \<open>The search returns and is right\<close>

abbreviation grey :: "(string \<Rightarrow> visit_state) \<Rightarrow> string set" where
  "grey st \<equiv> {n. st n = Visiting}"

abbreviation black :: "(string \<Rightarrow> visit_state) \<Rightarrow> string set" where
  "black st \<equiv> {n. st n = Done}"

definition white_in :: "edges \<Rightarrow> (string \<Rightarrow> visit_state) \<Rightarrow> string set" where
  "white_in es st = {n \<in> set (edge_nodes es). st n = Unvisited}"

lemma successors_iff [simp]: "m \<in> set (successors es n) \<longleftrightarrow> (n, m) \<in> set es"
  by (auto simp: successors_def image_iff)

lemma edge_nodes_iff: "n \<in> set (edge_nodes es) \<longleftrightarrow> n \<in> Field (set es)"
  by (force simp: edge_nodes_def Field_def)

lemma white_finite [simp]: "finite (white_in es st)"
  by (simp add: white_in_def)

lemma white_less: "white_in es st' \<subseteq> white_in es st \<Longrightarrow> card (white_in es st) < k \<Longrightarrow> card (white_in es st') < k"
  using card_mono [of "white_in es st" "white_in es st'"] by simp

text \<open>Enough fuel: one more than the nodes not yet visited. Visiting never makes a node unvisited.\<close>

lemma visit_returns:
  "card (white_in es st) < k \<Longrightarrow> n \<in> set (edge_nodes es) \<Longrightarrow>
     \<exists>found st'. visit k es n st = Some (found, st') \<and> white_in es st' \<subseteq> white_in es st"
  "card (white_in es st) < k \<Longrightarrow> set ms \<subseteq> set (edge_nodes es) \<Longrightarrow>
     \<exists>found st'. visit_all k es ms st = Some (found, st') \<and> white_in es st' \<subseteq> white_in es st"
proof (induction k es n st and k es ms st rule: visit_visit_all.induct)
  case (2 k es n st)
  show ?case
  proof (cases "st n")
    case Unvisited
    let ?st = "st(n := Visiting)"
    have eq: "white_in es ?st = white_in es st - {n}" by (auto simp: white_in_def)
    have "n \<in> white_in es st" using 2 Unvisited by (simp add: white_in_def)
    then have "card (white_in es ?st) < k" using 2(2) card_gt_0_iff [of "white_in es st"] by (auto simp: eq card_Diff_singleton)
    moreover have "set (successors es n) \<subseteq> set (edge_nodes es)" by (auto simp: edge_nodes_iff Field_def)
    ultimately obtain found st' where "visit_all k es (successors es n) ?st = Some (found, st')" "white_in es st' \<subseteq> white_in es ?st"
      using 2(1) [OF Unvisited] by blast
    then show ?thesis using Unvisited by (auto simp: white_in_def split: if_splits)
  qed auto
next
  case (4 k es m ms st)
  then obtain found st' where 1: "visit k es m st = Some (found, st')" "white_in es st' \<subseteq> white_in es st" by auto
  from white_less [OF 1(2) 4(3)] have "card (white_in es st') < k" .
  show ?case
  proof (cases found)
    case True
    with 1 show ?thesis by auto
  next
    case False
    from 4(2) [OF 1(1) refl False \<open>card (white_in es st') < k\<close>] 4(4)
    obtain found' st'' where "visit_all k es ms st' = Some (found', st'')" "white_in es st'' \<subseteq> white_in es st'" by auto
    with 1 False show ?thesis by auto
  qed
qed auto

lemma nodes_return:
  "card (white_in es st) < k \<Longrightarrow> set ns \<subseteq> set (edge_nodes es) \<Longrightarrow> visit_nodes k es ns st \<noteq> None"
proof (induction ns arbitrary: st)
  case (Cons n ns)
  show ?case
  proof (cases "st n = Unvisited")
    case True
    from Cons.prems visit_returns(1) [of es st k n] obtain found st' where 1: "visit k es n st = Some (found, st')" "white_in es st' \<subseteq> white_in es st"
      by auto
    from white_less [OF 1(2) Cons.prems(1)] have "card (white_in es st') < k" .
    with Cons 1 True show ?thesis by (cases found) auto
  qed (use Cons in auto)
qed simp

text \<open>
  What the states mean: a finished node has finished successors and is on no cycle, and every node
  being visited reaches the one to visit next.
\<close>

definition visit_inv :: "edges \<Rightarrow> (string \<Rightarrow> visit_state) \<Rightarrow> bool" where
  "visit_inv es st \<longleftrightarrow> set es `` black st \<subseteq> black st \<and> (\<forall>n \<in> black st. (n, n) \<notin> (set es)\<^sup>+)"

lemma black_reach:
  assumes "R `` B \<subseteq> B" and "(a, b) \<in> R\<^sup>+" and "a \<in> B"
  shows "b \<in> B"
  using assms(2,1,3) by (induction rule: trancl_induct) auto

lemma finish_inv:
  assumes inv: "visit_inv es st" and grey: "st n = Visiting" and succ: "\<forall>m. (n, m) \<in> set es \<longrightarrow> st m = Done"
  shows "visit_inv es (st(n := Done))"
proof -
  let ?R = "set es"
  have closed: "?R `` black st \<subseteq> black st" using inv by (simp add: visit_inv_def)
  have "(n, n) \<notin> ?R\<^sup>+"
  proof
    assume "(n, n) \<in> ?R\<^sup>+"
    then obtain m where "(n, m) \<in> ?R" "m = n \<or> (m, n) \<in> ?R\<^sup>+" by (metis converse_tranclE)
    with succ black_reach [OF closed, of m n] grey show False by auto
  qed
  then show ?thesis using inv succ by (auto simp: visit_inv_def)
qed

lemma visit_right:
  "visit k es n st = Some (found, st') \<Longrightarrow> visit_inv es st \<Longrightarrow> \<forall>g \<in> grey st. (g, n) \<in> (set es)\<^sup>+ \<Longrightarrow>
     (if found then \<exists>c. (c, c) \<in> (set es)\<^sup>+ else visit_inv es st' \<and> grey st' = grey st \<and> black st \<subseteq> black st' \<and> st' n = Done)"
  "visit_all k es ms st = Some (found, st') \<Longrightarrow> visit_inv es st \<Longrightarrow> \<forall>g \<in> grey st. \<forall>m \<in> set ms. (g, m) \<in> (set es)\<^sup>+ \<Longrightarrow>
     (if found then \<exists>c. (c, c) \<in> (set es)\<^sup>+
      else visit_inv es st' \<and> grey st' = grey st \<and> black st \<subseteq> black st' \<and> set ms \<subseteq> black st')"
proof (induction k es n st and k es ms st arbitrary: found st' and found st' rule: visit_visit_all.induct)
  case (2 k es n st)
  show ?case
  proof (cases "st n")
    case Visiting
    with 2 show ?thesis by auto
  next
    case Done
    with 2 show ?thesis by auto
  next
    case Unvisited
    let ?st = "st(n := Visiting)"
    from 2(2) Unvisited obtain found1 st1 where 1: "visit_all k es (successors es n) ?st = Some (found1, st1)"
      and res: "(found, st') = (if found1 then (True, st1) else (False, st1(n := Done)))" by (auto split: option.splits prod.splits)
    have "visit_inv es ?st" using 2(3) Unvisited by (auto simp: visit_inv_def)
    moreover have "\<forall>g \<in> grey ?st. \<forall>m \<in> set (successors es n). (g, m) \<in> (set es)\<^sup>+" using 2(4) by (auto intro: trancl_into_trancl)
    ultimately have IH: "if found1 then \<exists>c. (c, c) \<in> (set es)\<^sup>+
      else visit_inv es st1 \<and> grey st1 = grey ?st \<and> black ?st \<subseteq> black st1 \<and> set (successors es n) \<subseteq> black st1"
      using 2(1) [OF Unvisited 1] by blast
    show ?thesis
    proof (cases found1)
      case False
      from IH [unfolded if_not_P [OF False]] have inv: "visit_inv es st1" and g: "grey st1 = grey ?st" and b: "black ?st \<subseteq> black st1"
        and b': "set (successors es n) \<subseteq> black st1" by blast+
      from b' have s: "\<forall>m. (n, m) \<in> set es \<longrightarrow> st1 m = Done" by auto
      have "n \<in> grey ?st" by simp
      then have n: "st1 n = Visiting" unfolding g [symmetric] by simp
      from False res have eq: "found = False" "st' = st1(n := Done)" by simp_all
      have "grey st' = grey st1 - {n}" by (auto simp: eq)
      also have "\<dots> = grey st" using Unvisited unfolding g by auto
      finally have "grey st' = grey st" .
      moreover have "black st \<subseteq> black st'" using b Unvisited by (auto simp: eq)
      ultimately show ?thesis using finish_inv [OF inv n s] by (simp add: eq)
    qed (use IH res in auto)
  qed
next
  case (4 k es m ms st)
  from 4(3) obtain found1 st1 where 1: "visit k es m st = Some (found1, st1)" by (auto split: option.splits)
  have IH: "if found1 then \<exists>c. (c, c) \<in> (set es)\<^sup>+ else visit_inv es st1 \<and> grey st1 = grey st \<and> black st \<subseteq> black st1 \<and> st1 m = Done"
    using 4(1) [OF 1 4(4)] 4(5) by simp
  show ?case
  proof (cases found1)
    case True
    with 4(3) 1 IH show ?thesis by auto
  next
    case False
    with 4(3) 1 have rest: "visit_all k es ms st1 = Some (found, st')" by simp
    from IH False 4(5) have "visit_inv es st1" "\<forall>g \<in> grey st1. \<forall>m \<in> set ms. (g, m) \<in> (set es)\<^sup>+" by auto
    from 4(2) [OF 1 refl _ rest this] False IH show ?thesis by (auto split: if_splits)
  qed
qed simp_all

lemma visit_nodes_right:
  assumes "visit_nodes k es ns st = Some found" and "visit_inv es st" and "grey st = {}"
  shows "if found then \<exists>c. (c, c) \<in> (set es)\<^sup>+ else \<forall>n \<in> set ns. (n, n) \<notin> (set es)\<^sup>+"
  using assms
proof (induction ns arbitrary: st)
  case (Cons n ns)
  show ?case
  proof (cases "st n = Unvisited")
    case True
    with Cons.prems(1) obtain found1 st1 where 1: "visit k es n st = Some (found1, st1)"
      and rest: "if found1 then found else visit_nodes k es ns st1 = Some found" by (auto split: option.splits if_splits)
    have "if found1 then \<exists>c. (c, c) \<in> (set es)\<^sup>+ else visit_inv es st1 \<and> grey st1 = grey st \<and> black st \<subseteq> black st1 \<and> st1 n = Done"
      by (rule visit_right(1) [OF 1 Cons.prems(2)]) (simp add: Cons.prems(3))
    with rest Cons.IH [of st1] Cons.prems(3) show ?thesis by (cases found1) (auto simp: visit_inv_def split: if_splits)
  next
    case False
    then have "st n = Done" using Cons.prems(3) by (cases "st n") auto
    with Cons False show ?thesis by (auto simp: visit_inv_def split: if_splits)
  qed
qed simp

lemma cycle_search_right:
  assumes "set ks = fst ` set (required_edges ds)"
  shows "has_dependency_cycle ks ds = Some (\<exists>c. (c, c) \<in> (set (required_edges ds))\<^sup>+)"
proof -
  let ?es = "required_edges ds" let ?k = "Suc (length (edge_nodes ?es))"
  have "card (white_in ?es (\<lambda>_. Unvisited)) < ?k"
    using card_length [of "edge_nodes ?es"] by (simp add: white_in_def)
  moreover have "set ks \<subseteq> set (edge_nodes ?es)" using assms by (auto simp: edge_nodes_iff Field_def)
  ultimately obtain found where found: "visit_nodes ?k ?es ks (\<lambda>_. Unvisited) = Some found" using nodes_return by blast
  have "if found then \<exists>c. (c, c) \<in> (set ?es)\<^sup>+ else \<forall>n \<in> set ks. (n, n) \<notin> (set ?es)\<^sup>+"
    by (rule visit_nodes_right [OF found]) (auto simp: visit_inv_def)
  moreover have "c \<in> set ks" if "(c, c) \<in> (set ?es)\<^sup>+" for c
    using that assms by (metis Domain_fst DomainI converse_tranclE)
  ultimately have "found = (\<exists>c. (c, c) \<in> (set ?es)\<^sup>+)" by (cases found) auto
  with found show ?thesis by (simp add: has_dependency_cycle_def Let_def)
qed

text \<open>
  C25 (the search for a dependency cycle returns): whatever the order in which the capabilities are
  visited, \<open>HasCapabilityDependencyCycle\<close> returns, and it answers whether some capability requires
  itself through any number of required dependencies.
\<close>

theorem dependency_cycle_search:
  assumes "set ks = fst ` set (required_edges ds)"
  shows "has_dependency_cycle ks ds = Some (\<exists>c. (c, c) \<in> (set (required_edges ds))\<^sup>+)"
  by (rule cycle_search_right [OF assms])

theorem dependency_cycle_search_witness:
  "has_dependency_cycle [''a'', ''b''] (required_rows \<lparr>ds_codes = [''a'', ''b''], ds_rows = [(''a'', ''b'', DependencyRequired), (''b'', ''a'', DependencyRequired)]\<rparr>) = Some True"
proof -
  let ?ds = "required_rows \<lparr>ds_codes = [''a'', ''b''], ds_rows = [(''a'', ''b'', DependencyRequired), (''b'', ''a'', DependencyRequired)]\<rparr>"
  have es: "set (required_edges ?ds) = {(''a'', ''b''), (''b'', ''a'')}" by (simp add: required_edges_def required_rows_def)
  have "(''a'', ''a'') \<in> (set (required_edges ?ds))\<^sup>+" unfolding es by (rule trancl_trans [OF r_into_trancl r_into_trancl]) simp_all
  moreover have "set [''a'', ''b''] = fst ` set (required_edges ?ds)" unfolding es by simp
  from dependency_cycle_search [OF this] have "has_dependency_cycle [''a'', ''b''] ?ds = Some (\<exists>c. (c, c) \<in> (set (required_edges ?ds))\<^sup>+)" .
  ultimately show ?thesis by auto
qed

section \<open>The stored dependencies stay acyclic\<close>

definition required_relation :: "dependency_store \<Rightarrow> (string \<times> string) set" where
  "required_relation w = {(a, b). (a, b, DependencyRequired) \<in> set (ds_rows w)}"

definition dependency_store_ok :: "dependency_store \<Rightarrow> bool" where
  "dependency_store_ok w \<longleftrightarrow> acyclic (required_relation w) \<and> [] \<notin> set (ds_codes w) \<and> (\<forall>r \<in> set (ds_rows w). fst r \<noteq> [])"

lemma existing_edges:
  assumes "dependency_store_ok w" and "dp_type d = DependencyRequired"
  shows "set (required_edges (d # required_rows w)) =
    (if dp_capability_key d = [] then required_relation w else insert (dp_capability_key d, dp_depends_on d) (required_relation w))"
  using assms by (force simp: required_edges_def required_rows_def required_relation_def dependency_store_ok_def)

lemma check_cases:
  assumes "dependency_store_ok w" and "\<And>es. set (key_order es) = fst ` set es"
  shows "check_dependency key_order w d =
    (case dependency_validate d of
       Some e \<Rightarrow> Some (DependencyInvalid e)
     | None \<Rightarrow> if dp_type d = DependencyRequired \<and> dp_capability_key d \<noteq> [] \<and> (dp_depends_on d, dp_capability_key d) \<in> (required_relation w)\<^sup>*
               then Some DependencyCycle else None)"
proof -
  let ?R = "required_relation w"
  have "has_dependency_cycle (key_order (required_edges (d # required_rows w))) (d # required_rows w) =
      Some (\<not> acyclic (set (required_edges (d # required_rows w))))"
    using cycle_search_right [OF assms(2)] by (simp add: acyclic_def)
  moreover have "acyclic ?R" using assms(1) by (simp add: dependency_store_ok_def)
  ultimately show ?thesis using existing_edges [OF assms(1)]
    by (auto simp: check_dependency_def Let_def acyclic_insert split: option.splits)
qed

text \<open>
  Property (required dependencies stay acyclic): creating dependencies one after the other refuses a valid
  required dependency exactly when it would close a cycle, and keeps the stored graph acyclic.
\<close>

theorem dependencies_stay_acyclic:
  assumes "dependency_store_ok w" and "\<And>es. set (key_order es) = fst ` set es"
  shows "(create_capability_dependency key_order w d = Inl DependencyCycle) =
      (dependency_validate d = None \<and> dp_type d = DependencyRequired \<and> dp_capability_key d \<noteq> [] \<and>
       (dp_depends_on d, dp_capability_key d) \<in> (required_relation w)\<^sup>*) \<and>
    (create_capability_dependency key_order w d = Inr w' \<longrightarrow> dependency_store_ok w')"
proof -
  note C = check_cases [OF assms, of d]
  have "dependency_store_ok w'" if "create_capability_dependency key_order w d = Inr w'"
  proof -
    from that C have w': "w' = insert_dependency w d"
      and ok: "dp_type d \<noteq> DependencyRequired \<or> dp_capability_key d = [] \<or> (dp_depends_on d, dp_capability_key d) \<notin> (required_relation w)\<^sup>*"
      by (auto simp: create_capability_dependency_def split: option.splits if_splits)
    show ?thesis
    proof (cases "dp_capability_key d \<in> set (ds_codes w) \<and> dp_depends_on d \<in> set (ds_codes w)")
      case True
      then have k: "dp_capability_key d \<noteq> []" using assms(1) by (auto simp: dependency_store_ok_def)
      have "required_relation w' = (if dp_type d = DependencyRequired then insert (dp_capability_key d, dp_depends_on d) (required_relation w)
          else required_relation w)" using True by (auto simp: w' insert_dependency_def required_relation_def)
      with ok k assms(1) True show ?thesis by (auto simp: dependency_store_ok_def acyclic_insert w' insert_dependency_def)
    next
      case False
      then have "w' = w" by (auto simp: w' insert_dependency_def)
      with assms(1) show ?thesis by simp
    qed
  qed
  moreover have "(create_capability_dependency key_order w d = Inl DependencyCycle) = (check_dependency key_order w d = Some DependencyCycle)"
    by (auto simp: create_capability_dependency_def split: option.splits)
  ultimately show ?thesis using C by (auto split: option.splits)
qed

definition ex_dependency :: "string \<Rightarrow> string \<Rightarrow> cap_dependency" where
  "ex_dependency a b = \<lparr>dp_capability_id = [], dp_capability_key = a, dp_depends_on = b, dp_type = DependencyRequired, dp_condition = []\<rparr>"

definition ex_store :: dependency_store where
  "ex_store = \<lparr>ds_codes = [''a'', ''b''], ds_rows = [(''a'', ''b'', DependencyRequired)]\<rparr>"

lemma ex_dependency_valid: "dependency_validate (ex_dependency ''b'' ''a'') = None" "dependency_validate (ex_dependency ''a'' ''b'') = None"
  by code_simp+

theorem dependencies_stay_acyclic_witness:
  "create_capability_dependency (map fst) ex_store (ex_dependency ''b'' ''a'') = Inl DependencyCycle"
proof -
  have R: "required_relation ex_store = {(''a'', ''b'')}" by (auto simp: required_relation_def ex_store_def)
  have "acyclic {(''a'', ''b'')}" by (intro wf_acyclic) (simp add: wf_insert)
  then have ok: "dependency_store_ok ex_store"
    unfolding dependency_store_ok_def R by (auto simp: ex_store_def)
  have "(dp_depends_on (ex_dependency ''b'' ''a''), dp_capability_key (ex_dependency ''b'' ''a'')) \<in> (required_relation ex_store)\<^sup>*"
    unfolding R by (auto simp: ex_dependency_def)
  moreover have "dp_type (ex_dependency ''b'' ''a'') = DependencyRequired" "dp_capability_key (ex_dependency ''b'' ''a'') \<noteq> []"
    by (simp_all add: ex_dependency_def)
  ultimately show ?thesis using dependencies_stay_acyclic [OF ok, of "map fst" "ex_dependency ''b'' ''a''"] ex_dependency_valid(1) by simp
qed

text \<open>
  The check and the insert are two statements: two creations that both check before either inserts
  close a cycle.
\<close>

lemma concurrent_dependencies_form_cycle:
  "\<exists>w a b. dependency_store_ok w \<and> check_dependency (map fst) w a = None \<and> check_dependency (map fst) w b = None \<and>
    \<not> acyclic (required_relation (insert_dependency (insert_dependency w a) b))"
proof -
  let ?w = "\<lparr>ds_codes = [''a'', ''b''], ds_rows = []\<rparr>" let ?a = "ex_dependency ''a'' ''b''" let ?b = "ex_dependency ''b'' ''a''"
  have R: "required_relation ?w = {}" by (simp add: required_relation_def)
  have ok: "dependency_store_ok ?w" unfolding dependency_store_ok_def R by (simp add: acyclic_def)
  have "check_dependency (map fst) ?w ?a = None" "check_dependency (map fst) ?w ?b = None"
    using check_cases [OF ok, of "map fst"] ex_dependency_valid unfolding R by (simp_all add: ex_dependency_def)
  moreover have "required_relation (insert_dependency (insert_dependency ?w ?a) ?b) = {(''a'', ''b''), (''b'', ''a'')}"
    by (auto simp: required_relation_def insert_dependency_def ex_dependency_def)
  moreover have "(''a'', ''a'') \<in> {(''a'', ''b''), (''b'', ''a'')}\<^sup>+" by (rule trancl_trans [OF r_into_trancl r_into_trancl]) simp_all
  ultimately show ?thesis using ok unfolding acyclic_def by metis
qed

end
