(* ===== verification/Resolver.thy ===== *)
theory Resolver
  imports Capability_Domain "HOL-Library.Product_Lexorder" "HOL-Library.Multiset"
begin

text \<open>
  The resolver (\<open>internal/resolver\<close>): the runtime context (\<open>context.go\<close>, \<open>internal/domain/resolution.go\<close>), the two scope
  matchers, the choice of a capability binding (\<open>capability.go\<close>), the entitlement check (\<open>entitlement.go\<close>), the choice among
  healthy bindings (\<open>health.go\<close>), the check of the selected engine instance (\<open>topology.go\<close>), the policy check
  (\<open>policy.go\<close>) and the relocation plan (\<open>relocation.go\<close>).

  A Go map that is only read is an association list. The clock read when a query names no time is the argument \<open>clock\<close>,
  and the embedded health policy is the argument \<open>p\<close>. \<open>sort.Slice\<close> is a stable sort by the compared key: bindings that tie
  on the whole key, the identifier included, are copies of one row, and then the choice is ambiguous.

  The locale \<open>ranking\<close> states what a resolver that sorts its candidates and compares the first two relies on; its lemmas
  turn the sort into the set of best candidates, and both the binding resolver here and the mapping resolver instantiate it.
\<close>

section \<open>The runtime context\<close>

datatype trust_level = TrustUntrusted | TrustVerified | TrustAuthorised | TrustSystem | TrustOther string

record context_source =
  sr_source :: string
  sr_trust_level :: trust_level
  sr_evidence :: string

datatype context_purpose = PurposeRuntime | PurposeTenantProvisioning | PurposeOther string

record provisioning_authority =
  pa_tenant_provisioning_id :: string
  pa_plan_id :: string
  pa_plan_version :: int
  pa_plan_digest :: string

record rcontext =
  cx_id :: string
  cx_principal :: string
  cx_tenant :: string
  cx_legal_entity :: string
  cx_organisation :: string
  cx_business_unit :: string
  cx_digital_estate :: string
  cx_digital_property :: string
  cx_channel :: string
  cx_market :: string
  cx_jurisdiction :: string
  cx_country :: string
  cx_currency :: string
  cx_locale :: string
  cx_deployment_region :: string
  cx_environment :: string
  cx_isolation_profile :: string
  cx_correlation :: string
  cx_resolved_at :: instant
  cx_expires_at :: "instant option"
  cx_provenance :: "(string \<times> context_source) list"
  cx_authority_purpose :: context_purpose
  cx_authority :: "provisioning_authority option"

definition purpose_of :: "rcontext \<Rightarrow> context_purpose" where
  "purpose_of c = (if cx_authority_purpose c = PurposeOther [] then PurposeRuntime else cx_authority_purpose c)"

definition is_runtime :: "rcontext \<Rightarrow> bool" where
  "is_runtime c \<longleftrightarrow> purpose_of c = PurposeRuntime"

datatype authority_error = AuthorityProvisioning | AuthorityPlan | AuthorityVersion | AuthorityDigest

definition authority_validate :: "provisioning_authority \<Rightarrow> authority_error option" where
  "authority_validate a =
    (if take 3 (pa_tenant_provisioning_id a) \<noteq> ''tp_'' \<or> length (pa_tenant_provisioning_id a) < 6 then Some AuthorityProvisioning
     else if take 5 (pa_plan_id a) \<noteq> ''plan_'' \<or> length (pa_plan_id a) < 8 then Some AuthorityPlan
     else if pa_plan_version a < 1 then Some AuthorityVersion
     else if take 7 (pa_plan_digest a) \<noteq> ''sha256:'' \<or> length (pa_plan_digest a) \<noteq> 7 + 64 then Some AuthorityDigest
     else None)"

datatype context_error =
    ContextPrincipalTenant | ContextCorrelationResolved | ContextExpiry | ContextProvenance | ContextRuntimeAuthority
  | ContextAuthorityMissing | ContextAuthority authority_error | ContextLifetime | ContextBusinessDimension | ContextPurposeUnknown
  | EvidenceTenant | EvidencePrincipalCorrelation

definition untrusted_source :: "string \<times> context_source \<Rightarrow> bool" where
  "untrusted_source = (\<lambda>(field, s). field = [] \<or> sr_source s = [] \<or> sr_trust_level s = TrustOther [] \<or> sr_trust_level s = TrustUntrusted)"

definition business_dimensions :: "rcontext \<Rightarrow> string list" where
  "business_dimensions c = [cx_legal_entity c, cx_organisation c, cx_business_unit c, cx_digital_estate c, cx_digital_property c,
     cx_channel c, cx_market c, cx_jurisdiction c, cx_country c, cx_currency c]"

definition max_provisioning_lifetime :: duration where
  "max_provisioning_lifetime = 15 * minute_ns"

definition context_validate :: "rcontext \<Rightarrow> context_error option" where
  "context_validate c =
    (if trim_space (cx_principal c) = [] \<or> trim_space (cx_tenant c) = [] then Some ContextPrincipalTenant
     else if trim_space (cx_correlation c) = [] \<or> cx_resolved_at c = 0 then Some ContextCorrelationResolved
     else if (case cx_expires_at c of None \<Rightarrow> False | Some e \<Rightarrow> \<not> cx_resolved_at c < e) then Some ContextExpiry
     else if list_ex untrusted_source (cx_provenance c) then Some ContextProvenance
     else case purpose_of c of
       PurposeRuntime \<Rightarrow> if cx_authority c \<noteq> None then Some ContextRuntimeAuthority else None
     | PurposeTenantProvisioning \<Rightarrow>
         (case cx_authority c of
            None \<Rightarrow> Some ContextAuthorityMissing
          | Some a \<Rightarrow>
              (case authority_validate a of
                 Some e \<Rightarrow> Some (ContextAuthority e)
               | None \<Rightarrow>
                   if (case cx_expires_at c of None \<Rightarrow> True | Some e \<Rightarrow> max_provisioning_lifetime < time_sub e (cx_resolved_at c))
                   then Some ContextLifetime
                   else if list_ex (\<lambda>d. d \<noteq> []) (business_dimensions c) then Some ContextBusinessDimension
                   else None))
     | PurposeOther _ \<Rightarrow> Some ContextPurposeUnknown)"

definition context_expired :: "rcontext \<Rightarrow> instant \<Rightarrow> bool" where
  "context_expired c at = (case cx_expires_at c of None \<Rightarrow> False | Some e \<Rightarrow> \<not> at < e)"

record resolution_evidence =
  ev_principal :: string
  ev_tenant :: string
  ev_legal_entity :: string
  ev_organisation :: string
  ev_business_unit :: string
  ev_market :: string
  ev_country :: string
  ev_currency :: string
  ev_locale :: string
  ev_correlation :: string
  ev_provenance :: "(string \<times> context_source) list"
  ev_ttl :: duration

definition default_trust :: "string \<times> context_source \<Rightarrow> string \<times> context_source" where
  "default_trust = (\<lambda>(k, s). (k, if sr_trust_level s = TrustOther [] then s\<lparr>sr_trust_level := TrustUntrusted\<rparr> else s))"

definition context_resolve :: "string \<Rightarrow> instant \<Rightarrow> resolution_evidence \<Rightarrow> context_error + rcontext" where
  "context_resolve uuid clock e =
    (if ev_tenant e = [] then Inl EvidenceTenant
     else if ev_principal e = [] \<or> ev_correlation e = [] then Inl EvidencePrincipalCorrelation
     else
       let resolved = \<lparr>cx_id = uuid, cx_principal = ev_principal e, cx_tenant = ev_tenant e, cx_legal_entity = ev_legal_entity e,
             cx_organisation = ev_organisation e, cx_business_unit = ev_business_unit e, cx_digital_estate = [],
             cx_digital_property = [], cx_channel = [], cx_market = ev_market e, cx_jurisdiction = [], cx_country = ev_country e,
             cx_currency = ev_currency e, cx_locale = ev_locale e, cx_deployment_region = [], cx_environment = [],
             cx_isolation_profile = [], cx_correlation = ev_correlation e, cx_resolved_at = clock,
             cx_expires_at = (if 0 < ev_ttl e then Some (clock + ev_ttl e) else None),
             cx_provenance = map default_trust (ev_provenance e), cx_authority_purpose = PurposeOther [], cx_authority = None\<rparr>
       in case context_validate resolved of Some err \<Rightarrow> Inl err | None \<Rightarrow> Inr resolved)"

section \<open>Scope matching\<close>

record scope_match =
  sm_compatible :: bool
  sm_specificity :: int
  sm_matched :: "string list"
  sm_inherited :: "string list"
  sm_rejected :: "string list"

definition empty_match :: scope_match where
  "empty_match = \<lparr>sm_compatible = False, sm_specificity = 0, sm_matched = [], sm_inherited = [], sm_rejected = []\<rparr>"

text \<open>The loop over the dimensions; a dimension named in \<open>hard\<close> is rejected when the context has no value for it.\<close>

fun match_checks :: "string list \<Rightarrow> (string \<times> string \<times> string) list \<Rightarrow> scope_match \<Rightarrow> scope_match" where
  "match_checks hard [] m = m"
| "match_checks hard ((name, val, want) # cs) m =
    (if want = [] then match_checks hard cs m
     else if val = want then
       match_checks hard cs (m\<lparr>sm_matched := sm_matched m @ [name], sm_specificity := sm_specificity m + 1\<rparr>)
     else if val \<noteq> [] \<or> name \<in> set hard then match_checks hard cs (m\<lparr>sm_rejected := sm_rejected m @ [name]\<rparr>)
     else match_checks hard cs (m\<lparr>sm_inherited := sm_inherited m @ [name]\<rparr>))"

definition finish_match :: "scope_match \<Rightarrow> scope_match" where
  "finish_match m =
    (let compatible = (sm_rejected m = []) in
     if compatible \<and> sm_matched m = [] \<and> sm_inherited m = [] then m\<lparr>sm_compatible := True, sm_specificity := 0\<rparr>
     else \<lparr>sm_compatible = compatible, sm_specificity = sm_specificity m, sm_matched = sort (sm_matched m),
           sm_inherited = sort (sm_inherited m), sm_rejected = sort (sm_rejected m)\<rparr>)"

definition capability_checks :: "rcontext \<Rightarrow> cap_scope \<Rightarrow> (string \<times> string \<times> string) list" where
  "capability_checks c s =
    [(''tenant'', cx_tenant c, cs_tenant s), (''legal_entity'', cx_legal_entity c, cs_legal_entity s),
     (''organisation'', cx_organisation c, cs_organisation s), (''business_unit'', cx_business_unit c, cs_business_unit s),
     (''digital_estate'', cx_digital_estate c, cs_digital_estate s), (''digital_property'', cx_digital_property c, cs_digital_property s),
     (''channel'', cx_channel c, cs_channel s), (''market'', cx_market c, cs_market s),
     (''jurisdiction'', cx_jurisdiction c, cs_jurisdiction s), (''currency'', cx_currency c, cs_currency s),
     (''customer_segment'', [], cs_customer_segment s), (''catalogue'', [], cs_catalogue s),
     (''operating_region'', [], cs_operating_region s), (''geographic_region'', [], cs_geographic_region s),
     (''deployment_region'', cx_deployment_region c, cs_deployment_region s), (''environment'', cx_environment c, cs_environment s),
     (''isolation_profile'', cx_isolation_profile c, cs_isolation_profile s)]"

definition match_country :: "string \<Rightarrow> string list \<Rightarrow> string list \<Rightarrow> scope_match \<Rightarrow> scope_match" where
  "match_country country included excluded m =
    (if country \<noteq> [] then
       (if country \<in> set excluded then m\<lparr>sm_rejected := sm_rejected m @ [''country'']\<rparr>
        else if included \<noteq> [] then
          (if country \<in> set included then m\<lparr>sm_matched := sm_matched m @ [''country''], sm_specificity := sm_specificity m + 1\<rparr>
           else m\<lparr>sm_rejected := sm_rejected m @ [''country'']\<rparr>)
        else m)
     else if included \<noteq> [] \<or> excluded \<noteq> [] then m\<lparr>sm_inherited := sm_inherited m @ [''country'']\<rparr>
     else m)"

definition capability_scope_match :: "rcontext \<Rightarrow> cap_scope \<Rightarrow> scope_match" where
  "capability_scope_match c s =
    finish_match (match_country (cx_country c) (cs_include_countries s) (cs_exclude_countries s)
      (match_checks [''isolation_profile''] (capability_checks c s) empty_match))"

record mapping_scope =
  ms_scope_id :: string
  ms_tenant :: string
  ms_legal_entity :: string
  ms_organisation :: string
  ms_business_unit :: string
  ms_market :: string
  ms_country :: string
  ms_estate :: string
  ms_digital_property :: string
  ms_channel :: string
  ms_currency :: string
  ms_locale :: string
  ms_environment :: string

definition mapping_checks :: "rcontext \<Rightarrow> mapping_scope \<Rightarrow> (string \<times> string \<times> string) list" where
  "mapping_checks c s =
    [(''tenant'', cx_tenant c, ms_tenant s), (''legal_entity'', cx_legal_entity c, ms_legal_entity s),
     (''organisation'', cx_organisation c, ms_organisation s), (''business_unit'', cx_business_unit c, ms_business_unit s),
     (''market'', cx_market c, ms_market s), (''country'', cx_country c, ms_country s),
     (''digital_estate'', cx_digital_estate c, ms_estate s), (''digital_property'', cx_digital_property c, ms_digital_property s),
     (''channel'', cx_channel c, ms_channel s), (''currency'', cx_currency c, ms_currency s),
     (''locale'', cx_locale c, ms_locale s), (''environment'', cx_environment c, ms_environment s)]"

definition default_scope_match :: "rcontext \<Rightarrow> mapping_scope \<Rightarrow> scope_match" where
  "default_scope_match c s = finish_match (match_checks [] (mapping_checks c s) empty_match)"

section \<open>Entitlement\<close>

definition strict_dimensions :: "rcontext \<Rightarrow> cap_scope \<Rightarrow> (string \<times> string) list" where
  "strict_dimensions c s =
    [(cx_tenant c, cs_tenant s), (cx_legal_entity c, cs_legal_entity s), (cx_organisation c, cs_organisation s),
     (cx_business_unit c, cs_business_unit s), (cx_digital_estate c, cs_digital_estate s),
     (cx_digital_property c, cs_digital_property s), (cx_channel c, cs_channel s), (cx_market c, cs_market s),
     (cx_jurisdiction c, cs_jurisdiction s), (cx_currency c, cs_currency s), (cx_deployment_region c, cs_deployment_region s),
     (cx_environment c, cs_environment s), (cx_isolation_profile c, cs_isolation_profile s)]"

definition scope_compatible :: "rcontext \<Rightarrow> cap_scope \<Rightarrow> bool" where
  "scope_compatible c s =
    (if list_ex (\<lambda>(val, want). want \<noteq> [] \<and> val \<noteq> want) (strict_dimensions c s) then False
     else if cs_exclude_countries s \<noteq> [] \<and> cx_country c \<in> set (cs_exclude_countries s) then False
     else if cs_include_countries s \<noteq> [] \<and> cx_country c \<notin> set (cs_include_countries s) then False
     else True)"

fun find_entitlement :: "string \<Rightarrow> rcontext \<Rightarrow> (string \<times> cap_scope) list \<Rightarrow> instant \<Rightarrow> cap_grant list \<Rightarrow> string option" where
  "find_entitlement key c scopes at [] = None"
| "find_entitlement key c scopes at (g # gs) =
    (if ct_capability_key g \<noteq> key then find_entitlement key c scopes at gs
     else if \<not> is_effective g at then find_entitlement key c scopes at gs
     else case map_of scopes (ct_scope_id g) of
       None \<Rightarrow> find_entitlement key c scopes at gs
     | Some s \<Rightarrow> if \<not> scope_compatible c s then find_entitlement key c scopes at gs else Some (ct_id g))"

text \<open>\<open>Inl ()\<close> is the missing capability key, \<open>Inr None\<close> the decision that there is no entitlement.\<close>

definition entitlement_resolve ::
  "instant \<Rightarrow> string \<Rightarrow> rcontext \<Rightarrow> cap_grant list \<Rightarrow> (string \<times> cap_scope) list \<Rightarrow> instant \<Rightarrow> unit + string option" where
  "entitlement_resolve clock key c gs scopes at =
    (if key = [] then Inl () else Inr (find_entitlement key c scopes (if at = 0 then clock else at) gs))"

section \<open>The choice of a binding\<close>

record capability_query =
  cq_capability_key :: string
  cq_context :: rcontext
  cq_bindings :: "cap_binding list"
  cq_scopes :: "(string \<times> cap_scope) list"
  cq_at :: instant
  cq_capability :: "cap_capability option"

record resolved_capability =
  rs_binding_id :: string
  rs_capability_key :: string
  rs_mode :: binding_mode
  rs_engine_id :: string
  rs_engine_instance_id :: string
  rs_provider_id :: string
  rs_contract_version :: string
  rs_specificity :: int

datatype resolve_error =
    CapabilityKeyRequired | CapabilityNotResolvable | BindingNotFound | BindingAmbiguous
  | BindingIneligible criticality health_decision

definition binding_mode_rank :: "binding_mode \<Rightarrow> int" where
  "binding_mode_rank m = (case m of ModePrimary \<Rightarrow> 4 | ModeFallback \<Rightarrow> 3 | ModeShadow \<Rightarrow> 2 | ModeMigration \<Rightarrow> 1 | _ \<Rightarrow> 0)"

text \<open>One pass of the loop: the specificity of a candidate, or \<open>None\<close> when it is skipped.\<close>

definition candidate_specificity :: "capability_query \<Rightarrow> instant \<Rightarrow> cap_binding \<Rightarrow> int option" where
  "candidate_specificity q at b =
    (if cb_capability_key b \<noteq> cq_capability_key q then None
     else if cb_status b \<noteq> ''ACTIVE'' then None
     else if cb_mode b = ModeDisabled then None
     else if cb_effective_from b \<noteq> 0 \<and> at < cb_effective_from b then None
     else if (case cb_effective_to b of None \<Rightarrow> False | Some t \<Rightarrow> \<not> at < t) then None
     else if cq_scopes q \<noteq> [] then
       (case map_of (cq_scopes q) (cb_scope_id b) of
          None \<Rightarrow> None
        | Some s \<Rightarrow>
            let m = capability_scope_match (cq_context q) s in
            if \<not> sm_compatible m then None else Some (sm_specificity m))
     else Some 0)"

definition active_bindings :: "capability_query \<Rightarrow> instant \<Rightarrow> (cap_binding \<times> int) list" where
  "active_bindings q at = List.map_filter (\<lambda>b. map_option (Pair b) (candidate_specificity q at b)) (cq_bindings q)"

text \<open>The rank of a candidate, smallest first, and the key the candidates are sorted by.\<close>

definition binding_rank :: "cap_binding \<times> int \<Rightarrow> int \<times> int \<times> int" where
  "binding_rank = (\<lambda>(b, sp). (- sp, - binding_mode_rank (cb_mode b), - cb_priority b))"

definition binding_order :: "cap_binding \<times> int \<Rightarrow> (int \<times> int \<times> int) \<times> string" where
  "binding_order x = (binding_rank x, cb_id (fst x))"

definition resolved_of :: "cap_binding \<times> int \<Rightarrow> resolved_capability" where
  "resolved_of = (\<lambda>(b, sp). \<lparr>rs_binding_id = cb_id b, rs_capability_key = cb_capability_key b, rs_mode = cb_mode b,
     rs_engine_id = cb_engine_id b, rs_engine_instance_id = cb_engine_instance_id b, rs_provider_id = cb_provider_id b,
     rs_contract_version = cb_contract_version b, rs_specificity = sp\<rparr>)"

definition capability_resolve :: "instant \<Rightarrow> capability_query \<Rightarrow> resolve_error + resolved_capability" where
  "capability_resolve clock q =
    (if cq_capability_key q = [] then Inl CapabilityKeyRequired
     else if (case cq_capability q of None \<Rightarrow> False | Some c \<Rightarrow> \<not> is_resolvable c) then Inl CapabilityNotResolvable
     else if cq_bindings q = [] then Inl BindingNotFound
     else
       let at = (if cq_at q = 0 then clock else cq_at q) in
       case sort_key binding_order (active_bindings q at) of
         [] \<Rightarrow> Inl BindingNotFound
       | x # ys \<Rightarrow>
           if (case ys of [] \<Rightarrow> False | y # _ \<Rightarrow> binding_rank x = binding_rank y) then Inl BindingAmbiguous
           else if cb_mode (fst x) = ModeShadow then Inl BindingNotFound
           else Inr (resolved_of x))"

section \<open>Healthy bindings\<close>

definition no_levels :: levels where
  "no_levels = \<lparr>lv_engine_instance = None, lv_provider = None, lv_provider_capability = None\<rparr>"

definition levels_of :: "(string \<times> levels) list \<Rightarrow> string \<Rightarrow> levels" where
  "levels_of ls b = (case map_of ls b of None \<Rightarrow> no_levels | Some l \<Rightarrow> l)"

definition health_accepts :: "health_policy \<Rightarrow> criticality \<Rightarrow> (string \<times> levels) list \<Rightarrow> instant \<Rightarrow> cap_binding \<Rightarrow> bool" where
  "health_accepts p c ls now b \<longleftrightarrow> hd_eligible (evaluate_health p c (levels_of ls (cb_id b)) now)"

definition resolve_healthy_capability ::
  "health_policy \<Rightarrow> instant \<Rightarrow> capability_query \<Rightarrow> criticality \<Rightarrow> (string \<times> levels) list \<Rightarrow> instant \<Rightarrow> resolve_error + resolved_capability"
where
  "resolve_healthy_capability p clock q c ls now =
    (let eligible = filter (health_accepts p c ls now) (cq_bindings q);
         refused = list_ex (\<lambda>b. \<not> health_accepts p c ls now b) (cq_bindings q);
         healthy = capability_resolve clock (q\<lparr>cq_bindings := eligible\<rparr>)
     in if \<not> isl healthy \<or> \<not> refused then healthy
        else case capability_resolve clock q of
          Inl _ \<Rightarrow> healthy
        | Inr would \<Rightarrow>
            (case check_health p c (levels_of ls (rs_binding_id would)) now of
               Some (c', d) \<Rightarrow> Inl (BindingIneligible c' d)
             | None \<Rightarrow> healthy))"

text \<open>The earliest expiry among the held observations; 0 is the zero instant.\<close>

definition health_valid_until :: "levels \<Rightarrow> instant" where
  "health_valid_until l =
    foldl (\<lambda>until x. case x of None \<Rightarrow> until | Some ob \<Rightarrow> if until = 0 \<or> ob_expires_at ob < until then ob_expires_at ob else until)
      0 [lv_engine_instance l, lv_provider l, lv_provider_capability l]"

section \<open>The selected engine instance\<close>

record engine_instance =
  ei_id :: string
  ei_engine_id :: string
  ei_key :: string
  ei_region :: string
  ei_environment :: string
  ei_isolation_profile :: string
  ei_residency_region :: string
  ei_status :: string
  ei_effective_from :: instant
  ei_effective_to :: "instant option"

record topology_query =
  tq_context :: rcontext
  tq_selected :: string
  tq_instances :: "engine_instance list"
  tq_at :: instant
  tq_criticality :: criticality
  tq_health :: levels
  tq_health_at :: instant

datatype topology_error =
    NoInstances | SelectionRequired | InstanceNotActive | InstanceIneligible criticality health_decision | InstanceNotYetEffective
  | InstanceExpired | EnvironmentMismatch | RegionMismatch | IsolationMismatch | ResidencyMismatch | InstanceNotFound

definition instance_error :: "health_policy \<Rightarrow> topology_query \<Rightarrow> instant \<Rightarrow> engine_instance \<Rightarrow> topology_error option" where
  "instance_error p q at i =
    (let c = tq_context q; health_at = (if tq_health_at q = 0 then at else tq_health_at q) in
     if ei_status i \<noteq> ''ACTIVE'' then Some InstanceNotActive
     else case check_health p (tq_criticality q) (tq_health q) health_at of
       Some (c', d) \<Rightarrow> Some (InstanceIneligible c' d)
     | None \<Rightarrow>
         if ei_effective_from i \<noteq> 0 \<and> at < ei_effective_from i then Some InstanceNotYetEffective
         else if (case ei_effective_to i of None \<Rightarrow> False | Some t \<Rightarrow> \<not> at < t) then Some InstanceExpired
         else if cx_environment c \<noteq> [] \<and> ei_environment i \<noteq> cx_environment c then Some EnvironmentMismatch
         else if cx_deployment_region c \<noteq> [] \<and> ei_region i \<noteq> cx_deployment_region c then Some RegionMismatch
         else if cx_isolation_profile c \<noteq> [] \<and> ei_isolation_profile i \<noteq> cx_isolation_profile c then Some IsolationMismatch
         else if cx_deployment_region c \<noteq> [] \<and> ei_residency_region i \<noteq> [] \<and> ei_residency_region i \<noteq> cx_deployment_region c
         then Some ResidencyMismatch
         else None)"

definition topology_resolve :: "health_policy \<Rightarrow> instant \<Rightarrow> topology_query \<Rightarrow> topology_error + engine_instance" where
  "topology_resolve p clock q =
    (if tq_instances q = [] then Inl NoInstances
     else if tq_selected q = [] then Inl SelectionRequired
     else
       let at = (if tq_at q \<noteq> 0 then tq_at q else if cx_resolved_at (tq_context q) \<noteq> 0 then cx_resolved_at (tq_context q) else clock)
       in case find (\<lambda>i. ei_id i = tq_selected q) (tq_instances q) of
            None \<Rightarrow> Inl InstanceNotFound
          | Some i \<Rightarrow> (case instance_error p q at i of Some e \<Rightarrow> Inl e | None \<Rightarrow> Inr i))"

section \<open>The resolution policy\<close>

datatype policy_denial = BindingInactive | TenantContextRequired | MarketContextRequired | EngineInstanceMissing

definition policy_check :: "rcontext \<Rightarrow> string \<Rightarrow> string \<Rightarrow> policy_denial option" where
  "policy_check c binding_status instance_id =
    (if binding_status \<noteq> ''ACTIVE'' then Some BindingInactive
     else if cx_tenant c = [] then Some TenantContextRequired
     else if cx_country c = [] \<and> cx_market c = [] then Some MarketContextRequired
     else if instance_id = [] then Some EngineInstanceMissing
     else None)"

definition enforce_policy :: "instant \<Rightarrow> capability_query \<Rightarrow> (resolve_error + policy_denial) + resolved_capability" where
  "enforce_policy clock q =
    (case capability_resolve clock q of
       Inl e \<Rightarrow> Inl (Inl e)
     | Inr r \<Rightarrow> (case policy_check (cq_context q) ''ACTIVE'' (rs_engine_instance_id r) of Some d \<Rightarrow> Inl (Inr d) | None \<Rightarrow> Inr r))"

section \<open>Relocation\<close>

record relocation_plan =
  rl_previous :: cap_binding
  rl_successor :: cap_binding
  rl_cutover_at :: instant

datatype relocation_error =
  RelocationInvalid | TargetNotActive | TargetIneligible criticality health_decision | TargetNotYetEffective | TargetExpired

definition plan_engine_relocation ::
  "health_policy \<Rightarrow> cap_binding \<Rightarrow> engine_instance \<Rightarrow> engine_instance \<Rightarrow> criticality \<Rightarrow> levels \<Rightarrow> instant \<Rightarrow> instant \<Rightarrow>
   relocation_error + relocation_plan" where
  "plan_engine_relocation p b source target c target_health now cutover =
    (if cutover = 0 \<or> cb_engine_instance_id b \<noteq> ei_id source \<or> ei_engine_id source = [] \<or> ei_engine_id source \<noteq> ei_engine_id target
     then Inl RelocationInvalid
     else if ei_status target \<noteq> ''ACTIVE'' then Inl TargetNotActive
     else case check_health p c target_health now of
       Some (c', d) \<Rightarrow> Inl (TargetIneligible c' d)
     | None \<Rightarrow>
         if ei_effective_from target \<noteq> 0 \<and> cutover < ei_effective_from target then Inl TargetNotYetEffective
         else if (case ei_effective_to target of None \<Rightarrow> False | Some t \<Rightarrow> \<not> cutover < t) then Inl TargetExpired
         else Inr \<lparr>rl_previous = b\<lparr>cb_status := ''INACTIVE'', cb_effective_to := Some cutover\<rparr>,
                   rl_successor = b\<lparr>cb_id := [], cb_engine_instance_id := ei_id target, cb_status := ''ACTIVE'',
                     cb_effective_from := cutover, cb_effective_to := None, cb_version := wrap64 (cb_version b + 1)\<rparr>,
                   rl_cutover_at = cutover\<rparr>)"

section \<open>The best candidates\<close>

definition best_ranked :: "('a \<Rightarrow> 'r::linorder) \<Rightarrow> 'a list \<Rightarrow> 'a list" where
  "best_ranked rank xs = filter (\<lambda>x. list_all (\<lambda>z. rank x \<le> rank z) xs) xs"

lemma best_ranked_mset:
  assumes "mset xs = mset ys"
  shows "mset (best_ranked rank xs) = mset (best_ranked rank ys)"
proof -
  from assms have "set xs = set ys" by (rule mset_eq_setD)
  then have "mset (best_ranked rank xs) = filter_mset (\<lambda>x. \<forall>z \<in> set ys. rank x \<le> rank z) (mset xs)"
    "mset (best_ranked rank ys) = filter_mset (\<lambda>x. \<forall>z \<in> set ys. rank x \<le> rank z) (mset ys)"
    by (simp_all add: best_ranked_def list_all_iff)
  with assms show ?thesis by simp
qed

lemma singleton_by_mset: "mset xs = mset ys \<Longrightarrow> (case xs of [] \<Rightarrow> a | [x] \<Rightarrow> c x | _ \<Rightarrow> b) = (case ys of [] \<Rightarrow> a | [x] \<Rightarrow> c x | _ \<Rightarrow> b)"
  by (cases xs rule: remdups_adj.cases; cases ys rule: remdups_adj.cases) (auto dest: arg_cong [where f = size])

lemma best_ranked_unique:
  "best_ranked rank xs = [x] \<Longrightarrow> x \<in> set xs \<and> (\<forall>z \<in> set xs. z \<noteq> x \<longrightarrow> rank x < rank z)"
proof -
  assume b: "best_ranked rank xs = [x]"
  then have "x \<in> set (best_ranked rank xs)" by simp
  then have x: "x \<in> set xs" "\<forall>z \<in> set xs. rank x \<le> rank z" by (simp_all add: best_ranked_def list_all_iff)
  have "rank x < rank z" if "z \<in> set xs" "z \<noteq> x" for z
  proof (rule ccontr)
    assume "\<not> rank x < rank z"
    with x(2) that(1) have "z \<in> set (best_ranked rank xs)" by (force simp: best_ranked_def list_all_iff)
    with b that(2) show False by simp
  qed
  with x(1) show ?thesis by blast
qed

lemma best_ranked_Nil: "best_ranked rank xs = [] \<longleftrightarrow> xs = []"
proof (cases "xs = []")
  case False
  then have "Min (rank ` set xs) \<in> rank ` set xs" by simp
  then obtain x where "x \<in> set xs" "rank x = Min (rank ` set xs)" by auto
  then have "x \<in> set (best_ranked rank xs)" by (simp add: best_ranked_def list_all_iff)
  with False show ?thesis by auto
qed (simp add: best_ranked_def)

text \<open>A resolver sorts its candidates by a key that refines their rank.\<close>

locale ranking =
  fixes rank :: "'a \<Rightarrow> 'r::linorder" and order_key :: "'a \<Rightarrow> 'k::linorder"
  assumes order_rank: "order_key x \<le> order_key y \<Longrightarrow> rank x \<le> rank y"
begin

lemma sorted_ranks: "sorted (map rank (sort_key order_key xs))"
  using sorted_sort_key [of order_key xs] unfolding sorted_map
  by (rule sorted_wrt_mono_rel [rotated]) (rule order_rank)

lemma best_of_sorted:
  assumes "sort_key order_key xs = x # ys"
  shows "best_ranked rank (x # ys) = x # filter (\<lambda>z. rank z = rank x) ys"
  using sorted_ranks [of xs] assms by (auto simp: best_ranked_def list_all_iff intro!: filter_cong antisym)

lemma first_two:
  "(case sort_key order_key xs of
      [] \<Rightarrow> a
    | x # ys \<Rightarrow> if (case ys of [] \<Rightarrow> False | y # _ \<Rightarrow> rank x = rank y) then b else c x) =
   (case best_ranked rank xs of [] \<Rightarrow> a | [x] \<Rightarrow> c x | _ \<Rightarrow> b)"
proof -
  have m: "mset (best_ranked rank xs) = mset (best_ranked rank (sort_key order_key xs))"
    by (rule best_ranked_mset) simp
  show ?thesis
  proof (cases "sort_key order_key xs")
    case Nil
    then show ?thesis using m by (simp add: best_ranked_def)
  next
    case (Cons x ys)
    have "filter (\<lambda>z. rank z = rank x) ys = []" if "ys = y # zs" "rank x \<noteq> rank y" for y zs
      using sorted_ranks [of xs] Cons that by (auto simp: filter_empty_conv)
    then show ?thesis unfolding singleton_by_mset [OF m] Cons best_of_sorted [OF Cons] by (auto split: list.splits)
  qed
qed

end

lemma pair_le_fst: "(a :: 'a::linorder, b :: 'b::linorder) \<le> (c, d) \<Longrightarrow> a \<le> c"
  by (auto simp: less_eq_prod_def intro: less_imp_le)

interpretation bindings: ranking binding_rank binding_order
  by unfold_locales (unfold binding_order_def, erule pair_le_fst)

section \<open>The binding resolver picks the one best candidate\<close>

lemma resolve_by_best:
  "capability_resolve clock q =
    (if cq_capability_key q = [] then Inl CapabilityKeyRequired
     else if (case cq_capability q of None \<Rightarrow> False | Some c \<Rightarrow> \<not> is_resolvable c) then Inl CapabilityNotResolvable
     else case best_ranked binding_rank (active_bindings q (if cq_at q = 0 then clock else cq_at q)) of
       [] \<Rightarrow> Inl BindingNotFound
     | [x] \<Rightarrow> if cb_mode (fst x) = ModeShadow then Inl BindingNotFound else Inr (resolved_of x)
     | _ \<Rightarrow> Inl BindingAmbiguous)"
proof -
  have "active_bindings q at = []" if "cq_bindings q = []" for at
    using that by (simp add: active_bindings_def List.map_filter_def)
  then show ?thesis by (auto simp: capability_resolve_def Let_def bindings.first_two best_ranked_def)
qed

definition query_time :: "instant \<Rightarrow> capability_query \<Rightarrow> instant" where
  "query_time clock q = (if cq_at q = 0 then clock else cq_at q)"

lemma active_bindings_iff:
  "(b, sp) \<in> set (active_bindings q at) \<longleftrightarrow> b \<in> set (cq_bindings q) \<and> candidate_specificity q at b = Some sp"
  by (force simp: active_bindings_def List.map_filter_def)

lemma candidate_cong: "candidate_specificity (q\<lparr>cq_bindings := bs\<rparr>) at b = candidate_specificity q at b"
  by (simp add: candidate_specificity_def Let_def split: option.split)

lemma resolved_is_best:
  assumes "capability_resolve clock q = Inr r"
  obtains b sp where "b \<in> set (cq_bindings q)" and "candidate_specificity q (query_time clock q) b = Some sp" and "r = resolved_of (b, sp)"
    and "cb_mode b \<noteq> ModeShadow"
    and "\<And>b' sp'. b' \<in> set (cq_bindings q) \<Longrightarrow> candidate_specificity q (query_time clock q) b' = Some sp' \<Longrightarrow> b' \<noteq> b \<Longrightarrow>
      binding_rank (b, sp) < binding_rank (b', sp')"
proof -
  let ?act = "active_bindings q (query_time clock q)"
  from assms obtain x where x: "best_ranked binding_rank ?act = [x]" "cb_mode (fst x) \<noteq> ModeShadow" "r = resolved_of x"
    unfolding resolve_by_best by (auto simp: query_time_def split: if_splits option.splits list.splits)
  obtain b sp where xb: "x = (b, sp)" by (cases x)
  from best_ranked_unique [OF x(1)] have m: "x \<in> set ?act" and u: "\<forall>z \<in> set ?act. z \<noteq> x \<longrightarrow> binding_rank x < binding_rank z" by blast+
  show thesis
  proof (rule that)
    show "b \<in> set (cq_bindings q)" "candidate_specificity q (query_time clock q) b = Some sp" using m unfolding xb active_bindings_iff by blast+
    show "r = resolved_of (b, sp)" "cb_mode b \<noteq> ModeShadow" using x xb by simp_all
    show "binding_rank (b, sp) < binding_rank (b', sp')"
      if "b' \<in> set (cq_bindings q)" "candidate_specificity q (query_time clock q) b' = Some sp'" "b' \<noteq> b" for b' sp'
      using u that active_bindings_iff [of b' sp' q] unfolding xb by blast
  qed
qed

lemma map_filter_mset: "mset xs = mset ys \<Longrightarrow> mset (List.map_filter f xs) = mset (List.map_filter f ys)"
  by (simp add: List.map_filter_def)

lemma resolve_mset:
  assumes "mset bs = mset bs'"
  shows "capability_resolve clock (q\<lparr>cq_bindings := bs\<rparr>) = capability_resolve clock (q\<lparr>cq_bindings := bs'\<rparr>)"
proof -
  have "mset (active_bindings (q\<lparr>cq_bindings := bs\<rparr>) at) = mset (active_bindings (q\<lparr>cq_bindings := bs'\<rparr>) at)" for at
    unfolding active_bindings_def candidate_cong by (rule map_filter_mset) (simp add: assms)
  then have "(case best_ranked binding_rank (active_bindings (q\<lparr>cq_bindings := bs\<rparr>) at) of
       [] \<Rightarrow> Inl BindingNotFound
     | [x] \<Rightarrow> if cb_mode (fst x) = ModeShadow then Inl BindingNotFound else Inr (resolved_of x)
     | _ \<Rightarrow> Inl BindingAmbiguous) =
    (case best_ranked binding_rank (active_bindings (q\<lparr>cq_bindings := bs'\<rparr>) at) of
       [] \<Rightarrow> Inl BindingNotFound
     | [x] \<Rightarrow> if cb_mode (fst x) = ModeShadow then Inl BindingNotFound else Inr (resolved_of x)
     | _ \<Rightarrow> Inl BindingAmbiguous)" for at
    by (intro singleton_by_mset best_ranked_mset)
  then show ?thesis unfolding resolve_by_best by simp
qed


text \<open>
  Property (resolution does not depend on the order of the bindings): whatever the order in which the repository lists the
  bindings, the healthy resolution of a capability has the same outcome, the refusals included.
\<close>

theorem resolution_order_independent:
  assumes "mset bs = mset bs'"
  shows "resolve_healthy_capability p clock (q\<lparr>cq_bindings := bs\<rparr>) c ls now =
    resolve_healthy_capability p clock (q\<lparr>cq_bindings := bs'\<rparr>) c ls now"
proof -
  have "mset (filter (health_accepts p c ls now) bs) = mset (filter (health_accepts p c ls now) bs')" using assms by simp
  moreover have "set bs = set bs'" using assms by (rule mset_eq_setD)
  ultimately show ?thesis using resolve_mset [of "filter (health_accepts p c ls now) bs" "filter (health_accepts p c ls now) bs'" clock q]
      resolve_mset [OF assms, of clock q]
    by (simp add: resolve_healthy_capability_def list_ex_iff Let_def split: sum.split option.split)
qed

lemma healthy_best:
  assumes "resolve_healthy_capability p clock q c ls now = Inr r"
  shows "\<exists>b sp. b \<in> set (cq_bindings q) \<and> r = resolved_of (b, sp) \<and> health_accepts p c ls now b \<and>
    cb_capability_key b = cq_capability_key q \<and> cb_status b = ''ACTIVE'' \<and> cb_mode b \<notin> {ModeShadow, ModeDisabled} \<and>
    candidate_specificity q (query_time clock q) b = Some sp \<and>
    (\<forall>b' sp'. b' \<in> set (cq_bindings q) \<and> health_accepts p c ls now b' \<and>
       candidate_specificity q (query_time clock q) b' = Some sp' \<and> b' \<noteq> b \<longrightarrow> binding_rank (b, sp) < binding_rank (b', sp'))"
proof -
  let ?h = "q\<lparr>cq_bindings := filter (health_accepts p c ls now) (cq_bindings q)\<rparr>"
  have "capability_resolve clock ?h = Inr r"
    using assms by (auto simp: resolve_healthy_capability_def Let_def split: if_splits sum.splits option.splits)
  then obtain b sp where b: "b \<in> set (cq_bindings ?h)" "candidate_specificity ?h (query_time clock ?h) b = Some sp" "r = resolved_of (b, sp)"
      "cb_mode b \<noteq> ModeShadow"
      "\<And>b' sp'. b' \<in> set (cq_bindings ?h) \<Longrightarrow> candidate_specificity ?h (query_time clock ?h) b' = Some sp' \<Longrightarrow> b' \<noteq> b \<Longrightarrow>
        binding_rank (b, sp) < binding_rank (b', sp')"
    by (rule resolved_is_best) blast
  have t: "query_time clock ?h = query_time clock q" by (simp add: query_time_def)
  from b(2) have "cb_capability_key b = cq_capability_key q" "cb_status b = ''ACTIVE''" "cb_mode b \<noteq> ModeDisabled"
    by (auto simp: candidate_specificity_def split: if_splits)
  with b show ?thesis unfolding t candidate_cong by (intro exI [of _ b] exI [of _ sp]) simp
qed

text \<open>
  Property (a resolved binding is healthy and the best of the healthy ones): when healthy resolution returns a binding, the health
  policy accepts it now, it is an eligible candidate that is neither shadow nor disabled, and every other healthy candidate
  ranks strictly below it; so an unhealthy primary yields to a healthy fallback.
\<close>

theorem healthy_resolution_best:
  assumes "resolve_healthy_capability p clock q c ls now = Inr r"
  shows "\<exists>b sp. b \<in> set (cq_bindings q) \<and> r = resolved_of (b, sp) \<and> health_accepts p c ls now b \<and>
    cb_capability_key b = cq_capability_key q \<and> cb_status b = ''ACTIVE'' \<and> cb_mode b \<notin> {ModeShadow, ModeDisabled} \<and>
    candidate_specificity q (query_time clock q) b = Some sp \<and>
    (\<forall>b' sp'. b' \<in> set (cq_bindings q) \<and> health_accepts p c ls now b' \<and>
       candidate_specificity q (query_time clock q) b' = Some sp' \<and> b' \<noteq> b \<longrightarrow> binding_rank (b, sp) < binding_rank (b', sp'))"
  by (rule healthy_best [OF assms])

definition ex_context :: rcontext where
  "ex_context = \<lparr>cx_id = ''c'', cx_principal = ''p'', cx_tenant = ''t'', cx_legal_entity = [], cx_organisation = [], cx_business_unit = [],
     cx_digital_estate = [], cx_digital_property = [], cx_channel = [], cx_market = ''m'', cx_jurisdiction = [], cx_country = [],
     cx_currency = [], cx_locale = [], cx_deployment_region = [], cx_environment = [], cx_isolation_profile = [],
     cx_correlation = ''r'', cx_resolved_at = 5, cx_expires_at = None, cx_provenance = [], cx_authority_purpose = PurposeRuntime,
     cx_authority = None\<rparr>"

definition ex_cap_scope :: "string \<Rightarrow> string \<Rightarrow> cap_scope" where
  "ex_cap_scope i market = \<lparr>cs_scope_id = i, cs_tenant = ''t'', cs_legal_entity = [], cs_organisation = [], cs_business_unit = [],
     cs_digital_estate = [], cs_digital_property = [], cs_channel = [], cs_market = market, cs_jurisdiction = [], cs_currency = [],
     cs_customer_segment = [], cs_catalogue = [], cs_operating_region = [], cs_geographic_region = [], cs_deployment_region = [],
     cs_environment = [], cs_isolation_profile = [], cs_include_countries = [], cs_exclude_countries = []\<rparr>"

definition ex_cap_binding :: "string \<Rightarrow> string \<Rightarrow> binding_mode \<Rightarrow> cap_binding" where
  "ex_cap_binding i scope mode = \<lparr>cb_id = i, cb_capability_id = [], cb_capability_key = ''k'', cb_provider_id = ''v'', cb_engine_id = ''e'',
     cb_engine_instance_id = ''n'', cb_scope_id = scope, cb_mode = mode, cb_priority = 0, cb_status = ''ACTIVE'',
     cb_contract_version = ''1'', cb_effective_from = 0, cb_effective_to = None, cb_version = 1\<rparr>"

definition ex_query :: "cap_binding list \<Rightarrow> capability_query" where
  "ex_query bs = \<lparr>cq_capability_key = ''k'', cq_context = ex_context, cq_bindings = bs,
     cq_scopes = [(''s'', ex_cap_scope ''s'' []), (''u'', ex_cap_scope ''u'' ''m'')], cq_at = 7, cq_capability = None\<rparr>"

definition standard_policy :: health_policy where
  "standard_policy = \<lparr>hp_eligible = pd_eligible_statuses health_document, hp_equal_time = pd_equal_time health_document,
     hp_resolution_denials = pd_resolution health_document, hp_provisioning_denial = pd_provisioning health_document\<rparr>"

definition ex_down :: levels where
  "ex_down = \<lparr>lv_engine_instance = Some \<lparr>ob_subject = \<lparr>su_engine_instance_id = ''n'', su_provider_id = [], su_capability_key = []\<rparr>,
     ob_status = StatusUnavailable, ob_observed_at = 6, ob_expires_at = 9, ob_source = SourceActiveProbe, ob_reasons = []\<rparr>,
     lv_provider = None, lv_provider_capability = None\<rparr>"

theorem resolution_order_independent_witness:
  "resolve_healthy_capability standard_policy 0 (ex_query [] \<lparr>cq_bindings := [ex_cap_binding ''a'' ''s'' ModePrimary, ex_cap_binding ''b'' ''u'' ModeFallback]\<rparr>)
     CriticalityStandard [] 7 =
   resolve_healthy_capability standard_policy 0 (ex_query [] \<lparr>cq_bindings := [ex_cap_binding ''b'' ''u'' ModeFallback, ex_cap_binding ''a'' ''s'' ModePrimary]\<rparr>)
     CriticalityStandard [] 7"
  by (rule resolution_order_independent) simp

lemma ex_yields_to_fallback:
  "resolve_healthy_capability standard_policy 0 (ex_query [ex_cap_binding ''a'' ''s'' ModePrimary, ex_cap_binding ''b'' ''s'' ModeFallback])
     CriticalityStandard [(''a'', ex_down)] 7 = Inr (resolved_of (ex_cap_binding ''b'' ''s'' ModeFallback, 1))"
  by code_simp

theorem healthy_resolution_best_witness:
  "\<exists>b sp. resolved_of (ex_cap_binding ''b'' ''s'' ModeFallback, 1) = resolved_of (b, sp) \<and>
    health_accepts standard_policy CriticalityStandard [(''a'', ex_down)] 7 b"
  using healthy_resolution_best [OF ex_yields_to_fallback] by (elim exE conjE) (intro exI conjI; assumption)

text \<open>
  A shadow binding hides a migration binding of the same scope, and a more specific shadow hides a less specific primary:
  the capability is then not found although a binding that may serve is eligible.
\<close>

lemma shadow_hides_serving_bindings:
  "capability_resolve 0 (ex_query [ex_cap_binding ''a'' ''s'' ModeMigration]) = Inr (resolved_of (ex_cap_binding ''a'' ''s'' ModeMigration, 1))"
  "capability_resolve 0 (ex_query [ex_cap_binding ''a'' ''s'' ModeMigration, ex_cap_binding ''b'' ''s'' ModeShadow]) = Inl BindingNotFound"
  "capability_resolve 0 (ex_query [ex_cap_binding ''a'' ''s'' ModePrimary, ex_cap_binding ''b'' ''u'' ModeShadow]) = Inl BindingNotFound"
  by code_simp+

section \<open>Scope matching and entitlement\<close>

definition rejects :: "string list \<Rightarrow> string \<times> string \<times> string \<Rightarrow> bool" where
  "rejects hard = (\<lambda>(name, val, want). want \<noteq> [] \<and> val \<noteq> want \<and> (val \<noteq> [] \<or> name \<in> set hard))"

lemma match_checks_rejected:
  "sm_rejected (match_checks hard cs m) = sm_rejected m @ map fst (filter (rejects hard) cs)"
  by (induction hard cs m rule: match_checks.induct) (auto simp: rejects_def)

lemma match_checks_specificity:
  "sm_specificity (match_checks hard cs m) = sm_specificity m + int (length (filter (\<lambda>(name, val, want). want \<noteq> [] \<and> val = want) cs))"
  by (induction hard cs m rule: match_checks.induct) auto

lemma finish_match_compatible: "sm_compatible (finish_match m) \<longleftrightarrow> sm_rejected m = []"
  by (simp add: finish_match_def Let_def)

lemma match_country_rejected:
  "sm_rejected (match_country country inc exc m) = [] \<longleftrightarrow> sm_rejected m = [] \<and>
    (country = [] \<or> country \<notin> set exc \<and> (inc = [] \<or> country \<in> set inc))"
  by (auto simp: match_country_def)

lemma capability_match_iff:
  "sm_compatible (capability_scope_match c s) \<longleftrightarrow>
    list_all (\<lambda>x. \<not> rejects [''isolation_profile''] x) (capability_checks c s) \<and>
    (cx_country c = [] \<or> cx_country c \<notin> set (cs_exclude_countries s) \<and> (cs_include_countries s = [] \<or> cx_country c \<in> set (cs_include_countries s)))"
  by (simp add: capability_scope_match_def finish_match_compatible match_country_rejected match_checks_rejected empty_match_def
      filter_empty_conv list_all_iff)

lemma not_rejects:
  "w = [] \<or> v = w \<Longrightarrow> \<not> rejects hard (n, v, w)" "n \<notin> set hard \<Longrightarrow> \<not> rejects hard (n, [], w)"
  by (auto simp: rejects_def)

lemma strict_scope_matches:
  assumes "scope_compatible c s"
  shows "sm_compatible (capability_scope_match c s)"
proof -
  from assms have D: "list_all (\<lambda>(v, w). w = [] \<or> v = w) (strict_dimensions c s)"
    by (auto simp: scope_compatible_def list_all_iff list_ex_iff split: if_splits)
  have "list_all (\<lambda>x. \<not> rejects [''isolation_profile''] x) (capability_checks c s)"
    using D unfolding capability_checks_def strict_dimensions_def list.pred_inject prod.case
    by (elim conjE) (intro conjI TrueI; (rule not_rejects(1), assumption | rule not_rejects(2), simp | simp))
  with assms show ?thesis unfolding capability_match_iff by (auto simp: scope_compatible_def split: if_splits)
qed

lemma match_dimension:
  assumes "sm_compatible (capability_scope_match c s)" and "(n, v, w) \<in> set (capability_checks c s)"
  shows "w = [] \<or> w = v \<or> v = [] \<and> n \<noteq> ''isolation_profile''"
  using assms by (auto simp: capability_match_iff list_all_iff rejects_def)

text \<open>
  Property (entitlement is at least as strict as binding selection): a scope whose grant entitles a context is compatible with it
  for the binding resolver too, and a binding restricted to an isolation profile serves only contexts of that profile.
\<close>

theorem entitled_scope_matches:
  "(scope_compatible c s \<longrightarrow> sm_compatible (capability_scope_match c s)) \<and>
   (sm_compatible (capability_scope_match c s) \<longrightarrow> cs_isolation_profile s = [] \<or> cs_isolation_profile s = cx_isolation_profile c) \<and>
   (sm_compatible (capability_scope_match c s) \<longrightarrow> cx_tenant c = [] \<or> cs_tenant s = [] \<or> cs_tenant s = cx_tenant c)"
  using strict_scope_matches [of c s] match_dimension [of c s "''isolation_profile''" "cx_isolation_profile c" "cs_isolation_profile s"]
    match_dimension [of c s "''tenant''" "cx_tenant c" "cs_tenant s"]
  by (auto simp: capability_checks_def)

theorem entitled_scope_matches_witness:
  "scope_compatible ex_context (ex_cap_scope ''u'' ''m'') \<and> sm_compatible (capability_scope_match ex_context (ex_cap_scope ''u'' ''m''))"
proof -
  have "scope_compatible ex_context (ex_cap_scope ''u'' ''m'')" by code_simp
  then show ?thesis using entitled_scope_matches [of ex_context "ex_cap_scope ''u'' ''m''"] by simp
qed

section \<open>Relocation\<close>

text \<open>
  Property (a relocation plan leaves a gap before its cutover): the plan closes the previous binding at the cutover and starts its
  successor there, so from the cutover on only the successor can be selected; but the previous binding is inactive at
  once, and until the cutover no binding of the plan is selectable.
\<close>

theorem relocation_leaves_gap:
  assumes "plan_engine_relocation p b source target c health now cutover = Inr pl" and "cq_bindings q = [rl_previous pl, rl_successor pl]"
  shows "(at < cutover \<longrightarrow> active_bindings q at = []) \<and>
    (cutover \<le> at \<longrightarrow> (\<forall>x \<in> set (active_bindings q at). fst x = rl_successor pl)) \<and>
    cb_effective_to (rl_previous pl) = Some (cb_effective_from (rl_successor pl)) \<and> cb_engine_id (rl_successor pl) = cb_engine_id b"
proof -
  from assms(1) have pl: "rl_previous pl = b\<lparr>cb_status := ''INACTIVE'', cb_effective_to := Some cutover\<rparr>"
    "rl_successor pl = b\<lparr>cb_id := [], cb_engine_instance_id := ei_id target, cb_status := ''ACTIVE'',
       cb_effective_from := cutover, cb_effective_to := None, cb_version := wrap64 (cb_version b + 1)\<rparr>" "cutover \<noteq> 0"
    by (auto simp: plan_engine_relocation_def split: if_splits option.splits)
  have "candidate_specificity q at (rl_previous pl) = None" for at by (simp add: candidate_specificity_def pl)
  moreover have "candidate_specificity q at (rl_successor pl) = None" if "at < cutover" for at
    using that pl(3) by (simp add: candidate_specificity_def pl)
  ultimately show ?thesis using pl by (auto simp: active_bindings_def assms(2) List.map_filter_def)
qed

definition ex_cap_instance :: "string \<Rightarrow> engine_instance" where
  "ex_cap_instance i = \<lparr>ei_id = i, ei_engine_id = ''e'', ei_key = [], ei_region = [], ei_environment = [], ei_isolation_profile = [],
     ei_residency_region = [], ei_status = ''ACTIVE'', ei_effective_from = 0, ei_effective_to = None\<rparr>"

theorem relocation_leaves_gap_witness:
  "\<exists>pl. plan_engine_relocation standard_policy (ex_cap_binding ''a'' ''s'' ModePrimary) (ex_cap_instance ''n'') (ex_cap_instance ''o'') CriticalityStandard
       no_levels 7 20 = Inr pl \<and>
     active_bindings (ex_query [rl_previous pl, rl_successor pl]) 10 = []"
proof -
  let ?pl = "\<lparr>rl_previous = ex_cap_binding ''a'' ''s'' ModePrimary\<lparr>cb_status := ''INACTIVE'', cb_effective_to := Some 20\<rparr>,
    rl_successor = ex_cap_binding ''a'' ''s'' ModePrimary\<lparr>cb_id := [], cb_engine_instance_id := ''o'', cb_effective_from := 20, cb_version := 2\<rparr>,
    rl_cutover_at = 20\<rparr>"
  have pl: "plan_engine_relocation standard_policy (ex_cap_binding ''a'' ''s'' ModePrimary) (ex_cap_instance ''n'') (ex_cap_instance ''o'') CriticalityStandard
       no_levels 7 20 = Inr ?pl" by code_simp
  from relocation_leaves_gap [OF pl, of "ex_query [rl_previous ?pl, rl_successor ?pl]" 10] pl show ?thesis
    by (intro exI [of _ ?pl] conjI) (simp_all add: ex_query_def)
qed

end
