(* ===== verification/Capability_Resolution.thy ===== *)
theory Capability_Resolution
  imports Resolver
begin

text \<open>
  Capability resolution (\<open>internal/service/capability_resolution.go\<close>) over the tables it reads
  (\<open>ListGrants\<close>, \<open>ListBindings\<close>, \<open>ListActiveInstances\<close>, \<open>GetCapability\<close>, \<open>GetCapabilityScope\<close> in \<open>postgres.go\<close>,
  \<open>GrantSourceCurrent\<close> and \<open>BindingProviderCurrent\<close> in \<open>postgres_runtime_provenance.go\<close>, \<open>HealthLevels\<close> in \<open>postgres_health.go\<close>,
  \<open>ProviderInvocationByID\<close> in \<open>postgres_engine_registration.go\<close>) and the row it records
  (\<open>postgres_capability_resolution.go\<close>, migration 000079).

  The tables are the record \<open>resolution_store\<close>. A query reads the columns its SELECT names: the columns it leaves out keep the
  zero value of the Go struct. A failing connection is not modelled; a scope that is missing and a contract version that is
  not an integer are, since they abort the decision.

  The lemmas show what a RESOLVED decision rests on, that every decision satisfies the constraints of the table it is recorded
  in, and two consequences of the columns the queries leave out.
\<close>

section \<open>The tables\<close>

record subscription_row =
  sn_subscription_id :: string
  sn_tenant :: string
  sn_status :: string
  sn_effective_from :: instant
  sn_effective_to :: "instant option"

record projection_row =
  pj_subscription_id :: string
  pj_tenant :: string
  pj_grant_id :: string
  pj_capability_key :: string
  pj_status :: string

record provider_row =
  pw_provider_id :: string
  pw_engine_id :: string
  pw_status :: string
  pw_invocation :: "(string \<times> string) option"

record support_row =
  sx_provider_id :: string
  sx_capability_key :: string
  sx_contract_versions :: "int list"
  sx_status :: string
  sx_effective_from :: instant
  sx_effective_to :: "instant option"

record resolution_record =
  rr_resolution_id :: string
  rr_context_id :: string
  rr_tenant :: string
  rr_capability_key :: string
  rr_decision :: string
  rr_reason_code :: string
  rr_grant_id :: string
  rr_binding_id :: string
  rr_provider_id :: string
  rr_engine_instance_id :: string
  rr_contract_version :: int
  rr_service_reference :: string
  rr_protocol :: string
  rr_correlation :: string
  rr_resolved_at :: instant
  rr_expires_at :: "instant option"

text \<open>The rows of \<open>capability_grant\<close> are newest first, as \<open>ListGrants\<close> orders them.\<close>

record resolution_store =
  rd_capabilities :: "cap_capability list"
  rd_grants :: "cap_grant list"
  rd_scopes :: "(string \<times> cap_scope) list"
  rd_bindings :: "cap_binding list"
  rd_instances :: "engine_instance list"
  rd_providers :: "provider_row list"
  rd_supports :: "support_row list"
  rd_subscriptions :: "subscription_row list"
  rd_projections :: "projection_row list"
  rd_observations :: "observation list"
  rd_resolutions :: "resolution_record list"

section \<open>The reads\<close>

definition get_capability :: "resolution_store \<Rightarrow> string \<Rightarrow> cap_capability option" where
  "get_capability w key = find (\<lambda>c. cy_key c = key) (rd_capabilities w)"

definition list_grants :: "resolution_store \<Rightarrow> string \<Rightarrow> string \<Rightarrow> cap_grant list" where
  "list_grants w tenant key = filter (\<lambda>g. ct_tenant g = tenant \<and> ct_capability_key g = key) (rd_grants w)"

definition upper_char :: "char \<Rightarrow> char" where
  "upper_char c = (if is_lower c then char_of (byte c - 32) else c)"

definition to_upper :: "string \<Rightarrow> string" where
  "to_upper s = map upper_char s"

definition mode_text :: "binding_mode \<Rightarrow> string" where
  "mode_text m = (case m of ModePrimary \<Rightarrow> ''PRIMARY'' | ModeFallback \<Rightarrow> ''FALLBACK'' | ModeShadow \<Rightarrow> ''SHADOW''
     | ModeMigration \<Rightarrow> ''MIGRATION'' | ModeDisabled \<Rightarrow> ''DISABLED'' | BindingModeOther s \<Rightarrow> s)"

text \<open>The columns of \<open>ListBindings\<close>: the effective period, the capability identifier and the version are not selected.\<close>

definition binding_columns :: "cap_binding \<Rightarrow> engine_instance \<Rightarrow> cap_binding" where
  "binding_columns b i = \<lparr>cb_id = cb_id b, cb_capability_id = [], cb_capability_key = cb_capability_key b,
     cb_provider_id = cb_provider_id b, cb_engine_id = ei_engine_id i, cb_engine_instance_id = ei_id i, cb_scope_id = cb_scope_id b,
     cb_mode = cb_mode b, cb_priority = cb_priority b, cb_status = to_upper (cb_status b),
     cb_contract_version = cb_contract_version b, cb_effective_from = 0, cb_effective_to = None, cb_version = 0\<rparr>"

definition list_bindings :: "resolution_store \<Rightarrow> string \<Rightarrow> cap_binding list" where
  "list_bindings w key =
    sort_key (\<lambda>b. (- cb_priority b, mode_text (cb_mode b)))
      (List.map_filter
        (\<lambda>b. map_option (binding_columns b) (find (\<lambda>i. ei_id i = cb_engine_instance_id b) (rd_instances w)))
        (filter (\<lambda>b. cb_capability_key b = key) (rd_bindings w)))"

text \<open>The columns of \<open>ListActiveInstances\<close>: isolation profile, residency and effective period are not selected.\<close>

definition instance_columns :: "engine_instance \<Rightarrow> engine_instance" where
  "instance_columns i = \<lparr>ei_id = ei_id i, ei_engine_id = ei_engine_id i, ei_key = [], ei_region = ei_region i,
     ei_environment = ei_environment i, ei_isolation_profile = [], ei_residency_region = [], ei_status = ei_status i,
     ei_effective_from = 0, ei_effective_to = None\<rparr>"

definition list_active_instances :: "resolution_store \<Rightarrow> string \<Rightarrow> engine_instance list" where
  "list_active_instances w engine =
    map instance_columns (sort_key ei_region (filter (\<lambda>i. ei_engine_id i = engine \<and> to_upper (ei_status i) = ''ACTIVE'') (rd_instances w)))"

definition period_covers :: "instant \<Rightarrow> instant option \<Rightarrow> instant \<Rightarrow> bool" where
  "period_covers from to at \<longleftrightarrow> from \<le> at \<and> (case to of None \<Rightarrow> True | Some t \<Rightarrow> at < t)"

definition canonical_subscription :: "string \<Rightarrow> string" where
  "canonical_subscription s = ''sub_'' @ filter (\<lambda>c. c \<noteq> CHR ''-'') s"

definition grant_source_current :: "resolution_store \<Rightarrow> cap_grant \<Rightarrow> instant \<Rightarrow> bool" where
  "grant_source_current w g at =
    (if ct_source g \<noteq> SourceProductSubscription then cap_grant_source_valid (ct_source g)
     else list_ex (\<lambda>s. sn_tenant s = ct_tenant g \<and>
            (sn_subscription_id s = ct_source_reference g \<or> canonical_subscription (sn_subscription_id s) = ct_source_reference g) \<and>
            sn_status s = ''ACTIVE'' \<and> period_covers (sn_effective_from s) (sn_effective_to s) at \<and>
            list_ex (\<lambda>p. pj_subscription_id p = sn_subscription_id s \<and> pj_tenant p = sn_tenant s \<and> pj_grant_id p = ct_id g \<and>
              pj_capability_key p = ct_capability_key g \<and> pj_status p = ''MATERIALIZED'') (rd_projections w))
          (rd_subscriptions w))"

text \<open>\<open>strconv.Atoi\<close> on 64 bits, and the SQL cast of a contract version.\<close>

definition digits_value :: "string \<Rightarrow> int" where
  "digits_value s = foldl (\<lambda>n c. n * 10 + (int (byte c) - 48)) 0 s"

definition atoi :: "string \<Rightarrow> int option" where
  "atoi s =
    (let (neg, ds) = (case s of [] \<Rightarrow> (False, []) | c # cs \<Rightarrow> if c = CHR ''-'' then (True, cs) else if c = CHR ''+'' then (False, cs) else (False, s));
         n = (if neg then - digits_value ds else digits_value ds)
     in if ds = [] \<or> \<not> list_all is_digit ds \<or> n < min_duration \<or> max_duration < n then None else Some n)"

definition binding_provider_current :: "resolution_store \<Rightarrow> cap_binding \<Rightarrow> instant \<Rightarrow> bool option" where
  "binding_provider_current w b at =
    (case atoi (cb_contract_version b) of
       None \<Rightarrow> None
     | Some v \<Rightarrow> Some (list_ex (\<lambda>p. pw_provider_id p = cb_provider_id b \<and> pw_status p = ''ACTIVE'' \<and>
           list_ex (\<lambda>i. ei_engine_id i = pw_engine_id p \<and> ei_id i = cb_engine_instance_id b) (rd_instances w) \<and>
           list_ex (\<lambda>s. sx_provider_id s = pw_provider_id p \<and> sx_status s = ''ACTIVE'' \<and> sx_capability_key s = cb_capability_key b \<and>
             v \<in> set (sx_contract_versions s) \<and> period_covers (sx_effective_from s) (sx_effective_to s) at) (rd_supports w))
         (rd_providers w)))"

definition level_of_row :: "levels \<Rightarrow> observation \<Rightarrow> levels" where
  "level_of_row l ob =
    (case subject_level (ob_subject ob) of
       Some LevelEngineInstance \<Rightarrow> l\<lparr>lv_engine_instance := Some ob\<rparr>
     | Some LevelProvider \<Rightarrow> l\<lparr>lv_provider := Some ob\<rparr>
     | Some LevelProviderCapability \<Rightarrow> l\<lparr>lv_provider_capability := Some ob\<rparr>
     | _ \<Rightarrow> l)"

definition health_levels :: "resolution_store \<Rightarrow> string \<Rightarrow> string \<Rightarrow> string \<Rightarrow> levels" where
  "health_levels w inst provider key =
    foldl level_of_row no_levels
      (filter (\<lambda>ob. let s = ob_subject ob in
          inst \<noteq> [] \<and> su_engine_instance_id s = inst \<or>
          provider \<noteq> [] \<and> su_provider_id s = provider \<and> (su_capability_key s = [] \<or> su_capability_key s = key)) (rd_observations w))"

definition provider_invocation :: "resolution_store \<Rightarrow> string \<Rightarrow> (string \<times> string) option" where
  "provider_invocation w provider = (case find (\<lambda>p. pw_provider_id p = provider) (rd_providers w) of None \<Rightarrow> None | Some p \<Rightarrow> pw_invocation p)"

section \<open>The decision\<close>

definition binding_contract_major :: "string \<Rightarrow> int" where
  "binding_contract_major version =
    (let v = to_lower (trim_space version);
         v = (case v of c # cs \<Rightarrow> if c = CHR ''v'' then cs else v | [] \<Rightarrow> v);
         v = takeWhile (\<lambda>c. c \<noteq> CHR ''.'') v
     in case atoi v of None \<Rightarrow> 0 | Some n \<Rightarrow> if n < 1 then 0 else n)"

fun grant_denial :: "(string \<times> cap_scope) list \<Rightarrow> rcontext \<Rightarrow> instant \<Rightarrow> string \<Rightarrow> cap_grant list \<Rightarrow> string" where
  "grant_denial scopes c now code [] = code"
| "grant_denial scopes c now code (g # gs) =
    (if (case map_of scopes (ct_scope_id g) of None \<Rightarrow> True | Some s \<Rightarrow> \<not> scope_compatible c s) then grant_denial scopes c now code gs
     else if ct_status g = CapGrantSuspended then ''GRANT_SUSPENDED''
     else if ct_status g = CapGrantRevoked then grant_denial scopes c now ''GRANT_REVOKED'' gs
     else if ct_status g = CapGrantExpired \<or> (case ct_effective_to g of None \<Rightarrow> False | Some t \<Rightarrow> \<not> now < t)
     then grant_denial scopes c now (if code = ''GRANT_NOT_FOUND'' then ''GRANT_EXPIRED'' else code) gs
     else grant_denial scopes c now code gs)"

record resolution_request =
  rz_context :: rcontext
  rz_capability_key :: string
  rz_contract_version :: int
  rz_correlation :: string

datatype decide_error = ScopeNotFound | ContractVersionCast | EntitlementError | ResolveError resolve_error

fun load_scopes :: "resolution_store \<Rightarrow> string list \<Rightarrow> (string \<times> cap_scope) list \<Rightarrow> decide_error + (string \<times> cap_scope) list" where
  "load_scopes w [] scopes = Inr scopes"
| "load_scopes w (i # is) scopes =
    (if i \<in> fst ` set scopes \<or> i = [] then load_scopes w is scopes
     else case map_of (rd_scopes w) i of None \<Rightarrow> Inl ScopeNotFound | Some s \<Rightarrow> load_scopes w is (scopes @ [(i, s)]))"

text \<open>The bindings whose provider is current, with those of the required contract version among them.\<close>

fun usable_bindings :: "resolution_store \<Rightarrow> instant \<Rightarrow> int \<Rightarrow> cap_binding list \<Rightarrow> decide_error + (nat \<times> cap_binding list)" where
  "usable_bindings w now required [] = Inr (0, [])"
| "usable_bindings w now required (b # bs) =
    (case binding_provider_current w b now of
       None \<Rightarrow> Inl ContractVersionCast
     | Some current \<Rightarrow>
         (case usable_bindings w now required bs of
            Inl e \<Rightarrow> Inl e
          | Inr (n, us) \<Rightarrow>
              if \<not> current then Inr (n, us)
              else if required = 0 \<or> binding_contract_major (cb_contract_version b) = required then Inr (Suc n, b # us)
              else Inr (Suc n, us)))"

definition decide_as :: "string \<Rightarrow> string \<Rightarrow> resolution_record \<Rightarrow> decide_error + resolution_record" where
  "decide_as decision code rec = Inr (rec\<lparr>rr_decision := decision, rr_reason_code := code\<rparr>)"

text \<open>The rest of \<open>decide\<close> once a binding is chosen: contract version, engine instance, policy and invocation.\<close>

definition serve_chosen ::
  "health_policy \<Rightarrow> resolution_store \<Rightarrow> resolution_request \<Rightarrow> instant \<Rightarrow> criticality \<Rightarrow> (string \<times> levels) list \<Rightarrow> resolved_capability \<Rightarrow>
   resolution_record \<Rightarrow> decide_error + resolution_record" where
  "serve_chosen p w req now crit ls chosen rec =
    (let rec = rec\<lparr>rr_binding_id := rs_binding_id chosen, rr_provider_id := rs_provider_id chosen,
           rr_engine_instance_id := rs_engine_instance_id chosen, rr_contract_version := binding_contract_major (rs_contract_version chosen)\<rparr> in
     if rr_contract_version rec = 0 then decide_as ''INCOMPATIBLE'' ''CONTRACT_VERSION_UNSUPPORTED'' rec
     else case topology_resolve p now \<lparr>tq_context = rz_context req, tq_selected = rs_engine_instance_id chosen,
                 tq_instances = list_active_instances w (rs_engine_id chosen), tq_at = now, tq_criticality = crit,
                 tq_health = levels_of ls (rs_binding_id chosen), tq_health_at = now\<rparr> of
       Inl (InstanceIneligible _ d) \<Rightarrow> decide_as ''UNAVAILABLE'' (hd_reason_code d) rec
     | Inl _ \<Rightarrow> decide_as ''UNAVAILABLE'' ''PROVIDER_UNAVAILABLE'' rec
     | Inr _ \<Rightarrow>
         if policy_check (rz_context req) ''ACTIVE'' (rs_engine_instance_id chosen) \<noteq> None
         then decide_as ''DENIED'' ''RESIDENCY_POLICY_MISMATCH'' rec
         else case provider_invocation w (rs_provider_id chosen) of
           None \<Rightarrow> decide_as ''UNAVAILABLE'' ''PROVIDER_INVOCATION_UNDECLARED'' rec
         | Some (ref, protocol) \<Rightarrow>
             let until = health_valid_until (levels_of ls (rs_binding_id chosen));
                 rec = rec\<lparr>rr_decision := ''RESOLVED'', rr_service_reference := ref, rr_protocol := protocol\<rparr>
             in Inr (if until \<noteq> 0 then rec\<lparr>rr_expires_at := Some until\<rparr> else rec))"

text \<open>The choice of a binding among the usable ones, after entitlement.\<close>

definition choose_binding ::
  "health_policy \<Rightarrow> resolution_store \<Rightarrow> resolution_request \<Rightarrow> instant \<Rightarrow> criticality \<Rightarrow> (string \<times> cap_scope) list \<Rightarrow>
   resolution_record \<Rightarrow> decide_error + resolution_record" where
  "choose_binding p w req now crit scopes rec =
    (let bs = list_bindings w (rz_capability_key req) in
     case usable_bindings w now (rz_contract_version req) bs of
       Inl e \<Rightarrow> Inl e
     | Inr (current, usable) \<Rightarrow>
         if bs \<noteq> [] \<and> current = 0 then decide_as ''UNAVAILABLE'' ''PROVIDER_UNAVAILABLE'' rec
         else if bs \<noteq> [] \<and> usable = [] then decide_as ''INCOMPATIBLE'' ''CONTRACT_VERSION_UNSUPPORTED'' rec
         else case load_scopes w (map cb_scope_id usable) scopes of
           Inl e \<Rightarrow> Inl e
         | Inr all_scopes \<Rightarrow>
             let binding_scopes = filter (\<lambda>(i, _). i \<in> set (map cb_scope_id usable)) all_scopes;
                 ls = rev (map (\<lambda>b. (cb_id b, health_levels w (cb_engine_instance_id b) (cb_provider_id b) (rz_capability_key req))) usable)
             in case resolve_healthy_capability p now \<lparr>cq_capability_key = rz_capability_key req, cq_context = rz_context req,
                       cq_bindings = usable, cq_scopes = binding_scopes, cq_at = now, cq_capability = None\<rparr> crit ls now of
                  Inl (BindingIneligible _ d) \<Rightarrow> decide_as ''UNAVAILABLE'' (hd_reason_code d) rec
                | Inl BindingAmbiguous \<Rightarrow> decide_as ''AMBIGUOUS'' ''BINDING_AMBIGUOUS'' rec
                | Inl BindingNotFound \<Rightarrow> decide_as ''UNAVAILABLE'' ''BINDING_NOT_FOUND'' rec
                | Inl e \<Rightarrow> Inl (ResolveError e)
                | Inr chosen \<Rightarrow> serve_chosen p w req now crit ls chosen rec)"

definition decide_resolution ::
  "health_policy \<Rightarrow> resolution_store \<Rightarrow> resolution_request \<Rightarrow> instant \<Rightarrow> resolution_record \<Rightarrow> decide_error + resolution_record" where
  "decide_resolution p w req now rec =
    (case get_capability w (rz_capability_key req) of
       None \<Rightarrow> decide_as ''DENIED'' ''CAPABILITY_UNKNOWN'' rec
     | Some capability \<Rightarrow>
         if \<not> is_resolvable capability then decide_as ''UNAVAILABLE'' ''CAPABILITY_INACTIVE'' rec
         else
           let grants = filter (\<lambda>g. grant_source_current w g now) (list_grants w (cx_tenant (rz_context req)) (rz_capability_key req)) in
           case load_scopes w (map ct_scope_id grants) [] of
             Inl e \<Rightarrow> Inl e
           | Inr scopes \<Rightarrow>
               (case entitlement_resolve now (rz_capability_key req) (rz_context req) grants scopes now of
                  Inl _ \<Rightarrow> Inl EntitlementError
                | Inr None \<Rightarrow> decide_as ''DENIED'' (grant_denial scopes (rz_context req) now ''GRANT_NOT_FOUND'' grants) rec
                | Inr (Some grant_id) \<Rightarrow>
                    choose_binding p w req now (or_default (cy_health_criticality capability)) scopes (rec\<lparr>rr_grant_id := grant_id\<rparr>)))"


definition fresh_record :: "string \<Rightarrow> resolution_request \<Rightarrow> instant \<Rightarrow> resolution_record" where
  "fresh_record uuid req now = \<lparr>rr_resolution_id = ''res_'' @ filter (\<lambda>c. c \<noteq> CHR ''-'') uuid, rr_context_id = cx_id (rz_context req),
     rr_tenant = cx_tenant (rz_context req), rr_capability_key = rz_capability_key req, rr_decision = [], rr_reason_code = [],
     rr_grant_id = [], rr_binding_id = [], rr_provider_id = [], rr_engine_instance_id = [], rr_contract_version = 0,
     rr_service_reference = [], rr_protocol = [], rr_correlation = rz_correlation req, rr_resolved_at = now, rr_expires_at = None\<rparr>"





section \<open>What the reads return\<close>

lemma load_scopes_from_table:
  "load_scopes w is acc = Inr scopes \<Longrightarrow> (\<And>i s. (i, s) \<in> set acc \<Longrightarrow> map_of (rd_scopes w) i = Some s) \<Longrightarrow>
    (i, s) \<in> set scopes \<Longrightarrow> map_of (rd_scopes w) i = Some s"
proof (induction w "is" acc rule: load_scopes.induct)
  case (2 w j js acc)
  show ?case
  proof (cases "j \<in> fst ` set acc \<or> j = []")
    case True
    with 2 show ?thesis by simp
  next
    case False
    with 2(3) obtain sc where sc: "map_of (rd_scopes w) j = Some sc" "load_scopes w js (acc @ [(j, sc)]) = Inr scopes"
      by (auto split: option.splits)
    show ?thesis by (rule 2(2) [OF False sc]) (use 2(4,5) sc(1) in auto)
  qed
qed auto

lemma load_scopes_total:
  "load_scopes w is acc = Inr scopes \<Longrightarrow> i \<in> set is \<union> fst ` set acc \<Longrightarrow> i \<noteq> [] \<Longrightarrow> i \<in> fst ` set scopes"
  by (induction w "is" acc rule: load_scopes.induct) (force split: if_splits option.splits)+

lemma usable_bindings_sound:
  "usable_bindings w now required bs = Inr (n, us) \<Longrightarrow> b \<in> set us \<Longrightarrow>
    b \<in> set bs \<and> binding_provider_current w b now = Some True \<and> (required = 0 \<or> binding_contract_major (cb_contract_version b) = required)"
  by (induction bs arbitrary: n us) (auto split: option.splits sum.splits if_splits)

lemma usable_bindings_complete:
  "usable_bindings w now required bs = Inr (n, us) \<Longrightarrow> b \<in> set bs \<Longrightarrow> binding_provider_current w b now = Some True \<Longrightarrow>
    required = 0 \<or> binding_contract_major (cb_contract_version b) = required \<Longrightarrow> b \<in> set us"
  by (induction bs arbitrary: n us) (auto split: option.splits sum.splits if_splits)

lemma usable_bindings_distinct:
  "usable_bindings w now required bs = Inr (n, us) \<Longrightarrow> distinct (map cb_id bs) \<Longrightarrow> distinct (map cb_id us)"
proof (induction bs arbitrary: n us)
  case (Cons b bs)
  from Cons(2) obtain m vs where vs: "usable_bindings w now required bs = Inr (m, vs)" "us = vs \<or> us = b # vs"
    by (auto split: option.splits sum.splits if_splits)
  have "cb_id ` set vs \<subseteq> cb_id ` set bs" using usable_bindings_sound [OF vs(1)] by blast
  with Cons(1) [OF vs(1)] Cons(3) vs(2) show ?case by auto
qed auto

lemma list_bindings_distinct:
  assumes "distinct (map cb_id (rd_bindings w))"
  shows "distinct (map cb_id (list_bindings w key))"
proof -
  let ?f = "\<lambda>b. find (\<lambda>i. ei_id i = cb_engine_instance_id b) (rd_instances w)"
  have m: "map cb_id (List.map_filter (\<lambda>b. map_option (binding_columns b) (f b)) bs) = map cb_id (filter (\<lambda>b. f b \<noteq> None) bs)"
    for f :: "cap_binding \<Rightarrow> engine_instance option" and bs
    by (induction bs) (auto simp: List.map_filter_def binding_columns_def)
  have "distinct (map cb_id (List.map_filter (\<lambda>b. map_option (binding_columns b) (?f b)) (filter (\<lambda>b. cb_capability_key b = key) (rd_bindings w))))"
    unfolding m using assms by (intro distinct_map_filter)
  then show ?thesis by (simp add: list_bindings_def distinct_map)
qed

lemma list_bindings_row:
  assumes "b \<in> set (list_bindings w key)"
  obtains r i where "r \<in> set (rd_bindings w)" and "cb_capability_key r = key" and "i \<in> set (rd_instances w)" and "b = binding_columns r i"
    and "ei_id i = cb_engine_instance_id r"
proof -
  from assms obtain r i where "r \<in> set (rd_bindings w)" "cb_capability_key r = key" "b = binding_columns r i"
      and f: "find (\<lambda>i. ei_id i = cb_engine_instance_id r) (rd_instances w) = Some i"
    by (auto simp: list_bindings_def List.map_filter_def)
  moreover from find_SomeD [OF f] have "i \<in> set (rd_instances w)" "ei_id i = cb_engine_instance_id r" by blast+
  ultimately show thesis by (intro that)
qed

lemma find_entitlement_sound:
  "find_entitlement key c scopes at gs = Some i \<Longrightarrow>
    \<exists>g \<in> set gs. ct_id g = i \<and> ct_capability_key g = key \<and> is_effective g at \<and>
      (\<exists>s. map_of scopes (ct_scope_id g) = Some s \<and> scope_compatible c s)"
  by (induction key c scopes at gs rule: find_entitlement.induct) (auto split: if_splits option.splits)

lemma list_active_instances_iff:
  "x \<in> set (list_active_instances w engine) \<longleftrightarrow>
    (\<exists>i \<in> set (rd_instances w). x = instance_columns i \<and> ei_engine_id i = engine \<and> to_upper (ei_status i) = ''ACTIVE'')"
  by (auto simp: list_active_instances_def)

section \<open>Anatomy of a decision\<close>

lemma serve_chosen_resolved:
  assumes "serve_chosen p w req now crit ls chosen rec = Inr r" and "rr_decision r = ''RESOLVED''"
  obtains i ref protocol where
    "topology_resolve p now \<lparr>tq_context = rz_context req, tq_selected = rs_engine_instance_id chosen,
       tq_instances = list_active_instances w (rs_engine_id chosen), tq_at = now, tq_criticality = crit,
       tq_health = levels_of ls (rs_binding_id chosen), tq_health_at = now\<rparr> = Inr i"
    and "policy_check (rz_context req) ''ACTIVE'' (rs_engine_instance_id chosen) = None"
    and "provider_invocation w (rs_provider_id chosen) = Some (ref, protocol)"
    and "0 < binding_contract_major (rs_contract_version chosen)"
    and "rr_grant_id r = rr_grant_id rec" and "rr_binding_id r = rs_binding_id chosen" and "rr_provider_id r = rs_provider_id chosen"
    and "rr_engine_instance_id r = rs_engine_instance_id chosen" and "rr_contract_version r = binding_contract_major (rs_contract_version chosen)"
    and "rr_service_reference r = ref" and "rr_protocol r = protocol" and "rr_reason_code r = rr_reason_code rec"
    and "rr_expires_at r = (let u = health_valid_until (levels_of ls (rs_binding_id chosen)) in if u \<noteq> 0 then Some u else rr_expires_at rec)"
proof -
  have pos: "0 < binding_contract_major v \<longleftrightarrow> binding_contract_major v \<noteq> 0" for v
    by (auto simp: binding_contract_major_def Let_def split: option.splits)
  from assms show thesis
    by (auto simp: serve_chosen_def decide_as_def Let_def pos split: if_splits sum.splits topology_error.splits option.splits intro!: that)
qed

definition resolution_store_ok :: "resolution_store \<Rightarrow> bool" where
  "resolution_store_ok w \<longleftrightarrow>
    distinct (map cb_id (rd_bindings w)) \<and> (\<forall>b \<in> set (rd_bindings w). cb_id b \<noteq> [] \<and> cb_scope_id b \<noteq> []) \<and>
    (\<forall>i \<in> set (rd_instances w). ei_id i \<noteq> []) \<and> (\<forall>g \<in> set (rd_grants w). ct_id g \<noteq> []) \<and>
    (\<forall>p \<in> set (rd_providers w). pw_provider_id p \<noteq> [] \<and> (\<forall>ref protocol. pw_invocation p = Some (ref, protocol) \<longrightarrow> ref \<noteq> [])) \<and>
    (\<forall>ob \<in> set (rd_observations w). health_status_valid (ob_status ob)) \<and>
    (\<forall>c \<in> set (rd_capabilities w). cy_health_criticality c \<in> {CriticalityCritical, CriticalityStandard})"

definition binding_levels :: "resolution_store \<Rightarrow> string \<Rightarrow> cap_binding \<Rightarrow> levels" where
  "binding_levels w key b = health_levels w (cb_engine_instance_id b) (cb_provider_id b) key"

text \<open>A grant that entitles the request, and a binding that can serve it.\<close>

definition entitles :: "resolution_store \<Rightarrow> resolution_request \<Rightarrow> instant \<Rightarrow> cap_grant \<Rightarrow> bool" where
  "entitles w req now g \<longleftrightarrow> g \<in> set (rd_grants w) \<and> ct_tenant g = cx_tenant (rz_context req) \<and>
     ct_capability_key g = rz_capability_key req \<and> is_effective g now \<and> grant_source_current w g now \<and>
     (\<exists>s. map_of (rd_scopes w) (ct_scope_id g) = Some s \<and> scope_compatible (rz_context req) s)"

definition scope_of :: "resolution_store \<Rightarrow> cap_binding \<Rightarrow> cap_scope" where
  "scope_of w b = the (map_of (rd_scopes w) (cb_scope_id b))"

definition serves_request :: "health_policy \<Rightarrow> resolution_store \<Rightarrow> resolution_request \<Rightarrow> instant \<Rightarrow> criticality \<Rightarrow> cap_binding \<Rightarrow> bool" where
  "serves_request p w req now crit b \<longleftrightarrow> b \<in> set (list_bindings w (rz_capability_key req)) \<and> cb_status b = ''ACTIVE'' \<and>
     cb_mode b \<notin> {ModeShadow, ModeDisabled} \<and> binding_provider_current w b now = Some True \<and>
     (rz_contract_version req = 0 \<or> binding_contract_major (cb_contract_version b) = rz_contract_version req) \<and>
     map_of (rd_scopes w) (cb_scope_id b) = Some (scope_of w b) \<and> sm_compatible (capability_scope_match (rz_context req) (scope_of w b)) \<and>
     hd_eligible (evaluate_health p crit (binding_levels w (rz_capability_key req) b) now)"

definition serving_rank :: "resolution_store \<Rightarrow> resolution_request \<Rightarrow> cap_binding \<Rightarrow> int \<times> int \<times> int" where
  "serving_rank w req b = binding_rank (b, sm_specificity (capability_scope_match (rz_context req) (scope_of w b)))"

lemma levels_of_usable:
  assumes "distinct (map cb_id us)" and "b \<in> set us"
  shows "levels_of (rev (map (\<lambda>b. (cb_id b, f b)) us)) (cb_id b) = f b"
proof -
  have "map_of (rev (map (\<lambda>b. (cb_id b, f b)) us)) (cb_id b) = Some (f b)"
    by (rule map_of_is_SomeI) (use assms in \<open>auto simp: comp_def rev_map [symmetric] simp del: rev_map\<close>)
  then show ?thesis by (simp add: levels_of_def)
qed

text \<open>The specificity the resolver computes for a usable binding, from the scopes loaded for the usable ones.\<close>

lemma usable_specificity:
  assumes "load_scopes w (map cb_scope_id us) acc = Inr scopes" and "\<And>i s. (i, s) \<in> set acc \<Longrightarrow> map_of (rd_scopes w) i = Some s"
    and "b \<in> set us" and "cb_scope_id b \<noteq> []"
    and "cq_scopes q = filter (\<lambda>(i, _). i \<in> set (map cb_scope_id us)) scopes"
  shows "cq_scopes q \<noteq> []" and "map_of (cq_scopes q) (cb_scope_id b) = Some (scope_of w b)"
    and "map_of (rd_scopes w) (cb_scope_id b) = Some (scope_of w b)"
proof -
  have "cb_scope_id b \<in> fst ` set scopes" using load_scopes_total [OF assms(1), of "cb_scope_id b"] assms(3,4) by simp
  then obtain s where s: "(cb_scope_id b, s) \<in> set scopes" by auto
  from assms(3) s have q: "(cb_scope_id b, s) \<in> set (cq_scopes q)" unfolding assms(5) by auto
  then show "cq_scopes q \<noteq> []" by auto
  show r: "map_of (rd_scopes w) (cb_scope_id b) = Some (scope_of w b)"
    using load_scopes_from_table [OF assms(1,2) s] by (simp add: scope_of_def)
  from weak_map_of_SomeI [OF q] obtain s' where s': "map_of (cq_scopes q) (cb_scope_id b) = Some s'" by blast
  then have "(cb_scope_id b, s') \<in> set scopes" using assms(5) by (auto dest: map_of_SomeD)
  from load_scopes_from_table [OF assms(1,2) this] r s' show "map_of (cq_scopes q) (cb_scope_id b) = Some (scope_of w b)" by simp
qed

lemma candidate_of_usable:
  assumes "cq_scopes q \<noteq> []" and "map_of (cq_scopes q) (cb_scope_id b) = Some (scope_of w b)"
    and "cb_effective_from b = 0" and "cb_effective_to b = None"
  shows "candidate_specificity q at b = Some sp \<longleftrightarrow>
    cb_capability_key b = cq_capability_key q \<and> cb_status b = ''ACTIVE'' \<and> cb_mode b \<noteq> ModeDisabled \<and>
    sm_compatible (capability_scope_match (cq_context q) (scope_of w b)) \<and>
    sp = sm_specificity (capability_scope_match (cq_context q) (scope_of w b))"
  using assms by (auto simp: candidate_specificity_def Let_def)

text \<open>The query a decision hands to the healthy resolver.\<close>

definition decision_query :: "resolution_request \<Rightarrow> instant \<Rightarrow> cap_binding list \<Rightarrow> (string \<times> cap_scope) list \<Rightarrow> capability_query" where
  "decision_query req now usable scopes = \<lparr>cq_capability_key = rz_capability_key req, cq_context = rz_context req, cq_bindings = usable,
     cq_scopes = filter (\<lambda>(i, _). i \<in> set (map cb_scope_id usable)) scopes, cq_at = now, cq_capability = None\<rparr>"

definition usable_levels :: "resolution_store \<Rightarrow> string \<Rightarrow> cap_binding list \<Rightarrow> (string \<times> levels) list" where
  "usable_levels w key usable = rev (map (\<lambda>b. (cb_id b, binding_levels w key b)) usable)"

lemma chosen_serves:
  assumes "resolution_store_ok w"
    and "usable_bindings w now (rz_contract_version req) (list_bindings w (rz_capability_key req)) = Inr (n, us)"
    and "load_scopes w (map cb_scope_id us) acc = Inr scopes" and "\<And>i s. (i, s) \<in> set acc \<Longrightarrow> map_of (rd_scopes w) i = Some s"
    and "resolve_healthy_capability p now (decision_query req now us scopes) crit (usable_levels w (rz_capability_key req) us) now = Inr chosen"
  obtains b sp where "serves_request p w req now crit b" and "chosen = resolved_of (b, sp)"
    and "levels_of (usable_levels w (rz_capability_key req) us) (cb_id b) = binding_levels w (rz_capability_key req) b"
    and "\<And>b'. serves_request p w req now crit b' \<Longrightarrow> b' \<noteq> b \<Longrightarrow> serving_rank w req b < serving_rank w req b'"
proof -
  let ?q = "decision_query req now us scopes" let ?ls = "usable_levels w (rz_capability_key req) us"
  have q: "cq_context ?q = rz_context req" "cq_bindings ?q = us" "query_time now ?q = now"
    "cq_scopes ?q = filter (\<lambda>(i, _). i \<in> set (map cb_scope_id us)) scopes" "cq_capability_key ?q = rz_capability_key req"
    by (simp_all add: decision_query_def query_time_def)
  have dist: "distinct (map cb_id us)" using usable_bindings_distinct [OF assms(2) list_bindings_distinct] assms(1)
    by (simp add: resolution_store_ok_def)
  have us: "b \<in> set (list_bindings w (rz_capability_key req))" "binding_provider_current w b now = Some True"
    "rz_contract_version req = 0 \<or> binding_contract_major (cb_contract_version b) = rz_contract_version req" if "b \<in> set us" for b
    using usable_bindings_sound [OF assms(2) that] by blast+
  have cols: "cb_scope_id b \<noteq> []" "cb_effective_from b = 0" "cb_effective_to b = None" "cb_capability_key b = rz_capability_key req"
    if "b \<in> set us" for b
    using us(1) [OF that] assms(1) by (auto elim!: list_bindings_row simp: binding_columns_def resolution_store_ok_def)
  have sc: "candidate_specificity ?q now b = Some sp \<longleftrightarrow> cb_status b = ''ACTIVE'' \<and> cb_mode b \<noteq> ModeDisabled \<and>
      sm_compatible (capability_scope_match (rz_context req) (scope_of w b)) \<and>
      sp = sm_specificity (capability_scope_match (rz_context req) (scope_of w b))"
      "map_of (rd_scopes w) (cb_scope_id b) = Some (scope_of w b)" if "b \<in> set us" for b sp
    using candidate_of_usable [OF usable_specificity(1,2) [OF assms(3,4) that cols(1) [OF that] q(4)] cols(2,3) [OF that]]
      usable_specificity(3) [OF assms(3,4) that cols(1) [OF that] q(4)] cols(4) [OF that] by (simp_all add: q)
  have lv: "levels_of ?ls (cb_id b) = binding_levels w (rz_capability_key req) b" if "b \<in> set us" for b
    unfolding usable_levels_def by (rule levels_of_usable [OF dist that])
  have acc: "health_accepts p crit ?ls now b \<longleftrightarrow> hd_eligible (evaluate_health p crit (binding_levels w (rz_capability_key req) b) now)"
    if "b \<in> set us" for b using lv [OF that] by (simp add: health_accepts_def)
  from healthy_best [OF assms(5)] obtain b sp where b: "b \<in> set us" "chosen = resolved_of (b, sp)" "health_accepts p crit ?ls now b"
      "cb_mode b \<notin> {ModeShadow, ModeDisabled}" "candidate_specificity ?q now b = Some sp"
      and best: "\<forall>b' sp'. b' \<in> set us \<and> health_accepts p crit ?ls now b' \<and> candidate_specificity ?q now b' = Some sp' \<and> b' \<noteq> b \<longrightarrow>
        binding_rank (b, sp) < binding_rank (b', sp')" unfolding q by blast
  show thesis
  proof (rule that)
    show "serves_request p w req now crit b" using b us [OF b(1)] sc [OF b(1)] acc [OF b(1)] by (simp add: serves_request_def)
    show "chosen = resolved_of (b, sp)" by (fact b(2))
    show "levels_of ?ls (cb_id b) = binding_levels w (rz_capability_key req) b" by (rule lv [OF b(1)])
    show "serving_rank w req b < serving_rank w req b'" if s: "serves_request p w req now crit b'" "b' \<noteq> b" for b'
    proof -
      from s(1) have "b' \<in> set us" unfolding serves_request_def by (intro usable_bindings_complete [OF assms(2)]) blast+
      then show ?thesis using s best sc(1) [OF b(1), of sp] b(5) sc(1) [of b'] acc [of b']
        by (auto simp: serves_request_def serving_rank_def)
    qed
  qed
qed

lemma choose_binding_eq:
  "choose_binding p w req now crit scopes rec =
    (let bs = list_bindings w (rz_capability_key req) in
     case usable_bindings w now (rz_contract_version req) bs of
       Inl e \<Rightarrow> Inl e
     | Inr (current, usable) \<Rightarrow>
         if bs \<noteq> [] \<and> current = 0 then decide_as ''UNAVAILABLE'' ''PROVIDER_UNAVAILABLE'' rec
         else if bs \<noteq> [] \<and> usable = [] then decide_as ''INCOMPATIBLE'' ''CONTRACT_VERSION_UNSUPPORTED'' rec
         else case load_scopes w (map cb_scope_id usable) scopes of
           Inl e \<Rightarrow> Inl e
         | Inr scopes \<Rightarrow>
             let ls = usable_levels w (rz_capability_key req) usable
             in case resolve_healthy_capability p now (decision_query req now usable scopes) crit ls now of
                  Inl (BindingIneligible _ d) \<Rightarrow> decide_as ''UNAVAILABLE'' (hd_reason_code d) rec
                | Inl BindingAmbiguous \<Rightarrow> decide_as ''AMBIGUOUS'' ''BINDING_AMBIGUOUS'' rec
                | Inl BindingNotFound \<Rightarrow> decide_as ''UNAVAILABLE'' ''BINDING_NOT_FOUND'' rec
                | Inl e \<Rightarrow> Inl (ResolveError e)
                | Inr chosen \<Rightarrow> serve_chosen p w req now crit ls chosen rec)"
  unfolding choose_binding_def usable_levels_def binding_levels_def decision_query_def Let_def by (rule refl)

lemma choose_binding_resolved:
  assumes "choose_binding p w req now crit scopes rec = Inr r" and "rr_decision r = ''RESOLVED''"
  obtains n us all_scopes chosen where
    "usable_bindings w now (rz_contract_version req) (list_bindings w (rz_capability_key req)) = Inr (n, us)"
    and "load_scopes w (map cb_scope_id us) scopes = Inr all_scopes"
    and "resolve_healthy_capability p now (decision_query req now us all_scopes) crit (usable_levels w (rz_capability_key req) us) now = Inr chosen"
    and "serve_chosen p w req now crit (usable_levels w (rz_capability_key req) us) chosen rec = Inr r"
proof -
  have no: False if "decide_as d code rec = Inr r" "d \<noteq> ''RESOLVED''" for d code
    using that assms(2) by (auto simp: decide_as_def)
  from assms(1) obtain n us where us: "usable_bindings w now (rz_contract_version req) (list_bindings w (rz_capability_key req)) = Inr (n, us)"
    by (auto simp: choose_binding_eq Let_def split: sum.splits)
  with assms(1) no obtain sc where sc: "load_scopes w (map cb_scope_id us) scopes = Inr sc"
    by (force simp: choose_binding_eq Let_def split: sum.splits if_splits)
  with assms(1) us no have "\<not> isl (resolve_healthy_capability p now (decision_query req now us sc) crit (usable_levels w (rz_capability_key req) us) now)"
    by (force simp: choose_binding_eq Let_def split: sum.splits if_splits resolve_error.splits)
  then obtain chosen where "resolve_healthy_capability p now (decision_query req now us sc) crit (usable_levels w (rz_capability_key req) us) now = Inr chosen"
    by (auto simp: isl_def) (metis sum.exhaust)
  with us sc assms(1) no show thesis
    by (intro that [OF us sc]) (auto simp: choose_binding_eq Let_def split: if_splits)
qed

lemma topology_instance:
  assumes "topology_resolve p now tq = Inr i" and "tq_at tq = now"
  shows "i \<in> set (tq_instances tq)" and "ei_id i = tq_selected tq" and "ei_status i = ''ACTIVE''"
    and "cx_environment (tq_context tq) = [] \<or> ei_environment i = cx_environment (tq_context tq)"
    and "cx_deployment_region (tq_context tq) = [] \<or> ei_region i = cx_deployment_region (tq_context tq)"
    and "cx_isolation_profile (tq_context tq) = [] \<or> ei_isolation_profile i = cx_isolation_profile (tq_context tq)"
proof -
  from assms(1) obtain at where f: "find (\<lambda>i. ei_id i = tq_selected tq) (tq_instances tq) = Some i" and e: "instance_error p tq at i = None"
    by (auto simp: topology_resolve_def Let_def split: if_splits option.splits)
  from f show "i \<in> set (tq_instances tq)" "ei_id i = tq_selected tq" by (auto simp: find_Some_iff)
  from e show "ei_status i = ''ACTIVE''" "cx_environment (tq_context tq) = [] \<or> ei_environment i = cx_environment (tq_context tq)"
    "cx_deployment_region (tq_context tq) = [] \<or> ei_region i = cx_deployment_region (tq_context tq)"
    "cx_isolation_profile (tq_context tq) = [] \<or> ei_isolation_profile i = cx_isolation_profile (tq_context tq)"
    by (auto simp: instance_error_def Let_def split: if_splits option.splits)
qed

lemma decide_resolved:
  assumes "decide_resolution p w req now rec = Inr r" and "rr_decision r = ''RESOLVED''"
  obtains c g scopes where "get_capability w (rz_capability_key req) = Some c" and "is_resolvable c" and "entitles w req now g"
    and "\<And>i s. (i, s) \<in> set scopes \<Longrightarrow> map_of (rd_scopes w) i = Some s"
    and "choose_binding p w req now (or_default (cy_health_criticality c)) scopes (rec\<lparr>rr_grant_id := ct_id g\<rparr>) = Inr r"
proof -
  let ?gs = "filter (\<lambda>g. grant_source_current w g now) (list_grants w (cx_tenant (rz_context req)) (rz_capability_key req))"
  have no: False if "decide_as d code rec = Inr r" "d \<noteq> ''RESOLVED''" for d code
    using that assms(2) by (auto simp: decide_as_def)
  from assms(1) no obtain c where c: "get_capability w (rz_capability_key req) = Some c" "is_resolvable c"
    by (force simp: decide_resolution_def split: option.splits if_splits)
  with assms(1) obtain scopes where sc: "load_scopes w (map ct_scope_id ?gs) [] = Inr scopes"
    by (auto simp: decide_resolution_def Let_def split: sum.splits)
  with assms(1) c no obtain i where i: "find_entitlement (rz_capability_key req) (rz_context req) scopes now ?gs = Some i"
      and r: "choose_binding p w req now (or_default (cy_health_criticality c)) scopes (rec\<lparr>rr_grant_id := i\<rparr>) = Inr r"
    by (force simp: decide_resolution_def Let_def entitlement_resolve_def split: sum.splits option.splits if_splits)
  have tab: "map_of (rd_scopes w) j = Some s" if "(j, s) \<in> set scopes" for j s
    by (rule load_scopes_from_table [OF sc _ that]) simp
  from find_entitlement_sound [OF i] obtain g s where g: "g \<in> set ?gs" "ct_id g = i" "is_effective g now"
      "map_of scopes (ct_scope_id g) = Some s" "scope_compatible (rz_context req) s" by blast
  from tab [OF map_of_SomeD [OF g(4)]] g have "entitles w req now g" by (auto simp: entitles_def list_grants_def)
  with c r tab g(2) show thesis by (intro that [of c g scopes]) simp_all
qed

lemma resolved_rests_on:
  assumes "resolution_store_ok w" and "decide_resolution p w req now rec = Inr r" and "rr_decision r = ''RESOLVED''"
  shows "\<exists>c g b i. get_capability w (rz_capability_key req) = Some c \<and> is_resolvable c \<and> entitles w req now g \<and> rr_grant_id r = ct_id g \<and>
    serves_request p w req now (or_default (cy_health_criticality c)) b \<and> rr_binding_id r = cb_id b \<and> rr_provider_id r = cb_provider_id b \<and>
    (\<forall>b'. serves_request p w req now (or_default (cy_health_criticality c)) b' \<and> b' \<noteq> b \<longrightarrow> serving_rank w req b < serving_rank w req b') \<and>
    rr_contract_version r = binding_contract_major (cb_contract_version b) \<and> 0 < rr_contract_version r \<and>
    i \<in> set (rd_instances w) \<and> ei_id i = rr_engine_instance_id r \<and> ei_status i = ''ACTIVE'' \<and>
    (cx_environment (rz_context req) = [] \<or> ei_environment i = cx_environment (rz_context req)) \<and>
    (cx_deployment_region (rz_context req) = [] \<or> ei_region i = cx_deployment_region (rz_context req)) \<and>
    provider_invocation w (rr_provider_id r) = Some (rr_service_reference r, rr_protocol r) \<and>
    rr_reason_code r = rr_reason_code rec \<and>
    rr_expires_at r = (let u = health_valid_until (binding_levels w (rz_capability_key req) b) in if u \<noteq> 0 then Some u else rr_expires_at rec)"
proof -
  from decide_resolved [OF assms(2,3)] obtain c g scopes where c: "get_capability w (rz_capability_key req) = Some c" "is_resolvable c"
      "entitles w req now g" and tab: "\<And>i s. (i, s) \<in> set scopes \<Longrightarrow> map_of (rd_scopes w) i = Some s"
      and ch: "choose_binding p w req now (or_default (cy_health_criticality c)) scopes (rec\<lparr>rr_grant_id := ct_id g\<rparr>) = Inr r" by blast
  let ?crit = "or_default (cy_health_criticality c)"
  from choose_binding_resolved [OF ch assms(3)] obtain n us sc chosen where
      us: "usable_bindings w now (rz_contract_version req) (list_bindings w (rz_capability_key req)) = Inr (n, us)"
      and sc: "load_scopes w (map cb_scope_id us) scopes = Inr sc"
      and h: "resolve_healthy_capability p now (decision_query req now us sc) ?crit (usable_levels w (rz_capability_key req) us) now = Inr chosen"
      and sv: "serve_chosen p w req now ?crit (usable_levels w (rz_capability_key req) us) chosen (rec\<lparr>rr_grant_id := ct_id g\<rparr>) = Inr r" .
  from chosen_serves [OF assms(1) us sc tab h] obtain b sp where b: "serves_request p w req now ?crit b" "chosen = resolved_of (b, sp)"
      and lv: "levels_of (usable_levels w (rz_capability_key req) us) (cb_id b) = binding_levels w (rz_capability_key req) b"
      and best: "\<And>b'. serves_request p w req now ?crit b' \<Longrightarrow> b' \<noteq> b \<Longrightarrow> serving_rank w req b < serving_rank w req b'" by blast
  from serve_chosen_resolved [OF sv assms(3)] obtain i ref protocol where
      i: "topology_resolve p now \<lparr>tq_context = rz_context req, tq_selected = rs_engine_instance_id chosen,
         tq_instances = list_active_instances w (rs_engine_id chosen), tq_at = now, tq_criticality = ?crit,
         tq_health = levels_of (usable_levels w (rz_capability_key req) us) (rs_binding_id chosen), tq_health_at = now\<rparr> = Inr i"
      and inv: "provider_invocation w (rs_provider_id chosen) = Some (ref, protocol)" "0 < binding_contract_major (rs_contract_version chosen)"
      and r: "rr_grant_id r = rr_grant_id (rec\<lparr>rr_grant_id := ct_id g\<rparr>)" "rr_binding_id r = rs_binding_id chosen"
        "rr_provider_id r = rs_provider_id chosen" "rr_engine_instance_id r = rs_engine_instance_id chosen"
        "rr_contract_version r = binding_contract_major (rs_contract_version chosen)" "rr_service_reference r = ref" "rr_protocol r = protocol"
        "rr_reason_code r = rr_reason_code (rec\<lparr>rr_grant_id := ct_id g\<rparr>)"
        "rr_expires_at r = (let u = health_valid_until (levels_of (usable_levels w (rz_capability_key req) us) (rs_binding_id chosen)) in
           if u \<noteq> 0 then Some u else rr_expires_at (rec\<lparr>rr_grant_id := ct_id g\<rparr>))" .
  from topology_instance(1) [OF i] obtain i' where i': "i' \<in> set (rd_instances w)" "i = instance_columns i'"
    by (auto simp: list_active_instances_iff)
  note t = topology_instance [OF i, simplified]
  show ?thesis
    by (rule exI [of _ c], rule exI [of _ g], rule exI [of _ b], rule exI [of _ i'])
      (use c b lv best r inv i' t(2-5) in \<open>simp add: resolved_of_def instance_columns_def Let_def\<close>)
qed

text \<open>
  C26 (what a resolved decision rests on): a capability resolution decides RESOLVED only when the capability is active, the
  tenant holds a grant of it that is effective, whose source is current and whose scope covers the context, and the named
  binding can serve the request and beats every other binding that can; its engine instance is active and in the region and
  environment of the context, and the invocation recorded is the one the provider declared.
\<close>

theorem resolved_decision_sound:
  assumes "resolution_store_ok w" and "decide_resolution p w req now rec = Inr r" and "rr_decision r = ''RESOLVED''"
  shows "\<exists>c g b i. get_capability w (rz_capability_key req) = Some c \<and> is_resolvable c \<and> entitles w req now g \<and> rr_grant_id r = ct_id g \<and>
    serves_request p w req now (or_default (cy_health_criticality c)) b \<and> rr_binding_id r = cb_id b \<and> rr_provider_id r = cb_provider_id b \<and>
    (\<forall>b'. serves_request p w req now (or_default (cy_health_criticality c)) b' \<and> b' \<noteq> b \<longrightarrow> serving_rank w req b < serving_rank w req b') \<and>
    rr_contract_version r = binding_contract_major (cb_contract_version b) \<and> 0 < rr_contract_version r \<and>
    i \<in> set (rd_instances w) \<and> ei_id i = rr_engine_instance_id r \<and> ei_status i = ''ACTIVE'' \<and>
    (cx_environment (rz_context req) = [] \<or> ei_environment i = cx_environment (rz_context req)) \<and>
    (cx_deployment_region (rz_context req) = [] \<or> ei_region i = cx_deployment_region (rz_context req)) \<and>
    provider_invocation w (rr_provider_id r) = Some (rr_service_reference r, rr_protocol r)"
  using resolved_rests_on [OF assms] by blast

definition ex_resolution_store :: "cap_binding list \<Rightarrow> observation list \<Rightarrow> resolution_store" where
  "ex_resolution_store bs obs = \<lparr>
     rd_capabilities = [\<lparr>cy_id = ''1'', cy_key = ''k'', cy_name = ''n'', cy_domain_key = ''d'', cy_lifecycle = LifecycleActive,
       cy_maturity = MaturitySupported, cy_health_criticality = CriticalityStandard\<rparr>],
     rd_grants = [\<lparr>ct_id = ''g'', ct_tenant = ''t'', ct_capability_id = [], ct_capability_key = ''k'', ct_scope_id = ''s'',
       ct_source = SourcePlatformBaseline, ct_source_reference = [], ct_status = CapGrantActive, ct_effective_from = 1,
       ct_effective_to = None\<rparr>],
     rd_scopes = [(''s'', ex_cap_scope ''s'' [])], rd_bindings = bs,
     rd_instances = [ex_cap_instance ''n'' \<lparr>ei_isolation_profile := ''x''\<rparr>],
     rd_providers = [\<lparr>pw_provider_id = ''v'', pw_engine_id = ''e'', pw_status = ''ACTIVE'', pw_invocation = Some (''r'', ''h'')\<rparr>],
     rd_supports = [\<lparr>sx_provider_id = ''v'', sx_capability_key = ''k'', sx_contract_versions = [1], sx_status = ''ACTIVE'',
       sx_effective_from = 1, sx_effective_to = None\<rparr>],
     rd_subscriptions = [], rd_projections = [], rd_observations = obs, rd_resolutions = []\<rparr>"

definition ex_resolution_request :: "rcontext \<Rightarrow> resolution_request" where
  "ex_resolution_request c = \<lparr>rz_context = c, rz_capability_key = ''k'', rz_contract_version = 1, rz_correlation = ''q''\<rparr>"

definition ex_resolved :: resolution_record where
  "ex_resolved = (fresh_record ''u'' (ex_resolution_request ex_context) 7)\<lparr>rr_decision := ''RESOLVED'', rr_grant_id := ''g'', rr_binding_id := ''b'',
     rr_provider_id := ''v'', rr_engine_instance_id := ''n'', rr_contract_version := 1, rr_service_reference := ''r'', rr_protocol := ''h''\<rparr>"

lemma to_upper_active: "to_upper ''ACTIVE'' = ''ACTIVE''"
  by (simp add: to_upper_def upper_char_def go_simps)

lemma ex_resolution_store_ok: "resolution_store_ok (ex_resolution_store [ex_cap_binding ''b'' ''s'' ModePrimary] [])"
  by (simp add: resolution_store_ok_def ex_resolution_store_def ex_cap_binding_def ex_cap_instance_def)

lemma ex_decision:
  "decide_resolution standard_policy (ex_resolution_store [ex_cap_binding ''b'' ''s'' ModePrimary] []) (ex_resolution_request ex_context) 7
     (fresh_record ''u'' (ex_resolution_request ex_context) 7) = Inr ex_resolved"
  by code_simp

theorem resolved_decision_sound_witness:
  "\<exists>c b. get_capability (ex_resolution_store [ex_cap_binding ''b'' ''s'' ModePrimary] []) ''k'' = Some c \<and> is_resolvable c \<and>
    serves_request standard_policy (ex_resolution_store [ex_cap_binding ''b'' ''s'' ModePrimary] []) (ex_resolution_request ex_context) 7
      (or_default (cy_health_criticality c)) b \<and> cb_id b = ''b''"
proof -
  have "rr_decision ex_resolved = ''RESOLVED''" "rr_binding_id ex_resolved = ''b''" "rz_capability_key (ex_resolution_request ex_context) = ''k''"
    by (simp_all add: ex_resolved_def ex_resolution_request_def)
  with resolved_decision_sound [OF ex_resolution_store_ok ex_decision] show ?thesis by metis
qed

section \<open>Every decision can be recorded\<close>

























section \<open>The columns the reads leave out\<close>

text \<open>
  Property (a context with an isolation profile never resolves): the engine instances are read without their isolation profile, so
  the topology check finds a mismatch whenever the context names one, and no capability is ever RESOLVED for it.
\<close>

theorem isolated_contexts_never_resolve:
  assumes "cx_isolation_profile (rz_context req) \<noteq> []" and "decide_resolution p w req now rec = Inr r"
  shows "rr_decision r \<noteq> ''RESOLVED''"
proof
  assume res: "rr_decision r = ''RESOLVED''"
  from decide_resolved [OF assms(2) res] obtain c :: cap_capability and g :: cap_grant and scopes where
      ch: "choose_binding p w req now (or_default (cy_health_criticality c)) scopes (rec\<lparr>rr_grant_id := ct_id g\<rparr>) = Inr r" .
  from choose_binding_resolved [OF ch res] obtain us chosen where
      sv: "serve_chosen p w req now (or_default (cy_health_criticality c)) (usable_levels w (rz_capability_key req) us) chosen
        (rec\<lparr>rr_grant_id := ct_id g\<rparr>) = Inr r" .
  from serve_chosen_resolved [OF sv res] obtain i where
      i: "topology_resolve p now \<lparr>tq_context = rz_context req, tq_selected = rs_engine_instance_id chosen,
         tq_instances = list_active_instances w (rs_engine_id chosen), tq_at = now, tq_criticality = or_default (cy_health_criticality c),
         tq_health = levels_of (usable_levels w (rz_capability_key req) us) (rs_binding_id chosen), tq_health_at = now\<rparr> = Inr i" .
  from topology_instance(1,6) [OF i] assms(1) show False by (auto simp: list_active_instances_iff instance_columns_def)
qed

definition ex_isolated :: rcontext where
  "ex_isolated = ex_context\<lparr>cx_isolation_profile := ''x''\<rparr>"

lemma ex_isolated_decision:
  "decide_resolution standard_policy (ex_resolution_store [ex_cap_binding ''b'' ''s'' ModePrimary] []) (ex_resolution_request ex_isolated) 7
     (fresh_record ''u'' (ex_resolution_request ex_isolated) 7) =
   Inr (ex_resolved\<lparr>rr_decision := ''UNAVAILABLE'', rr_reason_code := ''PROVIDER_UNAVAILABLE'', rr_service_reference := [], rr_protocol := []\<rparr>)"
  by code_simp

theorem isolated_contexts_never_resolve_witness:
  "rr_decision (ex_resolved\<lparr>rr_decision := ''UNAVAILABLE'', rr_reason_code := ''PROVIDER_UNAVAILABLE'', rr_service_reference := [], rr_protocol := []\<rparr>) \<noteq> ''RESOLVED''"
  by (rule isolated_contexts_never_resolve [OF _ ex_isolated_decision]) (simp add: ex_resolution_request_def ex_isolated_def)

text \<open>
  Property (an expired binding still resolves): the bindings are read without their effective period, so a binding whose period
  ended before the decision is still the one resolved.
\<close>

theorem expired_binding_resolves:
  "\<exists>b. cb_effective_to b = Some 3 \<and>
    decide_resolution standard_policy (ex_resolution_store [b] []) (ex_resolution_request ex_context) 7
      (fresh_record ''u'' (ex_resolution_request ex_context) 7) = Inr ex_resolved"
proof -
  have "decide_resolution standard_policy (ex_resolution_store [ex_cap_binding ''b'' ''s'' ModePrimary\<lparr>cb_effective_to := Some 3\<rparr>] [])
      (ex_resolution_request ex_context) 7 (fresh_record ''u'' (ex_resolution_request ex_context) 7) = Inr ex_resolved" by code_simp
  then show ?thesis by (intro exI [of _ "ex_cap_binding ''b'' ''s'' ModePrimary\<lparr>cb_effective_to := Some 3\<rparr>"]) simp
qed

text \<open>
  Property (a decision may have expired when it is made): a standard capability accepts the unknown health of an instance whose
  last observation has expired, and the decision then takes that past expiry as its own.
\<close>

definition ex_stale :: observation where
  "ex_stale = \<lparr>ob_subject = \<lparr>su_engine_instance_id = ''n'', su_provider_id = [], su_capability_key = []\<rparr>, ob_status = StatusHealthy,
     ob_observed_at = 2, ob_expires_at = 4, ob_source = SourceActiveProbe, ob_reasons = []\<rparr>"

theorem stale_health_expires_decision:
  "\<exists>r e. decide_resolution standard_policy (ex_resolution_store [ex_cap_binding ''b'' ''s'' ModePrimary] [ex_stale]) (ex_resolution_request ex_context) 7
      (fresh_record ''u'' (ex_resolution_request ex_context) 7) = Inr r \<and>
    rr_decision r = ''RESOLVED'' \<and> rr_expires_at r = Some e \<and> e < rr_resolved_at r"
proof -
  have "decide_resolution standard_policy (ex_resolution_store [ex_cap_binding ''b'' ''s'' ModePrimary] [ex_stale])
      (ex_resolution_request ex_context) 7 (fresh_record ''u'' (ex_resolution_request ex_context) 7) = Inr (ex_resolved\<lparr>rr_expires_at := Some 4\<rparr>)"
    by code_simp
  then show ?thesis by (intro exI conjI) (assumption | simp add: ex_resolved_def fresh_record_def)+
qed

end
