(* ===== verification/Migration_Resolution.thy ===== *)
theory Migration_Resolution
  imports Migration_Safety Capability_Resolution
begin

text \<open>
  A provider migration seen by the resolver: the binding rows the migration executor moves
  (\<open>internal/repository/postgres_provider_migration_execution.go\<close>) are the rows \<open>ListBindings\<close> hands to the resolver
  (\<open>internal/resolver/capability.go\<close>). The theorems compose the invariant of the executor, one authoritative binding
  per pair, with the ranking of binding modes.
\<close>

section \<open>The rows as the resolver reads them\<close>







section \<open>The resolver follows the authority\<close>







text \<open>
  Health overrides the authority of a migration: healthy resolution ranks only the bindings whose health is accepted, so
  when the authoritative binding of a pair is unavailable, requests are resolved to its partner in migration mode.
\<close>

theorem unhealthy_authority_yields_to_migration:
  "resolve_healthy_capability standard_policy 0 (ex_query [ex_cap_binding ''a'' ''s'' ModePrimary, ex_cap_binding ''b'' ''s'' ModeMigration])
     CriticalityStandard [(''a'', ex_down)] 7 = Inr (resolved_of (ex_cap_binding ''b'' ''s'' ModeMigration, 1))"
  by code_simp

end
