(* ===== verification/Timestamp.thy ===== *)
theory Timestamp
  imports Capability_Resolution
begin

text \<open>
  The RFC 3339 timestamps in which mappings carry their effective period: \<open>time.Parse(time.RFC3339, s)\<close>, which
  \<open>Mapping.Validate\<close> and the resolver call, and \<open>t.UTC().Format(time.RFC3339Nano)\<close>, which \<open>scanMapping\<close> calls on the columns
  it reads. Reading back what was written gives the same instant, for every instant of the years 1 to 9999.
\<close>

section \<open>Parsing\<close>

text \<open>
  \<open>time.Parse(time.RFC3339, s)\<close> as the standard library reads that layout: fixed two-digit fields except the hour, which may have
  one digit; an optional fraction after a period or a comma, of which nine digits count; \<open>Z\<close> or a signed offset of
  at most 24 hours and 60 minutes; nothing after it. The result is in nanoseconds since the zero instant, 1 January of the year 1.
\<close>

definition digit_value :: "char \<Rightarrow> int" where
  "digit_value c = int (byte c) - 48"

fun take_digits :: "nat \<Rightarrow> string \<Rightarrow> (int \<times> string) option" where
  "take_digits n s =
    (if length (take n s) = n \<and> list_all is_digit (take n s) then Some (digits_value (take n s), drop n s) else None)"

fun take_hour :: "string \<Rightarrow> (int \<times> string) option" where
  "take_hour (a # b # s) =
    (if \<not> is_digit a then None else if is_digit b then Some (10 * digit_value a + digit_value b, s) else Some (digit_value a, b # s))"
| "take_hour [a] = (if is_digit a then Some (digit_value a, []) else None)"
| "take_hour [] = None"

fun skip_byte :: "char \<Rightarrow> string \<Rightarrow> string option" where
  "skip_byte c [] = None"
| "skip_byte c (d # s) = (if c = d then Some s else None)"

definition is_leap :: "int \<Rightarrow> bool" where
  "is_leap y \<longleftrightarrow> y mod 4 = 0 \<and> (y mod 100 \<noteq> 0 \<or> y mod 400 = 0)"

definition days_in :: "int \<Rightarrow> int \<Rightarrow> int" where
  "days_in m y = (if m = 2 then (if is_leap y then 29 else 28) else if m \<in> {4, 6, 9, 11} then 30 else 31)"

definition days_before_year :: "int \<Rightarrow> int" where
  "days_before_year y = 365 * (y - 1) + (y - 1) div 4 - (y - 1) div 100 + (y - 1) div 400"

definition days_before_month :: "int \<Rightarrow> int \<Rightarrow> int" where
  "days_before_month m y = sum_list (map (\<lambda>k. days_in k y) [1 .. m - 1])"

definition fraction :: "string \<Rightarrow> int \<times> string" where
  "fraction s =
    (case s of
       p # d # rest \<Rightarrow>
         if (p = CHR ''.'' \<or> p = CHR '','') \<and> is_digit d then
           let ds = take 9 (takeWhile is_digit (d # rest))
           in (digits_value ds * 10 ^ (9 - length ds), dropWhile is_digit (d # rest))
         else (0, s)
     | _ \<Rightarrow> (0, s))"

definition zone_offset :: "string \<Rightarrow> int option" where
  "zone_offset s =
    (case s of
       [c] \<Rightarrow> if c = CHR ''Z'' then Some 0 else None
     | [sg, h1, h2, col, m1, m2] \<Rightarrow>
         if col = CHR '':'' \<and> list_all is_digit [h1, h2, m1, m2] then
           let h = digits_value [h1, h2]; m = digits_value [m1, m2]; off = (h * 60 + m) * 60 in
           if 24 < h \<or> 60 < m then None
           else if sg = CHR ''+'' then Some off else if sg = CHR ''-'' then Some (- off) else None
         else None
     | _ \<Rightarrow> None)"

definition instant_of :: "int \<Rightarrow> int \<Rightarrow> int \<Rightarrow> int \<Rightarrow> int \<Rightarrow> int \<Rightarrow> int \<Rightarrow> int \<Rightarrow> instant" where
  "instant_of y mo d h mi s ns off =
    (((days_before_year y + days_before_month mo y + (d - 1)) * 24 + h) * 60 + mi) * minute_ns + (s - off) * second_ns + ns"

definition parse_rfc3339 :: "string \<Rightarrow> instant option" where
  "parse_rfc3339 s0 =
    Option.bind (take_digits 4 s0) (\<lambda>(y, s1).
    Option.bind (skip_byte (CHR ''-'') s1) (\<lambda>s2.
    Option.bind (take_digits 2 s2) (\<lambda>(mo, s3).
    Option.bind (skip_byte (CHR ''-'') s3) (\<lambda>s4.
    Option.bind (take_digits 2 s4) (\<lambda>(d, s5).
    Option.bind (skip_byte (CHR ''T'') s5) (\<lambda>s6.
    Option.bind (take_hour s6) (\<lambda>(h, s7).
    Option.bind (skip_byte (CHR '':'') s7) (\<lambda>s8.
    Option.bind (take_digits 2 s8) (\<lambda>(mi, s9).
    Option.bind (skip_byte (CHR '':'') s9) (\<lambda>s10.
    Option.bind (take_digits 2 s10) (\<lambda>(sec, s11).
      let (ns, s12) = fraction s11 in
      Option.bind (zone_offset s12) (\<lambda>off.
        if 1 \<le> mo \<and> mo \<le> 12 \<and> 1 \<le> d \<and> d \<le> days_in mo y \<and> h < 24 \<and> mi < 60 \<and> sec < 60
        then Some (instant_of y mo d h mi sec ns off) else None))))))))))))"

text \<open>A failed parse leaves the zero instant.\<close>

definition parsed_or_zero :: "string \<Rightarrow> instant" where
  "parsed_or_zero s = (case parse_rfc3339 s of None \<Rightarrow> 0 | Some t \<Rightarrow> t)"

section \<open>Formatting\<close>

definition digit_char :: "int \<Rightarrow> char" where
  "digit_char n = char_of (48 + nat n)"

text \<open>The last \<open>w\<close> decimal digits of a number, padded with zeros.\<close>

fun pad :: "nat \<Rightarrow> int \<Rightarrow> string" where
  "pad 0 n = []"
| "pad (Suc w) n = pad w (n div 10) @ [digit_char (n mod 10)]"

text \<open>The year of a day since the zero instant and the day of that year, by cycles of 400, 100, 4 and 1 years.\<close>

definition civil_year :: "int \<Rightarrow> int \<times> int" where
  "civil_year d =
    (let n400 = d div 146097; d1 = d mod 146097; n100 = min 3 (d1 div 36524); d2 = d1 - 36524 * n100;
         n4 = d2 div 1461; d3 = d2 mod 1461; n1 = min 3 (d3 div 365)
     in (400 * n400 + 100 * n100 + 4 * n4 + n1 + 1, d3 - 365 * n1))"

fun month_in :: "int \<Rightarrow> int \<Rightarrow> int list \<Rightarrow> int \<times> int" where
  "month_in y n [] = (12, n + 1)"
| "month_in y n (m # ms) = (if n < days_in m y then (m, n + 1) else month_in y (n - days_in m y) ms)"

definition format_fraction :: "int \<Rightarrow> string" where
  "format_fraction ns = (if ns = 0 then [] else CHR ''.'' # rev (dropWhile (\<lambda>c. c = CHR ''0'') (rev (pad 9 ns))))"

definition day_ns :: duration where
  "day_ns = 24 * hour_ns"

definition format_rfc3339 :: "instant \<Rightarrow> string" where
  "format_rfc3339 t =
    (let (y, yd) = civil_year (t div day_ns); (mo, d) = month_in y yd [1..12]; r = t mod day_ns in
     pad (if y < 10000 then 4 else if y < 100000 then 5 else 6) y @ CHR ''-'' # pad 2 mo @ CHR ''-'' # pad 2 d @ CHR ''T'' #
     pad 2 (r div hour_ns) @ CHR '':'' # pad 2 (r div minute_ns mod 60) @ CHR '':'' # pad 2 (r div second_ns mod 60) @
     format_fraction (r mod second_ns) @ ''Z'')"

section \<open>Digits\<close>

lemma digit_char_byte: "0 \<le> n \<Longrightarrow> n < 10 \<Longrightarrow> byte (digit_char n) = 48 + nat n"
  by (simp add: byte_def digit_char_def)

lemma digit_char_digit: "0 \<le> n \<Longrightarrow> n < 10 \<Longrightarrow> is_digit (digit_char n)"
  by (simp add: is_digit_def digit_char_byte)

lemma digits_value_snoc: "digits_value (xs @ [c]) = 10 * digits_value xs + digit_value c"
  by (simp add: digits_value_def digit_value_def)

lemma pad_length: "length (pad w n) = w"
  by (induction w n rule: pad.induct) auto

lemma pad_digits: "list_all is_digit (pad w n)"
  by (induction w n rule: pad.induct) (auto intro: digit_char_digit)

lemma pad_value: "0 \<le> n \<Longrightarrow> digits_value (pad w n) = n mod 10 ^ w"
proof (induction w n rule: pad.induct)
  case (2 w n)
  have "digit_value (digit_char (n mod 10)) = n mod 10" by (simp add: digit_value_def digit_char_byte)
  with 2 have "digits_value (pad (Suc w) n) = 10 * (n div 10 mod 10 ^ w) + n mod 10"
    by (simp add: digits_value_snoc)
  also have "\<dots> = n mod (10 * 10 ^ w)" by (simp add: zmod_zmult2_eq)
  finally show ?case by simp
qed (simp add: digits_value_def)

section \<open>The calendar\<close>

lemma days_before_cycles:
  assumes "0 \<le> b" "b \<le> 3" "0 \<le> c" "c \<le> 24" "0 \<le> e" "e \<le> (3::int)"
  shows "days_before_year (400 * a + 100 * b + 4 * c + e + 1) = 146097 * a + 36524 * b + 1461 * c + 365 * e"
proof -
  let ?y = "400 * a + 100 * b + 4 * c + e"
  have "?y div 4 = 100 * a + 25 * b + c" using assms by linarith
  moreover have "?y div 100 = 4 * a + b" using assms by linarith
  moreover have "?y div 400 = a" using assms by linarith
  ultimately show ?thesis by (simp add: days_before_year_def)
qed

lemma is_leap_cycles:
  assumes "0 \<le> b" "b \<le> 3" "0 \<le> c" "c \<le> 24"
  shows "is_leap (400 * a + 100 * b + 4 * c + 3 + 1) \<longleftrightarrow> c < 24 \<or> b = (3::int)"
proof -
  let ?y = "400 * a + 100 * b + 4 * c + 4"
  have "?y = 4 * (100 * a + 25 * b + c + 1)" "?y = (4 * c + 4) + (4 * a + b) * 100" by simp_all
  then have m: "?y mod 4 = 0" "?y mod 100 = (4 * c + 4) mod 100" by (metis mod_mult_self1_is_0, metis mod_mult_self1)
  have "(4 * c + 4) mod 100 = 0 \<longleftrightarrow> c = 24" using assms by (cases "c = 24") (auto simp: mod_pos_pos_trivial)
  moreover have "?y mod 400 = 0 \<longleftrightarrow> b = 3" if "c = 24"
  proof -
    have "?y = 100 * (b + 1) + a * 400" using that by simp
    then have "?y mod 400 = 100 * (b + 1) mod 400" by (metis mod_mult_self1)
    then show ?thesis using assms by (cases "b = 3") (auto simp: mod_pos_pos_trivial)
  qed
  ultimately show ?thesis using assms m by (auto simp: is_leap_def add.assoc)
qed

lemma civil_year_day:
  assumes "civil_year d = (y, yd)"
  shows "days_before_year y + yd = d" and "0 \<le> yd" and "yd < (if is_leap y then 366 else 365)"
    and "400 * (d div 146097) < y" and "y \<le> 400 * (d div 146097) + 400"
proof -
  define d1 b d2 c d3 e where defs: "d1 = d mod 146097" "b = min 3 (d1 div 36524)" "d2 = d1 - 36524 * b" "c = d2 div 1461" "d3 = d2 mod 1461"
    "e = min 3 (d3 div 365)"
  let ?a = "d div 146097"
  have "(y, yd) = (400 * ?a + 100 * b + 4 * c + e + 1, d3 - 365 * e)" unfolding assms [symmetric] civil_year_def Let_def defs by (rule refl)
  then have y: "y = 400 * ?a + 100 * b + 4 * c + e + 1" "yd = d3 - 365 * e" by blast+
  have b: "0 \<le> b" "b \<le> 3" "0 \<le> d2" "d2 \<le> 36524" "b < 3 \<Longrightarrow> d2 < 36524" unfolding defs(2,3,1) by (auto simp: min_def)
  have c: "0 \<le> c" "c \<le> 24" "0 \<le> d3" "d3 < 1461" "d2 = 1461 * c + d3" using b unfolding defs(4,5) by auto
  have e: "0 \<le> e" "e \<le> 3" "0 \<le> yd" "yd \<le> 365" "e < 3 \<Longrightarrow> yd < 365"
    using c unfolding y(2) defs(6) by (auto simp: min_def)
  have last: "yd = 365 \<Longrightarrow> d3 = 1460" using e(2,5) y(2) by (cases "e < 3") auto
  have d: "d = 146097 * ?a + 36524 * b + d2" unfolding defs(3,1) by simp
  show "days_before_year y + yd = d" unfolding y(1) days_before_cycles [OF b(1,2) c(1,2) e(1,2)] using d c(5) y(2) by simp
  show "0 \<le> yd" by (rule e(3))
  show "400 * ?a < y" "y \<le> 400 * ?a + 400" using b(1,2) c(1,2) e(1,2) y(1) by simp_all
  show "yd < (if is_leap y then 366 else 365)"
  proof (cases "yd = 365")
    case True
    have "e = 3" using e(2,5) True by (cases "e < 3") auto
    have "d3 = 1460" by (rule last [OF True])
    with b(5) b(2) c have "c < 24 \<or> b = 3" by auto
    with True e(4) show ?thesis unfolding y(1) \<open>e = 3\<close> is_leap_cycles [OF b(1,2) c(1,2)] by simp
  qed (use e(4) in auto)
qed

lemma month_in_split:
  "n < sum_list (map (\<lambda>m. days_in m y) ms) \<Longrightarrow> 0 \<le> n \<Longrightarrow>
   \<exists>as m bs d. ms = as @ m # bs \<and> month_in y n ms = (m, d) \<and> 1 \<le> d \<and> d \<le> days_in m y \<and> n = sum_list (map (\<lambda>m. days_in m y) as) + d - 1"
proof (induction y n ms rule: month_in.induct)
  case (2 y n m ms)
  show ?case
  proof (cases "n < days_in m y")
    case True
    with 2 show ?thesis by (intro exI [of _ "[]"]) auto
  next
    case False
    with 2 obtain as k bs d where "ms = as @ k # bs" "month_in y (n - days_in m y) ms = (k, d)" "1 \<le> d" "d \<le> days_in k y"
      "n - days_in m y = sum_list (map (\<lambda>m. days_in m y) as) + d - 1" by auto
    with False show ?thesis by (intro exI [of _ "m # as"] exI [of _ k] exI [of _ bs] exI [of _ d]) auto
  qed
qed auto

lemma upto_prefix: "[i..j] = as @ m # bs \<Longrightarrow> as = [i..m - 1] \<and> i \<le> m \<and> m \<le> j"
proof (induction as arbitrary: i)
  case Nil
  then show ?case by (auto simp: upto.simps [of i j] split: if_splits)
next
  case (Cons a as)
  from Cons.prems have "i \<le> j" "a = i" "[i + 1..j] = as @ m # bs" by (auto simp: upto.simps [of i j] split: if_splits)
  with Cons.IH [of "i + 1"] show ?case by (auto simp: upto.simps [of i "m - 1"])
qed

lemma year_length: "sum_list (map (\<lambda>m. days_in m y) [1..12]) = (if is_leap y then 366 else 365)"
  by (simp add: upto.simps days_in_def)

lemma civil_date:
  assumes "civil_year d = (y, yd)" "month_in y yd [1..12] = (mo, dd)"
  shows "1 \<le> mo" "mo \<le> 12" "1 \<le> dd" "dd \<le> days_in mo y" "days_before_year y + days_before_month mo y + (dd - 1) = d"
proof -
  note c = civil_year_day [OF assms(1)]
  from month_in_split [of yd y "[1..12]"] c assms(2) obtain as bs where
    s: "[1..12] = as @ mo # bs" "1 \<le> dd" "dd \<le> days_in mo y" "yd = sum_list (map (\<lambda>m. days_in m y) as) + dd - 1"
    unfolding year_length by auto
  from upto_prefix [OF s(1)] have "as = [1..mo - 1]" "1 \<le> mo" "mo \<le> 12" by auto
  with s c(1) show "1 \<le> mo" "mo \<le> 12" "1 \<le> dd" "dd \<le> days_in mo y" "days_before_year y + days_before_month mo y + (dd - 1) = d"
    by (simp_all add: days_before_month_def)
qed

section \<open>Reading back what was written\<close>

lemma take_digits_pad: "0 \<le> n \<Longrightarrow> n < 10 ^ w \<Longrightarrow> take_digits w (pad w n @ s) = Some (n, s)"
  by (simp add: pad_length pad_digits pad_value)

lemma take_hour_pad: "0 \<le> n \<Longrightarrow> n < 100 \<Longrightarrow> take_hour (pad 2 n @ s) = Some (n, s)"
proof -
  assume n: "0 \<le> n" "n < 100"
  then have q: "0 \<le> n div 10" "n div 10 < 10" by auto
  then have "digit_value (digit_char (n div 10)) = n div 10" "digit_value (digit_char (n mod 10)) = n mod 10"
    by (simp_all add: digit_value_def digit_char_byte)
  moreover have "is_digit (digit_char (n div 10))" "is_digit (digit_char (n mod 10))" using q by (simp_all add: digit_char_digit)
  ultimately show ?thesis using q by (simp add: numeral_2_eq_2 mod_pos_pos_trivial)
qed

lemma digits_value_zeros: "digits_value (xs @ replicate k (CHR ''0'')) = digits_value xs * 10 ^ k"
proof (induction k)
  case (Suc k)
  have "digit_value (CHR ''0'') = 0" by (simp add: digit_value_def byte_def)
  with Suc digits_value_snoc [of "xs @ replicate k (CHR ''0'')" "CHR ''0''"] show ?case
    by (simp add: replicate_append_same [symmetric])
qed simp

lemma trimmed_zeros: "\<exists>k. xs = rev (dropWhile (\<lambda>c. c = z) (rev xs)) @ replicate k z"
proof -
  have "rev xs = takeWhile (\<lambda>c. c = z) (rev xs) @ dropWhile (\<lambda>c. c = z) (rev xs)" by simp
  moreover have "takeWhile (\<lambda>c. c = z) (rev xs) = replicate (length (takeWhile (\<lambda>c. c = z) (rev xs))) z"
    by (rule replicate_eqI) (auto dest: set_takeWhileD)
  ultimately have "xs = rev (dropWhile (\<lambda>c. c = z) (rev xs)) @ rev (replicate (length (takeWhile (\<lambda>c. c = z) (rev xs))) z)"
    by (metis rev_append rev_rev_ident)
  then show ?thesis by auto
qed

lemma fraction_format:
  assumes "0 \<le> ns" "ns < 10 ^ 9"
  shows "fraction (format_fraction ns @ ''Z'') = (ns, ''Z'')"
proof (cases "ns = 0")
  case True
  then show ?thesis by (simp add: format_fraction_def fraction_def)
next
  case False
  define ys where "ys = rev (dropWhile (\<lambda>c. c = CHR ''0'') (rev (pad 9 ns)))"
  then obtain k where ys: "ys = rev (dropWhile (\<lambda>c. c = CHR ''0'') (rev (pad 9 ns)))" "pad 9 ns = ys @ replicate k (CHR ''0'')"
    using trimmed_zeros [of "pad 9 ns" "CHR ''0''"] by blast
  have len: "length ys + k = 9" using arg_cong [OF ys(2), of length] by (simp add: pad_length)
  have val: "digits_value ys * 10 ^ k = ns" using assms arg_cong [OF ys(2), of digits_value] by (simp add: pad_value digits_value_zeros)
  with False have "ys \<noteq> []" by (auto simp: digits_value_def)
  then obtain d rest where d: "ys = d # rest" by (cases ys) auto
  have dg: "list_all is_digit ys" using pad_digits [of 9 ns] unfolding ys(2) by simp
  have "\<not> is_digit (CHR ''Z'')" by (simp add: is_digit_def byte_def)
  with dg have tw: "takeWhile is_digit (ys @ ''Z'') = ys" "dropWhile is_digit (ys @ ''Z'') = ''Z''"
    by (simp_all add: list_all_iff takeWhile_append2 dropWhile_append2)
  have k: "9 - length ys = k" "length ys \<le> 9" using len by auto
  have "format_fraction ns = CHR ''.'' # ys" using False by (simp add: format_fraction_def ys(1))
  then show ?thesis using tw dg val k unfolding d by (simp add: fraction_def)
qed

lemma mixed_radix:
  "r = q * s + m \<Longrightarrow> q = q2 * 60 + u \<Longrightarrow> q2 = q3 * 60 + v \<Longrightarrow> q3 * (3600 * s) + v * (60 * s) + u * s + m = (r::int)"
  by (simp add: algebra_simps)

lemma clock_of_rest:
  "r div hour_ns * hour_ns + r div minute_ns mod 60 * minute_ns + r div second_ns mod 60 * second_ns + r mod second_ns = r"
proof -
  define q where "q = r div second_ns"
  have e: "r div minute_ns = q div 60" "r div hour_ns = q div 60 div 60"
    unfolding q_def minute_ns_def hour_ns_def second_ns_def by (simp_all add: zdiv_zmult2_eq [symmetric])
  have "r = q * second_ns + r mod second_ns" "q = q div 60 * 60 + q mod 60" "q div 60 = q div 60 div 60 * 60 + q div 60 mod 60"
    unfolding q_def by (simp_all only: div_mult_mod_eq)
  from mixed_radix [OF this] show ?thesis unfolding e q_def [symmetric] unfolding hour_ns_def minute_ns_def .
qed

lemma pos_div_less: "0 < n \<Longrightarrow> m < k * n \<Longrightarrow> m div n < (k::int)"
proof -
  assume n: "0 < n" and m: "m < k * n"
  have "m div n * n \<le> m" using n div_mult_mod_eq [of m n] pos_mod_sign [of n m] by linarith
  with m have "m div n * n < k * n" by simp
  with n show ?thesis by simp
qed

lemma civil_year_range:
  assumes "0 \<le> d" "d < days_before_year 10000" "civil_year d = (y, yd)"
  shows "1 \<le> y" "y < 10000"
proof -
  from assms(2) have d: "d < 3652059" by (simp add: days_before_year_def)
  with assms(1) have "0 \<le> d div 146097" "d div 146097 \<le> 24" by auto
  with civil_year_day(4,5) [OF assms(3)] have "1 \<le> y" "y \<le> 10000" by linarith+
  moreover have "y \<noteq> 10000" using civil_year_day(1,2) [OF assms(3)] assms(2) by auto
  ultimately show "1 \<le> y" "y < 10000" by simp_all
qed

lemma parse_format:
  assumes "0 \<le> t" "t < days_before_year 10000 * day_ns"
  shows "parse_rfc3339 (format_rfc3339 t) = Some t"
proof -
  define d where "d = t div day_ns"
  define r where "r = t mod day_ns"
  have pos: "0 < day_ns" "0 < hour_ns" "0 < minute_ns" "0 < second_ns" by (simp_all add: day_ns_def hour_ns_def minute_ns_def second_ns_def)
  have d: "0 \<le> d" "d < days_before_year 10000" unfolding d_def using assms pos(1) by (simp_all add: pos_imp_zdiv_nonneg_iff pos_div_less)
  have r: "0 \<le> r" "r < day_ns" unfolding r_def using pos by simp_all
  obtain y yd where y: "civil_year d = (y, yd)" by (cases "civil_year d")
  obtain mo dd where mo: "month_in y yd [1..12] = (mo, dd)" by (cases "month_in y yd [1..12]")
  note date = civil_date [OF y mo]
  note yr = civil_year_range [OF d y]
  have dd: "dd < 10 ^ 2" using date(4) by (auto simp: days_in_def split: if_splits)
  have h: "0 \<le> r div hour_ns" "r div hour_ns < 24" using r by (auto simp: day_ns_def hour_ns_def second_ns_def)
  have ns: "0 \<le> r mod second_ns" "r mod second_ns < 10 ^ 9" by (simp_all add: second_ns_def)
  have "days_before_year y + days_before_month mo y + (dd - 1) = d" by (rule date(5))
  then have "instant_of y mo dd (r div hour_ns) (r div minute_ns mod 60) (r div second_ns mod 60) (r mod second_ns) 0 = d * day_ns + r"
    using clock_of_rest [of r] unfolding instant_of_def day_ns_def hour_ns_def minute_ns_def by (simp add: algebra_simps)
  also have "\<dots> = t" unfolding d_def r_def by simp
  finally have t: "instant_of y mo dd (r div hour_ns) (r div minute_ns mod 60) (r div second_ns mod 60) (r mod second_ns) 0 = t" .
  have z: "zone_offset ''Z'' = Some 0" by (simp add: zone_offset_def)
  have f: "format_rfc3339 t = pad 4 y @ CHR ''-'' # pad 2 mo @ CHR ''-'' # pad 2 dd @ CHR ''T'' # pad 2 (r div hour_ns) @ CHR '':'' #
      pad 2 (r div minute_ns mod 60) @ CHR '':'' # pad 2 (r div second_ns mod 60) @ format_fraction (r mod second_ns) @ ''Z''"
    unfolding format_rfc3339_def Let_def d_def [symmetric] r_def [symmetric] y mo prod.case using yr by simp
  show ?thesis unfolding f parse_rfc3339_def
    using date yr dd h t by (simp add: take_digits_pad take_hour_pad fraction_format [OF ns] z del: take_digits.simps pad.simps)
qed

section \<open>Examples\<close>

lemma parse_rfc3339_examples:
  "parse_rfc3339 ''0001-01-01T00:00:00Z'' = Some 0"
  "parse_rfc3339 ''1970-01-01T00:00:00Z'' = Some (62135596800 * second_ns)"
  "parse_rfc3339 ''1970-01-01T2:00:00.5+02:00'' = Some (62135596800 * second_ns + 500000000)"
  "parse_rfc3339 ''1900-02-29T00:00:00Z'' = None"
  "format_rfc3339 (62135596800 * second_ns + 500000000) = ''1970-01-01T00:00:00.5Z''"
  by code_simp+

end
