(* ===== verification/Mapping_Resolver.thy ===== *)
theory Mapping_Resolver
  imports Timestamp
begin

text \<open>
  Canonical mappings and their resolution: \<open>Mapping\<close> and \<open>Mapping.Validate\<close> (\<open>internal/domain/canonical.go\<close>), the forward, reverse
  and contextual mapping resolvers (\<open>internal/resolver/mapping.go\<close>). Their effective periods are RFC 3339 timestamps (theory \<open>Timestamp\<close>).

  A resolver keeps the mappings that apply, sorts them by specificity, priority, confidence and identifier, and refuses to
  guess between two of the best rank; the locale \<open>ranking\<close> of theory \<open>Resolver\<close> is interpreted on this order. The metadata of a mapping is
  carried and never read, so it has no field here.
\<close>

section \<open>Mappings\<close>

record mapping_row =
  mp_id :: string
  mp_mapping_type :: string
  mp_tenant_id :: string
  mp_legal_entity_id :: string
  mp_canonical_entity_id :: string
  mp_external_reference_id :: string
  mp_target_canonical_entity_id :: string
  mp_scope_id :: string
  mp_direction :: string
  mp_cardinality :: string
  mp_authority :: string
  mp_confidence :: string
  mp_resolution_priority :: int
  mp_status :: string
  mp_effective_from :: string
  mp_effective_to :: string
  mp_supersedes_mapping_id :: string
  mp_revision :: int
  mp_created_at :: string
  mp_created_by :: string
  mp_approved_at :: string
  mp_approved_by :: string
  mp_retired_at :: string
  mp_retired_by :: string

definition is_valid_mapping_direction :: "string \<Rightarrow> bool" where
  "is_valid_mapping_direction d \<longleftrightarrow> d \<in> {''BIDIRECTIONAL'', ''CANONICAL_TO_EXTERNAL'', ''EXTERNAL_TO_CANONICAL'', ''SOURCE_TO_TARGET''}"

definition is_valid_cardinality :: "string \<Rightarrow> bool" where
  "is_valid_cardinality c \<longleftrightarrow> c \<in> {''ONE_TO_ONE'', ''ONE_TO_MANY'', ''MANY_TO_ONE'', ''MANY_TO_MANY''}"

definition is_valid_confidence :: "string \<Rightarrow> bool" where
  "is_valid_confidence c \<longleftrightarrow> c \<in> {''CONFIRMED'', ''PROBABLE'', ''CANDIDATE'', ''REJECTED''}"

datatype mapping_problem =
    MappingTypeRequired | MappingTenantRequired | MappingEntityRequired | MappingDirectionInvalid | MappingCardinalityInvalid
  | MappingAuthorityRequired | MappingConfidenceInvalid | MappingStatusRequired | MappingFromRequired | MappingToInvalid
  | MappingFromInvalid | MappingTargetCount

definition mapping_validate :: "mapping_row \<Rightarrow> mapping_problem option" where
  "mapping_validate m =
    (if trim_space (mp_mapping_type m) = [] then Some MappingTypeRequired
     else if trim_space (mp_tenant_id m) = [] then Some MappingTenantRequired
     else if trim_space (mp_canonical_entity_id m) = [] then Some MappingEntityRequired
     else if \<not> is_valid_mapping_direction (mp_direction m) then Some MappingDirectionInvalid
     else if \<not> is_valid_cardinality (mp_cardinality m) then Some MappingCardinalityInvalid
     else if trim_space (mp_authority m) = [] then Some MappingAuthorityRequired
     else if mp_confidence m \<noteq> [] \<and> \<not> is_valid_confidence (mp_confidence m) then Some MappingConfidenceInvalid
     else if trim_space (mp_status m) = [] then Some MappingStatusRequired
     else if trim_space (mp_effective_from m) = [] then Some MappingFromRequired
     else if mp_effective_to m \<noteq> [] \<and> parse_rfc3339 (mp_effective_to m) = None then Some MappingToInvalid
     else if parse_rfc3339 (mp_effective_from m) = None then Some MappingFromInvalid
     else if (mp_external_reference_id m \<noteq> []) = (mp_target_canonical_entity_id m \<noteq> []) then Some MappingTargetCount
     else None)"

section \<open>The mappings that apply\<close>

datatype mapping_error =
  MappingNotFound | MappingAmbiguous | CanonicalEntityIDRequired | ExternalReferenceIDRequired

definition legacy_scope_specificity :: "rcontext \<Rightarrow> string \<Rightarrow> int" where
  "legacy_scope_specificity c scope_id =
    (if scope_id = [] then 0 else if scope_id = cx_tenant c then 20 else if scope_id = cx_legal_entity c then 15
     else if scope_id = cx_market c then 10 else if scope_id = cx_country c then 5 else 0)"

definition confidence_rank :: "string \<Rightarrow> int" where
  "confidence_rank c =
    (if c = [] \<or> c = ''CONFIRMED'' then 4 else if c = ''PROBABLE'' then 3 else if c = ''CANDIDATE'' then 2
     else if c = ''REJECTED'' then 1 else 0)"

text \<open>The specificity of a scope that has to be loaded and compatible.\<close>

definition loaded_scope :: "rcontext \<Rightarrow> (string \<times> mapping_scope) list \<Rightarrow> string \<Rightarrow> int option" where
  "loaded_scope c scopes scope_id =
    (case map_of scopes scope_id of
       None \<Rightarrow> None
     | Some s \<Rightarrow> let m = default_scope_match c s in if \<not> sm_compatible m then None else Some (sm_specificity m))"

text \<open>One pass of the loop of \<open>resolveMappingGoverned\<close>: the specificity of a candidate, or \<open>None\<close> when it is skipped.\<close>

definition mapping_specificity ::
  "rcontext \<Rightarrow> (string \<times> mapping_scope) list \<Rightarrow> (string \<times> mapping_scope) list \<Rightarrow> instant \<Rightarrow> (mapping_row \<Rightarrow> bool) \<Rightarrow> mapping_row \<Rightarrow> int option"
where
  "mapping_specificity c scopes governed at matches m =
    (if \<not> matches m \<or> mp_status m \<noteq> ''ACTIVE'' \<or> mp_confidence m = ''REJECTED'' then None
     else if mapping_validate m \<noteq> None then None
     else if at < parsed_or_zero (mp_effective_from m) then None
     else if mp_effective_to m \<noteq> [] \<and> \<not> at < parsed_or_zero (mp_effective_to m) then None
     else if valid_mapping_scope_id (mp_scope_id m) then loaded_scope c governed (mp_scope_id m)
     else if scopes \<noteq> [] then loaded_scope c scopes (mp_scope_id m)
     else Some (legacy_scope_specificity c (mp_scope_id m)))"

definition mapping_rank :: "mapping_row \<times> int \<Rightarrow> int \<times> int \<times> int" where
  "mapping_rank = (\<lambda>(m, sp). (- sp, - mp_resolution_priority m, - confidence_rank (mp_confidence m)))"

definition mapping_order :: "mapping_row \<times> int \<Rightarrow> (int \<times> int \<times> int) \<times> string" where
  "mapping_order x = (mapping_rank x, mp_id (fst x))"

definition same_mapping_rank :: "mapping_row \<times> int \<Rightarrow> mapping_row \<times> int \<Rightarrow> bool" where
  "same_mapping_rank x y \<longleftrightarrow> snd x = snd y \<and> mp_resolution_priority (fst x) = mp_resolution_priority (fst y) \<and>
    confidence_rank (mp_confidence (fst x)) = confidence_rank (mp_confidence (fst y))"

definition mapping_time :: "instant \<Rightarrow> rcontext \<Rightarrow> instant \<Rightarrow> instant" where
  "mapping_time clock c at = (if at \<noteq> 0 then at else if cx_resolved_at c \<noteq> 0 then cx_resolved_at c else clock)"

definition applicable ::
  "rcontext \<Rightarrow> (string \<times> mapping_scope) list \<Rightarrow> (string \<times> mapping_scope) list \<Rightarrow> instant \<Rightarrow> (mapping_row \<Rightarrow> bool) \<Rightarrow> mapping_row list \<Rightarrow>
   (mapping_row \<times> int) list" where
  "applicable c scopes governed at matches ms =
    List.map_filter (\<lambda>m. map_option (Pair m) (mapping_specificity c scopes governed at matches m)) ms"

definition resolve_mapping_governed ::
  "instant \<Rightarrow> rcontext \<Rightarrow> mapping_row list \<Rightarrow> (string \<times> mapping_scope) list \<Rightarrow> (string \<times> mapping_scope) list \<Rightarrow> instant \<Rightarrow>
   (mapping_row \<Rightarrow> bool) \<Rightarrow> mapping_error + mapping_row \<times> int" where
  "resolve_mapping_governed clock c candidates scopes governed at matches =
    (if candidates = [] then Inl MappingNotFound
     else case sort_key mapping_order (applicable c scopes governed (mapping_time clock c at) matches candidates) of
       [] \<Rightarrow> Inl MappingNotFound
     | x # ys \<Rightarrow>
         if (case ys of [] \<Rightarrow> False | y # _ \<Rightarrow> same_mapping_rank x y) then Inl MappingAmbiguous else Inr x)"

section \<open>Forward, reverse and contextual resolution\<close>

definition forward_matches :: "string \<Rightarrow> mapping_row \<Rightarrow> bool" where
  "forward_matches entity m \<longleftrightarrow> mp_canonical_entity_id m = entity \<and>
    mp_direction m \<in> {''BIDIRECTIONAL'', ''CANONICAL_TO_EXTERNAL'', ''SOURCE_TO_TARGET''}"

definition reverse_matches :: "string \<Rightarrow> mapping_row \<Rightarrow> bool" where
  "reverse_matches external m \<longleftrightarrow> mp_external_reference_id m = external \<and> mp_direction m \<in> {''BIDIRECTIONAL'', ''EXTERNAL_TO_CANONICAL''}"

record mapping_query =
  mq_canonical_entity_id :: string
  mq_context :: rcontext
  mq_candidates :: "mapping_row list"
  mq_scopes :: "(string \<times> mapping_scope) list"
  mq_governed :: "(string \<times> mapping_scope) list"
  mq_at :: instant

definition mapping_resolve :: "instant \<Rightarrow> mapping_query \<Rightarrow> mapping_error + mapping_row \<times> int" where
  "mapping_resolve clock q =
    (if mq_canonical_entity_id q = [] then Inl CanonicalEntityIDRequired
     else resolve_mapping_governed clock (mq_context q) (mq_candidates q) (mq_scopes q) (mq_governed q) (mq_at q)
       (forward_matches (mq_canonical_entity_id q)))"

record reverse_query =
  vq_external_reference_id :: string
  vq_context :: rcontext
  vq_candidates :: "mapping_row list"
  vq_scopes :: "(string \<times> mapping_scope) list"
  vq_at :: instant

record quarantine =
  qd_reason :: mapping_error
  qd_external_reference_id :: string
  qd_correlation_id :: string

text \<open>The error of the reverse resolver with its quarantine decision; a missing identifier quarantines nothing.\<close>

definition mapping_resolve_reverse :: "instant \<Rightarrow> reverse_query \<Rightarrow> (mapping_error + quarantine) + mapping_row \<times> int" where
  "mapping_resolve_reverse clock q =
    (if vq_external_reference_id q = [] then Inl (Inl ExternalReferenceIDRequired)
     else case resolve_mapping_governed clock (vq_context q) (vq_candidates q) (vq_scopes q) [] (vq_at q)
         (reverse_matches (vq_external_reference_id q)) of
       Inl e \<Rightarrow> Inl (Inr \<lparr>qd_reason = e, qd_external_reference_id = vq_external_reference_id q,
         qd_correlation_id = cx_correlation (vq_context q)\<rparr>)
     | Inr x \<Rightarrow> Inr x)"

datatype mapping_reason = ReasonDefaultMapping | ReasonScopeMatched | ReasonPriorityApplied

definition contextual_specificity :: "rcontext \<Rightarrow> (string \<times> mapping_scope) list \<Rightarrow> mapping_row \<Rightarrow> int option" where
  "contextual_specificity c scopes m =
    (if (mp_status m \<noteq> ''ACTIVE'' \<and> mp_status m \<noteq> ''RETIRED'') \<or> mp_confidence m = ''CANDIDATE'' \<or> mp_confidence m = ''REJECTED'' then None
     else if mp_scope_id m \<noteq> [] then loaded_scope c scopes (mp_scope_id m)
     else Some 0)"

definition same_target :: "mapping_row \<Rightarrow> mapping_row \<Rightarrow> bool" where
  "same_target m n \<longleftrightarrow> mp_external_reference_id m = mp_external_reference_id n \<and>
    mp_target_canonical_entity_id m = mp_target_canonical_entity_id n"

fun compare_others :: "mapping_row \<times> int \<Rightarrow> mapping_reason \<Rightarrow> (mapping_row \<times> int) list \<Rightarrow> mapping_error + mapping_reason" where
  "compare_others best reason [] = Inr reason"
| "compare_others best reason (z # zs) =
    (if snd z \<noteq> snd best then Inr reason
     else if \<not> same_mapping_rank best z then Inr ReasonPriorityApplied
     else if \<not> same_target (fst z) (fst best) then Inl MappingAmbiguous
     else compare_others best reason zs)"

definition contextual_candidates :: "rcontext \<Rightarrow> (string \<times> mapping_scope) list \<Rightarrow> mapping_row list \<Rightarrow> (mapping_row \<times> int) list" where
  "contextual_candidates c scopes ms = List.map_filter (\<lambda>m. map_option (Pair m) (contextual_specificity c scopes m)) ms"

definition resolve_mapping_in_context ::
  "rcontext \<Rightarrow> mapping_row list \<Rightarrow> (string \<times> mapping_scope) list \<Rightarrow> mapping_error + (mapping_row \<times> int) \<times> mapping_reason" where
  "resolve_mapping_in_context c candidates scopes =
    (case sort_key mapping_order (contextual_candidates c scopes candidates) of
       [] \<Rightarrow> Inl MappingNotFound
     | best # others \<Rightarrow>
         map_sum id (Pair best)
           (compare_others best (if mp_scope_id (fst best) \<noteq> [] then ReasonScopeMatched else ReasonDefaultMapping) others))"

section \<open>The best of the applicable mappings\<close>

interpretation mappings: ranking mapping_rank mapping_order
  by unfold_locales (unfold mapping_order_def, erule pair_le_fst)

lemma same_mapping_rank_iff: "same_mapping_rank x y \<longleftrightarrow> mapping_rank x = mapping_rank y"
  by (auto simp: same_mapping_rank_def mapping_rank_def split_beta)

lemma governed_by_best:
  "resolve_mapping_governed clock c ms scopes governed at matches =
    (case best_ranked mapping_rank (applicable c scopes governed (mapping_time clock c at) matches ms) of
       [] \<Rightarrow> Inl MappingNotFound | [x] \<Rightarrow> Inr x | _ \<Rightarrow> Inl MappingAmbiguous)"
proof -
  have "applicable c scopes governed t matches [] = []" for t by (simp add: applicable_def List.map_filter_def)
  then show ?thesis
    unfolding resolve_mapping_governed_def same_mapping_rank_iff mappings.first_two by (simp add: best_ranked_def)
qed

lemma applicable_iff:
  "(m, sp) \<in> set (applicable c scopes governed t matches ms) \<longleftrightarrow> m \<in> set ms \<and> mapping_specificity c scopes governed t matches m = Some sp"
  by (force simp: applicable_def List.map_filter_def)

lemma governed_unique:
  assumes "resolve_mapping_governed clock c ms scopes governed at matches = Inr (m, sp)"
  shows "m \<in> set ms" and "mapping_specificity c scopes governed (mapping_time clock c at) matches m = Some sp"
    and "m' \<in> set ms \<Longrightarrow> mapping_specificity c scopes governed (mapping_time clock c at) matches m' = Some sp' \<Longrightarrow> m' \<noteq> m \<Longrightarrow>
      mapping_rank (m, sp) < mapping_rank (m', sp')"
proof -
  let ?xs = "applicable c scopes governed (mapping_time clock c at) matches ms"
  from assms have b: "best_ranked mapping_rank ?xs = [(m, sp)]" unfolding governed_by_best by (auto split: list.splits)
  note u = best_ranked_unique [OF b]
  from u show "m \<in> set ms" "mapping_specificity c scopes governed (mapping_time clock c at) matches m = Some sp"
    unfolding applicable_iff by blast+
  assume "m' \<in> set ms" "mapping_specificity c scopes governed (mapping_time clock c at) matches m' = Some sp'" and ne: "m' \<noteq> m"
  then have "(m', sp') \<in> set ?xs" unfolding applicable_iff by blast
  with u ne show "mapping_rank (m, sp) < mapping_rank (m', sp')" by blast
qed

text \<open>A mapping in effect at \<open>t\<close>: its period is well formed, has begun and has not ended.\<close>

definition in_effect :: "mapping_row \<Rightarrow> instant \<Rightarrow> bool" where
  "in_effect m t \<longleftrightarrow>
    (case parse_rfc3339 (mp_effective_from m) of None \<Rightarrow> False | Some from \<Rightarrow> from \<le> t) \<and>
    (mp_effective_to m = [] \<or> (case parse_rfc3339 (mp_effective_to m) of None \<Rightarrow> False | Some to \<Rightarrow> t < to))"

lemma applicable_mapping:
  assumes "mapping_specificity c scopes governed t matches m = Some sp"
  shows "matches m" "mp_status m = ''ACTIVE''" "mp_confidence m \<noteq> ''REJECTED''" "mapping_validate m = None" "in_effect m t"
    "valid_mapping_scope_id (mp_scope_id m) \<Longrightarrow> loaded_scope c governed (mp_scope_id m) = Some sp"
proof -
  from assms have v: "mapping_validate m = None" by (auto simp: mapping_specificity_def split: if_splits)
  show "matches m" "mp_status m = ''ACTIVE''" "mp_confidence m \<noteq> ''REJECTED''" "mapping_validate m = None"
    using assms by (auto simp: mapping_specificity_def split: if_splits)
  from v have "parse_rfc3339 (mp_effective_from m) \<noteq> None" "mp_effective_to m = [] \<or> parse_rfc3339 (mp_effective_to m) \<noteq> None"
    by (auto simp: mapping_validate_def split: if_splits)
  with assms show "in_effect m t"
    by (auto simp: mapping_specificity_def in_effect_def parsed_or_zero_def split: if_splits option.splits)
  show "loaded_scope c governed (mp_scope_id m) = Some sp" if "valid_mapping_scope_id (mp_scope_id m)"
    using assms that by (simp add: mapping_specificity_def split: if_splits)
qed

lemma loaded_scope_SomeD:
  "loaded_scope c scopes i = Some sp \<Longrightarrow> \<exists>s. map_of scopes i = Some s \<and> sm_compatible (default_scope_match c s)"
  by (auto simp: loaded_scope_def Let_def split: option.splits if_splits)

lemma resolved_mapping_best:
  assumes "mapping_resolve clock q = Inr (m, sp)"
  defines "t \<equiv> mapping_time clock (mq_context q) (mq_at q)"
  shows "m \<in> set (mq_candidates q) \<and> forward_matches (mq_canonical_entity_id q) m \<and> mp_status m = ''ACTIVE'' \<and>
    mapping_validate m = None \<and> in_effect m t \<and>
    (valid_mapping_scope_id (mp_scope_id m) \<longrightarrow>
      (\<exists>s. map_of (mq_governed q) (mp_scope_id m) = Some s \<and> sm_compatible (default_scope_match (mq_context q) s))) \<and>
    (\<forall>m' sp'. m' \<in> set (mq_candidates q) \<and> m' \<noteq> m \<and>
       mapping_specificity (mq_context q) (mq_scopes q) (mq_governed q) t (forward_matches (mq_canonical_entity_id q)) m' = Some sp' \<longrightarrow>
       mapping_rank (m, sp) < mapping_rank (m', sp'))"
proof -
  from assms(1) have r: "resolve_mapping_governed clock (mq_context q) (mq_candidates q) (mq_scopes q) (mq_governed q) (mq_at q)
      (forward_matches (mq_canonical_entity_id q)) = Inr (m, sp)"
    by (simp add: mapping_resolve_def split: if_splits)
  note u = governed_unique [OF r, folded t_def]
  note a = applicable_mapping [OF u(2)]
  show ?thesis
    by (intro conjI allI impI u(1) a(1,2,4,5)) (blast intro: loaded_scope_SomeD a(6), blast intro: u(3))
qed

text \<open>
  C29 (a mapping resolves to the one best mapping in effect): when forward resolution returns a mapping, it is a valid active
  candidate of the entity in a direction that leaves it, its effective period contains the resolution time, a governed scope
  it names was loaded and matches the context, and every other applicable candidate ranks strictly below it by
  specificity, priority and confidence; so no choice is ever a guess.
\<close>

theorem mapping_resolution_best:
  assumes "mapping_resolve clock q = Inr (m, sp)"
  defines "t \<equiv> mapping_time clock (mq_context q) (mq_at q)"
  shows "m \<in> set (mq_candidates q) \<and> forward_matches (mq_canonical_entity_id q) m \<and> mp_status m = ''ACTIVE'' \<and>
    mapping_validate m = None \<and> in_effect m t \<and>
    (valid_mapping_scope_id (mp_scope_id m) \<longrightarrow>
      (\<exists>s. map_of (mq_governed q) (mp_scope_id m) = Some s \<and> sm_compatible (default_scope_match (mq_context q) s))) \<and>
    (\<forall>m' sp'. m' \<in> set (mq_candidates q) \<and> m' \<noteq> m \<and>
       mapping_specificity (mq_context q) (mq_scopes q) (mq_governed q) t (forward_matches (mq_canonical_entity_id q)) m' = Some sp' \<longrightarrow>
       mapping_rank (m, sp) < mapping_rank (m', sp'))"
  unfolding t_def by (rule resolved_mapping_best [OF assms(1)])

section \<open>Contextual resolution\<close>

lemma compare_others_sorted:
  assumes "sorted (map mapping_rank (best # others))"
  shows "compare_others best reason others = Inl e \<longleftrightarrow>
    e = MappingAmbiguous \<and> (\<exists>z \<in> set others. mapping_rank z = mapping_rank best \<and> \<not> same_target (fst z) (fst best))"
  using assms
proof (induction others)
  case (Cons z zs)
  have le: "mapping_rank best \<le> mapping_rank z" "\<forall>y \<in> set zs. mapping_rank z \<le> mapping_rank y" using Cons.prems by auto
  show ?case
  proof (cases "mapping_rank z = mapping_rank best")
    case True
    then have "snd z = snd best" "same_mapping_rank best z" by (auto simp: same_mapping_rank_iff mapping_rank_def split_beta)
    with Cons True show ?thesis by auto
  next
    case False
    with le have "\<forall>y \<in> set (z # zs). mapping_rank y \<noteq> mapping_rank best" by (auto dest: order.trans)
    moreover have "\<not> same_mapping_rank best z" using False by (simp add: same_mapping_rank_iff eq_commute)
    ultimately show ?thesis by auto
  qed
qed simp

lemma same_target_equiv:
  "same_target m m" "same_target m n \<Longrightarrow> same_target n m" "same_target m n \<Longrightarrow> same_target n k \<Longrightarrow> same_target m k"
  by (simp_all add: same_target_def)

lemma contextual_best:
  defines "best \<equiv> \<lambda>c ms scopes. set (best_ranked mapping_rank (contextual_candidates c scopes ms))"
  shows "resolve_mapping_in_context c ms scopes = Inl MappingNotFound \<longleftrightarrow> contextual_candidates c scopes ms = []"
    and "resolve_mapping_in_context c ms scopes = Inl MappingAmbiguous \<longleftrightarrow>
      (\<exists>x \<in> best c ms scopes. \<exists>y \<in> best c ms scopes. \<not> same_target (fst x) (fst y))"
    and "resolve_mapping_in_context c ms scopes = Inr (x, r) \<Longrightarrow> x \<in> best c ms scopes"
proof -
  let ?cs = "contextual_candidates c scopes ms" and ?r = "resolve_mapping_in_context c ms scopes"
  have "set (best_ranked mapping_rank ?cs) = set (best_ranked mapping_rank (sort_key mapping_order ?cs))"
    by (rule mset_eq_setD, rule best_ranked_mset) simp
  then have B: "best c ms scopes = set (best_ranked mapping_rank (sort_key mapping_order ?cs))" by (simp add: best_def)
  have "(?r = Inl MappingNotFound \<longleftrightarrow> ?cs = []) \<and>
    (?r = Inl MappingAmbiguous \<longleftrightarrow> (\<exists>x \<in> best c ms scopes. \<exists>y \<in> best c ms scopes. \<not> same_target (fst x) (fst y))) \<and>
    (\<forall>x r. ?r = Inr (x, r) \<longrightarrow> x \<in> best c ms scopes)"
  proof (cases "sort_key mapping_order ?cs")
    case Nil
    then have "?cs = []" by (metis length_0_conv length_sort)
    then show ?thesis unfolding B by (simp add: resolve_mapping_in_context_def best_ranked_def)
  next
    case (Cons b others)
    have ne: "?cs \<noteq> []" using Cons by auto
    have eB: "best c ms scopes = insert b {z \<in> set others. mapping_rank z = mapping_rank b}"
      unfolding B Cons mappings.best_of_sorted [OF Cons] by simp
    let ?reason = "if mp_scope_id (fst b) \<noteq> [] then ReasonScopeMatched else ReasonDefaultMapping"
    have R: "?r = map_sum id (Pair b) (compare_others b ?reason others)" by (simp add: resolve_mapping_in_context_def Cons)
    have s: "sorted (map mapping_rank (b # others))" using mappings.sorted_ranks [of ?cs] Cons by simp
    have amb: "compare_others b ?reason others = Inl e \<longleftrightarrow>
        e = MappingAmbiguous \<and> (\<exists>x \<in> best c ms scopes. \<not> same_target (fst x) (fst b))" for e
      unfolding compare_others_sorted [OF s] eB using same_target_equiv(1) [of "fst b"] by blast
    have "(\<exists>x \<in> best c ms scopes. \<not> same_target (fst x) (fst b)) \<longleftrightarrow>
        (\<exists>x \<in> best c ms scopes. \<exists>y \<in> best c ms scopes. \<not> same_target (fst x) (fst y))"
      using same_target_equiv(1) [of "fst b"] same_target_equiv(2) [of _ "fst b"] same_target_equiv(3) [of _ "fst b"]
      unfolding eB by blast
    with amb ne show ?thesis unfolding R by (cases "compare_others b ?reason others") (auto simp: eB)
  qed
  then show "?r = Inl MappingNotFound \<longleftrightarrow> ?cs = []"
    "?r = Inl MappingAmbiguous \<longleftrightarrow> (\<exists>x \<in> best c ms scopes. \<exists>y \<in> best c ms scopes. \<not> same_target (fst x) (fst y))"
    "?r = Inr (x, r) \<Longrightarrow> x \<in> best c ms scopes" by blast+
qed

text \<open>
  C30 (contextual resolution is ambiguous exactly when the best mappings disagree): nothing is found exactly when no candidate
  applies, the outcome is ambiguous exactly when two of the best ranked candidates have different targets, and otherwise the
  mapping returned is one of the best ranked and all of those name its target.
\<close>

theorem contextual_mapping_unambiguous:
  defines "best \<equiv> \<lambda>c ms scopes. set (best_ranked mapping_rank (contextual_candidates c scopes ms))"
  shows "(resolve_mapping_in_context c ms scopes = Inl MappingNotFound \<longleftrightarrow> contextual_candidates c scopes ms = []) \<and>
    (resolve_mapping_in_context c ms scopes = Inl MappingAmbiguous \<longleftrightarrow>
      (\<exists>x \<in> best c ms scopes. \<exists>y \<in> best c ms scopes. \<not> same_target (fst x) (fst y))) \<and>
    (\<forall>x r. resolve_mapping_in_context c ms scopes = Inr (x, r) \<longrightarrow>
      x \<in> best c ms scopes \<and> (\<forall>y \<in> best c ms scopes. same_target (fst y) (fst x)))"
proof -
  have "same_target (fst y) (fst x)" if "resolve_mapping_in_context c ms scopes = Inr (x, r)" "y \<in> best c ms scopes" for x y r
  proof -
    from that(1) have "resolve_mapping_in_context c ms scopes \<noteq> Inl MappingAmbiguous" by simp
    with that(2) contextual_best(2) contextual_best(3) [OF that(1)] show ?thesis unfolding best_def by blast
  qed
  with contextual_best [of c ms scopes] show ?thesis unfolding best_def by blast
qed

section \<open>Reverse resolution\<close>

text \<open>
  A reverse resolution never returns a mapping whose scope is governed: the query carries no governed scopes, so such a mapping is
  quarantined as not found.
\<close>

lemma reverse_never_governed:
  assumes "mapping_resolve_reverse clock q = Inr (m, sp)"
  shows "\<not> valid_mapping_scope_id (mp_scope_id m)"
proof
  assume v: "valid_mapping_scope_id (mp_scope_id m)"
  from assms have r: "resolve_mapping_governed clock (vq_context q) (vq_candidates q) (vq_scopes q) [] (vq_at q)
      (reverse_matches (vq_external_reference_id q)) = Inr (m, sp)"
    by (simp add: mapping_resolve_reverse_def split: if_splits sum.splits)
  from applicable_mapping(6) [OF governed_unique(2) [OF r] v] show False by (simp add: loaded_scope_def)
qed

section \<open>Examples\<close>

definition ex_mapping :: "string \<Rightarrow> string \<Rightarrow> int \<Rightarrow> mapping_row" where
  "ex_mapping i external priority = \<lparr>mp_id = i, mp_mapping_type = ''m'', mp_tenant_id = ''t'', mp_legal_entity_id = [], mp_canonical_entity_id = ''e'',
     mp_external_reference_id = external, mp_target_canonical_entity_id = [], mp_scope_id = ''t'', mp_direction = ''BIDIRECTIONAL'',
     mp_cardinality = ''ONE_TO_ONE'', mp_authority = ''a'', mp_confidence = [], mp_resolution_priority = priority, mp_status = ''ACTIVE'',
     mp_effective_from = ''0001-01-01T00:00:00Z'', mp_effective_to = [], mp_supersedes_mapping_id = [], mp_revision = 1, mp_created_at = [],
     mp_created_by = [], mp_approved_at = [], mp_approved_by = [], mp_retired_at = [], mp_retired_by = []\<rparr>"

definition ex_mapping_query :: "mapping_row list \<Rightarrow> mapping_query" where
  "ex_mapping_query ms = \<lparr>mq_canonical_entity_id = ''e'', mq_context = ex_context, mq_candidates = ms, mq_scopes = [], mq_governed = [], mq_at = 7\<rparr>"

lemma ex_mapping_resolves:
  "mapping_resolve 0 (ex_mapping_query [ex_mapping ''a'' ''x'' 0, ex_mapping ''b'' ''y'' 1]) = Inr (ex_mapping ''b'' ''y'' 1, 20)"
  "mapping_resolve 0 (ex_mapping_query [ex_mapping ''a'' ''x'' 0, ex_mapping ''b'' ''y'' 0]) = Inl MappingAmbiguous"
  by code_simp+

theorem mapping_resolution_best_witness:
  "in_effect (ex_mapping ''b'' ''y'' 1) 7 \<and> forward_matches ''e'' (ex_mapping ''b'' ''y'' 1)"
  using mapping_resolution_best [OF ex_mapping_resolves(1)]
  by (simp add: ex_mapping_query_def mapping_time_def)

definition ex_unscoped :: "string \<Rightarrow> string \<Rightarrow> mapping_row" where
  "ex_unscoped i external = ex_mapping i external 0 \<lparr>mp_scope_id := []\<rparr>"

theorem contextual_mapping_unambiguous_witness:
  "\<exists>r. resolve_mapping_in_context ex_context [ex_unscoped ''a'' ''x'', ex_unscoped ''b'' ''x''] [] = Inr ((ex_unscoped ''a'' ''x'', 0), r) \<and>
    (ex_unscoped ''a'' ''x'', 0) \<in> set (best_ranked mapping_rank (contextual_candidates ex_context [] [ex_unscoped ''a'' ''x'', ex_unscoped ''b'' ''x'']))"
proof -
  have "resolve_mapping_in_context ex_context [ex_unscoped ''a'' ''x'', ex_unscoped ''b'' ''x''] [] = Inr ((ex_unscoped ''a'' ''x'', 0), ReasonDefaultMapping)"
    by code_simp
  with contextual_mapping_unambiguous [of ex_context "[ex_unscoped ''a'' ''x'', ex_unscoped ''b'' ''x'']" "[]"] show ?thesis by blast
qed

end
