(* ===== verification/Resolution_Pipeline.thy ===== *)
theory Resolution_Pipeline
  imports Mapping_Resolver
begin

text \<open>
  The composed resolution pipeline (\<open>internal/resolver/pipeline.go\<close>, \<open>trace.go\<close>) and the service that feeds it from the tables
  (\<open>internal/service/resolution_service.go\<close>): a mapping of the tenant, the entitlement, a healthy binding, its engine instance
  and the policy, in this order, with a trace of what was selected.

  The tables are \<open>resolution_store\<close> of theory \<open>Capability_Resolution\<close> with the mappings and the mapping scopes. A failing
  connection is not modelled. The text of an error, which the trace carries as its reason, is the value of \<open>pipeline_error\<close>.

  The lemmas show what a routed decision rests on, that mappings of other tenants never influence it, and three
  consequences of what the service loads: bindings are not matched against their scopes unless entitlement is enforced,
  then only against the scopes of the grants, and only the instances of the first binding's engine are known.
\<close>

section \<open>The pipeline\<close>

record resolution_trace =
  tr_correlation :: string
  tr_tenant :: string
  tr_capability_key :: string
  tr_mapping_id :: string
  tr_grant_id :: string
  tr_binding_id :: string
  tr_engine_instance_id :: string
  tr_outcome :: string

datatype pipeline_error =
    PipelineTenantRequired | PipelineEntityRequired | PipelineKeyRequired | MappingFailed mapping_error | MappingTenantMismatch
  | EntitlementFailed | CapabilityNotGranted | BindingFailed resolve_error | TopologyFailed topology_error | PolicyDenied policy_denial

record pipeline_request =
  pq_tenant :: string
  pq_canonical_entity :: string
  pq_capability_key :: string
  pq_context :: rcontext
  pq_candidates :: "mapping_row list"
  pq_bindings :: "cap_binding list"
  pq_instances :: "engine_instance list"
  pq_grants :: "cap_grant list option"
  pq_scopes :: "(string \<times> cap_scope) list"
  pq_capability :: "cap_capability option"
  pq_mapping_scopes :: "(string \<times> mapping_scope) list"
  pq_criticality :: criticality
  pq_health :: "(string \<times> levels) list"
  pq_now :: instant

record resolution_result =
  re_context :: rcontext
  re_mapping :: "mapping_row \<times> int"
  re_capability :: resolved_capability
  re_topology :: engine_instance
  re_trace :: resolution_trace
  re_health_valid_until :: instant

definition resolution_failure :: "resolution_trace \<Rightarrow> pipeline_error \<Rightarrow> (resolution_trace \<times> pipeline_error) + 'a" where
  "resolution_failure trace cause = Inl (trace\<lparr>tr_outcome := ''FAILED''\<rparr>, cause)"

definition request_context :: "pipeline_request \<Rightarrow> rcontext" where
  "request_context req = (if cx_tenant (pq_context req) = [] then (pq_context req)\<lparr>cx_tenant := pq_tenant req\<rparr> else pq_context req)"

definition start_trace :: "pipeline_request \<Rightarrow> resolution_trace" where
  "start_trace req = \<lparr>tr_correlation = cx_correlation (pq_context req), tr_tenant = cx_tenant (pq_context req),
     tr_capability_key = pq_capability_key req, tr_mapping_id = [], tr_grant_id = [], tr_binding_id = [], tr_engine_instance_id = [],
     tr_outcome = []\<rparr>"

definition pipeline_mapping :: "instant \<Rightarrow> pipeline_request \<Rightarrow> rcontext \<Rightarrow> mapping_error + mapping_row \<times> int" where
  "pipeline_mapping clock req c = mapping_resolve clock \<lparr>mq_canonical_entity_id = pq_canonical_entity req, mq_context = c,
     mq_candidates = filter (\<lambda>m. mp_tenant_id m = cx_tenant c) (pq_candidates req), mq_scopes = [],
     mq_governed = pq_mapping_scopes req, mq_at = 0\<rparr>"

text \<open>The entitlement gate, skipped when no grants were given: the error, or the grant of the trace.\<close>

definition pipeline_entitlement :: "instant \<Rightarrow> pipeline_request \<Rightarrow> rcontext \<Rightarrow> pipeline_error + string" where
  "pipeline_entitlement clock req c =
    (case pq_grants req of
       None \<Rightarrow> Inr []
     | Some gs \<Rightarrow>
         (case entitlement_resolve clock (pq_capability_key req) c gs (pq_scopes req) 0 of
            Inl _ \<Rightarrow> Inl EntitlementFailed
          | Inr None \<Rightarrow> Inl CapabilityNotGranted
          | Inr (Some g) \<Rightarrow> Inr g))"

definition pipeline_binding :: "health_policy \<Rightarrow> instant \<Rightarrow> pipeline_request \<Rightarrow> rcontext \<Rightarrow> instant \<Rightarrow> resolve_error + resolved_capability" where
  "pipeline_binding p clock req c now = resolve_healthy_capability p clock
     \<lparr>cq_capability_key = pq_capability_key req, cq_context = c, cq_bindings = pq_bindings req, cq_scopes = pq_scopes req, cq_at = 0,
      cq_capability = pq_capability req\<rparr> (pq_criticality req) (pq_health req) now"

definition pipeline_topology ::
  "health_policy \<Rightarrow> instant \<Rightarrow> pipeline_request \<Rightarrow> rcontext \<Rightarrow> instant \<Rightarrow> resolved_capability \<Rightarrow> topology_error + engine_instance" where
  "pipeline_topology p clock req c now r = topology_resolve p clock
     \<lparr>tq_context = c, tq_selected = rs_engine_instance_id r, tq_instances = pq_instances req, tq_at = cx_resolved_at c,
      tq_criticality = pq_criticality req, tq_health = levels_of (pq_health req) (rs_binding_id r), tq_health_at = now\<rparr>"

definition pipeline_resolve ::
  "health_policy \<Rightarrow> instant \<Rightarrow> pipeline_request \<Rightarrow> (resolution_trace \<times> pipeline_error) + resolution_result" where
  "pipeline_resolve p clock req =
    (if pq_tenant req = [] \<and> cx_tenant (pq_context req) = [] then resolution_failure (start_trace req) PipelineTenantRequired
     else
       let c = request_context req; trace = (start_trace req)\<lparr>tr_tenant := cx_tenant c\<rparr> in
       if pq_canonical_entity req = [] then resolution_failure trace PipelineEntityRequired
       else if pq_capability_key req = [] then resolution_failure trace PipelineKeyRequired
       else case pipeline_mapping clock req c of
         Inl e \<Rightarrow> resolution_failure trace (MappingFailed e)
       | Inr (m, sp) \<Rightarrow>
           if mp_tenant_id m \<noteq> cx_tenant c then resolution_failure trace MappingTenantMismatch
           else
             let trace = trace\<lparr>tr_mapping_id := mp_id m\<rparr> in
             case pipeline_entitlement clock req c of
               Inl e \<Rightarrow> resolution_failure trace e
             | Inr grant_id \<Rightarrow>
                 let trace = trace\<lparr>tr_grant_id := grant_id\<rparr>; now = (if pq_now req = 0 then clock else pq_now req) in
                 case pipeline_binding p clock req c now of
                   Inl e \<Rightarrow> resolution_failure trace (BindingFailed e)
                 | Inr r \<Rightarrow>
                     let trace = trace\<lparr>tr_binding_id := rs_binding_id r, tr_engine_instance_id := rs_engine_instance_id r\<rparr> in
                     case pipeline_topology p clock req c now r of
                       Inl e \<Rightarrow> resolution_failure trace (TopologyFailed e)
                     | Inr i \<Rightarrow>
                         (case policy_check c ''ACTIVE'' (rs_engine_instance_id r) of
                            Some d \<Rightarrow> resolution_failure trace (PolicyDenied d)
                          | None \<Rightarrow>
                              Inr \<lparr>re_context = c, re_mapping = (m, sp), re_capability = r, re_topology = i,
                                re_trace = trace\<lparr>tr_outcome := ''ROUTED''\<rparr>,
                                re_health_valid_until = health_valid_until (levels_of (pq_health req) (rs_binding_id r))\<rparr>))"

section \<open>The service\<close>

record routing_store =
  rt_store :: resolution_store
  rt_mappings :: "mapping_row list"
  rt_mapping_scopes :: "(string \<times> mapping_scope) list"

text \<open>The switch of the rollout and which of its three readers are set.\<close>

record service_config =
  sv_enforce :: bool
  sv_grants :: bool
  sv_scopes :: bool
  sv_registry :: bool

record service_request =
  sq_tenant :: string
  sq_canonical_entity :: string
  sq_capability_key :: string
  sq_context :: rcontext

datatype service_error =
  ServiceTenantRequired | ServiceEntityRequired | ServiceKeyInvalid | ResolutionFailed resolution_trace pipeline_error

text \<open>The rows of \<open>mapping.mapping\<close> are held newest first, as \<open>ListMappings\<close> orders them.\<close>

definition list_mappings :: "routing_store \<Rightarrow> string \<Rightarrow> mapping_row list" where
  "list_mappings w entity = (if \<not> is_uuid entity then [] else filter (\<lambda>m. mp_canonical_entity_id m = entity) (rt_mappings w))"

definition mapping_scopes_by_key :: "routing_store \<Rightarrow> string \<Rightarrow> string list \<Rightarrow> (string \<times> mapping_scope) list" where
  "mapping_scopes_by_key w tenant keys = filter (\<lambda>(k, s). k \<in> set keys \<and> ms_tenant s = tenant) (rt_mapping_scopes w)"

definition health_criticality :: "routing_store \<Rightarrow> string \<Rightarrow> criticality" where
  "health_criticality w key =
    (case get_capability (rt_store w) key of None \<Rightarrow> CriticalityStandard | Some c \<Rightarrow> or_default (cy_health_criticality c))"

definition service_instances :: "resolution_store \<Rightarrow> cap_binding list \<Rightarrow> engine_instance list" where
  "service_instances w bs = (case bs of [] \<Rightarrow> [] | b # _ \<Rightarrow> list_active_instances w (cb_engine_id b))"

definition binding_health :: "resolution_store \<Rightarrow> string \<Rightarrow> cap_binding list \<Rightarrow> (string \<times> levels) list" where
  "binding_health w key bs = rev (map (\<lambda>b. (cb_id b, health_levels w (cb_engine_instance_id b) (cb_provider_id b) key)) bs)"

text \<open>The scopes of the grants, each loaded once; one that cannot be read is left out.\<close>

definition grant_scopes :: "resolution_store \<Rightarrow> cap_grant list \<Rightarrow> (string \<times> cap_scope) list" where
  "grant_scopes w gs = List.map_filter (\<lambda>i. map_option (Pair i) (map_of (rd_scopes w) i)) (remdups (map ct_scope_id gs))"

definition enforced_request :: "service_config \<Rightarrow> resolution_store \<Rightarrow> string \<Rightarrow> pipeline_request \<Rightarrow> pipeline_request" where
  "enforced_request s w tenant r =
    (if \<not> sv_enforce s then r
     else
       let gs = list_grants w tenant (pq_capability_key r);
           r = (if sv_grants s then r\<lparr>pq_grants := Some gs\<rparr> else r);
           r = (if sv_grants s \<and> sv_scopes s then r\<lparr>pq_scopes := grant_scopes w gs\<rparr> else r)
       in if sv_registry s then r\<lparr>pq_capability := get_capability w (pq_capability_key r)\<rparr> else r)"

definition service_context :: "service_request \<Rightarrow> rcontext" where
  "service_context q = (if cx_tenant (sq_context q) = [] then (sq_context q)\<lparr>cx_tenant := sq_tenant q\<rparr> else sq_context q)"

definition loaded_request :: "routing_store \<Rightarrow> instant \<Rightarrow> service_request \<Rightarrow> pipeline_request" where
  "loaded_request w now q =
    (let c = service_context q; ms = list_mappings w (sq_canonical_entity q); bs = list_bindings (rt_store w) (sq_capability_key q);
         keys = filter valid_mapping_scope_id (map mp_scope_id ms)
     in \<lparr>pq_tenant = sq_tenant q, pq_canonical_entity = sq_canonical_entity q, pq_capability_key = sq_capability_key q, pq_context = c,
         pq_candidates = ms, pq_bindings = bs, pq_instances = service_instances (rt_store w) bs, pq_grants = None, pq_scopes = [],
         pq_capability = None, pq_mapping_scopes = (if keys = [] then [] else mapping_scopes_by_key w (cx_tenant c) keys),
         pq_criticality = health_criticality w (sq_capability_key q), pq_health = binding_health (rt_store w) (sq_capability_key q) bs,
         pq_now = now\<rparr>)"

definition service_resolve ::
  "health_policy \<Rightarrow> service_config \<Rightarrow> routing_store \<Rightarrow> instant \<Rightarrow> service_request \<Rightarrow> service_error + resolution_result" where
  "service_resolve p s w now q =
    (if sq_tenant q = [] \<and> cx_tenant (sq_context q) = [] then Inl ServiceTenantRequired
     else if sq_canonical_entity q = [] then Inl ServiceEntityRequired
     else if \<not> valid_capability_key (sq_capability_key q) then Inl ServiceKeyInvalid
     else case pipeline_resolve p now (enforced_request s (rt_store w) (cx_tenant (service_context q)) (loaded_request w now q)) of
       Inl (trace, e) \<Rightarrow> Inl (ResolutionFailed trace e)
     | Inr r \<Rightarrow> Inr r)"

section \<open>What a routed decision rests on\<close>

lemma resolution_failure_Inr [simp]: "resolution_failure t e \<noteq> Inr r" "resolution_failure t e = Inl f \<longleftrightarrow> f = (t\<lparr>tr_outcome := ''FAILED''\<rparr>, e)"
  by (auto simp: resolution_failure_def)

lemmas pipeline_splits = if_splits sum.splits option.splits prod.splits

lemma request_tenant: "cx_tenant (request_context req) = (if cx_tenant (pq_context req) = [] then pq_tenant req else cx_tenant (pq_context req))"
  by (simp add: request_context_def)

text \<open>The stages of a request that was routed.\<close>

lemma pipeline_routed:
  assumes "pipeline_resolve p clock req = Inr res"
  obtains m sp g r i where "pipeline_mapping clock req (request_context req) = Inr (m, sp)" "mp_tenant_id m = cx_tenant (request_context req)"
    "pipeline_entitlement clock req (request_context req) = Inr g"
    "pipeline_binding p clock req (request_context req) (if pq_now req = 0 then clock else pq_now req) = Inr r"
    "pipeline_topology p clock req (request_context req) (if pq_now req = 0 then clock else pq_now req) r = Inr i"
    "policy_check (request_context req) ''ACTIVE'' (rs_engine_instance_id r) = None"
    "res = \<lparr>re_context = request_context req, re_mapping = (m, sp), re_capability = r, re_topology = i,
       re_trace = \<lparr>tr_correlation = cx_correlation (pq_context req), tr_tenant = cx_tenant (request_context req),
         tr_capability_key = pq_capability_key req, tr_mapping_id = mp_id m, tr_grant_id = g, tr_binding_id = rs_binding_id r,
         tr_engine_instance_id = rs_engine_instance_id r, tr_outcome = ''ROUTED''\<rparr>,
       re_health_valid_until = health_valid_until (levels_of (pq_health req) (rs_binding_id r))\<rparr>"
  using assms unfolding pipeline_resolve_def Let_def start_trace_def
  by (simp split: pipeline_splits)

lemma topology_selected:
  assumes "topology_resolve p clock q = Inr i"
  shows "i \<in> set (tq_instances q)" "ei_id i = tq_selected q" "ei_status i = ''ACTIVE''"
    "check_health p (tq_criticality q) (tq_health q) (if tq_health_at q = 0
       then (if tq_at q \<noteq> 0 then tq_at q else if cx_resolved_at (tq_context q) \<noteq> 0 then cx_resolved_at (tq_context q) else clock)
       else tq_health_at q) = None"
proof -
  define at where "at = (if tq_at q \<noteq> 0 then tq_at q else if cx_resolved_at (tq_context q) \<noteq> 0 then cx_resolved_at (tq_context q) else clock)"
  from assms have f: "find (\<lambda>i. ei_id i = tq_selected q) (tq_instances q) = Some i" and e: "instance_error p q at i = None"
    unfolding topology_resolve_def Let_def at_def by (simp_all split: pipeline_splits)
  from find_SomeD [OF f] show "i \<in> set (tq_instances q)" "ei_id i = tq_selected q" by blast+
  from e show "ei_status i = ''ACTIVE''" by (simp add: instance_error_def Let_def split: if_splits)
  from e show "check_health p (tq_criticality q) (tq_health q) (if tq_health_at q = 0
       then (if tq_at q \<noteq> 0 then tq_at q else if cx_resolved_at (tq_context q) \<noteq> 0 then cx_resolved_at (tq_context q) else clock)
       else tq_health_at q) = None"
    unfolding instance_error_def Let_def at_def [symmetric] by (simp split: if_splits option.splits prod.splits)
qed

lemma pipeline_mapping_sound:
  assumes "pipeline_mapping clock req c = Inr (m, sp)"
  shows "m \<in> set (pq_candidates req)" "mp_tenant_id m = cx_tenant c" "mp_canonical_entity_id m = pq_canonical_entity req"
    "mp_status m = ''ACTIVE''" "in_effect m (mapping_time clock c 0)"
  using resolved_mapping_best [OF assms [unfolded pipeline_mapping_def]] by (simp_all add: forward_matches_def)

lemma pipeline_entitled:
  assumes "pipeline_entitlement clock req c = Inr g" "pq_grants req = Some gs"
  shows "\<exists>x s. x \<in> set gs \<and> ct_id x = g \<and> ct_capability_key x = pq_capability_key req \<and> is_effective x clock \<and>
    map_of (pq_scopes req) (ct_scope_id x) = Some s \<and> scope_compatible c s"
proof -
  from assms have "find_entitlement (pq_capability_key req) c (pq_scopes req) clock gs = Some g"
    by (simp add: pipeline_entitlement_def entitlement_resolve_def split: pipeline_splits)
  from find_entitlement_sound [OF this] show ?thesis by blast
qed

lemma pipeline_bound:
  assumes "pipeline_binding p clock req c now = Inr r"
  shows "\<exists>b. b \<in> set (pq_bindings req) \<and> rs_binding_id r = cb_id b \<and> rs_engine_instance_id r = cb_engine_instance_id b \<and>
    cb_capability_key b = pq_capability_key req \<and> cb_status b = ''ACTIVE'' \<and> cb_mode b \<notin> {ModeShadow, ModeDisabled} \<and>
    health_accepts p (pq_criticality req) (pq_health req) now b"
proof -
  from healthy_best [OF assms [unfolded pipeline_binding_def]] obtain b :: cap_binding and sp where
    "b \<in> set (pq_bindings req)" "r = resolved_of (b, sp)" "health_accepts p (pq_criticality req) (pq_health req) now b"
    "cb_capability_key b = pq_capability_key req" "cb_status b = ''ACTIVE''" "cb_mode b \<notin> {ModeShadow, ModeDisabled}" by auto
  then show ?thesis by (intro exI [of _ b]) (simp add: resolved_of_def)
qed

lemma policy_allows:
  "policy_check c st i = None \<Longrightarrow> cx_tenant c \<noteq> [] \<and> (cx_country c \<noteq> [] \<or> cx_market c \<noteq> []) \<and> i \<noteq> []"
  by (auto simp: policy_check_def split: if_splits)

lemma routed_sound:
  assumes "pipeline_resolve p clock req = Inr res"
  defines "c \<equiv> request_context req" and "now \<equiv> if pq_now req = 0 then clock else pq_now req"
  shows "(fst (re_mapping res) \<in> set (pq_candidates req) \<and> mp_tenant_id (fst (re_mapping res)) = cx_tenant c \<and>
      mp_canonical_entity_id (fst (re_mapping res)) = pq_canonical_entity req \<and> mp_status (fst (re_mapping res)) = ''ACTIVE'' \<and>
      in_effect (fst (re_mapping res)) (mapping_time clock c 0)) \<and>
    (\<forall>gs. pq_grants req = Some gs \<longrightarrow> (\<exists>x s. x \<in> set gs \<and> ct_id x = tr_grant_id (re_trace res) \<and>
      ct_capability_key x = pq_capability_key req \<and> is_effective x clock \<and>
      map_of (pq_scopes req) (ct_scope_id x) = Some s \<and> scope_compatible c s)) \<and>
    (\<exists>b. b \<in> set (pq_bindings req) \<and> tr_binding_id (re_trace res) = cb_id b \<and> cb_capability_key b = pq_capability_key req \<and>
      cb_status b = ''ACTIVE'' \<and> cb_mode b \<notin> {ModeShadow, ModeDisabled} \<and>
      health_accepts p (pq_criticality req) (pq_health req) now b \<and> ei_id (re_topology res) = cb_engine_instance_id b) \<and>
    re_topology res \<in> set (pq_instances req) \<and> ei_status (re_topology res) = ''ACTIVE'' \<and>
    (cx_country c \<noteq> [] \<or> cx_market c \<noteq> []) \<and> tr_tenant (re_trace res) = cx_tenant c \<and> tr_outcome (re_trace res) = ''ROUTED''"
proof -
  from assms(1) obtain m sp g r i where st:
    "pipeline_mapping clock req c = Inr (m, sp)" "pipeline_entitlement clock req c = Inr g" "pipeline_binding p clock req c now = Inr r"
    "pipeline_topology p clock req c now r = Inr i" "policy_check c ''ACTIVE'' (rs_engine_instance_id r) = None"
    and res: "re_mapping res = (m, sp)" "re_topology res = i" "tr_grant_id (re_trace res) = g" "tr_binding_id (re_trace res) = rs_binding_id r"
      "tr_tenant (re_trace res) = cx_tenant c" "tr_outcome (re_trace res) = ''ROUTED''"
    unfolding c_def now_def by (rule pipeline_routed) simp
  note top = topology_selected [OF st(4) [unfolded pipeline_topology_def], simplified]
  from pipeline_bound [OF st(3)] obtain b :: cap_binding where "b \<in> set (pq_bindings req)" "rs_binding_id r = cb_id b"
    "rs_engine_instance_id r = cb_engine_instance_id b" "cb_capability_key b = pq_capability_key req" "cb_status b = ''ACTIVE''"
    "cb_mode b \<notin> {ModeShadow, ModeDisabled}" "health_accepts p (pq_criticality req) (pq_health req) now b" by blast
  with top(2) have "\<exists>b. b \<in> set (pq_bindings req) \<and> rs_binding_id r = cb_id b \<and> cb_capability_key b = pq_capability_key req \<and>
      cb_status b = ''ACTIVE'' \<and> cb_mode b \<notin> {ModeShadow, ModeDisabled} \<and>
      health_accepts p (pq_criticality req) (pq_health req) now b \<and> ei_id i = cb_engine_instance_id b"
    by (intro exI [of _ b] conjI) simp_all
  moreover have "\<forall>gs. pq_grants req = Some gs \<longrightarrow> (\<exists>x s. x \<in> set gs \<and> ct_id x = g \<and> ct_capability_key x = pq_capability_key req \<and>
      is_effective x clock \<and> map_of (pq_scopes req) (ct_scope_id x) = Some s \<and> scope_compatible c s)"
    using pipeline_entitled [OF st(2)] by blast
  ultimately show ?thesis
    unfolding res fst_conv using pipeline_mapping_sound [OF st(1)] policy_allows [OF st(5)] top(1,3) by blast
qed

text \<open>
  C27 (a routed decision rests on every stage): when the pipeline routes a request, the mapping is an active mapping of the
  request's own tenant and entity in effect at the resolution time; when grants were given, the grant of the trace is in
  force and its scope covers the context; the binding of the trace is an active binding of the capability whose
  health is accepted now; the engine instance is the active one that binding names; and the context has a market or a country.
\<close>

theorem routed_decision_sound:
  assumes "pipeline_resolve p clock req = Inr res"
  defines "c \<equiv> request_context req" and "now \<equiv> if pq_now req = 0 then clock else pq_now req"
  shows "(fst (re_mapping res) \<in> set (pq_candidates req) \<and> mp_tenant_id (fst (re_mapping res)) = cx_tenant c \<and>
      mp_canonical_entity_id (fst (re_mapping res)) = pq_canonical_entity req \<and> mp_status (fst (re_mapping res)) = ''ACTIVE'' \<and>
      in_effect (fst (re_mapping res)) (mapping_time clock c 0)) \<and>
    (\<forall>gs. pq_grants req = Some gs \<longrightarrow> (\<exists>x s. x \<in> set gs \<and> ct_id x = tr_grant_id (re_trace res) \<and>
      ct_capability_key x = pq_capability_key req \<and> is_effective x clock \<and>
      map_of (pq_scopes req) (ct_scope_id x) = Some s \<and> scope_compatible c s)) \<and>
    (\<exists>b. b \<in> set (pq_bindings req) \<and> tr_binding_id (re_trace res) = cb_id b \<and> cb_capability_key b = pq_capability_key req \<and>
      cb_status b = ''ACTIVE'' \<and> cb_mode b \<notin> {ModeShadow, ModeDisabled} \<and>
      health_accepts p (pq_criticality req) (pq_health req) now b \<and> ei_id (re_topology res) = cb_engine_instance_id b) \<and>
    re_topology res \<in> set (pq_instances req) \<and> ei_status (re_topology res) = ''ACTIVE'' \<and>
    (cx_country c \<noteq> [] \<or> cx_market c \<noteq> []) \<and> tr_tenant (re_trace res) = cx_tenant c \<and> tr_outcome (re_trace res) = ''ROUTED''"
  unfolding c_def now_def by (rule routed_sound [OF assms(1)])

section \<open>Isolation of tenants\<close>

lemma applicable_cong:
  assumes "\<And>m. m \<in> set ms \<Longrightarrow> valid_mapping_scope_id (mp_scope_id m) \<Longrightarrow> map_of g (mp_scope_id m) = map_of g' (mp_scope_id m)"
  shows "applicable c scopes g t f ms = applicable c scopes g' t f ms"
proof -
  have "mapping_specificity c scopes g t f m = mapping_specificity c scopes g' t f m" if "m \<in> set ms" for m
    using assms [OF that] by (simp add: mapping_specificity_def loaded_scope_def)
  then show ?thesis
    unfolding applicable_def List.map_filter_def by (intro map_cong filter_cong) simp_all
qed

lemma pipeline_cong:
  assumes "pipeline_mapping clock (r\<lparr>pq_candidates := ms, pq_mapping_scopes := sc\<rparr>) (request_context r) = pipeline_mapping clock r (request_context r)"
  shows "pipeline_resolve p clock (r\<lparr>pq_candidates := ms, pq_mapping_scopes := sc\<rparr>) = pipeline_resolve p clock r"
proof -
  let ?r = "r\<lparr>pq_candidates := ms, pq_mapping_scopes := sc\<rparr>"
  have e: "request_context ?r = request_context r" "start_trace ?r = start_trace r"
    "\<And>c. pipeline_entitlement clock ?r c = pipeline_entitlement clock r c"
    "\<And>c now. pipeline_binding p clock ?r c now = pipeline_binding p clock r c now"
    "\<And>c now x. pipeline_topology p clock ?r c now x = pipeline_topology p clock r c now x"
    "pq_now ?r = pq_now r" "pq_health ?r = pq_health r" "pq_tenant ?r = pq_tenant r" "pq_context ?r = pq_context r"
    "pq_canonical_entity ?r = pq_canonical_entity r" "pq_capability_key ?r = pq_capability_key r"
    by (simp_all add: request_context_def start_trace_def pipeline_entitlement_def pipeline_binding_def pipeline_topology_def
        split: option.split sum.split)
  show ?thesis unfolding pipeline_resolve_def Let_def e assms by (rule refl)
qed

lemma pipeline_mapping_cong:
  assumes "filter (\<lambda>m. mp_tenant_id m = cx_tenant c) ms = filter (\<lambda>m. mp_tenant_id m = cx_tenant c) (pq_candidates r)"
    and "\<And>m. m \<in> set (pq_candidates r) \<Longrightarrow> mp_tenant_id m = cx_tenant c \<Longrightarrow> valid_mapping_scope_id (mp_scope_id m) \<Longrightarrow>
      map_of sc (mp_scope_id m) = map_of (pq_mapping_scopes r) (mp_scope_id m)"
  shows "pipeline_mapping clock (r\<lparr>pq_candidates := ms, pq_mapping_scopes := sc\<rparr>) c = pipeline_mapping clock r c"
proof -
  let ?ms = "filter (\<lambda>m. mp_tenant_id m = cx_tenant c) (pq_candidates r)"
  have "applicable c [] sc t f ?ms = applicable c [] (pq_mapping_scopes r) t f ?ms" for t f
    by (rule applicable_cong) (auto intro: assms(2))
  with assms(1) show ?thesis by (simp add: pipeline_mapping_def mapping_resolve_def governed_by_best)
qed

lemma map_of_restricted:
  "k \<in> K \<Longrightarrow> map_of (filter (\<lambda>(k, s). k \<in> K \<and> P s) xs) k = map_of (filter (\<lambda>(k, s). P s) xs) k"
  by (induction xs) auto

lemma enforced_commutes:
  "enforced_request s w t (r\<lparr>pq_candidates := ms, pq_mapping_scopes := sc\<rparr>) =
   (enforced_request s w t r)\<lparr>pq_candidates := ms, pq_mapping_scopes := sc\<rparr>"
  by (simp add: enforced_request_def Let_def)

lemma enforced_keeps:
  "pq_candidates (enforced_request s w t r) = pq_candidates r" "pq_mapping_scopes (enforced_request s w t r) = pq_mapping_scopes r"
  "request_context (enforced_request s w t r) = request_context r"
  by (simp_all add: enforced_request_def Let_def request_context_def)

definition own_mappings :: "string \<Rightarrow> routing_store \<Rightarrow> mapping_row list" where
  "own_mappings tenant w = filter (\<lambda>m. mp_tenant_id m = tenant) (rt_mappings w)"

definition own_scopes :: "string \<Rightarrow> routing_store \<Rightarrow> (string \<times> mapping_scope) list" where
  "own_scopes tenant w = filter (\<lambda>(k, s). ms_tenant s = tenant) (rt_mapping_scopes w)"

lemma own_listed: "filter (\<lambda>m. mp_tenant_id m = t) (list_mappings w e) = (if \<not> is_uuid e then [] else filter (\<lambda>m. mp_canonical_entity_id m = e) (own_mappings t w))"
  by (simp add: list_mappings_def own_mappings_def conj_commute)

definition request_scopes :: "routing_store \<Rightarrow> string \<Rightarrow> string \<Rightarrow> (string \<times> mapping_scope) list" where
  "request_scopes w tenant entity =
    (let keys = filter valid_mapping_scope_id (map mp_scope_id (list_mappings w entity))
     in if keys = [] then [] else mapping_scopes_by_key w tenant keys)"

lemma request_scopes_own:
  assumes "m \<in> set (list_mappings w e)" "valid_mapping_scope_id (mp_scope_id m)"
  shows "map_of (request_scopes w t e) (mp_scope_id m) = map_of (own_scopes t w) (mp_scope_id m)"
proof -
  let ?keys = "filter valid_mapping_scope_id (map mp_scope_id (list_mappings w e))"
  from assms have k: "mp_scope_id m \<in> set ?keys" by simp
  have "?keys \<noteq> []" using length_pos_if_in_set [OF k] unfolding length_greater_0_conv .
  then have "request_scopes w t e = mapping_scopes_by_key w t ?keys" unfolding request_scopes_def Let_def by (rule if_not_P)
  with map_of_restricted [OF k] show ?thesis by (simp add: mapping_scopes_by_key_def own_scopes_def)
qed

lemma loaded_scopes: "pq_mapping_scopes (loaded_request w now q) = request_scopes w (cx_tenant (service_context q)) (sq_canonical_entity q)"
  "pq_candidates (loaded_request w now q) = list_mappings w (sq_canonical_entity q)"
  by (simp_all add: loaded_request_def request_scopes_def Let_def)

lemma loaded_context: "request_context (loaded_request w now q) = service_context q"
  by (simp add: loaded_request_def request_context_def service_context_def Let_def)

lemma loaded_other:
  assumes "rt_store w' = rt_store w"
  shows "loaded_request w' now q = (loaded_request w now q)
    \<lparr>pq_candidates := list_mappings w' (sq_canonical_entity q),
     pq_mapping_scopes := request_scopes w' (cx_tenant (service_context q)) (sq_canonical_entity q)\<rparr>"
  by (simp add: loaded_request_def request_scopes_def Let_def health_criticality_def assms)

lemma isolated_by_tenant:
  assumes "rt_store w' = rt_store w" and "own_mappings (cx_tenant (service_context q)) w' = own_mappings (cx_tenant (service_context q)) w"
    and "own_scopes (cx_tenant (service_context q)) w' = own_scopes (cx_tenant (service_context q)) w"
  shows "service_resolve p s w' now q = service_resolve p s w now q"
proof -
  let ?t = "cx_tenant (service_context q)" and ?e = "sq_canonical_entity q"
  define r where "r = enforced_request s (rt_store w) ?t (loaded_request w now q)"
  have rc: "request_context r = service_context q" "pq_candidates r = list_mappings w ?e" "pq_mapping_scopes r = request_scopes w ?t ?e"
    unfolding r_def enforced_keeps loaded_context loaded_scopes by (rule refl)+
  have own: "filter (\<lambda>m. mp_tenant_id m = ?t) (list_mappings w' ?e) = filter (\<lambda>m. mp_tenant_id m = ?t) (list_mappings w ?e)"
    unfolding own_listed assms(2) by (rule refl)
  have "map_of (request_scopes w' ?t ?e) (mp_scope_id m) = map_of (request_scopes w ?t ?e) (mp_scope_id m)"
    if "m \<in> set (list_mappings w ?e)" "mp_tenant_id m = ?t" "valid_mapping_scope_id (mp_scope_id m)" for m
  proof -
    from that own have "m \<in> set (list_mappings w' ?e)" by (metis (mono_tags, lifting) mem_Collect_eq set_filter)
    with that show ?thesis by (simp add: request_scopes_own assms(3))
  qed
  then have "pipeline_mapping now (r\<lparr>pq_candidates := list_mappings w' ?e, pq_mapping_scopes := request_scopes w' ?t ?e\<rparr>) (request_context r) =
      pipeline_mapping now r (request_context r)"
    by (intro pipeline_mapping_cong) (simp_all add: rc own)
  from pipeline_cong [OF this] have "pipeline_resolve p now (enforced_request s (rt_store w') ?t (loaded_request w' now q)) = pipeline_resolve p now r"
    unfolding assms(1) loaded_other [OF assms(1)] enforced_commutes r_def by blast
  then show ?thesis unfolding service_resolve_def r_def by simp
qed

text \<open>
  C28 (mappings of other tenants never influence a decision): two databases that agree on everything but the mappings and mapping
  scopes of other tenants give a request the same outcome, whatever it is.
\<close>

theorem resolution_isolated_by_tenant:
  assumes "rt_store w' = rt_store w" and "own_mappings (cx_tenant (service_context q)) w' = own_mappings (cx_tenant (service_context q)) w"
    and "own_scopes (cx_tenant (service_context q)) w' = own_scopes (cx_tenant (service_context q)) w"
  shows "service_resolve p s w' now q = service_resolve p s w now q"
  by (rule isolated_by_tenant [OF assms])

section \<open>Examples\<close>

definition ex_entity :: string where
  "ex_entity = ''00000000-0000-0000-0000-000000000001''"

definition ex_routed_binding :: "string \<Rightarrow> string \<Rightarrow> string \<Rightarrow> binding_mode \<Rightarrow> int \<Rightarrow> cap_binding" where
  "ex_routed_binding i inst scope mode priority =
    (ex_cap_binding i scope mode)\<lparr>cb_capability_key := ''k.k'', cb_engine_instance_id := inst, cb_priority := priority\<rparr>"

definition ex_routing_store :: "cap_binding list \<Rightarrow> mapping_row list \<Rightarrow> routing_store" where
  "ex_routing_store bs ms = \<lparr>rt_store = (ex_resolution_store bs [])\<lparr>
       rd_grants := map (\<lambda>g. g\<lparr>ct_capability_key := ''k.k''\<rparr>) (rd_grants (ex_resolution_store [] [])),
       rd_scopes := [(''s'', ex_cap_scope ''s'' []), (''u'', ex_cap_scope ''u'' ''m''), (''z'', (ex_cap_scope ''z'' [])\<lparr>cs_tenant := ''z''\<rparr>)],
       rd_instances := [ex_cap_instance ''n'', (ex_cap_instance ''o'')\<lparr>ei_engine_id := ''f''\<rparr>]\<rparr>,
     rt_mappings = ms, rt_mapping_scopes = []\<rparr>"

definition ex_routed_mapping :: "string \<Rightarrow> mapping_row" where
  "ex_routed_mapping tenant = (ex_mapping ''a'' ''x'' 0)\<lparr>mp_canonical_entity_id := ex_entity, mp_tenant_id := tenant\<rparr>"

definition ex_service_request :: service_request where
  "ex_service_request = \<lparr>sq_tenant = ''t'', sq_canonical_entity = ex_entity, sq_capability_key = ''k.k'', sq_context = ex_context\<rparr>"

definition ex_unenforced :: service_config where
  "ex_unenforced = \<lparr>sv_enforce = False, sv_grants = False, sv_scopes = False, sv_registry = False\<rparr>"

definition ex_enforced :: service_config where
  "ex_enforced = \<lparr>sv_enforce = True, sv_grants = True, sv_scopes = True, sv_registry = True\<rparr>"

definition ex_routed :: "service_error + resolution_result \<Rightarrow> (string \<times> string) option" where
  "ex_routed r = (case r of Inl _ \<Rightarrow> None | Inr x \<Rightarrow> Some (tr_binding_id (re_trace x), tr_grant_id (re_trace x)))"

definition ex_routed_request :: pipeline_request where
  "ex_routed_request =
    (let w = ex_routing_store [ex_routed_binding ''b'' ''n'' ''s'' ModePrimary 0] [ex_routed_mapping ''t'']
     in enforced_request ex_enforced (rt_store w) ''t'' (loaded_request w 7 ex_service_request))"

theorem routed_decision_sound_witness:
  "\<exists>res. pipeline_resolve standard_policy 7 ex_routed_request = Inr res \<and> tr_outcome (re_trace res) = ''ROUTED'' \<and> ei_status (re_topology res) = ''ACTIVE''"
proof -
  have "\<not> isl (pipeline_resolve standard_policy 7 ex_routed_request)" by code_simp
  then obtain res where r: "pipeline_resolve standard_policy 7 ex_routed_request = Inr res"
    by (cases "pipeline_resolve standard_policy 7 ex_routed_request") simp_all
  from routed_decision_sound [OF r] have "tr_outcome (re_trace res) = ''ROUTED'' \<and> ei_status (re_topology res) = ''ACTIVE''"
    by (elim conjE) (rule conjI)
  with r show ?thesis by (intro exI conjI) (assumption | erule conjunct1 conjunct2)+
qed

theorem resolution_isolated_by_tenant_witness:
  "service_resolve standard_policy ex_unenforced (ex_routing_store [ex_routed_binding ''b'' ''n'' ''s'' ModePrimary 0] [ex_routed_mapping ''z'', ex_routed_mapping ''t'']) 7
     ex_service_request =
   service_resolve standard_policy ex_unenforced (ex_routing_store [ex_routed_binding ''b'' ''n'' ''s'' ModePrimary 0] [ex_routed_mapping ''t'']) 7
     ex_service_request"
  by (rule resolution_isolated_by_tenant)
    (simp_all add: ex_routing_store_def own_mappings_def own_scopes_def service_context_def ex_service_request_def ex_context_def ex_routed_mapping_def ex_mapping_def)

text \<open>
  As the server constructs it, the service enforces no entitlement and loads no capability scopes, and the pipeline then compares
  no binding with its scope: a binding scoped to another tenant serves the request.
\<close>

lemma foreign_binding_routes:
  "\<not> sm_compatible (capability_scope_match ex_context ((ex_cap_scope ''z'' [])\<lparr>cs_tenant := ''z''\<rparr>))"
  "ex_routed (service_resolve standard_policy ex_unenforced (ex_routing_store [ex_routed_binding ''b'' ''n'' ''z'' ModePrimary 0] [ex_routed_mapping ''t'']) 7
     ex_service_request) = Some (''b'', [])"
  by code_simp+

text \<open>
  Only the instances of the engine of the first binding listed are loaded: when the binding selected runs on another engine, whose
  instance is active, the request fails, and it is routed when the binding listed first is removed.
\<close>

lemma other_engine_not_found:
  "service_resolve standard_policy ex_unenforced
     (ex_routing_store [ex_routed_binding ''a'' ''o'' ''s'' ModeMigration 9, ex_routed_binding ''b'' ''n'' ''s'' ModePrimary 0] [ex_routed_mapping ''t'']) 7
     ex_service_request =
   Inl (ResolutionFailed \<lparr>tr_correlation = ''r'', tr_tenant = ''t'', tr_capability_key = ''k.k'', tr_mapping_id = ''a'', tr_grant_id = [],
     tr_binding_id = ''b'', tr_engine_instance_id = ''n'', tr_outcome = ''FAILED''\<rparr> (TopologyFailed InstanceNotFound))"
  "ex_routed (service_resolve standard_policy ex_unenforced (ex_routing_store [ex_routed_binding ''b'' ''n'' ''s'' ModePrimary 0] [ex_routed_mapping ''t'']) 7
     ex_service_request) = Some (''b'', [])"
  by code_simp+

text \<open>
  Enforcing entitlement loads the scopes of the grants only, and the pipeline skips a binding whose scope is not among the loaded
  ones: an entitled tenant finds no binding unless the binding has the very scope of one of its grants.
\<close>

lemma enforcement_hides_bindings:
  "sm_compatible (capability_scope_match ex_context (ex_cap_scope ''u'' ''m''))"
  "service_resolve standard_policy ex_enforced (ex_routing_store [ex_routed_binding ''b'' ''n'' ''u'' ModePrimary 0] [ex_routed_mapping ''t'']) 7
     ex_service_request =
   Inl (ResolutionFailed \<lparr>tr_correlation = ''r'', tr_tenant = ''t'', tr_capability_key = ''k.k'', tr_mapping_id = ''a'', tr_grant_id = ''g'',
     tr_binding_id = [], tr_engine_instance_id = [], tr_outcome = ''FAILED''\<rparr> (BindingFailed BindingNotFound))"
  by code_simp+

end
