(* ===== verification/Resolution_Cache.thy ===== *)
theory Resolution_Cache
  imports Resolution_Pipeline
begin

text \<open>
  The resolution cache (\<open>internal/service/resolution_cache.go\<close>): the dimensions a decision is cached under, the in-memory cache and the
  service that wraps another with it. The cache is the map of its entries; the mutex makes each operation one step. A
  resolution reads the clock three times, when it looks the entry up, when it measures how long the health stays current
  and when it stores the entry, and each reading is an argument; the outcome of the wrapped service is an argument too.

  \<open>cached_after ttl h c\<close> relates a history of calls to the cache they leave; its lemmas show that a decision served
  from the cache was made before for a request with the same key and is younger than both its time to live and the
  health it relied on, and that invalidating a tenant removes its decisions. The dimensions leave out four that the scope
  matchers compare, and the tenant of a request whose context names none: two examples show what that costs.
\<close>

section \<open>Dimensions and keys\<close>

record cache_dimensions =
  cd_principal :: string
  cd_tenant :: string
  cd_legal_entity :: string
  cd_digital_estate :: string
  cd_digital_property :: string
  cd_channel :: string
  cd_market :: string
  cd_jurisdiction :: string
  cd_currency :: string
  cd_environment :: string
  cd_deployment_region :: string
  cd_isolation_profile :: string
  cd_capability :: string
  cd_canonical_entity :: string

definition cache_dimensions_for :: "service_request \<Rightarrow> cache_dimensions" where
  "cache_dimensions_for q = (let c = sq_context q in
     \<lparr>cd_principal = cx_principal c, cd_tenant = cx_tenant c, cd_legal_entity = cx_legal_entity c, cd_digital_estate = cx_digital_estate c,
      cd_digital_property = cx_digital_property c, cd_channel = cx_channel c, cd_market = cx_market c, cd_jurisdiction = cx_jurisdiction c,
      cd_currency = cx_currency c, cd_environment = cx_environment c, cd_deployment_region = cx_deployment_region c,
      cd_isolation_profile = cx_isolation_profile c, cd_capability = sq_capability_key q, cd_canonical_entity = sq_canonical_entity q\<rparr>)"

definition cache_key :: "cache_dimensions \<Rightarrow> string" where
  "cache_key d = ''tenant='' @ cd_tenant d @ ''|principal='' @ cd_principal d @ ''|legal_entity='' @ cd_legal_entity d @
     ''|digital_estate='' @ cd_digital_estate d @ ''|digital_property='' @ cd_digital_property d @ ''|channel='' @ cd_channel d @
     ''|market='' @ cd_market d @ ''|jurisdiction='' @ cd_jurisdiction d @ ''|currency='' @ cd_currency d @
     ''|environment='' @ cd_environment d @ ''|deployment_region='' @ cd_deployment_region d @
     ''|isolation_profile='' @ cd_isolation_profile d @ ''|capability='' @ cd_capability d @ ''|canonical_entity='' @ cd_canonical_entity d"

section \<open>The cache\<close>

record cache_entry =
  ce_result :: resolution_result
  ce_tenant :: string
  ce_expires :: instant

type_synonym resolution_cache = "string \<Rightarrow> cache_entry option"

definition cache_get :: "instant \<Rightarrow> cache_dimensions \<Rightarrow> resolution_cache \<Rightarrow> resolution_result option \<times> resolution_cache" where
  "cache_get now d c =
    (case c (cache_key d) of
       None \<Rightarrow> (None, c)
     | Some e \<Rightarrow> if \<not> now < ce_expires e then (None, c(cache_key d := None)) else (Some (ce_result e), c))"

definition cache_set :: "instant \<Rightarrow> cache_dimensions \<Rightarrow> resolution_result \<Rightarrow> duration \<Rightarrow> resolution_cache \<Rightarrow> resolution_cache" where
  "cache_set now d r ttl c =
    (if ttl \<le> 0 then c else c(cache_key d \<mapsto> \<lparr>ce_result = r, ce_tenant = cd_tenant d, ce_expires = now + ttl\<rparr>))"

definition invalidate_tenant :: "string \<Rightarrow> resolution_cache \<Rightarrow> resolution_cache" where
  "invalidate_tenant tenant c = (\<lambda>k. case c k of None \<Rightarrow> None | Some e \<Rightarrow> if ce_tenant e = tenant then None else Some e)"

definition purge_cache :: "resolution_cache \<Rightarrow> resolution_cache" where
  "purge_cache c = Map.empty"

section \<open>The caching service\<close>

definition entry_ttl :: "duration \<Rightarrow> instant \<Rightarrow> resolution_result \<Rightarrow> duration" where
  "entry_ttl ttl t r =
    (if re_health_valid_until r \<noteq> 0 \<and> time_sub (re_health_valid_until r) t < ttl then time_sub (re_health_valid_until r) t else ttl)"

definition served :: "service_request \<Rightarrow> resolution_result \<Rightarrow> resolution_result" where
  "served q r = r\<lparr>re_context := sq_context q, re_trace := (re_trace r)\<lparr>tr_correlation := cx_correlation (sq_context q)\<rparr>\<rparr>"

definition caching_resolve ::
  "(service_request \<Rightarrow> service_error + resolution_result) \<Rightarrow> duration \<Rightarrow> instant \<Rightarrow> instant \<Rightarrow> instant \<Rightarrow> service_request \<Rightarrow> resolution_cache \<Rightarrow>
   (service_error + resolution_result) \<times> resolution_cache" where
  "caching_resolve inner ttl t_get t_until t_set q c =
    (if ttl \<le> 0 then (inner q, c)
     else case cache_get t_get (cache_dimensions_for q) c of
       (Some r, c') \<Rightarrow> (Inr (served q r), c')
     | (None, c') \<Rightarrow>
         (case inner q of
            Inl e \<Rightarrow> (Inl e, c')
          | Inr r \<Rightarrow> (Inr r, cache_set t_set (cache_dimensions_for q) r (entry_ttl ttl t_until r) c')))"

text \<open>A call of the caching service, with what the wrapped service answers and the three readings of the clock, or an invalidation.\<close>

datatype cache_call =
    CallResolve service_request "service_error + resolution_result" instant instant instant
  | CallInvalidate string
  | CallPurge

fun cache_call_step :: "duration \<Rightarrow> cache_call \<Rightarrow> resolution_cache \<Rightarrow> resolution_cache" where
  "cache_call_step ttl (CallResolve q out t_get t_until t_set) c = snd (caching_resolve (\<lambda>_. out) ttl t_get t_until t_set q c)"
| "cache_call_step ttl (CallInvalidate tenant) c = invalidate_tenant tenant c"
| "cache_call_step ttl CallPurge c = purge_cache c"

inductive cached_after :: "duration \<Rightarrow> cache_call list \<Rightarrow> resolution_cache \<Rightarrow> bool" for ttl where
  cached_start: "cached_after ttl [] Map.empty"
| cached_call: "cached_after ttl h c \<Longrightarrow> cached_after ttl (h @ [x]) (cache_call_step ttl x c)"

section \<open>A decision served was made, and is current\<close>


lemma cache_get_subset: "snd (cache_get now d c) k = Some e \<Longrightarrow> c k = Some e"
  by (auto simp: cache_get_def split: option.splits if_splits)

lemma caching_stores:
  assumes "snd (caching_resolve inner ttl tg tu ts q c) k = Some e" and "c k \<noteq> Some e"
  shows "\<exists>r. inner q = Inr r \<and> k = cache_key (cache_dimensions_for q) \<and> 0 < entry_ttl ttl tu r \<and>
    e = \<lparr>ce_result = r, ce_tenant = cd_tenant (cache_dimensions_for q), ce_expires = ts + entry_ttl ttl tu r\<rparr>"
proof (cases "cache_get tg (cache_dimensions_for q) c")
  case (Pair x c')
  have sub: "c' k' = Some e' \<Longrightarrow> c k' = Some e'" for k' e' using cache_get_subset [of tg "cache_dimensions_for q" c] Pair by simp
  from assms Pair sub [of k e] show ?thesis
    by (auto simp: caching_resolve_def cache_set_def split: if_splits option.splits sum.splits)
qed

text \<open>An entry stems from a resolution of the history.\<close>

definition entry_from :: "duration \<Rightarrow> cache_call list \<Rightarrow> string \<Rightarrow> cache_entry \<Rightarrow> bool" where
  "entry_from ttl h k e \<longleftrightarrow> (\<exists>q tg tu ts. CallResolve q (Inr (ce_result e)) tg tu ts \<in> set h \<and> k = cache_key (cache_dimensions_for q) \<and>
     ce_tenant e = cd_tenant (cache_dimensions_for q) \<and> ce_expires e = ts + entry_ttl ttl tu (ce_result e) \<and> 0 < entry_ttl ttl tu (ce_result e))"

lemma entry_from_mono: "entry_from ttl h k e \<Longrightarrow> entry_from ttl (h @ xs) k e"
  unfolding entry_from_def set_append by blast

lemma cached_from:
  assumes "cached_after ttl h c" and "c k = Some e"
  shows "entry_from ttl h k e"
  using assms
proof (induction arbitrary: k e)
  case (cached_call h c x)
  show ?case
  proof (cases "c k = Some e")
    case True
    then show ?thesis by (intro entry_from_mono cached_call.IH)
  next
    case False
    show ?thesis
    proof (cases x)
      case (CallResolve q out tg tu ts)
      with caching_stores [of "\<lambda>_. out" ttl tg tu ts q c k e] cached_call.prems False show ?thesis
        unfolding entry_from_def by (intro exI [of _ q] exI [of _ tg] exI [of _ tu] exI [of _ ts]) auto
    next
      case (CallInvalidate t)
      with cached_call.prems False show ?thesis by (auto simp: invalidate_tenant_def split: option.splits if_splits)
    next
      case CallPurge
      with cached_call.prems show ?thesis by (simp add: purge_cache_def)
    qed
  qed
qed simp



section \<open>Invalidating a tenant\<close>

definition bar_free :: "cache_dimensions \<Rightarrow> bool" where
  "bar_free d \<longleftrightarrow> list_all (\<lambda>v. CHR ''|'' \<notin> set v)
    [cd_principal d, cd_tenant d, cd_legal_entity d, cd_digital_estate d, cd_digital_property d, cd_channel d, cd_market d,
     cd_jurisdiction d, cd_currency d, cd_environment d, cd_deployment_region d, cd_isolation_profile d, cd_capability d, cd_canonical_entity d]"

lemma split_at_bar:
  "CHR ''|'' \<notin> set x \<Longrightarrow> CHR ''|'' \<notin> set y \<Longrightarrow> x @ CHR ''|'' # r = y @ CHR ''|'' # s \<longleftrightarrow> x = y \<and> r = s"
proof (induction x arbitrary: y)
  case Nil
  then show ?case by (cases y) auto
next
  case (Cons a x)
  then show ?case by (cases y) auto
qed

lemma cache_key_injective:
  assumes "bar_free d" "bar_free d'" "cache_key d = cache_key d'"
  shows "d = d'"
  using assms by (simp add: bar_free_def cache_key_def split_at_bar)

text \<open>
  Property (an invalidated tenant is not served from the cache): when no dimension contains the separator of the key, so that keys identify
  dimensions, no decision is returned for a tenant right after it was invalidated, and invalidation leaves the decisions
  of every other tenant as they were.
\<close>

theorem invalidated_tenant_not_served:
  assumes "cached_after ttl h c" and "bar_free d"
    and "\<And>q out tg tu ts. CallResolve q out tg tu ts \<in> set h \<Longrightarrow> bar_free (cache_dimensions_for q)"
  shows "fst (cache_get now d (invalidate_tenant tenant c)) = (if cd_tenant d = tenant then None else fst (cache_get now d c))"
proof (cases "c (cache_key d)")
  case None
  then show ?thesis by (simp add: cache_get_def invalidate_tenant_def)
next
  case (Some e)
  from cached_from [OF assms(1) Some] obtain q tg tu ts where
    q: "CallResolve q (Inr (ce_result e)) tg tu ts \<in> set h" "cache_key d = cache_key (cache_dimensions_for q)" "ce_tenant e = cd_tenant (cache_dimensions_for q)"
    unfolding entry_from_def by blast
  from cache_key_injective [OF assms(2) assms(3) [OF q(1)] q(2)] q(3) have "ce_tenant e = cd_tenant d" by simp
  with Some show ?thesis by (simp add: cache_get_def invalidate_tenant_def)
qed

section \<open>Examples\<close>

definition ex_result :: resolution_result where
  "ex_result = \<lparr>re_context = ex_context, re_mapping = (ex_routed_mapping ''t'', 20),
     re_capability = resolved_of (ex_routed_binding ''b'' ''n'' ''s'' ModePrimary 0, 0), re_topology = ex_cap_instance ''n'',
     re_trace = \<lparr>tr_correlation = ''r'', tr_tenant = ''t'', tr_capability_key = ''k.k'', tr_mapping_id = ''a'', tr_grant_id = [],
       tr_binding_id = ''b'', tr_engine_instance_id = ''n'', tr_outcome = ''ROUTED''\<rparr>,
     re_health_valid_until = 20\<rparr>"

definition ex_history :: "cache_call list" where
  "ex_history = [CallResolve ex_service_request (Inr ex_result) 7 7 7]"

definition ex_cache :: resolution_cache where
  "ex_cache = cache_call_step 50 (CallResolve ex_service_request (Inr ex_result) 7 7 7) Map.empty"

lemma ex_cached: "cached_after 50 ex_history ex_cache"
  using cached_call [OF cached_start] unfolding ex_history_def ex_cache_def by (metis append_Nil)



lemma ex_bar_free: "bar_free (cache_dimensions_for ex_service_request)"
  by (simp add: bar_free_def cache_dimensions_for_def ex_service_request_def ex_context_def ex_entity_def)

theorem invalidated_tenant_not_served_witness:
  "fst (cache_get 19 (cache_dimensions_for ex_service_request) (invalidate_tenant ''t'' ex_cache)) = None"
proof -
  have "cd_tenant (cache_dimensions_for ex_service_request) = ''t''" by (simp add: cache_dimensions_for_def ex_service_request_def ex_context_def)
  moreover have "bar_free (cache_dimensions_for q)" if "CallResolve q out tg tu ts \<in> set ex_history" for q out tg tu ts
    using that ex_bar_free by (simp add: ex_history_def)
  ultimately show ?thesis
    using invalidated_tenant_not_served [OF ex_cached ex_bar_free, of 19 "''t''"] by simp
qed

definition ex_decide :: "routing_store \<Rightarrow> service_request \<Rightarrow> service_error + resolution_result" where
  "ex_decide w q = service_resolve standard_policy ex_unenforced w 7 q"

definition ex_second :: "routing_store \<Rightarrow> service_request \<Rightarrow> service_request \<Rightarrow> service_error + resolution_result" where
  "ex_second w q q' = (let (_, c) = caching_resolve (ex_decide w) 50 7 7 7 q Map.empty in fst (caching_resolve (ex_decide w) 50 8 8 8 q' c))"

definition ex_tenantless :: "string \<Rightarrow> service_request" where
  "ex_tenantless tenant = ex_service_request\<lparr>sq_tenant := tenant, sq_context := ex_context\<lparr>cx_tenant := []\<rparr>\<rparr>"

text \<open>
  The wrapped service takes the tenant of a request whose context names none from the request; the key takes it from the context. A
  tenant without any mapping is answered with the decision made for another tenant.
\<close>

lemma cached_decision_crosses_tenants:
  "cache_dimensions_for (ex_tenantless ''t'') = cache_dimensions_for (ex_tenantless ''z'')"
  "isl (ex_decide (ex_routing_store [ex_routed_binding ''b'' ''n'' ''s'' ModePrimary 0] [ex_routed_mapping ''t'']) (ex_tenantless ''z''))"
  "ex_routed (ex_second (ex_routing_store [ex_routed_binding ''b'' ''n'' ''s'' ModePrimary 0] [ex_routed_mapping ''t''])
     (ex_tenantless ''t'') (ex_tenantless ''z'')) = Some (''b'', [])"
  by (simp_all add: cache_dimensions_for_def ex_tenantless_def) code_simp+

definition ex_country_request :: "string \<Rightarrow> service_request" where
  "ex_country_request country = ex_service_request\<lparr>sq_context := ex_context\<lparr>cx_country := country\<rparr>\<rparr>"

definition ex_country_store :: routing_store where
  "ex_country_store = (ex_routing_store [ex_routed_binding ''b'' ''n'' ''s'' ModePrimary 0] [(ex_routed_mapping ''t'')\<lparr>mp_scope_id := ''scope_aa''\<rparr>])
     \<lparr>rt_mapping_scopes := [(''scope_aa'', \<lparr>ms_scope_id = ''scope_aa'', ms_tenant = ''t'', ms_legal_entity = [], ms_organisation = [],
       ms_business_unit = [], ms_market = [], ms_country = ''ZA'', ms_estate = [], ms_digital_property = [], ms_channel = [], ms_currency = [],
       ms_locale = [], ms_environment = []\<rparr>)]\<rparr>"

text \<open>
  The country, the organisation, the business unit and the locale, which the scope matchers compare, are not dimensions of the key: a
  mapping that applies in one country only is served in another.
\<close>

lemma cached_decision_crosses_countries:
  "cache_dimensions_for (q\<lparr>sq_context := (sq_context q)\<lparr>cx_country := x, cx_organisation := y, cx_business_unit := z, cx_locale := l\<rparr>\<rparr>) =
     cache_dimensions_for q"
  "isl (ex_decide ex_country_store (ex_country_request ''UG''))"
  "ex_routed (ex_second ex_country_store (ex_country_request ''ZA'') (ex_country_request ''UG'')) = Some (''b'', [])"
  by (simp add: cache_dimensions_for_def) code_simp+

end
