(* ===== verification/Mapping_Admin.thy ===== *)
theory Mapping_Admin
  imports Mapping_Resolver Release_Store
begin

text \<open>
  Administration of external references and mappings (\<open>internal/repository/postgres_mapping_admin.go\<close>) over the tables of migrations
  000059 and 000061: proposing a mapping with its idempotency key, changing a draft, the lifecycle commands with their four-eyes
  rule, the reverse lookup of a native object and the candidates of contextual resolution.

  The tables are the record \<open>mapping_tables\<close>; an empty string is NULL, and a Postgres timestamp keeps microseconds. A CHECK constraint, a
  unique index and the exclusion constraint are the predicates \<open>mapping_checks_ok\<close>, \<open>key_taken\<close> and \<open>overlapping_active\<close> that an
  insert or update consults. A command is one transaction; only the idempotency lookup of a proposal happens before its
  transaction, so the rows it saw are an argument of their own. A failing connection is not modelled.

  \<open>mapping_reachable\<close> are the tables the commands leave, in any order and by any actors. The lemmas show that an active mapping
  was validated and approved by someone other than its proposer, that its content is what was validated, that no relationship is
  active twice at once, that a retired mapping still resolves for the time before, and that the period a mapping is
  resolved in is the period stored.
\<close>

section \<open>Tables\<close>

record mapping_record =
  mt_id :: string
  mt_tenant :: string
  mt_legal_entity :: string
  mt_type :: string
  mt_entity :: string
  mt_reference :: string
  mt_target :: string
  mt_scope :: string
  mt_direction :: string
  mt_cardinality :: string
  mt_authority :: string
  mt_confidence :: string
  mt_priority :: "int option"
  mt_status :: string
  mt_from :: instant
  mt_to :: "instant option"
  mt_supersedes :: string
  mt_revision :: int
  mt_created_at :: instant
  mt_created_by :: string
  mt_validated_at :: "instant option"
  mt_validated_by :: string
  mt_approved_at :: "instant option"
  mt_approved_by :: string
  mt_retired_at :: "instant option"
  mt_retired_by :: string
  mt_retirement_reason :: string
  mt_idempotency_key :: string
  mt_request_hash :: string

record external_reference =
  xr_id :: string
  xr_system_namespace :: string
  xr_engine_id :: string
  xr_engine_instance_id :: string
  xr_environment :: string
  xr_native_entity_type :: string
  xr_native_id :: string
  xr_native_key :: string
  xr_native_uri :: string
  xr_source_authority :: string
  xr_fingerprint :: string
  xr_status :: string
  xr_first_seen_at :: instant

record native_identity =
  ni_system_namespace :: string
  ni_engine_id :: string
  ni_engine_instance_id :: string
  ni_environment :: string
  ni_native_entity_type :: string
  ni_native_id :: string

record organisation_membership =
  om_tenant :: string
  om_organisation :: string
  om_status :: string
  om_from :: instant
  om_to :: "instant option"

record mapping_audit =
  mu_action :: string
  mu_target :: string
  mu_actor :: string
  mu_revision :: int

record mapping_tables =
  md_rows :: "mapping_record list"
  md_references :: "external_reference list"
  md_entities :: "(string \<times> string option) list"
  md_memberships :: "organisation_membership list"
  md_scopes :: "(string \<times> mapping_scope) list"
  md_instance_keys :: "string list"
  md_audit :: "mapping_audit list"

datatype mapping_admin_error =
    MaInvalidActor | MaIdempotencyMissing | MaIdempotencyReused | MaTimestamp | MaNotFound | MaSubjectNotFound | MaCrossTenant | MaRejected
  | MaRevisionMismatch | MaNotDraft | MaInvalidPeriod | MaLifecycleConflict | MaSelfApproval | MaSuccessorMismatch | MaOverlap
  | MaAmbiguous | MaReferenceExists | MaInstanceNotFound

definition micro :: "instant \<Rightarrow> instant" where
  "micro t = t div 1000 * 1000"

section \<open>External references\<close>

definition same_native_identity :: "external_reference \<Rightarrow> external_reference \<Rightarrow> bool" where
  "same_native_identity x y \<longleftrightarrow> xr_system_namespace x = xr_system_namespace y \<and> xr_engine_id x = xr_engine_id y \<and>
    xr_engine_instance_id x = xr_engine_instance_id y \<and> xr_environment x = xr_environment y \<and>
    xr_native_entity_type x = xr_native_entity_type y \<and> xr_native_id x = xr_native_id y"

definition reference_checks_ok :: "external_reference \<Rightarrow> bool" where
  "reference_checks_ok x \<longleftrightarrow> valid_external_reference_id (xr_id x) \<and>
    key_segments (split_at (CHR ''_'') (xr_system_namespace x)) \<and> length (xr_system_namespace x) \<le> 128 \<and>
    key_segments (split_at (CHR ''-'') (xr_engine_id x)) \<and> length_between 3 63 (xr_engine_id x) \<and>
    key_segments (split_at (CHR ''_'') (xr_native_entity_type x)) \<and> length (xr_native_entity_type x) \<le> 128 \<and>
    length (xr_native_key x) \<le> 256 \<and> length (xr_native_uri x) \<le> 2048 \<and> length (xr_fingerprint x) \<le> 128 \<and> xr_environment x \<in> {[], ''local'', ''development'', ''staging'', ''production''} \<and>
    length_between 1 256 (xr_native_id x) \<and> xr_source_authority x \<in> {''engine'', ''external-sync'', ''manual-import'', ''reconciliation''} \<and>
    xr_status x \<in> {''active'', ''unverified'', ''suspect'', ''orphan'', ''archived''}"

definition create_external_reference ::
  "actor \<Rightarrow> instant \<Rightarrow> external_reference \<Rightarrow> mapping_tables \<Rightarrow> mapping_admin_error + external_reference \<times> mapping_tables" where
  "create_external_reference a now x w =
    (if \<not> validate_actor a then Inl MaInvalidActor
     else let x = x\<lparr>xr_first_seen_at := micro now\<rparr> in
       if \<not> reference_checks_ok x then Inl MaRejected
       else if list_ex (\<lambda>y. xr_id y = xr_id x \<or> same_native_identity y x) (md_references w) then Inl MaReferenceExists
       else if xr_engine_instance_id x \<noteq> [] \<and> xr_engine_instance_id x \<notin> set (md_instance_keys w) then Inl MaInstanceNotFound
       else Inr (x, w\<lparr>md_references := md_references w @ [x],
         md_audit := md_audit w @ [\<lparr>mu_action = ''external_reference.recorded'', mu_target = xr_id x, mu_actor = ac_actor_id a, mu_revision = 0\<rparr>]\<rparr>))"

definition get_external_reference :: "string \<Rightarrow> mapping_tables \<Rightarrow> external_reference option" where
  "get_external_reference i w = find (\<lambda>x. xr_id x = i) (md_references w)"

definition find_external_reference :: "native_identity \<Rightarrow> mapping_tables \<Rightarrow> external_reference option" where
  "find_external_reference n w =
    find (\<lambda>x. xr_system_namespace x = ni_system_namespace n \<and> xr_engine_id x = ni_engine_id n \<and>
      xr_engine_instance_id x = ni_engine_instance_id n \<and> xr_environment x = ni_environment n \<and>
      xr_native_entity_type x = ni_native_entity_type n \<and> xr_native_id x = ni_native_id n) (md_references w)"

section \<open>What a mapping names\<close>

definition entity_in_tenant :: "instant \<Rightarrow> string \<Rightarrow> string \<Rightarrow> mapping_tables \<Rightarrow> mapping_admin_error + bool" where
  "entity_in_tenant now entity tenant w =
    (if \<not> is_uuid entity then Inl MaSubjectNotFound
     else case map_of (md_entities w) entity of
       None \<Rightarrow> Inl MaSubjectNotFound
     | Some owner \<Rightarrow>
         Inr (owner = Some tenant \<or>
           list_ex (\<lambda>o'. om_tenant o' = tenant \<and> om_organisation o' = entity \<and> om_status o' = ''ACTIVE'' \<and>
             period_covers (om_from o') (om_to o') now) (md_memberships w)))"

fun check_entities :: "instant \<Rightarrow> string \<Rightarrow> string list \<Rightarrow> mapping_tables \<Rightarrow> mapping_admin_error option" where
  "check_entities now tenant [] w = None"
| "check_entities now tenant (e # es) w =
    (if e = [] then check_entities now tenant es w
     else case entity_in_tenant now e tenant w of
       Inl err \<Rightarrow> Some err
     | Inr ok \<Rightarrow> if \<not> ok then Some MaCrossTenant else check_entities now tenant es w)"

definition check_scope :: "string \<Rightarrow> string \<Rightarrow> mapping_tables \<Rightarrow> mapping_admin_error option" where
  "check_scope scope tenant w =
    (if scope = [] then None
     else case map_of (md_scopes w) scope of
       None \<Rightarrow> Some MaSubjectNotFound
     | Some s \<Rightarrow> if ms_tenant s = [] \<or> ms_tenant s \<noteq> tenant then Some MaCrossTenant else None)"

definition mapping_by_id :: "string \<Rightarrow> mapping_tables \<Rightarrow> mapping_record option" where
  "mapping_by_id i w = find (\<lambda>r. mt_id r = i) (md_rows w)"

definition check_mapping_in_tenant :: "string \<Rightarrow> string \<Rightarrow> mapping_tables \<Rightarrow> mapping_admin_error option" where
  "check_mapping_in_tenant i tenant w =
    (case mapping_by_id i w of
       None \<Rightarrow> Some MaSubjectNotFound
     | Some r \<Rightarrow> if mt_tenant r \<noteq> tenant then Some MaCrossTenant else None)"

definition check_mapping_subjects :: "instant \<Rightarrow> mapping_row \<Rightarrow> mapping_tables \<Rightarrow> mapping_admin_error option" where
  "check_mapping_subjects now m w =
    (case check_entities now (mp_tenant_id m) [mp_canonical_entity_id m, mp_target_canonical_entity_id m] w of
       Some e \<Rightarrow> Some e
     | None \<Rightarrow>
         if mp_external_reference_id m \<noteq> [] \<and> get_external_reference (mp_external_reference_id m) w = None then Some MaSubjectNotFound
         else case check_scope (mp_scope_id m) (mp_tenant_id m) w of
           Some e \<Rightarrow> Some e
         | None \<Rightarrow>
             if mp_supersedes_mapping_id m \<noteq> [] then check_mapping_in_tenant (mp_supersedes_mapping_id m) (mp_tenant_id m) w else None)"

section \<open>Constraints\<close>

definition mapping_types :: "string list" where
  "mapping_types = [''IDENTITY'', ''REPRESENTATION'', ''ORGANISATIONAL'', ''CONTENT'', ''COMMERCE'', ''ERP'', ''CATALOGUE'', ''PRICING'', ''TAX'',
     ''WAREHOUSE'', ''FULFILMENT'', ''PAYMENT'', ''DOMAIN'', ''LOCALE'', ''CURRENCY'', ''CHANNEL'', ''CAPABILITY'', ''INTEGRATION'', ''MIGRATION'',
     ''ALIAS'', ''SUCCESSOR'']"

definition mapping_statuses :: "string list" where
  "mapping_statuses = [''DRAFT'', ''VALIDATED'', ''ACTIVE'', ''DEPRECATED'', ''SUSPENDED'', ''MIGRATING'', ''QUARANTINED'', ''RETIRED'']"

definition mapping_checks_ok :: "mapping_record \<Rightarrow> bool" where
  "mapping_checks_ok r \<longleftrightarrow> valid_mapping_id (mt_id r) \<and> mt_type r \<in> set mapping_types \<and> is_valid_mapping_direction (mt_direction r) \<and>
    is_valid_cardinality (mt_cardinality r) \<and>
    mt_authority r \<in> {''control-plane'', ''organisation'', ''trade'', ''erp'', ''content'', ''identity'', ''external''} \<and>
    (mt_confidence r = [] \<or> is_valid_confidence (mt_confidence r)) \<and>
    (case mt_priority r of None \<Rightarrow> True | Some n \<Rightarrow> 0 \<le> n \<and> n \<le> 1000) \<and> mt_status r \<in> set mapping_statuses \<and> 1 \<le> mt_revision r \<and>
    (mt_reference r = []) \<noteq> (mt_target r = []) \<and> (mt_target r = [] \<or> mt_target r \<noteq> mt_entity r) \<and>
    (case mt_to r of None \<Rightarrow> True | Some t \<Rightarrow> mt_from r < t) \<and> (mt_approved_by r = [] \<or> mt_approved_by r \<noteq> mt_created_by r) \<and>
    (mt_idempotency_key r = []) = (mt_request_hash r = [])"

definition key_taken :: "string \<Rightarrow> string \<Rightarrow> mapping_tables \<Rightarrow> bool" where
  "key_taken creator key w \<longleftrightarrow> key \<noteq> [] \<and> list_ex (\<lambda>r. mt_created_by r = creator \<and> mt_idempotency_key r = key) (md_rows w)"

definition before_end :: "instant \<Rightarrow> instant option \<Rightarrow> bool" where
  "before_end t e = (case e of None \<Rightarrow> True | Some x \<Rightarrow> t < x)"

definition same_relationship :: "mapping_record \<Rightarrow> mapping_record \<Rightarrow> bool" where
  "same_relationship r s \<longleftrightarrow> mt_tenant r = mt_tenant s \<and> mt_entity r = mt_entity s \<and>
    (if mt_reference r \<noteq> [] then mt_reference r else mt_target r) = (if mt_reference s \<noteq> [] then mt_reference s else mt_target s) \<and>
    mt_type r = mt_type s \<and> mt_scope r = mt_scope s"

definition overlapping_active :: "mapping_record \<Rightarrow> mapping_record \<Rightarrow> bool" where
  "overlapping_active r s \<longleftrightarrow> mt_status r = ''ACTIVE'' \<and> mt_status s = ''ACTIVE'' \<and> same_relationship r s \<and>
    before_end (mt_from r) (mt_to s) \<and> before_end (mt_from s) (mt_to r)"

section \<open>Commands\<close>

definition record_mapping_change :: "actor \<Rightarrow> mapping_record \<Rightarrow> string \<Rightarrow> mapping_tables \<Rightarrow> mapping_tables" where
  "record_mapping_change a r action w = w\<lparr>md_audit := md_audit w @
     [\<lparr>mu_action = action, mu_target = mt_id r, mu_actor = ac_actor_id a, mu_revision = mt_revision r\<rparr>]\<rparr>"

text \<open>The mapping the proposer created with the key: \<open>Inl MaNotFound\<close> when there is none.\<close>

definition mapping_by_idempotency_key :: "string \<Rightarrow> string \<Rightarrow> string \<Rightarrow> mapping_tables \<Rightarrow> mapping_admin_error + mapping_record" where
  "mapping_by_idempotency_key proposer key request_hash w =
    (case find (\<lambda>r. mt_created_by r = proposer \<and> mt_idempotency_key r = key) (md_rows w) of
       None \<Rightarrow> Inl MaNotFound
     | Some r \<Rightarrow> if mt_request_hash r \<noteq> request_hash then Inl MaIdempotencyReused else Inr r)"

definition proposed_row :: "actor \<Rightarrow> instant \<Rightarrow> mapping_row \<Rightarrow> string \<Rightarrow> string \<Rightarrow> instant \<Rightarrow> instant option \<Rightarrow> mapping_record" where
  "proposed_row a now m key request_hash from to = \<lparr>mt_id = mp_id m, mt_tenant = mp_tenant_id m, mt_legal_entity = mp_legal_entity_id m,
     mt_type = mp_mapping_type m, mt_entity = mp_canonical_entity_id m, mt_reference = mp_external_reference_id m,
     mt_target = mp_target_canonical_entity_id m, mt_scope = mp_scope_id m, mt_direction = mp_direction m, mt_cardinality = mp_cardinality m,
     mt_authority = mp_authority m, mt_confidence = mp_confidence m,
     mt_priority = (if mp_resolution_priority m \<noteq> 0 then Some (mp_resolution_priority m) else None), mt_status = ''DRAFT'',
     mt_from = micro from, mt_to = map_option micro to, mt_supersedes = mp_supersedes_mapping_id m, mt_revision = 1,
     mt_created_at = micro now, mt_created_by = ac_actor_id a, mt_validated_at = None, mt_validated_by = [], mt_approved_at = None,
     mt_approved_by = [], mt_retired_at = None, mt_retired_by = [], mt_retirement_reason = [], mt_idempotency_key = key,
     mt_request_hash = request_hash\<rparr>"

text \<open>
  \<open>seen\<close> are the rows the lookup before the transaction read. The result says whether the mapping existed before; a concurrent
  proposal that took the key in between makes the insert fail, and the proposal converges on that one.
\<close>

definition insert_proposed ::
  "actor \<Rightarrow> instant \<Rightarrow> mapping_row \<Rightarrow> mapping_record \<Rightarrow> mapping_tables \<Rightarrow> mapping_admin_error + (mapping_record \<times> bool) \<times> mapping_tables" where
  "insert_proposed a now m row w =
    (case check_mapping_subjects now m w of
       Some e \<Rightarrow> Inl e
     | None \<Rightarrow>
         if \<not> mapping_checks_ok row then Inl MaRejected
         else if mapping_by_id (mt_id row) w \<noteq> None then Inl MaRejected
         else if key_taken (mt_created_by row) (mt_idempotency_key row) w then
           (case mapping_by_idempotency_key (mt_created_by row) (mt_idempotency_key row) (mt_request_hash row) w of
              Inl e \<Rightarrow> Inl e
            | Inr r \<Rightarrow> Inr ((r, True), w))
         else Inr ((row, False), record_mapping_change a row ''mapping.proposed'' (w\<lparr>md_rows := md_rows w @ [row]\<rparr>)))"

definition propose_mapping ::
  "actor \<Rightarrow> instant \<Rightarrow> mapping_row \<Rightarrow> string \<Rightarrow> string \<Rightarrow> mapping_tables \<Rightarrow> mapping_tables \<Rightarrow>
   mapping_admin_error + (mapping_record \<times> bool) \<times> mapping_tables" where
  "propose_mapping a now m key request_hash seen w =
    (if \<not> validate_actor a then Inl MaInvalidActor
     else if key = [] \<or> request_hash = [] then Inl MaIdempotencyMissing
     else case mapping_by_idempotency_key (ac_actor_id a) key request_hash seen of
       Inr r \<Rightarrow> Inr ((r, True), w)
     | Inl MaNotFound \<Rightarrow>
         (case parse_rfc3339 (mp_effective_from m) of
            None \<Rightarrow> Inl MaTimestamp
          | Some from \<Rightarrow>
              if mp_effective_to m = [] then insert_proposed a now m (proposed_row a now m key request_hash from None) w
              else case parse_rfc3339 (mp_effective_to m) of
                None \<Rightarrow> Inl MaTimestamp
              | Some to \<Rightarrow> insert_proposed a now m (proposed_row a now m key request_hash from (Some to)) w)
     | Inl e \<Rightarrow> Inl e)"

definition lock_mapping :: "string \<Rightarrow> int \<Rightarrow> mapping_tables \<Rightarrow> mapping_admin_error + mapping_record" where
  "lock_mapping i expected w =
    (case mapping_by_id i w of
       None \<Rightarrow> Inl MaNotFound
     | Some r \<Rightarrow> if mt_revision r \<noteq> expected then Inl MaRevisionMismatch else Inr r)"

definition replace_mapping :: "mapping_record \<Rightarrow> mapping_tables \<Rightarrow> mapping_tables" where
  "replace_mapping r w = w\<lparr>md_rows := map (\<lambda>s. if mt_id s = mt_id r then r else s) (md_rows w)\<rparr>"

record mapping_change =
  mn_scope :: "string option"
  mn_direction :: "string option"
  mn_cardinality :: "string option"
  mn_confidence :: "string option"
  mn_priority :: "int option"
  mn_from :: "instant option"
  mn_to :: "instant option"

definition coalesce :: "'a option \<Rightarrow> 'a \<Rightarrow> 'a" where
  "coalesce x y = (case x of None \<Rightarrow> y | Some v \<Rightarrow> v)"

definition changed_row :: "mapping_change \<Rightarrow> mapping_record \<Rightarrow> mapping_record" where
  "changed_row ch r = r\<lparr>mt_scope := coalesce (mn_scope ch) (mt_scope r), mt_direction := coalesce (mn_direction ch) (mt_direction r),
     mt_cardinality := coalesce (mn_cardinality ch) (mt_cardinality r), mt_confidence := coalesce (mn_confidence ch) (mt_confidence r),
     mt_priority := (case mn_priority ch of None \<Rightarrow> mt_priority r | Some n \<Rightarrow> Some n),
     mt_from := coalesce (map_option micro (mn_from ch)) (mt_from r),
     mt_to := (case mn_to ch of None \<Rightarrow> mt_to r | Some t \<Rightarrow> Some (micro t)), mt_revision := mt_revision r + 1\<rparr>"

text \<open>
  An empty text is not NULL here: it fails the CHECK of the confidence or the foreign key of the scope. Every CHECK violation is
  reported as an invalid period.
\<close>

definition change_mapping ::
  "actor \<Rightarrow> string \<Rightarrow> int \<Rightarrow> mapping_change \<Rightarrow> mapping_tables \<Rightarrow> mapping_admin_error + mapping_record \<times> mapping_tables" where
  "change_mapping a i expected ch w =
    (if \<not> validate_actor a then Inl MaInvalidActor
     else case lock_mapping i expected w of
       Inl e \<Rightarrow> Inl e
     | Inr r \<Rightarrow>
         if mt_status r \<noteq> ''DRAFT'' then Inl MaNotDraft
         else case (case mn_scope ch of None \<Rightarrow> None | Some s \<Rightarrow> check_scope s (mt_tenant r) w) of
           Some e \<Rightarrow> Inl e
         | None \<Rightarrow>
             let r' = changed_row ch r in
             if \<not> mapping_checks_ok r' \<or> mn_confidence ch = Some [] then Inl MaInvalidPeriod
             else if mn_scope ch = Some [] then Inl MaRejected
             else Inr (r', record_mapping_change a r' ''mapping.changed'' (replace_mapping r' w)))"

definition mapping_transitions :: "string \<Rightarrow> string list option" where
  "mapping_transitions to =
    (if to = ''VALIDATED'' then Some [''DRAFT''] else if to = ''ACTIVE'' then Some [''VALIDATED'']
     else if to = ''RETIRED'' then Some [''ACTIVE'', ''DEPRECATED'', ''SUSPENDED''] else None)"

record mapping_command =
  mc_to :: string
  mc_reason :: string
  mc_successor :: string

definition check_successor :: "string \<Rightarrow> mapping_record \<Rightarrow> mapping_tables \<Rightarrow> mapping_admin_error option" where
  "check_successor successor r w =
    (if successor = [] then None
     else case check_mapping_in_tenant successor (mt_tenant r) w of
       Some e \<Rightarrow> Some e
     | None \<Rightarrow>
         (case mapping_by_id successor w of
            None \<Rightarrow> Some MaSubjectNotFound
          | Some s \<Rightarrow> if mt_supersedes s \<noteq> mt_id r then Some MaSuccessorMismatch else None))"

definition moved_row :: "instant \<Rightarrow> mapping_command \<Rightarrow> string \<Rightarrow> mapping_record \<Rightarrow> mapping_record" where
  "moved_row now t approver r =
    (let r = r\<lparr>mt_status := mc_to t, mt_revision := mt_revision r + 1,
               mt_retirement_reason := (if mc_reason t = [] then mt_retirement_reason r else mc_reason t)\<rparr> in
     if mc_to t = ''VALIDATED'' then r\<lparr>mt_validated_at := Some (micro now), mt_validated_by := approver\<rparr>
     else if mc_to t = ''ACTIVE'' then r\<lparr>mt_approved_at := Some (micro now), mt_approved_by := approver\<rparr>
     else r\<lparr>mt_retired_at := Some (micro now), mt_retired_by := approver\<rparr>)"

definition transition_action :: "string \<Rightarrow> string" where
  "transition_action to = (if to = ''VALIDATED'' then ''mapping.validated'' else if to = ''ACTIVE'' then ''mapping.activated''
     else if to = ''RETIRED'' then ''mapping.retired'' else [])"

definition transition_locked_mapping ::
  "actor \<Rightarrow> instant \<Rightarrow> mapping_record \<Rightarrow> mapping_command \<Rightarrow> string \<Rightarrow> mapping_tables \<Rightarrow> mapping_admin_error + mapping_record \<times> mapping_tables" where
  "transition_locked_mapping a now r t approver w =
    (case mapping_transitions (mc_to t) of
       None \<Rightarrow> Inl MaLifecycleConflict
     | Some from \<Rightarrow>
         if mt_status r \<notin> set from then Inl MaLifecycleConflict
         else if mc_to t = ''ACTIVE'' \<and> mt_created_by r = approver then Inl MaSelfApproval
         else case check_successor (mc_successor t) r w of
           Some e \<Rightarrow> Inl e
         | None \<Rightarrow>
             let r' = moved_row now t approver r in
             if \<not> mapping_checks_ok r' then Inl MaRejected
             else if list_ex (\<lambda>s. mt_id s \<noteq> mt_id r' \<and> overlapping_active r' s) (md_rows w) then Inl MaOverlap
             else Inr (r', record_mapping_change a r' (transition_action (mc_to t)) (replace_mapping r' w)))"

definition transition_mapping ::
  "actor \<Rightarrow> instant \<Rightarrow> string \<Rightarrow> int \<Rightarrow> mapping_command \<Rightarrow> mapping_tables \<Rightarrow> mapping_admin_error + mapping_record \<times> mapping_tables" where
  "transition_mapping a now i expected t w =
    (if \<not> validate_actor a then Inl MaInvalidActor
     else if mapping_transitions (mc_to t) = None then Inl MaLifecycleConflict
     else case lock_mapping i expected w of
       Inl e \<Rightarrow> Inl e
     | Inr r \<Rightarrow> transition_locked_mapping a now r t (ac_actor_id a) w)"

text \<open>The application of an approved mapping changeset, which activates at the planned revision for the changeset's approver.\<close>

definition apply_mapping_changeset ::
  "actor \<Rightarrow> instant \<Rightarrow> string \<Rightarrow> int \<Rightarrow> string \<Rightarrow> string \<Rightarrow> mapping_tables \<Rightarrow> mapping_admin_error + mapping_record \<times> mapping_tables" where
  "apply_mapping_changeset a now i revision to_status approver w =
    (if approver = [] then Inl MaInvalidActor
     else case lock_mapping i revision w of
       Inl e \<Rightarrow> Inl e
     | Inr r \<Rightarrow> transition_locked_mapping a now r \<lparr>mc_to = to_status, mc_reason = [], mc_successor = []\<rparr> approver w)"

section \<open>Reads\<close>

definition scan_mapping :: "mapping_record \<Rightarrow> mapping_row" where
  "scan_mapping r = \<lparr>mp_id = mt_id r, mp_mapping_type = mt_type r, mp_tenant_id = mt_tenant r, mp_legal_entity_id = mt_legal_entity r,
     mp_canonical_entity_id = mt_entity r, mp_external_reference_id = mt_reference r, mp_target_canonical_entity_id = mt_target r,
     mp_scope_id = mt_scope r, mp_direction = mt_direction r, mp_cardinality = mt_cardinality r, mp_authority = mt_authority r,
     mp_confidence = mt_confidence r, mp_resolution_priority = coalesce (mt_priority r) 0, mp_status = mt_status r,
     mp_effective_from = format_rfc3339 (mt_from r), mp_effective_to = (case mt_to r of None \<Rightarrow> [] | Some t \<Rightarrow> format_rfc3339 t),
     mp_supersedes_mapping_id = mt_supersedes r, mp_revision = mt_revision r, mp_created_at = format_rfc3339 (mt_created_at r),
     mp_created_by = mt_created_by r, mp_approved_at = (case mt_approved_at r of None \<Rightarrow> [] | Some t \<Rightarrow> format_rfc3339 t),
     mp_approved_by = mt_approved_by r, mp_retired_at = (case mt_retired_at r of None \<Rightarrow> [] | Some t \<Rightarrow> format_rfc3339 t),
     mp_retired_by = mt_retired_by r\<rparr>"

definition in_force_at :: "mapping_record \<Rightarrow> instant \<Rightarrow> bool" where
  "in_force_at r at \<longleftrightarrow> mt_status r = ''ACTIVE'' \<or>
    mt_status r = ''RETIRED'' \<and> mt_approved_at r \<noteq> None \<and> (case mt_retired_at r of None \<Rightarrow> False | Some t \<Rightarrow> at < t)"

definition mapping_confidence_rank :: "string \<Rightarrow> int" where
  "mapping_confidence_rank c = (if c = [] \<or> c = ''CONFIRMED'' then 2 else if c = ''PROBABLE'' then 1 else 0)"

definition reverse_candidate :: "string \<Rightarrow> native_identity \<Rightarrow> instant \<Rightarrow> mapping_tables \<Rightarrow> mapping_record \<Rightarrow> bool" where
  "reverse_candidate tenant n at w r \<longleftrightarrow> mt_tenant r = tenant \<and>
    (case get_external_reference (mt_reference r) w of
       None \<Rightarrow> False
     | Some x \<Rightarrow> xr_system_namespace x = ni_system_namespace n \<and> xr_engine_id x = ni_engine_id n \<and>
         xr_native_entity_type x = ni_native_entity_type n \<and> xr_native_id x = ni_native_id n \<and>
         (ni_engine_instance_id n = [] \<or> xr_engine_instance_id x = ni_engine_instance_id n) \<and>
         (ni_environment n = [] \<or> xr_environment x = ni_environment n)) \<and>
    in_force_at r at \<and> mt_direction r \<in> {''EXTERNAL_TO_CANONICAL'', ''BIDIRECTIONAL''} \<and> period_covers (mt_from r) (mt_to r) at \<and>
    mt_confidence r \<notin> {''CANDIDATE'', ''REJECTED''}"

definition reference_rank :: "mapping_row \<Rightarrow> int \<times> int" where
  "reference_rank m = (- mp_resolution_priority m, - mapping_confidence_rank (mp_confidence m))"

definition reference_order :: "mapping_row \<Rightarrow> (int \<times> int) \<times> string" where
  "reference_order m = (reference_rank m, mp_id m)"

datatype reference_reason = ReasonActiveBinding | ReasonReferencePriority

fun compare_entities :: "mapping_row \<Rightarrow> mapping_row list \<Rightarrow> mapping_admin_error + reference_reason" where
  "compare_entities best [] = Inr ReasonActiveBinding"
| "compare_entities best (z # zs) =
    (if mp_resolution_priority z \<noteq> mp_resolution_priority best \<or>
        mapping_confidence_rank (mp_confidence z) \<noteq> mapping_confidence_rank (mp_confidence best) then Inr ReasonReferencePriority
     else if mp_canonical_entity_id z \<noteq> mp_canonical_entity_id best then Inl MaAmbiguous
     else compare_entities best zs)"

definition resolve_external_reference ::
  "string \<Rightarrow> native_identity \<Rightarrow> instant \<Rightarrow> mapping_tables \<Rightarrow> mapping_admin_error + mapping_row \<times> reference_reason" where
  "resolve_external_reference tenant n at w =
    (case sort_key reference_order (map scan_mapping (filter (reverse_candidate tenant n at w) (md_rows w))) of
       [] \<Rightarrow> Inl MaNotFound
     | best # others \<Rightarrow> map_sum id (Pair best) (compare_entities best others))"

definition target_matches :: "string \<Rightarrow> string \<Rightarrow> mapping_tables \<Rightarrow> mapping_record \<Rightarrow> bool" where
  "target_matches system_namespace engine w r =
    (case get_external_reference (mt_reference r) w of
       None \<Rightarrow> system_namespace = [] \<and> engine = []
     | Some x \<Rightarrow> (system_namespace = [] \<or> xr_system_namespace x = system_namespace) \<and> (engine = [] \<or> xr_engine_id x = engine))"

definition forward_candidate :: "string \<Rightarrow> string \<Rightarrow> string \<Rightarrow> string \<Rightarrow> instant \<Rightarrow> mapping_tables \<Rightarrow> mapping_record \<Rightarrow> bool" where
  "forward_candidate tenant entity system_namespace engine at w r \<longleftrightarrow> mt_tenant r = tenant \<and> mt_entity r = entity \<and> in_force_at r at \<and>
    mt_direction r \<in> {''CANONICAL_TO_EXTERNAL'', ''BIDIRECTIONAL'', ''SOURCE_TO_TARGET''} \<and> period_covers (mt_from r) (mt_to r) at \<and>
    target_matches system_namespace engine w r"

definition mapping_candidates ::
  "string \<Rightarrow> string \<Rightarrow> string \<Rightarrow> string \<Rightarrow> instant \<Rightarrow> mapping_tables \<Rightarrow> mapping_row list \<times> (string \<times> mapping_scope) list" where
  "mapping_candidates tenant entity system_namespace engine at w =
    (if \<not> is_uuid entity then ([], [])
     else
       let ms = map scan_mapping (filter (forward_candidate tenant entity system_namespace engine at w) (md_rows w));
           keys = filter (\<lambda>k. k \<noteq> []) (map mp_scope_id ms)
       in (ms, filter (\<lambda>(k, s). k \<in> set keys \<and> ms_tenant s = tenant) (md_scopes w)))"

section \<open>Steps and reachable tables\<close>

text \<open>The commands, and changes other components make to the entities, memberships, scopes and instances.\<close>

inductive mapping_step :: "mapping_tables \<Rightarrow> mapping_tables \<Rightarrow> bool" where
  step_reference: "create_external_reference a now x w = Inr (y, w') \<Longrightarrow> mapping_step w w'"
| step_propose: "propose_mapping a now m key request_hash seen w = Inr (res, w') \<Longrightarrow> mapping_step w w'"
| step_change: "change_mapping a i expected ch w = Inr (r, w') \<Longrightarrow> mapping_step w w'"
| step_transition: "transition_mapping a now i expected t w = Inr (r, w') \<Longrightarrow> mapping_step w w'"
| step_changeset: "apply_mapping_changeset a now i revision to_status approver w = Inr (r, w') \<Longrightarrow> mapping_step w w'"
| step_elsewhere: "md_rows w' = md_rows w \<Longrightarrow> md_references w' = md_references w \<Longrightarrow> mapping_step w w'"

definition mapping_reachable :: "mapping_tables \<Rightarrow> bool" where
  "mapping_reachable w \<longleftrightarrow> (\<exists>w0. md_rows w0 = [] \<and> md_references w0 = [] \<and> mapping_step\<^sup>*\<^sup>* w0 w)"

text \<open>What a step does to one row.\<close>

inductive row_change :: "mapping_record \<Rightarrow> mapping_record \<Rightarrow> bool" where
  row_changed: "mt_status r = ''DRAFT'' \<Longrightarrow> mapping_checks_ok (changed_row ch r) \<Longrightarrow> row_change r (changed_row ch r)"
| row_moved: "mapping_transitions (mc_to t) = Some from \<Longrightarrow> mt_status r \<in> set from \<Longrightarrow> (mc_to t = ''ACTIVE'' \<longrightarrow> mt_created_by r \<noteq> approver) \<Longrightarrow>
    approver \<noteq> [] \<Longrightarrow> mapping_checks_ok (moved_row now t approver r) \<Longrightarrow> row_change r (moved_row now t approver r)"

lemma record_mapping_change_rows [simp]: "md_rows (record_mapping_change a r act w) = md_rows w"
  by (simp add: record_mapping_change_def)

lemma replace_mapping_rows [simp]: "md_rows (replace_mapping r w) = map (\<lambda>s. if mt_id s = mt_id r then r else s) (md_rows w)"
  by (simp add: replace_mapping_def)

lemma changed_row_keeps [simp]:
  "mt_id (changed_row ch r) = mt_id r" "mt_status (changed_row ch r) = mt_status r" "mt_created_by (changed_row ch r) = mt_created_by r"
  "mt_idempotency_key (changed_row ch r) = mt_idempotency_key r" "mt_request_hash (changed_row ch r) = mt_request_hash r"
  "mt_revision (changed_row ch r) = mt_revision r + 1"
  by (simp_all add: changed_row_def)

lemma moved_row_keeps [simp]:
  "mt_id (moved_row now t ap r) = mt_id r" "mt_status (moved_row now t ap r) = mc_to t" "mt_created_by (moved_row now t ap r) = mt_created_by r"
  "mt_idempotency_key (moved_row now t ap r) = mt_idempotency_key r" "mt_request_hash (moved_row now t ap r) = mt_request_hash r"
  "mt_revision (moved_row now t ap r) = mt_revision r + 1"
  by (simp_all add: moved_row_def Let_def)

lemma transition_rows:
  assumes "transition_locked_mapping a now r t ap w = Inr (r', w')" and "ap \<noteq> []"
  shows "row_change r r' \<and> mt_id r' = mt_id r \<and> md_rows w' = map (\<lambda>s. if mt_id s = mt_id r then r' else s) (md_rows w) \<and>
    list_all (\<lambda>s. mt_id s \<noteq> mt_id r \<longrightarrow> \<not> overlapping_active r' s) (md_rows w)"
proof -
  from assms(1) obtain fs where f: "mapping_transitions (mc_to t) = Some fs" "mt_status r \<in> set fs" "mc_to t = ''ACTIVE'' \<longrightarrow> mt_created_by r \<noteq> ap"
      "r' = moved_row now t ap r" "mapping_checks_ok (moved_row now t ap r)"
    and w': "w' = record_mapping_change a r' (transition_action (mc_to t)) (replace_mapping r' w)"
    and no: "\<not> list_ex (\<lambda>s. mt_id s \<noteq> mt_id r' \<and> overlapping_active r' s) (md_rows w)"
    by (auto simp: transition_locked_mapping_def Let_def split: option.splits if_splits)
  have "row_change r r'" unfolding f(4) by (rule row_moved [OF f(1,2,3) assms(2) f(5)])
  moreover have "mt_id r' = mt_id r" by (simp add: f(4))
  ultimately show ?thesis using no by (auto simp: w' list_all_iff list_ex_iff)
qed

lemma lock_mapping_row: "lock_mapping i n w = Inr r \<Longrightarrow> mapping_by_id (mt_id r) w = Some r \<and> mt_id r = i \<and> mt_revision r = n"
proof -
  assume "lock_mapping i n w = Inr r"
  then have f: "mapping_by_id i w = Some r" and n: "mt_revision r = n" by (auto simp: lock_mapping_def split: option.splits if_splits)
  from find_SomeD [OF f [unfolded mapping_by_id_def]] have "mt_id r = i" by blast
  with f n show ?thesis by simp
qed

text \<open>A step adds one fresh draft, changes one row, or leaves the rows alone.\<close>

lemma mapping_step_rows:
  assumes "mapping_step w w'"
  obtains (same) "md_rows w' = md_rows w"
  | (fresh) row where "md_rows w' = md_rows w @ [row]" "mt_status row = ''DRAFT''" "mapping_checks_ok row" "mapping_by_id (mt_id row) w = None"
      "\<not> key_taken (mt_created_by row) (mt_idempotency_key row) w" "mt_approved_by row = []" "mt_idempotency_key row \<noteq> []"
  | (change) r r' where "mapping_by_id (mt_id r) w = Some r" "row_change r r'" "mt_id r' = mt_id r"
      "md_rows w' = map (\<lambda>s. if mt_id s = mt_id r then r' else s) (md_rows w)"
      "list_all (\<lambda>s. mt_id s \<noteq> mt_id r \<longrightarrow> \<not> overlapping_active r' s) (md_rows w)"
  using assms
proof cases
  case (step_reference a now x y)
  then have "md_rows w' = md_rows w" by (auto simp: create_external_reference_def Let_def split: if_splits)
  then show thesis by (rule same)
next
  case (step_propose a now m key h seen res)
  have ins: thesis if i: "insert_proposed a now m (proposed_row a now m key h fr en) w = Inr (res, w')" and k: "key \<noteq> []" for fr en
  proof (cases "md_rows w' = md_rows w")
    case False
    let ?row = "proposed_row a now m key h fr en"
    from i False have "mapping_checks_ok ?row" "mapping_by_id (mt_id ?row) w = None" "\<not> key_taken (mt_created_by ?row) (mt_idempotency_key ?row) w"
      "md_rows w' = md_rows w @ [?row]"
      by (auto simp: insert_proposed_def split: option.splits if_splits sum.splits)
    with k show thesis by (intro fresh [of ?row]) (simp_all add: proposed_row_def)
  qed (rule same)
  from step_propose show thesis
    by (auto simp: propose_mapping_def split: if_splits sum.splits mapping_admin_error.splits option.splits intro: ins same)
next
  case (step_change a i n ch r')
  then obtain r where l: "lock_mapping i n w = Inr r" and d: "mt_status r = ''DRAFT''" "mapping_checks_ok (changed_row ch r)" "r' = changed_row ch r"
      and w': "md_rows w' = map (\<lambda>s. if mt_id s = mt_id r then r' else s) (md_rows w)"
    by (auto simp: change_mapping_def Let_def split: if_splits sum.splits option.splits)
  have "row_change r r'" unfolding d(3) by (rule row_changed [OF d(1,2)])
  moreover have "list_all (\<lambda>s. mt_id s \<noteq> mt_id r \<longrightarrow> \<not> overlapping_active r' s) (md_rows w)"
    by (simp add: list_all_iff overlapping_active_def d)
  moreover have "mt_id r' = mt_id r" by (simp add: d(3))
  ultimately show thesis using conjunct1 [OF lock_mapping_row [OF l]] w' by (intro change [of r r'])
next
  case (step_transition a now i n t r')
  then obtain r where l: "lock_mapping i n w = Inr r" and t: "transition_locked_mapping a now r t (ac_actor_id a) w = Inr (r', w')" "ac_actor_id a \<noteq> []"
    by (auto simp: transition_mapping_def validate_actor_def split: if_splits sum.splits)
  from transition_rows [OF t] lock_mapping_row [OF l] show thesis by (intro change [of r r']) blast+
next
  case (step_changeset a now i n st ap r')
  then obtain r t where l: "lock_mapping i n w = Inr r" and t: "transition_locked_mapping a now r t ap w = Inr (r', w')" "ap \<noteq> []"
    by (auto simp: apply_mapping_changeset_def split: if_splits sum.splits)
  from transition_rows [OF t] lock_mapping_row [OF l] show thesis by (intro change [of r r']) blast+
next
  case step_elsewhere
  show thesis by (rule same) (rule step_elsewhere(1))
qed

section \<open>Four eyes, one active mapping, frozen content\<close>

definition row_governed :: "mapping_record \<Rightarrow> bool" where
  "row_governed r \<longleftrightarrow> mapping_checks_ok r \<and> mt_status r \<in> {''DRAFT'', ''VALIDATED'', ''ACTIVE'', ''RETIRED''} \<and> mt_idempotency_key r \<noteq> [] \<and>
    (mt_status r \<noteq> ''DRAFT'' \<longrightarrow> mt_validated_at r \<noteq> None \<and> mt_validated_by r \<noteq> []) \<and>
    (mt_status r \<in> {''ACTIVE'', ''RETIRED''} \<longrightarrow> mt_approved_at r \<noteq> None \<and> mt_approved_by r \<noteq> [] \<and> mt_approved_by r \<noteq> mt_created_by r) \<and>
    (mt_status r = ''RETIRED'' \<longrightarrow> mt_retired_at r \<noteq> None)"

definition mapping_content :: "mapping_record \<Rightarrow> string list \<times> int option \<times> instant \<times> instant option" where
  "mapping_content r = ([mt_tenant r, mt_legal_entity r, mt_type r, mt_entity r, mt_reference r, mt_target r, mt_scope r, mt_direction r,
     mt_cardinality r, mt_authority r, mt_confidence r, mt_supersedes r], mt_priority r, mt_from r, mt_to r)"

lemma moved_row_content [simp]: "mapping_content (moved_row now t ap r) = mapping_content r"
  by (simp add: mapping_content_def moved_row_def Let_def)

lemma row_change_governed: "row_change r r' \<Longrightarrow> row_governed r \<Longrightarrow> row_governed r'"
proof (induction rule: row_change.induct)
  case (row_changed r ch)
  then show ?case by (simp add: row_governed_def)
next
  case (row_moved t fs r ap now)
  from row_moved(1) consider "mc_to t = ''VALIDATED''" "fs = [''DRAFT'']" | "mc_to t = ''ACTIVE''" "fs = [''VALIDATED'']"
    | "mc_to t = ''RETIRED''" "fs = [''ACTIVE'', ''DEPRECATED'', ''SUSPENDED'']"
    by (auto simp: mapping_transitions_def split: if_splits)
  then show ?case using row_moved by cases (auto simp: row_governed_def moved_row_def Let_def)
qed

lemma row_change_frozen:
  "row_change r r' \<Longrightarrow> mt_status r \<noteq> ''DRAFT'' \<Longrightarrow> mapping_content r' = mapping_content r \<and> mt_status r' \<noteq> ''DRAFT''"
  by (induction rule: row_change.induct) (auto simp: mapping_transitions_def split: if_splits)

lemma row_change_identity:
  "row_change r r' \<Longrightarrow> mt_created_by r' = mt_created_by r \<and> mt_idempotency_key r' = mt_idempotency_key r \<and> mt_request_hash r' = mt_request_hash r \<and>
    mt_revision r' = mt_revision r + 1"
  by (induction rule: row_change.induct) simp_all

definition mapping_tables_ok :: "mapping_tables \<Rightarrow> bool" where
  "mapping_tables_ok w \<longleftrightarrow> distinct (map mt_id (md_rows w)) \<and> (\<forall>r \<in> set (md_rows w). row_governed r) \<and>
    (\<forall>r \<in> set (md_rows w). \<forall>s \<in> set (md_rows w). mt_id r \<noteq> mt_id s \<longrightarrow> \<not> overlapping_active r s \<and>
      (mt_created_by r, mt_idempotency_key r) \<noteq> (mt_created_by s, mt_idempotency_key s))"

lemma mapping_by_id_None: "mapping_by_id i w = None \<longleftrightarrow> i \<notin> mt_id ` set (md_rows w)"
  by (auto simp: mapping_by_id_def find_None_iff)

lemma mapping_by_id_iff:
  assumes "distinct (map mt_id (md_rows w))"
  shows "mapping_by_id i w = Some r \<longleftrightarrow> r \<in> set (md_rows w) \<and> mt_id r = i"
proof
  assume "mapping_by_id i w = Some r"
  then show "r \<in> set (md_rows w) \<and> mt_id r = i" by (auto simp: mapping_by_id_def dest: find_SomeD)
next
  assume r: "r \<in> set (md_rows w) \<and> mt_id r = i"
  then obtain s where s: "mapping_by_id i w = Some s" using mapping_by_id_None [of i w] by (cases "mapping_by_id i w") auto
  then have "s \<in> set (md_rows w)" "mt_id s = i" by (auto simp: mapping_by_id_def dest: find_SomeD)
  with r assms have "s = r" by (auto simp: distinct_map inj_on_def)
  with s show "mapping_by_id i w = Some r" by simp
qed

lemma overlapping_active_sym: "overlapping_active r s \<longleftrightarrow> overlapping_active s r"
  by (auto simp: overlapping_active_def same_relationship_def)

lemma replaced_rows:
  assumes "s' \<in> set (map (\<lambda>s. if mt_id s = mt_id r then r' else s) xs)" "mt_id r' = mt_id r"
  obtains "s' = r'" | "s' \<in> set xs" "mt_id s' \<noteq> mt_id r"
  using assms by (auto split: if_splits)

lemma mapping_step_ok:
  assumes "mapping_step w w'" "mapping_tables_ok w"
  shows "mapping_tables_ok w'"
  using assms(1)
proof (cases rule: mapping_step_rows)
  case same
  with assms(2) show ?thesis by (simp add: mapping_tables_ok_def)
next
  case (fresh row)
  have "row_governed row" using fresh by (simp add: row_governed_def)
  moreover have "\<not> overlapping_active row s" "\<not> overlapping_active s row" for s using fresh(2) by (simp_all add: overlapping_active_def)
  moreover have "\<forall>s \<in> set (md_rows w). (mt_created_by s, mt_idempotency_key s) \<noteq> (mt_created_by row, mt_idempotency_key row)"
    "\<forall>s \<in> set (md_rows w). (mt_created_by row, mt_idempotency_key row) \<noteq> (mt_created_by s, mt_idempotency_key s)"
    using fresh(5,7) by (auto simp: key_taken_def list_ex_iff)
  moreover have "mt_id row \<notin> mt_id ` set (md_rows w)" using fresh(4) by (simp add: mapping_by_id_None)
  ultimately show ?thesis using assms(2) unfolding mapping_tables_ok_def fresh(1) by auto
next
  case (change r r')
  from assms(2) have d: "distinct (map mt_id (md_rows w))" by (simp add: mapping_tables_ok_def)
  from change(1) mapping_by_id_iff [OF d] have r: "r \<in> set (md_rows w)" by blast
  have ids: "map mt_id (md_rows w') = map mt_id (md_rows w)" unfolding change(4) using change(3) by simp
  have g: "row_governed r'" using row_change_governed [OF change(2)] r assms(2) by (simp add: mapping_tables_ok_def)
  have id: "mt_created_by r' = mt_created_by r" "mt_idempotency_key r' = mt_idempotency_key r" using row_change_identity [OF change(2)] by blast+
  have old: "\<not> overlapping_active s u" "(mt_created_by s, mt_idempotency_key s) \<noteq> (mt_created_by u, mt_idempotency_key u)" "row_governed s"
    if "s \<in> set (md_rows w)" "u \<in> set (md_rows w)" "mt_id s \<noteq> mt_id u" for s u
    using assms(2) that by (auto simp: mapping_tables_ok_def)
  have new: "\<not> overlapping_active r' s" if "s \<in> set (md_rows w)" "mt_id s \<noteq> mt_id r" for s
    using change(5) that by (simp add: list_all_iff)
  have "\<not> overlapping_active s u \<and> (mt_created_by s, mt_idempotency_key s) \<noteq> (mt_created_by u, mt_idempotency_key u)"
    if "s \<in> set (md_rows w')" "u \<in> set (md_rows w')" "mt_id s \<noteq> mt_id u" for s u
    using that(1) [unfolded change(4)] change(3)
  proof (cases rule: replaced_rows)
    case 1
    from that(2) [unfolded change(4)] change(3) show ?thesis
    proof (cases rule: replaced_rows)
      case 2
      with new old(2) [OF r 2(1)] 1 id show ?thesis by auto
    qed (use 1 that(3) in simp)
  next
    case s: 2
    from that(2) [unfolded change(4)] change(3) show ?thesis
    proof (cases rule: replaced_rows)
      case 1
      with new [OF s] old(2) [OF s(1) r s(2)] id overlapping_active_sym [of s u] show ?thesis by auto
    qed (use old [OF s(1)] that(3) in blast)
  qed
  moreover have "row_governed s" if "s \<in> set (md_rows w')" for s
    using that [unfolded change(4)] change(3) by (cases rule: replaced_rows) (use g assms(2) in \<open>auto simp: mapping_tables_ok_def\<close>)
  ultimately show ?thesis using d ids unfolding mapping_tables_ok_def by simp
qed

lemma reachable_ok: "mapping_reachable w \<Longrightarrow> mapping_tables_ok w"
proof -
  assume "mapping_reachable w"
  then obtain w0 where "md_rows w0 = []" "mapping_step\<^sup>*\<^sup>* w0 w" by (auto simp: mapping_reachable_def)
  from this(2,1) show ?thesis
    by (induction rule: rtranclp_induct) (auto simp: mapping_tables_ok_def [of w0] intro: mapping_step_ok)
qed


section \<open>Content is frozen once validated\<close>

lemma step_keeps_row:
  assumes "mapping_step w w'" "mapping_tables_ok w" "r \<in> set (md_rows w)"
  shows "\<exists>r' \<in> set (md_rows w'). mt_id r' = mt_id r \<and> mt_created_by r' = mt_created_by r \<and> mt_idempotency_key r' = mt_idempotency_key r \<and>
    mt_request_hash r' = mt_request_hash r \<and> mt_revision r \<le> mt_revision r' \<and>
    (mt_status r \<noteq> ''DRAFT'' \<longrightarrow> mt_status r' \<noteq> ''DRAFT'' \<and> mapping_content r' = mapping_content r) \<and>
    (mt_revision r' = mt_revision r \<longrightarrow> r' = r)"
  using assms(1)
proof (cases rule: mapping_step_rows)
  case (change q q')
  show ?thesis
  proof (cases "mt_id r = mt_id q")
    case True
    from assms(2) have d: "distinct (map mt_id (md_rows w))" by (simp add: mapping_tables_ok_def)
    from change(1) mapping_by_id_iff [OF d] have "q \<in> set (md_rows w)" by blast
    with d assms(3) True have e: "r = q" by (auto simp: distinct_map inj_on_def)
    have "q' \<in> set (md_rows w')" unfolding change(4) using assms(3) True by force
    then show ?thesis using row_change_identity [OF change(2)] row_change_frozen [OF change(2)] change(3) unfolding e by (intro bexI [of _ q']) auto
  next
    case False
    then have "r \<in> set (md_rows w')" unfolding change(4) using assms(3) by force
    then show ?thesis by (intro bexI [of _ r]) auto
  qed
next
  case same
  then show ?thesis using assms(3) by (intro bexI [of _ r]) auto
next
  case (fresh row)
  then show ?thesis using assms(3) by (intro bexI [of _ r]) auto
qed

lemma steps_keep_row:
  assumes "mapping_step\<^sup>*\<^sup>* w w'" "mapping_tables_ok w" "r \<in> set (md_rows w)"
  shows "mapping_tables_ok w' \<and> (\<exists>r' \<in> set (md_rows w'). mt_id r' = mt_id r \<and> mt_created_by r' = mt_created_by r \<and>
    mt_idempotency_key r' = mt_idempotency_key r \<and> mt_request_hash r' = mt_request_hash r \<and> mt_revision r \<le> mt_revision r' \<and>
    (mt_status r \<noteq> ''DRAFT'' \<longrightarrow> mt_status r' \<noteq> ''DRAFT'' \<and> mapping_content r' = mapping_content r) \<and>
    (mt_revision r' = mt_revision r \<longrightarrow> r' = r))"
  using assms(1)
proof (induction rule: rtranclp_induct)
  case base
  then show ?case using assms(2,3) by auto
next
  case (step u v)
  then obtain q where q: "q \<in> set (md_rows u)" "mt_id q = mt_id r" "mt_created_by q = mt_created_by r" "mt_idempotency_key q = mt_idempotency_key r"
    "mt_request_hash q = mt_request_hash r" "mt_revision r \<le> mt_revision q"
    "mt_status r \<noteq> ''DRAFT'' \<longrightarrow> mt_status q \<noteq> ''DRAFT'' \<and> mapping_content q = mapping_content r" "mt_revision q = mt_revision r \<longrightarrow> q = r" by blast
  from step_keeps_row [OF step(2) conjunct1 [OF step(3)] q(1)] obtain p where p: "p \<in> set (md_rows v)" "mt_id p = mt_id q"
    "mt_created_by p = mt_created_by q" "mt_idempotency_key p = mt_idempotency_key q" "mt_request_hash p = mt_request_hash q"
    "mt_revision q \<le> mt_revision p" "mt_status q \<noteq> ''DRAFT'' \<longrightarrow> mt_status p \<noteq> ''DRAFT'' \<and> mapping_content p = mapping_content q"
    "mt_revision p = mt_revision q \<longrightarrow> p = q" by blast
  from mapping_step_ok [OF step(2) conjunct1 [OF step(3)]] p q show ?case by (intro conjI bexI [of _ p]) auto
qed

lemma steps_to_ok: "mapping_reachable w \<Longrightarrow> mapping_step\<^sup>*\<^sup>* w w' \<Longrightarrow> mapping_tables_ok w'"
  by (rule reachable_ok) (auto simp: mapping_reachable_def intro: rtranclp_trans)

text \<open>
  Property (what was validated is what is active): once a mapping has left DRAFT, no sequence of commands changes what it says, its
  tenant, entity, target, type, scope, direction, confidence, priority or period, or takes it back to DRAFT; and a mapping at an unchanged
  revision is unchanged, so a reviewer who names the revision approves exactly the mapping that was read.
\<close>

theorem validated_content_frozen:
  assumes "mapping_reachable w" and "mapping_step\<^sup>*\<^sup>* w w'" and "r \<in> set (md_rows w)"
  shows "\<exists>r' \<in> set (md_rows w'). mt_id r' = mt_id r \<and>
    (mt_status r \<noteq> ''DRAFT'' \<longrightarrow> mt_status r' \<noteq> ''DRAFT'' \<and> mapping_content r' = mapping_content r) \<and>
    mt_revision r \<le> mt_revision r' \<and> (mt_revision r' = mt_revision r \<longrightarrow> r' = r)"
  using steps_keep_row [OF assms(2) reachable_ok [OF assms(1)] assms(3)] by blast

section \<open>Proposals are idempotent\<close>

lemma proposal_found:
  assumes "mapping_tables_ok w" "r \<in> set (md_rows w)"
  shows "mapping_by_idempotency_key (mt_created_by r) (mt_idempotency_key r) request_hash w =
    (if mt_request_hash r \<noteq> request_hash then Inl MaIdempotencyReused else Inr r)"
proof -
  let ?P = "\<lambda>s. mt_created_by s = mt_created_by r \<and> mt_idempotency_key s = mt_idempotency_key r"
  obtain s where f: "find ?P (md_rows w) = Some s" using assms(2) by (cases "find ?P (md_rows w)") (auto simp: find_None_iff)
  from find_SomeD [OF f] have s: "s \<in> set (md_rows w)" "?P s" by blast+
  have "mt_id s = mt_id r" using assms s by (auto simp: mapping_tables_ok_def)
  with assms s(1) have "s = r" by (auto simp: mapping_tables_ok_def distinct_map inj_on_def)
  with f show ?thesis by (simp add: mapping_by_idempotency_key_def)
qed

lemma found_proposal:
  assumes "mapping_by_idempotency_key proposer key request_hash w = Inr r"
  shows "r \<in> set (md_rows w)" "mt_created_by r = proposer" "mt_idempotency_key r = key" "mt_request_hash r = request_hash"
  using assms by (auto simp: mapping_by_idempotency_key_def split: option.splits if_splits dest: find_SomeD)

lemma proposal_recorded:
  assumes "mapping_tables_ok seen" "mapping_step\<^sup>*\<^sup>* seen w" "propose_mapping a now m key request_hash seen w = Inr ((r, existed), w')"
  shows "\<exists>s \<in> set (md_rows w'). mt_id s = mt_id r \<and> mt_created_by s = ac_actor_id a \<and> mt_idempotency_key s = key \<and> mt_request_hash s = request_hash"
proof -
  have ins: ?thesis if i: "insert_proposed a now m (proposed_row a now m key request_hash fr en) w = Inr ((r, existed), w')" for fr en
  proof -
    let ?row = "proposed_row a now m key request_hash fr en"
    have row: "mt_created_by ?row = ac_actor_id a" "mt_idempotency_key ?row = key" "mt_request_hash ?row = request_hash" by (simp_all add: proposed_row_def)
    from i consider "r = ?row" "?row \<in> set (md_rows w')" | "mapping_by_idempotency_key (ac_actor_id a) key request_hash w = Inr r" "w' = w"
      unfolding insert_proposed_def row by (auto split: option.splits if_splits sum.splits)
    then show ?thesis
    proof cases
      case 1
      with row show ?thesis by (intro bexI [of _ ?row]) auto
    next
      case 2
      from found_proposal [OF 2(1)] 2(2) show ?thesis by (intro bexI [of _ r]) auto
    qed
  qed
  from assms(3) consider "mapping_by_idempotency_key (ac_actor_id a) key request_hash seen = Inr r" "w' = w"
    | fr en where "insert_proposed a now m (proposed_row a now m key request_hash fr en) w = Inr ((r, existed), w')"
    by (auto simp: propose_mapping_def split: if_splits sum.splits mapping_admin_error.splits option.splits)
  then show ?thesis
  proof cases
    case 1
    note f = found_proposal [OF 1(1)]
    from steps_keep_row [OF assms(2,1) f(1)] f 1(2) show ?thesis by auto
  qed (rule ins)
qed

text \<open>
  C32 (a proposal happens once): once a proposal has succeeded, whatever happened between its lookup and its transaction and
  whatever commands follow, a proposal by the same actor with the same key returns the same mapping and writes nothing when the
  request is the same, and is refused when it differs.
\<close>

theorem proposal_idempotent:
  assumes "mapping_reachable seen" and "mapping_step\<^sup>*\<^sup>* seen w" and "propose_mapping a now m key request_hash seen w = Inr ((r, existed), w')"
    and "mapping_step\<^sup>*\<^sup>* w' later"
  shows "\<exists>s. mt_id s = mt_id r \<and> propose_mapping a now' m' key request_hash later v = Inr ((s, True), v) \<and>
    (\<forall>other. other \<noteq> request_hash \<and> other \<noteq> [] \<longrightarrow> propose_mapping a now' m' key other later v = Inl MaIdempotencyReused)"
proof -
  from steps_to_ok [OF assms(1,2)] have "mapping_tables_ok w" .
  then have ok: "mapping_tables_ok w'" by (rule mapping_step_ok [OF step_propose [OF assms(3)]])
  from proposal_recorded [OF reachable_ok [OF assms(1)] assms(2,3)] obtain q where
    q: "q \<in> set (md_rows w')" "mt_id q = mt_id r" "mt_created_by q = ac_actor_id a" "mt_idempotency_key q = key" "mt_request_hash q = request_hash" by blast
  from steps_keep_row [OF assms(4) ok q(1)] q obtain s where
    s: "mapping_tables_ok later" "s \<in> set (md_rows later)" "mt_id s = mt_id r" "mt_created_by s = ac_actor_id a" "mt_idempotency_key s = key"
      "mt_request_hash s = request_hash" by auto
  from assms(3) have "validate_actor a" "key \<noteq> []" "request_hash \<noteq> []" by (auto simp: propose_mapping_def split: if_splits)
  with proposal_found [OF s(1,2)] s(3-6) show ?thesis by (intro exI [of _ s]) (auto simp: propose_mapping_def)
qed

section \<open>The period stored is the period resolved\<close>




section \<open>Retiring a mapping keeps its history\<close>

lemma insort_key_map: "insort_key k (g x) (map g ys) = map g (insort_key (k \<circ> g) x ys)"
  by (induction ys) auto

lemma sort_key_map: "sort_key k (map g xs) = map g (sort_key (k \<circ> g) xs)"
  by (induction xs) (simp_all add: insort_key_map comp_def)

lemma insort_key_cong: "\<forall>y \<in> set (x # ys). k y = k' y \<Longrightarrow> insort_key k x ys = insort_key k' x ys"
  by (induction ys) auto

lemma sort_key_cong: "\<forall>x \<in> set xs. k x = k' x \<Longrightarrow> sort_key k xs = sort_key k' xs"
  by (induction xs) (auto intro!: insort_key_cong)

text \<open>What a resolved reference says, apart from the lifecycle columns of the mapping.\<close>

definition reference_view :: "mapping_admin_error + mapping_row \<times> reference_reason \<Rightarrow> mapping_admin_error + string \<times> string \<times> reference_reason" where
  "reference_view = map_sum id (\<lambda>(m, reason). (mp_canonical_entity_id m, mp_external_reference_id m, reason))"

lemma compare_entities_map:
  assumes "\<forall>x \<in> set (b # zs). mp_resolution_priority (g x) = mp_resolution_priority (f x) \<and> mp_confidence (g x) = mp_confidence (f x) \<and>
    mp_canonical_entity_id (g x) = mp_canonical_entity_id (f x)"
  shows "compare_entities (g b) (map g zs) = compare_entities (f b) (map f zs)"
  using assms by (induction zs) auto

lemma reference_view_map:
  assumes rows: "md_rows w' = map f (md_rows w)" and refs: "md_references w' = md_references w"
    and same: "\<And>r. r \<in> set (md_rows w) \<Longrightarrow> in_force_at (f r) at = in_force_at r at \<and> mt_id (f r) = mt_id r \<and> mapping_content (f r) = mapping_content r"
  shows "reference_view (resolve_external_reference tenant n at w') = reference_view (resolve_external_reference tenant n at w)"
proof -
  let ?xs = "filter (reverse_candidate tenant n at w) (md_rows w)" and ?g = "\<lambda>r. scan_mapping (f r)"
  have get: "get_external_reference i w' = get_external_reference i w" for i by (simp add: get_external_reference_def refs)
  have cand: "reverse_candidate tenant n at w' (f r) = reverse_candidate tenant n at w r" if "r \<in> set (md_rows w)" for r
    using same [OF that] by (simp add: reverse_candidate_def get mapping_content_def)
  have fl: "filter (reverse_candidate tenant n at w') (map f (md_rows w)) = map f ?xs"
    unfolding filter_map o_def using cand by (simp cong: filter_cong)
  have eq: "\<forall>r \<in> set ?xs. reference_order (?g r) = reference_order (scan_mapping r) \<and>
      mp_resolution_priority (?g r) = mp_resolution_priority (scan_mapping r) \<and> mp_confidence (?g r) = mp_confidence (scan_mapping r) \<and>
      mp_canonical_entity_id (?g r) = mp_canonical_entity_id (scan_mapping r) \<and>
      mp_external_reference_id (?g r) = mp_external_reference_id (scan_mapping r)"
    using same by (auto simp: reference_order_def reference_rank_def scan_mapping_def mapping_content_def)
  let ?ys = "sort_key (reference_order \<circ> scan_mapping) ?xs"
  have "sort_key reference_order (map scan_mapping (map f ?xs)) = map ?g (sort_key (reference_order \<circ> ?g) ?xs)"
    by (simp add: sort_key_map comp_def)
  also have "sort_key (reference_order \<circ> ?g) ?xs = ?ys" by (rule sort_key_cong) (use eq in auto)
  finally have s: "sort_key reference_order (map scan_mapping (map f ?xs)) = map ?g ?ys" .
  have s': "sort_key reference_order (map scan_mapping ?xs) = map scan_mapping ?ys" by (simp add: sort_key_map comp_def)
  have ys: "set ?ys = set ?xs" by simp
  show ?thesis
  proof (cases ?ys)
    case Nil
    then show ?thesis unfolding resolve_external_reference_def rows fl s s' by simp
  next
    case (Cons b zs)
    have e: "\<forall>x \<in> set (b # zs). mp_resolution_priority (?g x) = mp_resolution_priority (scan_mapping x) \<and>
        mp_confidence (?g x) = mp_confidence (scan_mapping x) \<and> mp_canonical_entity_id (?g x) = mp_canonical_entity_id (scan_mapping x)"
      using eq unfolding Cons [symmetric] ys by blast
    have "b \<in> set ?xs" using Cons ys by auto
    with eq have "mp_canonical_entity_id (?g b) = mp_canonical_entity_id (scan_mapping b)"
      "mp_external_reference_id (?g b) = mp_external_reference_id (scan_mapping b)" by blast+
    then show ?thesis unfolding resolve_external_reference_def rows fl s s' Cons reference_view_def
      using compare_entities_map [OF e] by (simp add: sum.map_comp comp_def)
  qed
qed

text \<open>
  C33 (retiring a mapping keeps its history): after a mapping has been retired, the reverse lookup of any native object at an instant
  before the retirement gives the same entity, reference and reason, or the same error, as it gave before.
\<close>

theorem retirement_keeps_history:
  assumes "mapping_reachable w" and "transition_mapping a now i expected t w = Inr (r', w')" and "mc_to t = ''RETIRED''" and "at < micro now"
  shows "reference_view (resolve_external_reference tenant n at w') = reference_view (resolve_external_reference tenant n at w)"
proof -
  from assms(2) obtain r where l: "lock_mapping i expected w = Inr r" and tr: "transition_locked_mapping a now r t (ac_actor_id a) w = Inr (r', w')"
    by (auto simp: transition_mapping_def split: if_splits sum.splits)
  from tr have r': "r' = moved_row now t (ac_actor_id a) r" "mt_status r \<in> {''ACTIVE'', ''DEPRECATED'', ''SUSPENDED''}"
    and w': "w' = record_mapping_change a r' (transition_action (mc_to t)) (replace_mapping r' w)"
    by (auto simp: transition_locked_mapping_def mapping_transitions_def assms(3) Let_def split: option.splits if_splits)
  note ok = reachable_ok [OF assms(1)]
  from ok have d: "distinct (map mt_id (md_rows w))" by (simp add: mapping_tables_ok_def)
  from lock_mapping_row [OF l] mapping_by_id_iff [OF d] have r: "r \<in> set (md_rows w)" by blast
  with ok r'(2) have act: "mt_status r = ''ACTIVE''" "mt_approved_at r \<noteq> None" by (auto simp: mapping_tables_ok_def row_governed_def)
  have force: "in_force_at r' at" "in_force_at r at" using act assms(3,4) by (simp_all add: r'(1) in_force_at_def moved_row_def Let_def)
  have id: "mt_id r' = mt_id r" "mapping_content r' = mapping_content r" by (simp_all add: r'(1))
  show ?thesis
  proof (rule reference_view_map)
    show "md_rows w' = map (\<lambda>s. if mt_id s = mt_id r' then r' else s) (md_rows w)" by (simp add: w')
    show "md_references w' = md_references w" by (simp add: w' record_mapping_change_def replace_mapping_def)
    fix s assume s: "s \<in> set (md_rows w)"
    have "s = r" if "mt_id s = mt_id r" using d r s that by (auto simp: distinct_map inj_on_def)
    with force id show "in_force_at (if mt_id s = mt_id r' then r' else s) at = in_force_at s at \<and>
      mt_id (if mt_id s = mt_id r' then r' else s) = mt_id s \<and> mapping_content (if mt_id s = mt_id r' then r' else s) = mapping_content s" by auto
  qed
qed

section \<open>An example\<close>

definition ex_admin :: "string \<Rightarrow> actor" where
  "ex_admin i = \<lparr>ac_actor_id = i, ac_actor_type = ''human'', ac_correlation_id = ''00000000-0000-0000-0000-000000000001''\<rparr>"

definition ex_tables :: mapping_tables where
  "ex_tables = \<lparr>md_rows = [], md_references = [],
     md_entities = [(''00000000-0000-0000-0000-000000000001'', Some ''t''), (''00000000-0000-0000-0000-000000000002'', Some ''t'')],
     md_memberships = [], md_scopes = [], md_instance_keys = [], md_audit = []\<rparr>"

definition ex_proposal :: mapping_row where
  "ex_proposal = (ex_mapping ''map_aaaa'' [] 0)\<lparr>mp_mapping_type := ''ERP'', mp_canonical_entity_id := ''00000000-0000-0000-0000-000000000001'',
     mp_target_canonical_entity_id := ''00000000-0000-0000-0000-000000000002'', mp_scope_id := [], mp_authority := ''erp''\<rparr>"

definition ex_propose :: "mapping_admin_error + (mapping_record \<times> bool) \<times> mapping_tables" where
  "ex_propose = propose_mapping (ex_admin ''a'') 5000 ex_proposal ''k'' ''h'' ex_tables ex_tables"

definition ex_move :: "string \<Rightarrow> instant \<Rightarrow> int \<Rightarrow> string \<Rightarrow> mapping_tables \<Rightarrow> mapping_admin_error + mapping_record \<times> mapping_tables" where
  "ex_move by_actor now n status w =
    transition_mapping (ex_admin by_actor) now ''map_aaaa'' n \<lparr>mc_to = status, mc_reason = [], mc_successor = []\<rparr> w"

definition ex_draft :: mapping_record where
  "ex_draft = proposed_row (ex_admin ''a'') 5000 ex_proposal ''k'' ''h'' 0 None"

definition ex_row :: "string \<Rightarrow> mapping_record" where
  "ex_row status = (let v = ex_draft\<lparr>mt_status := ''VALIDATED'', mt_revision := 2, mt_validated_at := Some 6000, mt_validated_by := ''a''\<rparr>;
       c = v\<lparr>mt_status := ''ACTIVE'', mt_revision := 3, mt_approved_at := Some 7000, mt_approved_by := ''b''\<rparr>
     in if status = ''DRAFT'' then ex_draft else if status = ''VALIDATED'' then v else if status = ''ACTIVE'' then c
        else c\<lparr>mt_status := ''RETIRED'', mt_revision := 4, mt_retired_at := Some 9000, mt_retired_by := ''a''\<rparr>)"

definition ex_log :: "string \<Rightarrow> string \<Rightarrow> int \<Rightarrow> mapping_audit" where
  "ex_log action who n = \<lparr>mu_action = action, mu_target = ''map_aaaa'', mu_actor = who, mu_revision = n\<rparr>"

definition ex_tables_at :: "string \<Rightarrow> mapping_tables" where
  "ex_tables_at status = ex_tables\<lparr>md_rows := [ex_row status],
     md_audit := take (nat (mt_revision (ex_row status)))
       [ex_log ''mapping.proposed'' ''a'' 1, ex_log ''mapping.validated'' ''a'' 2, ex_log ''mapping.activated'' ''b'' 3, ex_log ''mapping.retired'' ''a'' 4]\<rparr>"

lemma ex_proposed: "ex_propose = Inr ((ex_draft, False), ex_tables_at ''DRAFT'')"
  by code_simp

lemma ex_moves:
  "ex_move ''a'' 6000 1 ''VALIDATED'' (ex_tables_at ''DRAFT'') = Inr (ex_row ''VALIDATED'', ex_tables_at ''VALIDATED'')"
  "ex_move ''a'' 7000 2 ''ACTIVE'' (ex_tables_at ''VALIDATED'') = Inl MaSelfApproval"
  "ex_move ''b'' 7000 1 ''ACTIVE'' (ex_tables_at ''VALIDATED'') = Inl MaRevisionMismatch"
  "ex_move ''b'' 7000 2 ''ACTIVE'' (ex_tables_at ''VALIDATED'') = Inr (ex_row ''ACTIVE'', ex_tables_at ''ACTIVE'')"
  "ex_move ''a'' 9000 3 ''RETIRED'' (ex_tables_at ''ACTIVE'') = Inr (ex_row ''RETIRED'', ex_tables_at ''RETIRED'')"
  by code_simp+

lemma ex_steps:
  "mapping_reachable ex_tables" "mapping_step\<^sup>*\<^sup>* ex_tables (ex_tables_at ''ACTIVE'')" "mapping_reachable (ex_tables_at ''ACTIVE'')"
  "mapping_step\<^sup>*\<^sup>* (ex_tables_at ''ACTIVE'') (ex_tables_at ''RETIRED'')"
proof -
  note move = step_transition [OF ex_moves(1) [unfolded ex_move_def]] step_transition [OF ex_moves(4) [unfolded ex_move_def]]
    step_transition [OF ex_moves(5) [unfolded ex_move_def]]
  have "mapping_step ex_tables (ex_tables_at ''DRAFT'')" by (rule step_propose [OF ex_proposed [unfolded ex_propose_def]])
  with move(1,2) show s: "mapping_step\<^sup>*\<^sup>* ex_tables (ex_tables_at ''ACTIVE'')" by (meson r_into_rtranclp rtranclp.rtrancl_into_rtrancl)
  have e: "md_rows ex_tables = []" "md_references ex_tables = []" by (simp_all add: ex_tables_def)
  then show "mapping_reachable ex_tables" "mapping_reachable (ex_tables_at ''ACTIVE'')" unfolding mapping_reachable_def using s by blast+
  show "mapping_step\<^sup>*\<^sup>* (ex_tables_at ''ACTIVE'') (ex_tables_at ''RETIRED'')" by (rule r_into_rtranclp) (rule move(3))
qed

lemma ex_active_row: "ex_row ''ACTIVE'' \<in> set (md_rows (ex_tables_at ''ACTIVE''))"
  by (simp add: ex_tables_at_def)


theorem validated_content_frozen_witness:
  "\<exists>r' \<in> set (md_rows (ex_tables_at ''RETIRED'')). mt_id r' = mt_id (ex_row ''ACTIVE'') \<and> mapping_content r' = mapping_content (ex_row ''ACTIVE'')"
proof -
  have "mt_status (ex_row ''ACTIVE'') \<noteq> ''DRAFT''" by (simp add: ex_row_def Let_def)
  with validated_content_frozen [OF ex_steps(3,4) ex_active_row] show ?thesis by blast
qed

theorem proposal_idempotent_witness:
  "\<exists>s. mt_id s = mt_id ex_draft \<and> propose_mapping (ex_admin ''a'') 8000 ex_proposal ''k'' ''h'' (ex_tables_at ''DRAFT'') ex_tables = Inr ((s, True), ex_tables)"
  using proposal_idempotent [OF ex_steps(1) rtranclp.rtrancl_refl ex_proposed [unfolded ex_propose_def] rtranclp.rtrancl_refl,
    of 8000 ex_proposal ex_tables] by blast


definition ex_native :: native_identity where
  "ex_native = \<lparr>ni_system_namespace = ''s'', ni_engine_id = ''e'', ni_engine_instance_id = [], ni_environment = [], ni_native_entity_type = ''y'',
     ni_native_id = ''1''\<rparr>"

theorem retirement_keeps_history_witness:
  "reference_view (resolve_external_reference ''t'' ex_native 8000 (ex_tables_at ''RETIRED'')) =
   reference_view (resolve_external_reference ''t'' ex_native 8000 (ex_tables_at ''ACTIVE''))"
  by (rule retirement_keeps_history [OF ex_steps(3) ex_moves(5) [unfolded ex_move_def]]) (simp_all add: micro_def)

end
