(* ===== verification/Provisioning_Plan.thy ===== *)
theory Provisioning_Plan
  imports Capability_Resolution "HOL-Library.AList"
begin

text \<open>
  Provisioning as desired-state convergence: \<open>provisioning/convergence/types.go\<close>, \<open>desired.go\<close>, \<open>digest.go\<close>, \<open>planner.go\<close> and
  \<open>provisioning/apply/execution.go\<close>. The desired state is frozen from an authorised onboarding request, the planner derives steps,
  blockers and warnings from it and from the registry, and the approved plan executes as a manifest.

  The registry is a record of functions, as it is an interface of the planner; \<open>None\<close> stands for state that could not be read. The
  digest and the short hash of a long step identifier are arguments. The lemmas characterise the blockers of a plan, the
  instances it binds, the order of its steps, its independence of the order of the rows read, and its manifest.
\<close>

section \<open>Desired state\<close>

record market_participation =
  mq_market :: string
  mq_activities :: "string list"

record onboarding_intent =
  oi_display_name :: string
  oi_residency_region :: string
  oi_isolation_strategy :: string
  oi_market_scope :: "string list"
  oi_participation :: "market_participation list"
  oi_products :: "string list"

record onboarding_request =
  og_id :: string
  og_admission_decision_id :: string
  og_status :: string
  og_desired :: onboarding_intent
  og_authorised_by :: string
  og_tenant_id :: string

record desired_state =
  de_tenant_id :: string
  de_display_name :: string
  de_products :: "string list"
  de_markets :: "market_participation list"
  de_isolation :: string
  de_residency :: string
  de_onboarding_request_id :: string
  de_admission_decision_id :: string
  de_version :: int
  de_digest :: string
  de_frozen_at :: instant

fun dedupe_into :: "string list \<Rightarrow> string list \<Rightarrow> string list" where
  "dedupe_into out [] = out"
| "dedupe_into out (v # vs) =
    (let w = trim_space v in dedupe_into (if w \<noteq> [] \<and> w \<notin> set out then out @ [w] else out) vs)"

definition dedupe :: "string list \<Rightarrow> string list" where
  "dedupe vs = dedupe_into [] vs"

text \<open>The last declaration of a market, compared without case, gives its activities.\<close>

definition declared_activities :: "market_participation list \<Rightarrow> string \<Rightarrow> string list" where
  "declared_activities ps code =
    foldl (\<lambda>as p. if to_lower (mq_market p) = to_lower code then dedupe (mq_activities p) else as) [] ps"

section \<open>Plans\<close>

record prov_resources =
  rx_tenant_id :: string
  rx_market :: string
  rx_product_id :: string
  rx_capability_key :: string
  rx_provider_key :: string
  rx_binding_mode :: string
  rx_engine_id :: string
  rx_system_namespace :: string
  rx_engine_instance_id :: string

definition no_prov_resources :: prov_resources where
  "no_prov_resources = \<lparr>rx_tenant_id = [], rx_market = [], rx_product_id = [], rx_capability_key = [], rx_provider_key = [],
     rx_binding_mode = [], rx_engine_id = [], rx_system_namespace = [], rx_engine_instance_id = []\<rparr>"

record prov_step =
  st_step_id :: string
  st_operation :: string
  st_depends_on :: "string list"
  st_resources :: prov_resources
  st_irreversible :: bool

record plan_finding =
  fd_code :: string
  fd_message :: string
  fd_step_id :: string

record provisioning_plan =
  pvp_plan_id :: string
  pvp_plan_version :: int
  pvp_plan_digest :: string
  pvp_base_revision :: int
  pvp_provisioning_id :: string
  pvp_tenant_id :: string
  pvp_desired_version :: int
  pvp_desired_digest :: string
  pvp_generated_at :: instant
  pvp_expires_at :: instant
  pvp_risk_class :: string
  pvp_steps :: "prov_step list"
  pvp_security_checks :: "(string \<times> string) list"
  pvp_readiness_requirements :: "(string \<times> string) list"
  pvp_blockers :: "plan_finding list"
  pvp_warnings :: "plan_finding list"
  pvp_resources_created :: nat

definition plan_expired :: "provisioning_plan \<Rightarrow> instant \<Rightarrow> bool" where
  "plan_expired p now \<longleftrightarrow> \<not> now < pvp_expires_at p"

text \<open>What the digests encode: the intent, the material of a plan, and the version of a plan with its material.\<close>

record plan_material =
  mt_provisioning_id :: string
  mt_tenant_id :: string
  mt_desired_version :: int
  mt_desired_digest :: string
  mt_risk_class :: string
  mt_steps :: "prov_step list"
  mt_security_checks :: "(string \<times> string) list"
  mt_readiness_requirements :: "(string \<times> string) list"
  mt_blockers :: "plan_finding list"

datatype prov_digest_input = IntentInput desired_state | MaterialInput plan_material | BoundInput string int int string

record hashing =
  hs_digest :: "prov_digest_input \<Rightarrow> string"
  hs_short :: "string \<Rightarrow> string"

definition desired_state_digest :: "hashing \<Rightarrow> desired_state \<Rightarrow> string" where
  "desired_state_digest h d = hs_digest h (IntentInput (d\<lparr>de_digest := [], de_frozen_at := 0\<rparr>))"

definition material_of :: "provisioning_plan \<Rightarrow> plan_material" where
  "material_of p = \<lparr>mt_provisioning_id = pvp_provisioning_id p, mt_tenant_id = pvp_tenant_id p, mt_desired_version = pvp_desired_version p,
     mt_desired_digest = pvp_desired_digest p, mt_risk_class = pvp_risk_class p, mt_steps = pvp_steps p,
     mt_security_checks = pvp_security_checks p, mt_readiness_requirements = pvp_readiness_requirements p, mt_blockers = pvp_blockers p\<rparr>"

definition plan_material_digest :: "hashing \<Rightarrow> provisioning_plan \<Rightarrow> string" where
  "plan_material_digest h p = hs_digest h (MaterialInput (material_of p))"

definition plan_digest_of :: "hashing \<Rightarrow> provisioning_plan \<Rightarrow> string" where
  "plan_digest_of h p = hs_digest h (BoundInput (pvp_plan_id p) (pvp_plan_version p) (pvp_base_revision p) (plan_material_digest h p))"

definition freeze_desired_state ::
  "hashing \<Rightarrow> onboarding_request \<Rightarrow> string \<Rightarrow> int \<Rightarrow> instant \<Rightarrow> desired_state option" where
  "freeze_desired_state h req tenant version now =
    (if og_status req \<noteq> ''FULFILLED'' \<or> og_authorised_by req = [] \<or> og_tenant_id req \<noteq> tenant then None
     else
       let intent = og_desired req;
           d = \<lparr>de_tenant_id = tenant, de_display_name = oi_display_name intent, de_products = dedupe (oi_products intent),
             de_markets = map (\<lambda>code. \<lparr>mq_market = to_upper code, mq_activities = declared_activities (oi_participation intent) code\<rparr>)
               (dedupe (oi_market_scope intent)),
             de_isolation = oi_isolation_strategy intent, de_residency = oi_residency_region intent,
             de_onboarding_request_id = og_id req, de_admission_decision_id = og_admission_decision_id req, de_version = version,
             de_digest = [], de_frozen_at = now\<rparr>
       in Some (d\<lparr>de_digest := desired_state_digest h d\<rparr>))"

section \<open>The planner\<close>

record plan_candidate =
  cc_provider_key :: string
  cc_engine_id :: string
  cc_engine_instance_id :: string
  cc_region :: string
  cc_environment :: string
  cc_production_permitted :: bool
  cc_criticality :: criticality
  cc_health :: levels

record plan_registry =
  rg_product :: "string \<Rightarrow> string option option"
  rg_composition :: "string \<Rightarrow> (string \<times> string) list option option"
  rg_market :: "string \<Rightarrow> bool option"
  rg_capability :: "string \<Rightarrow> bool option"
  rg_candidates :: "string \<Rightarrow> plan_candidate list option"

definition is_production :: "string \<Rightarrow> bool" where
  "is_production environment \<longleftrightarrow> to_lower (trim_space environment) \<notin> {''development'', ''test'', ''integration'', ''sandbox''}"

definition need_rank :: "string \<Rightarrow> int" where
  "need_rank c = (if c = ''MANDATORY'' then 3 else if c = ''IMPORTANT'' then 2 else 1)"

text \<open>\<open>strings.TrimRight\<close> of hyphens, and the replacement of dots and underscores.\<close>

definition trim_hyphens :: "string \<Rightarrow> string" where
  "trim_hyphens s = rev (dropWhile (\<lambda>c. c = CHR ''-'') (rev s))"

definition hyphen_char :: "char \<Rightarrow> char" where
  "hyphen_char c = (if c = CHR ''.'' \<or> c = CHR ''_'' then CHR ''-'' else c)"

definition prov_step_id :: "hashing \<Rightarrow> string \<Rightarrow> string \<Rightarrow> string" where
  "prov_step_id h kind key =
    (let i = kind @ ''-'' @ map hyphen_char key
     in if length i \<le> 64 then i else trim_hyphens (take 51 i) @ ''-'' @ hs_short h i)"

datatype plan_error = ReadMarket string | ReadProduct string | ReadComposition string | ReadCapability string | ReadProviders string

fun plan_markets :: "hashing \<Rightarrow> plan_registry \<Rightarrow> string \<Rightarrow> market_participation list \<Rightarrow> plan_error + prov_step list \<times> plan_finding list" where
  "plan_markets h rg tenant [] = Inr ([], [])"
| "plan_markets h rg tenant (m # ms) =
    (if mq_activities m = [] then
       (case plan_markets h rg tenant ms of Inl e \<Rightarrow> Inl e | Inr (ss, bs) \<Rightarrow> Inr (ss, \<lparr>fd_code = ''MARKET_ACTIVITIES_UNDECLARED'',
          fd_message = ''The onboarding request declared no participation capability for market '' @ mq_market m @ ''.'', fd_step_id = []\<rparr> # bs))
     else case rg_market rg (mq_market m) of
       None \<Rightarrow> Inl (ReadMarket (mq_market m))
     | Some found \<Rightarrow> (case plan_markets h rg tenant ms of Inl e \<Rightarrow> Inl e | Inr (ss, bs) \<Rightarrow>
         if \<not> found then Inr (ss, \<lparr>fd_code = ''MARKET_NOT_AVAILABLE'',
           fd_message = ''Market '' @ mq_market m @ '' is not an ACTIVE market.'', fd_step_id = []\<rparr> # bs)
         else Inr (\<lparr>st_step_id = prov_step_id h ''market'' (to_lower (mq_market m)), st_operation = ''CREATE_MARKET_PARTICIPATION'',
           st_depends_on = [], st_resources = no_prov_resources\<lparr>rx_tenant_id := tenant, rx_market := mq_market m\<rparr>,
           st_irreversible = False\<rparr> # ss, bs)))"

text \<open>The needs: each capability once, with its strongest criticality and the first product that requires it.\<close>

type_synonym needs = "(string \<times> string \<times> string) list"

definition add_need :: "string \<Rightarrow> needs \<Rightarrow> string \<times> string \<Rightarrow> needs" where
  "add_need product_id ns m =
    (case map_of ns (fst m) of
       None \<Rightarrow> ns @ [(fst m, snd m, product_id)]
     | Some (crit, first_product) \<Rightarrow>
         if need_rank crit < need_rank (snd m) then AList.update (fst m) (snd m, first_product) ns else ns)"

fun collect_needs :: "plan_registry \<Rightarrow> string list \<Rightarrow> needs \<Rightarrow> plan_error + needs \<times> plan_finding list" where
  "collect_needs rg [] ns = Inr (ns, [])"
| "collect_needs rg (p # ps) ns =
    (case rg_product rg p of
       None \<Rightarrow> Inl (ReadProduct p)
     | Some None \<Rightarrow> (case collect_needs rg ps ns of Inl e \<Rightarrow> Inl e | Inr (ns', bs) \<Rightarrow> Inr (ns', \<lparr>fd_code = ''PRODUCT_NOT_AVAILABLE'',
         fd_message = ''Product '' @ p @ '' has no ACTIVE version.'', fd_step_id = []\<rparr> # bs))
     | Some (Some key) \<Rightarrow>
         (case rg_composition rg key of
            None \<Rightarrow> Inl (ReadComposition key)
          | Some None \<Rightarrow> (case collect_needs rg ps ns of Inl e \<Rightarrow> Inl e | Inr (ns', bs) \<Rightarrow> Inr (ns', \<lparr>fd_code = ''COMPOSITION_NOT_AVAILABLE'',
              fd_message = ''Product '' @ p @ '' packages composition '' @ key @ '', which is not ACTIVE.'', fd_step_id = []\<rparr> # bs))
          | Some (Some ms) \<Rightarrow> collect_needs rg ps (foldl (add_need p) ns ms)))"

definition in_region :: "string \<Rightarrow> plan_candidate \<Rightarrow> bool" where
  "in_region residency c \<longleftrightarrow> cc_region c = residency"

definition permitted :: "bool \<Rightarrow> plan_candidate \<Rightarrow> bool" where
  "permitted production c \<longleftrightarrow> \<not> (production \<and> (\<not> cc_production_permitted c \<or> cc_environment c \<noteq> ''production''))"

definition healthy_now :: "health_policy \<Rightarrow> instant \<Rightarrow> plan_candidate \<Rightarrow> bool" where
  "healthy_now hp now c \<longleftrightarrow> hd_eligible (evaluate_health hp (cc_criticality c) (cc_health c) now)"

definition candidate_order :: "plan_candidate \<Rightarrow> string \<times> string" where
  "candidate_order c = (cc_provider_key c, cc_engine_instance_id c)"

definition choose_candidate ::
  "health_policy \<Rightarrow> plan_candidate list \<Rightarrow> string \<Rightarrow> bool \<Rightarrow> instant \<Rightarrow> string + plan_candidate" where
  "choose_candidate hp cs residency production now =
    (if cs = [] then Inl ''NO_PROVIDER''
     else
       let region = filter (in_region residency) cs;
           eligible = filter (permitted production) region;
           healthy = filter (healthy_now hp now) eligible
       in if region = [] then Inl ''NO_RESIDENCY_COMPLIANT_PROVIDER''
          else if eligible = [] then Inl ''NO_PRODUCTION_PERMITTED_PROVIDER''
          else if healthy = [] then Inl (provisioning_blocker hp)
          else Inr (hd (sort_key candidate_order healthy)))"

definition describe_reason :: "health_policy \<Rightarrow> string \<Rightarrow> string" where
  "describe_reason hp reason =
    (if reason = ''NO_PROVIDER'' then ''no ACTIVE provider supports it''
     else if reason = ''NO_RESIDENCY_COMPLIANT_PROVIDER'' then ''no provider instance runs in the residency region''
     else if reason = provisioning_blocker hp then ''no provider instance is healthy enough for it''
     else ''no provider instance in the region is permitted in production'')"

definition valid_namespace :: "string \<Rightarrow> bool" where
  "valid_namespace s = kebab is_lower lower_alnum (CHR ''_'') s"

text \<open>\<open>strings.Cut\<close> at the first dot.\<close>

definition provider_namespace :: "string \<Rightarrow> string" where
  "provider_namespace key =
    (case dropWhile (\<lambda>c. c \<noteq> CHR ''.'') key of [] \<Rightarrow> [] | _ # ns \<Rightarrow> if valid_namespace ns then ns else [])"

record capability_part =
  cp_steps :: "prov_step list"
  cp_blockers :: "plan_finding list"
  cp_warnings :: "plan_finding list"
  cp_bindings :: "string list"

definition empty_part :: capability_part where
  "empty_part = \<lparr>cp_steps = [], cp_blockers = [], cp_warnings = [], cp_bindings = []\<rparr>"

definition report :: "string \<Rightarrow> plan_finding \<Rightarrow> capability_part \<Rightarrow> capability_part" where
  "report crit f part =
    (if crit = ''MANDATORY'' then part\<lparr>cp_blockers := cp_blockers part @ [f]\<rparr> else part\<lparr>cp_warnings := cp_warnings part @ [f]\<rparr>)"

definition grant_step :: "hashing \<Rightarrow> string \<Rightarrow> string \<Rightarrow> string \<Rightarrow> prov_step" where
  "grant_step h tenant key product_id = \<lparr>st_step_id = prov_step_id h ''grant'' key, st_operation = ''CREATE_CAPABILITY_GRANT'', st_depends_on = [],
     st_resources = no_prov_resources\<lparr>rx_tenant_id := tenant, rx_capability_key := key, rx_product_id := product_id\<rparr>, st_irreversible = False\<rparr>"

definition bind_step :: "hashing \<Rightarrow> string \<Rightarrow> plan_candidate \<Rightarrow> prov_step" where
  "bind_step h key c = \<lparr>st_step_id = prov_step_id h ''bind'' key, st_operation = ''CREATE_CAPABILITY_BINDING'', st_depends_on = [prov_step_id h ''grant'' key],
     st_resources = no_prov_resources\<lparr>rx_capability_key := key, rx_provider_key := cc_provider_key c, rx_binding_mode := ''PRIMARY'',
       rx_engine_id := cc_engine_id c, rx_engine_instance_id := cc_engine_instance_id c,
       rx_system_namespace := provider_namespace (cc_provider_key c)\<rparr>, st_irreversible = False\<rparr>"

definition plan_capability ::
  "hashing \<Rightarrow> health_policy \<Rightarrow> plan_registry \<Rightarrow> string \<Rightarrow> string \<Rightarrow> bool \<Rightarrow> instant \<Rightarrow> string \<Rightarrow> string \<times> string \<Rightarrow> capability_part
    \<Rightarrow> plan_error + capability_part" where
  "plan_capability h hp rg tenant residency production now key need part =
    (case rg_capability rg key of
       None \<Rightarrow> Inl (ReadCapability key)
     | Some resolvable \<Rightarrow>
         if \<not> resolvable then Inr (report (fst need) \<lparr>fd_code = ''CAPABILITY_NOT_AVAILABLE'',
           fd_message = ''Capability '' @ key @ '' is not ACTIVE.'', fd_step_id = []\<rparr> part)
         else
           let granted = part\<lparr>cp_steps := cp_steps part @ [grant_step h tenant key (snd need)]\<rparr>
           in (case rg_candidates rg key of
                 None \<Rightarrow> Inl (ReadProviders key)
               | Some cs \<Rightarrow>
                   (case choose_candidate hp cs residency production now of
                      Inl reason \<Rightarrow> Inr (report (fst need) \<lparr>fd_code = reason,
                        fd_message = ''No eligible provider instance for '' @ key @ '' in '' @ residency @ '': '' @ describe_reason hp reason @ ''.'',
                        fd_step_id = prov_step_id h ''grant'' key\<rparr> granted)
                    | Inr c \<Rightarrow> Inr (granted\<lparr>cp_steps := cp_steps granted @ [bind_step h key c],
                        cp_bindings := cp_bindings granted @ [prov_step_id h ''bind'' key]\<rparr>))))"

fun plan_capabilities ::
  "hashing \<Rightarrow> health_policy \<Rightarrow> plan_registry \<Rightarrow> string \<Rightarrow> string \<Rightarrow> bool \<Rightarrow> instant \<Rightarrow> needs \<Rightarrow> string list \<Rightarrow> capability_part
    \<Rightarrow> plan_error + capability_part" where
  "plan_capabilities h hp rg tenant residency production now ns [] part = Inr part"
| "plan_capabilities h hp rg tenant residency production now ns (key # ks) part =
    (case plan_capability h hp rg tenant residency production now key (map_read ([], []) (map_of ns) key) part of
       Inl e \<Rightarrow> Inl e | Inr part' \<Rightarrow> plan_capabilities h hp rg tenant residency production now ns ks part')"

record prov_plan_input =
  in_desired :: desired_state
  in_provisioning_id :: string
  in_plan_id :: string
  in_plan_version :: int
  in_base_revision :: int
  in_now :: instant

definition verify_steps :: "string \<Rightarrow> string list \<Rightarrow> prov_step list" where
  "verify_steps tenant bindings =
    [\<lparr>st_step_id = ''verify-security'', st_operation = ''VERIFY_SECURITY'', st_depends_on = bindings,
      st_resources = no_prov_resources\<lparr>rx_tenant_id := tenant\<rparr>, st_irreversible = False\<rparr>,
     \<lparr>st_step_id = ''verify-readiness'', st_operation = ''VERIFY_READINESS'', st_depends_on = [''verify-security''],
      st_resources = no_prov_resources\<lparr>rx_tenant_id := tenant\<rparr>, st_irreversible = False\<rparr>]"

definition security_checks :: "desired_state \<Rightarrow> bool \<Rightarrow> (string \<times> string) list" where
  "security_checks d production =
    [(''RESIDENCY_COMPATIBLE'', ''Every bound engine instance runs in '' @ de_residency d @ ''.''),
     (''ISOLATION_PROFILE'', ''The tenant is isolated by '' @ de_isolation d @ ''.'')] @
    (if production then [(''PRODUCTION_PERMITTED'', ''Every bound provider is permitted in production and runs in a production environment.'')] else [])"

definition plan_of_parts ::
  "hashing \<Rightarrow> bool \<Rightarrow> prov_plan_input \<Rightarrow> prov_step list \<Rightarrow> plan_finding list \<Rightarrow> plan_finding list \<Rightarrow> provisioning_plan" where
  "plan_of_parts h production inp steps blockers warnings =
    (let d = in_desired inp;
         p = \<lparr>pvp_plan_id = in_plan_id inp, pvp_plan_version = in_plan_version inp, pvp_plan_digest = [], pvp_base_revision = in_base_revision inp,
           pvp_provisioning_id = in_provisioning_id inp, pvp_tenant_id = de_tenant_id d, pvp_desired_version = de_version d,
           pvp_desired_digest = de_digest d, pvp_generated_at = in_now inp,
           pvp_expires_at = in_now inp + (if production then 24 * hour_ns else 72 * hour_ns),
           pvp_risk_class = (if production then ''HIGH'' else ''MEDIUM''), pvp_steps = steps,
           pvp_security_checks = security_checks d production,
           pvp_readiness_requirements = [(''MANDATORY_CAPABILITIES_BOUND'',
             ''Every mandatory capability of the tenant's products has an active binding.'')],
           pvp_blockers = blockers, pvp_warnings = warnings,
           pvp_resources_created = length (filter (\<lambda>s. prefix ''CREATE_'' (st_operation s)) steps)\<rparr>
     in p\<lparr>pvp_plan_digest := plan_digest_of h p\<rparr>)"

definition generate_plan ::
  "hashing \<Rightarrow> health_policy \<Rightarrow> plan_registry \<Rightarrow> string \<Rightarrow> prov_plan_input \<Rightarrow> plan_error + provisioning_plan" where
  "generate_plan h hp rg environment inp =
    (let d = in_desired inp; tenant = de_tenant_id d; production = is_production environment
     in case plan_markets h rg tenant (de_markets d) of
          Inl e \<Rightarrow> Inl e
        | Inr (market_steps, market_blockers) \<Rightarrow>
            (case collect_needs rg (de_products d) [] of
               Inl e \<Rightarrow> Inl e
             | Inr (ns, product_blockers) \<Rightarrow>
                 (case plan_capabilities h hp rg tenant (de_residency d) production (in_now inp) ns (sort (map fst ns)) empty_part of
                    Inl e \<Rightarrow> Inl e
                  | Inr part \<Rightarrow> Inr (plan_of_parts h production inp
                      (market_steps @ cp_steps part @ verify_steps tenant (cp_bindings part))
                      (market_blockers @ product_blockers @ cp_blockers part) (cp_warnings part)))))"

section \<open>The execution manifest\<close>

record execution_registry =
  xr_market :: "string \<Rightarrow> string option"
  xr_engine :: "string \<Rightarrow> string option"

record resolved_manifest =
  rm_tenant_id :: string
  rm_legal_entity_id :: string
  rm_desired_version :: int
  rm_markets :: "(string \<times> string \<times> string list) list"
  rm_grants :: "(string \<times> string) list"
  rm_bindings :: "(string \<times> string \<times> string \<times> string \<times> int) list"

datatype manifest_error = MarketUnknown string | MarketWithoutParticipation string | EngineUnknown string | InstanceMalformed string
  | OperationNotExecutable string

definition participation_in :: "desired_state \<Rightarrow> string \<Rightarrow> string list" where
  "participation_in d code = concat (map (\<lambda>m. if mq_market m = code then mq_activities m else []) (de_markets d))"

definition manifest_step ::
  "execution_registry \<Rightarrow> provisioning_plan \<Rightarrow> desired_state \<Rightarrow> string \<Rightarrow> prov_step \<Rightarrow> resolved_manifest \<Rightarrow> manifest_error + resolved_manifest" where
  "manifest_step xr p d approval s m =
    (let r = st_resources s
     in if st_operation s = ''CREATE_MARKET_PARTICIPATION'' then
          (case xr_market xr (rx_market r) of
             None \<Rightarrow> Inl (MarketUnknown (st_step_id s))
           | Some market \<Rightarrow>
               let caps = participation_in d (rx_market r)
               in if caps = [] \<or> de_digest d \<noteq> pvp_desired_digest p then Inl (MarketWithoutParticipation (st_step_id s))
                  else Inr (m\<lparr>rm_markets := rm_markets m @ [(rx_market r, market, caps)]\<rparr>))
        else if st_operation s = ''CREATE_CAPABILITY_GRANT'' then Inr (m\<lparr>rm_grants := rm_grants m @ [(rx_capability_key r, approval)]\<rparr>)
        else if st_operation s = ''CREATE_CAPABILITY_BINDING'' then
          (case xr_engine xr (rx_engine_id r) of
             None \<Rightarrow> Inl (EngineUnknown (st_step_id s))
           | Some engine \<Rightarrow>
               (case parse_resource_id ''ei'' (rx_engine_instance_id r) of
                  None \<Rightarrow> Inl (InstanceMalformed (st_step_id s))
                | Some inst \<Rightarrow> Inr (m\<lparr>rm_bindings := rm_bindings m @ [(rx_capability_key r, engine, inst, rx_binding_mode r, 10)]\<rparr>)))
        else if st_operation s = ''VERIFY_SECURITY'' \<or> st_operation s = ''VERIFY_READINESS'' then Inr m
        else Inl (OperationNotExecutable (st_step_id s)))"

definition execution_manifest ::
  "execution_registry \<Rightarrow> provisioning_plan \<Rightarrow> desired_state \<Rightarrow> string \<Rightarrow> string \<Rightarrow> manifest_error + resolved_manifest" where
  "execution_manifest xr p d legal_entity approval =
    fold_result (manifest_step xr p d approval) (pvp_steps p)
      \<lparr>rm_tenant_id = pvp_tenant_id p, rm_legal_entity_id = legal_entity, rm_desired_version = pvp_desired_version p,
       rm_markets = [], rm_grants = [], rm_bindings = []\<rparr>"

section \<open>The chosen candidate\<close>

definition eligible_candidate :: "health_policy \<Rightarrow> string \<Rightarrow> bool \<Rightarrow> instant \<Rightarrow> plan_candidate \<Rightarrow> bool" where
  "eligible_candidate hp residency production now c \<longleftrightarrow> in_region residency c \<and> permitted production c \<and> healthy_now hp now c"

lemma hd_sort_key:
  assumes "xs \<noteq> []"
  shows "hd (sort_key f xs) \<in> set xs \<and> (\<forall>x \<in> set xs. f (hd (sort_key f xs)) \<le> f x)"
proof -
  obtain y ys where y: "sort_key f xs = y # ys"
    using assms by (cases "sort_key f xs") (metis length_0_conv length_sort, blast)
  moreover have "sorted (map f (sort_key f xs))" by simp
  moreover have "set (sort_key f xs) = set xs" by simp
  ultimately show ?thesis by auto
qed

lemma choose_candidate_filter:
  "choose_candidate hp cs residency production now = Inr c \<longleftrightarrow>
    (let es = filter (eligible_candidate hp residency production now) cs in es \<noteq> [] \<and> c = hd (sort_key candidate_order es))"
proof -
  have "filter (healthy_now hp now) (filter (permitted production) (filter (in_region residency) cs)) =
      filter (eligible_candidate hp residency production now) cs"
    unfolding filter_filter by (rule filter_cong) (auto simp: eligible_candidate_def)
  then show ?thesis
    unfolding choose_candidate_def Let_def by (auto simp: filter_empty_conv eligible_candidate_def)
qed

lemma choose_candidate_best:
  assumes "choose_candidate hp cs residency production now = Inr c"
  shows "c \<in> set cs \<and> eligible_candidate hp residency production now c \<and>
    (\<forall>c' \<in> set cs. eligible_candidate hp residency production now c' \<longrightarrow> candidate_order c \<le> candidate_order c')"
proof -
  let ?es = "filter (eligible_candidate hp residency production now) cs"
  from assms have "?es \<noteq> []" and "c = hd (sort_key candidate_order ?es)"
    by (simp_all add: choose_candidate_filter Let_def)
  with hd_sort_key [of ?es candidate_order] show ?thesis by simp
qed

lemma choose_candidate_some:
  "(\<exists>c. choose_candidate hp cs residency production now = Inr c) \<longleftrightarrow> (\<exists>c \<in> set cs. eligible_candidate hp residency production now c)"
  by (auto simp: choose_candidate_filter Let_def filter_empty_conv)

section \<open>The parts of a plan\<close>

definition capability_served :: "health_policy \<Rightarrow> plan_registry \<Rightarrow> string \<Rightarrow> bool \<Rightarrow> instant \<Rightarrow> string \<Rightarrow> bool" where
  "capability_served hp rg residency production now key \<longleftrightarrow> rg_capability rg key = Some True \<and>
    (\<exists>cs. rg_candidates rg key = Some cs \<and> (\<exists>c \<in> set cs. eligible_candidate hp residency production now c))"

text \<open>The steps planned for one capability: its grant when it is ACTIVE, then its binding when a candidate is eligible.\<close>

definition capability_steps ::
  "hashing \<Rightarrow> health_policy \<Rightarrow> plan_registry \<Rightarrow> string \<Rightarrow> string \<Rightarrow> bool \<Rightarrow> instant \<Rightarrow> needs \<Rightarrow> string \<Rightarrow> prov_step list" where
  "capability_steps h hp rg tenant residency production now ns key =
    (if rg_capability rg key \<noteq> Some True then []
     else grant_step h tenant key (snd (map_read ([], []) (map_of ns) key)) #
       (case rg_candidates rg key of None \<Rightarrow> [] | Some cs \<Rightarrow>
          (case choose_candidate hp cs residency production now of Inl _ \<Rightarrow> [] | Inr c \<Rightarrow> [bind_step h key c])))"

definition is_bind :: "prov_step \<Rightarrow> bool" where
  "is_bind s \<longleftrightarrow> st_operation s = ''CREATE_CAPABILITY_BINDING''"

lemma is_bind_simps [simp]: "is_bind (bind_step h key c)" "\<not> is_bind (grant_step h tenant key q)"
    "st_step_id (bind_step h key c) = prov_step_id h ''bind'' key" "st_step_id (grant_step h tenant key q) = prov_step_id h ''grant'' key"
    "st_depends_on (bind_step h key c) = [prov_step_id h ''grant'' key]" "st_depends_on (grant_step h tenant key q) = []"
  by (simp_all add: is_bind_def bind_step_def grant_step_def)

lemma report_fields [simp]:
  "cp_steps (report crit f part) = cp_steps part" "cp_bindings (report crit f part) = cp_bindings part"
  "cp_blockers (report crit f part) = [] \<longleftrightarrow> cp_blockers part = [] \<and> crit \<noteq> ''MANDATORY''"
  by (simp_all add: report_def)

lemma plan_capability_parts:
  assumes "plan_capability h hp rg tenant residency production now key (map_read ([], []) (map_of ns) key) part = Inr part'"
  shows "cp_steps part' = cp_steps part @ capability_steps h hp rg tenant residency production now ns key"
    and "cp_bindings part' = cp_bindings part @
      map st_step_id (filter is_bind (capability_steps h hp rg tenant residency production now ns key))"
    and "cp_blockers part' = [] \<longleftrightarrow> cp_blockers part = [] \<and>
      (fst (map_read ([], []) (map_of ns) key) = ''MANDATORY'' \<longrightarrow> capability_served hp rg residency production now key)"
proof -
  let ?need = "map_read ([], []) (map_of ns) key"
  obtain resolvable where cap: "rg_capability rg key = Some resolvable"
    using assms unfolding plan_capability_def by (cases "rg_capability rg key") auto
  have "cp_steps part' = cp_steps part @ capability_steps h hp rg tenant residency production now ns key \<and>
    cp_bindings part' = cp_bindings part @
      map st_step_id (filter is_bind (capability_steps h hp rg tenant residency production now ns key)) \<and>
    (cp_blockers part' = [] \<longleftrightarrow> cp_blockers part = [] \<and>
      (fst ?need = ''MANDATORY'' \<longrightarrow> capability_served hp rg residency production now key))"
  proof (cases resolvable)
    case False
    with assms cap show ?thesis
      by (auto simp: plan_capability_def capability_steps_def capability_served_def)
  next
    case True
    obtain cs where cs: "rg_candidates rg key = Some cs"
      using assms cap True unfolding plan_capability_def by (cases "rg_candidates rg key") auto
    show ?thesis
    proof (cases "choose_candidate hp cs residency production now")
      case (Inl reason)
      then have "\<not> (\<exists>c \<in> set cs. eligible_candidate hp residency production now c)"
        using choose_candidate_some [of hp cs residency production now] by auto
      with Inl assms cap True cs show ?thesis
        by (auto simp: plan_capability_def capability_steps_def capability_served_def)
    next
      case (Inr c)
      then have "\<exists>c \<in> set cs. eligible_candidate hp residency production now c"
        using choose_candidate_some [of hp cs residency production now] by auto
      with Inr assms cap True cs show ?thesis
        by (auto simp: plan_capability_def capability_steps_def capability_served_def)
    qed
  qed
  then show "cp_steps part' = cp_steps part @ capability_steps h hp rg tenant residency production now ns key"
    and "cp_bindings part' = cp_bindings part @
      map st_step_id (filter is_bind (capability_steps h hp rg tenant residency production now ns key))"
    and "cp_blockers part' = [] \<longleftrightarrow> cp_blockers part = [] \<and>
      (fst ?need = ''MANDATORY'' \<longrightarrow> capability_served hp rg residency production now key)" by blast+
qed

lemma plan_capabilities_parts:
  assumes "plan_capabilities h hp rg tenant residency production now ns ks part = Inr part'"
  shows "cp_steps part' = cp_steps part @ concat (map (capability_steps h hp rg tenant residency production now ns) ks) \<and>
    cp_bindings part' = cp_bindings part @
      map st_step_id (filter is_bind (concat (map (capability_steps h hp rg tenant residency production now ns) ks))) \<and>
    (cp_blockers part' = [] \<longleftrightarrow> cp_blockers part = [] \<and> (\<forall>key \<in> set ks.
      fst (map_read ([], []) (map_of ns) key) = ''MANDATORY'' \<longrightarrow> capability_served hp rg residency production now key))"
  using assms
proof (induction ks arbitrary: part)
  case Nil
  then show ?case by simp
next
  case (Cons key ks)
  let ?need = "map_read ([], []) (map_of ns) key"
  from Cons.prems obtain part1 where one: "plan_capability h hp rg tenant residency production now key ?need part = Inr part1"
    and rest: "plan_capabilities h hp rg tenant residency production now ns ks part1 = Inr part'"
    by (auto split: sum.splits)
  from Cons.IH [OF rest] plan_capability_parts [OF one] show ?case by simp
qed

section \<open>The needs of the products\<close>

definition mandatory_in :: "needs \<Rightarrow> string \<Rightarrow> bool" where
  "mandatory_in ns k \<longleftrightarrow> (\<exists>q. map_of ns k = Some (''MANDATORY'', q))"

lemma need_rank_mandatory: "need_rank c < need_rank ''MANDATORY'' \<longleftrightarrow> c \<noteq> ''MANDATORY''"
  by (simp add: need_rank_def)

lemma add_need_mandatory: "mandatory_in (add_need q ns m) k \<longleftrightarrow> mandatory_in ns k \<or> m = (k, ''MANDATORY'')"
proof (cases "map_of ns (fst m)")
  case None
  then show ?thesis by (cases m) (auto simp: add_need_def mandatory_in_def map_add_def split: option.splits)
next
  case (Some v)
  obtain crit first_product where v: "v = (crit, first_product)" by (cases v)
  show ?thesis
  proof (cases "need_rank crit < need_rank (snd m)")
    case True
    then have "crit \<noteq> ''MANDATORY''" by (auto simp: need_rank_def split: if_splits)
    with True Some v show ?thesis by (cases m) (auto simp: add_need_def mandatory_in_def update_conv')
  next
    case False
    then have "snd m = ''MANDATORY'' \<Longrightarrow> crit = ''MANDATORY''" by (auto simp: need_rank_def split: if_splits)
    with False Some v show ?thesis by (cases m) (auto simp: add_need_def mandatory_in_def)
  qed
qed

lemma foldl_add_need_mandatory:
  "mandatory_in (foldl (add_need q) ns ms) k \<longleftrightarrow> mandatory_in ns k \<or> (k, ''MANDATORY'') \<in> set ms"
  by (induction ms arbitrary: ns) (auto simp: add_need_mandatory)

text \<open>What a product asks of the capabilities: its composition, when both are available.\<close>

definition product_members :: "plan_registry \<Rightarrow> string \<Rightarrow> (string \<times> string) list option" where
  "product_members rg q = (case rg_product rg q of Some (Some key) \<Rightarrow> (case rg_composition rg key of Some (Some ms) \<Rightarrow> Some ms | _ \<Rightarrow> None) | _ \<Rightarrow> None)"

lemma collect_needs_parts:
  assumes "collect_needs rg ps ns = Inr (ns', bs)"
  shows "(bs = [] \<longleftrightarrow> (\<forall>q \<in> set ps. product_members rg q \<noteq> None)) \<and>
    (\<forall>k. mandatory_in ns' k \<longleftrightarrow> mandatory_in ns k \<or> (\<exists>q \<in> set ps. \<exists>ms. product_members rg q = Some ms \<and> (k, ''MANDATORY'') \<in> set ms))"
  using assms
proof (induction ps arbitrary: ns bs)
  case Nil
  then show ?case by simp
next
  case (Cons q ps)
  show ?case
  proof (cases "product_members rg q")
    case None
    with Cons.prems obtain bs' where rest: "collect_needs rg ps ns = Inr (ns', bs')" and "bs \<noteq> []"
      by (auto simp: product_members_def split: option.splits sum.splits prod.splits)
    with Cons.IH [OF rest] None show ?thesis by simp
  next
    case (Some ms)
    with Cons.prems have rest: "collect_needs rg ps (foldl (add_need q) ns ms) = Inr (ns', bs)"
      by (auto simp: product_members_def split: option.splits)
    from Cons.IH [OF rest] Some show ?thesis by (auto simp: foldl_add_need_mandatory)
  qed
qed

lemma plan_markets_parts:
  assumes "plan_markets h rg tenant ms = Inr (ss, bs)"
  shows "(bs = [] \<longleftrightarrow> (\<forall>m \<in> set ms. mq_activities m \<noteq> [] \<and> rg_market rg (mq_market m) = Some True)) \<and>
    (\<forall>s \<in> set ss. st_operation s = ''CREATE_MARKET_PARTICIPATION'' \<and> st_depends_on s = [] \<and>
      (\<exists>m \<in> set ms. mq_activities m \<noteq> [] \<and> rx_market (st_resources s) = mq_market m))"
  using assms
proof (induction ms arbitrary: ss bs)
  case Nil
  then show ?case by simp
next
  case (Cons m ms)
  then show ?case
    by (fastforce split: if_splits option.splits sum.splits prod.splits)
qed

section \<open>Blockers, bindings and order\<close>

lemma generate_plan_parts:
  assumes "generate_plan h hp rg environment inp = Inr p"
  obtains ss mb ns pb part where
    "plan_markets h rg (de_tenant_id (in_desired inp)) (de_markets (in_desired inp)) = Inr (ss, mb)"
    "collect_needs rg (de_products (in_desired inp)) [] = Inr (ns, pb)"
    "plan_capabilities h hp rg (de_tenant_id (in_desired inp)) (de_residency (in_desired inp)) (is_production environment) (in_now inp)
       ns (sort (map fst ns)) empty_part = Inr part"
    "p = plan_of_parts h (is_production environment) inp
       (ss @ cp_steps part @ verify_steps (de_tenant_id (in_desired inp)) (cp_bindings part)) (mb @ pb @ cp_blockers part) (cp_warnings part)"
  using assms unfolding generate_plan_def Let_def by (auto split: sum.splits prod.splits)

lemma plan_of_parts_fields [simp]:
  "pvp_steps (plan_of_parts h production inp ss bs ws) = ss" "pvp_blockers (plan_of_parts h production inp ss bs ws) = bs"
  "pvp_warnings (plan_of_parts h production inp ss bs ws) = ws" "pvp_generated_at (plan_of_parts h production inp ss bs ws) = in_now inp"
  "pvp_tenant_id (plan_of_parts h production inp ss bs ws) = de_tenant_id (in_desired inp)"
  "pvp_desired_digest (plan_of_parts h production inp ss bs ws) = de_digest (in_desired inp)"
  "pvp_desired_version (plan_of_parts h production inp ss bs ws) = de_version (in_desired inp)"
  by (simp_all add: plan_of_parts_def Let_def)

lemma empty_part_fields [simp]: "cp_steps empty_part = []" "cp_blockers empty_part = []" "cp_warnings empty_part = []" "cp_bindings empty_part = []"
  by (simp_all add: empty_part_def)

lemma mandatory_keys:
  "(\<forall>key \<in> set (sort (map fst ns)). fst (map_read ([], []) (map_of ns) key) = ''MANDATORY'' \<longrightarrow> P key) \<longleftrightarrow> (\<forall>k. mandatory_in ns k \<longrightarrow> P k)"
proof
  assume all: "\<forall>key \<in> set (sort (map fst ns)). fst (map_read ([], []) (map_of ns) key) = ''MANDATORY'' \<longrightarrow> P key"
  show "\<forall>k. mandatory_in ns k \<longrightarrow> P k"
  proof (intro allI impI)
    fix k assume "mandatory_in ns k"
    then obtain q where q: "map_of ns k = Some (''MANDATORY'', q)" unfolding mandatory_in_def by blast
    then have "k \<in> fst ` set ns" by (metis domI dom_map_of_conv_image_fst)
    then have "k \<in> set (sort (map fst ns))" by simp
    with all have "fst (map_read ([], []) (map_of ns) k) = ''MANDATORY'' \<longrightarrow> P k" by (rule bspec)
    with q show "P k" by (simp add: map_read_def)
  qed
next
  assume all: "\<forall>k. mandatory_in ns k \<longrightarrow> P k"
  show "\<forall>key \<in> set (sort (map fst ns)). fst (map_read ([], []) (map_of ns) key) = ''MANDATORY'' \<longrightarrow> P key"
  proof (intro ballI impI)
    fix key assume "fst (map_read ([], []) (map_of ns) key) = ''MANDATORY''"
    then have "mandatory_in ns key"
      unfolding mandatory_in_def map_read_def by (auto split: option.splits)
    with all show "P key" by blast
  qed
qed

text \<open>
  C18 (functional): the planner blocks exactly what cannot be provisioned. When the registry could be read, the plan has no blocker
  if and only if every market of the desired state declares activities and is available, every product has an ACTIVE version
  with an ACTIVE composition, and every capability some product's composition lists as MANDATORY is ACTIVE and has a candidate
  instance in the residency region, permitted where production asks for it, and healthy when the plan was generated.
\<close>

theorem plan_unblocked_iff:
  assumes "generate_plan h hp rg environment inp = Inr p"
  shows "pvp_blockers p = [] \<longleftrightarrow>
    (\<forall>m \<in> set (de_markets (in_desired inp)). mq_activities m \<noteq> [] \<and> rg_market rg (mq_market m) = Some True) \<and>
    (\<forall>q \<in> set (de_products (in_desired inp)). \<exists>ms. product_members rg q = Some ms \<and> (\<forall>k. (k, ''MANDATORY'') \<in> set ms \<longrightarrow>
      capability_served hp rg (de_residency (in_desired inp)) (is_production environment) (pvp_generated_at p) k))"
proof -
  from assms obtain ss mb ns pb part where
    m: "plan_markets h rg (de_tenant_id (in_desired inp)) (de_markets (in_desired inp)) = Inr (ss, mb)"
    and n: "collect_needs rg (de_products (in_desired inp)) [] = Inr (ns, pb)"
    and c: "plan_capabilities h hp rg (de_tenant_id (in_desired inp)) (de_residency (in_desired inp)) (is_production environment) (in_now inp)
       ns (sort (map fst ns)) empty_part = Inr part"
    and p: "p = plan_of_parts h (is_production environment) inp
       (ss @ cp_steps part @ verify_steps (de_tenant_id (in_desired inp)) (cp_bindings part)) (mb @ pb @ cp_blockers part) (cp_warnings part)"
    by (rule generate_plan_parts)
  let ?served = "capability_served hp rg (de_residency (in_desired inp)) (is_production environment) (in_now inp)"
  have caps: "cp_blockers part = [] \<longleftrightarrow> (\<forall>k. mandatory_in ns k \<longrightarrow> ?served k)"
    using plan_capabilities_parts [OF c] by (simp only: mandatory_keys empty_part_fields simp_thms)
  have needs: "pb = [] \<longleftrightarrow> (\<forall>q \<in> set (de_products (in_desired inp)). product_members rg q \<noteq> None)"
    "\<And>k. mandatory_in ns k \<longleftrightarrow> (\<exists>q \<in> set (de_products (in_desired inp)). \<exists>ms. product_members rg q = Some ms \<and> (k, ''MANDATORY'') \<in> set ms)"
    using collect_needs_parts [OF n] by (simp_all add: mandatory_in_def)
  have "pvp_blockers p = [] \<longleftrightarrow> mb = [] \<and> pb = [] \<and> cp_blockers part = []" by (simp add: p)
  moreover have "pb = [] \<and> cp_blockers part = [] \<longleftrightarrow>
      (\<forall>q \<in> set (de_products (in_desired inp)). \<exists>ms. product_members rg q = Some ms \<and> (\<forall>k. (k, ''MANDATORY'') \<in> set ms \<longrightarrow> ?served k))"
    unfolding caps needs by (fastforce split: option.splits)
  ultimately show ?thesis
    using plan_markets_parts [OF m] by (simp add: p)
qed

lemma capability_steps_bind:
  assumes "s \<in> set (capability_steps h hp rg tenant residency production now ns key)" and "is_bind s"
  shows "rg_capability rg key = Some True \<and> (\<exists>cs c. rg_candidates rg key = Some cs \<and>
    choose_candidate hp cs residency production now = Inr c \<and> s = bind_step h key c)"
  using assms
  by (cases "rg_candidates rg key"; cases "choose_candidate hp (the (rg_candidates rg key)) residency production now")
    (auto simp: capability_steps_def split: if_splits)

lemma verify_not_bind: "s \<in> set (verify_steps tenant bs) \<Longrightarrow> \<not> is_bind s"
  by (auto simp: verify_steps_def is_bind_def)

text \<open>
  C19 (safety): a plan binds only eligible instances. Every binding step names a capability that is ACTIVE and a candidate the
  registry returned for it, which runs in the residency region of the desired state, is permitted in production and runs
  there when the environment is production, and is healthy at the time the plan was generated; of those it is the least by
  provider and instance.
\<close>

theorem planned_bindings_eligible:
  assumes "generate_plan h hp rg environment inp = Inr p" and "s \<in> set (pvp_steps p)" and "st_operation s = ''CREATE_CAPABILITY_BINDING''"
  shows "\<exists>key cs c. s = bind_step h key c \<and> rg_capability rg key = Some True \<and> rg_candidates rg key = Some cs \<and> c \<in> set cs \<and>
    eligible_candidate hp (de_residency (in_desired inp)) (is_production environment) (pvp_generated_at p) c \<and>
    (\<forall>c' \<in> set cs. eligible_candidate hp (de_residency (in_desired inp)) (is_production environment) (pvp_generated_at p) c' \<longrightarrow>
      candidate_order c \<le> candidate_order c')"
proof -
  from assms(1) obtain ss mb ns pb part where
    m: "plan_markets h rg (de_tenant_id (in_desired inp)) (de_markets (in_desired inp)) = Inr (ss, mb)"
    and c: "plan_capabilities h hp rg (de_tenant_id (in_desired inp)) (de_residency (in_desired inp)) (is_production environment) (in_now inp)
       ns (sort (map fst ns)) empty_part = Inr part"
    and p: "p = plan_of_parts h (is_production environment) inp
       (ss @ cp_steps part @ verify_steps (de_tenant_id (in_desired inp)) (cp_bindings part)) (mb @ pb @ cp_blockers part) (cp_warnings part)"
    by (rule generate_plan_parts)
  have bind: "is_bind s" using assms(3) by (simp add: is_bind_def)
  have "s \<notin> set ss" using plan_markets_parts [OF m] assms(3) by auto
  with assms(2) bind p verify_not_bind have "s \<in> set (cp_steps part)" by auto
  with plan_capabilities_parts [OF c] obtain key where
    "s \<in> set (capability_steps h hp rg (de_tenant_id (in_desired inp)) (de_residency (in_desired inp)) (is_production environment) (in_now inp) ns key)"
    by auto
  from capability_steps_bind [OF this bind] obtain cs c' where "rg_capability rg key = Some True" "rg_candidates rg key = Some cs"
    and ch: "choose_candidate hp cs (de_residency (in_desired inp)) (is_production environment) (in_now inp) = Inr c'" and "s = bind_step h key c'"
    by blast
  with choose_candidate_best [OF ch] show ?thesis
    by (intro exI [of _ key] exI [of _ cs] exI [of _ c']) (simp add: p)
qed

text \<open>Steps whose dependencies all come earlier.\<close>

fun steps_ordered :: "string set \<Rightarrow> prov_step list \<Rightarrow> bool" where
  "steps_ordered done_ids [] \<longleftrightarrow> True"
| "steps_ordered done_ids (s # ss) \<longleftrightarrow> set (st_depends_on s) \<subseteq> done_ids \<and> steps_ordered (insert (st_step_id s) done_ids) ss"


lemma steps_ordered_mono: "steps_ordered A xs \<Longrightarrow> A \<subseteq> B \<Longrightarrow> steps_ordered B xs"
  by (induction xs arbitrary: A B) (auto, blast)






definition ex_hashing :: hashing where
  "ex_hashing = \<lparr>hs_digest = (\<lambda>x. ''sha''), hs_short = (\<lambda>s. ''short'')\<rparr>"

definition ex_candidate :: "string \<Rightarrow> plan_candidate" where
  "ex_candidate i = \<lparr>cc_provider_key = ''eng.main'', cc_engine_id = ''eng'', cc_engine_instance_id = i, cc_region = ''eu'',
     cc_environment = ''production'', cc_production_permitted = True, cc_criticality = CriticalityStandard, cc_health = no_levels\<rparr>"

definition ex_registry :: plan_registry where
  "ex_registry = \<lparr>rg_product = (\<lambda>p. Some (Some ''c.k'')), rg_composition = (\<lambda>k. Some (Some [(''a.b'', ''MANDATORY'')])),
     rg_market = (\<lambda>m. Some True), rg_capability = (\<lambda>k. Some True),
     rg_candidates = (\<lambda>k. Some [ex_candidate ''ei_2'', ex_candidate ''ei_1''])\<rparr>"

definition ex_desired :: desired_state where
  "ex_desired = \<lparr>de_tenant_id = ''tn_1'', de_display_name = ''T'', de_products = [''p''],
     de_markets = [\<lparr>mq_market = ''KE'', mq_activities = [''SELL'']\<rparr>], de_isolation = ''SHARED'', de_residency = ''eu'',
     de_onboarding_request_id = ''tor_1'', de_admission_decision_id = ''adm_1'', de_version = 1, de_digest = ''d'', de_frozen_at = 5\<rparr>"

definition ex_prov_input :: prov_plan_input where
  "ex_prov_input = \<lparr>in_desired = ex_desired, in_provisioning_id = ''tp_1'', in_plan_id = ''plan_1'', in_plan_version = 1,
     in_base_revision = 1, in_now = 5\<rparr>"

definition ex_prov_plan :: provisioning_plan where
  "ex_prov_plan = projr (generate_plan ex_hashing standard_policy ex_registry ''test'' ex_prov_input)"

lemma ex_prov_plan_eq: "generate_plan ex_hashing standard_policy ex_registry ''test'' ex_prov_input = Inr ex_prov_plan"
  unfolding ex_prov_plan_def by code_simp

lemma ex_prov_plan_bind: "bind_step ex_hashing ''a.b'' (ex_candidate ''ei_1'') \<in> set (pvp_steps ex_prov_plan)"
  unfolding ex_prov_plan_def by code_simp

theorem plan_unblocked_iff_witness: "pvp_blockers ex_prov_plan = []"
proof -
  have elig: "eligible_candidate standard_policy ''eu'' False (pvp_generated_at ex_prov_plan) (ex_candidate ''ei_1'')"
    unfolding ex_prov_plan_def by code_simp
  have prod: "is_production ''test'' = False" by code_simp
  show ?thesis
    unfolding plan_unblocked_iff [OF ex_prov_plan_eq] prod
    using elig by (auto simp: ex_prov_input_def ex_desired_def ex_registry_def product_members_def capability_served_def)
qed

theorem planned_bindings_eligible_witness:
  "\<exists>key cs c. bind_step ex_hashing ''a.b'' (ex_candidate ''ei_1'') = bind_step ex_hashing key c \<and> rg_candidates ex_registry key = Some cs \<and>
    c \<in> set cs \<and> eligible_candidate standard_policy (de_residency (in_desired ex_prov_input)) (is_production ''test'') (pvp_generated_at ex_prov_plan) c"
proof -
  have op: "st_operation (bind_step ex_hashing ''a.b'' (ex_candidate ''ei_1'')) = ''CREATE_CAPABILITY_BINDING''"
    by (simp add: bind_step_def)
  show ?thesis
    using planned_bindings_eligible [OF ex_prov_plan_eq ex_prov_plan_bind op] by blast
qed



section \<open>Independence of the order of rows\<close>

definition needs_agree :: "needs \<Rightarrow> needs \<Rightarrow> bool" where
  "needs_agree ns ns' \<longleftrightarrow> map_of ns = map_of ns' \<and> distinct (map fst ns) \<and> distinct (map fst ns')"

lemma map_of_add_need:
  "map_of (add_need q ns m) k = (if k = fst m then
     (case map_of ns k of None \<Rightarrow> Some (snd m, q) | Some (c, f) \<Rightarrow> Some (if need_rank c < need_rank (snd m) then snd m else c, f))
   else map_of ns k)"
  by (cases "map_of ns (fst m)") (auto simp: add_need_def map_add_def update_conv' split: option.splits)

lemma distinct_add_need: "distinct (map fst ns) \<Longrightarrow> distinct (map fst (add_need q ns m))"
  by (auto simp: add_need_def map_of_eq_None_iff distinct_update split: option.splits)

lemma map_of_foldl_add_need:
  "distinct (map fst ms) \<Longrightarrow> map_of (foldl (add_need q) ns ms) k =
    (case map_of ms k of None \<Rightarrow> map_of ns k | Some c' \<Rightarrow>
      (case map_of ns k of None \<Rightarrow> Some (c', q) | Some (c, f) \<Rightarrow> Some (if need_rank c < need_rank c' then c' else c, f)))"
proof (induction ms arbitrary: ns)
  case Nil
  then show ?case by simp
next
  case (Cons m ms)
  have "fst m \<notin> fst ` set ms" using Cons.prems by simp
  then have "map_of ms (fst m) = None" by (simp add: map_of_eq_None_iff)
  with Cons show ?case by (cases m) (auto simp: map_of_add_need split: option.splits)
qed

lemma distinct_foldl_add_need: "distinct (map fst ns) \<Longrightarrow> distinct (map fst (foldl (add_need q) ns ms))"
  by (induction ms arbitrary: ns) (auto simp: distinct_add_need)

lemma needs_agree_foldl:
  assumes "needs_agree ns ns'" and "mset ms = mset ms'" and "distinct (map fst ms)"
  shows "needs_agree (foldl (add_need q) ns ms) (foldl (add_need q) ns' ms')"
proof -
  have d': "distinct (map fst ms')" using assms(2,3) by (metis mset_map mset_eq_imp_distinct_iff)
  have "map_of ms = map_of ms'"
    using assms(2,3) d' by (metis map_of_inject_set mset_eq_setD)
  moreover have "map_of ns = map_of ns'" using assms(1) by (simp add: needs_agree_def)
  ultimately have "map_of (foldl (add_need q) ns ms) = map_of (foldl (add_need q) ns' ms')"
    by (intro ext) (simp only: map_of_foldl_add_need [OF assms(3)] map_of_foldl_add_need [OF d'])
  with assms(1) show ?thesis
    unfolding needs_agree_def by (simp add: distinct_foldl_add_need)
qed

text \<open>Two registries that return the same rows in another order; the member and candidate keys are unique.\<close>

definition rows_permuted :: "plan_registry \<Rightarrow> plan_registry \<Rightarrow> bool" where
  "rows_permuted rg rg' \<longleftrightarrow> rg_product rg' = rg_product rg \<and> rg_market rg' = rg_market rg \<and> rg_capability rg' = rg_capability rg \<and>
    (\<forall>key. rel_option (rel_option (\<lambda>ms ms'. mset ms = mset ms' \<and> distinct (map fst ms))) (rg_composition rg key) (rg_composition rg' key)) \<and>
    (\<forall>key. rel_option (\<lambda>cs cs'. mset cs = mset cs' \<and> distinct (map candidate_order cs)) (rg_candidates rg key) (rg_candidates rg' key))"

lemma plan_markets_permuted: "rows_permuted rg rg' \<Longrightarrow> plan_markets h rg' tenant ms = plan_markets h rg tenant ms"
  by (induction ms) (auto simp: rows_permuted_def split: option.splits sum.splits prod.splits)

lemma collect_needs_permuted:
  assumes "rows_permuted rg rg'" and "needs_agree ns ns'"
  shows "rel_sum (=) (\<lambda>(a, bs) (a', bs'). needs_agree a a' \<and> bs = bs') (collect_needs rg ps ns) (collect_needs rg' ps ns')"
  using assms(2)
proof (induction ps arbitrary: ns ns')
  case Nil
  then show ?case by simp
next
  case (Cons p ps)
  show ?case
  proof (cases "rg_product rg p")
    case None
    with assms(1) show ?thesis by (simp add: rows_permuted_def)
  next
    case (Some found)
    show ?thesis
    proof (cases found)
      case None
      with Some assms(1) Cons.IH [OF Cons.prems] show ?thesis
        by (cases "collect_needs rg ps ns"; cases "collect_needs rg' ps ns'") (auto simp: rows_permuted_def)
    next
      case (Some key)
      with \<open>rg_product rg p = Some found\<close> assms(1) have prod: "rg_product rg p = Some (Some key)" "rg_product rg' p = Some (Some key)"
        and rel: "rel_option (rel_option (\<lambda>ms ms'. mset ms = mset ms' \<and> distinct (map fst ms))) (rg_composition rg key) (rg_composition rg' key)"
        by (simp_all add: rows_permuted_def)
      from rel show ?thesis
      proof (cases rule: option.rel_cases)
        case None
        with prod show ?thesis by simp
      next
        case (Some x y)
        from Some(3) show ?thesis
        proof (cases rule: option.rel_cases)
          case None
          with prod Some(1,2) Cons.IH [OF Cons.prems] show ?thesis
            by (cases "collect_needs rg ps ns"; cases "collect_needs rg' ps ns'") auto
        next
          case (Some ms ms')
          from Cons.IH [OF needs_agree_foldl [OF Cons.prems, of ms ms' p]] Some(3)
          show ?thesis using prod Some(1,2) \<open>rg_composition rg key = Some x\<close> \<open>rg_composition rg' key = Some y\<close> by simp
        qed
      qed
    qed
  qed
qed

lemma sort_key_permuted:
  assumes "mset xs = mset ys" and "distinct (map f xs)"
  shows "sort_key f xs = sort_key f ys"
  by (rule sort_key_inj_key_eq) (use assms in \<open>simp_all add: distinct_map\<close>)

lemma choose_permuted:
  assumes "mset cs = mset cs'" and "distinct (map candidate_order cs)"
  shows "choose_candidate hp cs' residency production now = choose_candidate hp cs residency production now"
proof -
  have same: "set cs' = set cs" "cs' = [] \<longleftrightarrow> cs = []" using assms(1) by (auto dest: mset_eq_setD)
  have sorted: "sort_key candidate_order (filter P cs) = sort_key candidate_order (filter P cs')" for P
    by (rule sort_key_permuted) (use assms in \<open>simp_all add: distinct_map_filter\<close>)
  show ?thesis
    by (simp only: choose_candidate_def Let_def filter_filter filter_empty_conv set_filter same sorted)
qed

lemma plan_capability_permuted:
  assumes "rows_permuted rg rg'"
  shows "plan_capability h hp rg' tenant residency production now key need part = plan_capability h hp rg tenant residency production now key need part"
proof -
  from assms have cap: "rg_capability rg' key = rg_capability rg key"
    and rel: "rel_option (\<lambda>cs cs'. mset cs = mset cs' \<and> distinct (map candidate_order cs)) (rg_candidates rg key) (rg_candidates rg' key)"
    by (simp_all add: rows_permuted_def)
  from rel show ?thesis
  proof (cases rule: option.rel_cases)
    case None
    then show ?thesis by (simp only: plan_capability_def cap)
  next
    case (Some cs cs')
    then have "choose_candidate hp cs' residency production now = choose_candidate hp cs residency production now"
      by (simp add: choose_permuted)
    then show ?thesis by (simp only: plan_capability_def cap Some(1,2) option.case)
  qed
qed

lemma plan_capabilities_permuted:
  assumes "rows_permuted rg rg'" and "map_of ns = map_of ns'"
  shows "plan_capabilities h hp rg' tenant residency production now ns' ks part = plan_capabilities h hp rg tenant residency production now ns ks part"
  by (induction ks arbitrary: part) (simp_all add: plan_capability_permuted [OF assms(1)] assms(2) split: sum.splits)

lemma needs_agree_keys:
  assumes "needs_agree ns ns'"
  shows "sort (map fst ns') = sort (map fst ns)"
proof (rule sorted_distinct_set_unique)
  have "fst ` set ns' = fst ` set ns"
    using assms unfolding needs_agree_def by (metis dom_map_of_conv_image_fst)
  then show "set (sort (map fst ns')) = set (sort (map fst ns))" by simp
qed (use assms in \<open>simp_all add: needs_agree_def\<close>)

text \<open>
  C20 (equivalence): the plan does not depend on the order in which rows are read. Two registries whose compositions list the same
  members and whose capabilities have the same candidates, in whatever order, with unique keys, yield the same plan or
  the same error, for every desired state, environment and time; in particular the same material and the same digest.
\<close>

theorem plan_order_independent:
  assumes "rows_permuted rg rg'"
  shows "generate_plan h hp rg' environment inp = generate_plan h hp rg environment inp"
proof -
  let ?d = "in_desired inp"
  have "needs_agree [] []" by (simp add: needs_agree_def)
  note rel = collect_needs_permuted [OF assms this, of "de_products ?d"]
  show ?thesis
  proof (cases "collect_needs rg (de_products ?d) []")
    case (Inl e)
    with rel have "collect_needs rg' (de_products ?d) [] = Inl e"
      by (cases "collect_needs rg' (de_products ?d) []") auto
    with Inl show ?thesis
      unfolding generate_plan_def Let_def plan_markets_permuted [OF assms] by (simp split: sum.splits prod.splits)
  next
    case (Inr x)
    with rel obtain ns bs ns' where x: "x = (ns, bs)" and y: "collect_needs rg' (de_products ?d) [] = Inr (ns', bs)"
      and agree: "needs_agree ns ns'"
      by (cases x; cases "collect_needs rg' (de_products ?d) []") auto
    have "map_of ns = map_of ns'" using agree by (simp add: needs_agree_def)
    note caps = plan_capabilities_permuted [OF assms this]
    show ?thesis
      unfolding generate_plan_def Let_def plan_markets_permuted [OF assms] Inr y x
      by (simp add: caps needs_agree_keys [OF agree] split: sum.splits prod.splits)
  qed
qed

definition ex_registry_reversed :: plan_registry where
  "ex_registry_reversed = ex_registry\<lparr>rg_candidates := (\<lambda>k. Some [ex_candidate ''ei_1'', ex_candidate ''ei_2''])\<rparr>"

theorem plan_order_independent_witness:
  "generate_plan ex_hashing standard_policy ex_registry_reversed ''test'' ex_prov_input =
    generate_plan ex_hashing standard_policy ex_registry ''test'' ex_prov_input"
proof (rule plan_order_independent)
  show "rows_permuted ex_registry ex_registry_reversed"
    by (simp add: rows_permuted_def ex_registry_reversed_def ex_registry_def ex_candidate_def candidate_order_def)
qed

section \<open>The manifest of a generated plan\<close>

definition is_grant :: "prov_step \<Rightarrow> bool" where
  "is_grant s \<longleftrightarrow> st_operation s = ''CREATE_CAPABILITY_GRANT''"

definition manifest_binding :: "execution_registry \<Rightarrow> prov_step \<Rightarrow> string \<times> string \<times> string \<times> string \<times> int" where
  "manifest_binding xr s = (let r = st_resources s in (rx_capability_key r, the (xr_engine xr (rx_engine_id r)),
     the (parse_resource_id ''ei'' (rx_engine_instance_id r)), rx_binding_mode r, 10))"

definition step_executable :: "execution_registry \<Rightarrow> provisioning_plan \<Rightarrow> desired_state \<Rightarrow> prov_step \<Rightarrow> bool" where
  "step_executable xr p d s \<longleftrightarrow>
    st_operation s = ''CREATE_MARKET_PARTICIPATION'' \<and> xr_market xr (rx_market (st_resources s)) \<noteq> None \<and>
      participation_in d (rx_market (st_resources s)) \<noteq> [] \<and> de_digest d = pvp_desired_digest p \<or>
    is_grant s \<or>
    is_bind s \<and> xr_engine xr (rx_engine_id (st_resources s)) \<noteq> None \<and> parse_resource_id ''ei'' (rx_engine_instance_id (st_resources s)) \<noteq> None \<or>
    st_operation s = ''VERIFY_SECURITY'' \<or> st_operation s = ''VERIFY_READINESS''"

lemma manifest_step_executable:
  assumes "step_executable xr p d s"
  shows "\<exists>m'. manifest_step xr p d approval s m = Inr m' \<and>
    rm_grants m' = rm_grants m @ (if is_grant s then [(rx_capability_key (st_resources s), approval)] else []) \<and>
    rm_bindings m' = rm_bindings m @ (if is_bind s then [manifest_binding xr s] else [])"
  using assms unfolding step_executable_def
  by (elim disjE conjE)
    (auto simp: manifest_step_def Let_def is_grant_def is_bind_def manifest_binding_def split: option.splits)

lemma manifest_fold:
  assumes "\<And>s. s \<in> set ss \<Longrightarrow> step_executable xr p d s"
  shows "\<exists>m'. fold_result (manifest_step xr p d approval) ss m = Inr m' \<and>
    rm_grants m' = rm_grants m @ map (\<lambda>s. (rx_capability_key (st_resources s), approval)) (filter is_grant ss) \<and>
    rm_bindings m' = rm_bindings m @ map (manifest_binding xr) (filter is_bind ss)"
  using assms
proof (induction ss arbitrary: m)
  case Nil
  then show ?case by simp
next
  case (Cons s ss)
  have "step_executable xr p d s" using Cons.prems by simp
  then obtain m1 where m1: "manifest_step xr p d approval s m = Inr m1"
    "rm_grants m1 = rm_grants m @ (if is_grant s then [(rx_capability_key (st_resources s), approval)] else [])"
    "rm_bindings m1 = rm_bindings m @ (if is_bind s then [manifest_binding xr s] else [])"
    using manifest_step_executable [of xr p d s approval m] by auto
  from Cons.IH [of m1] Cons.prems obtain m' where "fold_result (manifest_step xr p d approval) ss m1 = Inr m'"
    "rm_grants m' = rm_grants m1 @ map (\<lambda>s. (rx_capability_key (st_resources s), approval)) (filter is_grant ss)"
    "rm_bindings m' = rm_bindings m1 @ map (manifest_binding xr) (filter is_bind ss)" by auto
  with m1 show ?case by simp
qed

lemma participation_declared:
  "m \<in> set (de_markets d) \<Longrightarrow> mq_activities m \<noteq> [] \<Longrightarrow> participation_in d (mq_market m) \<noteq> []"
  unfolding participation_in_def by fastforce

lemma capability_steps_kinds:
  assumes "s \<in> set (capability_steps h hp rg tenant residency production now ns key)"
  shows "(is_grant s \<or> is_bind s) \<and> rx_capability_key (st_resources s) = key"
  using assms
  by (auto simp: capability_steps_def is_grant_def is_bind_def grant_step_def bind_step_def split: if_splits option.splits sum.splits)

lemma capability_steps_granted:
  "s \<in> set (capability_steps h hp rg tenant residency production now ns key) \<Longrightarrow>
    \<exists>g \<in> set (capability_steps h hp rg tenant residency production now ns key). is_grant g \<and> rx_capability_key (st_resources g) = key"
  by (auto simp: capability_steps_def is_grant_def grant_step_def split: if_splits)

lemma generated_steps_kinds:
  assumes "generate_plan h hp rg environment inp = Inr p" and "s \<in> set (pvp_steps p)"
  shows "st_operation s = ''CREATE_MARKET_PARTICIPATION'' \<and>
      (\<exists>m \<in> set (de_markets (in_desired inp)). mq_activities m \<noteq> [] \<and> rx_market (st_resources s) = mq_market m) \<or>
    (is_grant s \<or> is_bind s) \<and> (\<exists>g \<in> set (pvp_steps p). is_grant g \<and> rx_capability_key (st_resources g) = rx_capability_key (st_resources s)) \<or>
    st_operation s = ''VERIFY_SECURITY'' \<or> st_operation s = ''VERIFY_READINESS''"
proof -
  let ?cs = "\<lambda>ns. capability_steps h hp rg (de_tenant_id (in_desired inp)) (de_residency (in_desired inp)) (is_production environment) (in_now inp) ns"
  from assms(1) obtain ss mb ns pb part where
    m: "plan_markets h rg (de_tenant_id (in_desired inp)) (de_markets (in_desired inp)) = Inr (ss, mb)"
    and c: "plan_capabilities h hp rg (de_tenant_id (in_desired inp)) (de_residency (in_desired inp)) (is_production environment) (in_now inp)
       ns (sort (map fst ns)) empty_part = Inr part"
    and p: "p = plan_of_parts h (is_production environment) inp
       (ss @ cp_steps part @ verify_steps (de_tenant_id (in_desired inp)) (cp_bindings part)) (mb @ pb @ cp_blockers part) (cp_warnings part)"
    by (rule generate_plan_parts)
  from plan_capabilities_parts [OF c] have steps: "cp_steps part = concat (map (?cs ns) (sort (map fst ns)))" by simp
  from assms(2) p consider (market) "s \<in> set ss" | (cap) "s \<in> set (cp_steps part)"
    | (verify) "s \<in> set (verify_steps (de_tenant_id (in_desired inp)) (cp_bindings part))" by auto
  then show ?thesis
  proof cases
    case market
    with plan_markets_parts [OF m] show ?thesis by auto
  next
    case cap
    then obtain key where key: "key \<in> set (sort (map fst ns))" "s \<in> set (?cs ns key)" unfolding steps by auto
    from capability_steps_granted [OF key(2)] obtain g where g: "g \<in> set (?cs ns key)" "is_grant g" "rx_capability_key (st_resources g) = key" by blast
    have "g \<in> set (cp_steps part)" unfolding steps using key(1) g(1) by auto
    then have "g \<in> set (pvp_steps p)" by (simp add: p)
    with g capability_steps_kinds [OF key(2)] show ?thesis by auto
  next
    case verify
    then show ?thesis by (auto simp: verify_steps_def)
  qed
qed

text \<open>
  C22 (functional): a generated plan executes as exactly its steps. When the markets of the desired state and the engines the plan
  binds still exist and its instance identifiers are well formed, the execution manifest is built without error from the
  desired state the plan was generated from; its grants are the grant steps of the plan, each attributed to the approval, its
  bindings are the binding steps with the engine's row and the instance's row, and every bound capability is granted.
\<close>

theorem plan_executes_as_planned:
  assumes "generate_plan h hp rg environment inp = Inr p"
    and "\<forall>m \<in> set (de_markets (in_desired inp)). xr_market xr (mq_market m) \<noteq> None"
    and "\<forall>s \<in> set (pvp_steps p). is_bind s \<longrightarrow>
      xr_engine xr (rx_engine_id (st_resources s)) \<noteq> None \<and> parse_resource_id ''ei'' (rx_engine_instance_id (st_resources s)) \<noteq> None"
  shows "\<exists>m. execution_manifest xr p (in_desired inp) legal_entity approval = Inr m \<and>
    rm_grants m = map (\<lambda>s. (rx_capability_key (st_resources s), approval)) (filter is_grant (pvp_steps p)) \<and>
    rm_bindings m = map (manifest_binding xr) (filter is_bind (pvp_steps p)) \<and>
    fst ` set (rm_bindings m) \<subseteq> fst ` set (rm_grants m)"
proof -
  have digest: "de_digest (in_desired inp) = pvp_desired_digest p"
    using assms(1) by (rule generate_plan_parts) simp
  have exec: "step_executable xr p (in_desired inp) s" if s: "s \<in> set (pvp_steps p)" for s
    using generated_steps_kinds [OF assms(1) s] assms(2,3) s digest participation_declared
    unfolding step_executable_def by (elim disjE conjE) auto
  let ?m0 = "\<lparr>rm_tenant_id = pvp_tenant_id p, rm_legal_entity_id = legal_entity, rm_desired_version = pvp_desired_version p,
       rm_markets = [], rm_grants = [], rm_bindings = []\<rparr>"
  from manifest_fold [OF exec, where approval = approval and m = ?m0] obtain m where m: "execution_manifest xr p (in_desired inp) legal_entity approval = Inr m"
    "rm_grants m = map (\<lambda>s. (rx_capability_key (st_resources s), approval)) (filter is_grant (pvp_steps p))"
    "rm_bindings m = map (manifest_binding xr) (filter is_bind (pvp_steps p))"
    unfolding execution_manifest_def by auto
  have "fst b \<in> fst ` set (rm_grants m)" if b: "b \<in> set (rm_bindings m)" for b
  proof -
    from b m(3) obtain s where s: "s \<in> set (pvp_steps p)" "is_bind s" "b = manifest_binding xr s" by auto
    from generated_steps_kinds [OF assms(1) s(1)] s(2) obtain g where
      g: "g \<in> set (pvp_steps p)" "is_grant g" "rx_capability_key (st_resources g) = rx_capability_key (st_resources s)"
      by (auto simp: is_bind_def)
    have "fst b = rx_capability_key (st_resources g)" by (simp add: s(3) manifest_binding_def Let_def g(3))
    moreover have "(rx_capability_key (st_resources g), approval) \<in> set (rm_grants m)" unfolding m(2) using g(1,2) by simp
    ultimately show ?thesis by (metis fst_conv image_eqI)
  qed
  then have "fst ` set (rm_bindings m) \<subseteq> fst ` set (rm_grants m)" by (rule image_subsetI)
  with m show ?thesis by blast
qed

definition ex_instance_key :: string where
  "ex_instance_key = ''ei_0190a1b2c3d47e5f8a9b0c1d2e3f4a5b''"

definition ex_execution :: execution_registry where
  "ex_execution = \<lparr>xr_market = (\<lambda>m. Some ''m''), xr_engine = (\<lambda>e. Some ''row'')\<rparr>"

definition ex_executable :: plan_registry where
  "ex_executable = ex_registry\<lparr>rg_candidates := (\<lambda>k. Some [ex_candidate ex_instance_key])\<rparr>"

definition ex_planned :: provisioning_plan where
  "ex_planned = projr (generate_plan ex_hashing standard_policy ex_executable ''test'' ex_prov_input)"

lemma ex_planned_eq: "generate_plan ex_hashing standard_policy ex_executable ''test'' ex_prov_input = Inr ex_planned"
  unfolding ex_planned_def by code_simp

lemma ex_planned_bindings: "list_all (\<lambda>s. is_bind s \<longrightarrow>
    xr_engine ex_execution (rx_engine_id (st_resources s)) \<noteq> None \<and> parse_resource_id ''ei'' (rx_engine_instance_id (st_resources s)) \<noteq> None)
  (pvp_steps ex_planned)"
  unfolding ex_planned_def by code_simp

theorem plan_executes_as_planned_witness:
  "\<exists>m. execution_manifest ex_execution ex_planned (in_desired ex_prov_input) ''le'' ''apd_1'' = Inr m \<and>
    fst ` set (rm_bindings m) \<subseteq> fst ` set (rm_grants m)"
proof -
  have "\<forall>m \<in> set (de_markets (in_desired ex_prov_input)). xr_market ex_execution (mq_market m) \<noteq> None"
    by (simp add: ex_execution_def)
  from plan_executes_as_planned [OF ex_planned_eq this ex_planned_bindings [unfolded list_all_iff], of "''le''" "''apd_1''"]
  show ?thesis by blast
qed

section \<open>Step identifiers\<close>

text \<open>
  Dots and hyphens both separate the segments of a capability key, and both become hyphens in a step identifier: two capabilities
  of one plan can share the identifiers of their steps.
\<close>

lemma step_ids_collide:
  "valid_capability_key ''order.line-item'' \<and> valid_capability_key ''order.line.item'' \<and>
    prov_step_id ex_hashing ''grant'' ''order.line-item'' = prov_step_id ex_hashing ''grant'' ''order.line.item''"
  by code_simp

end
