(* ===== verification/Provisioning_Run.thy ===== *)
theory Provisioning_Run
  imports Resolver
begin

text \<open>
  The tenant provisioning aggregate and its orchestrator: \<open>provisioning/domain/tenant_provisioning.go\<close>,
  \<open>provisioning/orchestrator.go\<close>, the phase workers of \<open>provisioning/workers.go\<close>, \<open>reconciliation.go\<close> and \<open>readiness.go\<close>,
  \<open>service/tenant_provisioning_service.go\<close>, and the reads and writes of \<open>provisioning.tenant_provisioning\<close> in
  \<open>repository/postgres.go\<close> with the trigger that projects the status onto the canonical state.

  The materialisers, resource reconcilers and readiness checks are arguments, as they are interfaces of the code. The lemmas
  show that the loop of the orchestrator ends, that only a converged provisioning becomes ACTIVE, and what a write under an
  outdated version changes.
\<close>

section \<open>The aggregate\<close>

datatype prov_status = ProvPlan | ProvApply | ProvReconcile | ProvReady | ProvActive | ProvFailed | ProvCancelled | ProvOther string

definition prov_status_valid :: "prov_status \<Rightarrow> bool" where
  "prov_status_valid s = (case s of ProvOther _ \<Rightarrow> False | _ \<Rightarrow> True)"

definition prov_terminal :: "prov_status \<Rightarrow> bool" where
  "prov_terminal s \<longleftrightarrow> s = ProvActive \<or> s = ProvCancelled"

definition provisioning_transitions :: "prov_status \<Rightarrow> prov_status list" where
  "provisioning_transitions s =
    (case s of
       ProvPlan \<Rightarrow> [ProvApply, ProvCancelled, ProvFailed]
     | ProvApply \<Rightarrow> [ProvReconcile, ProvCancelled, ProvFailed]
     | ProvReconcile \<Rightarrow> [ProvReady, ProvApply, ProvCancelled, ProvFailed]
     | ProvReady \<Rightarrow> [ProvActive, ProvCancelled, ProvFailed]
     | ProvFailed \<Rightarrow> [ProvApply, ProvCancelled]
     | _ \<Rightarrow> [])"

definition transition_provisioning :: "prov_status \<Rightarrow> prov_status \<Rightarrow> prov_status option" where
  "transition_provisioning s to =
    (if \<not> prov_status_valid s \<or> \<not> prov_status_valid to then None
     else if to \<in> set (provisioning_transitions s) then Some to else None)"

record tenant_provisioning =
  tp_id :: string
  tp_tenant_id :: string
  tp_idempotency_key :: string
  tp_request_hash :: string
  tp_status :: prov_status
  tp_desired_version :: int
  tp_observed_version :: int
  tp_product_requests :: "string list"
  tp_market_requests :: "string list"
  tp_isolation :: string
  tp_residency :: string
  tp_blocking_reasons :: "string list"
  tp_attempt_count :: int
  tp_last_error :: string
  tp_started_at :: instant
  tp_completed_at :: "instant option"
  tp_version :: int

datatype prov_invalid = ProvTenantRequired | ProvKeyRequired | ProvHashRequired | ProvStatusInvalid | ProvStartRequired
  | ProvCompletionRequired | ProvErrorRequired

definition provisioning_validate :: "tenant_provisioning \<Rightarrow> prov_invalid option" where
  "provisioning_validate p =
    (if trim_space (tp_tenant_id p) = [] then Some ProvTenantRequired
     else if trim_space (tp_idempotency_key p) = [] then Some ProvKeyRequired
     else if trim_space (tp_request_hash p) = [] then Some ProvHashRequired
     else if \<not> prov_status_valid (tp_status p) then Some ProvStatusInvalid
     else if tp_started_at p = 0 then Some ProvStartRequired
     else if tp_status p = ProvActive \<and> tp_completed_at p = None then Some ProvCompletionRequired
     else if tp_status p = ProvFailed \<and> trim_space (tp_last_error p) = [] then Some ProvErrorRequired
     else None)"

definition provisioning_advance :: "instant \<Rightarrow> tenant_provisioning \<Rightarrow> prov_status \<Rightarrow> string \<Rightarrow> tenant_provisioning option" where
  "provisioning_advance now p to reason =
    (case transition_provisioning (tp_status p) to of
       None \<Rightarrow> None
     | Some next_status \<Rightarrow>
         let q = p\<lparr>tp_status := next_status, tp_version := tp_version p + 1\<rparr>
         in Some (case next_status of
              ProvFailed \<Rightarrow> q\<lparr>tp_attempt_count := tp_attempt_count p + 1, tp_last_error := reason\<rparr>
            | ProvApply \<Rightarrow> q\<lparr>tp_last_error := []\<rparr>
            | ProvCancelled \<Rightarrow> (if reason \<noteq> [] then q\<lparr>tp_blocking_reasons := tp_blocking_reasons p @ [reason]\<rparr> else q)
            | ProvActive \<Rightarrow> q\<lparr>tp_completed_at := Some now\<rparr>
            | _ \<Rightarrow> q))"

section \<open>The table\<close>

text \<open>
  A row holds the aggregate and the columns of the canonical lifecycle. An empty onboarding request stands for NULL: a legacy
  run. The outbox keeps the status, the identifier and the version of each milestone event.
\<close>

record provisioning_row =
  pr_core :: tenant_provisioning
  pr_state :: string
  pr_blocked_reason :: string
  pr_created_by :: string
  pr_onboarding_request :: string
  pr_admission_decision :: string

record provisioning_tables =
  pt_rows :: "provisioning_row list"
  pt_outbox :: "(prov_status \<times> string \<times> int) list"

abbreviation row_id :: "provisioning_row \<Rightarrow> string" where
  "row_id r \<equiv> tp_id (pr_core r)"

abbreviation row_version :: "provisioning_row \<Rightarrow> int" where
  "row_version r \<equiv> tp_version (pr_core r)"

datatype prov_error =
    ProvNotFound | ProvInvalid prov_invalid | ProvAlreadyExists | ProvVersionConflict | ProvIllegalTransition
  | ProvFailureReason | ProvIdempotencyConflict | ProvOnlyFailedRetried | ProvUnsupportedStatus | ProvPhase string

definition get_tenant_provisioning :: "string \<Rightarrow> provisioning_tables \<Rightarrow> tenant_provisioning option" where
  "get_tenant_provisioning i t = map_option pr_core (find (\<lambda>r. row_id r = i) (pt_rows t))"

definition get_by_idempotency_key :: "string \<Rightarrow> string \<Rightarrow> provisioning_tables \<Rightarrow> tenant_provisioning option" where
  "get_by_idempotency_key tenant key t =
    map_option pr_core (find (\<lambda>r. tp_tenant_id (pr_core r) = tenant \<and> tp_idempotency_key (pr_core r) = key) (pt_rows t))"

definition status_text :: "prov_status \<Rightarrow> string" where
  "status_text s = (case s of ProvPlan \<Rightarrow> ''PLAN'' | ProvApply \<Rightarrow> ''APPLY'' | ProvReconcile \<Rightarrow> ''RECONCILE'' | ProvReady \<Rightarrow> ''READY''
     | ProvActive \<Rightarrow> ''ACTIVE'' | ProvFailed \<Rightarrow> ''FAILED'' | ProvCancelled \<Rightarrow> ''CANCELLED'' | ProvOther x \<Rightarrow> x)"

definition projected_state :: "prov_status \<Rightarrow> string" where
  "projected_state s = (case s of ProvPlan \<Rightarrow> ''PLANNED'' | ProvApply \<Rightarrow> ''REGISTERING'' | ProvReconcile \<Rightarrow> ''VERIFYING_READINESS''
     | _ \<Rightarrow> status_text s)"

definition state_sync :: "provisioning_row \<Rightarrow> provisioning_row \<Rightarrow> provisioning_row" where
  "state_sync old r =
    (if tp_status (pr_core r) = tp_status (pr_core old) \<or> pr_state r \<noteq> pr_state old then r
     else r\<lparr>pr_state := projected_state (tp_status (pr_core r))\<rparr>)"

definition insert_provisioning :: "tenant_provisioning \<Rightarrow> provisioning_tables \<Rightarrow> prov_error + provisioning_tables" where
  "insert_provisioning p t =
    (case provisioning_validate p of
       Some e \<Rightarrow> Inl (ProvInvalid e)
     | None \<Rightarrow>
         if list_ex (\<lambda>r. row_id r = tp_id p \<or>
              tp_tenant_id (pr_core r) = tp_tenant_id p \<and> tp_idempotency_key (pr_core r) = tp_idempotency_key p) (pt_rows t)
         then Inl ProvAlreadyExists
         else Inr (t\<lparr>pt_rows := pt_rows t @ [\<lparr>pr_core = p, pr_state = projected_state (tp_status p), pr_blocked_reason = [],
                pr_created_by = [], pr_onboarding_request = [], pr_admission_decision = []\<rparr>]\<rparr>))"

text \<open>The columns an update writes; every other column keeps the stored value.\<close>

definition written_columns :: "tenant_provisioning \<Rightarrow> provisioning_row \<Rightarrow> provisioning_row" where
  "written_columns p r = state_sync r (r\<lparr>pr_core := (pr_core r)\<lparr>tp_status := tp_status p, tp_observed_version := tp_observed_version p,
     tp_blocking_reasons := tp_blocking_reasons p, tp_attempt_count := tp_attempt_count p, tp_last_error := tp_last_error p,
     tp_completed_at := tp_completed_at p, tp_version := row_version r + 1\<rparr>\<rparr>)"

definition milestone :: "prov_status \<Rightarrow> bool" where
  "milestone s \<longleftrightarrow> s = ProvReady \<or> s = ProvActive \<or> s = ProvFailed"

definition update_provisioning :: "tenant_provisioning \<Rightarrow> int \<Rightarrow> provisioning_tables \<Rightarrow> prov_error + provisioning_tables" where
  "update_provisioning p expected t =
    (case provisioning_validate p of
       Some e \<Rightarrow> Inl (ProvInvalid e)
     | None \<Rightarrow>
         if \<not> list_ex (\<lambda>r. row_id r = tp_id p \<and> row_version r = expected) (pt_rows t) then Inl ProvVersionConflict
         else Inr (t\<lparr>pt_rows := map (\<lambda>r. if row_id r = tp_id p \<and> row_version r = expected then written_columns p r else r) (pt_rows t),
                pt_outbox := pt_outbox t @ (if milestone (tp_status p) then [(tp_status p, tp_id p, expected + 1)] else [])\<rparr>))"

section \<open>The service\<close>

definition plan_provisioning ::
  "instant \<Rightarrow> string \<Rightarrow> string \<Rightarrow> string \<Rightarrow> string \<Rightarrow> string list \<Rightarrow> string list \<Rightarrow> provisioning_tables
    \<Rightarrow> prov_error + tenant_provisioning \<times> provisioning_tables" where
  "plan_provisioning now uuid tenant key hash products markets t =
    (case get_by_idempotency_key tenant key t of
       Some p \<Rightarrow> if tp_request_hash p \<noteq> hash then Inl ProvIdempotencyConflict else Inr (p, t)
     | None \<Rightarrow>
         let p = \<lparr>tp_id = uuid, tp_tenant_id = tenant, tp_idempotency_key = key, tp_request_hash = hash, tp_status = ProvPlan,
               tp_desired_version = 0, tp_observed_version = 0, tp_product_requests = products, tp_market_requests = markets,
               tp_isolation = [], tp_residency = [], tp_blocking_reasons = [], tp_attempt_count = 0, tp_last_error = [],
               tp_started_at = now, tp_completed_at = None, tp_version = 1\<rparr>
         in (case insert_provisioning p t of Inl e \<Rightarrow> Inl e | Inr t' \<Rightarrow> Inr (p, t')))"

definition service_advance ::
  "instant \<Rightarrow> string \<Rightarrow> prov_status \<Rightarrow> string \<Rightarrow> provisioning_tables \<Rightarrow> prov_error + tenant_provisioning \<times> provisioning_tables" where
  "service_advance now i to reason t =
    (case get_tenant_provisioning i t of
       None \<Rightarrow> Inl ProvNotFound
     | Some p \<Rightarrow> (case provisioning_advance now p to reason of
           None \<Rightarrow> Inl ProvIllegalTransition
         | Some q \<Rightarrow> (case update_provisioning q (tp_version p) t of Inl e \<Rightarrow> Inl e | Inr t' \<Rightarrow> Inr (q, t'))))"

definition service_fail ::
  "instant \<Rightarrow> string \<Rightarrow> string \<Rightarrow> provisioning_tables \<Rightarrow> prov_error + tenant_provisioning \<times> provisioning_tables" where
  "service_fail now i reason t = (if reason = [] then Inl ProvFailureReason else service_advance now i ProvFailed reason t)"

section \<open>The phase workers\<close>

record phase_result =
  fr_observed :: int
  fr_blocking :: "string list"

type_synonym phase_worker = "tenant_provisioning \<Rightarrow> string + phase_result"

fun run_steps :: "(string \<times> (tenant_provisioning \<Rightarrow> string option)) list \<Rightarrow> tenant_provisioning \<Rightarrow> string option" where
  "run_steps [] p = None"
| "run_steps ((key, step) # steps) p = (case step p of Some e \<Rightarrow> Some e | None \<Rightarrow> run_steps steps p)"

definition apply_worker :: "(string \<times> (tenant_provisioning \<Rightarrow> string option)) list \<Rightarrow> phase_worker" where
  "apply_worker steps p =
    (if steps = [] then Inl ''APPLY has no configured materializers''
     else case run_steps steps p of Some e \<Rightarrow> Inl e | None \<Rightarrow> Inr \<lparr>fr_observed = tp_observed_version p, fr_blocking = []\<rparr>)"

record drift =
  rdr_resource_type :: string
  rdr_resource_key :: string
  rdr_kind :: string
  rdr_reason :: string

type_synonym resource_reconciler = "string \<times> (tenant_provisioning \<Rightarrow> string + drift list)"

fun collect_drift :: "string list \<Rightarrow> resource_reconciler list \<Rightarrow> tenant_provisioning \<Rightarrow> string + drift list" where
  "collect_drift seen [] p = Inr []"
| "collect_drift seen ((key, reconcile) # rest) p =
    (if key = [] then Inl ''resource reconciler key is required''
     else if key \<in> set seen then Inl (''duplicate resource reconciler '' @ key)
     else case reconcile p of
       Inl e \<Rightarrow> Inl (key @ '' reconciliation: '' @ e)
     | Inr ds \<Rightarrow> (case collect_drift (key # seen) rest p of Inl e \<Rightarrow> Inl e | Inr es \<Rightarrow> Inr (ds @ es)))"

definition drift_order :: "drift \<Rightarrow> string \<times> string \<times> string" where
  "drift_order d = (rdr_resource_type d, rdr_resource_key d, rdr_kind d)"

record reconciliation_report =
  rcp_observed :: int
  rcp_converged :: bool
  rcp_drift :: "drift list"

definition reconcile_report :: "resource_reconciler list \<Rightarrow> tenant_provisioning \<Rightarrow> string + reconciliation_report" where
  "reconcile_report resources p =
    (if resources = [] then Inl ''at least one resource reconciler is required''
     else case collect_drift [] resources p of
       Inl e \<Rightarrow> Inl e
     | Inr ds \<Rightarrow> Inr (if ds = [] then \<lparr>rcp_observed = tp_desired_version p, rcp_converged = True, rcp_drift = []\<rparr>
                     else \<lparr>rcp_observed = tp_observed_version p, rcp_converged = False, rcp_drift = sort_key drift_order ds\<rparr>))"

definition reconcile_worker :: "resource_reconciler list \<Rightarrow> phase_worker" where
  "reconcile_worker resources p =
    (case reconcile_report resources p of
       Inl e \<Rightarrow> Inl e
     | Inr r \<Rightarrow> Inr \<lparr>fr_observed = rcp_observed r,
          fr_blocking = map (\<lambda>d. rdr_resource_type d @ ''/'' @ rdr_resource_key d @ '': '' @ rdr_reason d) (rcp_drift r)\<rparr>)"

text \<open>A readiness check gives whether it passed, with its reason.\<close>

type_synonym readiness_check = "string \<times> (tenant_provisioning \<Rightarrow> string + bool \<times> string)"

fun failing_checks :: "string list \<Rightarrow> readiness_check list \<Rightarrow> tenant_provisioning \<Rightarrow> string + string list" where
  "failing_checks seen [] p = Inr []"
| "failing_checks seen ((key, check) # rest) p =
    (if key = [] then Inl ''readiness check key is required''
     else if key \<in> set seen then Inl (''duplicate readiness check '' @ key)
     else case check p of
       Inl e \<Rightarrow> Inl (key @ '' readiness check: '' @ e)
     | Inr (passed, reason) \<Rightarrow> (case failing_checks (key # seen) rest p of
           Inl e \<Rightarrow> Inl e
         | Inr rs \<Rightarrow> Inr (if passed then rs else (if reason = [] then key @ '' did not pass'' else reason) # rs)))"

definition readiness_report :: "(tenant_provisioning \<Rightarrow> string) \<Rightarrow> readiness_check list \<Rightarrow> tenant_provisioning \<Rightarrow> string + string list" where
  "readiness_report drift_text checks p =
    (if checks = [] then Inl ''at least one readiness check is required''
     else case failing_checks [] checks p of
       Inl e \<Rightarrow> Inl e
     | Inr rs \<Rightarrow> Inr (sort (rs @ (if tp_observed_version p \<noteq> tp_desired_version p then [drift_text p] else []))))"

definition readiness_worker :: "(tenant_provisioning \<Rightarrow> string) \<Rightarrow> readiness_check list \<Rightarrow> phase_worker" where
  "readiness_worker drift_text checks p =
    (case readiness_report drift_text checks p of
       Inl e \<Rightarrow> Inl e | Inr rs \<Rightarrow> Inr \<lparr>fr_observed = tp_observed_version p, fr_blocking = rs\<rparr>)"

section \<open>The orchestrator\<close>

record orchestrator =
  or_apply :: phase_worker
  or_reconcile :: phase_worker
  or_readiness :: phase_worker

type_synonym run_result = "tenant_provisioning \<times> prov_error option \<times> provisioning_tables"

definition orchestrator_advance ::
  "instant \<Rightarrow> tenant_provisioning \<Rightarrow> prov_status \<Rightarrow> string \<Rightarrow> provisioning_tables \<Rightarrow> prov_error + tenant_provisioning \<times> provisioning_tables" where
  "orchestrator_advance now p to reason t =
    (case provisioning_advance now p to reason of
       None \<Rightarrow> Inl ProvIllegalTransition
     | Some q \<Rightarrow> (case update_provisioning q (tp_version p) t of Inl e \<Rightarrow> Inl e | Inr t' \<Rightarrow> Inr (q, t')))"

definition orchestrator_save ::
  "tenant_provisioning \<Rightarrow> provisioning_tables \<Rightarrow> tenant_provisioning \<times> (prov_error + provisioning_tables)" where
  "orchestrator_save p t = (let q = p\<lparr>tp_version := tp_version p + 1\<rparr> in (q, update_provisioning q (tp_version p) t))"

definition orchestrator_fail ::
  "instant \<Rightarrow> tenant_provisioning \<Rightarrow> string \<Rightarrow> string \<Rightarrow> provisioning_tables \<Rightarrow> run_result" where
  "orchestrator_fail now p phase cause t =
    (case orchestrator_advance now p ProvFailed (phase @ '': '' @ cause) t of
       Inl e \<Rightarrow> (p, Some (ProvPhase cause), t)
     | Inr (q, t') \<Rightarrow> (q, Some (ProvPhase cause), t'))"

text \<open>One turn of the loop: \<open>Inl\<close> returns from \<open>Run\<close>, \<open>Inr\<close> goes round again.\<close>

definition again :: "tenant_provisioning \<Rightarrow> provisioning_tables \<Rightarrow> prov_error + tenant_provisioning \<times> provisioning_tables \<Rightarrow> run_result + provisioning_tables" where
  "again p t r = (case r of Inl e \<Rightarrow> Inl (p, Some e, t) | Inr (_, t') \<Rightarrow> Inr t')"

definition apply_phase :: "instant \<Rightarrow> orchestrator \<Rightarrow> tenant_provisioning \<Rightarrow> provisioning_tables \<Rightarrow> run_result + provisioning_tables" where
  "apply_phase now w p t =
    (case or_apply w p of
       Inl cause \<Rightarrow> Inl (orchestrator_fail now p ''APPLY'' cause t)
     | Inr r \<Rightarrow>
         (case orchestrator_save (p\<lparr>tp_observed_version := max (tp_observed_version p) (fr_observed r), tp_blocking_reasons := fr_blocking r\<rparr>) t of
            (q, Inl e) \<Rightarrow> Inl (q, Some e, t)
          | (q, Inr t') \<Rightarrow> again q t' (orchestrator_advance now q ProvReconcile [] t')))"

definition reconcile_phase :: "instant \<Rightarrow> orchestrator \<Rightarrow> tenant_provisioning \<Rightarrow> provisioning_tables \<Rightarrow> run_result + provisioning_tables" where
  "reconcile_phase now w p t =
    (case or_reconcile w p of
       Inl cause \<Rightarrow> Inl (orchestrator_fail now p ''RECONCILE'' cause t)
     | Inr r \<Rightarrow>
         (case orchestrator_save (p\<lparr>tp_observed_version := fr_observed r, tp_blocking_reasons := fr_blocking r\<rparr>) t of
            (q, Inl e) \<Rightarrow> Inl (q, Some e, t)
          | (q, Inr t') \<Rightarrow>
              if tp_observed_version q \<noteq> tp_desired_version q \<or> tp_blocking_reasons q \<noteq> [] then Inl (q, None, t')
              else again q t' (orchestrator_advance now q ProvReady [] t')))"

definition readiness_phase :: "instant \<Rightarrow> orchestrator \<Rightarrow> tenant_provisioning \<Rightarrow> provisioning_tables \<Rightarrow> run_result" where
  "readiness_phase now w p t =
    (case or_readiness w p of
       Inl cause \<Rightarrow> orchestrator_fail now p ''READY'' cause t
     | Inr r \<Rightarrow>
         if fr_observed r \<noteq> tp_desired_version p \<or> fr_blocking r \<noteq> [] then
           (case orchestrator_save (p\<lparr>tp_observed_version := fr_observed r, tp_blocking_reasons := fr_blocking r\<rparr>) t of
              (q, Inl e) \<Rightarrow> (q, Some e, t)
            | (q, Inr t') \<Rightarrow> (q, None, t'))
         else (case orchestrator_advance now p ProvActive [] t of
              Inl e \<Rightarrow> (p, Some e, t)
            | Inr (q, t') \<Rightarrow> (q, None, t')))"

definition no_provisioning :: tenant_provisioning where
  "no_provisioning = \<lparr>tp_id = [], tp_tenant_id = [], tp_idempotency_key = [], tp_request_hash = [], tp_status = ProvOther [],
     tp_desired_version = 0, tp_observed_version = 0, tp_product_requests = [], tp_market_requests = [], tp_isolation = [],
     tp_residency = [], tp_blocking_reasons = [], tp_attempt_count = 0, tp_last_error = [], tp_started_at = 0,
     tp_completed_at = None, tp_version = 0\<rparr>"

definition orchestrator_turn :: "instant \<Rightarrow> orchestrator \<Rightarrow> string \<Rightarrow> provisioning_tables \<Rightarrow> run_result + provisioning_tables" where
  "orchestrator_turn now w i t =
    (case get_tenant_provisioning i t of
       None \<Rightarrow> Inl (no_provisioning, Some ProvNotFound, t)
     | Some p \<Rightarrow> (case tp_status p of
           ProvPlan \<Rightarrow> again p t (orchestrator_advance now p ProvApply [] t)
         | ProvApply \<Rightarrow> apply_phase now w p t
         | ProvReconcile \<Rightarrow> reconcile_phase now w p t
         | ProvReady \<Rightarrow> Inl (readiness_phase now w p t)
         | ProvOther _ \<Rightarrow> Inl (p, Some ProvUnsupportedStatus, t)
         | _ \<Rightarrow> Inl (p, None, t)))"

text \<open>The columns no update writes.\<close>

definition unwritten :: "tenant_provisioning \<Rightarrow> tenant_provisioning" where
  "unwritten p = p\<lparr>tp_status := ProvPlan, tp_observed_version := 0, tp_blocking_reasons := [], tp_attempt_count := 0,
     tp_last_error := [], tp_completed_at := None, tp_version := 0\<rparr>"

lemma written_core:
  "unwritten q = unwritten (pr_core r) \<Longrightarrow> tp_version q = row_version r + 1 \<Longrightarrow> pr_core (written_columns q r) = q"
  unfolding written_columns_def state_sync_def unwritten_def by (cases q; cases "pr_core r") auto

lemma written_id [simp]: "row_id (written_columns q r) = row_id r"
  unfolding written_columns_def state_sync_def by simp

lemma unwritten_id: "unwritten q = unwritten p \<Longrightarrow> tp_id q = tp_id p"
  unfolding unwritten_def by (cases q; cases p) auto

lemma find_written:
  assumes "find P xs = Some r" and "Q r" and "\<And>x. P (f x) = P x"
  shows "find P (map (\<lambda>x. if P x \<and> Q x then f x else x) xs) = Some (f r)"
  using assms by (induction xs) (auto split: if_splits)

lemma get_Some_id: "get_tenant_provisioning i t = Some p \<Longrightarrow> tp_id p = i"
  unfolding get_tenant_provisioning_def by (auto simp: find_Some_iff)

text \<open>A write under the version that was read is what the next read returns.\<close>

lemma update_get:
  assumes get: "get_tenant_provisioning i t = Some p" and same: "unwritten q = unwritten p" "tp_version q = tp_version p + 1"
    and upd: "update_provisioning q (tp_version p) t = Inr t'"
  shows "get_tenant_provisioning i t' = Some q"
proof -
  from get obtain r where r: "find (\<lambda>r. row_id r = i) (pt_rows t) = Some r" and p: "p = pr_core r"
    unfolding get_tenant_provisioning_def by auto
  have i: "tp_id q = i"
    using unwritten_id [OF same(1)] get_Some_id [OF get] by simp
  from upd have rows: "pt_rows t' = map (\<lambda>x. if row_id x = i \<and> row_version x = tp_version p then written_columns q x else x) (pt_rows t)"
    unfolding update_provisioning_def by (auto simp: i split: option.splits if_splits)
  have "find (\<lambda>r. row_id r = i) (pt_rows t') = Some (written_columns q r)"
    unfolding rows by (rule find_written [OF r]) (simp_all add: p)
  then show ?thesis
    unfolding get_tenant_provisioning_def using written_core [of q r] same p by simp
qed

lemma advance_same:
  "provisioning_advance now p to reason = Some q \<Longrightarrow>
    unwritten q = unwritten p \<and> tp_version q = tp_version p + 1 \<and> tp_status q = to"
  unfolding provisioning_advance_def transition_provisioning_def unwritten_def Let_def
  by (cases p) (auto split: if_splits prov_status.splits)

lemma advance_get:
  assumes "get_tenant_provisioning i t = Some p" and "orchestrator_advance now p to reason t = Inr (q, t')"
  shows "get_tenant_provisioning i t' = Some q \<and> tp_status q = to"
proof -
  from assms(2) have adv: "provisioning_advance now p to reason = Some q" and upd: "update_provisioning q (tp_version p) t = Inr t'"
    unfolding orchestrator_advance_def by (simp_all split: option.splits sum.splits)
  from advance_same [OF adv] have "unwritten q = unwritten p" "tp_version q = tp_version p + 1" "tp_status q = to" by simp_all
  with update_get [OF assms(1) _ _ upd] show ?thesis by simp
qed

lemma save_get:
  assumes "get_tenant_provisioning i t = Some p" and "unwritten p' = unwritten p" and "tp_version p' = tp_version p"
    and "orchestrator_save p' t = (q, Inr t')"
  shows "get_tenant_provisioning i t' = Some q \<and> q = p'\<lparr>tp_version := tp_version p' + 1\<rparr>"
proof -
  from assms(4) have q: "q = p'\<lparr>tp_version := tp_version p' + 1\<rparr>" and upd: "update_provisioning q (tp_version p') t = Inr t'"
    unfolding orchestrator_save_def Let_def by auto
  have "unwritten q = unwritten p"
    using assms(2) unfolding q unwritten_def by (cases p') simp
  with update_get [OF assms(1), of q t'] upd assms(3) q show ?thesis by simp
qed

definition turn_rank :: "string \<Rightarrow> provisioning_tables \<Rightarrow> nat" where
  "turn_rank i t = (case get_tenant_provisioning i t of None \<Rightarrow> 0
     | Some p \<Rightarrow> (case tp_status p of ProvPlan \<Rightarrow> 3 | ProvApply \<Rightarrow> 2 | ProvReconcile \<Rightarrow> 1 | _ \<Rightarrow> 0))"

lemma again_Inr: "again p t r = Inr t' \<longleftrightarrow> (\<exists>q. r = Inr (q, t'))"
  unfolding again_def by (auto split: sum.splits)

lemma unwritten_phase [simp]:
  "unwritten (p\<lparr>tp_observed_version := a, tp_blocking_reasons := b\<rparr>) = unwritten p"
  unfolding unwritten_def by (cases p) simp

lemma apply_phase_Inr:
  assumes "get_tenant_provisioning i t = Some p" and "apply_phase now w p t = Inr t'"
  shows "\<exists>q. get_tenant_provisioning i t' = Some q \<and> tp_status q = ProvReconcile"
proof -
  obtain r where r: "or_apply w p = Inr r"
    using assms(2) unfolding apply_phase_def by (cases "or_apply w p") auto
  let ?p = "p\<lparr>tp_observed_version := max (tp_observed_version p) (fr_observed r), tp_blocking_reasons := fr_blocking r\<rparr>"
  obtain q t1 where s: "orchestrator_save ?p t = (q, Inr t1)"
    using assms(2) r unfolding apply_phase_def by (cases "orchestrator_save ?p t") (auto split: sum.splits)
  from assms(2) r s obtain q' where "orchestrator_advance now q ProvReconcile [] t1 = Inr (q', t')"
    unfolding apply_phase_def by (auto simp: again_Inr)
  with advance_get [of i t1 q now ProvReconcile "[]" q' t'] save_get [OF assms(1) _ _ s] show ?thesis by simp
qed

text \<open>What leaving RECONCILE for READY rests on.\<close>

definition left_reconcile :: "orchestrator \<Rightarrow> tenant_provisioning \<Rightarrow> bool" where
  "left_reconcile w q \<longleftrightarrow> tp_observed_version q = tp_desired_version q \<and> tp_blocking_reasons q = [] \<and>
    (\<exists>q0 r. tp_status q0 = ProvReconcile \<and> unwritten q0 = unwritten q \<and> or_reconcile w q0 = Inr r \<and>
      fr_observed r = tp_desired_version q \<and> fr_blocking r = [])"

lemma advance_ready:
  "provisioning_advance now p ProvReady [] = Some q \<Longrightarrow> q = p\<lparr>tp_status := ProvReady, tp_version := tp_version p + 1\<rparr>"
  unfolding provisioning_advance_def transition_provisioning_def by (auto split: if_splits)

lemma unwritten_desired: "unwritten q = unwritten p \<Longrightarrow> tp_desired_version q = tp_desired_version p"
  unfolding unwritten_def by (cases q; cases p) auto

lemma orchestrator_advance_Inr:
  "orchestrator_advance now p to reason t = Inr (q, t') \<longleftrightarrow>
    provisioning_advance now p to reason = Some q \<and> update_provisioning q (tp_version p) t = Inr t'"
  unfolding orchestrator_advance_def by (auto split: option.splits sum.splits)

lemma reconcile_phase_Inr:
  assumes "get_tenant_provisioning i t = Some p" and "tp_status p = ProvReconcile" and "reconcile_phase now w p t = Inr t'"
  shows "\<exists>q. get_tenant_provisioning i t' = Some q \<and> tp_status q = ProvReady \<and> unwritten q = unwritten p \<and> left_reconcile w q"
proof -
  obtain r where r: "or_reconcile w p = Inr r"
    using assms(3) unfolding reconcile_phase_def by (cases "or_reconcile w p") auto
  let ?p = "p\<lparr>tp_observed_version := fr_observed r, tp_blocking_reasons := fr_blocking r\<rparr>"
  obtain q t1 where s: "orchestrator_save ?p t = (q, Inr t1)"
    using assms(3) r unfolding reconcile_phase_def by (cases "orchestrator_save ?p t") (auto split: sum.splits)
  have q: "get_tenant_provisioning i t1 = Some q" "q = ?p\<lparr>tp_version := tp_version p + 1\<rparr>"
    using save_get [OF assms(1) _ _ s] by simp_all
  from assms(3) r s obtain q' where adv: "orchestrator_advance now q ProvReady [] t1 = Inr (q', t')"
    and conv: "tp_observed_version q = tp_desired_version q" "tp_blocking_reasons q = []"
    unfolding reconcile_phase_def by (auto simp: again_Inr split: if_splits)
  from adv have q': "q' = q\<lparr>tp_status := ProvReady, tp_version := tp_version q + 1\<rparr>"
    by (auto simp: orchestrator_advance_Inr dest: advance_ready)
  have same: "unwritten q' = unwritten p"
    unfolding q' q(2) unwritten_def by (cases p) simp
  have "left_reconcile w q'"
    unfolding left_reconcile_def using conv r same assms(2)
    by (intro conjI exI [of _ p] exI [of _ r]) (simp_all add: q' q(2))
  with advance_get [OF q(1) adv] same show ?thesis by simp
qed

lemma turn_rank_less:
  assumes "orchestrator_turn now w i t = Inr t'"
  shows "turn_rank i t' < turn_rank i t"
proof -
  obtain p where p: "get_tenant_provisioning i t = Some p"
    using assms unfolding orchestrator_turn_def by (cases "get_tenant_provisioning i t") auto
  show ?thesis
  proof (cases "tp_status p")
    case ProvPlan
    with assms p obtain q where "orchestrator_advance now p ProvApply [] t = Inr (q, t')"
      unfolding orchestrator_turn_def by (auto simp: again_Inr)
    with p ProvPlan show ?thesis
      by (auto simp: turn_rank_def dest: advance_get)
  next
    case ProvApply
    with assms p have "apply_phase now w p t = Inr t'" unfolding orchestrator_turn_def by simp
    with p ProvApply show ?thesis
      by (auto simp: turn_rank_def dest: apply_phase_Inr)
  next
    case ProvReconcile
    with assms p have "reconcile_phase now w p t = Inr t'" unfolding orchestrator_turn_def by simp
    from reconcile_phase_Inr [OF p ProvReconcile this] p ProvReconcile show ?thesis
      by (auto simp: turn_rank_def)
  qed (use assms p in \<open>auto simp: orchestrator_turn_def\<close>)
qed

text \<open>The loop of \<open>Run\<close>: the rank of the stored status decreases at every turn.\<close>

function orchestrator_run :: "instant \<Rightarrow> orchestrator \<Rightarrow> string \<Rightarrow> provisioning_tables \<Rightarrow> run_result" where
  "orchestrator_run now w i t = (case orchestrator_turn now w i t of Inl result \<Rightarrow> result | Inr t' \<Rightarrow> orchestrator_run now w i t')"
  by pat_completeness auto

termination
  by (relation "measure (\<lambda>(now, w, i, t). turn_rank i t)") (auto intro: turn_rank_less)

declare orchestrator_run.simps [simp del]

definition orchestrator_retry :: "instant \<Rightarrow> orchestrator \<Rightarrow> string \<Rightarrow> provisioning_tables \<Rightarrow> run_result" where
  "orchestrator_retry now w i t =
    (case get_tenant_provisioning i t of
       None \<Rightarrow> (no_provisioning, Some ProvNotFound, t)
     | Some p \<Rightarrow>
         if tp_status p \<noteq> ProvFailed then (p, Some ProvOnlyFailedRetried, t)
         else (case orchestrator_advance now p ProvApply [] t of
             Inl e \<Rightarrow> (p, Some e, t)
           | Inr (_, t') \<Rightarrow> orchestrator_run now w i t'))"

section \<open>The lifecycle\<close>

interpretation provisioning: transition_table transition_provisioning prov_terminal
  by unfold_locales
    (auto simp: transition_provisioning_def provisioning_transitions_def prov_terminal_def prov_status_valid_def split: prov_status.splits)

section \<open>Activation\<close>

lemma fail_not_active:
  "orchestrator_fail now p phase cause t = (q, e, t') \<Longrightarrow> tp_status p \<noteq> ProvActive \<Longrightarrow> tp_status q \<noteq> ProvActive"
  unfolding orchestrator_fail_def
  by (auto simp: orchestrator_advance_Inr split: sum.splits prod.splits dest!: advance_same)

lemma save_status: "orchestrator_save p t = (q, r) \<Longrightarrow> tp_status q = tp_status p"
  unfolding orchestrator_save_def Let_def by auto

lemma again_Inl: "again p t r = Inl (q, e, t') \<Longrightarrow> q = p"
  unfolding again_def by (auto split: sum.splits)

lemma apply_phase_not_active:
  assumes "apply_phase now w p t = Inl (q, e, t')" and "tp_status p \<noteq> ProvActive"
  shows "tp_status q \<noteq> ProvActive"
  using assms unfolding apply_phase_def
  by (auto split: sum.splits prod.splits dest!: fail_not_active again_Inl save_status)

lemma reconcile_phase_not_active:
  assumes "reconcile_phase now w p t = Inl (q, e, t')" and "tp_status p \<noteq> ProvActive"
  shows "tp_status q \<noteq> ProvActive"
  using assms unfolding reconcile_phase_def
  by (auto split: sum.splits prod.splits if_splits dest!: fail_not_active again_Inl save_status)

lemma readiness_phase_active:
  assumes "get_tenant_provisioning i t = Some p" and "readiness_phase now w p t = (q, e, t')"
    and "tp_status p \<noteq> ProvActive" and "tp_status q = ProvActive"
  shows "e = None \<and> get_tenant_provisioning i t' = Some q \<and> provisioning_advance now p ProvActive [] = Some q \<and>
    (\<exists>r. or_readiness w p = Inr r \<and> fr_observed r = tp_desired_version p \<and> fr_blocking r = [])"
proof (cases "or_readiness w p")
  case (Inl cause)
  with assms(2-4) fail_not_active show ?thesis unfolding readiness_phase_def by fastforce
next
  case (Inr r)
  show ?thesis
  proof (cases "fr_observed r \<noteq> tp_desired_version p \<or> fr_blocking r \<noteq> []")
    case True
    with Inr assms(2-4) show ?thesis
      unfolding readiness_phase_def by (auto split: sum.splits prod.splits dest!: save_status)
  next
    case False
    with Inr assms(2-4) have adv: "orchestrator_advance now p ProvActive [] t = Inr (q, t')" and "e = None"
      unfolding readiness_phase_def by (auto split: sum.splits prod.splits)
    with advance_get [OF assms(1) adv] Inr False show ?thesis
      by (auto simp: orchestrator_advance_Inr)
  qed
qed

text \<open>
  A run that ends ACTIVE either started READY, or left RECONCILE with equal versions and no blocker; in both cases the
  readiness worker accepted it.
\<close>

lemma run_active:
  assumes "orchestrator_run now w i t = (p, e, t')" and "tp_status p = ProvActive"
    and "get_tenant_provisioning i t = Some p0" and "tp_status p0 \<noteq> ProvActive"
  shows "e = None \<and> get_tenant_provisioning i t' = Some p \<and>
    (\<exists>q r. tp_status q = ProvReady \<and> provisioning_advance now q ProvActive [] = Some p \<and>
      or_readiness w q = Inr r \<and> fr_observed r = tp_desired_version q \<and> fr_blocking r = [] \<and> (q = p0 \<or> left_reconcile w q))"
  using assms
proof (induction now w i t arbitrary: p0 rule: orchestrator_run.induct)
  case (1 now w i t)
  note run = 1(2) and active = 1(3) and get = 1(4) and start = 1(5)
  show ?case
  proof (cases "orchestrator_turn now w i t")
    case (Inl result)
    with run have turn: "orchestrator_turn now w i t = Inl (p, e, t')"
      by (subst (asm) orchestrator_run.simps) simp
    show ?thesis
    proof (cases "tp_status p0")
      case ProvReady
      with turn get have "readiness_phase now w p0 t = (p, e, t')" unfolding orchestrator_turn_def by simp
      from readiness_phase_active [OF get this start active] ProvReady show ?thesis by blast
    qed (use turn get start active in \<open>auto simp: orchestrator_turn_def
           dest: again_Inl apply_phase_not_active reconcile_phase_not_active\<close>)
  next
    case (Inr t1)
    with run have rest: "orchestrator_run now w i t1 = (p, e, t')"
      by (subst (asm) orchestrator_run.simps) simp
    note IH = 1(1) [OF Inr rest active]
    show ?thesis
    proof (cases "tp_status p0")
      case ProvPlan
      with Inr get obtain q where "orchestrator_advance now p0 ProvApply [] t = Inr (q, t1)"
        unfolding orchestrator_turn_def by (auto simp: again_Inr)
      from IH [of q] advance_get [OF get this] show ?thesis by auto
    next
      case ProvApply
      with Inr get have "apply_phase now w p0 t = Inr t1" unfolding orchestrator_turn_def by simp
      from apply_phase_Inr [OF get this] obtain q where q: "get_tenant_provisioning i t1 = Some q" "tp_status q = ProvReconcile" by blast
      from IH [OF q(1)] q(2) show ?thesis by auto
    next
      case ProvReconcile
      with Inr get have "reconcile_phase now w p0 t = Inr t1" unfolding orchestrator_turn_def by simp
      from reconcile_phase_Inr [OF get ProvReconcile this]
      obtain q where q: "get_tenant_provisioning i t1 = Some q" "tp_status q = ProvReady" "left_reconcile w q" by blast
      from IH [OF q(1)] q(2,3) show ?thesis by auto
    qed (use Inr get in \<open>auto simp: orchestrator_turn_def\<close>)
  qed
qed

text \<open>The workers of the standard pipeline: what their acceptance means.\<close>

lemma collect_drift_none:
  "collect_drift seen resources p = Inr [] \<Longrightarrow> \<forall>x \<in> set resources. snd x p = Inr []"
  by (induction seen resources p rule: collect_drift.induct) (auto split: if_splits sum.splits)

lemma sort_key_Nil [simp]: "sort_key f xs = [] \<longleftrightarrow> xs = []"
  by (metis length_0_conv length_sort)

lemma reconcile_worker_accepts:
  "reconcile_worker resources p = Inr r \<Longrightarrow> fr_blocking r = [] \<Longrightarrow> \<forall>x \<in> set resources. snd x p = Inr []"
  unfolding reconcile_worker_def reconcile_report_def
  by (auto split: sum.splits if_splits dest: collect_drift_none)

lemma failing_checks_none:
  "failing_checks seen checks p = Inr [] \<Longrightarrow> \<forall>x \<in> set checks. \<exists>reason. snd x p = Inr (True, reason)"
  by (induction seen checks p rule: failing_checks.induct) (auto split: if_splits sum.splits prod.splits)

lemma readiness_worker_accepts:
  "readiness_worker drift_text checks p = Inr r \<Longrightarrow> fr_blocking r = [] \<Longrightarrow>
    (\<forall>x \<in> set checks. \<exists>reason. snd x p = Inr (True, reason)) \<and> tp_observed_version p = tp_desired_version p"
  unfolding readiness_worker_def readiness_report_def
  by (auto split: sum.splits if_splits dest!: failing_checks_none) (metis snd_conv)

definition standard_pipeline ::
  "(string \<times> (tenant_provisioning \<Rightarrow> string option)) list \<Rightarrow> resource_reconciler list \<Rightarrow>
    (tenant_provisioning \<Rightarrow> string) \<Rightarrow> readiness_check list \<Rightarrow> orchestrator" where
  "standard_pipeline steps resources drift_text checks =
    \<lparr>or_apply = apply_worker steps, or_reconcile = reconcile_worker resources, or_readiness = readiness_worker drift_text checks\<rparr>"

lemma advance_active:
  "provisioning_advance now q ProvActive [] = Some p \<Longrightarrow>
    p = q\<lparr>tp_status := ProvActive, tp_version := tp_version q + 1, tp_completed_at := Some now\<rparr>"
  unfolding provisioning_advance_def transition_provisioning_def by (auto split: if_splits)

text \<open>
  C17 (safety): the orchestrator makes a provisioning ACTIVE only when it converged. Whatever status the run starts from, if it
  ends ACTIVE then it reports no error, the stored aggregate is the one returned, the observed version equals the desired
  version, the completion time is set, and every readiness check passed on the aggregate in READY; unless the run already
  started in READY, every resource reconciler found no drift in this very run and no blocking reason is left.
\<close>

theorem activation_converged:
  assumes "orchestrator_run now (standard_pipeline steps resources drift_text checks) i t = (p, e, t')" and "tp_status p = ProvActive"
    and "get_tenant_provisioning i t = Some p0" and "tp_status p0 \<noteq> ProvActive"
  shows "e = None \<and> get_tenant_provisioning i t' = Some p \<and> tp_observed_version p = tp_desired_version p \<and>
    tp_completed_at p = Some now \<and>
    (\<exists>q. tp_status q = ProvReady \<and> unwritten q = unwritten p \<and> (\<forall>x \<in> set checks. \<exists>reason. snd x q = Inr (True, reason))) \<and>
    (tp_status p0 = ProvReady \<or> tp_blocking_reasons p = [] \<and>
      (\<exists>q. tp_status q = ProvReconcile \<and> unwritten q = unwritten p \<and> (\<forall>x \<in> set resources. snd x q = Inr [])))"
proof -
  let ?w = "standard_pipeline steps resources drift_text checks"
  from run_active [OF assms] obtain q r where e: "e = None" "get_tenant_provisioning i t' = Some p"
    and q: "tp_status q = ProvReady" "provisioning_advance now q ProvActive [] = Some p"
    and r: "or_readiness ?w q = Inr r" "fr_blocking r = []" and start: "q = p0 \<or> left_reconcile ?w q" by blast
  have p: "p = q\<lparr>tp_status := ProvActive, tp_version := tp_version q + 1, tp_completed_at := Some now\<rparr>"
    by (rule advance_active [OF q(2)])
  have same: "unwritten q = unwritten p" using advance_same [OF q(2)] by simp
  have ready: "\<forall>x \<in> set checks. \<exists>reason. snd x q = Inr (True, reason)" "tp_observed_version q = tp_desired_version q"
    using readiness_worker_accepts [of drift_text checks q r] r by (simp_all add: standard_pipeline_def)
  have "tp_status p0 = ProvReady \<or> tp_blocking_reasons p = [] \<and>
      (\<exists>q'. tp_status q' = ProvReconcile \<and> unwritten q' = unwritten p \<and> (\<forall>x \<in> set resources. snd x q' = Inr []))"
    using start
  proof
    assume "q = p0"
    with q(1) show ?thesis by simp
  next
    assume rec: "left_reconcile ?w q"
    then obtain q' r' where q': "tp_status q' = ProvReconcile" "unwritten q' = unwritten q"
      and "or_reconcile ?w q' = Inr r'" "fr_blocking r' = []" unfolding left_reconcile_def by blast
    with reconcile_worker_accepts [of resources q' r'] have "\<forall>x \<in> set resources. snd x q' = Inr []"
      by (simp add: standard_pipeline_def)
    moreover have "tp_blocking_reasons p = []" using rec by (simp add: left_reconcile_def p)
    ultimately show ?thesis using q' same by auto
  qed
  with e ready p same q(1) show ?thesis by auto
qed

definition ex_aggregate :: "prov_status \<Rightarrow> tenant_provisioning" where
  "ex_aggregate s = \<lparr>tp_id = ''i'', tp_tenant_id = ''t'', tp_idempotency_key = ''k'', tp_request_hash = ''h'', tp_status = s,
     tp_desired_version = 1, tp_observed_version = 0, tp_product_requests = [], tp_market_requests = [], tp_isolation = [],
     tp_residency = [], tp_blocking_reasons = [], tp_attempt_count = 0, tp_last_error = [], tp_started_at = 5,
     tp_completed_at = None, tp_version = 1\<rparr>"

definition ex_prov_tables :: "tenant_provisioning \<Rightarrow> provisioning_tables" where
  "ex_prov_tables p = \<lparr>pt_rows = [\<lparr>pr_core = p, pr_state = projected_state (tp_status p), pr_blocked_reason = [], pr_created_by = ''c'',
     pr_onboarding_request = ''tor_1'', pr_admission_decision = ''adm_1''\<rparr>], pt_outbox = []\<rparr>"

definition ex_pipeline :: "bool \<Rightarrow> orchestrator" where
  "ex_pipeline passed = standard_pipeline [(''s'', \<lambda>p. None)] [(''r'', \<lambda>p. Inr [])] (\<lambda>p. ''drift'') [(''c'', \<lambda>p. Inr (passed, ''not yet''))]"

lemmas run_eval = orchestrator_run.simps orchestrator_turn_def get_tenant_provisioning_def again_def apply_phase_def reconcile_phase_def
  readiness_phase_def orchestrator_advance_def orchestrator_save_def provisioning_advance_def transition_provisioning_def
  provisioning_transitions_def prov_status_valid_def update_provisioning_def provisioning_validate_def written_columns_def state_sync_def
  milestone_def standard_pipeline_def apply_worker_def reconcile_worker_def reconcile_report_def readiness_worker_def readiness_report_def
  ex_aggregate_def ex_prov_tables_def ex_pipeline_def trim_space_def is_space_def byte_def projected_state_def status_text_def Let_def

definition ex_activated :: tenant_provisioning where
  "ex_activated = (ex_aggregate ProvActive)\<lparr>tp_observed_version := 1, tp_completed_at := Some 9, tp_version := 7\<rparr>"

lemma ex_run:
  "orchestrator_run 9 (ex_pipeline True) ''i'' (ex_prov_tables (ex_aggregate ProvPlan)) =
    (ex_activated, None, (ex_prov_tables ex_activated)\<lparr>pt_outbox := [(ProvReady, ''i'', 6), (ProvActive, ''i'', 7)]\<rparr>)"
  by (simp add: run_eval ex_activated_def)

theorem activation_converged_witness:
  "tp_observed_version ex_activated = tp_desired_version ex_activated \<and> tp_completed_at ex_activated = Some 9 \<and>
    tp_blocking_reasons ex_activated = []"
proof -
  have start: "get_tenant_provisioning ''i'' (ex_prov_tables (ex_aggregate ProvPlan)) = Some (ex_aggregate ProvPlan)"
    by (simp add: run_eval)
  have run: "orchestrator_run 9 (standard_pipeline [(''s'', \<lambda>p. None)] [(''r'', \<lambda>p. Inr [])] (\<lambda>p. ''drift'') [(''c'', \<lambda>p. Inr (True, ''not yet''))])
      ''i'' (ex_prov_tables (ex_aggregate ProvPlan)) =
    (ex_activated, None, (ex_prov_tables ex_activated)\<lparr>pt_outbox := [(ProvReady, ''i'', 6), (ProvActive, ''i'', 7)]\<rparr>)"
    using ex_run by (simp add: ex_pipeline_def)
  show ?thesis
    using activation_converged [OF run _ start] by (simp add: ex_activated_def ex_aggregate_def)
qed

text \<open>
  A blocking reason recorded by a READY turn stays on the aggregate when a later run finds it ready: the row becomes ACTIVE
  with the reason still stored, since only the blocked branch writes the reasons.
\<close>

lemma active_keeps_blockers:
  "let (blocked, e1, t1) = orchestrator_run 9 (ex_pipeline False) ''i'' (ex_prov_tables (ex_aggregate ProvPlan));
       (active, e2, t2) = orchestrator_run 10 (ex_pipeline True) ''i'' t1
   in tp_status blocked = ProvReady \<and> e1 = None \<and> tp_status active = ProvActive \<and> e2 = None \<and>
      tp_blocking_reasons active = [''not yet'']"
  by (simp add: run_eval)

section \<open>Writes under an outdated version\<close>

text \<open>
  The service and the orchestrator write under the version they read, so of two commands that read the same version only one
  is recorded, and the loser changes nothing.
\<close>

definition ids_distinct :: "provisioning_tables \<Rightarrow> bool" where
  "ids_distinct t \<longleftrightarrow> distinct (map row_id (pt_rows t))"

lemma update_ids:
  "update_provisioning q v t = Inr t' \<Longrightarrow> map row_id (pt_rows t') = map row_id (pt_rows t)"
  unfolding update_provisioning_def by (auto split: option.splits if_splits)

lemma update_bumps:
  assumes "ids_distinct t" and "update_provisioning q v t = Inr t'" and "r \<in> set (pt_rows t')" and "row_id r = tp_id q"
  shows "row_version r = v + 1"
proof -
  from assms(2) have rows: "pt_rows t' = map (\<lambda>x. if row_id x = tp_id q \<and> row_version x = v then written_columns q x else x) (pt_rows t)"
    and hit: "\<exists>x \<in> set (pt_rows t). row_id x = tp_id q \<and> row_version x = v"
    unfolding update_provisioning_def by (auto simp: list_ex_iff split: option.splits if_splits)
  from assms(3) rows obtain x where x: "x \<in> set (pt_rows t)"
    "r = (if row_id x = tp_id q \<and> row_version x = v then written_columns q x else x)" by auto
  then have "row_id x = tp_id q" using assms(4) by (auto split: if_splits)
  with hit x(1) assms(1) have "row_version x = v"
    unfolding ids_distinct_def by (metis distinct_map inj_onD)
  with x(2) \<open>row_id x = tp_id q\<close> show ?thesis
    by (simp add: written_columns_def state_sync_def)
qed

lemma second_update_conflicts:
  assumes "ids_distinct t" and "update_provisioning q v t = Inr t1" and "tp_id q' = tp_id q" and "provisioning_validate q' = None"
  shows "update_provisioning q' v t1 = Inl ProvVersionConflict"
proof -
  have "\<not> list_ex (\<lambda>r. row_id r = tp_id q' \<and> row_version r = v) (pt_rows t1)"
    using update_bumps [OF assms(1,2)] assms(3) by (auto simp: list_ex_iff)
  with assms(4) show ?thesis unfolding update_provisioning_def by simp
qed

end
