(* ===== verification/Provisioning_Store.thy ===== *)
theory Provisioning_Store
  imports Provisioning_Plan Provisioning_Run Migration_Exec
begin

text \<open>
  The governed life of a provisioning: \<open>repository/postgres_convergence.go\<close>, \<open>postgres_provisioning_commands.go\<close>,
  \<open>postgres_operations.go\<close>, the commands of \<open>api/provisioning_convergence_handler.go\<close> and \<open>api/provisioning_lifecycle_handler.go\<close>, and the
  executor of \<open>provisioning/apply/executor.go\<close>, over the tables and indexes of migrations 62, 63 and 65.

  A provisioning is planned from an authorised onboarding request, its plan is decided by another principal, applied or
  remediated as an operation, and replanned or withdrawn while none is active; an operation is claimed under a lease,
  executed, completed, retried or cancelled. A handler's reads and its command form one step. Parsing of HTTP requests, the
  identification of the principal, audit rows, result documents and paging are left out; the text of a problem is its
  code. Operations appear in the order they were created.
\<close>

section \<open>Tables\<close>

record prov_plan_row =
  pq_provisioning :: string
  pq_plan :: provisioning_plan
  pq_superseded :: bool
  pq_key :: string
  pq_hash :: string

record plan_decision =
  pdc_approval_id :: string
  pdc_provisioning :: string
  pdc_plan_id :: string
  pdc_plan_version :: int
  pdc_plan_digest :: string
  pdc_decision :: string
  pdc_reason :: string
  pdc_decided_by :: string

record operation_row =
  oq_id :: string
  oq_type :: string
  oq_status :: op_status
  oq_subject :: string
  oq_plan_id :: string
  oq_plan_digest :: string
  oq_approval_id :: string
  oq_requested_by :: string
  oq_key :: string
  oq_hash :: string
  oq_phase :: string
  oq_attempt :: int
  oq_retryable :: bool
  oq_problem :: string
  oq_completed :: bool
  oq_lease :: "instant option"
  oq_retry_key :: string
  oq_revision :: int

record provisioning_store =
  pvs_tables :: provisioning_tables
  pvs_desired :: "(string \<times> int \<times> desired_state) list"
  pvs_plans :: "prov_plan_row list"
  pvs_decisions :: "plan_decision list"
  pvs_operations :: "operation_row list"
  pvs_manifests :: "(string \<times> string \<times> resolved_manifest) list"

datatype command_error =
    PvNotFound | PvLive | PvAlreadyDecided | PvInProgress | PvKeyReused | PvNotRetryable | PvNotCancellable | PvRevisionConflict
  | PvOperationNotFound | PvLeaseLost | PvInsert prov_error | PvDuplicate | PvInvalidRequest | PvSelfApproval | PvStateConflict
  | PvDigestMismatch | PvPlanBlocked | PvPlanStale | PvNotApproved | PvPlanChangeRequired | PvVersionMismatch | PvNotAuthorised
  | PvPlanning plan_error

definition row_key :: "provisioning_row \<Rightarrow> string" where
  "row_key r = new_opaque_id ''tp_'' (row_id r)"

definition find_row :: "provisioning_store \<Rightarrow> string \<Rightarrow> provisioning_row option" where
  "find_row s i = find (\<lambda>r. row_id r = i) (pt_rows (pvs_tables s))"

text \<open>An UPDATE of the provisioning rows that satisfy a condition, with the trigger that follows the status.\<close>

definition write_rows :: "(provisioning_row \<Rightarrow> bool) \<Rightarrow> (provisioning_row \<Rightarrow> provisioning_row) \<Rightarrow> provisioning_store \<Rightarrow> provisioning_store" where
  "write_rows cond f s = s\<lparr>pvs_tables := (pvs_tables s)\<lparr>pt_rows :=
     map (\<lambda>r. if cond r then state_sync r (f r) else r) (pt_rows (pvs_tables s))\<rparr>\<rparr>"

definition bump_version :: "provisioning_row \<Rightarrow> provisioning_row" where
  "bump_version r = r\<lparr>pr_core := (pr_core r)\<lparr>tp_version := row_version r + 1\<rparr>\<rparr>"

definition operation_active_status :: "op_status \<Rightarrow> bool" where
  "operation_active_status st \<longleftrightarrow> st \<in> {OpQueued, OpPreparing, OpRunning, OpWaiting, OpVerifying, OpCompensating, OpCancelRequested}"

definition active_on :: "provisioning_store \<Rightarrow> string \<Rightarrow> bool" where
  "active_on s subject = list_ex (\<lambda>x. oq_subject x = subject \<and> operation_active_status (oq_status x)) (pvs_operations s)"

section \<open>Reads\<close>

record converged =
  cvg_row :: provisioning_row
  cvg_desired :: desired_state
  cvg_plan :: "provisioning_plan option"
  cvg_decision :: "plan_decision option"
  cvg_active :: bool

definition get_desired_state :: "provisioning_store \<Rightarrow> string \<Rightarrow> int \<Rightarrow> desired_state option" where
  "get_desired_state s i v = map_option (\<lambda>(_, _, d). d) (find (\<lambda>(j, w, d). j = i \<and> w = v) (pvs_desired s))"

definition current_plan :: "provisioning_store \<Rightarrow> string \<Rightarrow> provisioning_plan option" where
  "current_plan s i = map_option pq_plan (find (\<lambda>x. pq_provisioning x = i \<and> \<not> pq_superseded x) (pvs_plans s))"

definition decision_on :: "provisioning_store \<Rightarrow> string \<Rightarrow> plan_decision option" where
  "decision_on s plan_id = find (\<lambda>d. pdc_plan_id d = plan_id) (pvs_decisions s)"

definition scan_converged :: "provisioning_store \<Rightarrow> provisioning_row \<Rightarrow> converged option" where
  "scan_converged s r =
    (case get_desired_state s (row_id r) (tp_desired_version (pr_core r)) of
       None \<Rightarrow> None
     | Some d \<Rightarrow>
         let p = current_plan s (row_id r)
         in Some \<lparr>cvg_row = r, cvg_desired = d, cvg_plan = p,
              cvg_decision = (case p of None \<Rightarrow> None | Some x \<Rightarrow> decision_on s (pvp_plan_id x)), cvg_active = active_on s (row_key r)\<rparr>)"

definition get_converged :: "provisioning_store \<Rightarrow> string \<Rightarrow> converged option" where
  "get_converged s i = (case find_row s i of None \<Rightarrow> None | Some r \<Rightarrow> scan_converged s r)"

definition get_converged_by_key :: "provisioning_store \<Rightarrow> string \<Rightarrow> string \<Rightarrow> converged option" where
  "get_converged_by_key s tenant key =
    (case find (\<lambda>r. tp_tenant_id (pr_core r) = tenant \<and> tp_idempotency_key (pr_core r) = key) (pt_rows (pvs_tables s)) of
       None \<Rightarrow> None | Some r \<Rightarrow> scan_converged s r)"

definition get_operation :: "provisioning_store \<Rightarrow> string \<Rightarrow> operation_row option" where
  "get_operation s i = (if \<not> valid_operation_id i then None else find (\<lambda>x. oq_id x = i) (pvs_operations s))"

definition replay_operation :: "provisioning_store \<Rightarrow> string \<Rightarrow> string \<Rightarrow> string \<Rightarrow> operation_row option" where
  "replay_operation s requested_by op_type key =
    find (\<lambda>x. oq_requested_by x = requested_by \<and> oq_type x = op_type \<and> oq_key x = key) (pvs_operations s)"

section \<open>Repository commands\<close>

definition lock_revision :: "provisioning_store \<Rightarrow> string \<Rightarrow> int \<Rightarrow> command_error + provisioning_row" where
  "lock_revision s i expected =
    (case find_row s i of
       None \<Rightarrow> Inl PvNotFound
     | Some r \<Rightarrow> if row_version r \<noteq> expected then Inl PvRevisionConflict else Inr r)"

definition planned_state :: "provisioning_plan \<Rightarrow> string" where
  "planned_state p = (if pvp_blockers p \<noteq> [] then ''BLOCKED'' else ''PLANNED'')"

definition live_provisioning :: "provisioning_row \<Rightarrow> bool" where
  "live_provisioning r \<longleftrightarrow> pr_onboarding_request r \<noteq> [] \<and> pr_state r \<notin> {''CANCELLED'', ''DEPROVISIONED''}"

definition insert_prov_plan :: "string \<Rightarrow> provisioning_plan \<Rightarrow> string \<Rightarrow> string \<Rightarrow> provisioning_store \<Rightarrow> command_error + provisioning_store" where
  "insert_prov_plan i p key hash s =
    (if list_ex (\<lambda>x. pvp_plan_id (pq_plan x) = pvp_plan_id p \<or> pq_provisioning x = i \<and>
          (pvp_plan_version (pq_plan x) = pvp_plan_version p \<or> \<not> pq_superseded x \<or> key \<noteq> [] \<and> pq_key x = key)) (pvs_plans s)
     then Inl PvDuplicate
     else Inr (s\<lparr>pvs_plans := pvs_plans s @ [\<lparr>pq_provisioning = i, pq_plan = p, pq_superseded = False, pq_key = key, pq_hash = hash\<rparr>]\<rparr>))"

definition create_converged_provisioning ::
  "string \<Rightarrow> string \<Rightarrow> string \<Rightarrow> string \<Rightarrow> string \<Rightarrow> desired_state \<Rightarrow> provisioning_plan \<Rightarrow> instant \<Rightarrow> provisioning_store
    \<Rightarrow> command_error + provisioning_store" where
  "create_converged_provisioning i tenant key hash created_by d p started s =
    (case insert_provisioning \<lparr>tp_id = i, tp_tenant_id = tenant, tp_idempotency_key = key, tp_request_hash = hash, tp_status = ProvPlan,
         tp_desired_version = de_version d, tp_observed_version = 0, tp_product_requests = [], tp_market_requests = [],
         tp_isolation = de_isolation d, tp_residency = de_residency d, tp_blocking_reasons = [], tp_attempt_count = 0, tp_last_error = [],
         tp_started_at = started, tp_completed_at = None, tp_version = 1\<rparr> (pvs_tables s) of
       Inl e \<Rightarrow> Inl (PvInsert e)
     | Inr t \<Rightarrow>
         let s1 = write_rows (\<lambda>r. row_id r = i) (\<lambda>r. r\<lparr>pr_onboarding_request := de_onboarding_request_id d,
               pr_admission_decision := de_admission_decision_id d, pr_created_by := created_by, pr_state := planned_state p\<rparr>) (s\<lparr>pvs_tables := t\<rparr>)
         in if list_ex (\<lambda>r. row_id r \<noteq> i \<and> tp_tenant_id (pr_core r) = tenant \<and> live_provisioning r) (pt_rows (pvs_tables s1)) \<and>
              list_ex (\<lambda>r. row_id r = i \<and> live_provisioning r) (pt_rows (pvs_tables s1)) then Inl PvLive
            else if list_ex (\<lambda>(j, v, _). j = i \<and> v = de_version d) (pvs_desired s1) then Inl PvDuplicate
            else insert_prov_plan i p [] [] (s1\<lparr>pvs_desired := pvs_desired s1 @ [(i, de_version d, d)]\<rparr>))"

definition record_plan_decision :: "string \<Rightarrow> int \<Rightarrow> plan_decision \<Rightarrow> provisioning_store \<Rightarrow> command_error + provisioning_store" where
  "record_plan_decision i expected d s =
    (case lock_revision s i expected of
       Inl e \<Rightarrow> Inl e
     | Inr _ \<Rightarrow>
         if list_ex (\<lambda>x. pdc_plan_id x = pdc_plan_id d) (pvs_decisions s) then Inl PvAlreadyDecided
         else if list_ex (\<lambda>x. pdc_approval_id x = pdc_approval_id d) (pvs_decisions s) then Inl PvDuplicate
         else Inr (write_rows (\<lambda>r. row_id r = i) bump_version (s\<lparr>pvs_decisions := pvs_decisions s @ [d]\<rparr>)))"

text \<open>The operation is returned with whether it was created; the requested state is empty for an apply.\<close>

definition accept_operation ::
  "string \<Rightarrow> int \<Rightarrow> operation_row \<Rightarrow> string \<Rightarrow> provisioning_store \<Rightarrow> command_error + operation_row \<times> bool \<times> provisioning_store" where
  "accept_operation i expected x state s =
    (case replay_operation s (oq_requested_by x) (oq_type x) (oq_key x) of
       Some y \<Rightarrow> if oq_hash y \<noteq> oq_hash x \<or> oq_subject y \<noteq> oq_subject x then Inl PvKeyReused else Inr (y, False, s)
     | None \<Rightarrow>
         (case lock_revision s i expected of
            Inl e \<Rightarrow> Inl e
          | Inr _ \<Rightarrow>
              if active_on s (oq_subject x) then Inl PvInProgress
              else if list_ex (\<lambda>y. oq_id y = oq_id x) (pvs_operations s) then Inl PvDuplicate
              else let y = x\<lparr>oq_status := OpQueued, oq_attempt := 1, oq_retryable := False, oq_problem := [], oq_completed := False,
                       oq_lease := None, oq_retry_key := [], oq_revision := 1\<rparr>
                   in Inr (y, True, write_rows (\<lambda>r. row_id r = i)
                        (\<lambda>r. bump_version (r\<lparr>pr_blocked_reason := [], pr_state := (if state = [] then pr_state r else state)\<rparr>))
                        (s\<lparr>pvs_operations := pvs_operations s @ [y]\<rparr>))))"

definition replan_provisioning ::
  "string \<Rightarrow> int \<Rightarrow> provisioning_plan \<Rightarrow> string \<Rightarrow> string \<Rightarrow> provisioning_store \<Rightarrow> command_error + provisioning_store" where
  "replan_provisioning i expected p key hash s =
    (case lock_revision s i expected of
       Inl e \<Rightarrow> Inl e
     | Inr r \<Rightarrow>
         if active_on s (row_key r) then Inl PvInProgress
         else (case insert_prov_plan i p key hash
                 (s\<lparr>pvs_plans := map (\<lambda>x. if pq_provisioning x = i \<and> \<not> pq_superseded x then x\<lparr>pq_superseded := True\<rparr> else x) (pvs_plans s)\<rparr>) of
             Inl e \<Rightarrow> Inl e
           | Inr s1 \<Rightarrow> Inr (write_rows (\<lambda>r. row_id r = i)
               (\<lambda>r. bump_version (r\<lparr>pr_state := planned_state p, pr_blocked_reason := []\<rparr>)) s1)))"

definition withdraw_provisioning :: "string \<Rightarrow> int \<Rightarrow> provisioning_store \<Rightarrow> command_error + provisioning_store" where
  "withdraw_provisioning i expected s =
    (case lock_revision s i expected of
       Inl e \<Rightarrow> Inl e
     | Inr r \<Rightarrow>
         if active_on s (row_key r) then Inl PvInProgress
         else Inr (write_rows (\<lambda>r. row_id r = i) (\<lambda>r. bump_version (r\<lparr>pr_core := (pr_core r)\<lparr>tp_status := ProvCancelled\<rparr>,
             pr_state := ''CANCELLED'', pr_blocked_reason := []\<rparr>)) s))"

definition write_operation :: "string \<Rightarrow> operation_row \<Rightarrow> provisioning_store \<Rightarrow> provisioning_store" where
  "write_operation i y s = s\<lparr>pvs_operations := map (\<lambda>x. if oq_id x = i then y else x) (pvs_operations s)\<rparr>"

definition retry_operation :: "string \<Rightarrow> string \<Rightarrow> provisioning_store \<Rightarrow> command_error + operation_row \<times> provisioning_store" where
  "retry_operation i key s =
    (case find (\<lambda>x. oq_id x = i) (pvs_operations s) of
       None \<Rightarrow> Inl PvOperationNotFound
     | Some x \<Rightarrow>
         if oq_retry_key x \<noteq> [] \<and> oq_retry_key x = key then Inr (x, s)
         else if \<not> oq_retryable x \<or> (oq_status x \<noteq> OpFailed \<and> oq_status x \<noteq> OpBlocked) then Inl PvNotRetryable
         else let y = x\<lparr>oq_status := OpQueued, oq_attempt := oq_attempt x + 1, oq_retryable := False, oq_problem := [], oq_completed := False,
                  oq_lease := None, oq_retry_key := key, oq_revision := oq_revision x + 1\<rparr>
              in Inr (y, write_rows (\<lambda>r. row_key r = oq_subject x) (\<lambda>r. bump_version (r\<lparr>pr_blocked_reason := []\<rparr>)) (write_operation i y s)))"

definition block_cancelled :: "string \<Rightarrow> provisioning_store \<Rightarrow> provisioning_store" where
  "block_cancelled subject s = write_rows (\<lambda>r. row_key r = subject)
     (\<lambda>r. bump_version (r\<lparr>pr_state := ''BLOCKED'', pr_blocked_reason := ''EXECUTION_CANCELLED''\<rparr>)) s"

definition cancelled_row :: "operation_row \<Rightarrow> operation_row" where
  "cancelled_row x = x\<lparr>oq_status := OpCancelled, oq_completed := True, oq_lease := None, oq_retryable := False, oq_revision := oq_revision x + 1\<rparr>"

definition cancel_operation :: "string \<Rightarrow> provisioning_store \<Rightarrow> command_error + operation_row \<times> provisioning_store" where
  "cancel_operation i s =
    (case find (\<lambda>x. oq_id x = i) (pvs_operations s) of
       None \<Rightarrow> Inl PvOperationNotFound
     | Some x \<Rightarrow>
         if oq_status x = OpQueued then
           Inr (cancelled_row x, block_cancelled (oq_subject x) (write_operation i (cancelled_row x) s))
         else if oq_status x = OpPreparing \<or> oq_status x = OpRunning then
           let y = x\<lparr>oq_status := OpCancelRequested, oq_revision := oq_revision x + 1\<rparr> in Inr (y, write_operation i y s)
         else if oq_status x = OpCancelRequested then Inr (x, s)
         else Inl PvNotCancellable)"

definition lapsed :: "instant \<Rightarrow> operation_row \<Rightarrow> bool" where
  "lapsed now x = (case oq_lease x of None \<Rightarrow> False | Some t \<Rightarrow> t < now)"

definition abandoned :: "instant \<Rightarrow> operation_row \<Rightarrow> bool" where
  "abandoned now x \<longleftrightarrow> oq_status x = OpCancelRequested \<and> lapsed now x"

definition finish_abandoned_cancellations :: "instant \<Rightarrow> provisioning_store \<Rightarrow> provisioning_store" where
  "finish_abandoned_cancellations now s =
    foldl (\<lambda>w x. block_cancelled (oq_subject x) w)
      (s\<lparr>pvs_operations := map (\<lambda>x. if abandoned now x then cancelled_row x else x) (pvs_operations s)\<rparr>)
      (filter (abandoned now) (pvs_operations s))"

definition runnable :: "instant \<Rightarrow> operation_row \<Rightarrow> bool" where
  "runnable now x \<longleftrightarrow> oq_type x \<in> {''TENANT_PROVISIONING_APPLY'', ''TENANT_PROVISIONING_REMEDIATE''} \<and>
    (oq_status x = OpQueued \<or> oq_status x \<in> {OpPreparing, OpRunning} \<and> lapsed now x)"

definition claim_operation :: "instant \<Rightarrow> duration \<Rightarrow> provisioning_store \<Rightarrow> (operation_row \<times> provisioning_store) option" where
  "claim_operation now lease s =
    (case find (runnable now) (pvs_operations s) of
       None \<Rightarrow> None
     | Some x \<Rightarrow>
         let y = x\<lparr>oq_status := OpRunning, oq_lease := Some (now + lease),
               oq_attempt := oq_attempt x + (if oq_status x = OpQueued then 0 else 1), oq_revision := oq_revision x + 1\<rparr>
         in Some (y, write_operation (oq_id x) y s))"

record execution_outcome =
  oc_status :: op_status
  oc_phase :: string
  oc_retryable :: bool
  oc_problem :: string

definition completed_row :: "execution_outcome \<Rightarrow> operation_row \<Rightarrow> operation_row" where
  "completed_row oc x =
    (let stopped = (oq_status x = OpCancelRequested \<and> oc_status oc \<noteq> OpSucceeded)
     in x\<lparr>oq_status := (if stopped then OpCancelled else oc_status oc), oq_phase := (if stopped then ''CANCELLED'' else oc_phase oc),
          oq_retryable := oc_retryable oc \<and> oq_status x \<noteq> OpCancelRequested, oq_problem := (if stopped then [] else oc_problem oc),
          oq_completed := oc_status oc \<in> {OpSucceeded, OpFailed} \<or> oq_status x = OpCancelRequested, oq_lease := None,
          oq_revision := oq_revision x + 1\<rparr>)"

definition complete_operation :: "string \<Rightarrow> int \<Rightarrow> execution_outcome \<Rightarrow> provisioning_store \<Rightarrow> command_error + op_status \<times> provisioning_store" where
  "complete_operation i attempt oc s =
    (case find (\<lambda>x. oq_id x = i \<and> oq_attempt x = attempt \<and> oq_status x \<in> {OpPreparing, OpRunning, OpCancelRequested}) (pvs_operations s) of
       None \<Rightarrow> Inl PvLeaseLost
     | Some x \<Rightarrow> Inr (oq_status (completed_row oc x), write_operation i (completed_row oc x) s))"

definition mark_blocked :: "string \<Rightarrow> string \<Rightarrow> provisioning_store \<Rightarrow> provisioning_store" where
  "mark_blocked i reason s = write_rows (\<lambda>r. row_id r = i) (\<lambda>r. bump_version (r\<lparr>pr_state := ''BLOCKED'', pr_blocked_reason := reason\<rparr>)) s"

definition mark_execution_failed :: "string \<Rightarrow> string \<Rightarrow> bool \<Rightarrow> provisioning_store \<Rightarrow> provisioning_store" where
  "mark_execution_failed i code retryable s =
    write_rows (\<lambda>r. row_id r = i \<and> pr_state r \<in> {''APPLYING'', ''REMEDIATING''})
      (\<lambda>r. bump_version (r\<lparr>pr_state := (if retryable then ''FAILED'' else ''BLOCKED''), pr_blocked_reason := (if retryable then [] else code)\<rparr>)) s"

definition save_execution_manifest :: "string \<Rightarrow> string \<Rightarrow> resolved_manifest \<Rightarrow> provisioning_store \<Rightarrow> provisioning_store" where
  "save_execution_manifest i source m s =
    s\<lparr>pvs_manifests := (if list_ex (\<lambda>(j, _). j = i) (pvs_manifests s)
        then map (\<lambda>(j, src, x). if j = i \<and> src \<noteq> source then (j, source, m) else (j, src, x)) (pvs_manifests s)
        else pvs_manifests s @ [(i, source, m)])\<rparr>"

section \<open>The commands of the handlers\<close>

text \<open>
  What a handler reads beside the tables: the hash functions, the health policy, the registry as it is now, the environment,
  the clock, and the hash of a request's text.
\<close>

record prov_env =
  vv_hashing :: hashing
  vv_policy :: health_policy
  vv_registry :: plan_registry
  vv_environment :: string
  vv_clock :: instant
  vv_request_hash :: "string \<Rightarrow> string"

definition replanned :: "prov_env \<Rightarrow> string \<Rightarrow> desired_state \<Rightarrow> provisioning_plan \<Rightarrow> plan_error + provisioning_plan" where
  "replanned env key d p = generate_plan (vv_hashing env) (vv_policy env) (vv_registry env) (vv_environment env)
     \<lparr>in_desired = d, in_provisioning_id = key, in_plan_id = pvp_plan_id p, in_plan_version = pvp_plan_version p,
      in_base_revision = pvp_base_revision p, in_now = pvp_generated_at p\<rparr>"

definition converged_stale :: "prov_env \<Rightarrow> converged \<Rightarrow> command_error + bool" where
  "converged_stale env c =
    (case cvg_plan c of
       None \<Rightarrow> Inr True
     | Some p \<Rightarrow>
         if plan_expired p (vv_clock env) then Inr True
         else (case replanned env (row_key (cvg_row c)) (cvg_desired c) p of
             Inl e \<Rightarrow> Inl (PvPlanning e)
           | Inr p' \<Rightarrow> Inr (plan_material_digest (vv_hashing env) p' \<noteq> plan_material_digest (vv_hashing env) p)))"

definition handle_replay :: "converged \<Rightarrow> string \<Rightarrow> provisioning_store \<Rightarrow> command_error + provisioning_store" where
  "handle_replay c hash s = (if tp_request_hash (pr_core (cvg_row c)) \<noteq> hash then Inl PvKeyReused else Inr s)"

definition handle_create ::
  "prov_env \<Rightarrow> string \<Rightarrow> string \<Rightarrow> string \<Rightarrow> string \<Rightarrow> string \<Rightarrow> string \<Rightarrow> int option \<Rightarrow> onboarding_request option \<Rightarrow> provisioning_store
    \<Rightarrow> command_error + provisioning_store" where
  "handle_create env uuid plan_id tenant key hash actor_id version request s =
    (case get_converged_by_key s tenant key of
       Some c \<Rightarrow> handle_replay c hash s
     | None \<Rightarrow>
         (case request of
            None \<Rightarrow> Inl PvNotFound
          | Some req \<Rightarrow>
              if version \<noteq> None \<and> version \<noteq> Some 1 then Inl PvVersionMismatch
              else (case freeze_desired_state (vv_hashing env) req tenant 1 (vv_clock env) of
                  None \<Rightarrow> Inl PvNotAuthorised
                | Some d \<Rightarrow>
                    (case generate_plan (vv_hashing env) (vv_policy env) (vv_registry env) (vv_environment env)
                        \<lparr>in_desired = d, in_provisioning_id = new_opaque_id ''tp_'' uuid, in_plan_id = plan_id, in_plan_version = 1,
                         in_base_revision = 1, in_now = vv_clock env\<rparr> of
                       Inl e \<Rightarrow> Inl (PvPlanning e)
                     | Inr p \<Rightarrow>
                         (case create_converged_provisioning uuid tenant key hash actor_id d p (vv_clock env) s of
                            Inl (PvInsert ProvAlreadyExists) \<Rightarrow>
                              (case get_converged_by_key s tenant key of None \<Rightarrow> Inl PvKeyReused | Some c \<Rightarrow> handle_replay c hash s)
                          | r \<Rightarrow> r)))))"

text \<open>The provisioning of the tenant in the path.\<close>

definition load_converged :: "string \<Rightarrow> string \<Rightarrow> provisioning_store \<Rightarrow> converged option" where
  "load_converged tenant key s =
    (case parse_resource_id ''tp'' key of
       None \<Rightarrow> None
     | Some i \<Rightarrow> (case get_converged s i of None \<Rightarrow> None
         | Some c \<Rightarrow> if tp_tenant_id (pr_core (cvg_row c)) \<noteq> tenant then None else Some c))"

record decision_body =
  db_plan_id :: string
  db_plan_version :: int
  db_plan_digest :: string
  db_decision :: string
  db_reason :: string

definition decision_body_ok :: "decision_body \<Rightarrow> bool" where
  "decision_body_ok b \<longleftrightarrow> db_plan_id b \<noteq> [] \<and> 1 \<le> db_plan_version b \<and> db_plan_digest b \<noteq> [] \<and>
    db_decision b \<in> {''APPROVED'', ''REJECTED'', ''CHANGES_REQUESTED''} \<and>
    (db_decision b = ''APPROVED'' \<or> trim_space (db_reason b) \<noteq> []) \<and> length (db_reason b) \<le> 1000"

definition handle_approve ::
  "prov_env \<Rightarrow> string \<Rightarrow> string \<Rightarrow> string \<Rightarrow> int \<Rightarrow> string \<Rightarrow> decision_body \<Rightarrow> provisioning_store \<Rightarrow> command_error + provisioning_store" where
  "handle_approve env approval_id tenant key revision actor_id b s =
    (case load_converged tenant key s of
       None \<Rightarrow> Inl PvNotFound
     | Some c \<Rightarrow>
         if \<not> decision_body_ok b then Inl PvInvalidRequest
         else if actor_id = pr_created_by (cvg_row c) then Inl PvSelfApproval
         else if pr_state (cvg_row c) \<noteq> ''PLANNED'' \<and> pr_state (cvg_row c) \<noteq> ''BLOCKED'' then Inl PvStateConflict
         else (case cvg_plan c of
             None \<Rightarrow> Inl PvDigestMismatch
           | Some p \<Rightarrow>
               if db_plan_id b \<noteq> pvp_plan_id p \<or> db_plan_version b \<noteq> pvp_plan_version p \<or> db_plan_digest b \<noteq> pvp_plan_digest p then Inl PvDigestMismatch
               else if db_decision b = ''APPROVED'' \<and> pvp_blockers p \<noteq> [] then Inl PvPlanBlocked
               else (case (if db_decision b = ''APPROVED'' then converged_stale env c else Inr False) of
                   Inl e \<Rightarrow> Inl e
                 | Inr True \<Rightarrow> Inl PvPlanStale
                 | Inr False \<Rightarrow> record_plan_decision (row_id (cvg_row c)) revision
                     \<lparr>pdc_approval_id = approval_id, pdc_provisioning = row_id (cvg_row c), pdc_plan_id = pvp_plan_id p,
                      pdc_plan_version = pvp_plan_version p, pdc_plan_digest = pvp_plan_digest p, pdc_decision = db_decision b,
                      pdc_reason = trim_space (db_reason b), pdc_decided_by = actor_id\<rparr> s)))"

definition new_operation :: "string \<Rightarrow> string \<Rightarrow> converged \<Rightarrow> string \<Rightarrow> string \<Rightarrow> string \<Rightarrow> string \<Rightarrow> operation_row" where
  "new_operation new_id op_type c actor_id phase key hash =
    \<lparr>oq_id = new_id, oq_type = op_type, oq_status = OpQueued, oq_subject = row_key (cvg_row c),
     oq_plan_id = (case cvg_plan c of None \<Rightarrow> [] | Some p \<Rightarrow> pvp_plan_id p), oq_plan_digest = (case cvg_plan c of None \<Rightarrow> [] | Some p \<Rightarrow> pvp_plan_digest p),
     oq_approval_id = (case cvg_decision c of None \<Rightarrow> [] | Some d \<Rightarrow> pdc_approval_id d), oq_requested_by = actor_id, oq_key = key, oq_hash = hash,
     oq_phase = phase, oq_attempt = 1, oq_retryable = False, oq_problem = [], oq_completed = False, oq_lease = None, oq_retry_key = [], oq_revision = 1\<rparr>"

definition plan_digest_text :: "converged \<Rightarrow> string" where
  "plan_digest_text c = (case cvg_plan c of None \<Rightarrow> [] | Some p \<Rightarrow> pvp_plan_digest p)"

text \<open>A replayed or newly accepted operation is returned only for the same subject and request.\<close>

definition handle_accepted :: "operation_row \<Rightarrow> string \<Rightarrow> string \<Rightarrow> provisioning_store \<Rightarrow> command_error + provisioning_store" where
  "handle_accepted x hash subject s = (if oq_subject x \<noteq> subject \<or> oq_hash x \<noteq> hash then Inl PvKeyReused else Inr s)"

definition approved :: "converged \<Rightarrow> bool" where
  "approved c = (case (cvg_plan c, cvg_decision c) of (Some p, Some d) \<Rightarrow> pdc_decision d = ''APPROVED'' | _ \<Rightarrow> False)"

definition decision_matches :: "converged \<Rightarrow> bool" where
  "decision_matches c = (case (cvg_plan c, cvg_decision c) of
     (Some p, Some d) \<Rightarrow> pdc_plan_digest d = pvp_plan_digest p \<and> pdc_plan_id d = pvp_plan_id p | _ \<Rightarrow> False)"

definition handle_apply ::
  "prov_env \<Rightarrow> string \<Rightarrow> string \<Rightarrow> string \<Rightarrow> int \<Rightarrow> string \<Rightarrow> string \<Rightarrow> provisioning_store \<Rightarrow> command_error + provisioning_store" where
  "handle_apply env new_id tenant key revision idempotency actor_id s =
    (case load_converged tenant key s of
       None \<Rightarrow> Inl PvNotFound
     | Some c \<Rightarrow>
         let hash = vv_request_hash env (row_key (cvg_row c) @ ''|'' @ plan_digest_text c);
             x = new_operation new_id ''TENANT_PROVISIONING_APPLY'' c actor_id (pr_state (cvg_row c)) idempotency hash
         in (case replay_operation s actor_id (oq_type x) idempotency of
               Some y \<Rightarrow> handle_accepted y hash (row_key (cvg_row c)) s
             | None \<Rightarrow>
                 if pr_state (cvg_row c) \<noteq> ''PLANNED'' then Inl PvStateConflict
                 else if \<not> approved c then Inl PvNotApproved
                 else if \<not> decision_matches c then Inl PvDigestMismatch
                 else (case converged_stale env c of
                     Inl e \<Rightarrow> Inl e
                   | Inr True \<Rightarrow> Inl PvPlanStale
                   | Inr False \<Rightarrow> (case accept_operation (row_id (cvg_row c)) revision x [] s of
                         Inl e \<Rightarrow> Inl e | Inr (y, _, s') \<Rightarrow> handle_accepted y hash (row_key (cvg_row c)) s'))))"

definition handle_remediate ::
  "prov_env \<Rightarrow> string \<Rightarrow> string \<Rightarrow> string \<Rightarrow> int \<Rightarrow> string \<Rightarrow> string \<Rightarrow> string \<Rightarrow> provisioning_store \<Rightarrow> command_error + provisioning_store" where
  "handle_remediate env new_id tenant key revision idempotency actor_id reason s =
    (case load_converged tenant key s of
       None \<Rightarrow> Inl PvNotFound
     | Some c \<Rightarrow>
         let hash = vv_request_hash env (row_key (cvg_row c) @ ''|'' @ plan_digest_text c @ ''|'' @ reason);
             x = new_operation new_id ''TENANT_PROVISIONING_REMEDIATE'' c actor_id ''REMEDIATING'' idempotency hash
         in (case replay_operation s actor_id (oq_type x) idempotency of
               Some y \<Rightarrow> handle_accepted y hash (row_key (cvg_row c)) s
             | None \<Rightarrow>
                 if pr_state (cvg_row c) \<noteq> ''BLOCKED'' then Inl PvStateConflict
                 else if (case cvg_plan c of None \<Rightarrow> True | Some p \<Rightarrow> pvp_blockers p \<noteq> []) then Inl PvPlanChangeRequired
                 else if \<not> approved c \<or> (case (cvg_plan c, cvg_decision c) of (Some p, Some d) \<Rightarrow> pdc_plan_digest d \<noteq> pvp_plan_digest p | _ \<Rightarrow> True)
                   then Inl PvNotApproved
                 else (case converged_stale env c of
                     Inl e \<Rightarrow> Inl e
                   | Inr True \<Rightarrow> Inl PvPlanStale
                   | Inr False \<Rightarrow> (case accept_operation (row_id (cvg_row c)) revision x ''REMEDIATING'' s of
                         Inl e \<Rightarrow> Inl e | Inr (y, _, s') \<Rightarrow> handle_accepted y hash (row_key (cvg_row c)) s'))))"

text \<open>The text of an optional version is given with the request.\<close>

definition replan_replayed :: "converged \<Rightarrow> string \<Rightarrow> string \<Rightarrow> provisioning_store \<Rightarrow> (command_error + provisioning_store) option" where
  "replan_replayed c key hash s =
    (case find (\<lambda>x. pq_provisioning x = row_id (cvg_row c) \<and> pq_key x \<noteq> [] \<and> pq_key x = key) (pvs_plans s) of
       None \<Rightarrow> None | Some x \<Rightarrow> Some (if pq_hash x \<noteq> hash then Inl PvKeyReused else Inr s))"

definition handle_replan ::
  "prov_env \<Rightarrow> string \<Rightarrow> string \<Rightarrow> string \<Rightarrow> int \<Rightarrow> string \<Rightarrow> string \<Rightarrow> (int \<times> string) option \<Rightarrow> provisioning_store
    \<Rightarrow> command_error + provisioning_store" where
  "handle_replan env plan_id tenant key revision idempotency reason version s =
    (case load_converged tenant key s of
       None \<Rightarrow> Inl PvNotFound
     | Some c \<Rightarrow>
         let hash = vv_request_hash env (reason @ ''|'' @ (case version of None \<Rightarrow> [] | Some (_, txt) \<Rightarrow> txt))
         in (case replan_replayed c idempotency hash s of
               Some result \<Rightarrow> result
             | None \<Rightarrow>
                 if pr_state (cvg_row c) \<notin> {''PLANNED'', ''BLOCKED'', ''FAILED''} then Inl PvStateConflict
                 else if cvg_active c then Inl PvInProgress
                 else if (case version of None \<Rightarrow> False | Some (v, _) \<Rightarrow> v \<noteq> tp_desired_version (pr_core (cvg_row c))) then Inl PvVersionMismatch
                 else (case generate_plan (vv_hashing env) (vv_policy env) (vv_registry env) (vv_environment env)
                     \<lparr>in_desired = cvg_desired c, in_provisioning_id = row_key (cvg_row c), in_plan_id = plan_id,
                      in_plan_version = (case cvg_plan c of None \<Rightarrow> 1 | Some p \<Rightarrow> pvp_plan_version p + 1),
                      in_base_revision = row_version (cvg_row c), in_now = vv_clock env\<rparr> of
                     Inl e \<Rightarrow> Inl (PvPlanning e)
                   | Inr p \<Rightarrow> replan_provisioning (row_id (cvg_row c)) revision p idempotency hash s)))"

definition handle_withdraw :: "string \<Rightarrow> string \<Rightarrow> int \<Rightarrow> provisioning_store \<Rightarrow> command_error + provisioning_store" where
  "handle_withdraw tenant key revision s =
    (case load_converged tenant key s of
       None \<Rightarrow> Inl PvNotFound
     | Some c \<Rightarrow>
         if pr_state (cvg_row c) \<notin> {''DRAFT'', ''PLANNED'', ''BLOCKED'', ''FAILED''} then Inl PvStateConflict
         else if cvg_active c then Inl PvInProgress
         else withdraw_provisioning (row_id (cvg_row c)) revision s)"

definition handle_retry :: "prov_env \<Rightarrow> string \<Rightarrow> string \<Rightarrow> provisioning_store \<Rightarrow> command_error + provisioning_store" where
  "handle_retry env new_id key s =
    (case get_operation s new_id of
       None \<Rightarrow> Inl PvOperationNotFound
     | Some x \<Rightarrow>
         let go = (case retry_operation new_id key s of Inl e \<Rightarrow> Inl e | Inr (_, s') \<Rightarrow> Inr s')
         in if \<not> oq_retryable x then go
            else (case parse_resource_id ''tp'' (oq_subject x) of
                None \<Rightarrow> Inl PvNotFound
              | Some i \<Rightarrow> (case get_converged s i of
                    None \<Rightarrow> Inl PvNotFound
                  | Some c \<Rightarrow> (case converged_stale env c of
                        Inl e \<Rightarrow> Inl e
                      | Inr old \<Rightarrow>
                          if pr_state (cvg_row c) \<noteq> ''FAILED'' \<and> pr_state (cvg_row c) \<noteq> ''BLOCKED'' then Inl PvStateConflict
                          else if old \<or> plan_digest_text c \<noteq> oq_plan_digest x then Inl PvPlanStale
                          else go))))"

definition handle_cancel :: "string \<Rightarrow> provisioning_store \<Rightarrow> command_error + provisioning_store" where
  "handle_cancel new_id s =
    (case get_operation s new_id of
       None \<Rightarrow> Inl PvOperationNotFound
     | Some x \<Rightarrow> (case cancel_operation new_id s of Inl e \<Rightarrow> Inl e | Inr (_, s') \<Rightarrow> Inr s'))"

section \<open>The executor\<close>

text \<open>Beside the environment, the executor looks up markets, engines and legal entities, and builds the pipeline of a manifest.\<close>

record executor_env =
  xv_env :: prov_env
  xv_registry :: execution_registry
  xv_legal_entity :: "string \<Rightarrow> string option"
  xv_pipeline :: "string \<Rightarrow> resolved_manifest \<Rightarrow> orchestrator option"

definition failure :: "string \<Rightarrow> bool \<Rightarrow> execution_outcome" where
  "failure code retryable = \<lparr>oc_status = OpFailed, oc_phase = ''FAILED'', oc_retryable = retryable, oc_problem = code\<rparr>"

definition plan_bound :: "operation_row \<Rightarrow> converged \<Rightarrow> bool" where
  "plan_bound x c = (case (cvg_plan c, cvg_decision c) of
     (Some p, Some d) \<Rightarrow> pdc_decision d = ''APPROVED'' \<and> pvp_plan_digest p = oq_plan_digest x \<and> pdc_plan_digest d = oq_plan_digest x \<and>
       pdc_approval_id d = oq_approval_id x
   | _ \<Rightarrow> False)"

definition execution_result :: "string \<Rightarrow> run_result \<Rightarrow> provisioning_store \<Rightarrow> execution_outcome \<times> provisioning_store" where
  "execution_result i r s =
    (case r of (final, e, t) \<Rightarrow>
       let s1 = s\<lparr>pvs_tables := t\<rparr>
       in if tp_status final = ProvActive then (\<lparr>oc_status = OpSucceeded, oc_phase = ''ACTIVE'', oc_retryable = False, oc_problem = []\<rparr>, s1)
          else if tp_status final \<noteq> ProvFailed \<and> tp_status final \<in> {ProvReconcile, ProvReady} \<and> e = None then
            (\<lparr>oc_status = OpBlocked, oc_phase = ''BLOCKED'', oc_retryable = True, oc_problem = []\<rparr>, mark_blocked i [] s1)
          else (failure ''PROVISIONING_FAILED'' True, s1))"

definition execute :: "executor_env \<Rightarrow> operation_row \<Rightarrow> provisioning_store \<Rightarrow> execution_outcome \<times> provisioning_store" where
  "execute xv x s =
    (if 5 < oq_attempt x then (failure ''EXECUTION_ABANDONED'' True, s)
     else case Option.bind (parse_resource_id ''tp'' (oq_subject x)) (get_converged s) of
       None \<Rightarrow> (failure ''PROVISIONING_UNAVAILABLE'' True, s)
     | Some c \<Rightarrow>
         if \<not> plan_bound x c then (failure ''PLAN_DIGEST_MISMATCH'' False, s)
         else
           let env = xv_env xv; p = the (cvg_plan c); i = row_id (cvg_row c)
           in if oq_attempt x = 1 \<and> plan_expired p (vv_clock env) then (failure ''PLAN_STALE'' False, s)
              else (case replanned env (row_key (cvg_row c)) (cvg_desired c) p of
                  Inl e \<Rightarrow> (failure ''PROVISIONING_UNAVAILABLE'' True, s)
                | Inr p' \<Rightarrow>
                    if plan_material_digest (vv_hashing env) p' \<noteq> plan_material_digest (vv_hashing env) p then (failure ''PLAN_STALE'' False, s)
                    else (case xv_legal_entity xv (tp_tenant_id (pr_core (cvg_row c))) of
                        None \<Rightarrow> (failure ''TENANT_UNAVAILABLE'' True, s)
                      | Some legal_entity \<Rightarrow>
                          (case execution_manifest (xv_registry xv) p (cvg_desired c) legal_entity (oq_approval_id x) of
                             Inl e \<Rightarrow> (failure ''PLAN_NOT_EXECUTABLE'' False, s)
                           | Inr m \<Rightarrow>
                               let s1 = save_execution_manifest i (''plan:'' @ pvp_plan_id p) m s
                               in (case xv_pipeline xv (tp_tenant_id (pr_core (cvg_row c))) m of
                                     None \<Rightarrow> (failure ''PROVISIONING_UNAVAILABLE'' True, s1)
                                   | Some w \<Rightarrow>
                                       execution_result i
                                         (if tp_status (pr_core (cvg_row c)) = ProvFailed then orchestrator_retry (vv_clock env) w i (pvs_tables s1)
                                          else orchestrator_run (vv_clock env) w i (pvs_tables s1)) s1)))))"

text \<open>What \<open>RunOnce\<close> does once the outcome is recorded.\<close>

definition complete_execution :: "operation_row \<Rightarrow> execution_outcome \<Rightarrow> provisioning_store \<Rightarrow> command_error + provisioning_store" where
  "complete_execution x oc s =
    (case complete_operation (oq_id x) (oq_attempt x) oc s of
       Inl e \<Rightarrow> Inl e
     | Inr (recorded, s1) \<Rightarrow>
         Inr (case parse_resource_id ''tp'' (oq_subject x) of
                None \<Rightarrow> s1
              | Some i \<Rightarrow>
                  if recorded = OpCancelled then mark_blocked i ''EXECUTION_CANCELLED'' s1
                  else if recorded = OpFailed then mark_execution_failed i (oc_problem oc) (oc_retryable oc) s1
                  else s1))"

section \<open>What commands keep\<close>

text \<open>
  The governed part of a store: who created each provisioning, the plans without their supersession, the decisions, and what
  each operation applies. Most commands leave it unchanged, the others append to it.
\<close>

definition identities :: "provisioning_tables \<Rightarrow> (string \<times> string) list" where
  "identities t = map (\<lambda>r. (row_id r, pr_created_by r)) (pt_rows t)"

definition plans_core :: "provisioning_store \<Rightarrow> (string \<times> provisioning_plan) list" where
  "plans_core s = map (\<lambda>x. (pq_provisioning x, pq_plan x)) (pvs_plans s)"

definition operation_core :: "operation_row \<Rightarrow> string \<times> string \<times> string \<times> string \<times> string" where
  "operation_core x = (oq_id x, oq_subject x, oq_plan_id x, oq_plan_digest x, oq_approval_id x)"

definition operations_core :: "provisioning_store \<Rightarrow> (string \<times> string \<times> string \<times> string \<times> string) list" where
  "operations_core s = map operation_core (pvs_operations s)"

definition same_governed :: "provisioning_store \<Rightarrow> provisioning_store \<Rightarrow> bool" where
  "same_governed s s' \<longleftrightarrow> identities (pvs_tables s') = identities (pvs_tables s) \<and> plans_core s' = plans_core s \<and>
    pvs_decisions s' = pvs_decisions s \<and> operations_core s' = operations_core s"

lemma same_governed_refl [simp]: "same_governed s s"
  by (simp add: same_governed_def)

lemma same_governed_trans: "same_governed s s1 \<Longrightarrow> same_governed s1 s2 \<Longrightarrow> same_governed s s2"
  by (simp add: same_governed_def)

lemma state_sync_identity [simp]: "row_id (state_sync a r) = row_id r" "pr_created_by (state_sync a r) = pr_created_by r"
  by (simp_all add: state_sync_def)

lemma bump_version_fields [simp]:
  "row_id (bump_version r) = row_id r" "pr_created_by (bump_version r) = pr_created_by r" "pr_state (bump_version r) = pr_state r"
  "row_version (bump_version r) = row_version r + 1" "pr_onboarding_request (bump_version r) = pr_onboarding_request r"
  "tp_tenant_id (pr_core (bump_version r)) = tp_tenant_id (pr_core r)"
  by (simp_all add: bump_version_def)

lemma write_rows_identities:
  assumes "\<And>r. row_id (f r) = row_id r \<and> pr_created_by (f r) = pr_created_by r"
  shows "identities (pvs_tables (write_rows cond f s)) = identities (pvs_tables s)"
  using assms by (simp add: identities_def write_rows_def)

lemma write_rows_fields [simp]:
  "pvs_plans (write_rows cond f s) = pvs_plans s" "pvs_decisions (write_rows cond f s) = pvs_decisions s"
  "pvs_operations (write_rows cond f s) = pvs_operations s" "pvs_desired (write_rows cond f s) = pvs_desired s"
  "pvs_manifests (write_rows cond f s) = pvs_manifests s"
  by (simp_all add: write_rows_def)

lemma write_rows_governed:
  assumes "\<And>r. row_id (f r) = row_id r \<and> pr_created_by (f r) = pr_created_by r"
  shows "same_governed s (write_rows cond f s)"
  using write_rows_identities [of f cond s] assms by (simp add: same_governed_def plans_core_def operations_core_def)

lemma write_operation_core:
  assumes "find (\<lambda>x. oq_id x = i) (pvs_operations s) = Some x" and "operation_core y = operation_core x"
    and "distinct (map oq_id (pvs_operations s))"
  shows "operations_core (write_operation i y s) = operations_core s"
proof -
  have "operation_core (if oq_id z = i then y else z) = operation_core z" if z: "z \<in> set (pvs_operations s)" for z
  proof (cases "oq_id z = i")
    case True
    from assms(1) have "x \<in> set (pvs_operations s)" "oq_id x = i" by (auto simp: find_Some_iff)
    with True z assms(3) have "z = x" by (metis distinct_map inj_onD)
    with assms(2) True show ?thesis by simp
  qed simp
  then show ?thesis by (simp add: operations_core_def write_operation_def)
qed

lemma write_operation_governed:
  assumes "find (\<lambda>x. oq_id x = i) (pvs_operations s) = Some x" and "operation_core y = operation_core x"
    and "distinct (map oq_id (pvs_operations s))"
  shows "same_governed s (write_operation i y s)"
  using write_operation_core [OF assms] by (simp add: same_governed_def plans_core_def write_operation_def)

lemma operation_core_update [simp]:
  "operation_core (x\<lparr>oq_status := a\<rparr>) = operation_core x" "operation_core (x\<lparr>oq_attempt := b\<rparr>) = operation_core x"
  "operation_core (x\<lparr>oq_retryable := c\<rparr>) = operation_core x" "operation_core (x\<lparr>oq_problem := d\<rparr>) = operation_core x"
  "operation_core (x\<lparr>oq_completed := e\<rparr>) = operation_core x" "operation_core (x\<lparr>oq_lease := f\<rparr>) = operation_core x"
  "operation_core (x\<lparr>oq_retry_key := g\<rparr>) = operation_core x" "operation_core (x\<lparr>oq_revision := h\<rparr>) = operation_core x"
  "operation_core (x\<lparr>oq_phase := k\<rparr>) = operation_core x"
  by (simp_all add: operation_core_def)

lemma block_cancelled_governed: "same_governed s (block_cancelled subject s)"
  unfolding block_cancelled_def by (rule write_rows_governed) simp

lemma retry_operation_governed:
  assumes "retry_operation i key s = Inr (y, s')" and "distinct (map oq_id (pvs_operations s))"
  shows "same_governed s s'"
proof -
  from assms(1) obtain x where x: "find (\<lambda>x. oq_id x = i) (pvs_operations s) = Some x"
    unfolding retry_operation_def by (auto split: option.splits)
  show ?thesis
  proof (cases "oq_retry_key x \<noteq> [] \<and> oq_retry_key x = key")
    case True
    with assms(1) x show ?thesis unfolding retry_operation_def by auto
  next
    case False
    with assms(1) x have core: "operation_core y = operation_core x"
      and s': "s' = write_rows (\<lambda>r. row_key r = oq_subject x) (\<lambda>r. bump_version (r\<lparr>pr_blocked_reason := []\<rparr>)) (write_operation i y s)"
      unfolding retry_operation_def by (auto simp: Let_def split: if_splits)
    show ?thesis
      unfolding s' by (rule same_governed_trans [OF write_operation_governed [OF x core assms(2)] write_rows_governed]) simp
  qed
qed

lemma cancel_operation_governed:
  assumes "cancel_operation i s = Inr (y, s')" and "distinct (map oq_id (pvs_operations s))"
  shows "same_governed s s'"
proof -
  from assms(1) obtain x where x: "find (\<lambda>x. oq_id x = i) (pvs_operations s) = Some x"
    unfolding cancel_operation_def by (auto split: option.splits)
  have c: "operation_core (cancelled_row x) = operation_core x" by (simp add: cancelled_row_def)
  have r: "operation_core (x\<lparr>oq_status := OpCancelRequested, oq_revision := oq_revision x + 1\<rparr>) = operation_core x" by simp
  from assms(1) x consider "s' = block_cancelled (oq_subject x) (write_operation i (cancelled_row x) s)"
    | "s' = write_operation i (x\<lparr>oq_status := OpCancelRequested, oq_revision := oq_revision x + 1\<rparr>) s" | "s' = s"
    unfolding cancel_operation_def by (auto simp: Let_def split: if_splits)
  then show ?thesis
    by cases (use same_governed_trans [OF write_operation_governed [OF x c assms(2)] block_cancelled_governed]
        write_operation_governed [OF x r assms(2)] in auto)
qed

lemma finish_abandoned_governed: "same_governed s (finish_abandoned_cancellations now s)"
proof -
  have "same_governed w (foldl (\<lambda>w x. block_cancelled (oq_subject x) w) w xs)" for w and xs :: "operation_row list"
    by (induction xs arbitrary: w) (auto intro: same_governed_trans block_cancelled_governed)
  moreover have "same_governed s (s\<lparr>pvs_operations := map (\<lambda>x. if abandoned now x then cancelled_row x else x) (pvs_operations s)\<rparr>)"
    by (auto simp: same_governed_def plans_core_def operations_core_def cancelled_row_def)
  ultimately show ?thesis
    unfolding finish_abandoned_cancellations_def using same_governed_trans by blast
qed

lemma claim_operation_governed:
  assumes "claim_operation now lease s = Some (y, s')" and "distinct (map oq_id (pvs_operations s))"
  shows "same_governed s s' \<and> operation_core y \<in> set (operations_core s)"
proof -
  from assms(1) obtain x where x: "find (runnable now) (pvs_operations s) = Some x" and s': "s' = write_operation (oq_id x) y s"
    and core: "operation_core y = operation_core x"
    unfolding claim_operation_def by (auto simp: Let_def split: option.splits)
  have mem: "x \<in> set (pvs_operations s)" using x by (auto simp: find_Some_iff)
  have "find (\<lambda>z. oq_id z = oq_id x) (pvs_operations s) = Some x"
  proof (cases "find (\<lambda>z. oq_id z = oq_id x) (pvs_operations s)")
    case None
    with mem show ?thesis by (auto simp: find_None_iff)
  next
    case (Some z)
    then have "z \<in> set (pvs_operations s)" "oq_id z = oq_id x" by (auto simp: find_Some_iff)
    with mem assms(2) have "z = x" by (metis distinct_map inj_onD)
    with Some show ?thesis by simp
  qed
  from write_operation_governed [OF this core assms(2)] s' core mem show ?thesis
    by (simp add: operations_core_def)
qed

lemma distinct_find_id:
  assumes "x \<in> set (pvs_operations s)" and "distinct (map oq_id (pvs_operations s))"
  shows "find (\<lambda>z. oq_id z = oq_id x) (pvs_operations s) = Some x"
proof (cases "find (\<lambda>z. oq_id z = oq_id x) (pvs_operations s)")
  case None
  with assms(1) show ?thesis by (auto simp: find_None_iff)
next
  case (Some z)
  then have "z \<in> set (pvs_operations s)" "oq_id z = oq_id x" by (auto simp: find_Some_iff)
  with assms have "z = x" by (metis distinct_map inj_onD)
  with Some show ?thesis by simp
qed

lemma complete_operation_governed:
  assumes "complete_operation i attempt oc s = Inr (st, s')" and "distinct (map oq_id (pvs_operations s))"
  shows "same_governed s s'"
proof -
  from assms(1) obtain x where x: "x \<in> set (pvs_operations s)" "oq_id x = i" and s': "s' = write_operation i (completed_row oc x) s"
    unfolding complete_operation_def by (auto split: option.splits dest: find_SomeD)
  have core: "operation_core (completed_row oc x) = operation_core x" by (simp add: completed_row_def Let_def)
  from write_operation_governed [OF distinct_find_id [OF x(1) assms(2)] core assms(2)] show ?thesis
    unfolding s' x(2) .
qed

lemma mark_blocked_governed: "same_governed s (mark_blocked i reason s)"
  unfolding mark_blocked_def by (rule write_rows_governed) simp

lemma mark_execution_failed_governed: "same_governed s (mark_execution_failed i code retryable s)"
  unfolding mark_execution_failed_def by (rule write_rows_governed) simp

lemma complete_execution_governed:
  assumes "complete_execution x oc s = Inr s'" and "distinct (map oq_id (pvs_operations s))"
  shows "same_governed s s'"
proof -
  from assms(1) obtain st s1 where c: "complete_operation (oq_id x) (oq_attempt x) oc s = Inr (st, s1)"
    unfolding complete_execution_def by (auto split: sum.splits)
  have "same_governed s1 s'"
    using assms(1) unfolding complete_execution_def c
    by (auto simp: mark_blocked_governed mark_execution_failed_governed split: option.splits if_splits)
  with complete_operation_governed [OF c assms(2)] show ?thesis by (rule same_governed_trans)
qed

lemma written_columns_identity [simp]: "pr_created_by (written_columns q r) = pr_created_by r"
  by (simp add: written_columns_def)

lemma update_identities: "update_provisioning q v t = Inr t' \<Longrightarrow> identities t' = identities t"
  unfolding update_provisioning_def identities_def by (auto split: option.splits if_splits)

lemma advance_identities: "orchestrator_advance now p to reason t = Inr (q, t') \<Longrightarrow> identities t' = identities t"
  by (auto simp: orchestrator_advance_Inr intro: update_identities)

lemma save_identities: "orchestrator_save p t = (q, Inr t') \<Longrightarrow> identities t' = identities t"
  by (auto simp: orchestrator_save_def Let_def intro: update_identities)

lemma fail_identities: "orchestrator_fail now p phase cause t = (q, e, t') \<Longrightarrow> identities t' = identities t"
  unfolding orchestrator_fail_def by (auto split: sum.splits prod.splits dest: advance_identities)

lemma again_identities:
  "again p t (orchestrator_advance now q to reason t) = Inl (p', e, t') \<Longrightarrow> identities t' = identities t"
  "again p t (orchestrator_advance now q to reason t) = Inr t' \<Longrightarrow> identities t' = identities t"
  unfolding again_def by (auto split: sum.splits prod.splits dest: advance_identities)

lemma apply_phase_identities:
  "apply_phase now w p t = Inl (q, e, t') \<Longrightarrow> identities t' = identities t"
  "apply_phase now w p t = Inr t' \<Longrightarrow> identities t' = identities t"
  unfolding apply_phase_def
  by (auto split: sum.splits prod.splits dest!: fail_identities save_identities again_identities)

lemma reconcile_phase_identities:
  "reconcile_phase now w p t = Inl (q, e, t') \<Longrightarrow> identities t' = identities t"
  "reconcile_phase now w p t = Inr t' \<Longrightarrow> identities t' = identities t"
  unfolding reconcile_phase_def
  by (auto split: sum.splits prod.splits if_splits dest!: fail_identities save_identities again_identities)

lemma readiness_phase_identities: "readiness_phase now w p t = (q, e, t') \<Longrightarrow> identities t' = identities t"
  unfolding readiness_phase_def
  by (auto split: sum.splits prod.splits if_splits dest: fail_identities save_identities advance_identities)

lemma turn_identities:
  "orchestrator_turn now w i t = Inl (q, e, t') \<Longrightarrow> identities t' = identities t"
  "orchestrator_turn now w i t = Inr t' \<Longrightarrow> identities t' = identities t"
  unfolding orchestrator_turn_def
  by (auto split: option.splits prov_status.splits
      dest: again_identities apply_phase_identities reconcile_phase_identities readiness_phase_identities)

lemma run_identities: "orchestrator_run now w i t = (q, e, t') \<Longrightarrow> identities t' = identities t"
proof (induction now w i t rule: orchestrator_run.induct)
  case (1 now w i t)
  show ?case
  proof (cases "orchestrator_turn now w i t")
    case (Inl result)
    with 1(2) have "orchestrator_turn now w i t = Inl (q, e, t')" by (subst (asm) orchestrator_run.simps) simp
    then show ?thesis by (rule turn_identities)
  next
    case (Inr t1)
    with 1(2) have "orchestrator_run now w i t1 = (q, e, t')" by (subst (asm) orchestrator_run.simps) simp
    with 1(1) [OF Inr] turn_identities(2) [OF Inr] show ?thesis by simp
  qed
qed

lemma retry_identities: "orchestrator_retry now w i t = (q, e, t') \<Longrightarrow> identities t' = identities t"
  unfolding orchestrator_retry_def
  by (auto split: option.splits if_splits sum.splits prod.splits dest!: run_identities advance_identities)

lemma execution_result_governed:
  assumes "identities (snd (snd r)) = identities (pvs_tables s)"
  shows "same_governed s (snd (execution_result i r s))"
proof -
  obtain final e t where r: "r = (final, e, t)" by (cases r)
  have base: "same_governed s (s\<lparr>pvs_tables := t\<rparr>)"
    using assms by (simp add: r same_governed_def plans_core_def operations_core_def)
  show ?thesis
    unfolding execution_result_def r using base same_governed_trans [OF base mark_blocked_governed] by (auto simp: Let_def)
qed

lemma save_manifest_fields [simp]:
  "pvs_tables (save_execution_manifest i src m s) = pvs_tables s" "pvs_plans (save_execution_manifest i src m s) = pvs_plans s"
  "pvs_decisions (save_execution_manifest i src m s) = pvs_decisions s" "pvs_operations (save_execution_manifest i src m s) = pvs_operations s"
  by (simp_all add: save_execution_manifest_def)

lemma save_manifest_governed: "same_governed s (save_execution_manifest i src m s)"
  by (simp add: same_governed_def plans_core_def operations_core_def)

text \<open>What an execution that changed the store, or did not fail, rests on.\<close>

lemma execute_runs:
  assumes "execute xv x s = (oc, s')" and "s' \<noteq> s \<or> oc_status oc \<noteq> OpFailed"
  shows "\<exists>i c p d p'. parse_resource_id ''tp'' (oq_subject x) = Some i \<and> get_converged s i = Some c \<and> cvg_plan c = Some p \<and> cvg_decision c = Some d \<and>
    pdc_decision d = ''APPROVED'' \<and> pvp_plan_digest p = oq_plan_digest x \<and> pdc_plan_digest d = oq_plan_digest x \<and>
    pdc_approval_id d = oq_approval_id x \<and> \<not> (oq_attempt x = 1 \<and> plan_expired p (vv_clock (xv_env xv))) \<and>
    replanned (xv_env xv) (row_key (cvg_row c)) (cvg_desired c) p = Inr p' \<and>
    plan_material_digest (vv_hashing (xv_env xv)) p' = plan_material_digest (vv_hashing (xv_env xv)) p"
proof -
  have "\<not> 5 < oq_attempt x" using assms by (auto simp: execute_def failure_def)
  moreover obtain i c where i: "parse_resource_id ''tp'' (oq_subject x) = Some i" "get_converged s i = Some c"
    using assms by (auto simp: execute_def failure_def split: option.splits if_splits Option.bind_splits)
  ultimately have step: "execute xv x s = (if \<not> plan_bound x c then (failure ''PLAN_DIGEST_MISMATCH'' False, s)
         else
           let env = xv_env xv; p = the (cvg_plan c); i = row_id (cvg_row c)
           in if oq_attempt x = 1 \<and> plan_expired p (vv_clock env) then (failure ''PLAN_STALE'' False, s)
              else (case replanned env (row_key (cvg_row c)) (cvg_desired c) p of
                  Inl e \<Rightarrow> (failure ''PROVISIONING_UNAVAILABLE'' True, s)
                | Inr p' \<Rightarrow>
                    if plan_material_digest (vv_hashing env) p' \<noteq> plan_material_digest (vv_hashing env) p then (failure ''PLAN_STALE'' False, s)
                    else (case xv_legal_entity xv (tp_tenant_id (pr_core (cvg_row c))) of
                        None \<Rightarrow> (failure ''TENANT_UNAVAILABLE'' True, s)
                      | Some legal_entity \<Rightarrow>
                          (case execution_manifest (xv_registry xv) p (cvg_desired c) legal_entity (oq_approval_id x) of
                             Inl e \<Rightarrow> (failure ''PLAN_NOT_EXECUTABLE'' False, s)
                           | Inr m \<Rightarrow>
                               let s1 = save_execution_manifest i (''plan:'' @ pvp_plan_id p) m s
                               in (case xv_pipeline xv (tp_tenant_id (pr_core (cvg_row c))) m of
                                     None \<Rightarrow> (failure ''PROVISIONING_UNAVAILABLE'' True, s1)
                                   | Some w \<Rightarrow>
                                       execution_result i
                                         (if tp_status (pr_core (cvg_row c)) = ProvFailed then orchestrator_retry (vv_clock env) w i (pvs_tables s1)
                                          else orchestrator_run (vv_clock env) w i (pvs_tables s1)) s1)))))"
    by (simp add: execute_def)
  have bound: "plan_bound x c" using assms unfolding step by (auto simp: failure_def split: if_splits)
  then obtain p d where pd: "cvg_plan c = Some p" "cvg_decision c = Some d" "pdc_decision d = ''APPROVED''"
    "pvp_plan_digest p = oq_plan_digest x" "pdc_plan_digest d = oq_plan_digest x" "pdc_approval_id d = oq_approval_id x"
    unfolding plan_bound_def by (auto split: option.splits)
  have fresh: "\<not> (oq_attempt x = 1 \<and> plan_expired p (vv_clock (xv_env xv)))"
    using assms unfolding step by (auto simp: bound pd(1) failure_def Let_def)
  obtain p' where "replanned (xv_env xv) (row_key (cvg_row c)) (cvg_desired c) p = Inr p'"
    "plan_material_digest (vv_hashing (xv_env xv)) p' = plan_material_digest (vv_hashing (xv_env xv)) p"
    using assms fresh unfolding step by (cases "replanned (xv_env xv) (row_key (cvg_row c)) (cvg_desired c) p")
      (auto simp: bound pd(1) failure_def Let_def split: if_splits)
  with i pd fresh show ?thesis by blast
qed

lemma saved_run_governed:
  "same_governed s (snd (execution_result i (orchestrator_run now w i (pvs_tables (save_execution_manifest i src m s))) (save_execution_manifest i src m s)))"
  "same_governed s (snd (execution_result i (orchestrator_retry now w i (pvs_tables (save_execution_manifest i src m s))) (save_execution_manifest i src m s)))"
proof -
  let ?s = "save_execution_manifest i src m s"
  have "identities (snd (snd (orchestrator_run now w i (pvs_tables ?s)))) = identities (pvs_tables ?s)"
    by (cases "orchestrator_run now w i (pvs_tables ?s)") (auto dest: run_identities)
  from same_governed_trans [OF save_manifest_governed execution_result_governed [OF this]]
  show "same_governed s (snd (execution_result i (orchestrator_run now w i (pvs_tables ?s)) ?s))" .
  have "identities (snd (snd (orchestrator_retry now w i (pvs_tables ?s)))) = identities (pvs_tables ?s)"
    by (cases "orchestrator_retry now w i (pvs_tables ?s)") (auto dest: retry_identities)
  from same_governed_trans [OF save_manifest_governed execution_result_governed [OF this]]
  show "same_governed s (snd (execution_result i (orchestrator_retry now w i (pvs_tables ?s)) ?s))" .
qed

lemma execute_governed: "same_governed s (snd (execute xv x s))"
  unfolding execute_def Let_def
  by (simp add: saved_run_governed save_manifest_governed del: save_manifest_fields split: option.split sum.split Option.bind_split)

section \<open>Governance\<close>

definition approval_ok :: "provisioning_store \<Rightarrow> plan_decision \<Rightarrow> bool" where
  "approval_ok s d \<longleftrightarrow>
    (\<exists>p. (pdc_provisioning d, p) \<in> set (plans_core s) \<and> pvp_plan_id p = pdc_plan_id d \<and> pvp_plan_digest p = pdc_plan_digest d \<and> pvp_blockers p = []) \<and>
    (\<exists>who. (pdc_provisioning d, who) \<in> set (identities (pvs_tables s)) \<and> who \<noteq> pdc_decided_by d)"

definition operation_ok :: "provisioning_store \<Rightarrow> string \<times> string \<times> string \<times> string \<times> string \<Rightarrow> bool" where
  "operation_ok s = (\<lambda>(i, subject, plan_id, digest, approval). \<exists>d \<in> set (pvs_decisions s). pdc_decision d = ''APPROVED'' \<and>
     pdc_approval_id d = approval \<and> pdc_plan_id d = plan_id \<and> pdc_plan_digest d = digest \<and> subject = new_opaque_id ''tp_'' (pdc_provisioning d))"

definition governance_ok :: "provisioning_store \<Rightarrow> bool" where
  "governance_ok s \<longleftrightarrow> distinct (map fst (identities (pvs_tables s))) \<and> distinct (map (\<lambda>x. pvp_plan_id (snd x)) (plans_core s)) \<and>
    distinct (map fst (operations_core s)) \<and>
    (\<forall>d \<in> set (pvs_decisions s). pdc_decision d = ''APPROVED'' \<longrightarrow> approval_ok s d) \<and>
    (\<forall>x \<in> set (operations_core s). operation_ok s x)"

lemma operation_ids: "map fst (operations_core s) = map oq_id (pvs_operations s)"
  by (simp add: operations_core_def operation_core_def)

lemma governance_operation_ids: "governance_ok s \<Longrightarrow> distinct (map oq_id (pvs_operations s))"
  unfolding governance_ok_def operation_ids by blast

lemma same_governed_ok: "same_governed s s' \<Longrightarrow> governance_ok s \<Longrightarrow> governance_ok s'"
  unfolding same_governed_def governance_ok_def approval_ok_def operation_ok_def by auto

lemma insert_prov_plan_Inr:
  assumes "insert_prov_plan i p key hash s = Inr s'"
  shows "plans_core s' = plans_core s @ [(i, p)] \<and> pvp_plan_id p \<notin> set (map (\<lambda>x. pvp_plan_id (snd x)) (plans_core s)) \<and>
    pvs_tables s' = pvs_tables s \<and> pvs_decisions s' = pvs_decisions s \<and> pvs_operations s' = pvs_operations s"
  using assms unfolding insert_prov_plan_def plans_core_def by (auto simp: list_ex_iff split: if_splits)

lemma insert_provisioning_Inr:
  assumes "insert_provisioning p t = Inr t'"
  shows "\<exists>r. pt_rows t' = pt_rows t @ [r] \<and> row_id r = tp_id p \<and> tp_id p \<notin> row_id ` set (pt_rows t)"
  using assms unfolding insert_provisioning_def by (auto simp: list_ex_iff split: option.splits if_splits) blast

lemma create_converged_Inr:
  assumes "create_converged_provisioning i tenant key hash created_by d p started s = Inr s'"
  shows "identities (pvs_tables s') = identities (pvs_tables s) @ [(i, created_by)] \<and> i \<notin> fst ` set (identities (pvs_tables s)) \<and>
    plans_core s' = plans_core s @ [(i, p)] \<and> pvp_plan_id p \<notin> set (map (\<lambda>x. pvp_plan_id (snd x)) (plans_core s)) \<and>
    pvs_decisions s' = pvs_decisions s \<and> pvs_operations s' = pvs_operations s"
proof -
  let ?core = "\<lparr>tp_id = i, tp_tenant_id = tenant, tp_idempotency_key = key, tp_request_hash = hash, tp_status = ProvPlan,
         tp_desired_version = de_version d, tp_observed_version = 0, tp_product_requests = [], tp_market_requests = [],
         tp_isolation = de_isolation d, tp_residency = de_residency d, tp_blocking_reasons = [], tp_attempt_count = 0, tp_last_error = [],
         tp_started_at = started, tp_completed_at = None, tp_version = 1\<rparr>"
  let ?f = "\<lambda>r. r\<lparr>pr_onboarding_request := de_onboarding_request_id d, pr_admission_decision := de_admission_decision_id d,
      pr_created_by := created_by, pr_state := planned_state p\<rparr>"
  obtain t where t: "insert_provisioning ?core (pvs_tables s) = Inr t"
    using assms unfolding create_converged_provisioning_def by (auto split: sum.splits)
  let ?s1 = "write_rows (\<lambda>r. row_id r = i) ?f (s\<lparr>pvs_tables := t\<rparr>)"
  from assms have ins: "insert_prov_plan i p [] [] (?s1\<lparr>pvs_desired := pvs_desired ?s1 @ [(i, de_version d, d)]\<rparr>) = Inr s'"
    unfolding create_converged_provisioning_def t by (simp add: Let_def split: if_splits)
  from insert_provisioning_Inr [OF t] obtain r where r: "pt_rows t = pt_rows (pvs_tables s) @ [r]" "row_id r = i"
    and fresh: "i \<notin> row_id ` set (pt_rows (pvs_tables s))" by auto
  have "map (\<lambda>x. (row_id x, pr_created_by x)) (map (\<lambda>x. if row_id x = i then state_sync x (?f x) else x) (pt_rows (pvs_tables s))) =
      identities (pvs_tables s)"
    using fresh unfolding identities_def by (auto simp: image_iff)
  then have ids: "identities (pvs_tables ?s1) = identities (pvs_tables s) @ [(i, created_by)]"
    using r by (simp add: identities_def write_rows_def)
  have core: "plans_core (?s1\<lparr>pvs_desired := pvs_desired ?s1 @ [(i, de_version d, d)]\<rparr>) = plans_core s" by (simp add: plans_core_def write_rows_def)
  have "fst ` set (identities (pvs_tables s)) = row_id ` set (pt_rows (pvs_tables s))"
    by (auto simp: identities_def image_image)
  with insert_prov_plan_Inr [OF ins] ids fresh core show ?thesis by simp
qed

lemma handle_create_cases:
  assumes "handle_create env uuid plan_id tenant key hash actor_id version request s = Inr s'"
  shows "s' = s \<or> (\<exists>d p. create_converged_provisioning uuid tenant key hash actor_id d p (vv_clock env) s = Inr s')"
proof -
  have replay: "handle_replay c hash s = Inr s' \<Longrightarrow> s' = s" for c
    unfolding handle_replay_def by (auto split: if_splits)
  show ?thesis
  proof (cases "get_converged_by_key s tenant key")
    case (Some c)
    with assms replay show ?thesis unfolding handle_create_def by simp
  next
    case None
    with assms obtain d p where "(case create_converged_provisioning uuid tenant key hash actor_id d p (vv_clock env) s of
        Inl (PvInsert ProvAlreadyExists) \<Rightarrow> (case get_converged_by_key s tenant key of None \<Rightarrow> Inl PvKeyReused | Some c \<Rightarrow> handle_replay c hash s)
      | r \<Rightarrow> r) = Inr s'"
      unfolding handle_create_def by (auto split: option.splits if_splits sum.splits)
    with None show ?thesis
      by (auto split: sum.splits command_error.splits prov_error.splits)
  qed
qed

lemma create_ok:
  assumes "create_converged_provisioning i tenant key hash created_by d p started s = Inr s'" and "governance_ok s"
  shows "governance_ok s'"
proof -
  note c = create_converged_Inr [OF assms(1)]
  have "operations_core s' = operations_core s" using c by (simp add: operations_core_def)
  with c assms(2) show ?thesis
    unfolding governance_ok_def approval_ok_def operation_ok_def by auto
qed

lemma replan_ok:
  assumes "replan_provisioning i expected p key hash s = Inr s'" and "governance_ok s"
  shows "governance_ok s'"
proof -
  let ?s0 = "s\<lparr>pvs_plans := map (\<lambda>x. if pq_provisioning x = i \<and> \<not> pq_superseded x then x\<lparr>pq_superseded := True\<rparr> else x) (pvs_plans s)\<rparr>"
  let ?f = "\<lambda>r. bump_version (r\<lparr>pr_state := planned_state p, pr_blocked_reason := []\<rparr>)"
  from assms(1) obtain s1 where ins: "insert_prov_plan i p key hash ?s0 = Inr s1"
    and s': "s' = write_rows (\<lambda>r. row_id r = i) ?f s1"
    unfolding replan_provisioning_def by (auto split: sum.splits if_splits)
  have core: "plans_core ?s0 = plans_core s" by (auto simp: plans_core_def)
  note p = insert_prov_plan_Inr [OF ins]
  have "governance_ok s1"
    using p assms(2) core unfolding governance_ok_def approval_ok_def operation_ok_def by (auto simp: operations_core_def)
  then show ?thesis
    unfolding s' by (rule same_governed_ok [rotated]) (rule write_rows_governed, simp)
qed

lemma current_plan_core: "current_plan s i = Some p \<Longrightarrow> (i, p) \<in> set (plans_core s)"
  unfolding current_plan_def plans_core_def by (auto dest!: find_SomeD)

lemma decision_on_in: "decision_on s plan_id = Some d \<Longrightarrow> d \<in> set (pvs_decisions s) \<and> pdc_plan_id d = plan_id"
  unfolding decision_on_def by (auto dest: find_SomeD)

lemma scan_converged_parts:
  assumes "scan_converged s r = Some c"
  shows "cvg_row c = r \<and> cvg_plan c = current_plan s (row_id r) \<and>
    (\<forall>p d. cvg_plan c = Some p \<longrightarrow> cvg_decision c = Some d \<longrightarrow> decision_on s (pvp_plan_id p) = Some d)"
  using assms unfolding scan_converged_def by (auto simp: Let_def split: option.splits)

lemma get_converged_parts:
  assumes "get_converged s i = Some c"
  shows "cvg_row c \<in> set (pt_rows (pvs_tables s)) \<and> row_id (cvg_row c) = i \<and> cvg_plan c = current_plan s i \<and>
    (\<forall>p d. cvg_plan c = Some p \<longrightarrow> cvg_decision c = Some d \<longrightarrow> decision_on s (pvp_plan_id p) = Some d)"
proof -
  from assms obtain r where r: "find_row s i = Some r" "scan_converged s r = Some c"
    unfolding get_converged_def by (auto split: option.splits)
  from r(1) have "r \<in> set (pt_rows (pvs_tables s))" "row_id r = i"
    unfolding find_row_def by (auto dest: find_SomeD)
  with scan_converged_parts [OF r(2)] show ?thesis by simp
qed

lemma load_converged_get: "load_converged tenant key s = Some c \<Longrightarrow> \<exists>i. get_converged s i = Some c"
  unfolding load_converged_def by (auto split: option.splits if_splits)

lemma identity_in: "r \<in> set (pt_rows t) \<Longrightarrow> (row_id r, pr_created_by r) \<in> set (identities t)"
  unfolding identities_def by auto

lemma decided_ok:
  assumes "governance_ok s" and "pdc_decision d = ''APPROVED'' \<longrightarrow> approval_ok s d"
  shows "governance_ok (s\<lparr>pvs_decisions := pvs_decisions s @ [d]\<rparr>)"
proof -
  let ?s = "s\<lparr>pvs_decisions := pvs_decisions s @ [d]\<rparr>"
  have frame: "plans_core ?s = plans_core s" "operations_core ?s = operations_core s" "approval_ok ?s d' = approval_ok s d'" for d'
    by (simp_all add: plans_core_def operations_core_def approval_ok_def)
  have "operation_ok ?s x" if "operation_ok s x" for x
    using that by (auto simp: operation_ok_def)
  with assms frame show ?thesis
    unfolding governance_ok_def by auto
qed

lemma accepted_ok:
  assumes "governance_ok s" and "oq_id y \<notin> oq_id ` set (pvs_operations s)" and "operation_ok s (operation_core y)"
  shows "governance_ok (s\<lparr>pvs_operations := pvs_operations s @ [y]\<rparr>)"
proof -
  let ?s = "s\<lparr>pvs_operations := pvs_operations s @ [y]\<rparr>"
  have frame: "plans_core ?s = plans_core s" "operations_core ?s = operations_core s @ [operation_core y]" "approval_ok ?s d' = approval_ok s d'"
    "operation_ok ?s x = operation_ok s x" for d' x
    by (simp_all add: plans_core_def operations_core_def approval_ok_def operation_ok_def)
  have "fst (operation_core y) \<notin> set (map fst (operations_core s))"
    using assms(2) by (simp add: operation_ids operation_core_def)
  with assms frame show ?thesis
    unfolding governance_ok_def by auto
qed

lemma handle_approve_ok:
  assumes "handle_approve env approval_id tenant key revision actor_id b s = Inr s'" and "governance_ok s"
  shows "governance_ok s'"
proof -
  obtain c where c: "load_converged tenant key s = Some c"
    using assms(1) unfolding handle_approve_def by (auto split: option.splits)
  obtain p where p: "cvg_plan c = Some p" and other: "actor_id \<noteq> pr_created_by (cvg_row c)"
    and clean: "db_decision b = ''APPROVED'' \<longrightarrow> pvp_blockers p = []"
    using assms(1) c unfolding handle_approve_def by (auto split: option.splits if_splits)
  let ?d = "\<lparr>pdc_approval_id = approval_id, pdc_provisioning = row_id (cvg_row c), pdc_plan_id = pvp_plan_id p,
                      pdc_plan_version = pvp_plan_version p, pdc_plan_digest = pvp_plan_digest p, pdc_decision = db_decision b,
                      pdc_reason = trim_space (db_reason b), pdc_decided_by = actor_id\<rparr>"
  have rec: "record_plan_decision (row_id (cvg_row c)) revision ?d s = Inr s'"
    using assms(1) c p unfolding handle_approve_def by (auto split: if_splits sum.splits bool.splits)
  let ?s1 = "s\<lparr>pvs_decisions := pvs_decisions s @ [?d]\<rparr>"
  from rec have s': "s' = write_rows (\<lambda>r. row_id r = row_id (cvg_row c)) bump_version ?s1"
    unfolding record_plan_decision_def by (auto split: sum.splits if_splits)
  from load_converged_get [OF c] obtain i where "get_converged s i = Some c" by blast
  note g = get_converged_parts [OF this]
  have "(row_id (cvg_row c), p) \<in> set (plans_core s)"
    using g p current_plan_core by auto
  moreover have "(row_id (cvg_row c), pr_created_by (cvg_row c)) \<in> set (identities (pvs_tables s))"
    using g identity_in by blast
  ultimately have "pdc_decision ?d = ''APPROVED'' \<longrightarrow> approval_ok s ?d"
    using clean other unfolding approval_ok_def by auto
  with assms(2) have "governance_ok ?s1" by (rule decided_ok)
  then show ?thesis
    unfolding s' by (rule same_governed_ok [rotated]) (rule write_rows_governed, simp)
qed

lemma accept_operation_ok:
  assumes "accept_operation i expected x state s = Inr (y, created, s')" and "governance_ok s" and "operation_ok s (operation_core x)"
  shows "governance_ok s'"
proof (cases "replay_operation s (oq_requested_by x) (oq_type x) (oq_key x)")
  case (Some z)
  with assms(1,2) show ?thesis unfolding accept_operation_def by (auto split: if_splits)
next
  case None
  let ?y = "x\<lparr>oq_status := OpQueued, oq_attempt := 1, oq_retryable := False, oq_problem := [], oq_completed := False,
                       oq_lease := None, oq_retry_key := [], oq_revision := 1\<rparr>"
  from None assms(1) have fresh: "oq_id ?y \<notin> oq_id ` set (pvs_operations s)"
    and s': "s' = write_rows (\<lambda>r. row_id r = i)
      (\<lambda>r. bump_version (r\<lparr>pr_blocked_reason := [], pr_state := (if state = [] then pr_state r else state)\<rparr>))
      (s\<lparr>pvs_operations := pvs_operations s @ [?y]\<rparr>)"
    unfolding accept_operation_def by (auto simp: Let_def list_ex_iff split: sum.splits if_splits)
  have "operation_ok s (operation_core ?y)" using assms(3) by simp
  from accepted_ok [OF assms(2) fresh this] show ?thesis
    unfolding s' by (rule same_governed_ok [rotated]) (rule write_rows_governed, simp)
qed

text \<open>An operation built for a plan with a matching approval is governed.\<close>

lemma new_operation_ok:
  assumes "governance_ok s" and "get_converged s i = Some c" and "cvg_plan c = Some p" and "cvg_decision c = Some d"
    and "pdc_decision d = ''APPROVED''" and "pdc_plan_digest d = pvp_plan_digest p"
  shows "operation_ok s (operation_core (new_operation new_id op_type c actor_id phase key hash))"
proof -
  note g = get_converged_parts [OF assms(2)]
  have d: "d \<in> set (pvs_decisions s)" "pdc_plan_id d = pvp_plan_id p"
    using g assms(3,4) decision_on_in by blast+
  have p: "(i, p) \<in> set (plans_core s)" using g assms(3) current_plan_core by auto
  from assms(1,5) d(1) obtain p' where p': "(pdc_provisioning d, p') \<in> set (plans_core s)" "pvp_plan_id p' = pdc_plan_id d"
    unfolding governance_ok_def approval_ok_def by blast
  have "distinct (map (\<lambda>x. pvp_plan_id (snd x)) (plans_core s))" using assms(1) unfolding governance_ok_def by blast
  then have "inj_on (\<lambda>x. pvp_plan_id (snd x)) (set (plans_core s))" by (simp add: distinct_map)
  from inj_onD [OF this _ p'(1) p] p'(2) d(2) have "pdc_provisioning d = i" by simp
  moreover have "row_id (cvg_row c) = i" using g by blast
  ultimately show ?thesis
    using d assms(3-6) by (auto simp: operation_ok_def operation_core_def new_operation_def row_key_def intro!: bexI [of _ d])
qed

lemma handle_accepted_Inr: "handle_accepted y hash subject s = Inr s' \<Longrightarrow> s' = s"
  unfolding handle_accepted_def by (auto split: if_splits)

lemma handle_apply_ok:
  assumes "handle_apply env new_id tenant key revision idempotency actor_id s = Inr s'" and "governance_ok s"
  shows "governance_ok s'"
proof -
  obtain c where c: "load_converged tenant key s = Some c"
    using assms(1) unfolding handle_apply_def by (auto split: option.splits)
  let ?hash = "vv_request_hash env (row_key (cvg_row c) @ ''|'' @ plan_digest_text c)"
  let ?x = "new_operation new_id ''TENANT_PROVISIONING_APPLY'' c actor_id (pr_state (cvg_row c)) idempotency ?hash"
  show ?thesis
  proof (cases "replay_operation s actor_id (oq_type ?x) idempotency")
    case (Some y)
    with assms c show ?thesis unfolding handle_apply_def by (auto simp: Let_def dest: handle_accepted_Inr)
  next
    case None
    with assms(1) c obtain y created where a: "approved c" "decision_matches c"
      and acc: "accept_operation (row_id (cvg_row c)) revision ?x [] s = Inr (y, created, s')"
      unfolding handle_apply_def
      by (auto simp: Let_def split: if_splits sum.splits bool.splits prod.splits dest!: handle_accepted_Inr)
    from a obtain p d where pd: "cvg_plan c = Some p" "cvg_decision c = Some d" "pdc_decision d = ''APPROVED''" "pdc_plan_digest d = pvp_plan_digest p"
      unfolding approved_def decision_matches_def by (auto split: option.splits)
    from load_converged_get [OF c] obtain i where i: "get_converged s i = Some c" by blast
    show ?thesis
      by (rule accept_operation_ok [OF acc assms(2) new_operation_ok [OF assms(2) i pd]])
  qed
qed

lemma handle_remediate_ok:
  assumes "handle_remediate env new_id tenant key revision idempotency actor_id reason s = Inr s'" and "governance_ok s"
  shows "governance_ok s'"
proof -
  obtain c where c: "load_converged tenant key s = Some c"
    using assms(1) unfolding handle_remediate_def by (auto split: option.splits)
  let ?hash = "vv_request_hash env (row_key (cvg_row c) @ ''|'' @ plan_digest_text c @ ''|'' @ reason)"
  let ?x = "new_operation new_id ''TENANT_PROVISIONING_REMEDIATE'' c actor_id ''REMEDIATING'' idempotency ?hash"
  show ?thesis
  proof (cases "replay_operation s actor_id (oq_type ?x) idempotency")
    case (Some y)
    with assms c show ?thesis unfolding handle_remediate_def by (auto simp: Let_def dest: handle_accepted_Inr)
  next
    case None
    with assms(1) c obtain y created where a: "approved c"
        "\<not> (case (cvg_plan c, cvg_decision c) of (Some p, Some d) \<Rightarrow> pdc_plan_digest d \<noteq> pvp_plan_digest p | _ \<Rightarrow> True)"
      and acc: "accept_operation (row_id (cvg_row c)) revision ?x ''REMEDIATING'' s = Inr (y, created, s')"
      unfolding handle_remediate_def
      by (simp add: Let_def split: if_splits sum.splits bool.splits prod.splits) (metis handle_accepted_Inr)
    from a obtain p d where pd: "cvg_plan c = Some p" "cvg_decision c = Some d" "pdc_decision d = ''APPROVED''" "pdc_plan_digest d = pvp_plan_digest p"
      unfolding approved_def by (auto split: option.splits)
    from load_converged_get [OF c] obtain i where i: "get_converged s i = Some c" by blast
    show ?thesis
      by (rule accept_operation_ok [OF acc assms(2) new_operation_ok [OF assms(2) i pd]])
  qed
qed

lemma handle_replan_ok:
  assumes "handle_replan env plan_id tenant key revision idempotency reason version s = Inr s'" and "governance_ok s"
  shows "governance_ok s'"
proof -
  obtain c where c: "load_converged tenant key s = Some c"
    using assms(1) unfolding handle_replan_def by (auto split: option.splits)
  have replayed: "replan_replayed c k h s = Some r \<Longrightarrow> r = Inr s' \<Longrightarrow> s' = s" for k h r
    unfolding replan_replayed_def by (auto split: option.splits if_splits)
  from assms(1) c have "s' = s \<or> (\<exists>p h. replan_provisioning (row_id (cvg_row c)) revision p idempotency h s = Inr s')"
    unfolding handle_replan_def by (auto simp: Let_def split: option.splits if_splits sum.splits dest: replayed)
  with assms(2) replan_ok show ?thesis by blast
qed

lemma handle_withdraw_governed:
  assumes "handle_withdraw tenant key revision s = Inr s'"
  shows "same_governed s s'"
proof -
  from assms obtain i where "withdraw_provisioning i revision s = Inr s'"
    unfolding handle_withdraw_def by (auto split: option.splits if_splits)
  then have "s' = write_rows (\<lambda>r. row_id r = i) (\<lambda>r. bump_version (r\<lparr>pr_core := (pr_core r)\<lparr>tp_status := ProvCancelled\<rparr>,
             pr_state := ''CANCELLED'', pr_blocked_reason := []\<rparr>)) s"
    unfolding withdraw_provisioning_def by (auto split: sum.splits if_splits)
  then show ?thesis by (auto intro!: write_rows_governed)
qed

lemma handle_retry_cases:
  "handle_retry env i key s = Inr s' \<Longrightarrow> \<exists>y. retry_operation i key s = Inr (y, s')"
  unfolding handle_retry_def by (auto simp: Let_def split: option.splits if_splits sum.splits prod.splits)

lemma handle_cancel_cases: "handle_cancel i s = Inr s' \<Longrightarrow> \<exists>y. cancel_operation i s = Inr (y, s')"
  unfolding handle_cancel_def by (auto split: option.splits sum.splits prod.splits)

section \<open>Interleaved commands and executors\<close>

text \<open>
  A world is a store and the executions in flight: operations an executor claimed and has not executed yet, and executed ones
  whose outcome is not recorded yet. The registry, the clock and the pipeline may differ from step to step.
\<close>

record prov_world =
  wd_store :: provisioning_store
  wd_claims :: "operation_row list"
  wd_outcomes :: "(operation_row \<times> execution_outcome) list"

definition empty_world :: prov_world where
  "empty_world = \<lparr>wd_store = \<lparr>pvs_tables = \<lparr>pt_rows = [], pt_outbox = []\<rparr>, pvs_desired = [], pvs_plans = [], pvs_decisions = [],
     pvs_operations = [], pvs_manifests = []\<rparr>, wd_claims = [], wd_outcomes = []\<rparr>"

inductive prov_move :: "prov_world \<Rightarrow> prov_world \<Rightarrow> bool" where
  creating: "handle_create env uuid plan_id tenant key hash actor_id version request (wd_store w) = Inr s' \<Longrightarrow> prov_move w (w\<lparr>wd_store := s'\<rparr>)"
| approving: "handle_approve env approval_id tenant key revision actor_id b (wd_store w) = Inr s' \<Longrightarrow> prov_move w (w\<lparr>wd_store := s'\<rparr>)"
| applying: "handle_apply env new_id tenant key revision idempotency actor_id (wd_store w) = Inr s' \<Longrightarrow> prov_move w (w\<lparr>wd_store := s'\<rparr>)"
| remediating: "handle_remediate env new_id tenant key revision idempotency actor_id reason (wd_store w) = Inr s' \<Longrightarrow>
    prov_move w (w\<lparr>wd_store := s'\<rparr>)"
| replanning: "handle_replan env plan_id tenant key revision idempotency reason version (wd_store w) = Inr s' \<Longrightarrow> prov_move w (w\<lparr>wd_store := s'\<rparr>)"
| withdrawing: "handle_withdraw tenant key revision (wd_store w) = Inr s' \<Longrightarrow> prov_move w (w\<lparr>wd_store := s'\<rparr>)"
| retrying: "handle_retry env i key (wd_store w) = Inr s' \<Longrightarrow> prov_move w (w\<lparr>wd_store := s'\<rparr>)"
| cancelling: "handle_cancel i (wd_store w) = Inr s' \<Longrightarrow> prov_move w (w\<lparr>wd_store := s'\<rparr>)"
| sweeping: "prov_move w (w\<lparr>wd_store := finish_abandoned_cancellations now (wd_store w)\<rparr>)"
| claiming: "claim_operation now lease (wd_store w) = Some (x, s') \<Longrightarrow> prov_move w (w\<lparr>wd_store := s', wd_claims := x # wd_claims w\<rparr>)"
| executing: "x \<in> set (wd_claims w) \<Longrightarrow> execute xv x (wd_store w) = (oc, s') \<Longrightarrow>
    prov_move w (w\<lparr>wd_store := s', wd_claims := remove1 x (wd_claims w), wd_outcomes := (x, oc) # wd_outcomes w\<rparr>)"
| completing: "(x, oc) \<in> set (wd_outcomes w) \<Longrightarrow> complete_execution x oc (wd_store w) = Inr s' \<Longrightarrow>
    prov_move w (w\<lparr>wd_store := s', wd_outcomes := remove1 (x, oc) (wd_outcomes w)\<rparr>)"
| dying: "x \<in> set (wd_claims w) \<Longrightarrow> prov_move w (w\<lparr>wd_claims := remove1 x (wd_claims w)\<rparr>)"
| losing: "(x, oc) \<in> set (wd_outcomes w) \<Longrightarrow> prov_move w (w\<lparr>wd_outcomes := remove1 (x, oc) (wd_outcomes w)\<rparr>)"

inductive prov_reachable :: "prov_world \<Rightarrow> bool" where
  start: "prov_reachable empty_world"
| move: "prov_reachable w \<Longrightarrow> prov_move w w' \<Longrightarrow> prov_reachable w'"

lemma move_governance:
  assumes "prov_move w w'" and "governance_ok (wd_store w)"
  shows "governance_ok (wd_store w')"
  using assms
proof (cases rule: prov_move.cases)
  case (creating env uuid plan_id tenant key hash actor_id version request s')
  with handle_create_cases [OF creating(2)] create_ok assms(2) show ?thesis by auto
next
  case (retrying env i key s')
  from handle_retry_cases [OF retrying(2)] obtain y where y: "retry_operation i key (wd_store w) = Inr (y, s')" by blast
  from same_governed_ok [OF retry_operation_governed [OF y governance_operation_ids [OF assms(2)]] assms(2)] retrying(1) show ?thesis by simp
next
  case (cancelling i s')
  from handle_cancel_cases [OF cancelling(2)] obtain y where y: "cancel_operation i (wd_store w) = Inr (y, s')" by blast
  from same_governed_ok [OF cancel_operation_governed [OF y governance_operation_ids [OF assms(2)]] assms(2)] cancelling(1) show ?thesis by simp
next
  case (claiming now lease x s')
  with claim_operation_governed [OF claiming(2) governance_operation_ids [OF assms(2)]] assms(2) show ?thesis
    by (auto intro: same_governed_ok)
next
  case (executing x xv oc s')
  with execute_governed [of "wd_store w" xv x] assms(2) show ?thesis by (auto intro: same_governed_ok)
next
  case (completing x oc s')
  with complete_execution_governed [OF completing(3) governance_operation_ids [OF assms(2)]] assms(2) show ?thesis
    by (auto intro: same_governed_ok)
qed (auto intro: handle_approve_ok handle_apply_ok handle_remediate_ok handle_replan_ok same_governed_ok handle_withdraw_governed
      finish_abandoned_governed)

lemma reachable_governance: "prov_reachable w \<Longrightarrow> governance_ok (wd_store w)"
proof (induction rule: prov_reachable.induct)
  case start
  show ?case by (simp add: empty_world_def governance_ok_def identities_def plans_core_def operations_core_def)
next
  case (move w w')
  then show ?case using move_governance by blast
qed

text \<open>An approved decision on the current plan of a provisioning: the plan it names, and who decided.\<close>

lemma approved_current:
  assumes ok: "governance_ok s" and get: "get_converged s i = Some c" and plan: "cvg_plan c = Some p" and dec: "cvg_decision c = Some d"
    and app: "pdc_decision d = ''APPROVED''"
  shows "d \<in> set (pvs_decisions s) \<and> pdc_plan_id d = pvp_plan_id p \<and> pdc_plan_digest d = pvp_plan_digest p \<and> pvp_blockers p = [] \<and>
    pdc_decided_by d \<noteq> pr_created_by (cvg_row c)"
proof -
  note g = get_converged_parts [OF get]
  have d: "d \<in> set (pvs_decisions s)" "pdc_plan_id d = pvp_plan_id p"
    using g plan dec decision_on_in by blast+
  have p: "(i, p) \<in> set (plans_core s)" using g plan current_plan_core by auto
  from ok app d(1) obtain p' who where p': "(pdc_provisioning d, p') \<in> set (plans_core s)" "pvp_plan_id p' = pdc_plan_id d"
      "pvp_plan_digest p' = pdc_plan_digest d" "pvp_blockers p' = []"
    and who: "(pdc_provisioning d, who) \<in> set (identities (pvs_tables s))" "who \<noteq> pdc_decided_by d"
    unfolding governance_ok_def approval_ok_def by blast
  have "inj_on (\<lambda>x. pvp_plan_id (snd x)) (set (plans_core s))"
    using ok unfolding governance_ok_def by (simp add: distinct_map)
  from inj_onD [OF this _ p'(1) p] p'(2) d(2) have same: "pdc_provisioning d = i" "p' = p" by simp_all
  have "(i, pr_created_by (cvg_row c)) \<in> set (identities (pvs_tables s))"
    using g identity_in by blast
  moreover have "distinct (map fst (identities (pvs_tables s)))" using ok unfolding governance_ok_def by blast
  ultimately have "who = pr_created_by (cvg_row c)"
    using who(1) same(1) eq_key_imp_eq_value by metis
  with d p' same who(2) show ?thesis by auto
qed

text \<open>
  C15 (safety): only an approved, unchanged plan is executed. In every reachable world, when executing a claimed operation changes
  anything or does not fail, the provisioning's current plan carries the digest the operation was accepted for, an APPROVED
  decision names this plan and digest, the principal who decided is not the one who created the provisioning, the plan has no
  blocker, and planning the frozen desired state again against the registry as it is now succeeds with the same digest of the
  material.
\<close>

theorem executed_plan_approved:
  assumes "prov_reachable w" and "execute xv x (wd_store w) = (oc, s')" and "s' \<noteq> wd_store w \<or> oc_status oc \<noteq> OpFailed"
  shows "\<exists>i c p d p'. parse_resource_id ''tp'' (oq_subject x) = Some i \<and> get_converged (wd_store w) i = Some c \<and> cvg_plan c = Some p \<and>
    d \<in> set (pvs_decisions (wd_store w)) \<and> pdc_decision d = ''APPROVED'' \<and> pdc_plan_id d = pvp_plan_id p \<and>
    pdc_plan_digest d = pvp_plan_digest p \<and> pvp_plan_digest p = oq_plan_digest x \<and> pdc_approval_id d = oq_approval_id x \<and>
    pdc_decided_by d \<noteq> pr_created_by (cvg_row c) \<and> pvp_blockers p = [] \<and>
    replanned (xv_env xv) (row_key (cvg_row c)) (cvg_desired c) p = Inr p' \<and>
    plan_material_digest (vv_hashing (xv_env xv)) p' = plan_material_digest (vv_hashing (xv_env xv)) p"
proof -
  from execute_runs [OF assms(2,3)] obtain i c p d p' where
    i: "parse_resource_id ''tp'' (oq_subject x) = Some i" "get_converged (wd_store w) i = Some c" "cvg_plan c = Some p" "cvg_decision c = Some d"
    and d: "pdc_decision d = ''APPROVED''" "pvp_plan_digest p = oq_plan_digest x" "pdc_approval_id d = oq_approval_id x"
    and p': "replanned (xv_env xv) (row_key (cvg_row c)) (cvg_desired c) p = Inr p'"
      "plan_material_digest (vv_hashing (xv_env xv)) p' = plan_material_digest (vv_hashing (xv_env xv)) p" by blast
  with approved_current [OF reachable_governance [OF assms(1)] i(2-4) d(1)] show ?thesis by blast
qed

section \<open>Fencing of attempts\<close>

definition in_flight :: "prov_world \<Rightarrow> operation_row list" where
  "in_flight w = wd_claims w @ map fst (wd_outcomes w)"

definition attempt_of :: "operation_row \<Rightarrow> string \<times> int" where
  "attempt_of x = (oq_id x, oq_attempt x)"

text \<open>An execution in flight is behind its row: strictly so while the row is queued for a further attempt.\<close>

definition behind :: "operation_row list \<Rightarrow> operation_row \<Rightarrow> bool" where
  "behind ops z \<longleftrightarrow> (\<exists>x \<in> set ops. oq_id x = oq_id z \<and> oq_attempt z \<le> oq_attempt x \<and> (oq_status x = OpQueued \<longrightarrow> oq_attempt z < oq_attempt x))"

definition fenced :: "prov_world \<Rightarrow> bool" where
  "fenced w \<longleftrightarrow> distinct (map attempt_of (in_flight w)) \<and> (\<forall>z \<in> set (in_flight w). behind (pvs_operations (wd_store w)) z) \<and>
    (\<forall>y \<in> set (wd_outcomes w). oc_status (snd y) \<noteq> OpQueued)"

text \<open>Rows keep their identifiers and never lose attempts, and are queued again only with a new attempt.\<close>

definition ops_advance :: "operation_row list \<Rightarrow> operation_row list \<Rightarrow> bool" where
  "ops_advance ops ops' \<longleftrightarrow> (\<forall>x \<in> set ops. \<exists>y \<in> set ops'. oq_id y = oq_id x \<and> oq_attempt x \<le> oq_attempt y \<and>
    (oq_status y = OpQueued \<longrightarrow> oq_status x = OpQueued \<or> oq_attempt x < oq_attempt y))"

lemma ops_advance_refl [simp]: "ops_advance ops ops"
  unfolding ops_advance_def by auto

lemma ops_advance_append: "ops_advance ops (ops @ new)"
  unfolding ops_advance_def by auto

lemma ops_advance_map:
  assumes "\<And>x. x \<in> set ops \<Longrightarrow> oq_id (f x) = oq_id x \<and> oq_attempt x \<le> oq_attempt (f x) \<and>
    (oq_status (f x) = OpQueued \<longrightarrow> oq_status x = OpQueued \<or> oq_attempt x < oq_attempt (f x))"
  shows "ops_advance ops (map f ops)"
  using assms unfolding ops_advance_def by auto

lemma behind_advance: "ops_advance ops ops' \<Longrightarrow> behind ops z \<Longrightarrow> behind ops' z"
proof -
  assume adv: "ops_advance ops ops'" and "behind ops z"
  then obtain x where x: "x \<in> set ops" "oq_id x = oq_id z" "oq_attempt z \<le> oq_attempt x" "oq_status x = OpQueued \<longrightarrow> oq_attempt z < oq_attempt x"
    unfolding behind_def by blast
  from adv x(1) obtain y where "y \<in> set ops'" "oq_id y = oq_id x" "oq_attempt x \<le> oq_attempt y"
    "oq_status y = OpQueued \<longrightarrow> oq_status x = OpQueued \<or> oq_attempt x < oq_attempt y"
    unfolding ops_advance_def by blast
  with x show ?thesis unfolding behind_def by (intro bexI [of _ y]) auto
qed

lemma write_operation_advance:
  assumes "x \<in> set (pvs_operations s)" and "distinct (map oq_id (pvs_operations s))" and "oq_id y = oq_id x" and "oq_attempt x \<le> oq_attempt y"
    and "oq_status y = OpQueued \<longrightarrow> oq_attempt x < oq_attempt y"
  shows "ops_advance (pvs_operations s) (pvs_operations (write_operation (oq_id x) y s))"
proof -
  have same: "z = x" if "z \<in> set (pvs_operations s)" "oq_id z = oq_id x" for z
    using that assms(1,2) by (metis distinct_map inj_onD)
  have "ops_advance (pvs_operations s) (map (\<lambda>z. if oq_id z = oq_id x then y else z) (pvs_operations s))"
  proof (rule ops_advance_map)
    fix z assume "z \<in> set (pvs_operations s)"
    with same assms(3-5) show "oq_id (if oq_id z = oq_id x then y else z) = oq_id z \<and>
        oq_attempt z \<le> oq_attempt (if oq_id z = oq_id x then y else z) \<and>
        (oq_status (if oq_id z = oq_id x then y else z) = OpQueued \<longrightarrow>
          oq_status z = OpQueued \<or> oq_attempt z < oq_attempt (if oq_id z = oq_id x then y else z))"
      by (cases "oq_id z = oq_id x") auto
  qed
  then show ?thesis by (simp add: write_operation_def)
qed

lemma block_cancelled_operations [simp]: "pvs_operations (block_cancelled subject s) = pvs_operations s"
  by (simp add: block_cancelled_def)

lemma retry_advance:
  assumes "retry_operation i key s = Inr (y, s')" and "distinct (map oq_id (pvs_operations s))"
  shows "ops_advance (pvs_operations s) (pvs_operations s')"
proof -
  from assms(1) obtain x where x: "find (\<lambda>x. oq_id x = i) (pvs_operations s) = Some x"
    unfolding retry_operation_def by (auto split: option.splits)
  note mem = find_SomeD [OF x]
  from assms(1) x consider "s' = s" | "pvs_operations s' = pvs_operations (write_operation i y s)" "oq_id y = oq_id x" "oq_attempt y = oq_attempt x + 1"
    unfolding retry_operation_def by (auto simp: Let_def split: if_splits)
  then show ?thesis
    by cases (use write_operation_advance [of x s y] mem assms(2) in auto)
qed

lemma cancel_advance:
  assumes "cancel_operation i s = Inr (y, s')" and "distinct (map oq_id (pvs_operations s))"
  shows "ops_advance (pvs_operations s) (pvs_operations s')"
proof -
  from assms(1) obtain x where x: "find (\<lambda>x. oq_id x = i) (pvs_operations s) = Some x"
    unfolding cancel_operation_def by (auto split: option.splits)
  note mem = find_SomeD [OF x]
  from assms(1) x consider "s' = s"
    | "pvs_operations s' = pvs_operations (write_operation i y s)" "oq_id y = oq_id x" "oq_attempt y = oq_attempt x" "oq_status y \<noteq> OpQueued"
    unfolding cancel_operation_def by (auto simp: Let_def cancelled_row_def split: if_splits)
  then show ?thesis
    by cases (use write_operation_advance [of x s y] mem assms(2) in auto)
qed

lemma finish_operations:
  "pvs_operations (finish_abandoned_cancellations now s) = map (\<lambda>x. if abandoned now x then cancelled_row x else x) (pvs_operations s)"
proof -
  have "pvs_operations (foldl (\<lambda>w x. block_cancelled (oq_subject x) w) w xs) = pvs_operations w" for w and xs :: "operation_row list"
    by (induction xs arbitrary: w) simp_all
  then show ?thesis by (simp add: finish_abandoned_cancellations_def)
qed

lemma finish_advance: "ops_advance (pvs_operations s) (pvs_operations (finish_abandoned_cancellations now s))"
  unfolding finish_operations by (rule ops_advance_map) (simp add: cancelled_row_def)

lemma complete_execution_operations:
  assumes "complete_execution x oc s = Inr s'"
  shows "\<exists>r \<in> set (pvs_operations s). oq_id r = oq_id x \<and> oq_attempt r = oq_attempt x \<and>
    pvs_operations s' = pvs_operations (write_operation (oq_id x) (completed_row oc r) s)"
proof -
  from assms obtain st s1 where c: "complete_operation (oq_id x) (oq_attempt x) oc s = Inr (st, s1)"
    unfolding complete_execution_def by (auto split: sum.splits)
  have "pvs_operations s' = pvs_operations s1"
    using assms unfolding complete_execution_def c by (auto simp: mark_blocked_def mark_execution_failed_def split: option.splits if_splits)
  moreover from c obtain r where "r \<in> set (pvs_operations s)" "oq_id r = oq_id x" "oq_attempt r = oq_attempt x"
    "s1 = write_operation (oq_id x) (completed_row oc r) s"
    unfolding complete_operation_def by (auto split: option.splits dest: find_SomeD)
  ultimately show ?thesis by auto
qed

lemma completed_row_fields [simp]: "oq_id (completed_row oc r) = oq_id r" "oq_attempt (completed_row oc r) = oq_attempt r"
  by (simp_all add: completed_row_def Let_def)

lemma completed_row_status: "oc_status oc \<noteq> OpQueued \<Longrightarrow> oq_status (completed_row oc r) \<noteq> OpQueued"
  by (simp add: completed_row_def Let_def)

lemma execute_operations: "execute xv x s = (oc, s') \<Longrightarrow> pvs_operations s' = pvs_operations s \<and> oc_status oc \<noteq> OpQueued"
  unfolding execute_def execution_result_def failure_def mark_blocked_def Let_def
  by (auto split: if_splits option.splits sum.splits prod.splits Option.bind_splits)

lemma fenced_advance:
  assumes "fenced w" and "ops_advance (pvs_operations (wd_store w)) (pvs_operations s')"
  shows "fenced (w\<lparr>wd_store := s'\<rparr>)"
  using assms behind_advance unfolding fenced_def in_flight_def by auto

lemma claim_fenced:
  assumes "claim_operation now lease (wd_store w) = Some (y, s')" and "fenced w" and "distinct (map oq_id (pvs_operations (wd_store w)))"
  shows "fenced (w\<lparr>wd_store := s', wd_claims := y # wd_claims w\<rparr>)"
proof -
  from assms(1) obtain x where x: "x \<in> set (pvs_operations (wd_store w))" and s': "s' = write_operation (oq_id x) y (wd_store w)"
    and y: "oq_id y = oq_id x" "oq_attempt y = oq_attempt x + (if oq_status x = OpQueued then 0 else 1)" "oq_status y = OpRunning"
    unfolding claim_operation_def by (auto simp: Let_def split: option.splits dest: find_SomeD)
  have adv: "ops_advance (pvs_operations (wd_store w)) (pvs_operations s')"
    unfolding s' by (rule write_operation_advance [OF x assms(3) y(1)]) (simp_all add: y)
  have "attempt_of y \<notin> attempt_of ` set (in_flight w)"
  proof
    assume "attempt_of y \<in> attempt_of ` set (in_flight w)"
    then obtain z where z: "z \<in> set (in_flight w)" "oq_id z = oq_id y" "oq_attempt z = oq_attempt y"
      by (auto simp: attempt_of_def)
    with assms(2) obtain x' where x': "x' \<in> set (pvs_operations (wd_store w))" "oq_id x' = oq_id z" "oq_attempt z \<le> oq_attempt x'"
      "oq_status x' = OpQueued \<longrightarrow> oq_attempt z < oq_attempt x'"
      unfolding fenced_def behind_def by blast
    have "x' = x" using x' x z(2) y(1) assms(3) by (metis distinct_map inj_onD)
    with x' z y(2) show False by (auto split: if_splits)
  qed
  moreover have "y \<in> set (pvs_operations s')" using x by (auto simp: s' write_operation_def)
  then have "behind (pvs_operations s') y" unfolding behind_def using y(3) by (intro bexI [of _ y]) auto
  ultimately show ?thesis
    using assms(2) behind_advance [OF adv] unfolding fenced_def in_flight_def by auto
qed

lemma distinct_map_remove1: "distinct (map f xs) \<Longrightarrow> distinct (map f (remove1 x xs))"
  by (metis distinct_map distinct_remove1 inj_on_subset set_remove1_subset)

lemma handler_operations:
  "handle_create env uuid plan_id tenant key hash actor_id version request s = Inr s' \<Longrightarrow> pvs_operations s' = pvs_operations s"
  "handle_approve env approval_id tenant key revision actor_id b s = Inr s' \<Longrightarrow> pvs_operations s' = pvs_operations s"
  "handle_replan env plan_id tenant key revision idempotency reason v s = Inr s' \<Longrightarrow> pvs_operations s' = pvs_operations s"
  "handle_withdraw tenant key revision s = Inr s' \<Longrightarrow> pvs_operations s' = pvs_operations s"
proof -
  show "handle_create env uuid plan_id tenant key hash actor_id version request s = Inr s' \<Longrightarrow> pvs_operations s' = pvs_operations s"
    by (auto dest!: handle_create_cases create_converged_Inr)
  have "record_plan_decision i e d s = Inr s' \<Longrightarrow> pvs_operations s' = pvs_operations s" for i e d
    unfolding record_plan_decision_def by (auto split: sum.splits if_splits)
  then show "handle_approve env approval_id tenant key revision actor_id b s = Inr s' \<Longrightarrow> pvs_operations s' = pvs_operations s"
    unfolding handle_approve_def by (auto split: option.splits if_splits sum.splits bool.splits)
  have "replan_provisioning i e p k h s = Inr s' \<Longrightarrow> pvs_operations s' = pvs_operations s" for i e p k h
    unfolding replan_provisioning_def by (auto split: sum.splits if_splits dest!: insert_prov_plan_Inr)
  moreover have "replan_replayed c k h s = Some (Inr s') \<Longrightarrow> pvs_operations s' = pvs_operations s" for c k h
    unfolding replan_replayed_def by (auto split: option.splits if_splits)
  ultimately show "handle_replan env plan_id tenant key revision idempotency reason v s = Inr s' \<Longrightarrow> pvs_operations s' = pvs_operations s"
    unfolding handle_replan_def by (auto simp: Let_def split: option.splits if_splits sum.splits)
  show "handle_withdraw tenant key revision s = Inr s' \<Longrightarrow> pvs_operations s' = pvs_operations s"
    unfolding handle_withdraw_def withdraw_provisioning_def by (auto split: option.splits if_splits sum.splits)
qed

lemma accept_advance: "accept_operation i e x st s = Inr (y, created, s') \<Longrightarrow> ops_advance (pvs_operations s) (pvs_operations s')"
  unfolding accept_operation_def
  by (auto simp: Let_def ops_advance_append split: option.splits if_splits sum.splits)

lemma apply_advance:
  "handle_apply env new_id tenant key revision idempotency actor_id s = Inr s' \<Longrightarrow> ops_advance (pvs_operations s) (pvs_operations s')"
  "handle_remediate env new_id tenant key revision idempotency actor_id reason s = Inr s' \<Longrightarrow> ops_advance (pvs_operations s) (pvs_operations s')"
proof -
  show "handle_apply env new_id tenant key revision idempotency actor_id s = Inr s' \<Longrightarrow> ops_advance (pvs_operations s) (pvs_operations s')"
    unfolding handle_apply_def
    by (auto simp: Let_def split: option.splits if_splits sum.splits prod.splits bool.splits dest!: handle_accepted_Inr accept_advance)
  show "handle_remediate env new_id tenant key revision idempotency actor_id reason s = Inr s' \<Longrightarrow> ops_advance (pvs_operations s) (pvs_operations s')"
    unfolding handle_remediate_def
    by (auto simp: Let_def split: option.splits if_splits sum.splits prod.splits bool.splits dest!: handle_accepted_Inr accept_advance)
qed

lemma fenced_drop_claim: "fenced w \<Longrightarrow> fenced (w\<lparr>wd_claims := remove1 x (wd_claims w)\<rparr>)"
  using set_remove1_subset [of x "wd_claims w"] unfolding fenced_def in_flight_def
  by (auto simp: distinct_map_remove1)

lemma fenced_drop_outcome:
  assumes "fenced w"
  shows "fenced (w\<lparr>wd_outcomes := remove1 y (wd_outcomes w)\<rparr>)"
proof -
  have "distinct (map (attempt_of \<circ> fst) (remove1 y (wd_outcomes w)))"
    using assms unfolding fenced_def in_flight_def by (intro distinct_map_remove1) simp
  moreover have "fst ` set (remove1 y (wd_outcomes w)) \<subseteq> fst ` set (wd_outcomes w)"
    by (intro image_mono set_remove1_subset)
  ultimately show ?thesis
    using assms set_remove1_subset [of y "wd_outcomes w"] unfolding fenced_def in_flight_def by (simp, blast)
qed

lemma move_fenced:
  assumes "prov_move w w'" and "fenced w" and "governance_ok (wd_store w)"
  shows "fenced w'"
  using assms(1)
proof (cases rule: prov_move.cases)
  case (creating env uuid plan_id tenant key hash actor_id version request s')
  then show ?thesis using fenced_advance [OF assms(2), of s'] handler_operations(1) by auto
  next
  case (approving env approval_id tenant key revision actor_id b s')
  then show ?thesis using fenced_advance [OF assms(2), of s'] handler_operations(2) by auto
  next
  case (applying env new_id tenant key revision idempotency actor_id s')
  then show ?thesis using fenced_advance [OF assms(2) apply_advance(1)] by auto
  next
  case (remediating env new_id tenant key revision idempotency actor_id reason s')
  then show ?thesis using fenced_advance [OF assms(2) apply_advance(2)] by auto
  next
  case (replanning env plan_id tenant key revision idempotency reason version s')
  then show ?thesis using fenced_advance [OF assms(2), of s'] handler_operations(3) by auto
  next
  case (withdrawing tenant key revision s')
  then show ?thesis using fenced_advance [OF assms(2), of s'] handler_operations(4) by auto
  next
  case (retrying env i key s')
  from handle_retry_cases [OF retrying(2)] obtain y where "retry_operation i key (wd_store w) = Inr (y, s')" by blast
  from fenced_advance [OF assms(2) retry_advance [OF this governance_operation_ids [OF assms(3)]]] retrying(1) show ?thesis by simp
  next
  case (cancelling i s')
  from handle_cancel_cases [OF cancelling(2)] obtain y where "cancel_operation i (wd_store w) = Inr (y, s')" by blast
  from fenced_advance [OF assms(2) cancel_advance [OF this governance_operation_ids [OF assms(3)]]] cancelling(1) show ?thesis by simp
  next
  case (sweeping now)
  with fenced_advance [OF assms(2) finish_advance] show ?thesis by simp
  next
  case (claiming now lease x s')
  with claim_fenced [OF claiming(2) assms(2) governance_operation_ids [OF assms(3)]] show ?thesis by simp
  next
  case (executing x xv oc s')
  from execute_operations [OF executing(3)] have e: "pvs_operations s' = pvs_operations (wd_store w)" "oc_status oc \<noteq> OpQueued" by simp_all
  have perm: "mset (in_flight w') = mset (in_flight w)"
    using executing(2) unfolding executing(1) in_flight_def by simp
  then have "distinct (map attempt_of (in_flight w')) = distinct (map attempt_of (in_flight w))" "set (in_flight w') = set (in_flight w)"
    by (metis mset_eq_imp_distinct_iff mset_map, metis set_mset_mset)
  with e assms(2) show ?thesis unfolding fenced_def executing(1) by auto
  next
  case (completing x oc s')
  from complete_execution_operations [OF completing(3)] obtain r where r: "r \<in> set (pvs_operations (wd_store w))" "oq_id r = oq_id x"
    and ops: "pvs_operations s' = pvs_operations (write_operation (oq_id r) (completed_row oc r) (wd_store w))" by auto
  have "oc_status oc \<noteq> OpQueued" using assms(2) completing(2) unfolding fenced_def by force
  then have "ops_advance (pvs_operations (wd_store w)) (pvs_operations s')"
    unfolding ops by (intro write_operation_advance [OF r(1) governance_operation_ids [OF assms(3)]]) (simp_all add: completed_row_status)
  from fenced_drop_outcome [OF fenced_advance [OF assms(2) this]] show ?thesis by (simp add: completing(1))
  next
  case (dying x)
  with fenced_drop_claim [OF assms(2)] show ?thesis by simp
  next
  case (losing x oc)
  with fenced_drop_outcome [OF assms(2)] show ?thesis by simp
qed

lemma reachable_fenced: "prov_reachable w \<Longrightarrow> fenced w"
proof (induction rule: prov_reachable.induct)
  case start
  show ?case by (simp add: fenced_def in_flight_def empty_world_def)
next
  case (move w w')
  then show ?case using move_fenced reachable_governance by blast
qed

lemma complete_lost:
  assumes "\<And>r. r \<in> set (pvs_operations s) \<Longrightarrow> oq_id r = oq_id y \<Longrightarrow> oq_attempt r \<noteq> oq_attempt y"
  shows "complete_execution y oc s = Inl PvLeaseLost"
proof -
  have "find (\<lambda>x. oq_id x = oq_id y \<and> oq_attempt x = oq_attempt y \<and> oq_status x \<in> {OpPreparing, OpRunning, OpCancelRequested}) (pvs_operations s) = None"
    using assms by (auto simp: find_None_iff)
  then show ?thesis by (simp add: complete_execution_def complete_operation_def)
qed

text \<open>
  C16 (invariant): one attempt, one outcome. In every reachable world, however commands, executors and lapsed leases interleave, if
  an executor can record its outcome for an operation then every other execution of that operation in flight is of an
  earlier attempt, and can record nothing: neither before nor after, it is told that its lease is lost and the store is left
  as it is.
\<close>

theorem attempts_fenced:
  assumes "prov_reachable w" and "(x, oc) \<in> set (wd_outcomes w)" and "complete_execution x oc (wd_store w) = Inr s'"
    and "y \<in> set (in_flight w)" and "oq_id y = oq_id x" and "y \<noteq> x"
  shows "oq_attempt y < oq_attempt x \<and> complete_execution y oc' (wd_store w) = Inl PvLeaseLost \<and> complete_execution y oc' s' = Inl PvLeaseLost"
proof -
  note fence = reachable_fenced [OF assms(1)] and ids = governance_operation_ids [OF reachable_governance [OF assms(1)]]
  from complete_execution_operations [OF assms(3)] obtain r where r: "r \<in> set (pvs_operations (wd_store w))" "oq_id r = oq_id x"
    "oq_attempt r = oq_attempt x" and ops: "pvs_operations s' = pvs_operations (write_operation (oq_id x) (completed_row oc r) (wd_store w))" by blast
  have unique: "z = r" if "z \<in> set (pvs_operations (wd_store w))" "oq_id z = oq_id x" for z
    using that r ids by (metis distinct_map inj_onD)
  from fence assms(4) obtain z where "z \<in> set (pvs_operations (wd_store w))" "oq_id z = oq_id y" "oq_attempt y \<le> oq_attempt z"
    unfolding fenced_def behind_def by blast
  with unique assms(5) r have le: "oq_attempt y \<le> oq_attempt x" by auto
  have "inj_on attempt_of (set (in_flight w))" using fence unfolding fenced_def by (simp add: distinct_map)
  moreover have "x \<in> set (in_flight w)" using assms(2) unfolding in_flight_def by force
  ultimately have "attempt_of y \<noteq> attempt_of x" using assms(4,6) by (auto dest: inj_onD)
  with assms(5) have "oq_attempt y \<noteq> oq_attempt x" by (auto simp: attempt_of_def)
  with le have less: "oq_attempt y < oq_attempt x" by simp
  have before: "oq_attempt z \<noteq> oq_attempt y" if "z \<in> set (pvs_operations (wd_store w))" "oq_id z = oq_id y" for z
  proof -
    from that assms(5) have "z = r" by (intro unique) simp_all
    with r(3) less show ?thesis by simp
  qed
  have after: "oq_attempt z \<noteq> oq_attempt y" if "z \<in> set (pvs_operations s')" "oq_id z = oq_id y" for z
  proof -
    from that(1) obtain z0 where z0: "z0 \<in> set (pvs_operations (wd_store w))" and z: "z = (if oq_id z0 = oq_id x then completed_row oc r else z0)"
      unfolding ops write_operation_def by auto
    show ?thesis
    proof (cases "oq_id z0 = oq_id x")
      case True
      with z have "oq_attempt z = oq_attempt r" by (simp add: completed_row_def Let_def)
      with r(3) less show ?thesis by simp
    next
      case False
      with z that(2) assms(5) show ?thesis by simp
    qed
  qed
  from complete_lost [OF before] complete_lost [OF after] less show ?thesis by blast
qed

section \<open>A history\<close>

text \<open>
  A provisioning created by one principal, approved by another, applied and claimed twice, the second time because the first
  lease lapsed.
\<close>

definition ex_onboarding :: onboarding_request where
  "ex_onboarding = \<lparr>og_id = ''tor_1'', og_admission_decision_id = ''adm_1'', og_status = ''FULFILLED'', og_desired = \<lparr>oi_display_name = ''T'',
     oi_residency_region = ''eu'', oi_isolation_strategy = ''SHARED'', oi_market_scope = [''KE''],
     oi_participation = [\<lparr>mq_market = ''KE'', mq_activities = [''SELL'']\<rparr>], oi_products = [''p'']\<rparr>, og_authorised_by = ''carol'', og_tenant_id = ''tn_1''\<rparr>"

definition ex_prov_env :: "instant \<Rightarrow> prov_env" where
  "ex_prov_env now = \<lparr>vv_hashing = ex_hashing, vv_policy = standard_policy, vv_registry = ex_executable, vv_environment = ''test'',
     vv_clock = now, vv_request_hash = (\<lambda>s. s)\<rparr>"

definition ex_prov_uuid :: string where
  "ex_prov_uuid = ''0190a1b2-c3d4-7e5f-8a9b-0c1d2e3f4a5b''"

definition ex_prov_key :: string where
  "ex_prov_key = new_opaque_id ''tp_'' ex_prov_uuid"

definition ex_created :: "command_error + provisioning_store" where
  "ex_created = handle_create (ex_prov_env 5) ex_prov_uuid ''plan_1'' ''tn_1'' ''k'' ''h'' ''alice'' (Some 1) (Some ex_onboarding) (wd_store empty_world)"

definition ex_decision_body :: decision_body where
  "ex_decision_body = \<lparr>db_plan_id = ''plan_1'', db_plan_version = 1, db_plan_digest = ''sha'', db_decision = ''APPROVED'', db_reason = []\<rparr>"

definition ex_approved :: "command_error + provisioning_store" where
  "ex_approved = handle_approve (ex_prov_env 6) ''apd_1'' ''tn_1'' ex_prov_key 1 ''bob'' ex_decision_body (projr ex_created)"

definition ex_applied :: "command_error + provisioning_store" where
  "ex_applied = handle_apply (ex_prov_env 7) ''op_000001'' ''tn_1'' ex_prov_key 2 ''k1'' ''alice'' (projr ex_approved)"

definition ex_claimed :: "(operation_row \<times> provisioning_store) option" where
  "ex_claimed = claim_operation 8 60 (projr ex_applied)"

definition ex_executor :: executor_env where
  "ex_executor = \<lparr>xv_env = ex_prov_env 9, xv_registry = ex_execution, xv_legal_entity = (\<lambda>t. Some ''le''),
     xv_pipeline = (\<lambda>t m. Some (ex_pipeline True))\<rparr>"

definition ex_executed :: "execution_outcome \<times> provisioning_store" where
  "ex_executed = execute ex_executor (fst (the ex_claimed)) (snd (the ex_claimed))"

lemma prov_history_ok:
  "\<not> isl ex_created" "\<not> isl ex_approved" "\<not> isl ex_applied" "ex_claimed \<noteq> None" "oc_status (fst ex_executed) = OpSucceeded"
  by code_simp+

definition ex_claim_world :: prov_world where
  "ex_claim_world = \<lparr>wd_store = snd (the ex_claimed), wd_claims = [fst (the ex_claimed)], wd_outcomes = []\<rparr>"

lemma history_reachable: "prov_reachable ex_claim_world"
proof -
  let ?w = "\<lambda>s. empty_world\<lparr>wd_store := s\<rparr>"
  have "prov_move empty_world (?w (projr ex_created))"
    by (rule prov_move.creating [of "ex_prov_env 5" ex_prov_uuid "''plan_1''" "''tn_1''" "''k''" "''h''" "''alice''" "Some 1" "Some ex_onboarding"])
      (use prov_history_ok(1) in \<open>simp add: ex_created_def [symmetric]\<close>)
  with prov_reachable.start have "prov_reachable (?w (projr ex_created))" by (rule prov_reachable.move)
  moreover have "prov_move (?w (projr ex_created)) ((?w (projr ex_created))\<lparr>wd_store := projr ex_approved\<rparr>)"
    by (rule prov_move.approving [of "ex_prov_env 6" "''apd_1''" "''tn_1''" ex_prov_key 1 "''bob''" ex_decision_body])
      (use prov_history_ok(2) in \<open>simp add: ex_approved_def [symmetric]\<close>)
  ultimately have "prov_reachable (?w (projr ex_approved))" using prov_reachable.move by fastforce
  moreover have "prov_move (?w (projr ex_approved)) ((?w (projr ex_approved))\<lparr>wd_store := projr ex_applied\<rparr>)"
    by (rule prov_move.applying [of "ex_prov_env 7" "''op_000001''" "''tn_1''" ex_prov_key 2 "''k1''" "''alice''"])
      (use prov_history_ok(3) in \<open>simp add: ex_applied_def [symmetric]\<close>)
  ultimately have "prov_reachable (?w (projr ex_applied))" using prov_reachable.move by fastforce
  moreover have "prov_move (?w (projr ex_applied)) ((?w (projr ex_applied))\<lparr>wd_store := snd (the ex_claimed),
      wd_claims := fst (the ex_claimed) # wd_claims (?w (projr ex_applied))\<rparr>)"
    by (rule prov_move.claiming [of 8 60]) (use prov_history_ok(4) in \<open>simp add: ex_claimed_def [symmetric]\<close>)
  ultimately have "prov_reachable ((?w (projr ex_applied))\<lparr>wd_store := snd (the ex_claimed),
      wd_claims := fst (the ex_claimed) # wd_claims (?w (projr ex_applied))\<rparr>)" by (rule prov_reachable.move)
  then show ?thesis by (simp add: ex_claim_world_def empty_world_def)
qed

theorem executed_plan_approved_witness:
  "\<exists>c p d. get_converged (snd (the ex_claimed)) (the (parse_resource_id ''tp'' (oq_subject (fst (the ex_claimed))))) = Some c \<and>
    cvg_plan c = Some p \<and> d \<in> set (pvs_decisions (snd (the ex_claimed))) \<and> pdc_decision d = ''APPROVED'' \<and> pdc_plan_digest d = pvp_plan_digest p \<and>
    pdc_decided_by d \<noteq> pr_created_by (cvg_row c)"
proof -
  have "execute ex_executor (fst (the ex_claimed)) (wd_store ex_claim_world) = (fst ex_executed, snd ex_executed)"
    by (simp add: ex_executed_def ex_claim_world_def)
  from executed_plan_approved [OF history_reachable this] prov_history_ok(5) show ?thesis
    unfolding ex_claim_world_def by fastforce
qed

definition ex_reclaimed :: "(operation_row \<times> provisioning_store) option" where
  "ex_reclaimed = claim_operation 100 60 (snd (the ex_claimed))"

definition ex_abandoned :: execution_outcome where
  "ex_abandoned = failure ''TENANT_UNAVAILABLE'' True"

definition ex_unreachable :: executor_env where
  "ex_unreachable = ex_executor\<lparr>xv_legal_entity := (\<lambda>t. None)\<rparr>"

definition ex_late_world :: prov_world where
  "ex_late_world = \<lparr>wd_store = snd (the ex_reclaimed), wd_claims = [fst (the ex_claimed)],
     wd_outcomes = [(fst (the ex_reclaimed), ex_abandoned)]\<rparr>"

lemma ex_late:
  "ex_reclaimed \<noteq> None \<and> oq_id (fst (the ex_claimed)) = oq_id (fst (the ex_reclaimed)) \<and>
    oq_attempt (fst (the ex_claimed)) = 1 \<and> oq_attempt (fst (the ex_reclaimed)) = 2 \<and>
    execute ex_unreachable (fst (the ex_reclaimed)) (snd (the ex_reclaimed)) = (ex_abandoned, snd (the ex_reclaimed)) \<and>
    \<not> isl (complete_execution (fst (the ex_reclaimed)) ex_abandoned (snd (the ex_reclaimed)))"
  by code_simp

lemma late_reachable: "prov_reachable ex_late_world"
proof -
  let ?x = "fst (the ex_reclaimed)" and ?s = "snd (the ex_reclaimed)"
  let ?w = "ex_claim_world\<lparr>wd_store := ?s, wd_claims := ?x # wd_claims ex_claim_world\<rparr>"
  have "prov_move ex_claim_world ?w"
    by (rule prov_move.claiming [of 100 60]) (use ex_late in \<open>simp add: ex_claim_world_def ex_reclaimed_def [symmetric]\<close>)
  with history_reachable have "prov_reachable ?w" by (rule prov_reachable.move)
  moreover have "prov_move ?w (?w\<lparr>wd_store := ?s, wd_claims := remove1 ?x (wd_claims ?w), wd_outcomes := (?x, ex_abandoned) # wd_outcomes ?w\<rparr>)"
    by (rule prov_move.executing [of _ _ ex_unreachable]) (use ex_late in simp_all)
  ultimately have "prov_reachable (?w\<lparr>wd_store := ?s, wd_claims := remove1 ?x (wd_claims ?w), wd_outcomes := (?x, ex_abandoned) # wd_outcomes ?w\<rparr>)"
    by (rule prov_reachable.move)
  then show ?thesis by (simp add: ex_claim_world_def ex_late_world_def)
qed

theorem attempts_fenced_witness:
  "complete_execution (fst (the ex_claimed)) ex_abandoned (snd (the ex_reclaimed)) = Inl PvLeaseLost"
proof -
  have "(fst (the ex_reclaimed), ex_abandoned) \<in> set (wd_outcomes ex_late_world)"
    "complete_execution (fst (the ex_reclaimed)) ex_abandoned (wd_store ex_late_world) =
      Inr (projr (complete_execution (fst (the ex_reclaimed)) ex_abandoned (snd (the ex_reclaimed))))"
    "fst (the ex_claimed) \<in> set (in_flight ex_late_world)" "oq_id (fst (the ex_claimed)) = oq_id (fst (the ex_reclaimed))"
    "fst (the ex_claimed) \<noteq> fst (the ex_reclaimed)"
    using ex_late by (auto simp: ex_late_world_def in_flight_def)
  from attempts_fenced [OF late_reachable this] show ?thesis by (simp add: ex_late_world_def)
qed

section \<open>Where commands and executions disagree\<close>

text \<open>
  Accepting an apply or a remediation refuses a second active operation of one provisioning; retrying does not look for one, and
  the provisioning stays BLOCKED: its two blocked operations are both queued again.
\<close>

lemma find_written_elsewhere:
  assumes "i \<noteq> j" and "oq_id x = i"
  shows "find (\<lambda>z. oq_id z = j) (pvs_operations (write_operation i x s)) = find (\<lambda>z. oq_id z = j) (pvs_operations s)"
proof -
  have "find (\<lambda>z. oq_id z = j) (map (\<lambda>z. if oq_id z = i then x else z) zs) = find (\<lambda>z. oq_id z = j) zs" for zs
    by (induction zs) (use assms in auto)
  then show ?thesis by (simp add: write_operation_def)
qed

lemma retry_two_active:
  assumes x: "find (\<lambda>z. oq_id z = i) (pvs_operations s) = Some x" and y: "find (\<lambda>z. oq_id z = j) (pvs_operations s) = Some y" and "i \<noteq> j"
    and "oq_status x = OpBlocked" "oq_status y = OpBlocked" "oq_retryable x" "oq_retryable y" "oq_retry_key x = []" "oq_retry_key y = []"
    and "k \<noteq> []"
  shows "\<exists>x' y' s1 s2. retry_operation i k s = Inr (x', s1) \<and> retry_operation j k s1 = Inr (y', s2) \<and> oq_subject x' = oq_subject x \<and>
    oq_subject y' = oq_subject y \<and> {x', y'} \<subseteq> set (pvs_operations s2) \<and> operation_active_status (oq_status x') \<and> operation_active_status (oq_status y')"
proof -
  let ?x = "x\<lparr>oq_status := OpQueued, oq_attempt := oq_attempt x + 1, oq_retryable := False, oq_problem := [], oq_completed := False,
    oq_lease := None, oq_retry_key := k, oq_revision := oq_revision x + 1\<rparr>"
  let ?y = "y\<lparr>oq_status := OpQueued, oq_attempt := oq_attempt y + 1, oq_retryable := False, oq_problem := [], oq_completed := False,
    oq_lease := None, oq_retry_key := k, oq_revision := oq_revision y + 1\<rparr>"
  let ?free = "\<lambda>subject. write_rows (\<lambda>r. row_key r = subject) (\<lambda>r. bump_version (r\<lparr>pr_blocked_reason := []\<rparr>))"
  let ?s1 = "?free (oq_subject x) (write_operation i ?x s)"
  have ids: "x \<in> set (pvs_operations s)" "oq_id x = i" "y \<in> set (pvs_operations s)" "oq_id y = j"
    using find_SomeD [OF x] find_SomeD [OF y] by simp_all
  have "retry_operation i k s = Inr (?x, ?s1)"
    using assms by (simp add: retry_operation_def Let_def)
  moreover have "find (\<lambda>z. oq_id z = j) (pvs_operations ?s1) = Some y"
    using y \<open>i \<noteq> j\<close> ids(2) by (simp add: find_written_elsewhere)
  then have "retry_operation j k ?s1 = Inr (?y, ?free (oq_subject y) (write_operation j ?y ?s1))"
    using assms by (simp add: retry_operation_def Let_def)
  moreover have "{?x, ?y} \<subseteq> set (pvs_operations (?free (oq_subject y) (write_operation j ?y ?s1)))"
    using ids \<open>i \<noteq> j\<close> by (force simp: write_operation_def image_iff)
  ultimately show ?thesis by (fastforce simp: operation_active_status_def)
qed

text \<open>
  A failed execution is recorded on the provisioning only in the states APPLYING and REMEDIATING, and a provisioning being
  applied has neither: when an apply fails before the pipeline, the provisioning stays PLANNED, and the operation, failed
  and retryable, cannot be retried.
\<close>

lemma failed_apply_not_retried:
  "(case complete_execution (fst (the ex_reclaimed)) ex_abandoned (snd (the ex_reclaimed)) of
     Inl e \<Rightarrow> False
   | Inr s \<Rightarrow> map (\<lambda>x. (oq_status x, oq_retryable x)) (pvs_operations s) = [(OpFailed, True)] \<and>
       handle_retry (ex_prov_env 101) ''op_000001'' ''k2'' s = Inl PvStateConflict)"
  by code_simp

text \<open>
  Attempts count retries and resumptions alike: from the fifth attempt on a retry is accepted, and every execution of it is
  abandoned as retryable.
\<close>

lemma retried_but_abandoned:
  assumes "find (\<lambda>z. oq_id z = i) (pvs_operations s) = Some x" and "oq_retryable x" and "oq_status x = OpFailed" and "oq_retry_key x \<noteq> k"
    and "5 \<le> oq_attempt x"
  shows "\<exists>y s1. retry_operation i k s = Inr (y, s1) \<and> (\<forall>xv s2. execute xv y s2 = (failure ''EXECUTION_ABANDONED'' True, s2))"
proof -
  from assms obtain y s1 where "retry_operation i k s = Inr (y, s1)" "oq_attempt y = oq_attempt x + 1"
    by (simp add: retry_operation_def Let_def)
  moreover from this(2) assms(5) have "execute xv y s2 = (failure ''EXECUTION_ABANDONED'' True, s2)" for xv s2
    by (simp add: execute_def)
  ultimately show ?thesis by blast
qed

end
