(* ===== verification/Spec2Isabelle.thy ===== *)
theory Spec2Isabelle
  imports Release_Guard Migration_Resolution Resolution_Cache Mapping_Admin Provisioning_Store
begin

text \<open>
  A verification library for the Baobab Control Plane (\<open>internal/\<close>, Go): the governed core that decides who may administer
  what, turns changes into approved and applied changesets, tracks engine releases and their drift, plans and executes
  provider migrations, provisions tenants from approved plans, keeps governed mappings to external systems, and resolves a
  capability to the engine instance that serves it.

  \<^bold>\<open>Parts and how they interact.\<close> Administrative grants (\<open>internal/administration\<close>) decide every administrative request. A
  change is drafted, validated, planned and put through the changeset lifecycle (\<open>internal/changeset\<close>); the repository
  (\<open>internal/repository/postgres_changeset.go\<close>) applies it under a semantic lock to its target: an administrative grant, a tenant,
  an engine release or the desired release of an instance. Engines report which artifacts they run; the release package derives
  the observed release, opens and resolves drift, and readiness follows. A provider migration is planned from authoritative
  facts, approved, and advanced stage by stage by moving capability bindings and tasking the engines. The resolver reads
  the same bindings, with grants, scopes and health, to decide which instance serves a request; the resolution service adds
  mappings of canonical entities to native identities and caches its decisions. A tenant is provisioned from an authorised
  onboarding request: its intent is frozen, planned against the same registry of capabilities, candidates and health, decided by
  another principal, and executed as a durable operation by an executor that runs the orchestrator under a lease.

  \<^bold>\<open>Theories and sources.\<close>
  \<^item> \<open>Prelude\<close>: Go integers, instants, durations, byte strings, first-error chains; the locales \<open>transition_table\<close> and \<open>newest_first\<close>.
  \<^item> \<open>Domain_Ids\<close>: \<open>domain/ids.go\<close>, \<open>organisation_ids.go\<close>: identifier grammars, derived keys, resource identifiers.
  \<^item> \<open>Admin_Scope\<close>, \<open>Admin_Catalogue\<close>, \<open>Admin_Grant\<close>, \<open>Admin_Evaluate\<close>, \<open>Admin_Administer\<close>, \<open>Admin_Policy\<close>: \<open>administration/*.go\<close>,
    one theory per concern in the order scope, catalogue, grant, decision, administration, policies.
  \<^item> \<open>Changeset_Lifecycle\<close>, \<open>Changeset_Plan\<close>, \<open>Changeset_Store\<close>: \<open>changeset/*.go\<close> and \<open>postgres_changeset.go\<close>. The tables are a
    record, each command a function from state to error or state; validation of the actor and audit rows are left out.
  \<^item> \<open>Health\<close>: \<open>health/*.go\<close>: observations, the policy document, eligibility.
  \<^item> \<open>Release\<close>, \<open>Release_Drift\<close>, \<open>Release_Store\<close>, \<open>Release_Guard\<close>: \<open>topology/release/*.go\<close>, \<open>postgres_engine_release.go\<close>,
    \<open>postgres_desired_release.go\<close>, \<open>postgres_release_drift.go\<close>, \<open>postgres_observation.go\<close>, with the guarding triggers of their
    migrations, and the release targets of the changeset commands.
  \<^item> \<open>Migration_Plan\<close>, \<open>Migration_Run\<close>, \<open>Migration_Exec\<close>, \<open>Migration_Authority\<close>, \<open>Migration_Guard\<close>, \<open>Migration_Safety\<close>:
    \<open>topology/migration/*.go\<close>, \<open>postgres_provider_migration*.go\<close>, \<open>postgres_engine_migration_task.go\<close>: the planner, the selection
    of steps, the executor over ledger, bindings, operations and tasks, and the invariants of reachable states.
  \<^item> \<open>Capability_Domain\<close>: \<open>capability/domain/*.go\<close> and the dependency command of \<open>postgres.go\<close>.
  \<^item> \<open>Resolver\<close>: \<open>resolver/*.go\<close> and \<open>domain/resolution.go\<close>; the locale \<open>ranking\<close> is the contract of a resolver that sorts its
    candidates and compares the first two.
  \<^item> \<open>Capability_Resolution\<close>: \<open>service/capability_resolution.go\<close> over the rows and columns its queries read.
  \<^item> \<open>Migration_Resolution\<close>: the rows the migration executor writes as the resolver reads them.
  \<^item> \<open>Timestamp\<close>, \<open>Mapping_Resolver\<close>: timestamps of the years 1 to 9999 as text, \<open>domain/canonical.go\<close> and \<open>resolver/mapping.go\<close>.
  \<^item> \<open>Resolution_Pipeline\<close>, \<open>Resolution_Cache\<close>: \<open>resolver/pipeline.go\<close>, \<open>service/resolution_service.go\<close> over the same rows, and
    \<open>service/resolution_cache.go\<close>.
  \<^item> \<open>Mapping_Admin\<close>: \<open>postgres_mapping_admin.go\<close> with the constraints of its tables: external references, and mappings proposed,
    validated, approved, activated, suspended and retired.
  \<^item> \<open>Provisioning_Run\<close>: \<open>provisioning/domain/tenant_provisioning.go\<close>, the service, the workers and the orchestrator of
    \<open>provisioning/*.go\<close>, over the rows of \<open>postgres.go\<close> and the trigger that follows their status.
  \<^item> \<open>Provisioning_Plan\<close>: \<open>provisioning/convergence/*.go\<close> and \<open>provisioning/apply/execution.go\<close>: the frozen desired state, the planner,
    digests, the manifest of a plan.
  \<^item> \<open>Provisioning_Store\<close>: \<open>postgres_convergence.go\<close>, \<open>postgres_provisioning_commands.go\<close>, \<open>postgres_operations.go\<close>, the commands of
    \<open>api/provisioning_*_handler.go\<close> and \<open>provisioning/apply/executor.go\<close>, as a transition system of commands, claims, executions
    and completions.

  \<^bold>\<open>What the lemmas show.\<close> Administration: the decision is characterised, eligibility refines an abstract delegation chain,
  containment implies coverage, planned grants are usable and never wider than their grantor's. Changesets: terminal states
  are final, whatever completed was validated, planned, approved by another principal and applied on the target it was planned
  for. Releases: a desired release is never revoked, releases are immutable, drift follows the observed release. Migrations: in
  every reachable database each moved binding has exactly one authoritative side, which follows the stage; a failed
  advance leaves no trace. Resolution: the outcome is the unique best candidate, independent of the order of rows; a
  resolved decision rests on a current grant and the best healthy binding, every decision can be recorded, and during a migration
  the resolver follows the authoritative side. A routed request rests on an active mapping of its own tenant and is not changed by
  rows of others; a cached decision is current. Mappings: what is or was active was validated and approved by somebody else
  than its proposer, and no relationship is active twice at a time; proposals are idempotent, retirement keeps history. Provisioning: a
  plan has no blocker exactly when everything it needs is available, binds only eligible instances, does not depend on the
  order of rows, lists its steps in the order of their dependencies and executes as planned; only an approved plan that is still
  what planning yields is executed, an outcome is recorded by the latest attempt only, and an activated provisioning
  has converged. Lemmas on single defects state what the code does where it differs from its comments or documents.

  \<^bold>\<open>State, bounds and fuel.\<close> Tables are records of maps and lists; commands return the error or the new state; sequences of
  commands are \<open>inductive\<close> step relations with reachable states. 64-bit arithmetic wraps explicitly (\<open>wrap64\<close>), durations saturate
  as \<open>Time.Sub\<close> does. The depth of a delegation chain is bounded by the code itself. The cycle search takes the number of
  nodes plus one as fuel, and the search is proved to return. The loop of the orchestrator is a \<open>function\<close> whose termination
  follows from the phases it passes. Digests, new identifiers and the clock are arguments; the
  properties that need it assume that the digest is injective on the compared material.

  \<^bold>\<open>Not modelled.\<close> Decoding of HTTP requests, routing and responses (\<open>api\<close>, except the commands of provisioning from the decoded
  request on), process wiring (\<open>cmd\<close>, \<open>config\<close>), the loaders of embedded documents (\<open>contracts\<close>; the documents appear as literals),
  connection failures and concurrency inside one transaction (\<open>store\<close>): the commands run one after the other, as their row
  locks and advisory locks order them. The apply steps, resource reconcilers and readiness checks of provisioning are parameters of
  its orchestrator. Verification, admission, billing, custody, events, identity, the catalogue and certification of capabilities and the
  remaining tables of the repository are not modelled: they read and write single rows, or talk to external systems. The
  frontend is not Go.
\<close>

end
